(* ===== verification/Prelude.thy ===== *)
theory Prelude
  imports Main "HOL-Library.Word" "HOL-Library.List_Lexorder"
begin

text \<open>
  The vocabulary every component shares: machine integers, Rust strings as lists of
  Unicode scalar values, the outcome of a fallible call, and the string routines of the
  Rust standard library that the code calls (\<^verbatim>\<open>split\<close>, \<^verbatim>\<open>split_once\<close>, \<^verbatim>\<open>trim\<close>, \<^verbatim>\<open>lines\<close>,
  \<^verbatim>\<open>contains\<close>, \<^verbatim>\<open>join\<close>, \<^verbatim>\<open>parse\<close>, \<^verbatim>\<open>to_string\<close>), with the lemmas the component proofs
  rest on.
\<close>

section \<open>Collections of facts\<close>

named_theorems codec_simps \<open>tables of enum names and their inverses\<close>
named_theorems res_simps \<open>outcomes of sequenced fallible calls\<close>

section \<open>Machine integers\<close>

type_synonym u8 = "8 word"
type_synonym u16 = "16 word"
type_synonym u32 = "32 word"
type_synonym u64 = "64 word"
type_synonym bytes = "u8 list"

text \<open>\<^verbatim>\<open>u64::saturating_sub\<close> and its kin.\<close>

definition sat_sub :: "'a::len word \<Rightarrow> 'a word \<Rightarrow> 'a word" where
  "sat_sub a b = (if b \<le> a then a - b else 0)"

lemma unat_sat_sub: "unat (sat_sub a b) = unat a - unat b"
  by (auto simp: sat_sub_def unat_sub word_le_nat_alt)

lemma unat_megabytes: "unat ((ucast (w :: u32) :: u64) * 1024 * 1024) = unat w * 1048576"
proof -
  have lt: "unat w < 2 ^ 32" using unsigned_less [of w] by simp
  have "(ucast w :: u64) = of_nat (unat w)"
    by (simp add: word_unat_eq_iff unat_of_nat unsigned_ucast_eq)
  then have "(ucast w :: u64) * 1024 * 1024 = of_nat (unat w * 1048576)"
    by (simp only: of_nat_mult mult.assoc) simp
  with lt show ?thesis
    by (simp only: unat_of_nat) (simp add: take_bit_eq_mod)
qed

section \<open>Outcomes\<close>

text \<open>
  \<^verbatim>\<open>Result<T, E>\<close>, with a third outcome for a panic (\<^verbatim>\<open>unreachable!()\<close>, a slice out of
  bounds): the caller of a panicking function gets no value and no error to match on.
\<close>

datatype ('a, 'e) result = Ok 'a | Err 'e | Panic

primrec rbind :: "('a, 'e) result \<Rightarrow> ('a \<Rightarrow> ('b, 'e) result) \<Rightarrow> ('b, 'e) result" where
  "rbind (Ok a) f = f a"
| "rbind (Err e) f = Err e"
| "rbind Panic f = Panic"

primrec map_err :: "('e \<Rightarrow> 'f) \<Rightarrow> ('a, 'e) result \<Rightarrow> ('a, 'f) result" where
  "map_err g (Ok a) = Ok a"
| "map_err g (Err e) = Err (g e)"
| "map_err g Panic = Panic"

primrec is_ok :: "('a, 'e) result \<Rightarrow> bool" where
  "is_ok (Ok a) = True"
| "is_ok (Err e) = False"
| "is_ok Panic = False"

lemma rbind_Ok_iff [res_simps]: "rbind m f = Ok b \<longleftrightarrow> (\<exists>a. m = Ok a \<and> f a = Ok b)"
  by (cases m) auto

lemma rbind_Panic_iff [res_simps]:
  "rbind m f = Panic \<longleftrightarrow> m = Panic \<or> (\<exists>a. m = Ok a \<and> f a = Panic)"
  by (cases m) auto

lemma rbind_Err_iff [res_simps]:
  "rbind m f = Err e \<longleftrightarrow> m = Err e \<or> (\<exists>a. m = Ok a \<and> f a = Err e)"
  by (cases m) auto

lemma map_err_Ok_iff [simp]: "map_err g m = Ok b \<longleftrightarrow> m = Ok b"
  by (cases m) auto

lemma map_err_Panic_iff [simp]: "map_err g m = Panic \<longleftrightarrow> m = Panic"
  by (cases m) auto

lemma if_Err_Ok_iff [simp]:
  "(if b then Err e else m) = Ok y \<longleftrightarrow> \<not> b \<and> m = Ok y"
  "(if b then m else Err e) = Ok y \<longleftrightarrow> b \<and> m = Ok y"
  by auto

lemma is_ok_iff: "is_ok m \<longleftrightarrow> (\<exists>a. m = Ok a)"
  by (cases m) auto

section \<open>Strings\<close>

text \<open>
  A Rust \<^verbatim>\<open>String\<close> is a sequence of Unicode scalar values. \<open>lit\<close> embeds an ASCII literal;
  \<open>str_len\<close> is \<^verbatim>\<open>str::len\<close>, the number of UTF-8 bytes. Offsets returned by \<^verbatim>\<open>find\<close> are only
  used to cut the string at a character boundary, so the model cuts at character
  positions.
\<close>

type_synonym uchar = nat
type_synonym ustr = "uchar list"

definition lit :: "string \<Rightarrow> ustr" where
  "lit s = map of_char s"

lemma of_char_nat_inj: "(of_char c :: nat) = of_char d \<longleftrightarrow> c = d"
  by simp

lemma lit_inject [simp]: "lit s = lit t \<longleftrightarrow> s = t"
proof -
  have "inj (of_char :: char \<Rightarrow> nat)" by (rule injI) simp
  then show ?thesis by (simp add: lit_def)
qed

lemma lit_Nil [simp]: "lit [] = []" "lit s = [] \<longleftrightarrow> s = []" "[] = lit s \<longleftrightarrow> s = []"
  by (auto simp: lit_def)

lemma lit_Cons: "lit (c # s) = of_char c # lit s"
  by (simp add: lit_def)

lemma length_lit [simp]: "length (lit s) = length s"
  by (simp add: lit_def)

definition utf8_len :: "uchar \<Rightarrow> nat" where
  "utf8_len c = (if c < 0x80 then 1 else if c < 0x800 then 2 else if c < 0x10000 then 3 else 4)"

definition str_len :: "ustr \<Rightarrow> nat" where
  "str_len s = sum_list (map utf8_len s)"

lemma str_len_simps [simp]:
  "str_len [] = 0" "str_len (c # s) = utf8_len c + str_len s" "str_len (s @ t) = str_len s + str_len t"
  by (simp_all add: str_len_def)

lemma utf8_len_bounds: "1 \<le> utf8_len c" "utf8_len c \<le> 4"
  by (auto simp: utf8_len_def)

lemma str_len_append: "str_len (s @ t) = str_len s + str_len t"
  by (induction s) auto

lemma str_len_eq_0 [simp]: "str_len s = 0 \<longleftrightarrow> s = []"
  by (cases s) (auto simp: utf8_len_def)

lemma str_len_filter_le: "str_len (filter P s) \<le> str_len s"
  by (induction s) auto

lemma length_le_str_len: "length s \<le> str_len s"
proof (induction s)
  case (Cons c s)
  with utf8_len_bounds(1) [of c] show ?case by simp
qed simp

text \<open>\<^verbatim>\<open>char::is_whitespace\<close> is the Unicode property White_Space.\<close>

definition is_whitespace :: "uchar \<Rightarrow> bool" where
  "is_whitespace c \<longleftrightarrow> (9 \<le> c \<and> c \<le> 13) \<or> c = 0x20 \<or> c = 0x85 \<or> c = 0xA0 \<or> c = 0x1680
     \<or> (0x2000 \<le> c \<and> c \<le> 0x200A) \<or> c = 0x2028 \<or> c = 0x2029 \<or> c = 0x202F \<or> c = 0x205F \<or> c = 0x3000"

text \<open>\<^verbatim>\<open>char::is_control\<close> is the general category Cc.\<close>

definition is_control :: "uchar \<Rightarrow> bool" where
  "is_control c \<longleftrightarrow> c < 0x20 \<or> (0x7F \<le> c \<and> c < 0xA0)"

text \<open>\<^verbatim>\<open>str::trim\<close>.\<close>

definition trim_end :: "ustr \<Rightarrow> ustr" where
  "trim_end s = rev (dropWhile is_whitespace (rev s))"

definition trim :: "ustr \<Rightarrow> ustr" where
  "trim s = trim_end (dropWhile is_whitespace s)"

text \<open>\<^verbatim>\<open>starts_with\<close>, \<^verbatim>\<open>ends_with\<close>, \<^verbatim>\<open>strip_prefix\<close>, \<^verbatim>\<open>contains\<close>.\<close>

definition starts_with :: "ustr \<Rightarrow> ustr \<Rightarrow> bool" where
  "starts_with p s \<longleftrightarrow> take (length p) s = p"

definition ends_with :: "ustr \<Rightarrow> ustr \<Rightarrow> bool" where
  "ends_with p s \<longleftrightarrow> starts_with (rev p) (rev s)"

definition strip_prefix :: "ustr \<Rightarrow> ustr \<Rightarrow> ustr option" where
  "strip_prefix p s = (if starts_with p s then Some (drop (length p) s) else None)"

fun str_contains :: "ustr \<Rightarrow> ustr \<Rightarrow> bool" where
  "str_contains [] p = (p = [])"
| "str_contains (c # s) p = (starts_with p (c # s) \<or> str_contains s p)"

lemma starts_with_iff: "starts_with p s \<longleftrightarrow> (\<exists>t. s = p @ t)"
  by (metis append_eq_conv_conj append_take_drop_id starts_with_def)

lemma starts_with_append [simp]: "starts_with p (p @ s)"
  by (simp add: starts_with_def)

lemma starts_with_Nil [simp]: "starts_with [] s"
  by (simp add: starts_with_def)

lemma strip_prefix_Some_iff: "strip_prefix p s = Some t \<longleftrightarrow> s = p @ t"
  by (auto simp: strip_prefix_def starts_with_iff)

lemma strip_prefix_append [simp]: "strip_prefix p (p @ t) = Some t"
  by (simp add: strip_prefix_Some_iff)

lemma str_contains_iff: "str_contains s p \<longleftrightarrow> (\<exists>a b. s = a @ p @ b)"
proof (induction s)
  case (Cons c s)
  have "(\<exists>a b. c # s = a @ p @ b) \<longleftrightarrow> (\<exists>t. c # s = p @ t) \<or> (\<exists>a b. s = a @ p @ b)"
    by (metis append_Cons append_Nil list.inject neq_Nil_conv)
  then show ?case
    by (simp add: starts_with_iff Cons.IH)
qed simp

text \<open>\<^verbatim>\<open>split_once(c)\<close>: the parts before and after the first \<open>c\<close>.\<close>

fun split_once :: "uchar \<Rightarrow> ustr \<Rightarrow> (ustr \<times> ustr) option" where
  "split_once c [] = None"
| "split_once c (d # s) =
     (if d = c then Some ([], s)
      else case split_once c s of None \<Rightarrow> None | Some (a, b) \<Rightarrow> Some (d # a, b))"

lemma split_once_SomeD: "split_once c s = Some (a, b) \<Longrightarrow> s = a @ c # b \<and> c \<notin> set a"
  by (induction s arbitrary: a b) (auto split: if_splits option.splits)

lemma split_once_None_iff: "split_once c s = None \<longleftrightarrow> c \<notin> set s"
  by (induction s) (auto split: option.splits)

lemma split_once_append [simp]: "c \<notin> set a \<Longrightarrow> split_once c (a @ c # b) = Some (a, b)"
  by (induction a) auto

text \<open>\<^verbatim>\<open>find(p)\<close> for a string pattern, as the parts before and after its first occurrence.\<close>

fun split_str :: "ustr \<Rightarrow> ustr \<Rightarrow> (ustr \<times> ustr) option" where
  "split_str p [] = (if p = [] then Some ([], []) else None)"
| "split_str p (c # s) =
     (if starts_with p (c # s) then Some ([], drop (length p) (c # s))
      else map_option (\<lambda>(a, b). (c # a, b)) (split_str p s))"

lemma split_str_SomeD: "split_str p s = Some (a, b) \<Longrightarrow> s = a @ p @ b"
proof (induction s arbitrary: a)
  case (Cons c s)
  show ?case
  proof (cases "starts_with p (c # s)")
    case True
    with Cons.prems have "a = []" "b = drop (length p) (c # s)" by auto
    with True show ?thesis by (metis append_Nil append_take_drop_id starts_with_def)
  next
    case False
    with Cons show ?thesis by auto
  qed
qed (auto split: if_splits)

lemma split_str_None_iff: "split_str p s = None \<longleftrightarrow> \<not> str_contains s p"
  by (induction s) auto

text \<open>\<^verbatim>\<open>split(c)\<close>: every piece between occurrences of \<open>c\<close>, at least one piece.\<close>

fun split_on :: "uchar \<Rightarrow> ustr \<Rightarrow> ustr list" where
  "split_on c [] = [[]]"
| "split_on c (d # s) =
     (if d = c then [] # split_on c s
      else case split_on c s of [] \<Rightarrow> [[d]] | p # ps \<Rightarrow> (d # p) # ps)"

text \<open>\<^verbatim>\<open>join(sep)\<close>.\<close>

fun join :: "ustr \<Rightarrow> ustr list \<Rightarrow> ustr" where
  "join sep [] = []"
| "join sep [x] = x"
| "join sep (x # y # xs) = x @ sep @ join sep (y # xs)"

lemma split_on_nonempty [simp]: "split_on c s \<noteq> []"
  by (induction s) (auto split: list.splits)

lemma join_Cons: "xs \<noteq> [] \<Longrightarrow> join sep (x # xs) = x @ sep @ join sep xs"
  by (cases xs) auto

lemma join_split_on: "join [c] (split_on c s) = s"
proof (induction s)
  case (Cons d s)
  then show ?case
    by (cases "split_on c s") (auto simp: join_Cons neq_Nil_conv, metis append_Cons join.simps(2,3) list.exhaust)
qed simp

lemma split_on_absent: "c \<notin> set s \<Longrightarrow> split_on c s = [s]"
  by (induction s) auto

lemma split_on_append: "c \<notin> set a \<Longrightarrow> split_on c (a @ c # b) = a # split_on c b"
  by (induction a) auto

lemma split_on_pieces: "p \<in> set (split_on c s) \<Longrightarrow> c \<notin> set p"
  by (induction s arbitrary: p) (auto split: if_splits list.splits)

lemma split_on_join:
  "xs \<noteq> [] \<Longrightarrow> \<forall>x \<in> set xs. c \<notin> set x \<Longrightarrow> split_on c (join [c] xs) = xs"
proof (induction xs)
  case (Cons x xs)
  show ?case
  proof (cases "xs = []")
    case True
    with Cons.prems show ?thesis by (simp add: split_on_absent)
  next
    case False
    with Cons show ?thesis by (simp add: join_Cons split_on_append)
  qed
qed simp

text \<open>\<^verbatim>\<open>str::lines\<close>: pieces ended by a newline, a final empty piece dropped, one trailing
  carriage return removed from each line.\<close>

definition strip_cr :: "ustr \<Rightarrow> ustr" where
  "strip_cr l = (if l \<noteq> [] \<and> last l = 13 then butlast l else l)"

definition lines :: "ustr \<Rightarrow> ustr list" where
  "lines s = (let ps = split_on 10 s
     in map strip_cr (butlast ps) @ (if last ps = [] then [] else [last ps]))"

section \<open>Decimal numbers\<close>

definition is_digit :: "uchar \<Rightarrow> bool" where
  "is_digit c \<longleftrightarrow> 48 \<le> c \<and> c \<le> 57"

definition dec_val :: "ustr \<Rightarrow> nat" where
  "dec_val s = foldl (\<lambda>n c. n * 10 + (c - 48)) 0 s"

text \<open>\<^verbatim>\<open>parse\<close> at an unsigned type of maximum \<open>m\<close>: an optional plus sign, at least one digit,
  no overflow.\<close>

definition parse_digits :: "nat \<Rightarrow> ustr \<Rightarrow> nat option" where
  "parse_digits m s = (if s \<noteq> [] \<and> list_all is_digit s \<and> dec_val s \<le> m then Some (dec_val s) else None)"

definition parse_uint :: "nat \<Rightarrow> ustr \<Rightarrow> nat option" where
  "parse_uint m s = (case s of c # t \<Rightarrow> if c = 43 then parse_digits m t else parse_digits m s | [] \<Rightarrow> None)"

text \<open>\<^verbatim>\<open>to_string\<close> of an unsigned integer.\<close>

fun to_dec :: "nat \<Rightarrow> ustr" where
  "to_dec n = (if n < 10 then [48 + n] else to_dec (n div 10) @ [48 + n mod 10])"

declare to_dec.simps [simp del]

lemma dec_val_snoc [simp]: "dec_val (s @ [c]) = dec_val s * 10 + (c - 48)"
  by (simp add: dec_val_def)

lemma to_dec_digits: "list_all is_digit (to_dec n)"
proof (induction n rule: to_dec.induct)
  case (1 n)
  show ?case
  proof (cases "n < 10")
    case True
    then show ?thesis by (simp add: to_dec.simps [of n] is_digit_def)
  next
    case False
    with 1 show ?thesis by (simp add: to_dec.simps [of n]) (simp add: is_digit_def)
  qed
qed

lemma to_dec_nonempty [simp]: "to_dec n \<noteq> []"
  by (subst to_dec.simps) simp

lemma dec_val_to_dec [simp]: "dec_val (to_dec n) = n"
proof (induction n rule: to_dec.induct)
  case (1 n)
  then show ?case by (subst to_dec.simps) (auto simp: dec_val_def [of "[48 + n]"])
qed

lemma parse_digits_to_dec: "n \<le> m \<Longrightarrow> parse_digits m (to_dec n) = Some n"
  by (simp add: parse_digits_def to_dec_digits)

lemma parse_uint_to_dec: "n \<le> m \<Longrightarrow> parse_uint m (to_dec n) = Some n"
proof -
  assume le: "n \<le> m"
  obtain c t where ct: "to_dec n = c # t" by (cases "to_dec n") auto
  with to_dec_digits [of n] have "c \<noteq> 43" by (simp add: is_digit_def)
  with ct parse_digits_to_dec [OF le] show ?thesis by (simp add: parse_uint_def)
qed

lemma parse_uint_bound: "parse_uint m s = Some n \<Longrightarrow> n \<le> m"
  by (auto simp: parse_uint_def parse_digits_def split: list.splits if_splits)

lemma to_dec_inject [simp]: "to_dec m = to_dec n \<longleftrightarrow> m = n"
  by (metis dec_val_to_dec)

section \<open>Best of a list\<close>

text \<open>A choice of the best \<open>n\<close> candidates, best first: none left out beats one chosen.\<close>

definition best :: "('r \<Rightarrow> 'r \<Rightarrow> bool) \<Rightarrow> nat \<Rightarrow> 'r list \<Rightarrow> 'r list \<Rightarrow> bool" where
  "best worse n candidates rs \<longleftrightarrow> length rs = min n (length candidates) \<and> set rs \<subseteq> set candidates \<and>
     sorted_wrt (\<lambda>x y. \<not> worse x y) rs \<and> (\<forall>r \<in> set candidates - set rs. \<forall>r' \<in> set rs. \<not> worse r' r)"

lemma best_take:
  assumes sorted: "sorted_wrt (\<lambda>x y. \<not> worse x y) s" and "set s = set cs" and "length s = length cs"
  shows "best worse n cs (take n s)"
proof -
  have all: "sorted_wrt (\<lambda>x y. \<not> worse x y) (take n s @ drop n s)" using sorted by simp
  have split: "set s = set (take n s) \<union> set (drop n s)"
    by (metis append_take_drop_id set_append)
  have "\<not> worse r' r" if "r \<in> set cs - set (take n s)" "r' \<in> set (take n s)" for r r'
  proof -
    have "r \<in> set (drop n s)" using that(1) split assms(2) by blast
    with all that(2) show ?thesis unfolding sorted_wrt_append by blast
  qed
  moreover have "sorted_wrt (\<lambda>x y. \<not> worse x y) (take n s)"
    using all unfolding sorted_wrt_append by blast
  moreover have "set (take n s) \<subseteq> set cs" using split assms(2) by blast
  ultimately show ?thesis using assms(3) by (auto simp: best_def)
qed

end
