(* ===== verification/Model.thy ===== *)
theory Model
  imports Prelude
begin

text \<open>
  The data model of \<^verbatim>\<open>src/src/model.rs\<close>: the closed enumerations with their names, the
  records kept in Tier 3, the announcements of Tier 2, scrape jobs and the size checks.
  Serialisation is serde_json's: the codec is a parameter (a record of the four functions
  the code calls), and \<open>serde_laws\<close> states what the code relies on.
\<close>

section \<open>Error context\<close>

text \<open>\<^verbatim>\<open>map_err(|e| format!("ctx: {}", e))\<close>: every fallible library call is wrapped so.\<close>

definition with_ctx :: "string \<Rightarrow> ('a, ustr) result \<Rightarrow> ('a, ustr) result" where
  "with_ctx s m = map_err (\<lambda>e. lit s @ lit '': '' @ e) m"

lemma with_ctx_simps [simp]:
  "with_ctx s m = Ok a \<longleftrightarrow> m = Ok a" "with_ctx s m = Panic \<longleftrightarrow> m = Panic"
  "with_ctx s (Ok a) = Ok a" "with_ctx s (Err e) = Err (lit s @ lit '': '' @ e)"
  "with_ctx s Panic = Panic"
  by (simp_all add: with_ctx_def)

section \<open>Enumerations and their names\<close>

text \<open>
  An enumeration with \<^verbatim>\<open>as_str\<close>/\<^verbatim>\<open>from_str\<close> (or \<^verbatim>\<open>as_u8\<close>/\<^verbatim>\<open>from_u8\<close>) promises that its name
  reads back as the value and that nothing but a name is read.
\<close>

locale name_codec =
  fixes enc :: "'a \<Rightarrow> 'b" and dec :: "'b \<Rightarrow> 'a option"
  assumes dec_enc: "dec (enc x) = Some x"
    and dec_sound: "dec s = Some x \<Longrightarrow> enc x = s"
begin

lemma dec_Some_iff: "dec s = Some x \<longleftrightarrow> s = enc x"
  using dec_enc dec_sound by blast

lemma enc_inject: "enc x = enc y \<longleftrightarrow> x = y"
  by (metis dec_enc option.inject)

lemma dec_None_iff: "dec s = None \<longleftrightarrow> s \<notin> range enc"
  using dec_Some_iff by (metis image_iff not_Some_eq rangeI)

end

datatype ScrapeSource = Url | Feed | Api | Keyword

primrec ScrapeSource_as_str :: "ScrapeSource \<Rightarrow> ustr" where
  "ScrapeSource_as_str Url = lit ''url''"
| "ScrapeSource_as_str Feed = lit ''feed''"
| "ScrapeSource_as_str Api = lit ''api''"
| "ScrapeSource_as_str Keyword = lit ''keyword''"

definition ScrapeSource_from_str :: "ustr \<Rightarrow> ScrapeSource option" where
  "ScrapeSource_from_str s =
     (if s = lit ''url'' then Some Url
      else if s = lit ''feed'' then Some Feed
      else if s = lit ''api'' then Some Api
      else if s = lit ''keyword'' then Some Keyword
      else None)"

interpretation scrape_source: name_codec ScrapeSource_as_str ScrapeSource_from_str
proof unfold_locales
  show "ScrapeSource_from_str (ScrapeSource_as_str x) = Some x" for x
    by (cases x) (simp_all add: ScrapeSource_from_str_def)
  show "ScrapeSource_from_str s = Some x \<Longrightarrow> ScrapeSource_as_str x = s" for s x
    by (auto simp: ScrapeSource_from_str_def split: if_splits)
qed

datatype RefreshPolicy = Once | Interval | OnChange

primrec RefreshPolicy_as_str :: "RefreshPolicy \<Rightarrow> ustr" where
  "RefreshPolicy_as_str Once = lit ''once''"
| "RefreshPolicy_as_str Interval = lit ''interval''"
| "RefreshPolicy_as_str OnChange = lit ''on-change''"

definition RefreshPolicy_from_str :: "ustr \<Rightarrow> RefreshPolicy option" where
  "RefreshPolicy_from_str s =
     (if s = lit ''once'' then Some Once
      else if s = lit ''interval'' then Some Interval
      else if s = lit ''on-change'' then Some OnChange
      else None)"

interpretation refresh_policy: name_codec RefreshPolicy_as_str RefreshPolicy_from_str
proof unfold_locales
  show "RefreshPolicy_from_str (RefreshPolicy_as_str x) = Some x" for x
    by (cases x) (simp_all add: RefreshPolicy_from_str_def)
  show "RefreshPolicy_from_str s = Some x \<Longrightarrow> RefreshPolicy_as_str x = s" for s x
    by (auto simp: RefreshPolicy_from_str_def split: if_splits)
qed

datatype Lifecycle = Ephemeral | Pinned

primrec Lifecycle_as_str :: "Lifecycle \<Rightarrow> ustr" where
  "Lifecycle_as_str Ephemeral = lit ''ephemeral''"
| "Lifecycle_as_str Pinned = lit ''pinned''"

definition Lifecycle_from_str :: "ustr \<Rightarrow> Lifecycle option" where
  "Lifecycle_from_str s =
     (if s = lit ''ephemeral'' then Some Ephemeral
      else if s = lit ''pinned'' then Some Pinned
      else None)"

interpretation lifecycle: name_codec Lifecycle_as_str Lifecycle_from_str
proof unfold_locales
  show "Lifecycle_from_str (Lifecycle_as_str x) = Some x" for x
    by (cases x) (simp_all add: Lifecycle_from_str_def)
  show "Lifecycle_from_str s = Some x \<Longrightarrow> Lifecycle_as_str x = s" for s x
    by (auto simp: Lifecycle_from_str_def split: if_splits)
qed

text \<open>Known schemas.\<close>

definition WIKI_ARTICLE :: ustr where "WIKI_ARTICLE = lit ''wiki/article''"
definition RUST_CRATE :: ustr where "RUST_CRATE = lit ''rust/crate''"
definition LINK_MEDIA :: ustr where "LINK_MEDIA = lit ''link/media''"
definition GENERIC_KV :: ustr where "GENERIC_KV = lit ''generic/kv''"

definition known_schemas :: "ustr list" where
  "known_schemas = [WIKI_ARTICLE, RUST_CRATE, LINK_MEDIA, GENERIC_KV]"

section \<open>Records, announcements, jobs\<close>

record ContentRecord =
  cr_id :: ustr
  cr_source_url :: ustr
  cr_source_hash :: ustr
  cr_schema :: ustr
  cr_tags :: "ustr list"
  cr_body :: ustr
  cr_created_at :: u64
  cr_expires_at :: u64
  cr_scrape_source :: ScrapeSource
  cr_refresh_policy :: RefreshPolicy
  cr_sig :: ustr

record Announcement =
  an_record_id :: ustr
  an_source_hash :: ustr
  an_schema :: ustr
  an_tags :: "ustr list"
  an_holder_addr :: ustr
  an_expires_at :: u64
  an_sig :: ustr

record ScrapeJob =
  sj_name :: ustr
  sj_source :: ScrapeSource
  sj_target :: ustr
  sj_transform :: "ustr option"
  sj_refresh :: RefreshPolicy
  sj_interval_secs :: u64
  sj_lifecycle :: Lifecycle
  sj_ttl_secs :: u64
  sj_max_results :: "u32 option"

text \<open>Defaults of absent fields.\<close>

definition default_refresh :: RefreshPolicy where "default_refresh = Once"
definition default_interval_secs :: u64 where "default_interval_secs = 3600"
definition default_lifecycle :: Lifecycle where "default_lifecycle = Ephemeral"
definition default_ttl_secs :: u64 where "default_ttl_secs = 3600"

text \<open>The storage section of the configuration (\<^verbatim>\<open>src/src/config/mod.rs\<close>).\<close>

record StorageConfig =
  sc_quota_mb :: u32
  sc_quota_action :: ustr
  sc_tier2_max_mb :: u32

definition MAX_RECORD_SIZE :: nat where "MAX_RECORD_SIZE = 1048576"
definition MAX_ANNOUNCEMENT_SIZE :: nat where "MAX_ANNOUNCEMENT_SIZE = 256"

section \<open>Serialisation (serde_json)\<close>

record serde =
  record_to_json :: "ContentRecord \<Rightarrow> (ustr, ustr) result"
  record_from_json :: "ustr \<Rightarrow> (ContentRecord, ustr) result"
  ann_to_json :: "Announcement \<Rightarrow> (ustr, ustr) result"
  ann_from_json :: "ustr \<Rightarrow> (Announcement, ustr) result"

text \<open>What is serialised reads back as the same value, and the library returns errors
  rather than panicking.\<close>

definition serde_laws :: "serde \<Rightarrow> bool" where
  "serde_laws J \<longleftrightarrow>
     (\<forall>r j. record_to_json J r = Ok j \<longrightarrow> record_from_json J j = Ok r) \<and>
     (\<forall>a j. ann_to_json J a = Ok j \<longrightarrow> ann_from_json J j = Ok a) \<and>
     (\<forall>r. record_to_json J r \<noteq> Panic) \<and> (\<forall>j. record_from_json J j \<noteq> Panic) \<and>
     (\<forall>a. ann_to_json J a \<noteq> Panic) \<and> (\<forall>j. ann_from_json J j \<noteq> Panic)"

lemma serde_roundtrip:
  "serde_laws J \<Longrightarrow> record_to_json J r = Ok j \<Longrightarrow> record_from_json J j = Ok r"
  "serde_laws J \<Longrightarrow> ann_to_json J a = Ok k \<Longrightarrow> ann_from_json J k = Ok a"
  by (auto simp: serde_laws_def)

lemma serde_no_panic:
  assumes "serde_laws J"
  shows "record_to_json J r \<noteq> Panic" "record_from_json J j \<noteq> Panic"
    "ann_to_json J a \<noteq> Panic" "ann_from_json J j \<noteq> Panic"
  using assms by (auto simp: serde_laws_def)

definition validate_record_size :: "serde \<Rightarrow> ContentRecord \<Rightarrow> (unit, ustr) result" where
  "validate_record_size J r =
     rbind (with_ctx ''serialization error'' (record_to_json J r)) (\<lambda>json.
       if MAX_RECORD_SIZE < str_len json
       then Err (lit ''record exceeds 1 MB limit ('' @ to_dec (str_len json) @ lit '' bytes)'')
       else Ok ())"

definition validate_announcement_size :: "serde \<Rightarrow> Announcement \<Rightarrow> (unit, ustr) result" where
  "validate_announcement_size J a =
     rbind (with_ctx ''serialization error'' (ann_to_json J a)) (\<lambda>json.
       if MAX_ANNOUNCEMENT_SIZE < str_len json
       then Err (lit ''announcement exceeds 256 byte limit ('' @ to_dec (str_len json) @ lit '' bytes)'')
       else Ok ())"

lemma validate_record_size_Ok:
  "validate_record_size J r = Ok () \<longleftrightarrow>
     (\<exists>j. record_to_json J r = Ok j \<and> str_len j \<le> MAX_RECORD_SIZE)"
  by (cases "record_to_json J r") (auto simp: validate_record_size_def)

lemma validate_announcement_size_Ok:
  "validate_announcement_size J a = Ok () \<longleftrightarrow>
     (\<exists>j. ann_to_json J a = Ok j \<and> str_len j \<le> MAX_ANNOUNCEMENT_SIZE)"
  by (cases "ann_to_json J a") (auto simp: validate_announcement_size_def)

end
