(* ===== verification/Bytes.thy ===== *)
theory Bytes
  imports Prelude
begin

text \<open>
  Byte orders, UTF-8 and hexadecimal: \<^verbatim>\<open>to_be_bytes\<close>, \<^verbatim>\<open>from_be_bytes\<close>, \<^verbatim>\<open>to_le_bytes\<close>,
  \<^verbatim>\<open>as_bytes\<close>, \<^verbatim>\<open>format!("{:02x}")\<close> and \<^verbatim>\<open>from_str_radix(_, 16)\<close>, with the inverses the
  codecs need.
\<close>

unbundle bit_operations_syntax

section \<open>Byte orders\<close>

definition be16 :: "u16 \<Rightarrow> bytes" where
  "be16 w = [ucast (drop_bit 8 w), ucast w]"

definition be32 :: "u32 \<Rightarrow> bytes" where
  "be32 w = [ucast (drop_bit 24 w), ucast (drop_bit 16 w), ucast (drop_bit 8 w), ucast w]"

definition le64 :: "u64 \<Rightarrow> bytes" where
  "le64 w = map (\<lambda>i. ucast (drop_bit (8 * i) w)) [0..<8]"

definition from_be16 :: "u8 \<Rightarrow> u8 \<Rightarrow> u16" where
  "from_be16 a b = push_bit 8 (ucast a) OR ucast b"

definition from_be32 :: "u8 \<Rightarrow> u8 \<Rightarrow> u8 \<Rightarrow> u8 \<Rightarrow> u32" where
  "from_be32 a b c d = push_bit 24 (ucast a) OR push_bit 16 (ucast b) OR push_bit 8 (ucast c) OR ucast d"

lemma length_be32 [simp]: "length (be32 w) = 4"
  by (simp add: be32_def)

lemma from_be16_be16:
  "from_be16 (ucast (drop_bit 8 w)) (ucast w) = w"
  unfolding from_be16_def
  by (rule bit_word_eqI) (auto simp: bit_simps)

lemma from_be32_parts:
  "from_be32 (ucast (drop_bit 24 w)) (ucast (drop_bit 16 w)) (ucast (drop_bit 8 w)) (ucast w) = w"
proof (rule bit_word_eqI)
  fix n :: nat
  assume "n < LENGTH(32)"
  then consider "n < 8" | "8 \<le> n" "n < 16" | "16 \<le> n" "n < 24" | "24 \<le> n" "n < 32"
    by fastforce
  then show "bit (from_be32 (ucast (drop_bit 24 w)) (ucast (drop_bit 16 w)) (ucast (drop_bit 8 w)) (ucast w)) n
      = bit w n"
    by cases (auto simp: from_be32_def bit_simps)
qed

lemma be32_inject [simp]: "be32 v = be32 w \<longleftrightarrow> v = w"
proof
  assume eq: "be32 v = be32 w"
  have "v = from_be32 (be32 v ! 0) (be32 v ! 1) (be32 v ! 2) (be32 v ! 3)"
    by (simp add: be32_def from_be32_parts)
  also have "\<dots> = w"
    unfolding eq by (simp add: be32_def from_be32_parts)
  finally show "v = w" .
qed simp

section \<open>UTF-8\<close>

definition utf8_char :: "uchar \<Rightarrow> bytes" where
  "utf8_char c =
     (if c < 0x80 then [of_nat c]
      else if c < 0x800 then [of_nat (0xC0 + c div 0x40), of_nat (0x80 + c mod 0x40)]
      else if c < 0x10000 then
        [of_nat (0xE0 + c div 0x1000), of_nat (0x80 + c div 0x40 mod 0x40), of_nat (0x80 + c mod 0x40)]
      else [of_nat (0xF0 + c div 0x40000), of_nat (0x80 + c div 0x1000 mod 0x40),
            of_nat (0x80 + c div 0x40 mod 0x40), of_nat (0x80 + c mod 0x40)])"

definition utf8 :: "ustr \<Rightarrow> bytes" where
  "utf8 s = concat (map utf8_char s)"

lemma length_utf8: "length (utf8 s) = str_len s"
  by (induction s) (auto simp: utf8_def utf8_char_def utf8_len_def)

section \<open>Hexadecimal\<close>

definition hex_digit :: "nat \<Rightarrow> uchar" where
  "hex_digit n = (if n < 10 then 48 + n else 87 + n)"

definition hex_byte :: "u8 \<Rightarrow> ustr" where
  "hex_byte b = [hex_digit (unat b div 16), hex_digit (unat b mod 16)]"

definition hex_encode :: "bytes \<Rightarrow> ustr" where
  "hex_encode bs = concat (map hex_byte bs)"

text \<open>The value of one hexadecimal digit, either case.\<close>

definition hex_val :: "uchar \<Rightarrow> nat option" where
  "hex_val c =
     (if 48 \<le> c \<and> c \<le> 57 then Some (c - 48)
      else if 97 \<le> c \<and> c \<le> 102 then Some (c - 87)
      else if 65 \<le> c \<and> c \<le> 70 then Some (c - 55)
      else None)"

text \<open>\<^verbatim>\<open>u8::from_str_radix(s, 16)\<close> on a slice of at most two characters: an optional plus sign,
  then at least one digit.\<close>

fun u8_from_hex :: "ustr \<Rightarrow> u8 option" where
  "u8_from_hex [c] = map_option of_nat (hex_val c)"
| "u8_from_hex [c, d] =
     (if c = 43 then map_option of_nat (hex_val d)
      else case (hex_val c, hex_val d) of (Some h, Some l) \<Rightarrow> Some (of_nat (16 * h + l)) | _ \<Rightarrow> None)"
| "u8_from_hex s = None"

lemma hex_val_digit [simp]: "n < 16 \<Longrightarrow> hex_val (hex_digit n) = Some n"
  by (auto simp: hex_val_def hex_digit_def)

lemma hex_digit_not_plus: "hex_digit n \<noteq> 43"
  by (simp add: hex_digit_def)

lemma unat_u8_less: "unat (b :: u8) < 256"
  using unsigned_less [of b] by simp

lemma u8_from_hex_byte [simp]: "u8_from_hex (hex_byte b) = Some b"
proof -
  have "unat b div 16 < 16" using unat_u8_less [of b] by (simp add: less_mult_imp_div_less)
  moreover have "16 * (unat b div 16) + unat b mod 16 = unat b" by simp
  ultimately show ?thesis
    by (simp add: hex_byte_def hex_digit_not_plus del: of_nat_add of_nat_mult)
qed

lemma length_hex_byte [simp]: "length (hex_byte b) = 2"
  by (simp add: hex_byte_def)

lemma length_hex_encode [simp]: "length (hex_encode bs) = 2 * length bs"
  by (induction bs) (auto simp: hex_encode_def)

text \<open>\<^verbatim>\<open>(0..len).step_by(2)\<close> over slices of two characters, unreadable pairs dropped; the last
  slice may be a single character.\<close>

fun hex_pairs :: "ustr \<Rightarrow> ustr list" where
  "hex_pairs [] = []"
| "hex_pairs [c] = [[c]]"
| "hex_pairs (c # d # s) = [c, d] # hex_pairs s"

lemma hex_pairs_encode: "hex_pairs (hex_encode bs) = map hex_byte bs"
  by (induction bs) (auto simp: hex_encode_def hex_byte_def)

lemma hex_pairs_append: "hex_pairs (hex_encode bs @ s) = map hex_byte bs @ hex_pairs s"
  by (induction bs) (auto simp: hex_encode_def hex_byte_def)

lemma hex_digit_range: "n < 16 \<Longrightarrow> hex_digit n < 0x80"
  by (auto simp: hex_digit_def)

lemma hex_encode_ascii: "c \<in> set (hex_encode bs) \<Longrightarrow> c < 0x80"
proof (induction bs)
  case (Cons b bs)
  have "unat b div 16 < 16" "unat b mod 16 < 16"
    using unat_u8_less [of b] by (simp_all add: less_mult_imp_div_less)
  with Cons show ?case
    using hex_digit_range by (auto simp: hex_encode_def hex_byte_def)
qed (simp add: hex_encode_def)

lemma str_len_hex: "str_len (hex_encode bs) = 2 * length bs"
proof -
  have "str_len s = length s" if "\<forall>c \<in> set s. c < 0x80" for s :: ustr
    using that by (induction s) (auto simp: utf8_len_def)
  then show ?thesis using hex_encode_ascii by (metis length_hex_encode)
qed

lemma hex_encode_inject: "hex_encode as = hex_encode bs \<longleftrightarrow> as = bs"
proof
  assume "hex_encode as = hex_encode bs"
  then have "map u8_from_hex (map hex_byte as) = map u8_from_hex (map hex_byte bs)"
    by (metis hex_pairs_encode)
  then show "as = bs" by (simp add: comp_def )
qed simp

end
