(* ===== verification/Sign.thy ===== *)
theory Sign
  imports Model Bytes "HOL-Library.Multiset"
begin

text \<open>
  \<^verbatim>\<open>src/src/trust/sign.rs\<close> and \<^verbatim>\<open>src/src/trust/verify.rs\<close>: the canonical encoding that is
  signed and hashed, signing and verification of records and announcements, content
  addresses, and the URL normalisation that decides which sources are the same. Ed25519 and
  BLAKE3 are parameters (\<open>crypto\<close>); the case mapping \<^verbatim>\<open>str::to_lowercase\<close> is the parameter \<open>lc\<close>.
\<close>

section \<open>Cryptographic primitives\<close>

record ('sk, 'vk) crypto =
  ed_sign :: "'sk \<Rightarrow> bytes \<Rightarrow> bytes"
  ed_verifying_key :: "'sk \<Rightarrow> 'vk"
  ed_verify :: "'vk \<Rightarrow> bytes \<Rightarrow> bytes \<Rightarrow> bool"
  blake3 :: "bytes \<Rightarrow> bytes"

text \<open>A signature is 64 bytes and verifies under the signer's key; a digest is 32 bytes.\<close>

definition crypto_laws :: "('sk, 'vk) crypto \<Rightarrow> bool" where
  "crypto_laws K \<longleftrightarrow>
     (\<forall>sk m. ed_verify K (ed_verifying_key K sk) m (ed_sign K sk m)) \<and>
     (\<forall>sk m. length (ed_sign K sk m) = 64) \<and> (\<forall>m. length (blake3 K m) = 32)"

text \<open>An instance that satisfies the laws, for the concrete runs: the digest folds the input
  into one byte, and the only valid signature of a message is built from its digest.\<close>

definition sample_digest :: "bytes \<Rightarrow> bytes" where
  "sample_digest m = sum_list m # replicate 31 0"

definition sample_crypto :: "(unit, unit) crypto" where
  "sample_crypto =
     \<lparr>ed_sign = (\<lambda>_ m. sample_digest m @ sample_digest m), ed_verifying_key = (\<lambda>_. ()),
      ed_verify = (\<lambda>_ m s. s = sample_digest m @ sample_digest m), blake3 = sample_digest\<rparr>"

lemma sample_crypto_laws: "crypto_laws sample_crypto"
  by (simp add: crypto_laws_def sample_crypto_def sample_digest_def)

section \<open>Canonical encoding\<close>

definition encode_field :: "bytes \<Rightarrow> bytes" where
  "encode_field f = be32 (of_nat (length f)) @ f"

definition canonical_encode_fields :: "bytes list \<Rightarrow> bytes" where
  "canonical_encode_fields fs = fold (\<lambda>f buf. buf @ be32 (of_nat (length f)) @ f) fs []"

lemma fold_encode: "fold (\<lambda>f buf. buf @ be32 (of_nat (length f)) @ f) fs b = b @ concat (map encode_field fs)"
  by (induction fs arbitrary: b) (auto simp: encode_field_def)

lemma canonical_encode_concat: "canonical_encode_fields fs = concat (map encode_field fs)"
  by (simp add: canonical_encode_fields_def fold_encode)

lemma canonical_encode_Nil [simp]: "canonical_encode_fields [] = []"
  by (simp add: canonical_encode_concat)

lemma canonical_encode_Cons [simp]:
  "canonical_encode_fields (f # fs) = be32 (of_nat (length f)) @ f @ canonical_encode_fields fs"
  by (simp add: canonical_encode_concat encode_field_def)

text \<open>A field shorter than \<open>2 ^ 32\<close> bytes: the cast to \<^verbatim>\<open>u32\<close> keeps its length.\<close>

definition short :: "bytes \<Rightarrow> bool" where
  "short f \<longleftrightarrow> length f < 2 ^ 32"

lemma of_nat_u32_inject:
  "m < 2 ^ 32 \<Longrightarrow> n < 2 ^ 32 \<Longrightarrow> (of_nat m :: u32) = of_nat n \<longleftrightarrow> m = n"
  by (simp add: word_of_nat_eq_iff take_bit_eq_mod)

lemma canonical_encode_inj:
  "list_all short fs \<Longrightarrow> list_all short gs \<Longrightarrow>
   canonical_encode_fields fs = canonical_encode_fields gs \<Longrightarrow> fs = gs"
proof (induction fs arbitrary: gs)
  case Nil
  then show ?case by (cases gs) (auto simp: be32_def)
next
  case (Cons f fs)
  from Cons.prems obtain g gs' where gs: "gs = g # gs'"
    by (cases gs) (auto simp: be32_def)
  with Cons.prems have eq: "be32 (of_nat (length f)) @ f @ canonical_encode_fields fs
      = be32 (of_nat (length g)) @ g @ canonical_encode_fields gs'" by simp
  then have "(of_nat (length f) :: u32) = of_nat (length g)"
    by (simp add: append_eq_append_conv)
  with Cons.prems gs have "length f = length g"
    by (simp add: short_def of_nat_u32_inject)
  with eq have "f = g" "canonical_encode_fields fs = canonical_encode_fields gs'"
    by (simp_all add: append_eq_append_conv)
  with Cons gs show ?case by simp
qed

section \<open>Records and announcements\<close>

record RecordFields =
  rf_id :: bytes
  rf_source_url :: bytes
  rf_source_hash :: bytes
  rf_schema :: bytes
  rf_tags :: bytes
  rf_body :: bytes
  rf_created_at :: bytes
  rf_expires_at :: bytes
  rf_scrape_source :: bytes
  rf_refresh_policy :: bytes

definition RecordFields_list :: "RecordFields \<Rightarrow> bytes list" where
  "RecordFields_list f =
     [rf_id f, rf_source_url f, rf_source_hash f, rf_schema f, rf_tags f, rf_body f,
      rf_created_at f, rf_expires_at f, rf_scrape_source f, rf_refresh_policy f]"

definition RecordFields_encode :: "RecordFields \<Rightarrow> bytes" where
  "RecordFields_encode f = canonical_encode_fields (RecordFields_list f)"

record AnnouncementFields =
  af_record_id :: bytes
  af_source_hash :: bytes
  af_schema :: bytes
  af_tags :: bytes
  af_holder_addr :: bytes
  af_expires_at :: bytes

definition AnnouncementFields_list :: "AnnouncementFields \<Rightarrow> bytes list" where
  "AnnouncementFields_list f =
     [af_record_id f, af_source_hash f, af_schema f, af_tags f, af_holder_addr f, af_expires_at f]"

definition AnnouncementFields_encode :: "AnnouncementFields \<Rightarrow> bytes" where
  "AnnouncementFields_encode f = canonical_encode_fields (AnnouncementFields_list f)"

definition sign_record :: "('sk, 'vk) crypto \<Rightarrow> 'sk \<Rightarrow> RecordFields \<Rightarrow> bytes" where
  "sign_record K sk f = ed_sign K sk (RecordFields_encode f)"

definition verify_record_sig :: "('sk, 'vk) crypto \<Rightarrow> 'vk \<Rightarrow> RecordFields \<Rightarrow> bytes \<Rightarrow> bool" where
  "verify_record_sig K vk f sig = ed_verify K vk (RecordFields_encode f) sig"

definition sign_announcement :: "('sk, 'vk) crypto \<Rightarrow> 'sk \<Rightarrow> AnnouncementFields \<Rightarrow> bytes" where
  "sign_announcement K sk f = ed_sign K sk (AnnouncementFields_encode f)"

definition verify_announcement_sig ::
  "('sk, 'vk) crypto \<Rightarrow> 'vk \<Rightarrow> AnnouncementFields \<Rightarrow> bytes \<Rightarrow> bool" where
  "verify_announcement_sig K vk f sig = ed_verify K vk (AnnouncementFields_encode f) sig"

definition compute_record_id ::
  "('sk, 'vk) crypto \<Rightarrow> bytes \<Rightarrow> bytes \<Rightarrow> bytes \<Rightarrow> bytes \<Rightarrow> bytes \<Rightarrow> bytes \<Rightarrow> ustr" where
  "compute_record_id K source_url source_hash schema tags body created_at =
     hex_encode (blake3 K (canonical_encode_fields [source_url, source_hash, schema, tags, body, created_at]))"

lemma RecordFields_list_inject: "RecordFields_list f = RecordFields_list g \<longleftrightarrow> f = g"
  by (auto simp: RecordFields_list_def intro: RecordFields.equality)

lemma AnnouncementFields_list_inject: "AnnouncementFields_list f = AnnouncementFields_list g \<longleftrightarrow> f = g"
  by (auto simp: AnnouncementFields_list_def intro: AnnouncementFields.equality)

lemma RecordFields_encode_inj:
  assumes "list_all short (RecordFields_list f)" "list_all short (RecordFields_list g)"
    and "RecordFields_encode f = RecordFields_encode g"
  shows "f = g"
  using canonical_encode_inj [OF assms(1,2)] assms(3)
  by (simp add: RecordFields_encode_def RecordFields_list_inject)

text \<open>The two kinds of signed object have different numbers of fields, so no encoding is
  both a record's and an announcement's.\<close>

lemma record_announcement_encodings_differ:
  assumes "list_all short (RecordFields_list f)" "list_all short (AnnouncementFields_list a)"
  shows "RecordFields_encode f \<noteq> AnnouncementFields_encode a"
proof
  assume "RecordFields_encode f = AnnouncementFields_encode a"
  then have "RecordFields_list f = AnnouncementFields_list a"
    using canonical_encode_inj [OF assms]
    by (simp add: RecordFields_encode_def AnnouncementFields_encode_def)
  then show False by (simp add: RecordFields_list_def AnnouncementFields_list_def)
qed

section \<open>Verification results\<close>

record VerifyResult =
  vr_valid :: bool
  vr_reason :: "ustr option"

definition VerifyResult_ok :: VerifyResult where
  "VerifyResult_ok = \<lparr>vr_valid = True, vr_reason = None\<rparr>"

definition VerifyResult_fail :: "ustr \<Rightarrow> VerifyResult" where
  "VerifyResult_fail reason = \<lparr>vr_valid = False, vr_reason = Some reason\<rparr>"

lemma VerifyResult_simps [simp]:
  "vr_valid VerifyResult_ok" "\<not> vr_valid (VerifyResult_fail r)"
  "vr_reason VerifyResult_ok = None" "vr_reason (VerifyResult_fail r) = Some r"
  by (simp_all add: VerifyResult_ok_def VerifyResult_fail_def)

definition verify_record_signature ::
  "('sk, 'vk) crypto \<Rightarrow> 'vk \<Rightarrow> RecordFields \<Rightarrow> bytes \<Rightarrow> VerifyResult" where
  "verify_record_signature K vk f sig =
     (if verify_record_sig K vk f sig then VerifyResult_ok
      else VerifyResult_fail (lit ''ContentRecord signature verification failed''))"

definition verify_announcement_signature ::
  "('sk, 'vk) crypto \<Rightarrow> 'vk \<Rightarrow> AnnouncementFields \<Rightarrow> bytes \<Rightarrow> VerifyResult" where
  "verify_announcement_signature K vk f sig =
     (if verify_announcement_sig K vk f sig then VerifyResult_ok
      else VerifyResult_fail (lit ''Announcement signature verification failed''))"

definition verify_record_id ::
  "('sk, 'vk) crypto \<Rightarrow> ustr \<Rightarrow> bytes \<Rightarrow> bytes \<Rightarrow> bytes \<Rightarrow> bytes \<Rightarrow> bytes \<Rightarrow> bytes \<Rightarrow> VerifyResult" where
  "verify_record_id K record_id source_url source_hash schema tags body created_at =
     (if compute_record_id K source_url source_hash schema tags body created_at = record_id
      then VerifyResult_ok
      else VerifyResult_fail (lit ''record_id does not match content hash''))"

section \<open>What a signature covers\<close>

text \<open>C6: The canonical encoding is unambiguous: for fields shorter than \<open>2 ^ 32\<close> bytes, two lists of
  fields, even of different lengths, have the same encoding exactly when they are the same list.\<close>

theorem canonical_encoding_unambiguous:
  assumes "list_all short fs" "list_all short gs"
  shows "canonical_encode_fields fs = canonical_encode_fields gs \<longleftrightarrow> fs = gs"
  using canonical_encode_inj [OF assms] by blast

theorem canonical_encoding_unambiguous_witness:
  "canonical_encode_fields [[1], [2, 3]] \<noteq> canonical_encode_fields [[1, 2], [3]]"
  using canonical_encoding_unambiguous [of "[[1], [2, 3]]" "[[1, 2], [3]]"] by (simp add: short_def)

text \<open>A signature made for a record verifies, under the signer's key, for a second record
  only if the code signs the same bytes, and those determine every signed field; the same
  bytes are never those of an announcement.\<close>

theorem record_signature_roundtrip:
  assumes "crypto_laws K" "list_all short (RecordFields_list f)"
  shows "vr_valid (verify_record_signature K (ed_verifying_key K sk) f (sign_record K sk f))
    \<and> (\<forall>g. list_all short (RecordFields_list g) \<and> RecordFields_encode g = RecordFields_encode f \<longrightarrow> g = f)
    \<and> (\<forall>a. list_all short (AnnouncementFields_list a) \<longrightarrow> AnnouncementFields_encode a \<noteq> RecordFields_encode f)"
proof (intro conjI allI impI)
  show "vr_valid (verify_record_signature K (ed_verifying_key K sk) f (sign_record K sk f))"
    using assms(1)
    by (simp add: verify_record_signature_def verify_record_sig_def sign_record_def crypto_laws_def)
  show "g = f" if "list_all short (RecordFields_list g) \<and> RecordFields_encode g = RecordFields_encode f" for g
    using that assms(2) RecordFields_encode_inj by blast
  show "AnnouncementFields_encode a \<noteq> RecordFields_encode f"
    if "list_all short (AnnouncementFields_list a)" for a
    using record_announcement_encodings_differ [OF assms(2) that] by simp
qed

theorem record_signature_roundtrip_witness:
  "vr_valid (verify_record_signature sample_crypto ()
     \<lparr>rf_id = [1], rf_source_url = [], rf_source_hash = [], rf_schema = [], rf_tags = [], rf_body = [2],
      rf_created_at = [], rf_expires_at = [], rf_scrape_source = [], rf_refresh_policy = []\<rparr>
     (sign_record sample_crypto ()
       \<lparr>rf_id = [1], rf_source_url = [], rf_source_hash = [], rf_schema = [], rf_tags = [], rf_body = [2],
        rf_created_at = [], rf_expires_at = [], rf_scrape_source = [], rf_refresh_policy = []\<rparr>))"
  using record_signature_roundtrip [OF sample_crypto_laws, of
      "\<lparr>rf_id = [1], rf_source_url = [], rf_source_hash = [], rf_schema = [], rf_tags = [], rf_body = [2],
        rf_created_at = [], rf_expires_at = [], rf_scrape_source = [], rf_refresh_policy = []\<rparr>" "()"]
  by (simp add: RecordFields_list_def short_def sample_crypto_def)

end
