(* ===== verification/Url.thy ===== *)
theory Url
  imports Sign
begin

text \<open>
  URL normalisation, \<^verbatim>\<open>normalize_source_url\<close> and \<^verbatim>\<open>compute_source_hash\<close> of
  \<^verbatim>\<open>src/src/trust/sign.rs\<close>: two addresses with the same normal form are one source for the
  deduplication of the store. \<open>lc\<close> stands for \<^verbatim>\<open>str::to_lowercase\<close>.
\<close>

definition TRACKING_PARAMS :: "ustr list" where
  "TRACKING_PARAMS = map lit
     [''utm_source'', ''utm_medium'', ''utm_campaign'', ''utm_term'', ''utm_content'', ''utm_id'',
      ''fbclid'', ''gclid'', ''gclsrc'', ''dclid'', ''msclkid'', ''mc_eid'', ''_ga'', ''_gl'',
      ''_hsenc'', ''_hsmi'', ''hsCtaTracking'', ''ver'', ''ref'', ''referrer'', ''source'', ''s_cid'',
      ''elqTrackId'', ''elqTrack'', ''assetType'', ''assetId'', ''recipient_id'', ''campaign_id'',
      ''site_id'']"

definition is_tracking :: "(ustr \<Rightarrow> ustr) \<Rightarrow> ustr \<Rightarrow> bool" where
  "is_tracking lc key \<longleftrightarrow> lc key \<in> set TRACKING_PARAMS"

definition parse_pair :: "ustr \<Rightarrow> ustr \<times> ustr" where
  "parse_pair pair = (case split_once 61 pair of Some (k, v) \<Rightarrow> (k, v) | None \<Rightarrow> (pair, []))"

definition parse_params :: "(ustr \<Rightarrow> ustr) \<Rightarrow> ustr \<Rightarrow> (ustr \<times> ustr) list" where
  "parse_params lc query_string =
     (if query_string = [] then []
      else filter (\<lambda>kv. \<not> is_tracking lc (fst kv))
             (map parse_pair (filter (\<lambda>p. p \<noteq> []) (split_on 38 query_string))))"

definition render_param :: "ustr \<times> ustr \<Rightarrow> ustr" where
  "render_param kv = fst kv @ (if snd kv = [] then [] else 61 # snd kv)"

definition render_query :: "(ustr \<times> ustr) list \<Rightarrow> ustr" where
  "render_query params = (if params = [] then [] else 63 # join [38] (map render_param params))"

definition strip_trailing_slash :: "ustr \<Rightarrow> ustr" where
  "strip_trailing_slash path = (if 1 < length path \<and> last path = 47 then butlast path else path)"

definition normalize_source_url :: "(ustr \<Rightarrow> ustr) \<Rightarrow> ustr \<Rightarrow> ustr" where
  "normalize_source_url lc url0 =
     (let url1 = trim url0;
          url = (case split_once 35 url1 of Some (a, _) \<Rightarrow> a | None \<Rightarrow> url1)
      in case split_str (lit ''://'') url of
           None \<Rightarrow> url
         | Some (s, rest) \<Rightarrow>
             (let scheme = lc (s @ lit ''://'');
                  (host, path_and_query) =
                    (case split_once 47 rest of Some (h, p) \<Rightarrow> (h, 47 # p) | None \<Rightarrow> (rest, [47]));
                  (path, query_string) =
                    (case split_once 63 path_and_query of Some (p, q) \<Rightarrow> (p, q) | None \<Rightarrow> (path_and_query, []))
              in scheme @ lc host @ strip_trailing_slash path
                 @ render_query (sort_key fst (parse_params lc query_string))))"

definition compute_source_hash :: "('sk, 'vk) crypto \<Rightarrow> (ustr \<Rightarrow> ustr) \<Rightarrow> ustr \<Rightarrow> ustr" where
  "compute_source_hash K lc url = hex_encode (blake3 K (utf8 (normalize_source_url lc url)))"

section \<open>Normal forms of clean URLs\<close>

text \<open>A URL of the shape \<open>scheme://host/path?pieces\<close> with no white space and no fragment.\<close>

definition no_space :: "ustr \<Rightarrow> bool" where
  "no_space s \<longleftrightarrow> (\<forall>c \<in> set s. \<not> is_whitespace c)"

definition clean_base :: "ustr \<Rightarrow> ustr \<Rightarrow> ustr \<Rightarrow> bool" where
  "clean_base scheme host path \<longleftrightarrow>
     no_space scheme \<and> no_space host \<and> no_space path \<and>
     58 \<notin> set scheme \<and> 35 \<notin> set scheme \<and> 47 \<notin> set host \<and> 35 \<notin> set host \<and>
     path \<noteq> [] \<and> hd path = 47 \<and> 63 \<notin> set path \<and> 35 \<notin> set path"

definition clean_piece :: "ustr \<Rightarrow> bool" where
  "clean_piece p \<longleftrightarrow> p \<noteq> [] \<and> no_space p \<and> 38 \<notin> set p \<and> 35 \<notin> set p"

definition page_url :: "ustr \<Rightarrow> ustr \<Rightarrow> ustr \<Rightarrow> ustr list \<Rightarrow> ustr" where
  "page_url scheme host path pieces =
     scheme @ lit ''://'' @ host @ path @ 63 # join [38] pieces"

lemma dropWhile_none: "\<forall>c \<in> set s. \<not> P c \<Longrightarrow> dropWhile P s = s"
  by (cases s) auto

lemma trim_no_space: "no_space s \<Longrightarrow> trim s = s"
  by (simp add: trim_def trim_end_def no_space_def dropWhile_none)

lemma no_space_lit: "no_space (lit ''://'')"
  by (simp add: no_space_def lit_def is_whitespace_def)

lemma split_str_scheme: "58 \<notin> set s \<Longrightarrow> split_str (lit ''://'') (s @ lit ''://'' @ r) = Some (s, r)"
proof (induction s)
  case Nil
  then show ?case by (simp add: lit_def starts_with_def)
next
  case (Cons c s)
  then have "\<not> starts_with (lit ''://'') (c # s @ lit ''://'' @ r)"
    by (simp add: lit_def starts_with_def)
  with Cons show ?case by simp
qed

lemma ws_ascii [simp]:
  "\<not> is_whitespace 35" "\<not> is_whitespace 38" "\<not> is_whitespace 47" "\<not> is_whitespace 58" "\<not> is_whitespace 63"
  by (simp_all add: is_whitespace_def)

lemma no_space_simps [simp]:
  "no_space []" "no_space (c # s) \<longleftrightarrow> \<not> is_whitespace c \<and> no_space s"
  "no_space (s @ t) \<longleftrightarrow> no_space s \<and> no_space t"
  by (auto simp: no_space_def)

lemma clean_query: "list_all clean_piece ps \<Longrightarrow> no_space (join [38] ps) \<and> 35 \<notin> set (join [38] ps)"
  by (induction "[38 :: uchar]" ps rule: join.induct) (auto simp: clean_piece_def)

lemma join_nonempty: "p \<noteq> [] \<Longrightarrow> join sep (p # ps) \<noteq> []"
  by (cases ps) auto

text \<open>The parameters that survive are the untracked pieces, cut at their first equals sign.\<close>

definition kept :: "(ustr \<Rightarrow> ustr) \<Rightarrow> ustr list \<Rightarrow> (ustr \<times> ustr) list" where
  "kept lc pieces = filter (\<lambda>kv. \<not> is_tracking lc (fst kv)) (map parse_pair pieces)"

lemma parse_params_pieces:
  assumes "list_all clean_piece ps"
  shows "parse_params lc (join [38] ps) = kept lc ps"
proof (cases "ps = []")
  case True
  then show ?thesis by (simp add: parse_params_def kept_def)
next
  case False
  with assms have "split_on 38 (join [38] ps) = ps"
    by (intro split_on_join) (auto simp: list_all_iff clean_piece_def)
  moreover have "filter (\<lambda>p. p \<noteq> []) ps = ps"
    using assms by (intro filter_True) (auto simp: list_all_iff clean_piece_def)
  moreover from False assms have "join [38] ps \<noteq> []"
    by (cases ps) (auto simp: clean_piece_def join_nonempty)
  ultimately show ?thesis by (simp add: parse_params_def kept_def)
qed

lemma normalize_page_url:
  assumes "clean_base scheme host path" "list_all clean_piece ps"
  shows "normalize_source_url lc (page_url scheme host path ps) =
    lc (scheme @ lit ''://'') @ lc host @ strip_trailing_slash path @ render_query (sort_key fst (kept lc ps))"
proof -
  let ?q = "join [38] ps"
  let ?u = "page_url scheme host path ps"
  have q: "no_space ?q" "35 \<notin> set ?q" using clean_query [OF assms(2)] by auto
  have clean: "no_space ?u" "35 \<notin> set ?u"
    using assms(1) q no_space_lit
    by (simp_all add: page_url_def clean_base_def) (simp add: lit_def)
  obtain p' where path: "path = 47 # p'" "63 \<notin> set p'"
    using assms(1) by (cases path) (auto simp: clean_base_def)
  have "split_str (lit ''://'') ?u = Some (scheme, host @ path @ 63 # ?q)"
    using assms(1) by (simp add: page_url_def clean_base_def split_str_scheme)
  moreover have "split_once 47 (host @ path @ 63 # ?q) = Some (host, p' @ 63 # ?q)"
    using assms(1) by (simp add: path clean_base_def)
  moreover have "split_once 63 (47 # p' @ 63 # ?q) = Some (47 # p', ?q)"
    using path split_once_append [of 63 "47 # p'" ?q] by simp
  moreover have "split_once 35 ?u = None"
    using clean by (simp add: split_once_None_iff)
  ultimately show ?thesis
    using clean by (simp add: normalize_source_url_def trim_no_space parse_params_pieces [OF assms(2)] path Let_def)
qed

text \<open>ASCII lower case, the instance of \<open>lc\<close> for the concrete runs.\<close>

definition ascii_lower :: "ustr \<Rightarrow> ustr" where
  "ascii_lower = map (\<lambda>c. if 65 \<le> c \<and> c \<le> 90 then c + 32 else c)"

text \<open>The normal form tells lists of parameters apart, but for what sorting by key forgets: the order of parameters with
  different keys.\<close>

lemma sort_key_same_iff:
  fixes f :: "'a \<Rightarrow> 'b :: linorder"
  shows "sort_key f xs = sort_key f ys \<longleftrightarrow> (\<forall>k. filter (\<lambda>x. f x = k) xs = filter (\<lambda>x. f x = k) ys)"
proof
  assume same: "\<forall>k. filter (\<lambda>x. f x = k) xs = filter (\<lambda>x. f x = k) ys"
  have "count (mset zs) x = count (mset (filter (\<lambda>y. f y = f x) zs)) x" for zs x by (induction zs) auto
  with same have "mset xs = mset ys" by (intro multiset_eqI) metis
  moreover have "filter (\<lambda>x. f k = f x) zs = filter (\<lambda>x. f x = f k) zs" for zs k by (metis (lifting))
  ultimately show "sort_key f xs = sort_key f ys"
    using same by (intro properties_for_sort_key) (simp_all add: sort_key_stable)
next
  assume "sort_key f xs = sort_key f ys"
  then show "\<forall>k. filter (\<lambda>x. f x = k) xs = filter (\<lambda>x. f x = k) ys" by (metis sort_key_stable)
qed

definition good_param :: "ustr \<times> ustr \<Rightarrow> bool" where
  "good_param kv \<longleftrightarrow> 61 \<notin> set (fst kv) \<and> 38 \<notin> set (fst kv) \<and> 38 \<notin> set (snd kv)"

lemma parse_pair_good:
  assumes "clean_piece p"
  shows "good_param (parse_pair p)"
proof (cases "split_once 61 p")
  case None
  with assms have "parse_pair p = (p, [])" "61 \<notin> set p" by (simp_all add: parse_pair_def split_once_None_iff [THEN iffD1])
  with assms show ?thesis by (simp add: good_param_def clean_piece_def)
next
  case (Some kv)
  obtain k v where "kv = (k, v)" by force
  with Some assms split_once_SomeD [of 61 p k v] show ?thesis by (auto simp: parse_pair_def good_param_def clean_piece_def)
qed

lemma parse_rendered: "61 \<notin> set (fst kv) \<Longrightarrow> parse_pair (render_param kv) = kv"
  by (cases kv) (simp add: parse_pair_def render_param_def split_once_None_iff [THEN iffD2])

lemma render_query_inject:
  assumes "list_all good_param xs" "list_all good_param ys" "render_query xs = render_query ys"
  shows "xs = ys"
proof (cases "xs = [] \<or> ys = []")
  case True
  with assms(3) show ?thesis by (auto simp: render_query_def split: if_splits)
next
  case False
  have pieces: "split_on 38 (join [38] (map render_param zs)) = map render_param zs" if "zs \<noteq> []" "list_all good_param zs" for zs
    using that by (intro split_on_join) (auto simp: list_all_iff good_param_def render_param_def)
  from False assms(3) have "join [38] (map render_param xs) = join [38] (map render_param ys)" by (simp add: render_query_def)
  with pieces [of xs] pieces [of ys] False assms(1,2) have "map render_param xs = map render_param ys" by metis
  then have "map (parse_pair \<circ> render_param) xs = map (parse_pair \<circ> render_param) ys" by (metis map_map)
  moreover have "map (parse_pair \<circ> render_param) zs = zs" if "list_all good_param zs" for zs
    using that by (intro map_idI) (simp add: list_all_iff good_param_def parse_rendered)
  ultimately show ?thesis using assms(1,2) by metis
qed

section \<open>When two addresses are one source\<close>

text \<open>The parameters that are stripped: those of the table but the five with a capital letter.\<close>

definition stripped_names :: "ustr list" where
  "stripped_names = map lit
     [''utm_source'', ''utm_medium'', ''utm_campaign'', ''utm_term'', ''utm_content'', ''utm_id'', ''fbclid'', ''gclid'', ''gclsrc'',
      ''dclid'', ''msclkid'', ''mc_eid'', ''_ga'', ''_gl'', ''_hsenc'', ''_hsmi'', ''ver'', ''ref'', ''referrer'', ''source'', ''s_cid'',
      ''recipient_id'', ''campaign_id'', ''site_id'']"

text \<open>\<^verbatim>\<open>to_lowercase\<close> leaves no ASCII capital.\<close>

definition lower_law :: "(ustr \<Rightarrow> ustr) \<Rightarrow> bool" where
  "lower_law lc \<longleftrightarrow> (\<forall>s. \<forall>c \<in> set (lc s). \<not> (65 \<le> c \<and> c \<le> 90))"

lemma is_tracking_iff:
  assumes "lower_law lc"
  shows "is_tracking lc key \<longleftrightarrow> lc key \<in> set stripped_names"
proof -
  have no_capital: "lc key \<noteq> s @ c # t" if "65 \<le> c \<and> c \<le> 90" for s c t
  proof
    assume "lc key = s @ c # t"
    then have "c \<in> set (lc key)" by simp
    with assms that show False unfolding lower_law_def by blast
  qed
  have "lc key \<noteq> lit ''hsCtaTracking''" using no_capital [of 67 "lit ''hs''" "lit ''taTracking''"] by (simp add: lit_def)
  moreover have "lc key \<noteq> lit ''elqTrackId''" using no_capital [of 84 "lit ''elq''" "lit ''rackId''"] by (simp add: lit_def)
  moreover have "lc key \<noteq> lit ''elqTrack''" using no_capital [of 84 "lit ''elq''" "lit ''rack''"] by (simp add: lit_def)
  moreover have "lc key \<noteq> lit ''assetType''" using no_capital [of 84 "lit ''asset''" "lit ''ype''"] by (simp add: lit_def)
  moreover have "lc key \<noteq> lit ''assetId''" using no_capital [of 73 "lit ''asset''" "lit ''d''"] by (simp add: lit_def)
  ultimately show ?thesis by (simp add: is_tracking_def TRACKING_PARAMS_def stripped_names_def)
qed

text \<open>The values that an address gives a parameter, in their order; none when the parameter is stripped.\<close>

definition param_values :: "(ustr \<Rightarrow> ustr) \<Rightarrow> ustr list \<Rightarrow> ustr \<Rightarrow> ustr list" where
  "param_values lc ps k = (if lc k \<in> set stripped_names then [] else map snd (filter (\<lambda>kv. fst kv = k) (map parse_pair ps)))"

lemma param_values_kept:
  assumes "lower_law lc"
  shows "(\<forall>k. param_values lc ps k = param_values lc qs k) \<longleftrightarrow>
    (\<forall>k. filter (\<lambda>kv. fst kv = k) (kept lc ps) = filter (\<lambda>kv. fst kv = k) (kept lc qs))"
proof -
  have pairs: "filter (\<lambda>kv. fst kv = k) zs = map (Pair k) (map snd (filter (\<lambda>kv. fst kv = k) zs))" for k and zs :: "(ustr \<times> ustr) list"
    by (induction zs) auto
  have kept: "filter (\<lambda>kv. fst kv = k) (kept lc zs) = map (Pair k) (param_values lc zs k)" for k zs
  proof (cases "lc k \<in> set stripped_names")
    case True
    then show ?thesis by (auto simp: param_values_def kept_def is_tracking_iff [OF assms] filter_empty_conv)
  next
    case False
    then have "filter (\<lambda>kv. fst kv = k) (kept lc zs) = filter (\<lambda>kv. fst kv = k) (map parse_pair zs)"
      unfolding kept_def filter_filter is_tracking_iff [OF assms] by (intro filter_cong) auto
    with False show ?thesis using pairs [of k "map parse_pair zs"] by (simp add: param_values_def)
  qed
  have inj: "inj (Pair k :: ustr \<Rightarrow> ustr \<times> ustr)" for k by (simp add: inj_on_def)
  show ?thesis by (simp only: kept inj_map_eq_map [OF inj])
qed

text \<open>C10: Two addresses of one page have the same normal form, and so the same source hash, exactly when they give every
  parameter that is not stripped the same values in the same order. The order of different parameters does
  not matter, nor do the stripped ones, which are the names of the table in any spelling but for the
  five written with a capital letter: these count as any other parameter does.\<close>

theorem source_hash_ignores_order_and_tracking:
  assumes "lower_law lc" and "clean_base scheme host path" "list_all clean_piece ps" "list_all clean_piece qs"
  shows "(normalize_source_url lc (page_url scheme host path ps) = normalize_source_url lc (page_url scheme host path qs) \<longleftrightarrow>
      (\<forall>k. param_values lc ps k = param_values lc qs k)) \<and>
    ((\<forall>k. param_values lc ps k = param_values lc qs k) \<longrightarrow>
      compute_source_hash K lc (page_url scheme host path ps) = compute_source_hash K lc (page_url scheme host path qs))"
proof -
  have good: "list_all good_param (sort_key fst (kept lc zs))" if "list_all clean_piece zs" for zs
    using that parse_pair_good by (auto simp: list_all_iff kept_def)
  have "normalize_source_url lc (page_url scheme host path ps) = normalize_source_url lc (page_url scheme host path qs) \<longleftrightarrow>
      sort_key fst (kept lc ps) = sort_key fst (kept lc qs)"
    using assms(2-4) render_query_inject [OF good [OF assms(3)] good [OF assms(4)]] by (auto simp: normalize_page_url)
  also have "\<dots> \<longleftrightarrow> (\<forall>k. param_values lc ps k = param_values lc qs k)"
    by (simp only: sort_key_same_iff param_values_kept [OF assms(1)])
  finally show ?thesis unfolding compute_source_hash_def by metis
qed

lemma ascii_lower_law: "lower_law ascii_lower"
  by (auto simp: lower_law_def ascii_lower_def)

theorem source_hash_ignores_order_and_tracking_witness:
  "compute_source_hash sample_crypto ascii_lower
     (page_url (lit ''https'') (lit ''a.org'') (lit ''/p'') [lit ''b=2'', lit ''utm_source=x'', lit ''a=1''])
   = compute_source_hash sample_crypto ascii_lower
     (page_url (lit ''https'') (lit ''a.org'') (lit ''/p'') [lit ''a=1'', lit ''b=2'']) \<and>
   normalize_source_url ascii_lower (page_url (lit ''https'') (lit ''a.org'') (lit ''/p'') [lit ''a=1'', lit ''a=2''])
   \<noteq> normalize_source_url ascii_lower (page_url (lit ''https'') (lit ''a.org'') (lit ''/p'') [lit ''a=2'', lit ''a=1''])"
proof -
  have base: "clean_base (lit ''https'') (lit ''a.org'') (lit ''/p'')"
    by (simp add: clean_base_def no_space_def is_whitespace_def lit_def)
  have pieces: "list_all clean_piece [lit ''b=2'', lit ''utm_source=x'', lit ''a=1'', lit ''a=2'']"
    by (simp add: clean_piece_def no_space_def is_whitespace_def lit_def)
  note claim = source_hash_ignores_order_and_tracking [OF ascii_lower_law base]
  have "\<forall>k. param_values ascii_lower [lit ''b=2'', lit ''utm_source=x'', lit ''a=1''] k = param_values ascii_lower [lit ''a=1'', lit ''b=2''] k"
    by (auto simp: param_values_def parse_pair_def ascii_lower_def stripped_names_def lit_def)
  moreover have "param_values ascii_lower [lit ''a=1'', lit ''a=2''] (lit ''a'') \<noteq> param_values ascii_lower [lit ''a=2'', lit ''a=1''] (lit ''a'')"
    by (simp add: param_values_def parse_pair_def ascii_lower_def stripped_names_def lit_def)
  ultimately show ?thesis
    using claim [of "[lit ''b=2'', lit ''utm_source=x'', lit ''a=1'']" "[lit ''a=1'', lit ''b=2'']" sample_crypto]
      claim [of "[lit ''a=1'', lit ''a=2'']" "[lit ''a=2'', lit ''a=1'']" sample_crypto] pieces by auto
qed

text \<open>A fragment never makes a second source: a URL without white space hashes the same with
  any fragment without trailing blanks appended.\<close>

theorem source_hash_ignores_fragment:
  assumes "no_space url" "35 \<notin> set url" "no_space frag"
  shows "compute_source_hash K lc (url @ 35 # frag) = compute_source_hash K lc url"
proof -
  have "no_space (url @ 35 # frag)"
    using assms by simp
  moreover have "split_once 35 (url @ 35 # frag) = Some (url, frag)" "split_once 35 url = None"
    using assms by (auto simp: split_once_None_iff)
  ultimately show ?thesis
    using assms by (simp add: compute_source_hash_def normalize_source_url_def trim_no_space)
qed

theorem source_hash_ignores_fragment_witness:
  "compute_source_hash sample_crypto ascii_lower (lit ''https://a.org/p#top'')
   = compute_source_hash sample_crypto ascii_lower (lit ''https://a.org/p'')"
proof -
  have "lit ''https://a.org/p#top'' = lit ''https://a.org/p'' @ 35 # lit ''top''"
    by (simp add: lit_def)
  moreover have "no_space (lit ''https://a.org/p'')" "35 \<notin> set (lit ''https://a.org/p'')" "no_space (lit ''top'')"
    by (simp_all add: no_space_def is_whitespace_def lit_def)
  ultimately show ?thesis using source_hash_ignores_fragment by metis
qed

text \<open>The table of tracking parameters holds five names with capital letters
  (\<^verbatim>\<open>hsCtaTracking\<close>, \<^verbatim>\<open>elqTrackId\<close>, \<^verbatim>\<open>elqTrack\<close>, \<^verbatim>\<open>assetType\<close>, \<^verbatim>\<open>assetId\<close>), while keys are lower-cased
  before they are looked up: with a lower-casing that is the usual one on ASCII, no spelling
  of the five is ever stripped.\<close>

theorem mixed_case_tracking_names_are_kept:
  assumes "\<forall>s. lc (lit s) = ascii_lower (lit s)"
    and "t \<in> {''hsCtaTracking'', ''elqTrackId'', ''elqTrack'', ''assetType'', ''assetId''}"
    and "lc name = lc (lit t)"
  shows "\<not> is_tracking lc name"
proof -
  have "ascii_lower (lit t) \<notin> set TRACKING_PARAMS"
    using assms(2) by (auto simp: TRACKING_PARAMS_def ascii_lower_def lit_def)
  with assms(1,3) show ?thesis by (simp add: is_tracking_def)
qed

theorem mixed_case_tracking_names_are_kept_witness:
  "parse_params ascii_lower (lit ''assetId=7'') = [(lit ''assetId'', lit ''7'')]"
proof -
  have "\<not> is_tracking ascii_lower (lit ''assetId'')"
    by (rule mixed_case_tracking_names_are_kept [of _ "''assetId''"]) simp_all
  then show ?thesis by (simp add: parse_params_def parse_pair_def lit_def)
qed

end
