(* ===== verification/Pow.thy ===== *)
theory Pow
  imports Sign
begin

text \<open>
  \<^verbatim>\<open>src/src/trust/pow.rs\<close>: proof-of-work for node identities. The threshold comparison of
  the code is shown equivalent to counting leading zero bits, mining is shown to return the
  least good nonce, and what is mined verifies.
\<close>

unbundle bit_operations_syntax

definition DEFAULT_DIFFICULTY :: u8 where "DEFAULT_DIFFICULTY = 16"
definition MAX_NONCE :: nat where "MAX_NONCE = 10000000"

record PowSolution =
  pw_nonce :: u64
  pw_difficulty :: u8
  pw_hash :: bytes

definition hash_pow :: "('sk, 'vk) crypto \<Rightarrow> bytes \<Rightarrow> u64 \<Rightarrow> bytes" where
  "hash_pow K input nonce = blake3 K (input @ le64 nonce)"

definition difficulty_to_threshold :: "u8 \<Rightarrow> bytes option" where
  "difficulty_to_threshold difficulty =
     (if difficulty = 255 then None
      else let full_bytes = unat (difficulty div 8);
               remaining_bits = unat (difficulty mod 8);
               threshold = map (\<lambda>i. if i < full_bytes then 0 else 255) [0..<32]
           in Some (if 0 < remaining_bits \<and> full_bytes < 32
                    then threshold[full_bytes := drop_bit remaining_bits 255]
                    else threshold))"

fun meets_difficulty :: "bytes \<Rightarrow> bytes \<Rightarrow> bool" where
  "meets_difficulty (h # hs) (t # ts) =
     (if h < t then True else if h > t then False else meets_difficulty hs ts)"
| "meets_difficulty hs ts = True"

function mine_from :: "('sk, 'vk) crypto \<Rightarrow> bytes \<Rightarrow> u8 \<Rightarrow> bytes \<Rightarrow> nat \<Rightarrow> PowSolution option" where
  "mine_from K input difficulty threshold nonce =
     (if nonce < MAX_NONCE then
        (let hash = hash_pow K input (of_nat nonce)
         in if meets_difficulty hash threshold
            then Some \<lparr>pw_nonce = of_nat nonce, pw_difficulty = difficulty, pw_hash = hash\<rparr>
            else mine_from K input difficulty threshold (Suc nonce))
      else None)"
  by pat_completeness auto
termination
  by (relation "measure (\<lambda>(K, input, d, t, nonce). MAX_NONCE - nonce)") auto

declare mine_from.simps [simp del]

definition mine_pow :: "('sk, 'vk) crypto \<Rightarrow> bytes \<Rightarrow> u8 \<Rightarrow> PowSolution option" where
  "mine_pow K input difficulty =
     (case difficulty_to_threshold difficulty of
        None \<Rightarrow> None
      | Some threshold \<Rightarrow> mine_from K input difficulty threshold 0)"

definition verify_pow :: "('sk, 'vk) crypto \<Rightarrow> bytes \<Rightarrow> PowSolution \<Rightarrow> bool" where
  "verify_pow K input solution =
     (let hash = hash_pow K input (pw_nonce solution)
      in if hash \<noteq> pw_hash solution then False
         else case difficulty_to_threshold (pw_difficulty solution) of
                Some t \<Rightarrow> meets_difficulty hash t
              | None \<Rightarrow> False)"

section \<open>Thresholds count leading zero bits\<close>

definition leading_zero_bits :: "nat \<Rightarrow> bytes \<Rightarrow> bool" where
  "leading_zero_bits n h \<longleftrightarrow> (\<forall>i<n. \<not> bit (h ! (i div 8)) (7 - i mod 8))"

text \<open>The threshold, built byte by byte.\<close>

fun threshold_bytes :: "nat \<Rightarrow> nat \<Rightarrow> bytes" where
  "threshold_bytes n 0 = []"
| "threshold_bytes n (Suc k) =
     (if 8 \<le> n then 0 # threshold_bytes (n - 8) k else drop_bit n 255 # replicate k 255)"

lemma length_threshold_bytes [simp]: "length (threshold_bytes n k) = k"
  by (induction n k rule: threshold_bytes.induct) auto

lemma nth_threshold_bytes:
  "j < k \<Longrightarrow> threshold_bytes n k ! j =
     (if j < n div 8 then 0 else if j = n div 8 then drop_bit (n mod 8) 255 else 255)"
proof (induction n k arbitrary: j rule: threshold_bytes.induct)
  case (2 n k)
  show ?case
  proof (cases "8 \<le> n")
    case True
    then have "n div 8 = Suc ((n - 8) div 8)" "n mod 8 = (n - 8) mod 8"
      by (simp_all add: le_div_geq le_mod_geq)
    with True 2 show ?thesis by (cases j) auto
  next
    case False
    then show ?thesis using 2 by (cases j) auto
  qed
qed simp

lemma difficulty_to_threshold_Some:
  "difficulty_to_threshold d = Some t \<longleftrightarrow> d \<noteq> 255 \<and> t = threshold_bytes (unat d) 32"
proof -
  have q: "unat (d div 8) = unat d div 8" "unat (d mod 8) = unat d mod 8"
    by (simp_all add: unat_div unat_mod)
  have "unat d div 8 < 32" using unat_u8_less [of d] by (simp add: less_mult_imp_div_less)
  then have "(if 0 < unat d mod 8 \<and> unat d div 8 < 32
        then (map (\<lambda>i. if i < unat d div 8 then 0 else 255) [0..<32])[unat d div 8 := drop_bit (unat d mod 8) 255]
        else map (\<lambda>i. if i < unat d div 8 then 0 else 255) [0..<32]) = threshold_bytes (unat d) 32"
    by (intro nth_equalityI) (auto simp: nth_threshold_bytes nth_list_update)
  then show ?thesis by (auto simp: difficulty_to_threshold_def q Let_def)
qed

lemma u8_le_255: "b \<le> (255 :: u8)"
proof -
  have "(255 :: u8) = - 1" by simp
  then show ?thesis by (simp only: word_n1_ge)
qed

lemma meets_max [simp]: "meets_difficulty h (replicate k 255)"
proof (induction k arbitrary: h)
  case (Suc k)
  show ?case
  proof (cases h)
    case (Cons b hs)
    have "\<not> 255 < b" using u8_le_255 [of b] by (simp only: not_less)
    with Cons Suc show ?thesis by simp
  qed simp
qed (cases h; simp)

lemma u8_le_mask: "k \<le> 8 \<Longrightarrow> (b :: u8) \<le> mask k \<longleftrightarrow> unat b < 2 ^ k"
proof -
  assume "k \<le> 8"
  then consider "k = 0" | "k = 1" | "k = 2" | "k = 3" | "k = 4" | "k = 5" | "k = 6" | "k = 7" | "k = 8"
    by linarith
  then show ?thesis
    using unat_u8_less [of b] u8_le_255 [of b]
    by cases (auto simp: mask_eq_exp_minus_1 word_le_nat_alt)
qed

text \<open>One byte against its threshold: the top \<open>n\<close> bits are clear.\<close>

lemma byte_le_threshold:
  assumes n: "n \<le> 8"
  shows "(b :: u8) \<le> drop_bit n 255 \<longleftrightarrow> (\<forall>i<n. \<not> bit b (7 - i))"
proof -
  have e: "(255 :: u8) = mask 8" by (simp add: mask_eq_exp_minus_1)
  have m: "drop_bit n (255 :: u8) = mask (8 - n)"
    unfolding e using n by (intro bit_word_eqI) (auto simp: bit_simps)
  have "b \<le> mask (8 - n) \<longleftrightarrow> take_bit (8 - n) b = b"
    by (simp add: u8_le_mask word_unat_eq_iff unsigned_take_bit_eq take_bit_nat_eq_self_iff)
  also have "\<dots> \<longleftrightarrow> (\<forall>j. 8 - n \<le> j \<and> j < 8 \<longrightarrow> \<not> bit b j)"
    by (auto simp: bit_eq_iff bit_simps) (metis not_less)
  also have "\<dots> \<longleftrightarrow> (\<forall>i<n. \<not> bit b (7 - i))"
  proof safe
    fix i assume h: "\<forall>j. 8 - n \<le> j \<and> j < 8 \<longrightarrow> \<not> bit b j" "i < n" "bit b (7 - i)"
    then have "8 - n \<le> 7 - i \<and> 7 - i < 8" using n by auto
    with h show False by blast
  next
    fix j assume h: "\<forall>i<n. \<not> bit b (7 - i)" "8 - n \<le> j" "j < 8" "bit b j"
    then have "7 - j < n" "7 - (7 - j) = j" using n by auto
    with h show False by metis
  qed
  finally show ?thesis by (simp add: m)
qed

lemma leading_zero_bits_step:
  assumes "8 \<le> n"
  shows "leading_zero_bits n (b # hs) \<longleftrightarrow> b = 0 \<and> leading_zero_bits (n - 8) hs"
proof -
  have zero: "b = 0 \<longleftrightarrow> (\<forall>i<8. \<not> bit b (7 - i))"
    using byte_le_threshold [of 8 b] by simp
  have "(\<forall>i<n. P i) \<longleftrightarrow> (\<forall>i<8. P i) \<and> (\<forall>i<n - 8. P (i + 8))" for P
  proof
    assume "\<forall>i<n. P i"
    with assms show "(\<forall>i<8. P i) \<and> (\<forall>i<n - 8. P (i + 8))" by auto
  next
    assume h: "(\<forall>i<8. P i) \<and> (\<forall>i<n - 8. P (i + 8))"
    show "\<forall>i<n. P i"
    proof (intro allI impI)
      fix i assume "i < n"
      show "P i"
      proof (cases "i < 8")
        case False
        with h \<open>i < n\<close> have "P (i - 8 + 8)" by (metis diff_less_mono not_less)
        with False show ?thesis by simp
      qed (use h in blast)
    qed
  qed
  note split = this [of "\<lambda>i. \<not> bit ((b # hs) ! (i div 8)) (7 - i mod 8)"]
  have "(i + 8) div 8 = Suc (i div 8)" for i :: nat by simp
  then show ?thesis
    unfolding leading_zero_bits_def split zero by simp
qed

lemma meets_threshold_bytes:
  "length h = k \<Longrightarrow> n \<le> 8 * k \<Longrightarrow> meets_difficulty h (threshold_bytes n k) \<longleftrightarrow> leading_zero_bits n h"
proof (induction n k arbitrary: h rule: threshold_bytes.induct)
  case (1 n)
  then show ?case by (simp add: leading_zero_bits_def)
next
  case (2 n k)
  then obtain b hs where h: "h = b # hs" by (cases h) auto
  show ?case
  proof (cases "8 \<le> n")
    case True
    with 2 h show ?thesis
      by (auto simp: leading_zero_bits_step word_gt_0)
  next
    case False
    have "meets_difficulty h (threshold_bytes n (Suc k)) \<longleftrightarrow> b \<le> drop_bit n 255"
      using False by (auto simp: h)
    also have "\<dots> \<longleftrightarrow> (\<forall>i<n. \<not> bit b (7 - i))"
      using False by (simp add: byte_le_threshold)
    finally show ?thesis
      using False by (auto simp: leading_zero_bits_def h)
  qed
qed

section \<open>Mining and verification\<close>

text \<open>
  The search returns the first nonce, counting up from its start, whose hash passes the
  threshold, and gives up only when no nonce below \<open>MAX_NONCE\<close> does.
\<close>

lemma mine_from_Some:
  "mine_from K input d t n = Some s \<Longrightarrow>
     (\<exists>m. n \<le> m \<and> m < MAX_NONCE \<and> meets_difficulty (hash_pow K input (of_nat m)) t \<and>
        (\<forall>j. n \<le> j \<and> j < m \<longrightarrow> \<not> meets_difficulty (hash_pow K input (of_nat j)) t) \<and>
        s = \<lparr>pw_nonce = of_nat m, pw_difficulty = d, pw_hash = hash_pow K input (of_nat m)\<rparr>)"
proof (induction K input d t n rule: mine_from.induct)
  case (1 K input d t n)
  show ?case
  proof (cases "n < MAX_NONCE \<and> \<not> meets_difficulty (hash_pow K input (of_nat n)) t")
    case True
    with 1 obtain m where "Suc n \<le> m" "m < MAX_NONCE" "meets_difficulty (hash_pow K input (of_nat m)) t"
      "\<forall>j. Suc n \<le> j \<and> j < m \<longrightarrow> \<not> meets_difficulty (hash_pow K input (of_nat j)) t"
      "s = \<lparr>pw_nonce = of_nat m, pw_difficulty = d, pw_hash = hash_pow K input (of_nat m)\<rparr>"
      by (auto simp: mine_from.simps [of K input d t n] Let_def)
    moreover from this True have "\<forall>j. n \<le> j \<and> j < m \<longrightarrow> \<not> meets_difficulty (hash_pow K input (of_nat j)) t"
      by (metis Suc_leI le_neq_implies_less)
    ultimately show ?thesis by (intro exI [of _ m]) auto
  next
    case False
    with 1 have "n < MAX_NONCE" "meets_difficulty (hash_pow K input (of_nat n)) t"
      by (auto simp: mine_from.simps [of K input d t n] split: if_splits)
    with 1 show ?thesis by (intro exI [of _ n]) (auto simp: mine_from.simps [of K input d t n] Let_def)
  qed
qed

lemma mine_from_None:
  "mine_from K input d t n = None \<Longrightarrow> n \<le> m \<Longrightarrow> m < MAX_NONCE \<Longrightarrow>
     \<not> meets_difficulty (hash_pow K input (of_nat m)) t"
proof (induction K input d t n rule: mine_from.induct)
  case (1 K input d t n)
  then have "\<not> meets_difficulty (hash_pow K input (of_nat n)) t"
    by (auto simp: mine_from.simps [of K input d t n] Let_def split: if_splits)
  with 1 show ?case
    by (cases "m = n") (auto simp: mine_from.simps [of K input d t n] Let_def split: if_splits)
qed

lemma sample_hash: "hash_pow sample_crypto [] 0 = replicate 32 0"
proof -
  have "sum_list (le64 0) = 0" by (simp add: le64_def map_replicate_const sum_list_replicate)
  then have "hash_pow sample_crypto [] 0 = 0 # replicate 31 0"
    by (simp add: hash_pow_def sample_crypto_def sample_digest_def)
  also have "\<dots> = replicate 32 0" by (simp add: eval_nat_numeral)
  finally show ?thesis .
qed

text \<open>C9: Verification accepts a solution exactly when its hash is the hash of the input and
  the nonce, its difficulty is not 255, and the hash has at least that many leading zero
  bits.\<close>

theorem verify_pow_iff_leading_zeros:
  assumes "crypto_laws K"
  shows "verify_pow K input s \<longleftrightarrow>
    pw_hash s = hash_pow K input (pw_nonce s) \<and> pw_difficulty s \<noteq> 255 \<and>
    leading_zero_bits (unat (pw_difficulty s)) (pw_hash s)"
proof -
  have "length (hash_pow K input (pw_nonce s)) = 32"
    using assms by (simp add: crypto_laws_def hash_pow_def)
  then show ?thesis
    using unat_u8_less [of "pw_difficulty s"]
    by (auto simp: verify_pow_def Let_def difficulty_to_threshold_Some meets_threshold_bytes split: option.splits)
      (auto simp: difficulty_to_threshold_def Let_def split: if_splits)
qed

theorem verify_pow_iff_leading_zeros_witness:
  "verify_pow sample_crypto [] \<lparr>pw_nonce = 0, pw_difficulty = 8, pw_hash = replicate 32 0\<rparr>"
  using verify_pow_iff_leading_zeros [OF sample_crypto_laws, of "[]"
      "\<lparr>pw_nonce = 0, pw_difficulty = 8, pw_hash = replicate 32 0\<rparr>"]
  by (simp add: sample_hash leading_zero_bits_def)

text \<open>Mining is sound, minimal and complete below the nonce bound: a solution it returns
  carries the requested difficulty, verifies, and no smaller nonce would do; when it returns
  none, no nonce below the bound has a hash with that many leading zero bits.\<close>

theorem mine_pow_spec:
  assumes "crypto_laws K" "difficulty \<noteq> 255"
  shows "case mine_pow K input difficulty of
      Some s \<Rightarrow> pw_difficulty s = difficulty \<and> verify_pow K input s \<and> unat (pw_nonce s) < MAX_NONCE \<and>
        (\<forall>m<unat (pw_nonce s). \<not> leading_zero_bits (unat difficulty) (hash_pow K input (of_nat m)))
    | None \<Rightarrow> \<forall>m<MAX_NONCE. \<not> leading_zero_bits (unat difficulty) (hash_pow K input (of_nat m))"
proof -
  define t where "t = threshold_bytes (unat difficulty) 32"
  have t: "difficulty_to_threshold difficulty = Some t"
    using assms(2) by (simp add: difficulty_to_threshold_Some t_def)
  have len: "length (hash_pow K input n) = 32" for n
    using assms(1) by (simp add: crypto_laws_def hash_pow_def)
  have lz: "meets_difficulty (hash_pow K input n) t \<longleftrightarrow> leading_zero_bits (unat difficulty) (hash_pow K input n)" for n
    using len [of n] unat_u8_less [of difficulty] by (simp add: t_def meets_threshold_bytes)
  show ?thesis
  proof (cases "mine_from K input difficulty t 0")
    case None
    with mine_from_None [OF None] show ?thesis by (simp add: mine_pow_def t lz)
  next
    case (Some s)
    obtain m where m: "m < MAX_NONCE" "meets_difficulty (hash_pow K input (of_nat m)) t"
      "\<forall>j<m. \<not> meets_difficulty (hash_pow K input (of_nat j)) t"
      "s = \<lparr>pw_nonce = of_nat m, pw_difficulty = difficulty, pw_hash = hash_pow K input (of_nat m)\<rparr>"
      using mine_from_Some [OF Some] by auto
    from m(1) have "unat (of_nat m :: u64) = m"
      by (simp add: MAX_NONCE_def unsigned_of_nat take_bit_eq_mod)
    with m Some show ?thesis by (simp add: mine_pow_def t lz verify_pow_def)
  qed
qed

theorem mine_pow_spec_witness:
  "\<exists>s. mine_pow sample_crypto [] 8 = Some s \<and> verify_pow sample_crypto [] s \<and> pw_nonce s = 0"
proof -
  have "mine_pow sample_crypto [] 8 = Some \<lparr>pw_nonce = 0, pw_difficulty = 8, pw_hash = replicate 32 0\<rparr>"
    by (simp add: mine_pow_def difficulty_to_threshold_Some [THEN iffD2] mine_from.simps [of _ _ _ _ 0]
        MAX_NONCE_def sample_hash meets_threshold_bytes leading_zero_bits_def)
  then show ?thesis using mine_pow_spec [OF sample_crypto_laws, of 8 "[]"] by simp
qed

end
