(* ===== verification/Wire.thy ===== *)
theory Wire
  imports Model Bytes
begin

text \<open>
  The wire format of \<^verbatim>\<open>src/src/proto/msg_type.rs\<close> and \<^verbatim>\<open>src/src/proto/frame.rs\<close>: the message
  types and their tags, the message bodies, frames, their encoding, and \<^verbatim>\<open>read_frame\<close> on a
  receive stream. A QUIC receive stream is what remains to be read: the bytes, and whether
  the peer finished the stream after them or a read error strikes there.
\<close>

section \<open>Message types\<close>

datatype MsgType = Handshake | HandshakeAck | Ping | Pong | FindNode | FindNodeReply
  | Announce | AnnounceAck | SearchQuery | SearchReply | RecordFetch | RecordReply
  | ReplicatePush | ReplicateAck | PeerExchange | Goodbye

primrec MsgType_as_u8 :: "MsgType \<Rightarrow> u8" where
  "MsgType_as_u8 Handshake = 0x01"
| "MsgType_as_u8 HandshakeAck = 0x02"
| "MsgType_as_u8 Ping = 0x03"
| "MsgType_as_u8 Pong = 0x04"
| "MsgType_as_u8 FindNode = 0x05"
| "MsgType_as_u8 FindNodeReply = 0x06"
| "MsgType_as_u8 Announce = 0x07"
| "MsgType_as_u8 AnnounceAck = 0x08"
| "MsgType_as_u8 SearchQuery = 0x09"
| "MsgType_as_u8 SearchReply = 0x0A"
| "MsgType_as_u8 RecordFetch = 0x0B"
| "MsgType_as_u8 RecordReply = 0x0C"
| "MsgType_as_u8 ReplicatePush = 0x0D"
| "MsgType_as_u8 ReplicateAck = 0x0E"
| "MsgType_as_u8 PeerExchange = 0x0F"
| "MsgType_as_u8 Goodbye = 0xFF"

definition MsgType_from_u8 :: "u8 \<Rightarrow> MsgType option" where
  "MsgType_from_u8 v =
     (if v = 0x01 then Some Handshake
      else if v = 0x02 then Some HandshakeAck
      else if v = 0x03 then Some Ping
      else if v = 0x04 then Some Pong
      else if v = 0x05 then Some FindNode
      else if v = 0x06 then Some FindNodeReply
      else if v = 0x07 then Some Announce
      else if v = 0x08 then Some AnnounceAck
      else if v = 0x09 then Some SearchQuery
      else if v = 0x0A then Some SearchReply
      else if v = 0x0B then Some RecordFetch
      else if v = 0x0C then Some RecordReply
      else if v = 0x0D then Some ReplicatePush
      else if v = 0x0E then Some ReplicateAck
      else if v = 0x0F then Some PeerExchange
      else if v = 0xFF then Some Goodbye
      else None)"

interpretation msg_type: name_codec MsgType_as_u8 MsgType_from_u8
proof unfold_locales
  show "MsgType_from_u8 (MsgType_as_u8 x) = Some x" for x
    by (cases x) (simp_all add: MsgType_from_u8_def)
  show "MsgType_from_u8 s = Some x \<Longrightarrow> MsgType_as_u8 x = s" for s x
    by (auto simp: MsgType_from_u8_def split: if_splits)
qed

definition PROTOCOL_VERSION :: u8 where "PROTOCOL_VERSION = 1"
definition MAX_PAYLOAD_SIZE :: u32 where "MAX_PAYLOAD_SIZE = 1048576"

section \<open>Message bodies\<close>

record HandshakeMsg =
  hs_version :: u8
  hs_node_id :: ustr
  hs_roles :: "ustr list"
  hs_capabilities :: "ustr list"

record HandshakeAckMsg =
  ha_version :: u8
  ha_node_id :: ustr
  ha_roles :: "ustr list"
  ha_capabilities :: "ustr list"

record PingMsg = ping_nonce :: u64
record PongMsg = pong_nonce :: u64
record FindNodeMsg = fn_target_id :: ustr

record NodeInfo =
  ni_id :: ustr
  ni_addr :: ustr

record FindNodeReplyMsg = fr_nodes :: "NodeInfo list"
record GoodbyeMsg = gb_reason :: ustr

record AnnounceMsg =
  am_record_id :: ustr
  am_source_hash :: ustr
  am_schema :: ustr
  am_tags :: "ustr list"
  am_holder_addr :: ustr
  am_expires_at :: u64
  am_sig :: ustr

record AnnounceAckMsg =
  aa_record_id :: ustr
  aa_accepted :: bool
  aa_reason :: ustr

record SearchQueryMsg =
  sq_query :: ustr
  sq_schema :: "ustr option"
  sq_limit :: u32
  sq_requester_id :: ustr
  sq_reply_to :: ustr

text \<open>Used when the field is absent from the JSON (\<^verbatim>\<open>#[serde(default = ...)]\<close>).\<close>

definition default_search_limit :: u32 where "default_search_limit = 20"

text \<open>The only score a node writes is the literal \<^verbatim>\<open>1.0\<close>; the type of floats is left open.\<close>

record 'f SearchResultEntry =
  re_record_id :: ustr
  re_schema :: ustr
  re_tags :: "ustr list"
  re_holder_addr :: ustr
  re_score :: 'f

record 'f SearchReplyMsg =
  sr_query :: ustr
  sr_results :: "'f SearchResultEntry list"
  sr_from_node :: ustr

record RecordFetchMsg =
  rq_record_id :: ustr
  rq_requester_id :: ustr

record RecordReplyMsg =
  rr_record_id :: ustr
  rr_record_json :: "ustr option"
  rr_not_found :: bool

record ReplicatePushMsg =
  rp_record_id :: ustr
  rp_record_json :: ustr
  rp_source_hash :: ustr
  rp_sig :: ustr

record ReplicateAckMsg =
  ra_record_id :: ustr
  ra_accepted :: bool
  ra_reason :: ustr

record PeerExchangeMsg = pe_peers :: "NodeInfo list"

section \<open>Frames\<close>

definition HEADER_SIZE :: nat where "HEADER_SIZE = 6"

record Frame =
  fr_version :: u8
  fr_msg_type :: MsgType
  fr_payload :: bytes

definition Frame_new :: "MsgType \<Rightarrow> bytes \<Rightarrow> Frame" where
  "Frame_new t p = \<lparr>fr_version = PROTOCOL_VERSION, fr_msg_type = t, fr_payload = p\<rparr>"

text \<open>\<open>self.payload.len() as u32\<close> truncates.\<close>

definition Frame_encode :: "Frame \<Rightarrow> bytes" where
  "Frame_encode f =
     (let len = (of_nat (length (fr_payload f)) :: u32)
      in [fr_version f, MsgType_as_u8 (fr_msg_type f)] @ be32 len @ fr_payload f)"

datatype FrameError = PayloadTooLarge u32 u32 | UnknownMsgType u8 | Io ustr

definition hex_upper :: "u8 \<Rightarrow> ustr" where
  "hex_upper b = map (\<lambda>c. if 97 \<le> c then c - 32 else c) (hex_byte b)"

primrec FrameError_fmt :: "FrameError \<Rightarrow> ustr" where
  "FrameError_fmt (PayloadTooLarge g m) =
     lit ''payload too large: '' @ to_dec (unat g) @ lit '' bytes (max '' @ to_dec (unat m) @ lit '')''"
| "FrameError_fmt (UnknownMsgType t) = lit ''unknown message type: 0x'' @ hex_upper t"
| "FrameError_fmt (Io e) = lit ''I/O error: '' @ e"

record stream =
  rs_data :: bytes
  rs_error :: "ustr option"

datatype ReadExactError = FinishedEarly | ReadError ustr

text \<open>\<^verbatim>\<open>quinn::RecvStream::read_exact\<close> for \<open>n\<close> bytes; a short read consumes what is left.\<close>

definition read_exact :: "nat \<Rightarrow> stream \<Rightarrow> (bytes, ReadExactError) result \<times> stream" where
  "read_exact n s =
     (if n \<le> length (rs_data s) then (Ok (take n (rs_data s)), s\<lparr>rs_data := drop n (rs_data s)\<rparr>)
      else case rs_error s of
        None \<Rightarrow> (Err FinishedEarly, s\<lparr>rs_data := []\<rparr>)
      | Some e \<Rightarrow> (Err (ReadError e), s\<lparr>rs_data := []\<rparr>))"

definition read_frame :: "stream \<Rightarrow> (Frame option, FrameError) result \<times> stream" where
  "read_frame s = (case read_exact HEADER_SIZE s of
     (Ok header, s) \<Rightarrow>
       let version = header ! 0;
           msg_byte = header ! 1;
           len = from_be32 (header ! 2) (header ! 3) (header ! 4) (header ! 5)
       in if MAX_PAYLOAD_SIZE < len then (Err (PayloadTooLarge len MAX_PAYLOAD_SIZE), s)
          else (case MsgType_from_u8 msg_byte of
            None \<Rightarrow> (Err (UnknownMsgType msg_byte), s)
          | Some msg_type \<Rightarrow>
              if 0 < len then
                (case read_exact (unat len) s of
                   (Ok payload, s) \<Rightarrow>
                     (Ok (Some \<lparr>fr_version = version, fr_msg_type = msg_type, fr_payload = payload\<rparr>), s)
                 | (Err FinishedEarly, s) \<Rightarrow> (Ok None, s)
                 | (Err (ReadError e), s) \<Rightarrow> (Err (Io e), s)
                 | (Panic, s) \<Rightarrow> (Panic, s))
              else (Ok (Some \<lparr>fr_version = version, fr_msg_type = msg_type, fr_payload = []\<rparr>), s))
   | (Err FinishedEarly, s) \<Rightarrow> (Ok None, s)
   | (Err (ReadError e), s) \<Rightarrow> (Err (Io e), s)
   | (Panic, s) \<Rightarrow> (Panic, s))"

text \<open>A send stream is the bytes written so far; a write fails when the connection does.\<close>

record sender =
  ws_data :: bytes
  ws_error :: "ustr option"

definition write_frame :: "Frame \<Rightarrow> sender \<Rightarrow> (unit, ustr) result \<times> sender" where
  "write_frame f w = (case ws_error w of
     Some e \<Rightarrow> (Err e, w)
   | None \<Rightarrow> (Ok (), w\<lparr>ws_data := ws_data w @ Frame_encode f\<rparr>))"

section \<open>Reading what was written\<close>

lemma be32_from_be32: "be32 (from_be32 a b c d) = [a, b, c, d]"
  unfolding be32_def from_be32_def
  by (simp, intro conjI; rule bit_word_eqI; simp add: bit_simps)
    (auto simp: bit_simps dest: bit_imp_le_length)

lemma length_Frame_encode [simp]: "length (Frame_encode f) = HEADER_SIZE + length (fr_payload f)"
  by (simp add: Frame_encode_def Let_def HEADER_SIZE_def)

lemma of_nat32_eq: "n < 2 ^ 32 \<Longrightarrow> of_nat n = (w :: u32) \<longleftrightarrow> unat w = n"
  by (auto simp: word_unat_eq_iff unat_of_nat take_bit_eq_mod)

text \<open>The two reads of \<open>read_frame\<close>, in terms of a split of the data.\<close>

lemma read_exact_enough [simp]:
  "length p = n \<Longrightarrow> rs_data s = p @ r \<Longrightarrow> read_exact n s = (Ok p, s\<lparr>rs_data := r\<rparr>)"
  by (auto simp: read_exact_def)

lemma read_exact_Ok_iff:
  "read_exact n s = (Ok p, s') \<longleftrightarrow> length p = n \<and> rs_data s = p @ rs_data s' \<and> rs_error s' = rs_error s"
  by (cases s; cases s') (auto simp: read_exact_def split: option.splits)

lemma read_exact_no_panic [simp]: "read_exact n s \<noteq> (Panic, s')"
  by (auto simp: read_exact_def split: option.splits)

lemma length_6_cases:
  assumes "length xs = HEADER_SIZE"
  obtains a b c d e f where "xs = [a, b, c, d, e, f]"
  using assms by (auto simp: HEADER_SIZE_def length_Suc_conv eval_nat_numeral)

lemma read_frame_header:
  assumes "rs_data s = [v, t, a, b, c, d] @ r"
  shows "read_frame s =
    (let len = from_be32 a b c d; s1 = s\<lparr>rs_data := r\<rparr> in
     if MAX_PAYLOAD_SIZE < len then (Err (PayloadTooLarge len MAX_PAYLOAD_SIZE), s1)
     else case MsgType_from_u8 t of
       None \<Rightarrow> (Err (UnknownMsgType t), s1)
     | Some mt \<Rightarrow> (case read_exact (unat len) s1 of
           (Ok p, s2) \<Rightarrow> (Ok (Some \<lparr>fr_version = v, fr_msg_type = mt, fr_payload = p\<rparr>), s2)
         | (Err FinishedEarly, s2) \<Rightarrow> (Ok None, s2)
         | (Err (ReadError e), s2) \<Rightarrow> (Err (Io e), s2)
         | (Panic, s2) \<Rightarrow> (Panic, s2)))"
proof -
  have h: "read_exact HEADER_SIZE s = (Ok [v, t, a, b, c, d], s\<lparr>rs_data := r\<rparr>)"
    using assms by (intro read_exact_enough) (simp_all add: HEADER_SIZE_def)
  have z: "read_exact 0 s' = (Ok [], s')" for s' :: stream
    by (simp add: read_exact_def)
  show ?thesis
    by (simp add: read_frame_def h Let_def z word_greater_zero_iff split: option.splits)
qed

lemma read_frame_short:
  assumes "length (rs_data s) < HEADER_SIZE"
  shows "read_frame s = (case rs_error s of None \<Rightarrow> (Ok None, s\<lparr>rs_data := []\<rparr>)
    | Some e \<Rightarrow> (Err (Io e), s\<lparr>rs_data := []\<rparr>))"
  using assms by (simp add: read_frame_def read_exact_def split: option.splits)

lemma stream_split:
  obtains (short) "length (rs_data s) < HEADER_SIZE"
    | (header) v t a b c d r where "rs_data s = [v, t, a, b, c, d] @ r"
proof (cases "length (rs_data s) < HEADER_SIZE")
  case False
  then have "length (take HEADER_SIZE (rs_data s)) = HEADER_SIZE" by simp
  then obtain v t a b c d where "take HEADER_SIZE (rs_data s) = [v, t, a, b, c, d]"
    by (rule length_6_cases)
  then show thesis using header by (metis append_take_drop_id)
qed (rule short)

lemma Frame_encode_header:
  "Frame_encode f = [v, t, a, b, c, d] @ p \<longleftrightarrow>
     fr_version f = v \<and> MsgType_as_u8 (fr_msg_type f) = t \<and>
     of_nat (length p) = from_be32 a b c d \<and> fr_payload f = p"
proof -
  have "be32 w = [a, b, c, d] \<longleftrightarrow> w = from_be32 a b c d" for w
    by (metis be32_from_be32 be32_inject)
  moreover have "Frame_encode f = [v, t, a, b, c, d] @ p \<longleftrightarrow>
      fr_version f = v \<and> MsgType_as_u8 (fr_msg_type f) = t \<and>
      be32 (of_nat (length (fr_payload f))) = [a, b, c, d] \<and> fr_payload f = p"
    by (simp add: Frame_encode_def Let_def be32_def)
  ultimately show ?thesis by auto
qed

lemma read_frame_encoded:
  "read_frame s = (Ok (Some f), s') \<longleftrightarrow>
     rs_data s = Frame_encode f @ rs_data s' \<and> rs_error s' = rs_error s \<and>
     length (fr_payload f) \<le> 1048576"
proof (cases rule: stream_split [of s])
  case short
  then show ?thesis by (auto simp: read_frame_short split: option.splits)
next
  case (header v t a b c d r)
  let ?len = "from_be32 a b c d"
  have enc: "rs_data s = Frame_encode f @ rs_data s' \<longleftrightarrow>
      fr_version f = v \<and> MsgType_as_u8 (fr_msg_type f) = t \<and>
      of_nat (length (fr_payload f)) = ?len \<and> r = fr_payload f @ rs_data s'"
    using Frame_encode_header [of f v t a b c d "fr_payload f"]
    by (auto simp: header Frame_encode_def Let_def be32_def)
  have len: "of_nat (length (fr_payload f)) = ?len \<and> length (fr_payload f) \<le> 1048576 \<longleftrightarrow>
      \<not> MAX_PAYLOAD_SIZE < ?len \<and> unat ?len = length (fr_payload f)"
    using of_nat32_eq [of "length (fr_payload f)" ?len]
    by (auto simp: MAX_PAYLOAD_SIZE_def word_less_nat_alt)
  have "read_frame s = (Ok (Some f), s') \<longleftrightarrow>
      \<not> MAX_PAYLOAD_SIZE < ?len \<and> MsgType_from_u8 t = Some (fr_msg_type f) \<and> fr_version f = v \<and>
      read_exact (unat ?len) (s\<lparr>rs_data := r\<rparr>) = (Ok (fr_payload f), s')"
    unfolding read_frame_header [OF header]
    by (cases f) (auto simp: Let_def split: option.splits prod.splits result.splits ReadExactError.splits)
  also have "\<dots> \<longleftrightarrow> rs_data s = Frame_encode f @ rs_data s' \<and> rs_error s' = rs_error s \<and>
      length (fr_payload f) \<le> 1048576"
    unfolding read_exact_Ok_iff enc msg_type.dec_Some_iff using len by auto
  finally show ?thesis .
qed

text \<open>C5: A frame is read exactly when its encoding, with a payload of at most 1 MB, is what
  comes next on the stream; the read consumes that encoding and nothing after it. So what
  \<^verbatim>\<open>write_frame\<close> writes is read back as it was, and nothing else is taken for a frame.\<close>

theorem read_frame_iff_encoded:
  "read_frame s = (Ok (Some f), s') \<longleftrightarrow>
     rs_data s = Frame_encode f @ rs_data s' \<and> rs_error s' = rs_error s \<and>
     length (fr_payload f) \<le> 1048576"
  by (rule read_frame_encoded)

lemma read_frame_no_panic [simp]: "read_frame s \<noteq> (Panic, s')"
proof (cases rule: stream_split [of s])
  case short
  then show ?thesis by (auto simp: read_frame_short split: option.splits)
next
  case (header v t a b c d r)
  show ?thesis
    by (auto simp: read_frame_header [OF header] Let_def
        split: option.splits prod.splits result.splits ReadExactError.splits)
qed

text \<open>\<^verbatim>\<open>write_frame\<close> does not look at the payload's size, and the reader refuses what is over
  1 MB after the header alone: of an oversized frame the six header bytes are consumed, its
  payload stays on the stream, and the error names the size and the limit.\<close>

theorem oversized_frame_refused:
  assumes "1048576 < length (fr_payload f)" and "length (fr_payload f) < 2 ^ 32"
    and "rs_data s = Frame_encode f @ r"
  shows "read_frame s =
    (Err (PayloadTooLarge (of_nat (length (fr_payload f))) 1048576), s\<lparr>rs_data := fr_payload f @ r\<rparr>)"
proof -
  obtain a b c d where abcd: "be32 (of_nat (length (fr_payload f))) = [a, b, c, d]"
    by (simp add: be32_def)
  then have len: "from_be32 a b c d = of_nat (length (fr_payload f))"
    by (metis be32_from_be32 be32_inject)
  have data: "rs_data s = [fr_version f, MsgType_as_u8 (fr_msg_type f), a, b, c, d] @ (fr_payload f @ r)"
    using assms(3) abcd by (simp add: Frame_encode_def Let_def)
  have big: "MAX_PAYLOAD_SIZE < from_be32 a b c d"
    using assms(1,2) of_nat32_eq [OF assms(2), of "from_be32 a b c d"]
    by (simp add: len MAX_PAYLOAD_SIZE_def word_less_nat_alt)
  show ?thesis
    using big by (simp add: read_frame_header [OF data] Let_def) (simp add: len MAX_PAYLOAD_SIZE_def)
qed

theorem oversized_frame_refused_witness:
  "fst (read_frame \<lparr>rs_data = Frame_encode (Frame_new Ping (replicate 1048577 0)), rs_error = None\<rparr>) =
     Err (PayloadTooLarge 1048577 1048576)"
  using oversized_frame_refused [of "Frame_new Ping (replicate 1048577 0)"
      "\<lparr>rs_data = Frame_encode (Frame_new Ping (replicate 1048577 0)), rs_error = None\<rparr>" "[]"]
  by (simp add: Frame_new_def)

end
