(* ===== verification/Sanitize.thy ===== *)
theory Sanitize
  imports Model
begin

text \<open>
  Sanitising of records before they are stored (\<^verbatim>\<open>src/src/sanitize.rs\<close>): control and format
  characters are removed from every text field but the signature, and the sizes of the
  body and of each \<^verbatim>\<open>key:value\<close> tag are bounded. The main facts: what comes out is clean,
  sanitising again changes nothing, and a record is rejected exactly when a bound fails on
  its sanitised text.
\<close>

section \<open>Strings\<close>

definition SANITIZE_MAX_RECORD_SIZE :: nat where "SANITIZE_MAX_RECORD_SIZE = 1048576"
definition MAX_KEY_SIZE :: nat where "MAX_KEY_SIZE = 256"
definition MAX_VALUE_SIZE :: nat where "MAX_VALUE_SIZE = 65536"

definition is_format_char :: "uchar \<Rightarrow> bool" where
  "is_format_char c \<longleftrightarrow>
     c = 0x00AD
   \<or> (0x0600 \<le> c \<and> c \<le> 0x0605)
   \<or> c = 0x061C
   \<or> c = 0x06DD
   \<or> c = 0x070F
   \<or> (0x0890 \<le> c \<and> c \<le> 0x0891)
   \<or> c = 0x08E2
   \<or> c = 0x180E
   \<or> (0x200B \<le> c \<and> c \<le> 0x200F)
   \<or> (0x2028 \<le> c \<and> c \<le> 0x202E)
   \<or> (0x2060 \<le> c \<and> c \<le> 0x2064)
   \<or> (0x2066 \<le> c \<and> c \<le> 0x206F)
   \<or> c = 0xFEFF
   \<or> (0xFFF9 \<le> c \<and> c \<le> 0xFFFB)
   \<or> (0x13430 \<le> c \<and> c \<le> 0x1343F)"

text \<open>The loop of \<^verbatim>\<open>sanitize_string\<close>: \<open>result\<close> is what has been pushed.\<close>

fun sanitize_chars :: "ustr \<Rightarrow> ustr \<Rightarrow> ustr" where
  "sanitize_chars result [] = result"
| "sanitize_chars result (ch # chs) =
     (if ch = 10 then sanitize_chars (result @ [ch]) chs
      else if is_control ch then sanitize_chars result chs
      else if is_format_char ch then sanitize_chars result chs
      else sanitize_chars (result @ [ch]) chs)"

definition sanitize_string :: "ustr \<Rightarrow> (ustr, ustr) result" where
  "sanitize_string input = Ok (sanitize_chars [] input)"

definition validate_body_size :: "ustr \<Rightarrow> (unit, ustr) result" where
  "validate_body_size body =
     (if SANITIZE_MAX_RECORD_SIZE < str_len body
      then Err (lit ''record body exceeds 1 MB limit ('' @ to_dec (str_len body) @ lit '' bytes)'')
      else Ok ())"

definition validate_key_size :: "ustr \<Rightarrow> (unit, ustr) result" where
  "validate_key_size key =
     (if MAX_KEY_SIZE < str_len key
      then Err (lit ''tag key exceeds 256 byte limit ('' @ to_dec (str_len key) @ lit '' bytes)'')
      else Ok ())"

definition validate_value_size :: "ustr \<Rightarrow> (unit, ustr) result" where
  "validate_value_size v =
     (if MAX_VALUE_SIZE < str_len v
      then Err (lit ''tag value exceeds 64 KB limit ('' @ to_dec (str_len v) @ lit '' bytes)'')
      else Ok ())"

section \<open>Records\<close>

text \<open>The tag loop; 58 is the colon.\<close>

fun sanitize_tags :: "ustr list \<Rightarrow> (ustr list, ustr) result" where
  "sanitize_tags [] = Ok []"
| "sanitize_tags (tag # tags) =
     rbind (sanitize_string tag) (\<lambda>t.
     rbind (case split_once 58 t of
         Some (key, v) \<Rightarrow> rbind (validate_key_size key) (\<lambda>_. validate_value_size v)
       | None \<Rightarrow> Ok ()) (\<lambda>_.
     rbind (sanitize_tags tags) (\<lambda>ts. Ok (t # ts))))"

definition sanitize_record :: "ContentRecord \<Rightarrow> (ContentRecord, ustr) result" where
  "sanitize_record record =
     rbind (sanitize_string (cr_body record)) (\<lambda>body.
     rbind (validate_body_size body) (\<lambda>_.
     rbind (sanitize_string (cr_source_url record)) (\<lambda>source_url.
     rbind (sanitize_string (cr_schema record)) (\<lambda>schema.
     rbind (sanitize_tags (cr_tags record)) (\<lambda>tags.
     rbind (sanitize_string (cr_id record)) (\<lambda>id'.
     rbind (sanitize_string (cr_source_hash record)) (\<lambda>source_hash.
       Ok \<lparr>cr_id = id', cr_source_url = source_url, cr_source_hash = source_hash,
           cr_schema = schema, cr_tags = tags, cr_body = body,
           cr_created_at = cr_created_at record, cr_expires_at = cr_expires_at record,
           cr_scrape_source = cr_scrape_source record,
           cr_refresh_policy = cr_refresh_policy record, cr_sig = cr_sig record\<rparr>)))))))"

section \<open>What is kept\<close>

text \<open>The characters a stored text may have.\<close>

definition allowed_char :: "uchar \<Rightarrow> bool" where
  "allowed_char c \<longleftrightarrow> c = 10 \<or> \<not> is_control c \<and> \<not> is_format_char c"

definition clean :: "ustr \<Rightarrow> bool" where
  "clean s \<longleftrightarrow> list_all allowed_char s"

definition tag_ok :: "ustr \<Rightarrow> bool" where
  "tag_ok t \<longleftrightarrow> (case split_once 58 t of None \<Rightarrow> True
     | Some (k, v) \<Rightarrow> str_len k \<le> 256 \<and> str_len v \<le> 65536)"

definition clean_record :: "ContentRecord \<Rightarrow> bool" where
  "clean_record r \<longleftrightarrow> clean (cr_body r) \<and> str_len (cr_body r) \<le> 1048576 \<and>
     clean (cr_source_url r) \<and> clean (cr_schema r) \<and>
     list_all (\<lambda>t. clean t \<and> tag_ok t) (cr_tags r) \<and>
     clean (cr_id r) \<and> clean (cr_source_hash r)"

text \<open>A record with every text field filtered, before any bound is looked at.\<close>

definition strip_record :: "ContentRecord \<Rightarrow> ContentRecord" where
  "strip_record r = r\<lparr>cr_id := filter allowed_char (cr_id r),
     cr_source_url := filter allowed_char (cr_source_url r),
     cr_source_hash := filter allowed_char (cr_source_hash r),
     cr_schema := filter allowed_char (cr_schema r),
     cr_tags := map (filter allowed_char) (cr_tags r),
     cr_body := filter allowed_char (cr_body r)\<rparr>"

lemma sanitize_chars_filter: "sanitize_chars acc s = acc @ filter allowed_char s"
  by (induction acc s rule: sanitize_chars.induct) (auto simp: allowed_char_def)

lemma sanitize_string_Ok [simp]: "sanitize_string s = Ok (filter allowed_char s)"
  by (simp add: sanitize_string_def sanitize_chars_filter)

lemma clean_filter [simp]: "clean (filter allowed_char s)"
  by (simp add: clean_def list_all_iff)

lemma filter_clean [simp]: "clean s \<Longrightarrow> filter allowed_char s = s"
  by (auto simp: clean_def list_all_iff filter_id_conv)

lemma size_checks_Ok [simp]:
  "validate_body_size s = Ok u \<longleftrightarrow> str_len s \<le> 1048576"
  "validate_key_size s = Ok u \<longleftrightarrow> str_len s \<le> 256"
  "validate_value_size s = Ok u \<longleftrightarrow> str_len s \<le> 65536"
  by (simp_all add: validate_body_size_def validate_key_size_def validate_value_size_def
      SANITIZE_MAX_RECORD_SIZE_def MAX_KEY_SIZE_def MAX_VALUE_SIZE_def not_less)

lemma sanitize_tags_Ok_iff:
  "sanitize_tags ts = Ok ts' \<longleftrightarrow>
     ts' = map (filter allowed_char) ts \<and> list_all tag_ok (map (filter allowed_char) ts)"
proof (induction ts arbitrary: ts')
  case (Cons t ts)
  have "(case split_once 58 u of Some (k, v) \<Rightarrow> rbind (validate_key_size k) (\<lambda>_. validate_value_size v)
      | None \<Rightarrow> Ok ()) = Ok w \<longleftrightarrow> tag_ok u" for u :: ustr and w
    by (auto simp: tag_ok_def res_simps split: option.split)
  with Cons show ?case by (auto simp: res_simps)
qed auto

lemma sanitize_record_Ok_iff:
  "sanitize_record r = Ok r' \<longleftrightarrow> r' = strip_record r \<and> clean_record (strip_record r)"
  by (auto simp: sanitize_record_def res_simps sanitize_tags_Ok_iff strip_record_def
      clean_record_def list_all_iff)

lemma strip_clean [simp]: "clean_record r \<Longrightarrow> strip_record r = r"
  by (auto simp: strip_record_def clean_record_def list_all_iff map_idI)

text \<open>C8: A record that passes sanitising has no control or format character but the newline
  in any of its texts, a body of at most 1 MB, tag keys of at most 256 bytes and tag values
  of at most 64 KB; its times, enumerations and signature are those of the input; and
  sanitising it again returns it unchanged, so a stored record can be replicated through
  the same pipeline without further change.\<close>

theorem sanitize_record_clean:
  assumes "sanitize_record r = Ok r'"
  shows "clean_record r' \<and> sanitize_record r' = Ok r' \<and>
    cr_created_at r' = cr_created_at r \<and> cr_expires_at r' = cr_expires_at r \<and>
    cr_scrape_source r' = cr_scrape_source r \<and> cr_refresh_policy r' = cr_refresh_policy r \<and>
    cr_sig r' = cr_sig r"
  using assms by (simp add: sanitize_record_Ok_iff) (simp add: strip_record_def)

definition sample_dirty :: ContentRecord where
  "sample_dirty = \<lparr>cr_id = lit ''r1'', cr_source_url = lit ''https://a.b'', cr_source_hash = lit ''h1'',
     cr_schema = lit ''generic/kv'', cr_tags = [lit ''lang:'' @ [0x200B] @ lit ''en''],
     cr_body = lit ''x'' @ [0, 10, 0x202E] @ lit ''y'', cr_created_at = 1, cr_expires_at = 2,
     cr_scrape_source = Url, cr_refresh_policy = Once, cr_sig = []\<rparr>"

lemma sanitize_sample:
  "sanitize_record sample_dirty =
     Ok (sample_dirty\<lparr>cr_tags := [lit ''lang:en''], cr_body := lit ''x'' @ [10] @ lit ''y''\<rparr>)"
  by (simp add: sanitize_record_Ok_iff strip_record_def sample_dirty_def lit_def allowed_char_def
      is_control_def is_format_char_def clean_record_def clean_def tag_ok_def utf8_len_def)

theorem sanitize_record_clean_witness:
  "clean_record (sample_dirty\<lparr>cr_tags := [lit ''lang:en''], cr_body := lit ''x'' @ [10] @ lit ''y''\<rparr>)"
  using sanitize_record_clean [OF sanitize_sample] by simp

text \<open>The table of format characters is not the whole of the Unicode category Cf: a text
  written in tag characters (U+E0020 to U+E007F, Cf, invisible) goes through unchanged,
  though the module promises that no Cf character does.\<close>

theorem tag_characters_survive:
  "sanitize_string (map (\<lambda>c. 0xE0000 + c) s) = Ok (map (\<lambda>c. 0xE0000 + c) s)"
  by (induction s) (auto simp: allowed_char_def is_control_def is_format_char_def)

end
