(* ===== verification/Redb.thy ===== *)
theory Redb
  imports Model
begin

text \<open>
  The embedded database (the \<^verbatim>\<open>redb\<close> crate) as the code under \<^verbatim>\<open>src/src/storage\<close> uses it. The
  crate is not part of the program: it is a record of the operations called, each of which
  may fail, and \<open>redb_laws\<close> states what its documentation promises about the ones that
  succeed (a transaction sees the committed contents and its own writes, a table iterates
  in key order, a commit publishes the transaction, nothing else changes the database).
  \<open>mem_db\<close> is an instance: tables as association lists, and no operation fails.
\<close>

section \<open>Tables and contents\<close>

datatype db_table = RECORDS_TABLE | ANNOUNCEMENTS_TABLE | SOURCE_INDEX_TABLE | PINS_TABLE
  | ROUTING_TABLE | PEERS_TABLE | BANNED_PEERS_TABLE | META_TABLE | INVERTED_INDEX_TABLE

text \<open>Every table maps strings to strings but \<^verbatim>\<open>meta\<close>, whose values are \<^verbatim>\<open>u64\<close>.\<close>

record contents =
  c_tab :: "db_table \<Rightarrow> ustr \<rightharpoonup> ustr"
  c_meta :: "ustr \<rightharpoonup> u64"

definition put :: "db_table \<Rightarrow> ustr \<Rightarrow> ustr \<Rightarrow> contents \<Rightarrow> contents" where
  "put n k v c = c\<lparr>c_tab := (c_tab c)(n := (c_tab c n)(k \<mapsto> v))\<rparr>"

definition del :: "db_table \<Rightarrow> ustr \<Rightarrow> contents \<Rightarrow> contents" where
  "del n k c = c\<lparr>c_tab := (c_tab c)(n := (c_tab c n)(k := None))\<rparr>"

lemma c_tab_put [simp]:
  "c_tab (put n k v c) m = (if m = n then (c_tab c n)(k \<mapsto> v) else c_tab c m)"
  by (simp add: put_def)

lemma c_tab_del [simp]:
  "c_tab (del n k c) m = (if m = n then (c_tab c n)(k := None) else c_tab c m)"
  by (simp add: del_def)

lemma c_meta_put [simp]: "c_meta (put n k v c) = c_meta c" "c_meta (del n k c) = c_meta c"
  by (simp_all add: put_def del_def)

text \<open>A listing of a table: its entries in key order.\<close>

definition listing :: "(ustr \<rightharpoonup> ustr) \<Rightarrow> (ustr \<times> ustr) list \<Rightarrow> bool" where
  "listing m kvs \<longleftrightarrow> sorted_wrt (<) (map fst kvs) \<and> map_of kvs = m"

lemma listing_distinct: "listing m kvs \<Longrightarrow> distinct (map fst kvs)"
  by (simp add: listing_def strict_sorted_iff)

lemma listing_mem: "listing m kvs \<Longrightarrow> (k, v) \<in> set kvs \<longleftrightarrow> m k = Some v"
  by (metis listing_def listing_distinct map_of_eq_Some_iff)

lemma listing_dom: "listing m kvs \<Longrightarrow> fst ` set kvs = dom m"
  by (metis listing_def dom_map_of_conv_image_fst)

lemma listing_finite: "listing m kvs \<Longrightarrow> finite (dom m)"
  by (metis List.finite_set finite_imageI listing_dom)

lemma listing_eq:
  assumes "listing m kvs"
  shows "kvs = map (\<lambda>k. (k, the (m k))) (sorted_list_of_set (dom m))"
proof -
  have "sorted (map fst kvs)" "distinct (map fst kvs)"
    using assms by (simp_all add: listing_def strict_sorted_iff)
  then have keys: "map fst kvs = sorted_list_of_set (dom m)"
    by (metis listing_dom [OF assms] list.set_map sorted_list_of_set.idem_if_sorted_distinct)
  have "(k, v) \<in> set kvs \<Longrightarrow> v = the (m k)" for k v
    using listing_mem [OF assms] by simp
  then have "kvs = map (\<lambda>k. (k, the (m k))) (map fst kvs)"
    by (induction kvs) auto
  then show ?thesis unfolding keys .
qed

lemma listing_unique: "listing m kvs \<Longrightarrow> listing m kvs' \<Longrightarrow> kvs = kvs'"
  by (metis listing_eq)

lemma listing_exists:
  assumes "finite (dom m)"
  shows "listing m (map (\<lambda>k. (k, the (m k))) (sorted_list_of_set (dom m)))"
proof -
  let ?ks = "sorted_list_of_set (dom m)"
  have keys: "map fst (map (\<lambda>k. (k, the (m k))) ?ks) = ?ks"
    by (simp add: map_idI)
  have "map_of (map (\<lambda>k. (k, the (m k))) ?ks) k = m k" for k
    using assms by (cases "m k") (auto simp: map_of_map_restrict restrict_map_def domIff)
  then show ?thesis
    unfolding listing_def keys by auto
qed

text \<open>The number of bytes of a table's values.\<close>

definition table_bytes :: "(ustr \<rightharpoonup> ustr) \<Rightarrow> nat" where
  "table_bytes m = (\<Sum>k \<in> dom m. str_len (the (m k)))"

lemma table_bytes_listing:
  assumes "listing m kvs"
  shows "table_bytes m = sum_list (map (str_len \<circ> snd) kvs)"
proof -
  have "sum_list (map (str_len \<circ> snd) kvs) =
      sum_list (map (\<lambda>k. str_len (the (m k))) (sorted_list_of_set (dom m)))"
    by (subst listing_eq [OF assms]) (simp add: comp_def)
  also have "\<dots> = table_bytes m"
    using listing_finite [OF assms]
    by (simp add: table_bytes_def sum_list_distinct_conv_sum_set)
  finally show ?thesis by simp
qed

lemma table_bytes_upd:
  assumes "finite (dom m)"
  shows "table_bytes (m(k \<mapsto> v)) = table_bytes (m(k := None)) + str_len v"
proof -
  have "table_bytes (m(k \<mapsto> v)) = str_len v + (\<Sum>x \<in> dom m - {k}. str_len (the ((m(k \<mapsto> v)) x)))"
    using assms by (simp add: table_bytes_def sum.insert_remove [of "dom m"])
  also have "(\<Sum>x \<in> dom m - {k}. str_len (the ((m(k \<mapsto> v)) x))) = table_bytes (m(k := None))"
    unfolding table_bytes_def by (rule sum.cong) auto
  finally show ?thesis by (simp only: add.commute)
qed

lemma table_bytes_remove:
  assumes "finite (dom m)" and "m k = Some v"
  shows "table_bytes m = table_bytes (m(k := None)) + str_len v"
  using table_bytes_upd [OF assms(1), of k v] assms(2) by (simp add: map_upd_triv)

lemma table_bytes_del_le:
  assumes "finite (dom m)"
  shows "table_bytes (m(k := None)) \<le> table_bytes m"
  using table_bytes_remove [OF assms] by (cases "m k") (auto simp: fun_upd_idem)

section \<open>Operations and their laws\<close>

record ('d, 't) redb =
  begin_read :: "'d \<Rightarrow> ('t, ustr) result"
  begin_write :: "'d \<Rightarrow> ('t, ustr) result"
  open_read :: "'t \<Rightarrow> db_table \<Rightarrow> (unit, ustr) result"
  open_write :: "'t \<Rightarrow> db_table \<Rightarrow> ('t, ustr) result"
  t_get :: "'t \<Rightarrow> db_table \<Rightarrow> ustr \<Rightarrow> (ustr option, ustr) result"
  t_insert :: "'t \<Rightarrow> db_table \<Rightarrow> ustr \<Rightarrow> ustr \<Rightarrow> ('t, ustr) result"
  t_remove :: "'t \<Rightarrow> db_table \<Rightarrow> ustr \<Rightarrow> (ustr option \<times> 't, ustr) result"
  t_iter :: "'t \<Rightarrow> db_table \<Rightarrow> ((ustr \<times> ustr, ustr) result list, ustr) result"
  t_len :: "'t \<Rightarrow> db_table \<Rightarrow> (u64, ustr) result"
  meta_get :: "'t \<Rightarrow> ustr \<Rightarrow> (u64 option, ustr) result"
  meta_insert :: "'t \<Rightarrow> ustr \<Rightarrow> u64 \<Rightarrow> ('t, ustr) result"
  commit :: "'d \<Rightarrow> 't \<Rightarrow> ('d, ustr) result"

text \<open>An entry met while iterating is the table's entry or an error.\<close>

definition entry_of :: "(ustr \<times> ustr, ustr) result \<Rightarrow> ustr \<times> ustr \<Rightarrow> bool" where
  "entry_of e kv \<longleftrightarrow> e = Ok kv \<or> (\<exists>m. e = Err m)"

definition redb_laws :: "('d, 't) redb \<Rightarrow> ('d \<Rightarrow> contents) \<Rightarrow> ('t \<Rightarrow> contents) \<Rightarrow> bool" where
  "redb_laws R vd vt \<longleftrightarrow>
     (\<forall>d t. begin_read R d = Ok t \<longrightarrow> vt t = vd d) \<and>
     (\<forall>d t. begin_write R d = Ok t \<longrightarrow> vt t = vd d) \<and>
     (\<forall>t n t'. open_write R t n = Ok t' \<longrightarrow> vt t' = vt t) \<and>
     (\<forall>t n k v. t_get R t n k = Ok v \<longrightarrow> v = c_tab (vt t) n k) \<and>
     (\<forall>t n k v t'. t_insert R t n k v = Ok t' \<longrightarrow> vt t' = put n k v (vt t)) \<and>
     (\<forall>t n k v t'. t_remove R t n k = Ok (v, t') \<longrightarrow> v = c_tab (vt t) n k \<and> vt t' = del n k (vt t)) \<and>
     (\<forall>t n es. t_iter R t n = Ok es \<longrightarrow> (\<exists>kvs. listing (c_tab (vt t) n) kvs \<and> list_all2 entry_of es kvs)) \<and>
     (\<forall>t n m. t_len R t n = Ok m \<longrightarrow> m = of_nat (card (dom (c_tab (vt t) n)))) \<and>
     (\<forall>t k v. meta_get R t k = Ok v \<longrightarrow> v = c_meta (vt t) k) \<and>
     (\<forall>t k v t'. meta_insert R t k v = Ok t' \<longrightarrow> vt t' = (vt t)\<lparr>c_meta := (c_meta (vt t))(k \<mapsto> v)\<rparr>) \<and>
     (\<forall>d t d'. commit R d t = Ok d' \<longrightarrow> vd d' = vt t) \<and>
     (\<forall>d n. finite (dom (c_tab (vd d) n)))"

text \<open>The operations return errors; they do not panic.\<close>

definition redb_quiet :: "('d, 't) redb \<Rightarrow> bool" where
  "redb_quiet R \<longleftrightarrow>
     (\<forall>d. begin_read R d \<noteq> Panic) \<and> (\<forall>d. begin_write R d \<noteq> Panic) \<and>
     (\<forall>t n. open_read R t n \<noteq> Panic) \<and> (\<forall>t n. open_write R t n \<noteq> Panic) \<and>
     (\<forall>t n k. t_get R t n k \<noteq> Panic) \<and> (\<forall>t n k v. t_insert R t n k v \<noteq> Panic) \<and>
     (\<forall>t n k. t_remove R t n k \<noteq> Panic) \<and> (\<forall>t n. t_iter R t n \<noteq> Panic) \<and>
     (\<forall>t n. t_len R t n \<noteq> Panic) \<and> (\<forall>t k. meta_get R t k \<noteq> Panic) \<and>
     (\<forall>t k v. meta_insert R t k v \<noteq> Panic) \<and> (\<forall>d t. commit R d t \<noteq> Panic)"

text \<open>No operation fails.\<close>

definition redb_reliable :: "('d, 't) redb \<Rightarrow> bool" where
  "redb_reliable R \<longleftrightarrow>
     (\<forall>d. is_ok (begin_read R d)) \<and> (\<forall>d. is_ok (begin_write R d)) \<and>
     (\<forall>t n. is_ok (open_read R t n)) \<and> (\<forall>t n. is_ok (open_write R t n)) \<and>
     (\<forall>t n k. is_ok (t_get R t n k)) \<and> (\<forall>t n k v. is_ok (t_insert R t n k v)) \<and>
     (\<forall>t n k. is_ok (t_remove R t n k)) \<and>
     (\<forall>t n. \<exists>kvs. t_iter R t n = Ok (map Ok kvs)) \<and>
     (\<forall>t n. is_ok (t_len R t n)) \<and> (\<forall>t k. is_ok (meta_get R t k)) \<and>
     (\<forall>t k v. is_ok (meta_insert R t k v)) \<and> (\<forall>d t. is_ok (commit R d t))"


lemma redb_begin:
  assumes "redb_laws R vd vt"
  shows "begin_read R d = Ok t \<Longrightarrow> vt t = vd d" "begin_write R d = Ok t \<Longrightarrow> vt t = vd d"
    "commit R d t = Ok d' \<Longrightarrow> vd d' = vt t"
  using assms by (auto simp: redb_laws_def)

lemma redb_tx:
  assumes "redb_laws R vd vt"
  shows "open_write R t n = Ok t' \<Longrightarrow> vt t' = vt t"
    "t_get R t n k = Ok v \<Longrightarrow> v = c_tab (vt t) n k"
    "t_insert R t n k v' = Ok t' \<Longrightarrow> vt t' = put n k v' (vt t)"
    "t_remove R t n k = Ok (v, t') \<Longrightarrow> v = c_tab (vt t) n k \<and> vt t' = del n k (vt t)"
    "t_iter R t n = Ok es \<Longrightarrow> \<exists>kvs. listing (c_tab (vt t) n) kvs \<and> list_all2 entry_of es kvs"
    "t_len R t n = Ok m \<Longrightarrow> m = of_nat (card (dom (c_tab (vt t) n)))"
    "meta_get R t k = Ok w \<Longrightarrow> w = c_meta (vt t) k"
    "meta_insert R t k x = Ok t' \<Longrightarrow> vt t' = (vt t)\<lparr>c_meta := (c_meta (vt t))(k \<mapsto> x)\<rparr>"
  using assms by (simp_all add: redb_laws_def) blast?

lemma redb_finite: "redb_laws R vd vt \<Longrightarrow> finite (dom (c_tab (vd d) n))"
  by (simp add: redb_laws_def)

lemmas redb_steps = redb_begin redb_tx

text \<open>When no operation fails, each returns a value, and what the laws say of it holds.\<close>

lemma reliable_ok:
  assumes "redb_laws R vd vt" "redb_reliable R"
  shows "\<exists>t. begin_read R d = Ok t \<and> vt t = vd d" "\<exists>t. begin_write R d = Ok t \<and> vt t = vd d"
    "\<exists>d'. commit R d t = Ok d' \<and> vd d' = vt t"
    "open_read R t n = Ok ()"
    "\<exists>t'. open_write R t n = Ok t' \<and> vt t' = vt t"
    "t_get R t n k = Ok (c_tab (vt t) n k)"
    "\<exists>t'. t_insert R t n k v = Ok t' \<and> vt t' = put n k v (vt t)"
    "\<exists>t'. t_remove R t n k = Ok (c_tab (vt t) n k, t') \<and> vt t' = del n k (vt t)"
    "\<exists>kvs. t_iter R t n = Ok (map Ok kvs) \<and> listing (c_tab (vt t) n) kvs"
proof -
  note r = assms(2) [unfolded redb_reliable_def is_ok_iff]
  note s = redb_steps [OF assms(1)]
  show "\<exists>t. begin_read R d = Ok t \<and> vt t = vd d" "\<exists>t. begin_write R d = Ok t \<and> vt t = vd d"
    "\<exists>d'. commit R d t = Ok d' \<and> vd d' = vt t" "open_read R t n = Ok ()"
    "\<exists>t'. open_write R t n = Ok t' \<and> vt t' = vt t"
    "t_get R t n k = Ok (c_tab (vt t) n k)"
    "\<exists>t'. t_insert R t n k v = Ok t' \<and> vt t' = put n k v (vt t)"
    using r s by (metis old.unit.exhaust)+
  show "\<exists>t'. t_remove R t n k = Ok (c_tab (vt t) n k, t') \<and> vt t' = del n k (vt t)"
    using r s by (metis surj_pair)
  obtain kvs where kvs: "t_iter R t n = Ok (map Ok kvs)"
    using assms(2) unfolding redb_reliable_def by metis
  then obtain kvs' where l: "listing (c_tab (vt t) n) kvs'" and e: "list_all2 entry_of (map Ok kvs) kvs'"
    using redb_tx(5) [OF assms(1)] by metis
  from e have "kvs = kvs'"
    by (induction kvs arbitrary: kvs') (auto simp: list_all2_Cons1 entry_of_def)
  with kvs l show "\<exists>kvs. t_iter R t n = Ok (map Ok kvs) \<and> listing (c_tab (vt t) n) kvs" by blast
qed

text \<open>An operation that publishes its changes with a final commit leaves the database as it
  was when it does not get there.\<close>

definition settle :: "'d \<Rightarrow> ('a \<times> 'd, 'e) result \<Rightarrow> ('a, 'e) result \<times> 'd" where
  "settle d m = (case m of Ok (a, d') \<Rightarrow> (Ok a, d') | Err e \<Rightarrow> (Err e, d) | Panic \<Rightarrow> (Panic, d))"

lemma settle_Ok_iff [simp]: "settle d m = (Ok a, d') \<longleftrightarrow> m = Ok (a, d')"
  by (auto simp: settle_def split: result.splits)

lemma settle_Err_iff [simp]: "settle d m = (Err e, d') \<longleftrightarrow> m = Err e \<and> d' = d"
  by (auto simp: settle_def split: result.splits)

lemma settle_Panic_iff [simp]: "settle d m = (Panic, d') \<longleftrightarrow> m = Panic \<and> d' = d"
  by (auto simp: settle_def split: result.splits)

lemma settle_snd: "snd (settle d m) = (case m of Ok (a, d') \<Rightarrow> d' | _ \<Rightarrow> d)"
  by (auto simp: settle_def split: result.splits)

definition settled :: "'d \<Rightarrow> ('a, 'e) result \<times> 'd \<Rightarrow> bool" where
  "settled d p \<longleftrightarrow> (is_ok (fst p) \<or> snd p = d)"

lemma settled_settle [simp]: "settled d (settle d m)"
  by (cases m) (auto simp: settled_def settle_def)

lemma settled_keeps:
  assumes "settled d p" "P d" "\<And>a d'. p = (Ok a, d') \<Longrightarrow> P d'"
  shows "P (snd p)"
  using assms by (cases p; cases "fst p") (auto simp: settled_def)

section \<open>An instance\<close>

text \<open>Tables as association lists, newest entry first; iteration sorts the keys.\<close>

record mem_db =
  m_tab :: "db_table \<Rightarrow> (ustr \<times> ustr) list"
  m_meta :: "(ustr \<times> u64) list"

definition mem_entries :: "(ustr \<times> ustr) list \<Rightarrow> (ustr \<times> ustr) list" where
  "mem_entries l = map (\<lambda>k. (k, the (map_of l k))) (sorted_list_of_set (set (map fst l)))"

definition mem_redb :: "(mem_db, mem_db) redb" where
  "mem_redb = \<lparr>
     begin_read = Ok, begin_write = Ok, open_read = (\<lambda>t n. Ok ()), open_write = (\<lambda>t n. Ok t),
     t_get = (\<lambda>t n k. Ok (map_of (m_tab t n) k)),
     t_insert = (\<lambda>t n k v. Ok (t\<lparr>m_tab := (m_tab t)(n := (k, v) # m_tab t n)\<rparr>)),
     t_remove = (\<lambda>t n k. Ok (map_of (m_tab t n) k,
        t\<lparr>m_tab := (m_tab t)(n := filter (\<lambda>p. fst p \<noteq> k) (m_tab t n))\<rparr>)),
     t_iter = (\<lambda>t n. Ok (map Ok (mem_entries (m_tab t n)))),
     t_len = (\<lambda>t n. Ok (of_nat (card (set (map fst (m_tab t n)))))),
     meta_get = (\<lambda>t k. Ok (map_of (m_meta t) k)),
     meta_insert = (\<lambda>t k v. Ok (t\<lparr>m_meta := (k, v) # m_meta t\<rparr>)),
     commit = (\<lambda>d t. Ok t)\<rparr>"

lemma mem_redb_simps [simp]:
  "begin_read mem_redb d = Ok d" "begin_write mem_redb d = Ok d"
  "open_read mem_redb t n = Ok ()" "open_write mem_redb t n = Ok t"
  "t_get mem_redb t n k = Ok (map_of (m_tab t n) k)"
  "t_insert mem_redb t n k v = Ok (t\<lparr>m_tab := (m_tab t)(n := (k, v) # m_tab t n)\<rparr>)"
  "t_remove mem_redb t n k = Ok (map_of (m_tab t n) k,
     t\<lparr>m_tab := (m_tab t)(n := filter (\<lambda>p. fst p \<noteq> k) (m_tab t n))\<rparr>)"
  "t_iter mem_redb t n = Ok (map Ok (mem_entries (m_tab t n)))"
  "meta_get mem_redb t k = Ok (map_of (m_meta t) k)"
  "meta_insert mem_redb t k w = Ok (t\<lparr>m_meta := (k, w) # m_meta t\<rparr>)"
  "commit mem_redb d t = Ok t"
  by (simp_all add: mem_redb_def)

definition mem_view :: "mem_db \<Rightarrow> contents" where
  "mem_view d = \<lparr>c_tab = (\<lambda>n. map_of (m_tab d n)), c_meta = map_of (m_meta d)\<rparr>"

lemma map_of_filter_key: "map_of (filter (\<lambda>p. fst p \<noteq> k) l) = (map_of l)(k := None)"
  by (induction l) auto

lemma listing_mem_entries: "listing (map_of l) (mem_entries l)"
  using listing_exists [of "map_of l"]
  by (simp add: mem_entries_def dom_map_of_conv_image_fst finite_dom_map_of)

lemma mem_redb_laws: "redb_laws mem_redb mem_view mem_view"
proof -
  have "\<exists>kvs. listing (map_of l) kvs \<and> list_all2 entry_of (map Ok (mem_entries l)) kvs" for l
    using listing_mem_entries [of l]
    by (intro exI [of _ "mem_entries l"]) (auto simp: entry_of_def list_all2_conv_all_nth)
  then show ?thesis
    by (auto simp: redb_laws_def mem_redb_def mem_view_def put_def del_def map_of_filter_key
        dom_map_of_conv_image_fst finite_dom_map_of fun_eq_iff)
qed

lemma mem_redb_reliable: "redb_reliable mem_redb"
  by (auto simp: redb_reliable_def mem_redb_def)

lemma mem_redb_quiet: "redb_quiet mem_redb"
  by (auto simp: redb_quiet_def mem_redb_def)

definition mem_empty :: mem_db where
  "mem_empty = \<lparr>m_tab = (\<lambda>n. []), m_meta = []\<rparr>"

end
