(* ===== verification/Migrations.thy ===== *)
theory Migrations
  imports Redb
begin

text \<open>
  \<^verbatim>\<open>src/src/storage/migrations.rs\<close> and the opening of the database in
  \<^verbatim>\<open>src/src/storage/mod.rs\<close>: the schema version kept in the \<^verbatim>\<open>meta\<close> table, the check against
  the version the program knows, and the creation of the tables. The database file is a
  parameter (\<open>redb\<close>); that of the file system, which only decides whether there is one, is
  left out.
\<close>

section \<open>The schema version\<close>

definition CURRENT_SCHEMA_VERSION :: u64 where "CURRENT_SCHEMA_VERSION = 1"
definition SCHEMA_VERSION_KEY :: ustr where "SCHEMA_VERSION_KEY = lit ''schema_version''"

text \<open>A meta table that does not open counts as a fresh database.\<close>

definition read_version :: "string \<Rightarrow> ('d, 't) redb \<Rightarrow> 'd \<Rightarrow> (u64, ustr) result" where
  "read_version ctx R d =
     rbind (with_ctx ctx (begin_read R d)) (\<lambda>t.
       case open_read R t META_TABLE of
         Ok _ \<Rightarrow> rbind (with_ctx ''read schema_version'' (meta_get R t SCHEMA_VERSION_KEY))
           (\<lambda>v. Ok (case v of Some v \<Rightarrow> v | None \<Rightarrow> 0))
       | Err _ \<Rightarrow> Ok 0
       | Panic \<Rightarrow> Panic)"

definition get_schema_version :: "('d, 't) redb \<Rightarrow> 'd \<Rightarrow> (u64, ustr) result" where
  "get_schema_version R d = read_version ''read tx'' R d"

record Migrator =
  mg_from :: u64

definition Migrator_new :: "u64 \<Rightarrow> Migrator" where
  "Migrator_new from = \<lparr>mg_from = from\<rparr>"

text \<open>There is no migration yet: the transaction is handed back as it is.\<close>

definition Migrator_run :: "Migrator \<Rightarrow> 'd \<Rightarrow> 't \<Rightarrow> ('t, ustr) result" where
  "Migrator_run m d t = Ok t"

definition future_message :: "u64 \<Rightarrow> ustr" where
  "future_message version = lit ''store.redb schema_version '' @ to_dec (unat version) @
     lit '' is from a future version (current: '' @ to_dec (unat CURRENT_SCHEMA_VERSION) @
     lit ''). Downgrading is not supported '' @ [0x2014] @ lit '' your data may be corrupted.''"

definition check_and_migrate :: "('d, 't) redb \<Rightarrow> 'd \<Rightarrow> (unit, ustr) result \<times> 'd" where
  "check_and_migrate R d = settle d (
     rbind (read_version ''migration read tx'' R d) (\<lambda>version.
       if version > CURRENT_SCHEMA_VERSION then Err (future_message version)
       else if version = CURRENT_SCHEMA_VERSION then Ok ((), d)
       else
         rbind (with_ctx ''migration write tx'' (begin_write R d)) (\<lambda>t.
         rbind (Migrator_run (Migrator_new version) d t) (\<lambda>t.
         rbind (with_ctx ''open meta table for migration'' (open_write R t META_TABLE)) (\<lambda>t.
         rbind (with_ctx ''write schema_version'' (meta_insert R t SCHEMA_VERSION_KEY CURRENT_SCHEMA_VERSION)) (\<lambda>t.
         rbind (with_ctx ''migration commit'' (commit R d t)) (\<lambda>d'. Ok ((), d'))))))))"

text \<open>\<^verbatim>\<open>None\<close> stands for a path with no database file, \<^verbatim>\<open>open_store.redb\<close> failing for an error.\<close>

definition check_and_migrate_on_path :: "('d, 't) redb \<Rightarrow> ('d, ustr) result option \<Rightarrow> (u64, ustr) result" where
  "check_and_migrate_on_path R file = (case file of
     None \<Rightarrow> Ok 0
   | Some opened \<Rightarrow> rbind (with_ctx ''open store.redb'' opened) (\<lambda>d.
       case check_and_migrate R d of
         (Ok _, d) \<Rightarrow> get_schema_version R d | (Err e, d) \<Rightarrow> Err e | (Panic, d) \<Rightarrow> Panic))"

section \<open>Opening the store\<close>

fun open_tables :: "('d, 't) redb \<Rightarrow> 't \<Rightarrow> (string \<times> db_table) list \<Rightarrow> ('t, ustr) result" where
  "open_tables R t [] = Ok t"
| "open_tables R t ((ctx, n) # ns) = rbind (with_ctx ctx (open_write R t n)) (\<lambda>t. open_tables R t ns)"

definition all_tables :: "(string \<times> db_table) list" where
  "all_tables = [(''create records table'', RECORDS_TABLE), (''create announcements table'', ANNOUNCEMENTS_TABLE),
     (''create source_index table'', SOURCE_INDEX_TABLE), (''create pins table'', PINS_TABLE),
     (''create routing table'', ROUTING_TABLE), (''create peers table'', PEERS_TABLE),
     (''create banned_peers table'', BANNED_PEERS_TABLE), (''create meta table'', META_TABLE),
     (''create inverted_index table'', INVERTED_INDEX_TABLE)]"

definition open_store :: "('d, 't) redb \<Rightarrow> ('d, ustr) result \<Rightarrow> ('d, ustr) result" where
  "open_store R created =
     rbind (with_ctx ''open store.redb'' created) (\<lambda>d.
     rbind (with_ctx ''init write tx'' (begin_write R d)) (\<lambda>t.
     rbind (open_tables R t all_tables) (\<lambda>t.
     rbind (with_ctx ''init commit'' (commit R d t)) (\<lambda>d.
       case check_and_migrate R d of (Ok _, d) \<Rightarrow> Ok d | (Err e, d) \<Rightarrow> Err e | (Panic, d) \<Rightarrow> Panic))))"

section \<open>What opening promises\<close>

definition version_of :: "contents \<Rightarrow> u64" where
  "version_of c = (case c_meta c SCHEMA_VERSION_KEY of Some v \<Rightarrow> v | None \<Rightarrow> 0)"

definition stamped :: "contents \<Rightarrow> contents" where
  "stamped c = c\<lparr>c_meta := (c_meta c)(SCHEMA_VERSION_KEY \<mapsto> CURRENT_SCHEMA_VERSION)\<rparr>"

lemma stamped_simps [simp]:
  "c_tab (stamped c) = c_tab c" "version_of (stamped c) = CURRENT_SCHEMA_VERSION"
  by (simp_all add: stamped_def version_of_def)

lemma stamped_current: "version_of c = CURRENT_SCHEMA_VERSION \<Longrightarrow> stamped c = c"
  by (auto simp: stamped_def version_of_def CURRENT_SCHEMA_VERSION_def map_upd_triv split: option.splits)

lemma read_version_Ok:
  assumes L: "redb_laws R vd vt" and ok: "read_version ctx R d = Ok v" and "\<And>t. is_ok (open_read R t META_TABLE)"
  shows "v = version_of (vd d)"
proof -
  from ok obtain t where t: "begin_read R d = Ok t" by (auto simp: read_version_def res_simps)
  from assms(3) obtain u where "open_read R t META_TABLE = Ok u" unfolding is_ok_iff by blast
  with ok t obtain w where "meta_get R t SCHEMA_VERSION_KEY = Ok w" "v = (case w of Some v \<Rightarrow> v | None \<Rightarrow> 0)"
    by (auto simp: read_version_def res_simps)
  with redb_begin(1) [OF L t] redb_tx(7) [OF L this(1)] show ?thesis by (simp add: version_of_def)
qed

lemma read_version_reliable:
  assumes L: "redb_laws R vd vt" and rel: "redb_reliable R"
  shows "read_version ctx R d = Ok (version_of (vd d))"
proof -
  from reliable_ok(1) [OF L rel] obtain t where t: "begin_read R d = Ok t" "vt t = vd d" by metis
  from rel obtain w where w: "meta_get R t SCHEMA_VERSION_KEY = Ok w"
    unfolding redb_reliable_def is_ok_iff by metis
  from redb_tx(7) [OF L w] t w show ?thesis
    by (simp add: read_version_def reliable_ok(4) [OF L rel] version_of_def)
qed

lemma check_and_migrate_current:
  assumes L: "redb_laws R vd vt" and rel: "redb_reliable R" and le: "version_of (vd d) \<le> CURRENT_SCHEMA_VERSION"
  shows "\<exists>d'. check_and_migrate R d = (Ok (), d') \<and> vd d' = stamped (vd d)"
proof (cases "version_of (vd d) = CURRENT_SCHEMA_VERSION")
  case True
  then show ?thesis
    by (simp add: check_and_migrate_def read_version_reliable [OF L rel] stamped_current)
next
  case False
  note r = reliable_ok [OF L rel]
  obtain t1 where t1: "begin_write R d = Ok t1" "vt t1 = vd d" using r(2) by metis
  obtain t2 where t2: "open_write R t1 META_TABLE = Ok t2" "vt t2 = vd d" using r(5) t1(2) by metis
  obtain t3 where t3: "meta_insert R t2 SCHEMA_VERSION_KEY CURRENT_SCHEMA_VERSION = Ok t3"
    using rel unfolding redb_reliable_def is_ok_iff by metis
  have v3: "vt t3 = stamped (vd d)" using redb_tx(8) [OF L t3] t2(2) by (simp add: stamped_def)
  obtain d' where d': "commit R d t3 = Ok d'" "vd d' = stamped (vd d)" using r(3) v3 by metis
  from le False have "\<not> CURRENT_SCHEMA_VERSION < version_of (vd d)" by simp
  with False t1 t2 t3 d' show ?thesis
    by (simp add: check_and_migrate_def read_version_reliable [OF L rel] Migrator_run_def)
qed

text \<open>Opening a database checks its version. If the version stored is that of the program or
  older (or there is none) the check succeeds, leaves every table as it was, stamps the
  current version, and a second check then succeeds and changes nothing; a database of a
  later version is refused, untouched, with a message that names its version.\<close>

theorem check_and_migrate_spec:
  assumes "redb_laws R vd vt" and "redb_reliable R"
  shows "if version_of (vd d) \<le> CURRENT_SCHEMA_VERSION
    then \<exists>d'. check_and_migrate R d = (Ok (), d') \<and> vd d' = stamped (vd d) \<and>
      get_schema_version R d' = Ok CURRENT_SCHEMA_VERSION \<and> check_and_migrate R d' = (Ok (), d')
    else check_and_migrate R d = (Err (future_message (version_of (vd d))), d)"
proof (cases "version_of (vd d) \<le> CURRENT_SCHEMA_VERSION")
  case True
  from check_and_migrate_current [OF assms True] obtain d' where
    d': "check_and_migrate R d = (Ok (), d')" "vd d' = stamped (vd d)" by blast
  have "check_and_migrate R d' = (Ok (), d')"
    by (simp add: check_and_migrate_def read_version_reliable [OF assms] d'(2))
  with d' True show ?thesis
    by (simp add: get_schema_version_def read_version_reliable [OF assms])
next
  case False
  then have "CURRENT_SCHEMA_VERSION < version_of (vd d)" by simp
  then have "check_and_migrate R d = (Err (future_message (version_of (vd d))), d)"
    by (simp add: check_and_migrate_def read_version_reliable [OF assms])
  with False show ?thesis by simp
qed

definition future_db :: mem_db where
  "future_db = mem_empty\<lparr>m_meta := [(SCHEMA_VERSION_KEY, 2)]\<rparr>"

theorem check_and_migrate_spec_witness:
  "check_and_migrate mem_redb future_db = (Err (future_message 2), future_db) \<and>
   (\<exists>d'. check_and_migrate mem_redb mem_empty = (Ok (), d') \<and> get_schema_version mem_redb d' = Ok 1)"
proof -
  have "version_of (mem_view future_db) = 2" "version_of (mem_view mem_empty) = 0"
    by (simp_all add: version_of_def mem_view_def future_db_def mem_empty_def)
  moreover have "\<not> (2 :: u64) \<le> 1" by (simp add: word_le_nat_alt)
  ultimately show ?thesis
    using check_and_migrate_spec [OF mem_redb_laws mem_redb_reliable, of future_db]
      check_and_migrate_spec [OF mem_redb_laws mem_redb_reliable, of mem_empty]
    by (auto simp: CURRENT_SCHEMA_VERSION_def)
qed

lemma open_tables_reliable:
  assumes L: "redb_laws R vd vt" and rel: "redb_reliable R"
  shows "\<exists>t'. open_tables R t ns = Ok t' \<and> vt t' = vt t"
proof (induction ns arbitrary: t)
  case (Cons x ns)
  obtain c n where x: "x = (c, n)" by force
  obtain t1 where t1: "open_write R t n = Ok t1" "vt t1 = vt t"
    using reliable_ok(5) [OF L rel] by metis
  with Cons.IH [of t1] show ?case by (simp add: x)
qed simp

lemma open_store_reliable:
  assumes L: "redb_laws R vd vt" and rel: "redb_reliable R" and le: "version_of (vd d) \<le> CURRENT_SCHEMA_VERSION"
  shows "\<exists>d'. open_store R (Ok d) = Ok d' \<and> vd d' = stamped (vd d)"
proof -
  obtain t1 where t1: "begin_write R d = Ok t1" "vt t1 = vd d" using reliable_ok(2) [OF L rel] by metis
  obtain t2 where t2: "open_tables R t1 all_tables = Ok t2" "vt t2 = vd d"
    using open_tables_reliable [OF L rel] t1(2) by metis
  obtain d1 where d1: "commit R d t2 = Ok d1" "vd d1 = vd d" using reliable_ok(3) [OF L rel] t2(2) by metis
  from check_and_migrate_current [OF L rel, of d1] le d1(2) obtain d' where
    "check_and_migrate R d1 = (Ok (), d')" "vd d' = stamped (vd d)" by auto
  with t1 t2 d1 show ?thesis by (auto simp: open_store_def)
qed

end
