(* ===== verification/Sample_Serde.thy ===== *)
theory Sample_Serde
  imports Model
begin

text \<open>
  An instance of the serialisation parameter: every field is written with its length before
  it, so that \<open>serde_laws\<close> holds and the serialised form of a concrete record can be
  computed. It stands for serde_json in the concrete runs that accompany the theorems.
\<close>

definition enc_str :: "ustr \<Rightarrow> ustr" where
  "enc_str s = length s # s"

fun dec_str :: "ustr \<Rightarrow> (ustr \<times> ustr) option" where
  "dec_str [] = None"
| "dec_str (n # s) = (if n \<le> length s then Some (take n s, drop n s) else None)"

fun enc_strs :: "ustr list \<Rightarrow> ustr" where
  "enc_strs xs = length xs # concat (map enc_str xs)"

fun dec_n :: "nat \<Rightarrow> ustr \<Rightarrow> (ustr list \<times> ustr) option" where
  "dec_n 0 s = Some ([], s)"
| "dec_n (Suc n) s = (case dec_str s of None \<Rightarrow> None
     | Some (x, s) \<Rightarrow> (case dec_n n s of None \<Rightarrow> None | Some (xs, s) \<Rightarrow> Some (x # xs, s)))"

fun dec_strs :: "ustr \<Rightarrow> (ustr list \<times> ustr) option" where
  "dec_strs [] = None"
| "dec_strs (n # s) = dec_n n s"

lemma dec_enc_str [simp]: "dec_str (enc_str s @ t) = Some (s, t)"
  by (simp add: enc_str_def)

lemma dec_enc_n: "dec_n (length xs) (concat (map enc_str xs) @ t) = Some (xs, t)"
  by (induction xs) auto

lemma dec_enc_strs [simp]: "dec_strs (enc_strs xs @ t) = Some (xs, t)"
  by (simp add: dec_enc_n)

declare enc_strs.simps [simp del]

definition enc_record :: "ContentRecord \<Rightarrow> ustr" where
  "enc_record r = enc_str (cr_id r) @ enc_str (cr_source_url r) @ enc_str (cr_source_hash r) @
     enc_str (cr_schema r) @ enc_strs (cr_tags r) @ enc_str (cr_body r) @
     enc_str (ScrapeSource_as_str (cr_scrape_source r)) @
     enc_str (RefreshPolicy_as_str (cr_refresh_policy r)) @ enc_str (cr_sig r) @
     [unat (cr_created_at r), unat (cr_expires_at r)]"

definition dec_record :: "ustr \<Rightarrow> ContentRecord option" where
  "dec_record s =
     (case dec_str s of None \<Rightarrow> None | Some (i, s) \<Rightarrow>
     (case dec_str s of None \<Rightarrow> None | Some (url, s) \<Rightarrow>
     (case dec_str s of None \<Rightarrow> None | Some (hash, s) \<Rightarrow>
     (case dec_str s of None \<Rightarrow> None | Some (schema, s) \<Rightarrow>
     (case dec_strs s of None \<Rightarrow> None | Some (tags, s) \<Rightarrow>
     (case dec_str s of None \<Rightarrow> None | Some (body, s) \<Rightarrow>
     (case dec_str s of None \<Rightarrow> None | Some (ss, s) \<Rightarrow>
     (case dec_str s of None \<Rightarrow> None | Some (rp, s) \<Rightarrow>
     (case dec_str s of None \<Rightarrow> None | Some (sig, s) \<Rightarrow>
     (case (ScrapeSource_from_str ss, RefreshPolicy_from_str rp, s) of
        (Some src, Some pol, [c, e]) \<Rightarrow> Some \<lparr>cr_id = i, cr_source_url = url, cr_source_hash = hash,
          cr_schema = schema, cr_tags = tags, cr_body = body, cr_created_at = of_nat c,
          cr_expires_at = of_nat e, cr_scrape_source = src, cr_refresh_policy = pol, cr_sig = sig\<rparr>
      | _ \<Rightarrow> None))))))))))"

definition enc_ann :: "Announcement \<Rightarrow> ustr" where
  "enc_ann a = enc_str (an_record_id a) @ enc_str (an_source_hash a) @ enc_str (an_schema a) @
     enc_strs (an_tags a) @ enc_str (an_holder_addr a) @ enc_str (an_sig a) @ [unat (an_expires_at a)]"

definition dec_ann :: "ustr \<Rightarrow> Announcement option" where
  "dec_ann s =
     (case dec_str s of None \<Rightarrow> None | Some (i, s) \<Rightarrow>
     (case dec_str s of None \<Rightarrow> None | Some (hash, s) \<Rightarrow>
     (case dec_str s of None \<Rightarrow> None | Some (schema, s) \<Rightarrow>
     (case dec_strs s of None \<Rightarrow> None | Some (tags, s) \<Rightarrow>
     (case dec_str s of None \<Rightarrow> None | Some (holder, s) \<Rightarrow>
     (case dec_str s of None \<Rightarrow> None | Some (sig, s) \<Rightarrow>
     (case s of [e] \<Rightarrow> Some \<lparr>an_record_id = i, an_source_hash = hash, an_schema = schema,
          an_tags = tags, an_holder_addr = holder, an_expires_at = of_nat e, an_sig = sig\<rparr>
      | _ \<Rightarrow> None)))))))"

lemma dec_enc_record [simp]: "dec_record (enc_record r) = Some r"
  by (simp add: dec_record_def enc_record_def scrape_source.dec_enc refresh_policy.dec_enc)

lemma dec_enc_ann [simp]: "dec_ann (enc_ann a) = Some a"
  by (simp add: dec_ann_def enc_ann_def)

definition sample_serde :: serde where
  "sample_serde = \<lparr>record_to_json = (\<lambda>r. Ok (enc_record r)),
     record_from_json = (\<lambda>j. case dec_record j of Some r \<Rightarrow> Ok r | None \<Rightarrow> Err (lit ''expected value'')),
     ann_to_json = (\<lambda>a. Ok (enc_ann a)),
     ann_from_json = (\<lambda>j. case dec_ann j of Some a \<Rightarrow> Ok a | None \<Rightarrow> Err (lit ''expected value''))\<rparr>"

lemma sample_serde_laws: "serde_laws sample_serde"
  by (auto simp: serde_laws_def sample_serde_def split: option.splits)

lemma sample_serde_simps [simp]:
  "record_to_json sample_serde r = Ok (enc_record r)"
  "record_from_json sample_serde (enc_record r) = Ok r"
  "ann_to_json sample_serde a = Ok (enc_ann a)"
  "ann_from_json sample_serde (enc_ann a) = Ok a"
  by (simp_all add: sample_serde_def)

text \<open>A record and an announcement of a few bytes.\<close>

definition rec_of :: "string \<Rightarrow> string \<Rightarrow> u64 \<Rightarrow> u64 \<Rightarrow> ContentRecord" where
  "rec_of i h created expires = \<lparr>cr_id = lit i, cr_source_url = lit ''https://x'', cr_source_hash = lit h,
     cr_schema = lit ''wiki/article'', cr_tags = [lit ''lang:en''], cr_body = lit ''b'',
     cr_created_at = created, cr_expires_at = expires, cr_scrape_source = Url,
     cr_refresh_policy = Once, cr_sig = []\<rparr>"

lemma rec_of_simps [simp]:
  "cr_id (rec_of i h c e) = lit i" "cr_source_hash (rec_of i h c e) = lit h"
  "cr_created_at (rec_of i h c e) = c" "cr_expires_at (rec_of i h c e) = e"
  "cr_schema (rec_of i h c e) = lit ''wiki/article''" "cr_tags (rec_of i h c e) = [lit ''lang:en'']"
  by (simp_all add: rec_of_def)

lemma rec_of_small:
  "length i \<le> 8 \<Longrightarrow> length h \<le> 8 \<Longrightarrow> str_len (enc_record (rec_of i h c e)) \<le> 500"
proof -
  have four: "str_len s \<le> 4 * length s" for s :: ustr
  proof (induction s)
    case (Cons c s)
    with utf8_len_bounds(2) [of c] show ?case by simp
  qed simp
  assume "length i \<le> 8" "length h \<le> 8"
  then show ?thesis
    using four [of "enc_record (rec_of i h c e)"]
    by (simp add: enc_record_def rec_of_def enc_str_def enc_strs.simps)
qed

end
