(* ===== verification/Records.thy ===== *)
theory Records
  imports Redb Sample_Serde
begin

text \<open>
  The Tier 3 records, their source index, the pins and the Tier 2 announcements
  (\<^verbatim>\<open>src/src/storage/records.rs\<close>). Each operation returns the outcome and the database
  after it. The main facts: what an insert does in each of its three outcomes, the
  invariant that makes deduplication work and that every operation keeps, and what expiry
  removes.
\<close>

section \<open>Operations\<close>

datatype InsertResult = Inserted | SkippedOlder | ReplacedNewer

text \<open>Sizes are summed at 64 bits.\<close>

fun size_loop :: "u64 \<Rightarrow> (ustr \<times> ustr, ustr) result list \<Rightarrow> (u64, ustr) result" where
  "size_loop acc [] = Ok acc"
| "size_loop acc (entry # es) =
     rbind (with_ctx ''size read entry'' entry) (\<lambda>(_, v). size_loop (acc + of_nat (str_len v)) es)"

definition records_size_bytes :: "('d, 't) redb \<Rightarrow> 'd \<Rightarrow> (u64, ustr) result" where
  "records_size_bytes R d =
     rbind (with_ctx ''size read tx'' (begin_read R d)) (\<lambda>t.
     rbind (with_ctx ''open records for size'' (open_read R t RECORDS_TABLE)) (\<lambda>_.
     rbind (with_ctx ''size iter'' (t_iter R t RECORDS_TABLE)) (\<lambda>es. size_loop 0 es)))"

definition record_count :: "('d, 't) redb \<Rightarrow> 'd \<Rightarrow> (u64, ustr) result" where
  "record_count R d =
     rbind (with_ctx ''count read tx'' (begin_read R d)) (\<lambda>t.
     rbind (with_ctx ''open records for count'' (open_read R t RECORDS_TABLE)) (\<lambda>_.
       with_ctx ''count'' (t_len R t RECORDS_TABLE)))"

text \<open>The deduplication check of \<^verbatim>\<open>insert_record\<close>: the id the source index holds for the
  record's source hash, and whether the record it names is older.\<close>

definition dedup_check :: "('d, 't) redb \<Rightarrow> serde \<Rightarrow> 't \<Rightarrow> ContentRecord \<Rightarrow> ((ustr \<times> bool) option \<times> 't, ustr) result" where
  "dedup_check R J t record =
     rbind (with_ctx ''open source_index'' (open_write R t SOURCE_INDEX_TABLE)) (\<lambda>t.
     rbind (with_ctx ''source_index lookup'' (t_get R t SOURCE_INDEX_TABLE (cr_source_hash record))) (\<lambda>found.
       case found of
         None \<Rightarrow> Ok (None, t)
       | Some existing_id \<Rightarrow>
           rbind (with_ctx ''open records for dedup check'' (open_write R t RECORDS_TABLE)) (\<lambda>t.
           rbind (with_ctx ''read existing record for dedup'' (t_get R t RECORDS_TABLE existing_id)) (\<lambda>e.
             case e of
               None \<Rightarrow> Ok (None, t)
             | Some json \<Rightarrow>
                 rbind (with_ctx ''parse existing record'' (record_from_json J json)) (\<lambda>existing.
                   if cr_created_at record \<le> cr_created_at existing
                   then Ok (Some (existing_id, False), t)
                   else Ok (Some (existing_id, True), t))))))"

text \<open>The quota check inside the write transaction: the size is read from the committed
  database.\<close>

definition insert_quota_check :: "('d, 't) redb \<Rightarrow> 'd \<Rightarrow> ustr \<Rightarrow> StorageConfig option \<Rightarrow> (unit, ustr) result" where
  "insert_quota_check R d json config = (case config of
     None \<Rightarrow> Ok ()
   | Some cfg \<Rightarrow>
       if 0 < sc_quota_mb cfg then
         (let quota_bytes = (ucast (sc_quota_mb cfg) :: u64) * 1024 * 1024 in
          rbind (records_size_bytes R d) (\<lambda>current_bytes.
            if quota_bytes < current_bytes + of_nat (str_len json)
            then Err (lit ''Storage quota exceeded ('' @ to_dec (unat (sc_quota_mb cfg)) @ lit '' MB).'')
            else Ok ()))
       else Ok ())"

definition insert_record :: "('d, 't) redb \<Rightarrow> serde \<Rightarrow> 'd \<Rightarrow> ContentRecord \<Rightarrow> StorageConfig option
    \<Rightarrow> (InsertResult, ustr) result \<times> 'd" where
  "insert_record R J d record config = settle d (
     rbind (with_ctx ''record validation'' (validate_record_size J record)) (\<lambda>_.
     rbind (with_ctx ''serialize record'' (record_to_json J record)) (\<lambda>json.
     rbind (with_ctx ''insert write tx'' (begin_write R d)) (\<lambda>t.
     rbind (dedup_check R J t record) (\<lambda>(dedup_result, t).
       if \<exists>e. dedup_result = Some (e, False) then
         rbind (with_ctx ''commit skip'' (commit R d t)) (\<lambda>d'. Ok (SkippedOlder, d'))
       else
         rbind (case dedup_result of
             Some (existing_id, _) \<Rightarrow>
               rbind (with_ctx ''open records for dedup delete'' (open_write R t RECORDS_TABLE)) (\<lambda>t.
               rbind (with_ctx ''remove old record'' (t_remove R t RECORDS_TABLE existing_id)) (\<lambda>(_, t). Ok t))
           | None \<Rightarrow> Ok t) (\<lambda>t.
         rbind (with_ctx ''open records'' (open_write R t RECORDS_TABLE)) (\<lambda>t.
         rbind (with_ctx ''insert record'' (t_insert R t RECORDS_TABLE (cr_id record) json)) (\<lambda>t.
         rbind (with_ctx ''open source_index'' (open_write R t SOURCE_INDEX_TABLE)) (\<lambda>t.
         rbind (with_ctx ''update source_index''
             (t_insert R t SOURCE_INDEX_TABLE (cr_source_hash record) (cr_id record))) (\<lambda>t.
         rbind (insert_quota_check R d json config) (\<lambda>_.
         rbind (with_ctx ''insert commit'' (commit R d t)) (\<lambda>d'.
           Ok (if dedup_result = None then Inserted else ReplacedNewer, d')))))))))))))"

definition get_record :: "('d, 't) redb \<Rightarrow> serde \<Rightarrow> 'd \<Rightarrow> ustr \<Rightarrow> (ContentRecord option, ustr) result" where
  "get_record R J d k =
     rbind (with_ctx ''get read tx'' (begin_read R d)) (\<lambda>t.
     rbind (with_ctx ''open records'' (open_read R t RECORDS_TABLE)) (\<lambda>_.
     rbind (with_ctx ''get record'' (t_get R t RECORDS_TABLE k)) (\<lambda>v.
       case v of
         Some json \<Rightarrow> rbind (with_ctx ''deserialize record'' (record_from_json J json)) (\<lambda>r. Ok (Some r))
       | None \<Rightarrow> Ok None)))"

text \<open>The loop of \<^verbatim>\<open>list_records\<close>: the limit is looked at after a record is pushed.\<close>

fun list_loop :: "serde \<Rightarrow> ustr option \<Rightarrow> u64 \<Rightarrow> ContentRecord list \<Rightarrow> (ustr \<times> ustr, ustr) result list
    \<Rightarrow> (ContentRecord list, ustr) result" where
  "list_loop J schema limit results [] = Ok results"
| "list_loop J schema limit results (entry # es) =
     rbind (with_ctx ''read entry'' entry) (\<lambda>(key, v).
     rbind (map_err (\<lambda>e. lit ''deserialize record '' @ key @ lit '': '' @ e) (record_from_json J v)) (\<lambda>record.
       if schema \<noteq> None \<and> schema \<noteq> Some (cr_schema record) then list_loop J schema limit results es
       else let results = results @ [record] in
         if unat limit \<le> length results then Ok results
         else list_loop J schema limit results es))"

definition list_records :: "('d, 't) redb \<Rightarrow> serde \<Rightarrow> 'd \<Rightarrow> ustr option \<Rightarrow> u64
    \<Rightarrow> (ContentRecord list, ustr) result" where
  "list_records R J d schema limit =
     rbind (with_ctx ''list read tx'' (begin_read R d)) (\<lambda>t.
     rbind (with_ctx ''open records'' (open_read R t RECORDS_TABLE)) (\<lambda>_.
     rbind (with_ctx ''iter scan'' (t_iter R t RECORDS_TABLE)) (\<lambda>es.
       list_loop J schema limit [] es)))"

text \<open>Removing one record and, if it points to that record, its source index entry: the
  same steps in \<^verbatim>\<open>delete_record\<close>, in the second phase of expiry and in eviction, with the
  error contexts of each.\<close>

definition remove_indexed :: "('d, 't) redb \<Rightarrow> string \<times> string \<times> string \<times> string \<times> string \<Rightarrow> 't
    \<Rightarrow> ustr \<Rightarrow> ustr \<Rightarrow> ('t, ustr) result" where
  "remove_indexed R ctx t k source_hash = (case ctx of (c1, c2, c3, c4, c5) \<Rightarrow>
     rbind (with_ctx c1 (open_write R t RECORDS_TABLE)) (\<lambda>t.
     rbind (with_ctx c2 (t_remove R t RECORDS_TABLE k)) (\<lambda>(_, t).
     rbind (with_ctx c3 (open_write R t SOURCE_INDEX_TABLE)) (\<lambda>t.
       let should_remove = (case t_get R t SOURCE_INDEX_TABLE source_hash of
             Ok (Some existing_id) \<Rightarrow> existing_id = k | _ \<Rightarrow> False) in
       if should_remove then
         rbind (with_ctx c4 (open_write R t SOURCE_INDEX_TABLE)) (\<lambda>t.
         rbind (with_ctx c5 (t_remove R t SOURCE_INDEX_TABLE source_hash)) (\<lambda>(_, t). Ok t))
       else Ok t))))"

definition delete_record :: "('d, 't) redb \<Rightarrow> serde \<Rightarrow> 'd \<Rightarrow> ustr \<Rightarrow> (bool, ustr) result \<times> 'd" where
  "delete_record R J d k = settle d (
     rbind (with_ctx ''delete read tx'' (begin_read R d)) (\<lambda>rt.
     rbind (with_ctx ''open records'' (open_read R rt RECORDS_TABLE)) (\<lambda>_.
     rbind (with_ctx ''get record for delete'' (t_get R rt RECORDS_TABLE k)) (\<lambda>v.
       case v of
         None \<Rightarrow> Ok (False, d)
       | Some json \<Rightarrow>
           rbind (with_ctx ''deserialize record'' (record_from_json J json)) (\<lambda>record.
           rbind (with_ctx ''delete write tx'' (begin_write R d)) (\<lambda>t.
           rbind (remove_indexed R (''open records for delete'', ''remove record'',
               ''open source_index for delete check'', ''reopen source_index for delete'',
               ''remove source_index'') t k (cr_source_hash record)) (\<lambda>t.
           rbind (with_ctx ''open pins for delete'' (open_write R t PINS_TABLE)) (\<lambda>t.
           rbind (with_ctx ''remove pin'' (t_remove R t PINS_TABLE k)) (\<lambda>(_, t).
           rbind (with_ctx ''delete commit'' (commit R d t)) (\<lambda>d'. Ok (True, d')))))))))))"

definition pin_record :: "('d, 't) redb \<Rightarrow> 'd \<Rightarrow> u64 \<Rightarrow> ustr \<Rightarrow> (bool, ustr) result \<times> 'd" where
  "pin_record R d now k = settle d (
     rbind (with_ctx ''pin read tx'' (begin_read R d)) (\<lambda>rt.
     rbind (with_ctx ''open records'' (open_read R rt RECORDS_TABLE)) (\<lambda>_.
     rbind (with_ctx ''get record'' (t_get R rt RECORDS_TABLE k)) (\<lambda>v.
       if v = None then Ok (False, d)
       else
         rbind (with_ctx ''pin write tx'' (begin_write R d)) (\<lambda>t.
         rbind (with_ctx ''open pins'' (open_write R t PINS_TABLE)) (\<lambda>t.
         rbind (with_ctx ''insert pin'' (t_insert R t PINS_TABLE k (to_dec (unat now)))) (\<lambda>t.
         rbind (with_ctx ''pin commit'' (commit R d t)) (\<lambda>d'. Ok (True, d')))))))))"

definition unpin_record :: "('d, 't) redb \<Rightarrow> 'd \<Rightarrow> ustr \<Rightarrow> (bool, ustr) result \<times> 'd" where
  "unpin_record R d k = settle d (
     rbind (with_ctx ''unpin write tx'' (begin_write R d)) (\<lambda>t.
     rbind (with_ctx ''open pins'' (open_write R t PINS_TABLE)) (\<lambda>t.
     rbind (with_ctx ''remove pin'' (t_remove R t PINS_TABLE k)) (\<lambda>(v, t).
     rbind (with_ctx ''unpin commit'' (commit R d t)) (\<lambda>d'. Ok (v \<noteq> None, d'))))))"

definition is_pinned :: "('d, 't) redb \<Rightarrow> 'd \<Rightarrow> ustr \<Rightarrow> (bool, ustr) result" where
  "is_pinned R d k =
     rbind (with_ctx ''is_pinned read tx'' (begin_read R d)) (\<lambda>t.
     rbind (with_ctx ''open pins'' (open_read R t PINS_TABLE)) (\<lambda>_.
     rbind (with_ctx ''check pin'' (t_get R t PINS_TABLE k)) (\<lambda>v. Ok (v \<noteq> None))))"

definition insert_announcement :: "('d, 't) redb \<Rightarrow> serde \<Rightarrow> 'd \<Rightarrow> Announcement \<Rightarrow> (unit, ustr) result \<times> 'd" where
  "insert_announcement R J d ann = settle d (
     rbind (with_ctx ''announcement validation'' (validate_announcement_size J ann)) (\<lambda>_.
     let key = an_record_id ann @ [58] @ an_holder_addr ann in
     rbind (with_ctx ''serialize announcement'' (ann_to_json J ann)) (\<lambda>json.
     rbind (with_ctx ''ann write tx'' (begin_write R d)) (\<lambda>t.
     rbind (with_ctx ''open announcements'' (open_write R t ANNOUNCEMENTS_TABLE)) (\<lambda>t.
     rbind (with_ctx ''insert announcement'' (t_insert R t ANNOUNCEMENTS_TABLE key json)) (\<lambda>t.
     rbind (with_ctx ''ann commit'' (commit R d t)) (\<lambda>d'. Ok ((), d'))))))))"

section \<open>Expiry\<close>

text \<open>\<^verbatim>\<open>pins.get(key).map(|v| v.is_some()).unwrap_or(false)\<close>: a failed lookup reads as not
  pinned.\<close>

definition seems_pinned :: "('d, 't) redb \<Rightarrow> 't \<Rightarrow> ustr \<Rightarrow> bool" where
  "seems_pinned R t k = (case t_get R t PINS_TABLE k of Ok v \<Rightarrow> v \<noteq> None | _ \<Rightarrow> False)"

fun expired_loop :: "('d, 't) redb \<Rightarrow> serde \<Rightarrow> 't \<Rightarrow> u64 \<Rightarrow> (ustr \<times> ustr) list
    \<Rightarrow> (ustr \<times> ustr, ustr) result list \<Rightarrow> ((ustr \<times> ustr) list, ustr) result" where
  "expired_loop R J t now_secs expired [] = Ok expired"
| "expired_loop R J t now_secs expired (entry # es) =
     rbind (with_ctx ''expiry read entry'' entry) (\<lambda>(key, v).
     rbind (with_ctx ''deserialize record for expiry'' (record_from_json J v)) (\<lambda>record.
       expired_loop R J t now_secs
         (if 0 < cr_expires_at record \<and> cr_expires_at record < now_secs \<and> \<not> seems_pinned R t key
          then expired @ [(key, cr_source_hash record)] else expired) es))"

definition expired_scan :: "('d, 't) redb \<Rightarrow> serde \<Rightarrow> 'd \<Rightarrow> u64 \<Rightarrow> ((ustr \<times> ustr) list, ustr) result" where
  "expired_scan R J d now_secs =
     rbind (with_ctx ''expiry read tx'' (begin_read R d)) (\<lambda>t.
     rbind (with_ctx ''open records for expiry'' (open_read R t RECORDS_TABLE)) (\<lambda>_.
     rbind (with_ctx ''open pins for expiry'' (open_read R t PINS_TABLE)) (\<lambda>_.
     rbind (with_ctx ''expiry iter'' (t_iter R t RECORDS_TABLE)) (\<lambda>es.
       expired_loop R J t now_secs [] es))))"

fun remove_all :: "('d, 't) redb \<Rightarrow> string \<times> string \<times> string \<times> string \<times> string \<Rightarrow> 't
    \<Rightarrow> (ustr \<times> ustr) list \<Rightarrow> ('t, ustr) result" where
  "remove_all R ctx t [] = Ok t"
| "remove_all R ctx t ((k, source_hash) # xs) =
     rbind (remove_indexed R ctx t k source_hash) (\<lambda>t. remove_all R ctx t xs)"

definition expired_delete :: "('d, 't) redb \<Rightarrow> 'd \<Rightarrow> (ustr \<times> ustr) list \<Rightarrow> (nat, ustr) result \<times> 'd" where
  "expired_delete R d to_delete = settle d (
     rbind (with_ctx ''expiry write tx'' (begin_write R d)) (\<lambda>t.
     rbind (remove_all R (''open records for expiry delete'', ''remove expired record'',
         ''open source_index for expiry check'', ''reopen source_index for expiry delete'',
         ''remove source_index for expiry'') t to_delete) (\<lambda>t.
     rbind (with_ctx ''expiry commit'' (commit R d t)) (\<lambda>d'. Ok (length to_delete, d')))))"

definition delete_expired_records :: "('d, 't) redb \<Rightarrow> serde \<Rightarrow> 'd \<Rightarrow> u64 \<Rightarrow> (nat, ustr) result \<times> 'd" where
  "delete_expired_records R J d now_secs = (case expired_scan R J d now_secs of
     Ok to_delete \<Rightarrow> if length to_delete = 0 then (Ok 0, d) else expired_delete R d to_delete
   | Err e \<Rightarrow> (Err e, d) | Panic \<Rightarrow> (Panic, d))"

fun expired_ann_loop :: "serde \<Rightarrow> u64 \<Rightarrow> ustr list \<Rightarrow> (ustr \<times> ustr, ustr) result list
    \<Rightarrow> (ustr list, ustr) result" where
  "expired_ann_loop J now_secs expired [] = Ok expired"
| "expired_ann_loop J now_secs expired (entry # es) =
     rbind (with_ctx ''ann expiry read entry'' entry) (\<lambda>(key, v).
     rbind (with_ctx ''deserialize announcement for expiry'' (ann_from_json J v)) (\<lambda>ann.
       expired_ann_loop J now_secs
         (if an_expires_at ann < now_secs then expired @ [key] else expired) es))"

fun remove_keys :: "('d, 't) redb \<Rightarrow> db_table \<Rightarrow> string \<Rightarrow> 't \<Rightarrow> ustr list \<Rightarrow> ('t, ustr) result" where
  "remove_keys R n ctx t [] = Ok t"
| "remove_keys R n ctx t (k # ks) =
     rbind (with_ctx ctx (t_remove R t n k)) (\<lambda>(_, t). remove_keys R n ctx t ks)"

definition delete_expired_announcements :: "('d, 't) redb \<Rightarrow> serde \<Rightarrow> 'd \<Rightarrow> u64 \<Rightarrow> (nat, ustr) result \<times> 'd" where
  "delete_expired_announcements R J d now_secs = settle d (
     rbind (with_ctx ''ann expiry read tx'' (begin_read R d)) (\<lambda>rt.
     rbind (with_ctx ''open announcements for expiry'' (open_read R rt ANNOUNCEMENTS_TABLE)) (\<lambda>_.
     rbind (with_ctx ''ann expiry iter'' (t_iter R rt ANNOUNCEMENTS_TABLE)) (\<lambda>es.
     rbind (expired_ann_loop J now_secs [] es) (\<lambda>to_delete.
       if length to_delete = 0 then Ok (0, d)
       else
         rbind (with_ctx ''ann expiry write tx'' (begin_write R d)) (\<lambda>t.
         rbind (with_ctx ''open announcements for expiry delete'' (open_write R t ANNOUNCEMENTS_TABLE)) (\<lambda>t.
         rbind (remove_keys R ANNOUNCEMENTS_TABLE ''remove expired announcement'' t to_delete) (\<lambda>t.
         rbind (with_ctx ''ann expiry commit'' (commit R d t)) (\<lambda>d'.
           Ok (length to_delete, d'))))))))))"

section \<open>What each operation does\<close>

text \<open>The record stored under a key.\<close>

definition stored :: "serde \<Rightarrow> contents \<Rightarrow> ustr \<Rightarrow> ContentRecord option" where
  "stored J c k = (case c_tab c RECORDS_TABLE k of None \<Rightarrow> None
     | Some j \<Rightarrow> (case record_from_json J j of Ok r \<Rightarrow> Some r | _ \<Rightarrow> None))"

text \<open>The contents after a record is added, and after one is dropped with the index entry
  that points to it.\<close>

definition add_rec :: "ContentRecord \<Rightarrow> ustr \<Rightarrow> contents \<Rightarrow> contents" where
  "add_rec r json c = put SOURCE_INDEX_TABLE (cr_source_hash r) (cr_id r) (put RECORDS_TABLE (cr_id r) json c)"

definition drop_rec :: "ustr \<Rightarrow> ustr \<Rightarrow> contents \<Rightarrow> contents" where
  "drop_rec k h c = (if c_tab c SOURCE_INDEX_TABLE h = Some k
     then del SOURCE_INDEX_TABLE h (del RECORDS_TABLE k c) else del RECORDS_TABLE k c)"

definition drop_recs :: "(ustr \<times> ustr) list \<Rightarrow> contents \<Rightarrow> contents" where
  "drop_recs xs c = fold (\<lambda>(k, h). drop_rec k h) xs c"

definition dedup_of :: "serde \<Rightarrow> contents \<Rightarrow> ContentRecord \<Rightarrow> (ustr \<times> bool) option \<Rightarrow> bool" where
  "dedup_of J c rec res \<longleftrightarrow> (case res of
     None \<Rightarrow> (\<forall>e. c_tab c SOURCE_INDEX_TABLE (cr_source_hash rec) = Some e \<longrightarrow> c_tab c RECORDS_TABLE e = None)
   | Some (e, newer) \<Rightarrow> c_tab c SOURCE_INDEX_TABLE (cr_source_hash rec) = Some e \<and>
       (\<exists>x. stored J c e = Some x \<and> newer = (cr_created_at x < cr_created_at rec)))"

lemma stored_Some_iff:
  "stored J c k = Some r \<longleftrightarrow> (\<exists>j. c_tab c RECORDS_TABLE k = Some j \<and> record_from_json J j = Ok r)"
  by (auto simp: stored_def split: option.splits result.splits)

lemma dedup_check_Ok:
  assumes L: "redb_laws R vd vt" and ok: "dedup_check R J t rec = Ok (res, t')"
  shows "vt t' = vt t \<and> dedup_of J (vt t) rec res"
proof -
  from ok obtain t1 found where t1: "open_write R t SOURCE_INDEX_TABLE = Ok t1"
    and found: "t_get R t1 SOURCE_INDEX_TABLE (cr_source_hash rec) = Ok found"
    by (auto simp: dedup_check_def res_simps)
  note v1 = redb_tx(1) [OF L t1] and g1 = redb_tx(2) [OF L found]
  show ?thesis
  proof (cases found)
    case None
    with ok t1 found show ?thesis
      using v1 g1 by (auto simp: dedup_check_def dedup_of_def)
  next
    case (Some e)
    with ok t1 found obtain t2 v where t2: "open_write R t1 RECORDS_TABLE = Ok t2"
      and v: "t_get R t2 RECORDS_TABLE e = Ok v"
      by (auto simp: dedup_check_def res_simps)
    note v2 = redb_tx(1) [OF L t2] and g2 = redb_tx(2) [OF L v]
    have "c_tab (vt t) RECORDS_TABLE e = v" "c_tab (vt t) SOURCE_INDEX_TABLE (cr_source_hash rec) = Some e"
      using v1 v2 g1 g2 Some by auto
    with ok t1 found Some t2 v v1 v2 show ?thesis
      by (cases v) (auto simp: dedup_check_def dedup_of_def res_simps stored_Some_iff not_le split: if_splits)
  qed
qed

text \<open>The three outcomes of an insert.\<close>

definition insert_effect :: "serde \<Rightarrow> contents \<Rightarrow> ContentRecord \<Rightarrow> ustr \<Rightarrow> InsertResult \<Rightarrow> contents \<Rightarrow> bool" where
  "insert_effect J c rec json res c' \<longleftrightarrow> (case res of
     SkippedOlder \<Rightarrow> (\<exists>e. dedup_of J c rec (Some (e, False))) \<and> c' = c
   | ReplacedNewer \<Rightarrow> (\<exists>e. dedup_of J c rec (Some (e, True)) \<and> c' = add_rec rec json (del RECORDS_TABLE e c))
   | Inserted \<Rightarrow> dedup_of J c rec None \<and> c' = add_rec rec json c)"

lemma insert_record_Ok:
  assumes L: "redb_laws R vd vt" and ok: "insert_record R J d rec cfg = (Ok res, d')"
  shows "\<exists>json. record_to_json J rec = Ok json \<and> str_len json \<le> MAX_RECORD_SIZE \<and>
    (res \<noteq> SkippedOlder \<longrightarrow> insert_quota_check R d json cfg = Ok ()) \<and>
    insert_effect J (vd d) rec json res (vd d')"
proof -
  note s = redb_steps [OF L]
  from ok obtain json t dr t1 where json: "validate_record_size J rec = Ok ()"
      "record_to_json J rec = Ok json"
    and t: "begin_write R d = Ok t" and dr: "dedup_check R J t rec = Ok (dr, t1)"
    by (auto simp: insert_record_def res_simps)
  have dd: "vt t1 = vd d" "dedup_of J (vd d) rec dr"
    using dedup_check_Ok [OF L dr] s(2) [OF t] by auto
  have small: "str_len json \<le> MAX_RECORD_SIZE"
    using json by (auto simp: validate_record_size_Ok)
  have eff: "(res \<noteq> SkippedOlder \<longrightarrow> insert_quota_check R d json cfg = Ok ()) \<and>
      insert_effect J (vd d) rec json res (vd d')"
  proof (cases dr)
    case None
    with ok json t dr show ?thesis
      using dd by (auto simp: insert_record_def insert_effect_def res_simps add_rec_def dest!: s)
  next
    case (Some p)
    obtain e n where p: "p = (e, n)" by force
    show ?thesis
    proof (cases n)
      case False
      with ok json t dr Some p show ?thesis
        using dd by (auto simp: insert_record_def insert_effect_def res_simps dest!: s)
    next
      case True
      with ok json t dr Some p show ?thesis
        using dd by (auto simp: insert_record_def insert_effect_def res_simps add_rec_def dest!: s)
    qed
  qed
  with json small show ?thesis by blast
qed

text \<open>Removing records keeps to \<open>drop_rec\<close>, except that a failed lookup in the source index
  leaves the entry in place.\<close>

lemma remove_indexed_Ok:
  assumes L: "redb_laws R vd vt" and ok: "remove_indexed R ctx t k h = Ok t'"
  shows "vt t' = drop_rec k h (vt t) \<or> vt t' = del RECORDS_TABLE k (vt t)"
proof -
  obtain c1 c2 c3 c4 c5 where ctx: "ctx = (c1, c2, c3, c4, c5)" by (cases ctx) auto
  from ok ctx obtain t1 v t2 t3 where t1: "open_write R t RECORDS_TABLE = Ok t1"
    and t2: "t_remove R t1 RECORDS_TABLE k = Ok (v, t2)"
    and t3: "open_write R t2 SOURCE_INDEX_TABLE = Ok t3"
    by (auto simp: remove_indexed_def res_simps)
  have v3: "vt t3 = del RECORDS_TABLE k (vt t)"
    using redb_tx(1) [OF L t1] redb_tx(4) [OF L t2] redb_tx(1) [OF L t3] by simp
  show ?thesis
  proof (cases "t_get R t3 SOURCE_INDEX_TABLE h = Ok (Some k)")
    case True
    have "c_tab (vt t) SOURCE_INDEX_TABLE h = Some k"
      using redb_tx(2) [OF L True] v3 by simp
    with ok ctx t1 t2 t3 True v3 show ?thesis
      by (auto simp: remove_indexed_def res_simps drop_rec_def dest!: redb_steps [OF L])
  next
    case False
    then have "(case t_get R t3 SOURCE_INDEX_TABLE h of Ok (Some e) \<Rightarrow> e = k | _ \<Rightarrow> False) = False"
      by (auto split: result.splits option.splits)
    with ok ctx t1 t2 t3 v3 show ?thesis
      by (auto simp: remove_indexed_def res_simps)
  qed
qed

lemma remove_indexed_reliable:
  assumes L: "redb_laws R vd vt" and rel: "redb_reliable R"
  shows "\<exists>t'. remove_indexed R ctx t k h = Ok t' \<and> vt t' = drop_rec k h (vt t)"
proof -
  note r = reliable_ok [OF L rel]
  obtain c1 c2 c3 c4 c5 where ctx: "ctx = (c1, c2, c3, c4, c5)" by (cases ctx) auto
  obtain t1 where t1: "open_write R t RECORDS_TABLE = Ok t1" "vt t1 = vt t" using r(5) by metis
  obtain v t2 where t2: "t_remove R t1 RECORDS_TABLE k = Ok (v, t2)" "vt t2 = del RECORDS_TABLE k (vt t)"
    using r(8) t1(2) by metis
  obtain t3 where t3: "open_write R t2 SOURCE_INDEX_TABLE = Ok t3" "vt t3 = del RECORDS_TABLE k (vt t)"
    using r(5) t2(2) by metis
  obtain t4 where t4: "open_write R t3 SOURCE_INDEX_TABLE = Ok t4" "vt t4 = del RECORDS_TABLE k (vt t)"
    using r(5) t3(2) by metis
  obtain w t5 where t5: "t_remove R t4 SOURCE_INDEX_TABLE h = Ok (w, t5)"
      "vt t5 = del SOURCE_INDEX_TABLE h (del RECORDS_TABLE k (vt t))"
    using r(8) t4(2) by metis
  have g: "t_get R t3 SOURCE_INDEX_TABLE h = Ok (c_tab (vt t) SOURCE_INDEX_TABLE h)"
    using r(6) [of t3 SOURCE_INDEX_TABLE h] t3(2) by simp
  show ?thesis
    using t1 t2 t3 t4 t5 g
    by (auto simp: remove_indexed_def ctx drop_rec_def split: option.splits)
qed

lemma remove_all_reliable:
  assumes L: "redb_laws R vd vt" and rel: "redb_reliable R"
  shows "\<exists>t'. remove_all R ctx t xs = Ok t' \<and> vt t' = drop_recs xs (vt t)"
proof (induction xs arbitrary: t)
  case (Cons x xs)
  obtain k h where x: "x = (k, h)" by force
  obtain t1 where t1: "remove_indexed R ctx t k h = Ok t1" "vt t1 = drop_rec k h (vt t)"
    using remove_indexed_reliable [OF L rel] by metis
  from Cons.IH [of t1] t1 show ?case by (auto simp: x drop_recs_def)
qed (simp add: drop_recs_def)

section \<open>Deduplication\<close>

text \<open>The invariant: every stored value is the serialisation of a record, under its own id,
  and the source index maps the record's source hash to that id.\<close>

definition dedup_inv :: "serde \<Rightarrow> contents \<Rightarrow> bool" where
  "dedup_inv J c \<longleftrightarrow> (\<forall>k j. c_tab c RECORDS_TABLE k = Some j \<longrightarrow>
     (\<exists>r. record_from_json J j = Ok r \<and> cr_id r = k \<and>
        c_tab c SOURCE_INDEX_TABLE (cr_source_hash r) = Some k))"

lemma dedup_inv_stored:
  "dedup_inv J c \<Longrightarrow> stored J c k = Some r \<Longrightarrow>
     cr_id r = k \<and> c_tab c SOURCE_INDEX_TABLE (cr_source_hash r) = Some k"
  by (force simp: dedup_inv_def stored_Some_iff)

lemma dedup_inv_add:
  assumes inv: "dedup_inv J c" and json: "record_from_json J json = Ok rec"
    and other: "\<And>k r. stored J c k = Some r \<Longrightarrow> cr_source_hash r = cr_source_hash rec \<Longrightarrow> k = cr_id rec"
  shows "dedup_inv J (add_rec rec json c)"
  using assms by (force simp: dedup_inv_def add_rec_def stored_Some_iff)

lemma dedup_inv_del:
  assumes "dedup_inv J c"
  shows "dedup_inv J (del RECORDS_TABLE k c)" "dedup_inv J (drop_rec k h c)"
    "n \<noteq> RECORDS_TABLE \<Longrightarrow> n \<noteq> SOURCE_INDEX_TABLE \<Longrightarrow> dedup_inv J (put n k v c)"
    "n \<noteq> RECORDS_TABLE \<Longrightarrow> n \<noteq> SOURCE_INDEX_TABLE \<Longrightarrow> dedup_inv J (del n k c)"
  using assms by (force simp: dedup_inv_def drop_rec_def)+

lemma dedup_inv_insert:
  assumes S: "serde_laws J" and inv: "dedup_inv J c" and json: "record_to_json J rec = Ok json"
    and eff: "insert_effect J c rec json res c'"
  shows "dedup_inv J c'"
proof -
  note j = serde_roundtrip(1) [OF S json]
  show ?thesis
  proof (cases res)
    case Inserted
    with eff have c': "c' = add_rec rec json c" and dd: "dedup_of J c rec None"
      by (simp_all add: insert_effect_def)
    show ?thesis
      unfolding c'
    proof (rule dedup_inv_add [OF inv j])
      fix k r assume r: "stored J c k = Some r" "cr_source_hash r = cr_source_hash rec"
      with dedup_inv_stored [OF inv r(1)] dd show "k = cr_id rec"
        by (auto simp: dedup_of_def stored_Some_iff)
    qed
  next
    case ReplacedNewer
    with eff obtain e where c': "c' = add_rec rec json (del RECORDS_TABLE e c)"
      and e: "c_tab c SOURCE_INDEX_TABLE (cr_source_hash rec) = Some e"
      by (auto simp: insert_effect_def dedup_of_def)
    show ?thesis
      unfolding c'
    proof (rule dedup_inv_add [OF dedup_inv_del(1) [OF inv] j])
      fix k r assume "stored J (del RECORDS_TABLE e c) k = Some r" "cr_source_hash r = cr_source_hash rec"
      then have "stored J c k = Some r" "k \<noteq> e"
        by (auto simp: stored_Some_iff split: if_splits)
      with dedup_inv_stored [OF inv] e \<open>cr_source_hash r = _\<close> show "k = cr_id rec" by force
    qed
  next
    case SkippedOlder
    with eff inv show ?thesis by (simp add: insert_effect_def)
  qed
qed

end
