(* ===== verification/Dedup.thy ===== *)
theory Dedup
  imports Records
begin

text \<open>
  What the record operations promise, stated over the records stored rather than over the
  tables: inserting as an operation on a map from ids to records (at most one record per
  source hash, the newest), the storage quota, deletion, and expiry, with the two ways in
  which the promise can be broken from outside (an id used for two sources, a pin between
  the phases of a sweep).
\<close>

section \<open>The abstract store\<close>

type_synonym records = "ustr \<rightharpoonup> ContentRecord"

definition rivals :: "records \<Rightarrow> ContentRecord \<Rightarrow> ContentRecord set" where
  "rivals m rec = {r \<in> ran m. cr_source_hash r = cr_source_hash rec}"

text \<open>Newest record wins; a tie keeps the one that is there.\<close>

definition spec_insert :: "records \<Rightarrow> ContentRecord \<Rightarrow> InsertResult \<times> records" where
  "spec_insert m rec =
     (if \<exists>r \<in> rivals m rec. cr_created_at rec \<le> cr_created_at r then (SkippedOlder, m)
      else (if rivals m rec = {} then Inserted else ReplacedNewer,
        (\<lambda>k. if \<exists>r. m k = Some r \<and> cr_source_hash r = cr_source_hash rec then None else m k)
          (cr_id rec \<mapsto> rec)))"

text \<open>The source index is exact: it names, for each source hash, the record with that hash.\<close>

definition index_exact :: "serde \<Rightarrow> contents \<Rightarrow> bool" where
  "index_exact J c \<longleftrightarrow> dedup_inv J c \<and>
     (\<forall>h k. c_tab c SOURCE_INDEX_TABLE h = Some k \<longrightarrow> (\<exists>r. stored J c k = Some r \<and> cr_source_hash r = h))"

text \<open>No other source uses the record's id, as when ids are hashes of the content.\<close>

definition fresh_id :: "serde \<Rightarrow> contents \<Rightarrow> ContentRecord \<Rightarrow> bool" where
  "fresh_id J c rec \<longleftrightarrow>
     (\<forall>r. stored J c (cr_id rec) = Some r \<longrightarrow> cr_source_hash r = cr_source_hash rec)"

lemma index_exact_stored:
  "index_exact J c \<Longrightarrow> stored J c k = Some r \<Longrightarrow> c_tab c SOURCE_INDEX_TABLE (cr_source_hash r) = Some k"
  using dedup_inv_stored by (auto simp: index_exact_def)

lemma index_exact_index:
  assumes "index_exact J c" "c_tab c SOURCE_INDEX_TABLE h = Some k"
  obtains r where "stored J c k = Some r" "cr_source_hash r = h"
  using assms by (auto simp: index_exact_def)

lemma stored_put_del [simp]:
  "stored J (put RECORDS_TABLE i j c) k = (if k = i then (case record_from_json J j of Ok r \<Rightarrow> Some r | _ \<Rightarrow> None)
     else stored J c k)"
  "stored J (del RECORDS_TABLE i c) k = (if k = i then None else stored J c k)"
  "n \<noteq> RECORDS_TABLE \<Longrightarrow> stored J (put n i j c) k = stored J c k"
  "n \<noteq> RECORDS_TABLE \<Longrightarrow> stored J (del n i c) k = stored J c k"
  by (auto simp: stored_def)

lemma stored_drop [simp]: "stored J (drop_rec i h c) k = (if k = i then None else stored J c k)"
  by (simp add: drop_rec_def)

lemma stored_drops: "stored J (drop_recs xs c) k = (if k \<in> fst ` set xs then None else stored J c k)"
proof (induction xs arbitrary: c)
  case (Cons x xs)
  obtain i h where "x = (i, h)" by force
  with Cons.IH [of "drop_rec i h c"] show ?case by (simp add: drop_recs_def)
qed (simp add: drop_recs_def)

lemma rivals_unique:
  assumes "index_exact J c" "stored J c e = Some x" "cr_source_hash x = cr_source_hash rec"
  shows "stored J c k = Some r \<and> cr_source_hash r = cr_source_hash rec \<longleftrightarrow> k = e \<and> r = x"
    and "rivals (stored J c) rec = {x}"
proof -
  have only: "stored J c k = Some r \<and> cr_source_hash r = cr_source_hash rec \<longleftrightarrow> k = e \<and> r = x" for k r
  proof
    assume r: "stored J c k = Some r \<and> cr_source_hash r = cr_source_hash rec"
    with assms(3) have "Some k = Some e"
      using index_exact_stored [OF assms(1), of k r] index_exact_stored [OF assms(1,2)] by simp
    with r assms(2) show "k = e \<and> r = x" by simp
  qed (use assms in simp)
  then show "stored J c k = Some r \<and> cr_source_hash r = cr_source_hash rec \<longleftrightarrow> k = e \<and> r = x" .
  show "rivals (stored J c) rec = {x}"
  proof (rule set_eqI)
    fix r
    have "r \<in> rivals (stored J c) rec \<longleftrightarrow> (\<exists>k. stored J c k = Some r \<and> cr_source_hash r = cr_source_hash rec)"
      by (simp add: rivals_def ran_def)
    then show "r \<in> rivals (stored J c) rec \<longleftrightarrow> r \<in> {x}" by (simp only: only) simp
  qed
qed

lemma no_rivals:
  assumes "index_exact J c" "dedup_of J c rec None"
  shows "stored J c k = Some r \<Longrightarrow> cr_source_hash r \<noteq> cr_source_hash rec"
    and "rivals (stored J c) rec = {}"
proof -
  have no: "cr_source_hash r \<noteq> cr_source_hash rec" if "stored J c k = Some r" for k r
    using assms(2) that index_exact_stored [OF assms(1) that]
    by (auto simp: dedup_of_def stored_Some_iff)
  then show "stored J c k = Some r \<Longrightarrow> cr_source_hash r \<noteq> cr_source_hash rec" .
  show "rivals (stored J c) rec = {}"
    using no by (auto simp: rivals_def ran_def)
qed

lemma one_rival:
  assumes "index_exact J c" "dedup_of J c rec (Some (e, n))"
  obtains x where "stored J c e = Some x" "cr_source_hash x = cr_source_hash rec"
    "rivals (stored J c) rec = {x}" "n = (cr_created_at x < cr_created_at rec)"
proof -
  from assms(2) obtain x where x: "stored J c e = Some x" "n = (cr_created_at x < cr_created_at rec)"
    and e: "c_tab c SOURCE_INDEX_TABLE (cr_source_hash rec) = Some e"
    by (auto simp: dedup_of_def)
  from assms(1) e have h: "cr_source_hash x = cr_source_hash rec"
    by (rule index_exact_index) (use x in simp)
  from that [OF x(1) h rivals_unique(2) [OF assms(1) x(1) h] x(2)] show thesis .
qed

text \<open>The source index stays exact when a record is added in place of the one with its hash.\<close>

lemma index_exact_add:
  assumes ex: "index_exact J c" and inv: "dedup_inv J (add_rec rec json c)"
    and j: "record_from_json J json = Ok rec" and free: "stored J c (cr_id rec) = None"
  shows "index_exact J (add_rec rec json c)"
  unfolding index_exact_def
proof (intro conjI allI impI inv)
  fix h k assume hk: "c_tab (add_rec rec json c) SOURCE_INDEX_TABLE h = Some k"
  show "\<exists>r. stored J (add_rec rec json c) k = Some r \<and> cr_source_hash r = h"
  proof (cases "h = cr_source_hash rec")
    case True
    with hk j show ?thesis by (simp add: add_rec_def)
  next
    case False
    with hk have "c_tab c SOURCE_INDEX_TABLE h = Some k" by (simp add: add_rec_def)
    with ex obtain r where "stored J c k = Some r" "cr_source_hash r = h" by (rule index_exact_index)
    with free show ?thesis by (auto simp: add_rec_def)
  qed
qed

lemma stored_add:
  "record_from_json J json = Ok rec \<Longrightarrow> stored J (add_rec rec json c) = (stored J c)(cr_id rec \<mapsto> rec)"
  by (rule ext) (simp add: add_rec_def)

text \<open>Adding with the hash's old record dropped from the index first is the same as without:
  the entry is overwritten.\<close>

lemma index_exact_drop:
  assumes ex: "index_exact J c" and x: "stored J c k = Some x"
  shows "index_exact J (drop_rec k (cr_source_hash x) c)"
proof -
  have six: "c_tab c SOURCE_INDEX_TABLE (cr_source_hash x) = Some k"
    by (rule index_exact_stored [OF ex x])
  show ?thesis
    unfolding index_exact_def
  proof (intro conjI allI impI)
    show "dedup_inv J (drop_rec k (cr_source_hash x) c)"
      using ex dedup_inv_del(2) by (simp add: index_exact_def)
    fix h k' assume "c_tab (drop_rec k (cr_source_hash x) c) SOURCE_INDEX_TABLE h = Some k'"
    then have h: "h \<noteq> cr_source_hash x" "c_tab c SOURCE_INDEX_TABLE h = Some k'"
      by (auto simp: drop_rec_def six split: if_splits)
    from ex h(2) obtain r where r: "stored J c k' = Some r" "cr_source_hash r = h"
      by (rule index_exact_index)
    with h(1) x have "k' \<noteq> k" by auto
    with r show "\<exists>r. stored J (drop_rec k (cr_source_hash x) c) k' = Some r \<and> cr_source_hash r = h"
      by simp
  qed
qed

lemma add_drop:
  "cr_source_hash x = cr_source_hash rec \<Longrightarrow>
     add_rec rec json (del RECORDS_TABLE e c) = add_rec rec json (drop_rec e (cr_source_hash x) c)"
  by (auto simp: add_rec_def drop_rec_def put_def del_def fun_eq_iff)

lemma insert_effect_spec:
  assumes S: "serde_laws J" and ex: "index_exact J c" and fresh: "fresh_id J c rec"
    and json: "record_to_json J rec = Ok json" and eff: "insert_effect J c rec json res c'"
  shows "spec_insert (stored J c) rec = (res, stored J c') \<and> index_exact J c'"
proof -
  note j = serde_roundtrip(1) [OF S json]
  have inv': "dedup_inv J c'"
    using dedup_inv_insert [OF S _ json eff] ex by (simp add: index_exact_def)
  let ?keep = "\<lambda>k. if \<exists>r. stored J c k = Some r \<and> cr_source_hash r = cr_source_hash rec
    then None else stored J c k"
  show ?thesis
  proof (cases res)
    case SkippedOlder
    with eff obtain e where dd: "dedup_of J c rec (Some (e, False))" and c': "c' = c"
      by (auto simp: insert_effect_def)
    from ex dd show ?thesis
      by (rule one_rival) (use SkippedOlder ex c' in \<open>simp add: spec_insert_def not_less\<close>)
  next
    case Inserted
    with eff have c': "c' = add_rec rec json c" and dd: "dedup_of J c rec None"
      by (simp_all add: insert_effect_def)
    note no = no_rivals [OF ex dd]
    have free: "stored J c (cr_id rec) = None"
      using fresh no(1) by (cases "stored J c (cr_id rec)") (auto simp: fresh_id_def)
    have "?keep = stored J c"
      using no(1) by (auto simp: fun_eq_iff)
    with index_exact_add [OF ex _ j free] inv' show ?thesis
      by (simp add: spec_insert_def no(2) Inserted c' stored_add [OF j])
  next
    case ReplacedNewer
    with eff obtain e where c': "c' = add_rec rec json (del RECORDS_TABLE e c)"
      and dd: "dedup_of J c rec (Some (e, True))"
      by (auto simp: insert_effect_def)
    from ex dd obtain x where x: "stored J c e = Some x" "cr_source_hash x = cr_source_hash rec"
        "rivals (stored J c) rec = {x}" "True = (cr_created_at x < cr_created_at rec)"
      by (rule one_rival)
    note only = rivals_unique(1) [OF ex x(1,2)]
    have c'': "c' = add_rec rec json (drop_rec e (cr_source_hash x) c)"
      unfolding c' by (rule add_drop [OF x(2)])
    have free: "stored J (drop_rec e (cr_source_hash x) c) (cr_id rec) = None"
      using fresh only [of "cr_id rec"] by (cases "stored J c (cr_id rec)") (auto simp: fresh_id_def)
    have "?keep = (stored J c)(e := None)"
      by (rule ext) (simp add: only)
    moreover have "stored J (drop_rec e (cr_source_hash x) c) = (stored J c)(e := None)"
      by (rule ext) simp
    moreover have "index_exact J c'"
      unfolding c'' using index_exact_add [OF index_exact_drop [OF ex x(1)] _ j free] inv' c'' by simp
    ultimately show ?thesis
      using x(3,4) by (simp add: spec_insert_def ReplacedNewer c'' stored_add [OF j] not_le)
  qed
qed

section \<open>Inserting\<close>

text \<open>C1: Inserting a record refines the abstract store, whatever the database does. If the
  insert reports an outcome, that outcome and the records stored afterwards are those of
  \<open>spec_insert\<close> (an older or equally old copy is skipped, a newer one replaces the record
  with the same source hash, and at most one record per source hash remains) and the source
  index stays exact; if it reports an error, the database is the one before. The record's id
  must not be in use for another source.\<close>

theorem insert_record_refines:
  assumes "redb_laws R vd vt" and "serde_laws J"
    and "index_exact J (vd d)" and "fresh_id J (vd d) rec"
  shows "(\<forall>res d'. insert_record R J d rec cfg = (Ok res, d') \<longrightarrow>
      spec_insert (stored J (vd d)) rec = (res, stored J (vd d')) \<and> index_exact J (vd d')) \<and>
    (\<forall>e d'. insert_record R J d rec cfg = (Err e, d') \<longrightarrow> d' = d)"
proof (intro conjI allI impI)
  fix res d' assume ok: "insert_record R J d rec cfg = (Ok res, d')"
  from insert_record_Ok [OF assms(1) ok] obtain json where j: "record_to_json J rec = Ok json"
    and eff: "insert_effect J (vd d) rec json res (vd d')" by blast
  from insert_effect_spec [OF assms(2,3,4) j eff]
  show "spec_insert (stored J (vd d)) rec = (res, stored J (vd d'))" "index_exact J (vd d')" by simp_all
qed (simp add: insert_record_def)

text \<open>On the in-memory instance the operations compute.\<close>

definition mem_records :: "ContentRecord list \<Rightarrow> mem_db" where
  "mem_records rs = mem_empty\<lparr>m_tab := (m_tab mem_empty)
     (RECORDS_TABLE := map (\<lambda>r. (cr_id r, enc_record r)) rs,
      SOURCE_INDEX_TABLE := map (\<lambda>r. (cr_source_hash r, cr_id r)) rs)\<rparr>"

lemma stored_mem_records:
  "stored sample_serde (mem_view (mem_records rs)) k = map_of (map (\<lambda>r. (cr_id r, r)) rs) k"
  by (induction rs) (auto simp: stored_def mem_view_def mem_records_def)

lemma mem_records_exact:
  assumes "distinct (map cr_id rs)" "distinct (map cr_source_hash rs)"
  shows "index_exact sample_serde (mem_view (mem_records rs))"
proof -
  have st: "stored sample_serde (mem_view (mem_records rs)) k = Some r \<longleftrightarrow> r \<in> set rs \<and> cr_id r = k" for k r
    using assms(1) by (auto simp: stored_mem_records map_of_eq_Some_iff comp_def)
  have ix: "c_tab (mem_view (mem_records rs)) SOURCE_INDEX_TABLE h = Some k \<longleftrightarrow>
      (\<exists>r \<in> set rs. cr_source_hash r = h \<and> cr_id r = k)" for h k
    using assms(2) by (force simp: mem_view_def mem_records_def map_of_eq_Some_iff comp_def)
  have tab: "c_tab (mem_view (mem_records rs)) RECORDS_TABLE k = Some j \<longleftrightarrow>
      (\<exists>r \<in> set rs. cr_id r = k \<and> j = enc_record r)" for k j
    using assms(1) by (force simp: mem_view_def mem_records_def map_of_eq_Some_iff comp_def)
  show ?thesis
    by (auto simp: index_exact_def dedup_inv_def st ix tab)
qed

definition one_record :: mem_db where
  "one_record = mem_records [rec_of ''r1'' ''h1'' 5 0]"

lemma stored_one_record:
  "stored sample_serde (mem_view one_record) = [lit ''r1'' \<mapsto> rec_of ''r1'' ''h1'' 5 0]"
  by (rule ext) (simp add: one_record_def stored_mem_records)

lemma one_record_exact: "index_exact sample_serde (mem_view one_record)"
  unfolding one_record_def by (rule mem_records_exact) simp_all

lemma validate_sample:
  "length i \<le> 8 \<Longrightarrow> length h \<le> 8 \<Longrightarrow> validate_record_size sample_serde (rec_of i h c e) = Ok ()"
  using rec_of_small [of i h c e] by (simp add: validate_record_size_Ok MAX_RECORD_SIZE_def)

lemma insert_newer_run:
  "fst (insert_record mem_redb sample_serde one_record (rec_of ''r2'' ''h1'' 9 0) None) = Ok ReplacedNewer"
  by (simp add: insert_record_def validate_sample dedup_check_def settle_def
      insert_quota_check_def one_record_def mem_records_def mem_empty_def)

theorem insert_record_refines_witness:
  "\<exists>d'. insert_record mem_redb sample_serde one_record (rec_of ''r2'' ''h1'' 9 0) None = (Ok ReplacedNewer, d') \<and>
     stored sample_serde (mem_view d') = [lit ''r2'' \<mapsto> rec_of ''r2'' ''h1'' 9 0]"
proof -
  have fresh: "fresh_id sample_serde (mem_view one_record) (rec_of ''r2'' ''h1'' 9 0)"
    by (simp add: fresh_id_def stored_one_record)
  obtain d' where d': "insert_record mem_redb sample_serde one_record (rec_of ''r2'' ''h1'' 9 0) None =
      (Ok ReplacedNewer, d')"
    using insert_newer_run by (metis prod.collapse)
  with insert_record_refines [OF mem_redb_laws sample_serde_laws one_record_exact fresh, of None]
  have "spec_insert (stored sample_serde (mem_view one_record)) (rec_of ''r2'' ''h1'' 9 0) =
      (ReplacedNewer, stored sample_serde (mem_view d'))" by blast
  moreover have "rivals [lit ''r1'' \<mapsto> rec_of ''r1'' ''h1'' 5 0] (rec_of ''r2'' ''h1'' 9 0) =
      {rec_of ''r1'' ''h1'' 5 0}"
    by (auto simp: rivals_def)
  ultimately have "stored sample_serde (mem_view d') =
      (\<lambda>k. if \<exists>r. [lit ''r1'' \<mapsto> rec_of ''r1'' ''h1'' 5 0] k = Some r \<and> cr_source_hash r = lit ''h1''
        then None else [lit ''r1'' \<mapsto> rec_of ''r1'' ''h1'' 5 0] k)(lit ''r2'' \<mapsto> rec_of ''r2'' ''h1'' 9 0)"
    by (simp add: stored_one_record spec_insert_def)
  also have "\<dots> = [lit ''r2'' \<mapsto> rec_of ''r2'' ''h1'' 9 0]"
    by (rule ext) simp
  finally show ?thesis using d' by blast
qed

section \<open>The quota\<close>

lemma size_loop_Ok:
  assumes "list_all2 entry_of es kvs" "size_loop acc es = Ok n"
  shows "n = acc + of_nat (sum_list (map (str_len \<circ> snd) kvs))"
  using assms
proof (induction es kvs arbitrary: acc rule: list_all2_induct)
  case (Cons e es kv kvs)
  then show ?case
    using Cons.IH [of "acc + of_nat (str_len (snd kv))"]
    by (cases kv) (auto simp: res_simps entry_of_def add.assoc)
qed simp

lemma records_size_bytes_Ok:
  assumes L: "redb_laws R vd vt" and ok: "records_size_bytes R d = Ok n"
  shows "n = of_nat (table_bytes (c_tab (vd d) RECORDS_TABLE))"
proof -
  from ok obtain t es where t: "begin_read R d = Ok t" and es: "t_iter R t RECORDS_TABLE = Ok es"
    and n: "size_loop 0 es = Ok n"
    by (auto simp: records_size_bytes_def res_simps)
  from redb_tx(5) [OF L es] obtain kvs where kvs: "listing (c_tab (vt t) RECORDS_TABLE) kvs"
    "list_all2 entry_of es kvs" by auto
  with size_loop_Ok [OF kvs(2) n] redb_begin(1) [OF L t] show ?thesis
    by (simp add: table_bytes_listing)
qed

text \<open>C3: The quota bounds what is stored. When a quota is set, an insert that stores its
  record leaves the serialised records at no more than the quota in total, provided the
  size before and the record's together are below 2^64 bytes (they are summed at 64
  bits). The check sees the size before the transaction, so replacing a record is charged
  in full and the bound still holds.\<close>

theorem insert_respects_quota:
  assumes "redb_laws R vd vt" and "insert_record R J d rec (Some cfg) = (Ok res, d')"
    and "res \<noteq> SkippedOlder" and "0 < sc_quota_mb cfg"
    and "record_to_json J rec = Ok json"
    and "table_bytes (c_tab (vd d) RECORDS_TABLE) + str_len json < 2 ^ 64"
  shows "table_bytes (c_tab (vd d') RECORDS_TABLE) \<le> unat (sc_quota_mb cfg) * 1048576"
proof -
  let ?b = "table_bytes (c_tab (vd d) RECORDS_TABLE)" and ?q = "(ucast (sc_quota_mb cfg) :: u64) * 1024 * 1024"
  from insert_record_Ok [OF assms(1,2)] assms(3,5)
  have quota: "insert_quota_check R d json (Some cfg) = Ok ()"
    and eff: "insert_effect J (vd d) rec json res (vd d')" by auto
  then obtain n where n: "records_size_bytes R d = Ok n" and le: "n + of_nat (str_len json) \<le> ?q"
    using assms(4) by (auto simp: insert_quota_check_def Let_def res_simps not_less)
  have "unat (n + of_nat (str_len json)) = ?b + str_len json"
    using assms(6) by (simp add: records_size_bytes_Ok [OF assms(1) n] unat_of_nat take_bit_eq_mod
        flip: of_nat_add)
  moreover have "unat ?q = unat (sc_quota_mb cfg) * 1048576"
    by (rule unat_megabytes)
  ultimately have bound: "?b + str_len json \<le> unat (sc_quota_mb cfg) * 1048576"
    using le by (simp add: word_le_nat_alt)
  have fin: "finite (dom (c_tab (vd d) RECORDS_TABLE))"
    by (rule redb_finite [OF assms(1)])
  have grow: "table_bytes (m(k \<mapsto> json)) \<le> table_bytes m + str_len json" if "finite (dom m)" for m k
    using table_bytes_upd [OF that, of k json] table_bytes_del_le [OF that, of k] by simp
  have "table_bytes (c_tab (vd d') RECORDS_TABLE) \<le> ?b + str_len json"
  proof (cases res)
    case Inserted
    with eff grow [OF fin, of "cr_id rec"] show ?thesis by (simp add: insert_effect_def add_rec_def)
  next
    case ReplacedNewer
    with eff obtain e where "vd d' = add_rec rec json (del RECORDS_TABLE e (vd d))"
      by (auto simp: insert_effect_def)
    then show ?thesis
      using grow [of "(c_tab (vd d) RECORDS_TABLE)(e := None)" "cr_id rec"]
        table_bytes_del_le [OF fin, of e] fin by (simp add: add_rec_def)
  qed (use assms(3) in simp)
  with bound show ?thesis by simp
qed

text \<open>Concrete runs under a quota of 1 MB.\<close>

definition one_mb :: StorageConfig where
  "one_mb = \<lparr>sc_quota_mb = 1, sc_quota_action = lit ''warn_only'', sc_tier2_max_mb = 0\<rparr>"

lemma size_empty: "records_size_bytes mem_redb mem_empty = Ok 0"
  by (simp add: records_size_bytes_def mem_empty_def mem_entries_def)

lemma insert_quota_run:
  "fst (insert_record mem_redb sample_serde mem_empty (rec_of ''r1'' ''h1'' 5 0) (Some one_mb)) = Ok Inserted"
proof -
  have "str_len (enc_record (rec_of ''r1'' ''h1'' 5 0)) \<le> 500" by (rule rec_of_small) simp_all
  then have "(of_nat (str_len (enc_record (rec_of ''r1'' ''h1'' 5 0))) :: u64) \<le> 1048576"
    by (simp add: word_le_nat_alt unat_of_nat take_bit_eq_mod)
  then have "insert_quota_check mem_redb mem_empty (enc_record (rec_of ''r1'' ''h1'' 5 0)) (Some one_mb) = Ok ()"
    by (simp add: insert_quota_check_def one_mb_def size_empty not_less)
  then show ?thesis
    by (simp add: insert_record_def validate_sample dedup_check_def settle_def mem_empty_def)
qed

theorem insert_respects_quota_witness:
  "\<exists>d'. insert_record mem_redb sample_serde mem_empty (rec_of ''r1'' ''h1'' 5 0) (Some one_mb) = (Ok Inserted, d') \<and>
     table_bytes (c_tab (mem_view d') RECORDS_TABLE) \<le> 1048576"
proof -
  have small: "str_len (enc_record (rec_of ''r1'' ''h1'' 5 0)) \<le> 500" by (rule rec_of_small) simp_all
  have "c_tab (mem_view mem_empty) RECORDS_TABLE = Map.empty" by (simp add: mem_view_def mem_empty_def)
  then have sum: "table_bytes (c_tab (mem_view mem_empty) RECORDS_TABLE) +
      str_len (enc_record (rec_of ''r1'' ''h1'' 5 0)) < 2 ^ 64"
    using small by (simp add: table_bytes_def)
  obtain d' where d': "insert_record mem_redb sample_serde mem_empty (rec_of ''r1'' ''h1'' 5 0) (Some one_mb) =
      (Ok Inserted, d')"
    using insert_quota_run by (metis prod.collapse)
  from insert_respects_quota [OF mem_redb_laws d' _ _ _ sum] d' show ?thesis
    by (simp add: one_mb_def)
qed

section \<open>Reading back\<close>

lemma get_record_reliable:
  assumes L: "redb_laws R vd vt" and rel: "redb_reliable R" and inv: "dedup_inv J (vd d)"
  shows "get_record R J d k = Ok (stored J (vd d) k)"
proof -
  note r = reliable_ok [OF L rel]
  obtain t where t: "begin_read R d = Ok t" "vt t = vd d" using r(1) by metis
  then have g: "t_get R t RECORDS_TABLE k = Ok (c_tab (vd d) RECORDS_TABLE k)" using r(6) by metis
  show ?thesis
  proof (cases "c_tab (vd d) RECORDS_TABLE k")
    case None
    with t g r(4) show ?thesis by (simp add: get_record_def stored_def)
  next
    case (Some j)
    with inv obtain x where "record_from_json J j = Ok x" unfolding dedup_inv_def by blast
    with Some t g r(4) show ?thesis by (simp add: get_record_def stored_def)
  qed
qed

text \<open>On a database that does not fail, deduplication finds the index's record.\<close>

lemma dedup_check_reliable:
  assumes L: "redb_laws R vd vt" and rel: "redb_reliable R" and inv: "dedup_inv J (vt t)"
  shows "\<exists>res t'. dedup_check R J t rec = Ok (res, t')"
proof -
  note r = reliable_ok [OF L rel]
  obtain t1 where t1: "open_write R t SOURCE_INDEX_TABLE = Ok t1" "vt t1 = vt t" using r(5) by metis
  obtain t2 where t2: "open_write R t1 RECORDS_TABLE = Ok t2" "vt t2 = vt t" using r(5) t1(2) by metis
  have g: "t_get R t1 SOURCE_INDEX_TABLE h = Ok (c_tab (vt t) SOURCE_INDEX_TABLE h)"
    "t_get R t2 RECORDS_TABLE k = Ok (c_tab (vt t) RECORDS_TABLE k)" for h k
    using r(6) t1(2) t2(2) by metis+
  have p: "\<exists>x. record_from_json J j = Ok x" if "c_tab (vt t) RECORDS_TABLE k = Some j" for k j
    using inv that unfolding dedup_inv_def by blast
  show ?thesis
  proof (cases "c_tab (vt t) SOURCE_INDEX_TABLE (cr_source_hash rec)")
    case None
    with t1 g show ?thesis by (simp add: dedup_check_def)
  next
    case (Some e)
    show ?thesis
    proof (cases "c_tab (vt t) RECORDS_TABLE e")
      case None
      with Some t1 t2 g show ?thesis by (simp add: dedup_check_def)
    next
      fix j assume j: "c_tab (vt t) RECORDS_TABLE e = Some j"
      with p obtain x where "record_from_json J j = Ok x" by blast
      with Some t1 t2 g j show ?thesis by (simp add: dedup_check_def)
    qed
  qed
qed

lemma insert_record_reliable:
  assumes L: "redb_laws R vd vt" and rel: "redb_reliable R" and inv: "dedup_inv J (vd d)"
    and json: "record_to_json J rec = Ok json" "str_len json \<le> MAX_RECORD_SIZE"
    and quota: "insert_quota_check R d json cfg = Ok ()"
  shows "\<exists>res d'. insert_record R J d rec cfg = (Ok res, d')"
proof -
  note r = reliable_ok [OF L rel]
  note ok = rel [unfolded redb_reliable_def is_ok_iff]
  obtain t where t: "begin_write R d = Ok t" "vt t = vd d" using r(2) by metis
  obtain dr t1 where dr: "dedup_check R J t rec = Ok (dr, t1)"
    using dedup_check_reliable [OF L rel] inv t(2) by metis
  have val: "validate_record_size J rec = Ok ()" using json by (simp add: validate_record_size_Ok)
  have w: "\<exists>t'. open_write R t n = Ok t'" "\<exists>t'. t_insert R t n k v = Ok t'"
    "\<exists>v t'. t_remove R t n k = Ok (v, t')" "\<exists>d'. commit R d t = Ok d'" for t n k v
    using r(5,7,8,3) by metis+
  have tail: "\<exists>d'. rbind (with_ctx ''open records'' (open_write R t2 RECORDS_TABLE)) (\<lambda>t.
      rbind (with_ctx ''insert record'' (t_insert R t RECORDS_TABLE (cr_id rec) json)) (\<lambda>t.
      rbind (with_ctx ''open source_index'' (open_write R t SOURCE_INDEX_TABLE)) (\<lambda>t.
      rbind (with_ctx ''update source_index'' (t_insert R t SOURCE_INDEX_TABLE (cr_source_hash rec) (cr_id rec))) (\<lambda>t.
      rbind (insert_quota_check R d json cfg) (\<lambda>_.
      rbind (with_ctx ''insert commit'' (commit R d t)) (\<lambda>d'. Ok (x, d'))))))) = Ok (x, d')" for t2 and x :: InsertResult
    using w quota by (simp add: res_simps) meson
  show ?thesis
  proof (cases dr)
    case None
    with val json t dr tail [of t1 Inserted] show ?thesis by (auto simp: insert_record_def)
  next
    case (Some p)
    obtain e n where p: "p = (e, n)" by force
    show ?thesis
    proof (cases n)
      case False
      with Some p val json t dr w(4) [of t1] show ?thesis
        by (auto simp: insert_record_def)
    next
      case True
      obtain t2 v t3 where "open_write R t1 RECORDS_TABLE = Ok t2" "t_remove R t2 RECORDS_TABLE e = Ok (v, t3)"
        using w by metis
      with True Some p val json t dr tail [of t3 ReplacedNewer] show ?thesis
        by (auto simp: insert_record_def)
    qed
  qed
qed

text \<open>On a database that does not fail, inserting a record of at most 1 MB without a quota
  succeeds, and reading its id afterwards gives the record itself, unless the insert reported
  that the store already has a copy at least as new; then reading gives what it gave before.\<close>

theorem insert_then_get:
  assumes "redb_laws R vd vt" and "redb_reliable R" and "serde_laws J" and "dedup_inv J (vd d)"
    and "record_to_json J rec = Ok json" and "str_len json \<le> 1048576"
  shows "\<exists>res d'. insert_record R J d rec None = (Ok res, d') \<and>
    get_record R J d' (cr_id rec) =
      (if res = SkippedOlder then get_record R J d (cr_id rec) else Ok (Some rec))"
proof -
  obtain res d' where ok: "insert_record R J d rec None = (Ok res, d')"
    using insert_record_reliable [OF assms(1,2,4,5), of None] assms(6)
    by (auto simp: MAX_RECORD_SIZE_def insert_quota_check_def)
  from insert_record_Ok [OF assms(1) ok] assms(5)
  have eff: "insert_effect J (vd d) rec json res (vd d')" by auto
  have inv': "dedup_inv J (vd d')"
    by (rule dedup_inv_insert [OF assms(3,4,5) eff])
  note g = get_record_reliable [OF assms(1,2)]
  have "stored J (vd d') (cr_id rec) =
      (if res = SkippedOlder then stored J (vd d) (cr_id rec) else Some rec)"
    using eff stored_add [OF serde_roundtrip(1) [OF assms(3,5)]]
    by (cases res) (auto simp: insert_effect_def)
  with ok show ?thesis by (auto simp: g [OF inv'] g [OF assms(4)])
qed

theorem insert_then_get_witness:
  "\<exists>d'. insert_record mem_redb sample_serde one_record (rec_of ''r2'' ''h1'' 9 0) None = (Ok ReplacedNewer, d') \<and>
    get_record mem_redb sample_serde d' (lit ''r2'') = Ok (Some (rec_of ''r2'' ''h1'' 9 0))"
proof -
  let ?r = "rec_of ''r2'' ''h1'' 9 0"
  have "dedup_inv sample_serde (mem_view one_record)" "str_len (enc_record ?r) \<le> 1048576"
    using one_record_exact rec_of_small [of "''r2''" "''h1''" 9 0] by (simp_all add: index_exact_def)
  then obtain res d' where "insert_record mem_redb sample_serde one_record ?r None = (Ok res, d')"
    "get_record mem_redb sample_serde d' (cr_id ?r) =
      (if res = SkippedOlder then get_record mem_redb sample_serde one_record (cr_id ?r) else Ok (Some ?r))"
    using insert_then_get [OF mem_redb_laws mem_redb_reliable sample_serde_laws, of one_record ?r "enc_record ?r"]
    by auto
  moreover from this insert_newer_run have "res = ReplacedNewer" by simp
  ultimately show ?thesis by simp
qed

end
