(* ===== verification/Expiry.thy ===== *)
theory Expiry
  imports Dedup
begin

text \<open>
  Deletion, pinning and expiry (\<^verbatim>\<open>src/src/storage/records.rs\<close>, \<^verbatim>\<open>src/src/storage/expiry.rs\<close>):
  what is removed, that pins protect, and what happens when a pin arrives between the two
  phases of a sweep.
\<close>

section \<open>A sweep\<close>

text \<open>One pass, with the time it reads (\<^verbatim>\<open>sweep_once\<close>); and the background task's pass, which
  goes on to the announcements after an error.\<close>

definition sweep_once :: "('d, 't) redb \<Rightarrow> serde \<Rightarrow> 'd \<Rightarrow> u64 \<Rightarrow> (nat \<times> nat, ustr) result \<times> 'd" where
  "sweep_once R J d now = (case delete_expired_records R J d now of
     (Ok records_removed, d) \<Rightarrow>
       (case delete_expired_announcements R J d now of
          (Ok announcements_removed, d) \<Rightarrow> (Ok (records_removed, announcements_removed), d)
        | (Err e, d) \<Rightarrow> (Err e, d) | (Panic, d) \<Rightarrow> (Panic, d))
   | (Err e, d) \<Rightarrow> (Err e, d) | (Panic, d) \<Rightarrow> (Panic, d))"

definition sweeper_tick :: "('d, 't) redb \<Rightarrow> serde \<Rightarrow> 'd \<Rightarrow> u64 \<Rightarrow> 'd" where
  "sweeper_tick R J d now = (case delete_expired_records R J d now of
     (Panic, d) \<Rightarrow> d
   | (_, d) \<Rightarrow> snd (delete_expired_announcements R J d now))"

section \<open>What the operations do to the contents\<close>

lemma delete_record_Ok:
  assumes L: "redb_laws R vd vt" and ok: "delete_record R J d k = (Ok b, d')"
  shows "if b then \<exists>r c. stored J (vd d) k = Some r \<and>
      (c = drop_rec k (cr_source_hash r) (vd d) \<or> c = del RECORDS_TABLE k (vd d)) \<and>
      vd d' = del PINS_TABLE k c
    else d' = d \<and> c_tab (vd d) RECORDS_TABLE k = None"
proof -
  from ok obtain rt v where rt: "begin_read R d = Ok rt" and v: "t_get R rt RECORDS_TABLE k = Ok v"
    by (auto simp: delete_record_def res_simps)
  have cv: "c_tab (vd d) RECORDS_TABLE k = v"
    using redb_begin(1) [OF L rt] redb_tx(2) [OF L v] by simp
  show ?thesis
  proof (cases v)
    case None
    with ok rt v cv show ?thesis by (auto simp: delete_record_def res_simps)
  next
    case (Some j)
    with ok rt v obtain r t t1 t2 w t3 where r: "record_from_json J j = Ok r" and b: "b"
      and t: "begin_write R d = Ok t"
      and t1: "remove_indexed R (''open records for delete'', ''remove record'',
               ''open source_index for delete check'', ''reopen source_index for delete'',
               ''remove source_index'') t k (cr_source_hash r) = Ok t1"
      and t2: "open_write R t1 PINS_TABLE = Ok t2" and t3: "t_remove R t2 PINS_TABLE k = Ok (w, t3)"
      and d': "commit R d t3 = Ok d'"
      by (auto simp: delete_record_def res_simps)
    have "vd d' = del PINS_TABLE k (vt t1)"
      using redb_tx(1) [OF L t2] redb_tx(4) [OF L t3] redb_begin(3) [OF L d'] by simp
    moreover have "stored J (vd d) k = Some r" using cv Some r by (simp add: stored_def)
    moreover note remove_indexed_Ok [OF L t1] redb_begin(2) [OF L t]
    ultimately show ?thesis using b by auto
  qed
qed

lemma pin_record_Ok:
  assumes L: "redb_laws R vd vt" and ok: "pin_record R d now k = (Ok b, d')"
  shows "b = (c_tab (vd d) RECORDS_TABLE k \<noteq> None) \<and>
    vd d' = (if b then put PINS_TABLE k (to_dec (unat now)) (vd d) else vd d)"
proof -
  from ok obtain rt v where rt: "begin_read R d = Ok rt" and v: "t_get R rt RECORDS_TABLE k = Ok v"
    by (auto simp: pin_record_def res_simps)
  have cv: "c_tab (vd d) RECORDS_TABLE k = v"
    using redb_begin(1) [OF L rt] redb_tx(2) [OF L v] by simp
  show ?thesis
    using ok rt v cv by (cases v) (auto simp: pin_record_def res_simps dest!: redb_steps [OF L])
qed

lemma unpin_record_Ok:
  assumes L: "redb_laws R vd vt" and ok: "unpin_record R d k = (Ok b, d')"
  shows "b = (c_tab (vd d) PINS_TABLE k \<noteq> None) \<and> vd d' = del PINS_TABLE k (vd d)"
  using ok by (auto simp: unpin_record_def res_simps dest!: redb_steps [OF L])

lemma insert_announcement_Ok:
  assumes L: "redb_laws R vd vt" and ok: "insert_announcement R J d ann = (Ok u, d')"
  shows "\<exists>json. ann_to_json J ann = Ok json \<and> str_len json \<le> MAX_ANNOUNCEMENT_SIZE \<and>
    vd d' = put ANNOUNCEMENTS_TABLE (an_record_id ann @ [58] @ an_holder_addr ann) json (vd d)"
  using ok by (auto simp: insert_announcement_def res_simps Let_def validate_announcement_size_Ok
      dest!: redb_steps [OF L])

lemma remove_keys_Ok:
  assumes L: "redb_laws R vd vt" and ok: "remove_keys R n ctx t ks = Ok t'"
  shows "vt t' = fold (del n) ks (vt t)"
  using ok by (induction ks arbitrary: t) (auto simp: res_simps dest!: redb_tx(4) [OF L])

lemma remove_all_inv:
  assumes L: "redb_laws R vd vt" and inv: "dedup_inv J (vt t)" and ok: "remove_all R ctx t xs = Ok t'"
  shows "dedup_inv J (vt t') \<and> c_tab (vt t') PINS_TABLE = c_tab (vt t) PINS_TABLE"
  using inv ok
proof (induction xs arbitrary: t)
  case (Cons x xs)
  obtain k h where x: "x = (k, h)" by force
  with Cons.prems obtain t1 where t1: "remove_indexed R ctx t k h = Ok t1" "remove_all R ctx t1 xs = Ok t'"
    by (auto simp: res_simps)
  from remove_indexed_Ok [OF L t1(1)] Cons.prems(1)
  have "dedup_inv J (vt t1)" "c_tab (vt t1) PINS_TABLE = c_tab (vt t) PINS_TABLE"
    using dedup_inv_del(1,2) by (auto simp: drop_rec_def)
  with Cons.IH t1(2) show ?case by metis
qed simp

text \<open>Every operation of this file and of \<open>Records\<close> keeps the deduplication invariant, on
  any database and whatever fails.\<close>

lemma settled_ops [simp]:
  "settled d (insert_record R J d rec cfg)" "settled d (delete_record R J d k)"
  "settled d (pin_record R d now k)" "settled d (unpin_record R d k)"
  "settled d (insert_announcement R J d ann)" "settled d (expired_delete R d xs)"
  "settled d (delete_expired_announcements R J d now)"
  by (simp_all only: insert_record_def delete_record_def pin_record_def unpin_record_def
      insert_announcement_def expired_delete_def delete_expired_announcements_def settled_settle)

lemma insert_record_inv:
  assumes L: "redb_laws R vd vt" and S: "serde_laws J" and inv: "dedup_inv J (vd d)"
  shows "dedup_inv J (vd (snd (insert_record R J d rec cfg)))"
proof (rule settled_keeps [where P = "\<lambda>d. dedup_inv J (vd d)", OF settled_ops(1) inv])
  fix res d' assume "insert_record R J d rec cfg = (Ok res, d')"
  from insert_record_Ok [OF L this] show "dedup_inv J (vd d')"
    using dedup_inv_insert [OF S inv] by metis
qed

lemma delete_record_inv:
  assumes L: "redb_laws R vd vt" and inv: "dedup_inv J (vd d)"
  shows "dedup_inv J (vd (snd (delete_record R J d k)))"
proof (rule settled_keeps [where P = "\<lambda>d. dedup_inv J (vd d)", OF settled_ops(2) inv])
  fix b d' assume ok: "delete_record R J d k = (Ok b, d')"
  have pins: "dedup_inv J c \<Longrightarrow> dedup_inv J (del PINS_TABLE k c)" for c
    by (rule dedup_inv_del(4)) simp_all
  show "dedup_inv J (vd d')"
    using delete_record_Ok [OF L ok] pins dedup_inv_del(1,2) [OF inv] inv
    by (cases b) auto
qed

lemma pin_record_inv:
  assumes L: "redb_laws R vd vt" and inv: "dedup_inv J (vd d)"
  shows "dedup_inv J (vd (snd (pin_record R d now k)))"
proof (rule settled_keeps [where P = "\<lambda>d. dedup_inv J (vd d)", OF settled_ops(3) inv])
  fix b d' assume "pin_record R d now k = (Ok b, d')"
  from pin_record_Ok [OF L this] inv dedup_inv_del(3) [OF inv, of PINS_TABLE]
  show "dedup_inv J (vd d')" by simp
qed

lemma unpin_record_inv:
  assumes L: "redb_laws R vd vt" and inv: "dedup_inv J (vd d)"
  shows "dedup_inv J (vd (snd (unpin_record R d k)))"
proof (rule settled_keeps [where P = "\<lambda>d. dedup_inv J (vd d)", OF settled_ops(4) inv])
  fix b d' assume "unpin_record R d k = (Ok b, d')"
  from unpin_record_Ok [OF L this] dedup_inv_del(4) [OF inv, of PINS_TABLE]
  show "dedup_inv J (vd d')" by simp
qed

lemma insert_announcement_inv:
  assumes L: "redb_laws R vd vt" and inv: "dedup_inv J (vd d)"
  shows "dedup_inv J (vd (snd (insert_announcement R J d ann)))"
proof (rule settled_keeps [where P = "\<lambda>d. dedup_inv J (vd d)", OF settled_ops(5) inv])
  fix u d' assume "insert_announcement R J d ann = (Ok u, d')"
  from insert_announcement_Ok [OF L this] dedup_inv_del(3) [OF inv, of ANNOUNCEMENTS_TABLE]
  show "dedup_inv J (vd d')" by auto
qed

lemma expired_delete_Ok:
  assumes L: "redb_laws R vd vt" and ok: "expired_delete R d xs = (Ok n, d')"
  shows "\<exists>ctx t t'. vt t = vd d \<and> remove_all R ctx t xs = Ok t' \<and> vd d' = vt t' \<and> n = length xs"
proof -
  from ok obtain t t' where "begin_write R d = Ok t"
    "remove_all R (''open records for expiry delete'', ''remove expired record'',
         ''open source_index for expiry check'', ''reopen source_index for expiry delete'',
         ''remove source_index for expiry'') t xs = Ok t'" "n = length xs" "commit R d t' = Ok d'"
    by (auto simp: expired_delete_def res_simps)
  with redb_begin [OF L] show ?thesis by metis
qed

lemma expired_delete_inv:
  assumes L: "redb_laws R vd vt" and inv: "dedup_inv J (vd d)"
  shows "dedup_inv J (vd (snd (expired_delete R d xs)))"
proof (rule settled_keeps [where P = "\<lambda>d. dedup_inv J (vd d)", OF settled_ops(6) inv])
  fix n d' assume "expired_delete R d xs = (Ok n, d')"
  from expired_delete_Ok [OF L this] show "dedup_inv J (vd d')"
    using remove_all_inv [OF L] inv by metis
qed

lemma delete_expired_records_inv:
  assumes L: "redb_laws R vd vt" and inv: "dedup_inv J (vd d)"
  shows "dedup_inv J (vd (snd (delete_expired_records R J d now)))"
  using expired_delete_inv [OF L inv] inv
  by (auto simp: delete_expired_records_def split: result.splits)

lemma dedup_inv_del_anns:
  "dedup_inv J c \<Longrightarrow> dedup_inv J (fold (del ANNOUNCEMENTS_TABLE) ks c)"
  by (induction ks arbitrary: c) (auto intro: dedup_inv_del(4))

lemma delete_expired_announcements_Ok:
  assumes L: "redb_laws R vd vt" and ok: "delete_expired_announcements R J d now = (Ok n, d')"
  shows "\<exists>ks. vd d' = fold (del ANNOUNCEMENTS_TABLE) ks (vd d)"
proof -
  from ok obtain ks where "d' = d \<or> (\<exists>t t1 t2. begin_write R d = Ok t \<and>
      open_write R t ANNOUNCEMENTS_TABLE = Ok t1 \<and>
      remove_keys R ANNOUNCEMENTS_TABLE ''remove expired announcement'' t1 ks = Ok t2 \<and> commit R d t2 = Ok d')"
    by (auto simp: delete_expired_announcements_def res_simps split: if_splits)
  then consider "d' = d" | t t1 t2 where "begin_write R d = Ok t" "open_write R t ANNOUNCEMENTS_TABLE = Ok t1"
      "remove_keys R ANNOUNCEMENTS_TABLE ''remove expired announcement'' t1 ks = Ok t2" "commit R d t2 = Ok d'"
    by metis
  then show ?thesis
  proof cases
    case 1
    then show ?thesis by (intro exI [of _ "[]"]) simp
  next
    case 2
    with redb_begin [OF L] redb_tx(1) [OF L] remove_keys_Ok [OF L 2(3)] show ?thesis by metis
  qed
qed

lemma delete_expired_announcements_inv:
  assumes L: "redb_laws R vd vt" and inv: "dedup_inv J (vd d)"
  shows "dedup_inv J (vd (snd (delete_expired_announcements R J d now)))"
proof (rule settled_keeps [where P = "\<lambda>d. dedup_inv J (vd d)", OF settled_ops(7) inv])
  fix n d' assume "delete_expired_announcements R J d now = (Ok n, d')"
  from delete_expired_announcements_Ok [OF L this] show "dedup_inv J (vd d')"
    using dedup_inv_del_anns [OF inv] by auto
qed

lemma sweeper_tick_inv:
  assumes L: "redb_laws R vd vt" and inv: "dedup_inv J (vd d)"
  shows "dedup_inv J (vd (sweeper_tick R J d now))"
  using delete_expired_records_inv [OF L inv, of now]
    delete_expired_announcements_inv [OF L delete_expired_records_inv [OF L inv, of now], of now]
  by (auto simp: sweeper_tick_def split: prod.splits result.splits)

section \<open>What a sweep removes\<close>

definition is_expired :: "u64 \<Rightarrow> ContentRecord \<Rightarrow> bool" where
  "is_expired now r \<longleftrightarrow> 0 < cr_expires_at r \<and> cr_expires_at r < now"

definition parsed :: "serde \<Rightarrow> ustr \<Rightarrow> ContentRecord" where
  "parsed J j = (case record_from_json J j of Ok r \<Rightarrow> r)"

lemma stored_parsed:
  "dedup_inv J c \<Longrightarrow> c_tab c RECORDS_TABLE k = Some j \<Longrightarrow>
     record_from_json J j = Ok (parsed J j) \<and> stored J c k = Some (parsed J j)"
  by (force simp: dedup_inv_def parsed_def stored_Some_iff)

lemma expired_loop_reliable:
  assumes "\<And>k j. (k, j) \<in> set kvs \<Longrightarrow> record_from_json J j = Ok (parsed J j)"
  shows "expired_loop R J t now acc (map Ok kvs) =
    Ok (acc @ map (\<lambda>(k, j). (k, cr_source_hash (parsed J j)))
      (filter (\<lambda>(k, j). is_expired now (parsed J j) \<and> \<not> seems_pinned R t k) kvs))"
  using assms
proof (induction kvs arbitrary: acc)
  case (Cons kv kvs)
  obtain k j where kv: "kv = (k, j)" by force
  have "record_from_json J j = Ok (parsed J j)" using Cons.prems [of k j] by (simp add: kv)
  moreover have "expired_loop R J t now acc' (map Ok kvs) =
      Ok (acc' @ map (\<lambda>(k, j). (k, cr_source_hash (parsed J j)))
        (filter (\<lambda>(k, j). is_expired now (parsed J j) \<and> \<not> seems_pinned R t k) kvs))" for acc'
    by (rule Cons.IH) (use Cons.prems in auto)
  ultimately show ?case by (simp add: kv is_expired_def)
qed simp

lemma seems_pinned_reliable:
  "redb_laws R vd vt \<Longrightarrow> redb_reliable R \<Longrightarrow> seems_pinned R t k \<longleftrightarrow> c_tab (vt t) PINS_TABLE k \<noteq> None"
  using reliable_ok(6) [of R vd vt] by (auto simp: seems_pinned_def)

text \<open>The keys an expiry scan collects.\<close>

definition expired_keys :: "serde \<Rightarrow> u64 \<Rightarrow> contents \<Rightarrow> ustr set" where
  "expired_keys J now c = {k. \<exists>r. stored J c k = Some r \<and> is_expired now r \<and> c_tab c PINS_TABLE k = None}"

lemma expired_scan_reliable:
  assumes L: "redb_laws R vd vt" and rel: "redb_reliable R" and inv: "dedup_inv J (vd d)"
  obtains xs where "expired_scan R J d now = Ok xs" "distinct (map fst xs)"
    "fst ` set xs = expired_keys J now (vd d)"
    "\<And>k h. (k, h) \<in> set xs \<Longrightarrow> \<exists>r. stored J (vd d) k = Some r \<and> cr_source_hash r = h"
proof -
  note r = reliable_ok [OF L rel]
  obtain t where t: "begin_read R d = Ok t" "vt t = vd d" using r(1) by metis
  obtain kvs where es: "t_iter R t RECORDS_TABLE = Ok (map Ok kvs)"
    and kvs: "listing (c_tab (vd d) RECORDS_TABLE) kvs" using r(9) t(2) by metis
  have mem: "record_from_json J j = Ok (parsed J j) \<and> stored J (vd d) k = Some (parsed J j)"
    if "(k, j) \<in> set kvs" for k j
    using that listing_mem [OF kvs] stored_parsed [OF inv] by simp
  define keep where "keep = filter (\<lambda>(k, j). is_expired now (parsed J j) \<and> c_tab (vd d) PINS_TABLE k = None) kvs"
  define xs where "xs = map (\<lambda>(k, j). (k, cr_source_hash (parsed J j))) keep"
  have loop: "expired_loop R J t now [] (map Ok kvs) = Ok xs"
    using expired_loop_reliable [of kvs J R t now "[]"] mem
    by (simp add: xs_def keep_def seems_pinned_reliable [OF L rel] t(2))
  have scan: "expired_scan R J d now = Ok xs"
    using t(1) es r(4) loop by (simp add: expired_scan_def)
  have fsts: "map fst xs = map fst keep" by (simp add: xs_def case_prod_unfold)
  have dist: "distinct (map fst xs)"
    using listing_distinct [OF kvs] by (simp add: fsts keep_def distinct_map_filter)
  have mem_keep: "(k, j) \<in> set keep \<longleftrightarrow> c_tab (vd d) RECORDS_TABLE k = Some j \<and>
      is_expired now (parsed J j) \<and> c_tab (vd d) PINS_TABLE k = None" for k j
    using listing_mem [OF kvs] by (auto simp: keep_def)
  have keys: "fst ` set xs = expired_keys J now (vd d)"
  proof (rule set_eqI)
    fix k
    have "k \<in> fst ` set xs \<longleftrightarrow> (\<exists>j. (k, j) \<in> set keep)"
      by (force simp: xs_def)
    also have "\<dots> \<longleftrightarrow> k \<in> expired_keys J now (vd d)"
      using stored_parsed [OF inv, of k] by (auto simp: mem_keep expired_keys_def stored_Some_iff)
    finally show "k \<in> fst ` set xs \<longleftrightarrow> k \<in> expired_keys J now (vd d)" .
  qed
  have hash: "\<exists>r. stored J (vd d) k = Some r \<and> cr_source_hash r = h" if "(k, h) \<in> set xs" for k h
    using that mem by (auto simp: xs_def keep_def)
  from that [OF scan dist keys hash] show thesis .
qed

lemma expired_delete_reliable:
  assumes L: "redb_laws R vd vt" and rel: "redb_reliable R"
  obtains d' where "expired_delete R d xs = (Ok (length xs), d')" "vd d' = drop_recs xs (vd d)"
proof -
  note r = reliable_ok [OF L rel]
  obtain t where t: "begin_write R d = Ok t" "vt t = vd d" using r(2) by metis
  obtain t' where t': "remove_all R (''open records for expiry delete'', ''remove expired record'',
         ''open source_index for expiry check'', ''reopen source_index for expiry delete'',
         ''remove source_index for expiry'') t xs = Ok t'" "vt t' = drop_recs xs (vd d)"
    using remove_all_reliable [OF L rel] t(2) by metis
  obtain d' where "commit R d t' = Ok d'" "vd d' = drop_recs xs (vd d)" using r(3) t'(2) by metis
  with that t t' show thesis by (simp add: expired_delete_def)
qed

lemma drop_recs_other: "n \<noteq> RECORDS_TABLE \<Longrightarrow> n \<noteq> SOURCE_INDEX_TABLE \<Longrightarrow> c_tab (drop_recs xs c) n = c_tab c n"
proof (induction xs arbitrary: c)
  case (Cons x xs)
  then show ?case by (cases x) (simp add: drop_recs_def drop_rec_def)
qed (simp add: drop_recs_def)

lemma index_exact_drop_recs:
  assumes "index_exact J c" "distinct (map fst xs)"
    "\<And>k h. (k, h) \<in> set xs \<Longrightarrow> \<exists>r. stored J c k = Some r \<and> cr_source_hash r = h"
  shows "index_exact J (drop_recs xs c)"
  using assms
proof (induction xs arbitrary: c)
  case (Cons x xs)
  obtain k h where x: "x = (k, h)" by force
  obtain r where r: "stored J c k = Some r" "cr_source_hash r = h" using Cons.prems(3) x by auto
  have "index_exact J (drop_recs xs (drop_rec k h c))"
  proof (rule Cons.IH)
    show "index_exact J (drop_rec k h c)"
      using index_exact_drop [OF Cons.prems(1) r(1)] r(2) by simp
    show "distinct (map fst xs)" using Cons.prems(2) by simp
    fix k' h' assume kh: "(k', h') \<in> set xs"
    with Cons.prems(2) x have "k' \<noteq> k" by force
    with Cons.prems(3) kh show "\<exists>r. stored J (drop_rec k h c) k' = Some r \<and> cr_source_hash r = h'" by simp
  qed
  then show ?case by (simp add: x drop_recs_def)
qed (simp add: drop_recs_def)

lemma delete_expired_reliable:
  assumes "redb_laws R vd vt" and "redb_reliable R" and "index_exact J (vd d)"
  shows "\<exists>d'. delete_expired_records R J d now = (Ok (card (expired_keys J now (vd d))), d') \<and>
    stored J (vd d') = (\<lambda>k. if k \<in> expired_keys J now (vd d) then None else stored J (vd d) k) \<and>
    c_tab (vd d') PINS_TABLE = c_tab (vd d) PINS_TABLE \<and> index_exact J (vd d')"
proof -
  have inv: "dedup_inv J (vd d)" using assms(3) by (simp add: index_exact_def)
  obtain xs where xs: "expired_scan R J d now = Ok xs" "distinct (map fst xs)"
      "fst ` set xs = expired_keys J now (vd d)"
      "\<And>k h. (k, h) \<in> set xs \<Longrightarrow> \<exists>r. stored J (vd d) k = Some r \<and> cr_source_hash r = h"
    using expired_scan_reliable [OF assms(1,2) inv] by blast
  have n: "length xs = card (expired_keys J now (vd d))"
    using distinct_card [OF xs(2)] xs(3) by simp
  obtain d' where d': "expired_delete R d xs = (Ok (length xs), d')" "vd d' = drop_recs xs (vd d)"
    using expired_delete_reliable [OF assms(1,2)] by blast
  have st: "stored J (drop_recs xs (vd d)) =
      (\<lambda>k. if k \<in> expired_keys J now (vd d) then None else stored J (vd d) k)"
    by (rule ext) (simp add: stored_drops xs(3))
  show ?thesis
  proof (cases "xs = []")
    case True
    then have none: "expired_keys J now (vd d) = {}" using xs(3) by simp
    have "delete_expired_records R J d now = (Ok 0, d)"
      using xs(1) True by (simp add: delete_expired_records_def)
    then show ?thesis using none assms(3) by simp
  next
    case False
    then have "delete_expired_records R J d now = (Ok (length xs), d')"
      using xs(1) d'(1) by (simp add: delete_expired_records_def)
    then have "delete_expired_records R J d now = (Ok (card (expired_keys J now (vd d))), d')"
      by (simp only: n)
    with d'(2) st index_exact_drop_recs [OF assms(3) xs(2,4)] show ?thesis
      by (simp add: drop_recs_other)
  qed
qed

text \<open>C4: On a database that does not fail, a sweep at time \<open>now\<close> removes exactly the records
  whose expiry time is set and past and that are not pinned, and reports how many they are.
  Every other record is as it was, in particular pinned ones and those with expiry time 0;
  the pins are untouched and the source index stays exact.\<close>

theorem expiry_removes_exactly:
  assumes "redb_laws R vd vt" and "redb_reliable R" and "index_exact J (vd d)"
  shows "\<exists>d'. delete_expired_records R J d now = (Ok (card (expired_keys J now (vd d))), d') \<and>
    stored J (vd d') = (\<lambda>k. if k \<in> expired_keys J now (vd d) then None else stored J (vd d) k) \<and>
    c_tab (vd d') PINS_TABLE = c_tab (vd d) PINS_TABLE \<and> index_exact J (vd d')"
  by (rule delete_expired_reliable [OF assms])

text \<open>Two records, the first due at time 6.\<close>

definition two_records :: mem_db where
  "two_records = mem_records [rec_of ''r1'' ''h1'' 5 6, rec_of ''r2'' ''h2'' 5 0]"

lemma two_records_exact: "index_exact sample_serde (mem_view two_records)"
  unfolding two_records_def by (rule mem_records_exact) simp_all

lemma two_records_expired: "expired_keys sample_serde 7 (mem_view two_records) = {lit ''r1''}"
proof -
  have "c_tab (mem_view two_records) PINS_TABLE = Map.empty"
    by (simp add: two_records_def mem_records_def mem_view_def mem_empty_def)
  then show ?thesis
    by (auto simp: expired_keys_def two_records_def stored_mem_records is_expired_def split: if_splits)
qed

theorem expiry_removes_exactly_witness:
  "\<exists>d'. delete_expired_records mem_redb sample_serde two_records 7 = (Ok 1, d') \<and>
     stored sample_serde (mem_view d') = [lit ''r2'' \<mapsto> rec_of ''r2'' ''h2'' 5 0]"
proof -
  obtain d' where "delete_expired_records mem_redb sample_serde two_records 7 = (Ok 1, d')"
    "stored sample_serde (mem_view d') =
      (\<lambda>k. if k \<in> {lit ''r1''} then None else stored sample_serde (mem_view two_records) k)"
    using expiry_removes_exactly [OF mem_redb_laws mem_redb_reliable two_records_exact, of 7]
    unfolding two_records_expired by auto
  moreover have "(\<lambda>k. if k \<in> {lit ''r1''} then None else stored sample_serde (mem_view two_records) k) =
      [lit ''r2'' \<mapsto> rec_of ''r2'' ''h2'' 5 0]"
    by (rule ext) (simp add: two_records_def stored_mem_records)
  ultimately show ?thesis by metis
qed

section \<open>A pin between the phases of a sweep\<close>

text \<open>The scan and the removal of a sweep are two transactions, and the removal does not
  look at the pins again: a record that is pinned in between, with the call reporting
  success, is removed all the same, and the pin is left without a record.\<close>

theorem pinned_during_sweep_is_removed:
  assumes "redb_laws R vd vt" and "redb_reliable R" and "dedup_inv J (vd d)"
    and "expired_scan R J d now = Ok xs" and "k \<in> fst ` set xs"
  shows "\<exists>d1 d2. pin_record R d now' k = (Ok True, d1) \<and>
    expired_delete R d1 xs = (Ok (length xs), d2) \<and>
    is_pinned R d2 k = Ok True \<and> stored J (vd d2) k = None"
proof -
  note r = reliable_ok [OF assms(1,2)]
  obtain xs' where "expired_scan R J d now = Ok xs'" "fst ` set xs' = expired_keys J now (vd d)"
    using expired_scan_reliable [OF assms(1-3)] by metis
  with assms(4,5) have "stored J (vd d) k \<noteq> None" by (auto simp: expired_keys_def)
  then have some: "c_tab (vd d) RECORDS_TABLE k \<noteq> None" by (auto simp: stored_def split: option.splits)
  obtain rt where rt: "begin_read R d = Ok rt" "vt rt = vd d" using r(1) by metis
  obtain t where t: "begin_write R d = Ok t" "vt t = vd d" using r(2) by metis
  obtain t1 where t1: "open_write R t PINS_TABLE = Ok t1" "vt t1 = vd d" using r(5) t(2) by metis
  obtain t2 where t2: "t_insert R t1 PINS_TABLE k (to_dec (unat now')) = Ok t2"
    "vt t2 = put PINS_TABLE k (to_dec (unat now')) (vd d)" using r(7) t1(2) by metis
  obtain d1 where d1: "commit R d t2 = Ok d1" "vd d1 = put PINS_TABLE k (to_dec (unat now')) (vd d)"
    using r(3) t2(2) by metis
  have g: "t_get R rt RECORDS_TABLE k = Ok (c_tab (vd d) RECORDS_TABLE k)" using r(6) rt(2) by metis
  have pin: "pin_record R d now' k = (Ok True, d1)"
    using some rt t t1 t2 d1 g r(4) by (simp add: pin_record_def)
  obtain d2 where d2: "expired_delete R d1 xs = (Ok (length xs), d2)" "vd d2 = drop_recs xs (vd d1)"
    using expired_delete_reliable [OF assms(1,2)] by blast
  obtain rt2 where rt2: "begin_read R d2 = Ok rt2" "vt rt2 = vd d2" using r(1) by metis
  have "c_tab (vd d2) PINS_TABLE k = Some (to_dec (unat now'))"
    by (simp add: d2(2) drop_recs_other d1(2))
  then have "t_get R rt2 PINS_TABLE k = Ok (Some (to_dec (unat now')))" using r(6) rt2(2) by metis
  then have "is_pinned R d2 k = Ok True" using rt2 r(4) by (simp add: is_pinned_def)
  moreover have "stored J (vd d2) k = None" by (simp add: d2(2) stored_drops assms(5))
  ultimately show ?thesis using pin d2(1) by blast
qed

lemma two_records_scan:
  obtains xs where "expired_scan mem_redb sample_serde two_records 7 = Ok xs" "fst ` set xs = {lit ''r1''}"
proof -
  have "dedup_inv sample_serde (mem_view two_records)"
    using two_records_exact by (simp add: index_exact_def)
  with that show thesis
    using expired_scan_reliable [OF mem_redb_laws mem_redb_reliable, of sample_serde two_records 7]
      two_records_expired by metis
qed

theorem pinned_during_sweep_is_removed_witness:
  "\<exists>xs d1 d2. expired_scan mem_redb sample_serde two_records 7 = Ok xs \<and>
     pin_record mem_redb two_records 7 (lit ''r1'') = (Ok True, d1) \<and>
     expired_delete mem_redb d1 xs = (Ok (length xs), d2) \<and> is_pinned mem_redb d2 (lit ''r1'') = Ok True \<and>
     stored sample_serde (mem_view d2) (lit ''r1'') = None"
proof -
  have inv: "dedup_inv sample_serde (mem_view two_records)"
    using two_records_exact by (simp add: index_exact_def)
  obtain xs where xs: "expired_scan mem_redb sample_serde two_records 7 = Ok xs" "fst ` set xs = {lit ''r1''}"
    by (rule two_records_scan)
  then have "lit ''r1'' \<in> fst ` set xs" by simp
  from pinned_during_sweep_is_removed [OF mem_redb_laws mem_redb_reliable inv xs(1) this, of 7] xs(1)
  show ?thesis by blast
qed

section \<open>Deletion\<close>

lemma delete_record_reliable:
  assumes "redb_laws R vd vt" and "redb_reliable R" and "index_exact J (vd d)"
  shows "\<exists>d'. delete_record R J d k = (Ok (stored J (vd d) k \<noteq> None), d') \<and>
    stored J (vd d') = (stored J (vd d))(k := None) \<and>
    (stored J (vd d) k \<noteq> None \<longrightarrow> c_tab (vd d') PINS_TABLE k = None) \<and>
    index_exact J (vd d') \<and> c_tab (vd d') INVERTED_INDEX_TABLE = c_tab (vd d) INVERTED_INDEX_TABLE"
proof -
  note r = reliable_ok [OF assms(1,2)]
  have inv: "dedup_inv J (vd d)" using assms(3) by (simp add: index_exact_def)
  obtain rt where rt: "begin_read R d = Ok rt" "vt rt = vd d" using r(1) by metis
  then have g: "t_get R rt RECORDS_TABLE k = Ok (c_tab (vd d) RECORDS_TABLE k)" using r(6) by metis
  show ?thesis
  proof (cases "c_tab (vd d) RECORDS_TABLE k")
    case None
    then have "stored J (vd d) k = None" by (simp add: stored_def)
    with None rt g r(4) assms(3) show ?thesis
      by (simp add: delete_record_def fun_upd_idem)
  next
    case (Some j)
    with stored_parsed [OF inv] obtain x where x: "record_from_json J j = Ok x" "stored J (vd d) k = Some x"
      by blast
    obtain t where t: "begin_write R d = Ok t" "vt t = vd d" using r(2) by metis
    obtain t1 where t1: "remove_indexed R (''open records for delete'', ''remove record'',
               ''open source_index for delete check'', ''reopen source_index for delete'',
               ''remove source_index'') t k (cr_source_hash x) = Ok t1"
        "vt t1 = drop_rec k (cr_source_hash x) (vd d)"
      using remove_indexed_reliable [OF assms(1,2)] t(2) by metis
    obtain t2 where t2: "open_write R t1 PINS_TABLE = Ok t2" "vt t2 = vt t1" using r(5) by metis
    obtain w t3 where t3: "t_remove R t2 PINS_TABLE k = Ok (w, t3)" "vt t3 = del PINS_TABLE k (vt t1)"
      using r(8) t2(2) by metis
    obtain d' where d': "commit R d t3 = Ok d'" "vd d' = del PINS_TABLE k (vt t1)"
      using r(3) t3(2) by metis
    have run: "delete_record R J d k = (Ok True, d')"
      using rt g r(4) Some x(1) t t1(1) t2(1) t3(1) d'(1) by (simp add: delete_record_def)
    have "index_exact J (drop_rec k (cr_source_hash x) (vd d))"
      by (rule index_exact_drop [OF assms(3) x(2)])
    then have "index_exact J (vd d')"
      using dedup_inv_del(4) [of J _ PINS_TABLE] by (simp add: d'(2) t1(2) index_exact_def)
    moreover have "stored J (vd d') = (stored J (vd d))(k := None)"
      by (rule ext) (simp add: d'(2) t1(2))
    moreover have "c_tab (vd d') INVERTED_INDEX_TABLE = c_tab (vd d) INVERTED_INDEX_TABLE"
      by (simp add: d'(2) t1(2) drop_rec_def)
    ultimately show ?thesis using run x(2) by (simp add: d'(2))
  qed
qed

text \<open>On a database that does not fail, deleting an id reports whether a record was stored
  under it; the record, its source index entry and its pin are gone afterwards, every other
  record is kept, and the index stays exact.\<close>

theorem delete_record_removes:
  assumes "redb_laws R vd vt" and "redb_reliable R" and "index_exact J (vd d)"
  shows "\<exists>d'. delete_record R J d k = (Ok (stored J (vd d) k \<noteq> None), d') \<and>
    stored J (vd d') = (stored J (vd d))(k := None) \<and>
    (stored J (vd d) k \<noteq> None \<longrightarrow> c_tab (vd d') PINS_TABLE k = None) \<and>
    index_exact J (vd d')"
  using delete_record_reliable [OF assms] by blast

theorem delete_record_removes_witness:
  "\<exists>d'. delete_record mem_redb sample_serde two_records (lit ''r1'') = (Ok True, d') \<and>
     stored sample_serde (mem_view d') (lit ''r1'') = None \<and>
     stored sample_serde (mem_view d') (lit ''r2'') = Some (rec_of ''r2'' ''h2'' 5 0)"
  using delete_record_removes [OF mem_redb_laws mem_redb_reliable two_records_exact, of "lit ''r1''"]
  by (auto simp: stored_mem_records two_records_def)

section \<open>An id used for two sources\<close>

text \<open>\<^verbatim>\<open>insert_record\<close> looks a record up by its source hash only. A record that reuses the id
  of another source's record overwrites it, however old it is, and leaves the other source's
  index entry pointing at it; the next record of that other source, under an id of its own,
  then removes it. So two inserts under distinct source hashes, both reported as successful,
  leave one record.\<close>

theorem reused_id_displaces_records:
  assumes "redb_laws R vd vt" and "redb_reliable R" and "serde_laws J" and "dedup_inv J (vd d)"
    and "stored J (vd d) (cr_id b) = Some a"
    and "cr_source_hash b \<noteq> cr_source_hash a"
    and "c_tab (vd d) SOURCE_INDEX_TABLE (cr_source_hash b) = None"
    and "cr_source_hash c = cr_source_hash a" and "cr_id c \<noteq> cr_id b"
    and "cr_created_at b < cr_created_at c"
    and "record_to_json J b = Ok jb" and "str_len jb \<le> 1048576"
    and "record_to_json J c = Ok jc" and "str_len jc \<le> 1048576"
  shows "\<exists>d1 d2. insert_record R J d b None = (Ok Inserted, d1) \<and> stored J (vd d1) (cr_id b) = Some b \<and>
    insert_record R J d1 c None = (Ok ReplacedNewer, d2) \<and>
    stored J (vd d2) (cr_id b) = None \<and> stored J (vd d2) (cr_id c) = Some c"
proof -
  note det = insert_record_Ok [OF assms(1)]
  have noquota: "insert_quota_check R d' j None = Ok ()" for d' j
    by (simp add: insert_quota_check_def)
  obtain res1 d1 where i1: "insert_record R J d b None = (Ok res1, d1)"
    using insert_record_reliable [OF assms(1,2,4,11) _ noquota] assms(12) by (auto simp: MAX_RECORD_SIZE_def)
  have e1: "insert_effect J (vd d) b jb res1 (vd d1)" using det [OF i1] assms(11) by auto
  have res1: "res1 = Inserted"
    using e1 assms(7) by (cases res1) (auto simp: insert_effect_def dedup_of_def)
  note jb = serde_roundtrip(1) [OF assms(3,11)] and jc = serde_roundtrip(1) [OF assms(3,13)]
  have d1: "vd d1 = add_rec b jb (vd d)" using e1 res1 by (simp add: insert_effect_def)
  have inv1: "dedup_inv J (vd d1)" by (rule dedup_inv_insert [OF assms(3,4,11) e1])
  have st1: "stored J (vd d1) (cr_id b) = Some b" by (simp add: d1 stored_add [OF jb])
  have ix1: "c_tab (vd d1) SOURCE_INDEX_TABLE (cr_source_hash c) = Some (cr_id b)"
    using dedup_inv_stored [OF assms(4,5)] assms(6,8) by (auto simp: d1 add_rec_def)
  obtain res2 d2 where i2: "insert_record R J d1 c None = (Ok res2, d2)"
    using insert_record_reliable [OF assms(1,2) inv1 assms(13) _ noquota] assms(14) by (auto simp: MAX_RECORD_SIZE_def)
  have e2: "insert_effect J (vd d1) c jc res2 (vd d2)" using det [OF i2] assms(13) by auto
  have "c_tab (vd d1) RECORDS_TABLE (cr_id b) \<noteq> None" using st1 by (auto simp: stored_Some_iff)
  with e2 ix1 st1 assms(10) have "res2 = ReplacedNewer"
    "vd d2 = add_rec c jc (del RECORDS_TABLE (cr_id b) (vd d1))"
    by (cases res2; auto simp: insert_effect_def dedup_of_def)+
  with i1 res1 st1 i2 assms(9) show ?thesis
    by (auto simp: stored_add [OF jc])
qed

theorem reused_id_displaces_records_witness:
  "\<exists>d1 d2. insert_record mem_redb sample_serde one_record (rec_of ''r1'' ''h2'' 1 0) None = (Ok Inserted, d1) \<and>
     insert_record mem_redb sample_serde d1 (rec_of ''r3'' ''h1'' 6 0) None = (Ok ReplacedNewer, d2) \<and>
     stored sample_serde (mem_view d2) (lit ''r1'') = None"
proof -
  have inv: "dedup_inv sample_serde (mem_view one_record)"
    using one_record_exact by (simp add: index_exact_def)
  have st: "stored sample_serde (mem_view one_record) (cr_id (rec_of ''r1'' ''h2'' 1 0)) = Some (rec_of ''r1'' ''h1'' 5 0)"
    by (simp add: stored_one_record)
  have ix: "c_tab (mem_view one_record) SOURCE_INDEX_TABLE (cr_source_hash (rec_of ''r1'' ''h2'' 1 0)) = None"
    by (simp add: one_record_def mem_records_def mem_view_def)
  have small: "str_len (enc_record (rec_of ''r1'' ''h2'' 1 0)) \<le> 1048576"
      "str_len (enc_record (rec_of ''r3'' ''h1'' 6 0)) \<le> 1048576"
    using rec_of_small [of "''r1''" "''h2''" 1 0] rec_of_small [of "''r3''" "''h1''" 6 0] by simp_all
  from reused_id_displaces_records [OF mem_redb_laws mem_redb_reliable sample_serde_laws inv st _ ix,
      of "rec_of ''r3'' ''h1'' 6 0", OF _ _ _ _ sample_serde_simps(1) small(1) sample_serde_simps(1) small(2)]
  show ?thesis by auto
qed

end
