(* ===== verification/Quota.thy ===== *)
theory Quota
  imports Expiry
begin

text \<open>
  The storage quota and eviction (\<^verbatim>\<open>src/src/storage/quota.rs\<close>). The main facts: eviction
  takes unpinned records oldest first, stops as soon as enough is freed, and frees enough
  unless every unpinned record is gone; the \<^verbatim>\<open>evict_oldest\<close> policy makes room for what is to
  be added; and a check that fails after evicting keeps the eviction.
\<close>

section \<open>Operations\<close>

type_synonym candidate = "ustr \<times> ustr \<times> u64 \<times> u64"

text \<open>Candidates are \<^verbatim>\<open>(id, source_hash, created_at, json_len)\<close>; pinned entries are passed over
  before they are parsed.\<close>

fun candidates_loop :: "('d, 't) redb \<Rightarrow> serde \<Rightarrow> 't \<Rightarrow> candidate list
    \<Rightarrow> (ustr \<times> ustr, ustr) result list \<Rightarrow> (candidate list, ustr) result" where
  "candidates_loop R J t candidates [] = Ok candidates"
| "candidates_loop R J t candidates (entry # es) =
     rbind (with_ctx ''evict read entry'' entry) (\<lambda>(key, json_str).
       if seems_pinned R t key then candidates_loop R J t candidates es
       else rbind (with_ctx ''deserialize record for evict'' (record_from_json J json_str)) (\<lambda>record.
         candidates_loop R J t
           (candidates @ [(key, cr_source_hash record, cr_created_at record, of_nat (str_len json_str))]) es))"

fun select_loop :: "u64 \<Rightarrow> u64 \<Rightarrow> (ustr \<times> ustr) list \<Rightarrow> candidate list \<Rightarrow> u64 \<times> (ustr \<times> ustr) list" where
  "select_loop needed_bytes freed to_delete [] = (freed, to_delete)"
| "select_loop needed_bytes freed to_delete ((i, source_hash, _, json_len) # cs) =
     (if needed_bytes \<le> freed then (freed, to_delete)
      else select_loop needed_bytes (freed + json_len) (to_delete @ [(i, source_hash)]) cs)"

definition evict_oldest :: "('d, 't) redb \<Rightarrow> serde \<Rightarrow> 'd \<Rightarrow> u64 \<Rightarrow> (u64, ustr) result \<times> 'd" where
  "evict_oldest R J d needed_bytes = settle d (
     rbind (with_ctx ''evict read tx'' (begin_read R d)) (\<lambda>rt.
     rbind (with_ctx ''open records for evict'' (open_read R rt RECORDS_TABLE)) (\<lambda>_.
     rbind (with_ctx ''open pins for evict'' (open_read R rt PINS_TABLE)) (\<lambda>_.
     rbind (with_ctx ''evict iter'' (t_iter R rt RECORDS_TABLE)) (\<lambda>es.
     rbind (candidates_loop R J rt [] es) (\<lambda>candidates.
     let candidates = sort_key (\<lambda>c. fst (snd (snd c))) candidates in
     case select_loop needed_bytes 0 [] candidates of (freed, to_delete) \<Rightarrow>
       if to_delete = [] then Ok (0, d)
       else
         rbind (with_ctx ''evict write tx'' (begin_write R d)) (\<lambda>t.
         rbind (remove_all R (''open records for evict delete'', ''remove evicted record'',
             ''open source_index for evict check'', ''reopen source_index for evict delete'',
             ''remove source_index for evict'') t to_delete) (\<lambda>t.
         rbind (with_ctx ''evict commit'' (commit R d t)) (\<lambda>d'. Ok (freed, d'))))))))))"

definition quota_message :: "StorageConfig \<Rightarrow> ustr" where
  "quota_message config = lit ''Storage quota exceeded ('' @ to_dec (unat (sc_quota_mb config)) @ lit '' MB).''"

definition check_quota :: "('d, 't) redb \<Rightarrow> serde \<Rightarrow> 'd \<Rightarrow> StorageConfig \<Rightarrow> u64 \<Rightarrow> (unit, ustr) result \<times> 'd" where
  "check_quota R J d config additional_bytes =
     (if sc_quota_mb config = 0 then (Ok (), d)
      else
        let quota_bytes = (ucast (sc_quota_mb config) :: u64) * 1024 * 1024 in
        case records_size_bytes R d of
          Err e \<Rightarrow> (Err e, d) | Panic \<Rightarrow> (Panic, d)
        | Ok current_bytes \<Rightarrow>
            if quota_bytes < current_bytes + additional_bytes then
              if sc_quota_action config = lit ''evict_oldest'' then
                (case evict_oldest R J d (current_bytes + additional_bytes - quota_bytes) of
                   (Ok freed, d) \<Rightarrow>
                     if quota_bytes < current_bytes + additional_bytes - freed
                     then (Err (quota_message config @ lit '' Eviction freed '' @ to_dec (unat freed) @
                       lit '' bytes but still over quota.''), d)
                     else (Ok (), d)
                 | (Err e, d) \<Rightarrow> (Err e, d) | (Panic, d) \<Rightarrow> (Panic, d))
              else if sc_quota_action config = lit ''pause_scraper'' then
                (Err (quota_message config @ lit '' Scraper should pause.''), d)
              else if sc_quota_action config = lit ''warn_only'' then (Ok (), d)
              else (Err (quota_message config @ lit '' Unknown quota_action: '' @ sc_quota_action config), d)
            else (Ok (), d))"

section \<open>Eviction\<close>

lemma settled_evict [simp]: "settled d (evict_oldest R J d needed)"
  by (simp only: evict_oldest_def settled_settle)

lemma evict_oldest_inv:
  assumes L: "redb_laws R vd vt" and inv: "dedup_inv J (vd d)"
  shows "dedup_inv J (vd (snd (evict_oldest R J d needed)))"
proof (rule settled_keeps [where P = "\<lambda>d. dedup_inv J (vd d)", OF settled_evict inv])
  fix n d' assume "evict_oldest R J d needed = (Ok n, d')"
  then obtain rt es cs where "(case select_loop needed 0 [] (sort_key (\<lambda>c. fst (snd (snd c))) cs) of (freed, to_delete) \<Rightarrow>
       if to_delete = [] then Ok (0, d)
       else
         rbind (with_ctx ''evict write tx'' (begin_write R d)) (\<lambda>t.
         rbind (remove_all R (''open records for evict delete'', ''remove evicted record'',
             ''open source_index for evict check'', ''reopen source_index for evict delete'',
             ''remove source_index for evict'') t to_delete) (\<lambda>t.
         rbind (with_ctx ''evict commit'' (commit R d t)) (\<lambda>d'. Ok (freed, d'))))) = Ok (n, d')"
    by (auto simp: evict_oldest_def res_simps Let_def)
  moreover obtain freed xs where sel: "select_loop needed 0 [] (sort_key (\<lambda>c. fst (snd (snd c))) cs) = (freed, xs)"
    by force
  ultimately consider "d' = d" | t t' where "begin_write R d = Ok t"
      "remove_all R (''open records for evict delete'', ''remove evicted record'',
             ''open source_index for evict check'', ''reopen source_index for evict delete'',
             ''remove source_index for evict'') t xs = Ok t'" "commit R d t' = Ok d'"
    by (cases "xs = []") (auto simp: res_simps)
  then show "dedup_inv J (vd d')"
  proof cases
    case (2 t t')
    from remove_all_inv [OF L _ 2(2)] redb_begin [OF L] 2 inv show ?thesis by metis
  qed (use inv in simp)
qed

lemma check_quota_inv:
  assumes L: "redb_laws R vd vt" and inv: "dedup_inv J (vd d)"
  shows "dedup_inv J (vd (snd (check_quota R J d config n)))"
proof (cases "records_size_bytes R d")
  case (Ok c)
  let ?e = "evict_oldest R J d (c + n - (ucast (sc_quota_mb config) :: u64) * 1024 * 1024)"
  have "snd (check_quota R J d config n) \<in> {d, snd ?e}"
    using Ok by (cases ?e; cases "fst ?e") (auto simp: check_quota_def Let_def)
  then show ?thesis using evict_oldest_inv [OF L inv] inv by auto
qed (use inv in \<open>auto simp: check_quota_def\<close>)

lemma select_loop_spec:
  "\<exists>n \<le> length cs. select_loop needed freed acc cs =
     (freed + sum_list (map (\<lambda>c. snd (snd (snd c))) (take n cs)),
      acc @ map (\<lambda>c. (fst c, fst (snd c))) (take n cs)) \<and>
     (n = length cs \<or> needed \<le> freed + sum_list (map (\<lambda>c. snd (snd (snd c))) (take n cs)))"
proof (induction cs arbitrary: freed acc)
  case (Cons c cs)
  obtain i h a l where c: "c = (i, h, a, l)" by (cases c) auto
  show ?case
  proof (cases "needed \<le> freed")
    case True
    then show ?thesis by (intro exI [of _ 0]) (simp add: c)
  next
    case False
    from Cons.IH [of "freed + l" "acc @ [(i, h)]"] obtain n where "n \<le> length cs"
      "select_loop needed (freed + l) (acc @ [(i, h)]) cs =
        (freed + l + sum_list (map (\<lambda>c. snd (snd (snd c))) (take n cs)),
         (acc @ [(i, h)]) @ map (\<lambda>c. (fst c, fst (snd c))) (take n cs))"
      "n = length cs \<or> needed \<le> freed + l + sum_list (map (\<lambda>c. snd (snd (snd c))) (take n cs))" by blast
    with False show ?thesis by (intro exI [of _ "Suc n"]) (simp add: c add.assoc)
  qed
qed simp

definition cand_of :: "serde \<Rightarrow> ustr \<times> ustr \<Rightarrow> candidate" where
  "cand_of J = (\<lambda>(k, j). (k, cr_source_hash (parsed J j), cr_created_at (parsed J j), of_nat (str_len j)))"

lemma candidates_loop_reliable:
  assumes "\<And>k j. (k, j) \<in> set kvs \<Longrightarrow> record_from_json J j = Ok (parsed J j)"
  shows "candidates_loop R J t acc (map Ok kvs) =
    Ok (acc @ map (cand_of J) (filter (\<lambda>kv. \<not> seems_pinned R t (fst kv)) kvs))"
  using assms
proof (induction kvs arbitrary: acc)
  case (Cons kv kvs)
  obtain k j where kv: "kv = (k, j)" by force
  have "record_from_json J j = Ok (parsed J j)" using Cons.prems [of k j] by (simp add: kv)
  moreover have "candidates_loop R J t acc' (map Ok kvs) =
      Ok (acc' @ map (cand_of J) (filter (\<lambda>kv. \<not> seems_pinned R t (fst kv)) kvs))" for acc'
    by (rule Cons.IH) (use Cons.prems in auto)
  ultimately show ?case by (simp add: kv cand_of_def)
qed simp

text \<open>The ids eviction may take.\<close>

definition unpinned :: "serde \<Rightarrow> contents \<Rightarrow> ustr set" where
  "unpinned J c = {k. stored J c k \<noteq> None \<and> c_tab c PINS_TABLE k = None}"

lemma table_bytes_drop:
  assumes "finite (dom m)" "A \<subseteq> dom m"
  shows "table_bytes (\<lambda>k. if k \<in> A then None else m k) + (\<Sum>k \<in> A. str_len (the (m k))) = table_bytes m"
proof -
  have "dom (\<lambda>k. if k \<in> A then None else m k) = dom m - A" by (auto split: if_splits)
  then have "table_bytes (\<lambda>k. if k \<in> A then None else m k) = (\<Sum>k \<in> dom m - A. str_len (the (m k)))"
    by (simp add: table_bytes_def)
  with sum.subset_diff [OF assms(2,1), of "\<lambda>k. str_len (the (m k))"] show ?thesis
    by (simp add: table_bytes_def)
qed

lemma drop_recs_records:
  "c_tab (drop_recs xs c) RECORDS_TABLE = (\<lambda>k. if k \<in> fst ` set xs then None else c_tab c RECORDS_TABLE k)"
proof (induction xs arbitrary: c)
  case (Cons x xs)
  obtain i h where "x = (i, h)" by force
  with Cons.IH [of "drop_rec i h c"] show ?case by (auto simp: drop_recs_def drop_rec_def fun_eq_iff)
qed (simp add: drop_recs_def)

text \<open>Eviction, on a database that does not fail, is the removal of an initial part of the
  unpinned records ordered by age.\<close>

lemma evict_oldest_run:
  assumes L: "redb_laws R vd vt" and rel: "redb_reliable R" and inv: "dedup_inv J (vd d)"
  obtains kvs n xs freed d' where "distinct (map fst kvs)" "fst ` set kvs = unpinned J (vd d)"
    "\<And>k j. (k, j) \<in> set kvs \<Longrightarrow> c_tab (vd d) RECORDS_TABLE k = Some j"
    "sorted (map (\<lambda>kv. cr_created_at (parsed J (snd kv))) kvs)" "n \<le> length kvs"
    "freed = of_nat (sum_list (map (\<lambda>kv. str_len (snd kv)) (take n kvs)))"
    "n = length kvs \<or> needed \<le> freed"
    "evict_oldest R J d needed = (Ok freed, d')"
    "map fst xs = map fst (take n kvs)"
    "vd d' = drop_recs xs (vd d)"
    "\<And>k h. (k, h) \<in> set xs \<Longrightarrow> \<exists>r. stored J (vd d) k = Some r \<and> cr_source_hash r = h"
proof -
  note r = reliable_ok [OF L rel]
  obtain t where t: "begin_read R d = Ok t" "vt t = vd d" using r(1) by metis
  obtain kvs0 where es: "t_iter R t RECORDS_TABLE = Ok (map Ok kvs0)"
    and kvs0: "listing (c_tab (vd d) RECORDS_TABLE) kvs0" using r(9) t(2) by metis
  have mem0: "record_from_json J j = Ok (parsed J j) \<and> stored J (vd d) k = Some (parsed J j) \<and>
      c_tab (vd d) RECORDS_TABLE k = Some j" if "(k, j) \<in> set kvs0" for k j
    using that listing_mem [OF kvs0] stored_parsed [OF inv] by simp
  let ?age = "\<lambda>kv. cr_created_at (parsed J (snd kv))"
  define kvs where "kvs = sort_key ?age (filter (\<lambda>kv. c_tab (vd d) PINS_TABLE (fst kv) = None) kvs0)"
  have loop: "candidates_loop R J t [] (map Ok kvs0) =
      Ok (map (cand_of J) (filter (\<lambda>kv. c_tab (vd d) PINS_TABLE (fst kv) = None) kvs0))"
    using candidates_loop_reliable [of kvs0 J R t "[]"] mem0
    by (simp add: seems_pinned_reliable [OF L rel] t(2))
  have sorted_map: "sort_key f (map g ys) = map g (sort_key (f \<circ> g) ys)" for f :: "candidate \<Rightarrow> u64" and g and ys :: "(ustr \<times> ustr) list"
  proof (induction ys)
    case (Cons y ys)
    have "insort_key f (g y) (map g zs) = map g (insort_key (f \<circ> g) y zs)" for zs
      by (induction zs) auto
    with Cons show ?case by (simp add: comp_def)
  qed simp
  have srt: "sort_key (\<lambda>c. fst (snd (snd c)))
      (map (cand_of J) (filter (\<lambda>kv. c_tab (vd d) PINS_TABLE (fst kv) = None) kvs0)) = map (cand_of J) kvs"
    unfolding sorted_map kvs_def
    by (rule arg_cong [of _ _ "map (cand_of J)"], rule arg_cong [of _ _ "\<lambda>f. sort_key f _"])
       (auto simp: cand_of_def)
  obtain n freed ys where n: "n \<le> length kvs"
    and sel: "select_loop needed 0 [] (map (cand_of J) kvs) = (freed, ys)"
    and freed: "freed = sum_list (map (\<lambda>c. snd (snd (snd c))) (take n (map (cand_of J) kvs)))"
    and ys: "ys = map (\<lambda>c. (fst c, fst (snd c))) (take n (map (cand_of J) kvs))"
    and enough: "n = length kvs \<or> needed \<le> freed"
    using select_loop_spec [of "map (cand_of J) kvs" needed 0 "[]"] by auto
  have freed': "freed = of_nat (sum_list (map (\<lambda>kv. str_len (snd kv)) (take n kvs)))"
  proof -
    have "sum_list (map (\<lambda>c. snd (snd (snd c))) (map (cand_of J) zs)) =
        (of_nat (sum_list (map (\<lambda>kv. str_len (snd kv)) zs)) :: u64)" for zs
      by (induction zs) (auto simp: cand_of_def split: prod.splits)
    then show ?thesis by (simp only: freed take_map)
  qed
  have ys': "ys = map (\<lambda>kv. (fst kv, cr_source_hash (parsed J (snd kv)))) (take n kvs)"
    unfolding ys take_map map_map by (rule map_cong [OF refl]) (auto simp: cand_of_def)
  obtain d' where d': "evict_oldest R J d needed = (Ok freed, d')" "vd d' = drop_recs ys (vd d)"
  proof (cases "ys = []")
    case True
    then have "freed = 0" using freed' ys' by (cases "take n kvs") auto
    with True that [of d] t es r(4) loop srt sel show thesis
      by (simp add: evict_oldest_def drop_recs_def)
  next
    case False
    obtain w where w: "begin_write R d = Ok w" "vt w = vd d" using r(2) by metis
    obtain w1 where w1: "remove_all R (''open records for evict delete'', ''remove evicted record'',
             ''open source_index for evict check'', ''reopen source_index for evict delete'',
             ''remove source_index for evict'') w ys = Ok w1" "vt w1 = drop_recs ys (vd d)"
      using remove_all_reliable [OF L rel] w(2) by metis
    obtain d1 where "commit R d w1 = Ok d1" "vd d1 = drop_recs ys (vd d)" using r(3) w1(2) by metis
    with False that [of d1] t es r(4) loop srt sel w w1 show thesis
      by (simp add: evict_oldest_def)
  qed
  have set_kvs: "set kvs = {kv \<in> set kvs0. c_tab (vd d) PINS_TABLE (fst kv) = None}"
    by (auto simp: kvs_def)
  have mem: "c_tab (vd d) RECORDS_TABLE k = Some j" "stored J (vd d) k = Some (parsed J j)"
    if "(k, j) \<in> set kvs" for k j using that mem0 by (auto simp: set_kvs)
  have "distinct (map fst kvs0)" by (rule listing_distinct [OF kvs0])
  then have dist: "distinct (map fst kvs)"
    unfolding kvs_def by (auto simp: distinct_map intro: inj_on_subset)
  have keys: "fst ` set kvs = unpinned J (vd d)"
  proof (rule set_eqI)
    fix k
    have "k \<in> fst ` set kvs \<longleftrightarrow> (\<exists>j. c_tab (vd d) RECORDS_TABLE k = Some j) \<and> c_tab (vd d) PINS_TABLE k = None"
      using listing_mem [OF kvs0] by (force simp: set_kvs)
    also have "\<dots> \<longleftrightarrow> k \<in> unpinned J (vd d)"
      using stored_parsed [OF inv, of k] by (auto simp: unpinned_def stored_Some_iff)
    finally show "k \<in> fst ` set kvs \<longleftrightarrow> k \<in> unpinned J (vd d)" .
  qed
  have sorted: "sorted (map ?age kvs)" by (simp add: kvs_def)
  have fsts: "map fst ys = map fst (take n kvs)" by (simp add: ys')
  have hash: "\<exists>r. stored J (vd d) k = Some r \<and> cr_source_hash r = h" if "(k, h) \<in> set ys" for k h
    using that mem by (auto simp: ys' dest: in_set_takeD)
  from that [OF dist keys mem(1) sorted n freed' enough d'(1) fsts d'(2) hash] show thesis by blast
qed

text \<open>What eviction leaves, over the records: \<open>victims\<close> are removed, they are no newer than
  any unpinned record kept, and what they held is what is reported freed.\<close>

definition evicted :: "serde \<Rightarrow> contents \<Rightarrow> ustr set \<Rightarrow> u64 \<Rightarrow> contents \<Rightarrow> bool" where
  "evicted J c victims freed c' \<longleftrightarrow>
     victims \<subseteq> unpinned J c \<and>
     stored J c' = (\<lambda>k. if k \<in> victims then None else stored J c k) \<and>
     c_tab c' PINS_TABLE = c_tab c PINS_TABLE \<and>
     (\<forall>v \<in> victims. \<forall>k \<in> unpinned J c - victims.
        cr_created_at (the (stored J c v)) \<le> cr_created_at (the (stored J c k))) \<and>
     table_bytes (c_tab c' RECORDS_TABLE) + unat freed = table_bytes (c_tab c RECORDS_TABLE)"

lemma sorted_take_le:
  assumes "sorted (map f xs)" "x \<in> set (take n xs)" "y \<in> set (drop n xs)"
  shows "f x \<le> f y"
proof -
  have "sorted (map f (take n xs) @ map f (drop n xs))"
    using assms(1) by (simp flip: map_append)
  with assms(2,3) show ?thesis by (simp add: sorted_append)
qed

lemma evict_oldest_spec:
  assumes "redb_laws R vd vt" and "redb_reliable R" and "index_exact J (vd d)"
    and "table_bytes (c_tab (vd d) RECORDS_TABLE) < 2 ^ 64"
  shows "\<exists>victims freed d'. evict_oldest R J d needed = (Ok freed, d') \<and>
    evicted J (vd d) victims freed (vd d') \<and> index_exact J (vd d') \<and>
    (needed \<le> freed \<or> victims = unpinned J (vd d))"
proof -
  have inv: "dedup_inv J (vd d)" using assms(3) by (simp add: index_exact_def)
  obtain kvs n xs freed d' where dist: "distinct (map fst kvs)" and keys: "fst ` set kvs = unpinned J (vd d)"
    and mem: "\<And>k j. (k, j) \<in> set kvs \<Longrightarrow> c_tab (vd d) RECORDS_TABLE k = Some j"
    and srt: "sorted (map (\<lambda>kv. cr_created_at (parsed J (snd kv))) kvs)" and n: "n \<le> length kvs"
    and freed: "freed = of_nat (sum_list (map (\<lambda>kv. str_len (snd kv)) (take n kvs)))"
    and enough: "n = length kvs \<or> needed \<le> freed"
    and run: "evict_oldest R J d needed = (Ok freed, d')"
    and fsts: "map fst xs = map fst (take n kvs)" and d': "vd d' = drop_recs xs (vd d)"
    and hash: "\<And>k h. (k, h) \<in> set xs \<Longrightarrow> \<exists>r. stored J (vd d) k = Some r \<and> cr_source_hash r = h"
    by (rule evict_oldest_run [OF assms(1,2) inv]) blast
  define victims where "victims = fst ` set (take n kvs)"
  have vic: "victims = fst ` set xs"
    using arg_cong [OF fsts, of set] by (simp add: victims_def)
  have st: "stored J (vd d) k = Some (parsed J j)" if "(k, j) \<in> set kvs" for k j
    using stored_parsed [OF inv mem [OF that]] by simp
  have split: "distinct (map fst (take n kvs) @ map fst (drop n kvs))"
    using dist by (simp flip: map_append)
  have rest: "unpinned J (vd d) - victims = fst ` set (drop n kvs)"
  proof -
    have "unpinned J (vd d) = victims \<union> fst ` set (drop n kvs)"
      unfolding keys [symmetric] victims_def image_Un [symmetric] set_append [symmetric] append_take_drop_id ..
    then show ?thesis using split by (auto simp: victims_def)
  qed
  have older: "cr_created_at (the (stored J (vd d) v)) \<le> cr_created_at (the (stored J (vd d) k))"
    if "v \<in> victims" "k \<in> unpinned J (vd d) - victims" for v k
  proof -
    from that obtain jv jk where "(v, jv) \<in> set (take n kvs)" "(k, jk) \<in> set (drop n kvs)"
      unfolding rest by (auto simp: victims_def)
    with sorted_take_le [OF srt, of "(v, jv)" n "(k, jk)"] st [of v jv, OF in_set_takeD]
      st [of k jk, OF in_set_dropD] show ?thesis by simp
  qed
  let ?m = "c_tab (vd d) RECORDS_TABLE"
  have sum: "sum_list (map (\<lambda>kv. str_len (snd kv)) (take n kvs)) = (\<Sum>k \<in> victims. str_len (the (?m k)))"
  proof -
    have "map (\<lambda>kv. str_len (snd kv)) (take n kvs) = map (\<lambda>k. str_len (the (?m k))) (map fst (take n kvs))"
      using mem by (auto dest!: in_set_takeD)
    then show ?thesis
      using split by (simp add: sum_list_distinct_conv_sum_set victims_def del: map_map)
  qed
  have fin: "finite (dom ?m)" by (rule redb_finite [OF assms(1)])
  have sub: "victims \<subseteq> dom ?m" using mem by (auto simp: victims_def dest!: in_set_takeD)
  have tab': "c_tab (vd d') RECORDS_TABLE = (\<lambda>k. if k \<in> victims then None else ?m k)"
    by (simp only: d' drop_recs_records vic)
  have bytes: "table_bytes (c_tab (vd d') RECORDS_TABLE) + (\<Sum>k \<in> victims. str_len (the (?m k))) = table_bytes ?m"
    unfolding tab' by (rule table_bytes_drop [OF fin sub])
  then have "(\<Sum>k \<in> victims. str_len (the (?m k))) < 2 ^ 64" using assms(4) by linarith
  then have "unat freed = (\<Sum>k \<in> victims. str_len (the (?m k)))"
    unfolding freed sum by (simp only: unat_of_nat) (simp add: take_bit_eq_mod)
  moreover have "stored J (vd d') = (\<lambda>k. if k \<in> victims then None else stored J (vd d) k)"
    by (rule ext) (simp add: d' stored_drops vic)
  moreover have "victims \<subseteq> unpinned J (vd d)"
    using keys by (auto simp: victims_def dest!: in_set_takeD)
  ultimately have "evicted J (vd d) victims freed (vd d')"
    using bytes older by (simp add: evicted_def d' drop_recs_other)
  moreover have "index_exact J (vd d')"
    using index_exact_drop_recs [OF assms(3) _ hash] fsts split by (simp add: d')
  moreover have "needed \<le> freed \<or> victims = unpinned J (vd d)"
    using enough keys by (cases "needed \<le> freed") (simp_all add: victims_def)
  ultimately show ?thesis using run by blast
qed

text \<open>C2: On a database that does not fail and holds less than 2^64 bytes, eviction removes
  unpinned records only, oldest first (none of those kept is older than one removed),
  leaves every pinned record and every pin, reports exactly the number of bytes the removed
  records took, and frees what was asked for unless no unpinned record is left.\<close>

theorem eviction_oldest_first:
  assumes "redb_laws R vd vt" and "redb_reliable R" and "index_exact J (vd d)"
    and "table_bytes (c_tab (vd d) RECORDS_TABLE) < 2 ^ 64"
  shows "\<exists>victims freed d'. evict_oldest R J d needed = (Ok freed, d') \<and>
    evicted J (vd d) victims freed (vd d') \<and> index_exact J (vd d') \<and>
    (needed \<le> freed \<or> victims = unpinned J (vd d))"
  by (rule evict_oldest_spec [OF assms])

lemma two_records_bytes: "table_bytes (c_tab (mem_view two_records) RECORDS_TABLE) < 2 ^ 64"
proof -
  let ?m = "c_tab (mem_view two_records) RECORDS_TABLE"
  let ?l = "[(lit ''r1'', enc_record (rec_of ''r1'' ''h1'' 5 6)), (lit ''r2'', enc_record (rec_of ''r2'' ''h2'' 5 0))]"
  have "listing ?m ?l"
    by (simp add: listing_def two_records_def mem_records_def mem_view_def lit_def)
  from table_bytes_listing [OF this] rec_of_small [of "''r1''" "''h1''" 5 6] rec_of_small [of "''r2''" "''h2''" 5 0]
  show ?thesis by simp
qed

theorem eviction_oldest_first_witness:
  "\<exists>freed d'. evict_oldest mem_redb sample_serde two_records 1000000 = (Ok freed, d') \<and>
     table_bytes (c_tab (mem_view d') RECORDS_TABLE) + unat freed =
       table_bytes (c_tab (mem_view two_records) RECORDS_TABLE)"
  using eviction_oldest_first [OF mem_redb_laws mem_redb_reliable two_records_exact two_records_bytes, of 1000000]
  by (auto simp: evicted_def)

section \<open>Making room\<close>

lemma records_size_reliable:
  assumes L: "redb_laws R vd vt" and rel: "redb_reliable R"
  shows "records_size_bytes R d = Ok (of_nat (table_bytes (c_tab (vd d) RECORDS_TABLE)))"
proof -
  note r = reliable_ok [OF L rel]
  obtain t where t: "begin_read R d = Ok t" "vt t = vd d" using r(1) by metis
  obtain kvs where es: "t_iter R t RECORDS_TABLE = Ok (map Ok kvs)" using r(9) by metis
  have loop: "\<exists>n. size_loop acc (map Ok kvs) = Ok n" for acc
    by (induction kvs arbitrary: acc) auto
  then obtain n where "size_loop 0 (map Ok kvs) = Ok n" by blast
  then have "records_size_bytes R d = Ok n" using t es r(4) by (simp add: records_size_bytes_def)
  with records_size_bytes_Ok [OF L this] show ?thesis by simp
qed

text \<open>Under the \<^verbatim>\<open>evict_oldest\<close> policy, on a database that does not fail, a check that
  succeeds leaves room: what is stored and what is to be added fit the quota. A check that
  fails has by then evicted every unpinned record, and the eviction stands: adding a
  record larger than the quota empties the store of its unpinned records and is refused.\<close>

theorem check_quota_makes_room:
  assumes "redb_laws R vd vt" and "redb_reliable R" and "index_exact J (vd d)"
    and "sc_quota_action config = lit ''evict_oldest''" and "0 < sc_quota_mb config"
    and "table_bytes (c_tab (vd d) RECORDS_TABLE) + unat additional < 2 ^ 64"
  shows "\<exists>d'. (check_quota R J d config additional = (Ok (), d') \<and>
      table_bytes (c_tab (vd d') RECORDS_TABLE) + unat additional \<le> unat (sc_quota_mb config) * 1048576) \<or>
    (\<exists>e. check_quota R J d config additional = (Err e, d') \<and>
      stored J (vd d') = (\<lambda>k. if k \<in> unpinned J (vd d) then None else stored J (vd d) k) \<and>
      unat (sc_quota_mb config) * 1048576 < table_bytes (c_tab (vd d') RECORDS_TABLE) + unat additional)"
proof -
  let ?b = "table_bytes (c_tab (vd d) RECORDS_TABLE)" and ?q = "(ucast (sc_quota_mb config) :: u64) * 1024 * 1024"
  let ?Q = "unat (sc_quota_mb config) * 1048576"
  let ?c = "of_nat ?b + additional :: u64"
  have size: "records_size_bytes R d = Ok (of_nat ?b)" by (rule records_size_reliable [OF assms(1,2)])
  have q: "unat ?q = ?Q" by (rule unat_megabytes)
  have c: "unat ?c = ?b + unat additional"
  proof -
    have "?c = of_nat (?b + unat additional)" by simp
    then show ?thesis using assms(6) by (simp only: unat_of_nat) (simp add: take_bit_eq_mod)
  qed
  have nz: "sc_quota_mb config \<noteq> 0" using assms(5) by auto
  show ?thesis
  proof (cases "?q < ?c")
    case False
    then have "?b + unat additional \<le> ?Q" using c q by (simp add: word_less_nat_alt not_less)
    moreover have "check_quota R J d config additional = (Ok (), d)"
      using False nz size by (simp add: check_quota_def)
    ultimately show ?thesis by blast
  next
    case True
    have "?b < 2 ^ 64" using assms(6) by linarith
    from evict_oldest_spec [OF assms(1-3) this, of "?c - ?q"]
    obtain victims freed d' where ev: "evict_oldest R J d (?c - ?q) = (Ok freed, d')"
      "evicted J (vd d) victims freed (vd d')" "?c - ?q \<le> freed \<or> victims = unpinned J (vd d)" by blast
    let ?b' = "table_bytes (c_tab (vd d') RECORDS_TABLE)"
    have sum: "?b' + unat freed = ?b" using ev(2) by (simp add: evicted_def)
    then have le: "freed \<le> ?c" using c by (simp add: word_le_nat_alt)
    have left: "unat (?c - freed) = ?b' + unat additional"
      using unat_sub [OF le] c sum by simp
    have need: "unat (?c - ?q) = ?b + unat additional - ?Q"
      using unat_sub [of ?q ?c] True c q by simp
    show ?thesis
    proof (cases "?q < ?c - freed")
      case True
      then have over: "?Q < ?b' + unat additional" using left q by (simp add: word_less_nat_alt)
      then have "\<not> ?c - ?q \<le> freed" using need sum by (simp add: word_le_nat_alt)
      with ev(3) have "victims = unpinned J (vd d)" by simp
      then have "stored J (vd d') = (\<lambda>k. if k \<in> unpinned J (vd d) then None else stored J (vd d) k)"
        using ev(2) by (simp add: evicted_def)
      moreover have "\<exists>e. check_quota R J d config additional = (Err e, d')"
        using True \<open>?q < ?c\<close> nz size ev(1) assms(4) by (simp add: check_quota_def Let_def)
      ultimately show ?thesis using over by blast
    next
      case False
      then have "?b' + unat additional \<le> ?Q" using left q by (simp add: word_less_nat_alt not_less)
      moreover have "check_quota R J d config additional = (Ok (), d')"
        using False \<open>?q < ?c\<close> nz size ev(1) assms(4) by (simp add: check_quota_def Let_def)
      ultimately show ?thesis by blast
    qed
  qed
qed

definition evict_config :: StorageConfig where
  "evict_config = \<lparr>sc_quota_mb = 1, sc_quota_action = lit ''evict_oldest'', sc_tier2_max_mb = 0\<rparr>"

theorem check_quota_makes_room_witness:
  "\<exists>e d'. check_quota mem_redb sample_serde two_records evict_config 2000000 = (Err e, d') \<and>
     stored sample_serde (mem_view d') = Map.empty"
proof -
  have sum: "table_bytes (c_tab (mem_view two_records) RECORDS_TABLE) + unat (2000000 :: u64) < 2 ^ 64"
  proof -
    let ?m = "c_tab (mem_view two_records) RECORDS_TABLE"
    let ?l = "[(lit ''r1'', enc_record (rec_of ''r1'' ''h1'' 5 6)), (lit ''r2'', enc_record (rec_of ''r2'' ''h2'' 5 0))]"
    have "listing ?m ?l"
      by (simp add: listing_def two_records_def mem_records_def mem_view_def lit_def)
    from table_bytes_listing [OF this] rec_of_small [of "''r1''" "''h1''" 5 6] rec_of_small [of "''r2''" "''h2''" 5 0]
    show ?thesis by simp
  qed
  have "c_tab (mem_view two_records) PINS_TABLE = Map.empty"
    by (simp add: two_records_def mem_records_def mem_view_def mem_empty_def)
  then have all: "(\<lambda>k. if k \<in> unpinned sample_serde (mem_view two_records) then None
      else stored sample_serde (mem_view two_records) k) = Map.empty"
    by (auto simp: unpinned_def fun_eq_iff)
  from check_quota_makes_room [OF mem_redb_laws mem_redb_reliable two_records_exact _ _ sum, of evict_config]
  show ?thesis by (auto simp: evict_config_def all)
qed

end
