(* ===== verification/Index.thy ===== *)
theory Index
  imports Expiry
begin

text \<open>
  The inverted index (\<^verbatim>\<open>src/src/storage/index.rs\<close>): one entry per schema and tag, its value
  the ids joined by commas. The main facts, over the ids an entry lists: indexing appends
  the id to the entry of each tag, deindexing removes it, a search returns exactly the ids
  listed under the keys with the prefix it builds, and indexing an id that an entry
  already lists panics.
\<close>

section \<open>Operations\<close>

text \<open>58 is the colon, 44 the comma.\<close>

definition parse_tag :: "ustr \<Rightarrow> ustr \<times> ustr" where
  "parse_tag tag = (case split_once 58 tag of Some (k, v) \<Rightarrow> (k, v) | None \<Rightarrow> ([], tag))"

definition index_key :: "ustr \<Rightarrow> ustr \<Rightarrow> ustr" where
  "index_key schema tag = (case parse_tag tag of (tag_key, tag_value) \<Rightarrow>
     schema @ [0] @ tag_key @ [0] @ tag_value)"

text \<open>The body of the loop of \<^verbatim>\<open>index_record\<close>: the lookup, as an option of an option, and the
  match on it, whose last arm is \<^verbatim>\<open>unreachable!()\<close>.\<close>

definition existing_ids :: "ustr \<Rightarrow> ustr option \<Rightarrow> ustr option option" where
  "existing_ids record_id found = (case found of
     Some current \<Rightarrow> if list_ex (\<lambda>i. i = record_id) (split_on 44 current) then Some None else Some (Some current)
   | None \<Rightarrow> Some (Some []))"

definition index_tag :: "('d, 't) redb \<Rightarrow> 'd \<Rightarrow> ustr \<Rightarrow> ustr \<Rightarrow> ustr \<Rightarrow> (unit, ustr) result \<times> 'd" where
  "index_tag R d record_id schema tag = settle d (
     let key = index_key schema tag in
     rbind (with_ctx ''index write tx'' (begin_write R d)) (\<lambda>t.
     rbind (with_ctx ''open inverted_index'' (open_write R t INVERTED_INDEX_TABLE)) (\<lambda>t.
     rbind (with_ctx ''read inverted_index'' (t_get R t INVERTED_INDEX_TABLE key)) (\<lambda>found.
     rbind (case existing_ids record_id found of
         None \<Rightarrow> Ok t
       | Some (Some current) \<Rightarrow>
           rbind (with_ctx ''reopen inverted_index for write'' (open_write R t INVERTED_INDEX_TABLE)) (\<lambda>t.
             with_ctx ''write inverted_index'' (t_insert R t INVERTED_INDEX_TABLE key
               (if current = [] then record_id else current @ [44] @ record_id)))
       | Some None \<Rightarrow> Panic) (\<lambda>t.
     rbind (with_ctx ''index commit'' (commit R d t)) (\<lambda>d'. Ok ((), d')))))))"

fun index_record :: "('d, 't) redb \<Rightarrow> 'd \<Rightarrow> ustr \<Rightarrow> ustr \<Rightarrow> ustr list \<Rightarrow> (unit, ustr) result \<times> 'd" where
  "index_record R d record_id schema [] = (Ok (), d)"
| "index_record R d record_id schema (tag # tags) =
     (case index_tag R d record_id schema tag of
        (Ok _, d) \<Rightarrow> index_record R d record_id schema tags
      | (Err e, d) \<Rightarrow> (Err e, d) | (Panic, d) \<Rightarrow> (Panic, d))"

definition deindex_tag :: "('d, 't) redb \<Rightarrow> 'd \<Rightarrow> ustr \<Rightarrow> ustr \<Rightarrow> ustr \<Rightarrow> (unit, ustr) result \<times> 'd" where
  "deindex_tag R d record_id schema tag = settle d (
     let key = index_key schema tag in
     rbind (with_ctx ''deindex write tx'' (begin_write R d)) (\<lambda>t.
     rbind (with_ctx ''open inverted_index for deindex'' (open_write R t INVERTED_INDEX_TABLE)) (\<lambda>t.
     rbind (with_ctx ''read inverted_index for deindex'' (t_get R t INVERTED_INDEX_TABLE key)) (\<lambda>existing.
     rbind (case existing of
         None \<Rightarrow> Ok t
       | Some current \<Rightarrow>
           let ids = filter (\<lambda>i. i \<noteq> record_id) (split_on 44 current) in
           rbind (with_ctx ''reopen inverted_index for deindex write'' (open_write R t INVERTED_INDEX_TABLE)) (\<lambda>t.
             if ids = [] then
               rbind (with_ctx ''remove inverted_index entry'' (t_remove R t INVERTED_INDEX_TABLE key)) (\<lambda>(_, t). Ok t)
             else with_ctx ''update inverted_index'' (t_insert R t INVERTED_INDEX_TABLE key (join [44] ids)))) (\<lambda>t.
     rbind (with_ctx ''deindex commit'' (commit R d t)) (\<lambda>d'. Ok ((), d')))))))"

fun deindex_record :: "('d, 't) redb \<Rightarrow> 'd \<Rightarrow> ustr \<Rightarrow> ustr \<Rightarrow> ustr list \<Rightarrow> (unit, ustr) result \<times> 'd" where
  "deindex_record R d record_id schema [] = (Ok (), d)"
| "deindex_record R d record_id schema (tag # tags) =
     (case deindex_tag R d record_id schema tag of
        (Ok _, d) \<Rightarrow> deindex_record R d record_id schema tags
      | (Err e, d) \<Rightarrow> (Err e, d) | (Panic, d) \<Rightarrow> (Panic, d))"

definition search_prefix :: "ustr \<Rightarrow> ustr option \<Rightarrow> ustr option \<Rightarrow> ustr" where
  "search_prefix schema tag_key tag_value = (case (tag_key, tag_value) of
     (Some tk, Some tv) \<Rightarrow> schema @ [0] @ tk @ [0] @ tv
   | (Some tk, None) \<Rightarrow> schema @ [0] @ tk @ [0]
   | (None, None) \<Rightarrow> schema @ [0]
   | (None, Some _) \<Rightarrow> schema @ [0])"

fun push_ids :: "ustr list \<Rightarrow> ustr list \<Rightarrow> ustr list" where
  "push_ids results [] = results"
| "push_ids results (i # is) =
     push_ids (if i \<noteq> [] \<and> i \<notin> set results then results @ [i] else results) is"

fun search_loop :: "ustr \<Rightarrow> ustr list \<Rightarrow> (ustr \<times> ustr, ustr) result list \<Rightarrow> (ustr list, ustr) result" where
  "search_loop prefix results [] = Ok results"
| "search_loop prefix results (entry # es) =
     rbind (with_ctx ''search read entry'' entry) (\<lambda>(key, v).
       if \<not> starts_with prefix key then search_loop prefix results es
       else search_loop prefix (push_ids results (split_on 44 v)) es)"

definition search_index :: "('d, 't) redb \<Rightarrow> 'd \<Rightarrow> ustr \<Rightarrow> ustr option \<Rightarrow> ustr option \<Rightarrow> (ustr list, ustr) result" where
  "search_index R d schema tag_key tag_value =
     rbind (with_ctx ''search read tx'' (begin_read R d)) (\<lambda>t.
     rbind (with_ctx ''open inverted_index for search'' (open_read R t INVERTED_INDEX_TABLE)) (\<lambda>_.
     rbind (with_ctx ''search iter'' (t_iter R t INVERTED_INDEX_TABLE)) (\<lambda>es.
       search_loop (search_prefix schema tag_key tag_value) [] es)))"

section \<open>The ids an entry lists\<close>

definition listed :: "contents \<Rightarrow> ustr \<Rightarrow> ustr list" where
  "listed c key = (case c_tab c INVERTED_INDEX_TABLE key of None \<Rightarrow> []
     | Some s \<Rightarrow> filter (\<lambda>i. i \<noteq> []) (split_on 44 s))"

text \<open>An id that can stand in an entry.\<close>

definition plain_id :: "ustr \<Rightarrow> bool" where
  "plain_id i \<longleftrightarrow> i \<noteq> [] \<and> 44 \<notin> set i"

lemma split_on_snoc: "split_on c (a @ c # b) = split_on c a @ split_on c b"
  by (induction a) (auto split: list.splits)

lemma split_on_eq_Nil_piece: "split_on c s = [[]] \<longleftrightarrow> s = []"
  by (cases s) (auto split: list.splits)

lemma listed_put_del [simp]:
  "listed (put INVERTED_INDEX_TABLE key s c) k = (if k = key then filter (\<lambda>i. i \<noteq> []) (split_on 44 s) else listed c k)"
  "listed (del INVERTED_INDEX_TABLE key c) k = (if k = key then [] else listed c k)"
  "n \<noteq> INVERTED_INDEX_TABLE \<Longrightarrow> listed (put n key s c) k = listed c k"
  "n \<noteq> INVERTED_INDEX_TABLE \<Longrightarrow> listed (del n key c) k = listed c k"
  by (auto simp: listed_def)

lemma existing_ids_simps:
  assumes "plain_id i"
  shows "i \<in> set (listed c key) \<Longrightarrow> existing_ids i (c_tab c INVERTED_INDEX_TABLE key) = Some None"
    and "i \<notin> set (listed c key) \<Longrightarrow> existing_ids i (c_tab c INVERTED_INDEX_TABLE key) =
      Some (Some (case c_tab c INVERTED_INDEX_TABLE key of None \<Rightarrow> [] | Some s \<Rightarrow> s))"
  using assms
  by (cases "c_tab c INVERTED_INDEX_TABLE key"; force simp: existing_ids_def listed_def plain_id_def list_ex_iff)+

text \<open>What the index operations touch.\<close>

definition only_index :: "contents \<Rightarrow> contents \<Rightarrow> bool" where
  "only_index c c' \<longleftrightarrow> (\<forall>n. n \<noteq> INVERTED_INDEX_TABLE \<longrightarrow> c_tab c' n = c_tab c n)"

lemma only_index_refl [simp]: "only_index c c"
  by (simp add: only_index_def)

lemma only_index_trans: "only_index a b \<Longrightarrow> only_index b c \<Longrightarrow> only_index a c"
  by (simp add: only_index_def)

lemma only_index_stored: "only_index c c' \<Longrightarrow> stored J c' k = stored J c k"
  by (simp add: only_index_def stored_def)

lemma only_index_dedup_inv: "only_index c c' \<Longrightarrow> dedup_inv J c' = dedup_inv J c"
  by (simp add: only_index_def dedup_inv_def)

lemma only_index_exact: "only_index c c' \<Longrightarrow> index_exact J c' = index_exact J c"
  by (simp add: index_exact_def only_index_dedup_inv only_index_stored) (simp add: only_index_def)

lemma settled_index [simp]: "settled d (index_tag R d i schema tag)" "settled d (deindex_tag R d i schema tag)"
  by (simp_all only: index_tag_def deindex_tag_def settled_settle)

lemma index_tag_only:
  assumes L: "redb_laws R vd vt"
  shows "only_index (vd d) (vd (snd (index_tag R d i schema tag)))"
proof (rule settled_keeps [where P = "\<lambda>d'. only_index (vd d) (vd d')", OF settled_index(1)])
  fix u d' assume "index_tag R d i schema tag = (Ok u, d')"
  then obtain t t1 found t2 where t: "begin_write R d = Ok t" "open_write R t INVERTED_INDEX_TABLE = Ok t1"
    "t_get R t1 INVERTED_INDEX_TABLE (index_key schema tag) = Ok found"
    and t2: "(case existing_ids i found of
         None \<Rightarrow> Ok t1
       | Some (Some current) \<Rightarrow>
           rbind (with_ctx ''reopen inverted_index for write'' (open_write R t1 INVERTED_INDEX_TABLE)) (\<lambda>t.
             with_ctx ''write inverted_index'' (t_insert R t INVERTED_INDEX_TABLE (index_key schema tag)
               (if current = [] then i else current @ [44] @ i)))
       | Some None \<Rightarrow> Panic) = Ok t2" and d': "commit R d t2 = Ok d'"
    by (auto simp: index_tag_def res_simps Let_def)
  have "only_index (vt t1) (vt t2)"
    using t2 by (auto simp: res_simps only_index_def split: option.splits dest!: redb_tx [OF L])
  then show "only_index (vd d) (vd d')"
    using redb_begin [OF L] redb_tx(1) [OF L] t d' by metis
qed simp

lemma deindex_tag_only:
  assumes L: "redb_laws R vd vt"
  shows "only_index (vd d) (vd (snd (deindex_tag R d i schema tag)))"
proof (rule settled_keeps [where P = "\<lambda>d'. only_index (vd d) (vd d')", OF settled_index(2)])
  fix u d' assume "deindex_tag R d i schema tag = (Ok u, d')"
  then show "only_index (vd d) (vd d')"
    by (auto simp: deindex_tag_def res_simps Let_def only_index_def
        split: option.splits if_splits dest!: redb_steps [OF L])
qed simp

lemma index_record_only:
  assumes L: "redb_laws R vd vt"
  shows "only_index (vd d) (vd (snd (index_record R d i schema tags)))"
proof (induction tags arbitrary: d)
  case (Cons tag tags)
  with index_tag_only [OF L, of d i schema tag] show ?case
    by (auto split: prod.splits result.splits intro: only_index_trans)
qed simp

lemma deindex_record_only:
  assumes L: "redb_laws R vd vt"
  shows "only_index (vd d) (vd (snd (deindex_record R d i schema tags)))"
proof (induction tags arbitrary: d)
  case (Cons tag tags)
  with deindex_tag_only [OF L, of d i schema tag] show ?case
    by (auto split: prod.splits result.splits intro: only_index_trans)
qed simp

section \<open>What is listed after an operation\<close>

lemma listed_appended:
  assumes "plain_id i"
  shows "filter (\<lambda>x. x \<noteq> []) (split_on 44 (if s = [] then i else s @ [44] @ i)) =
    filter (\<lambda>x. x \<noteq> []) (split_on 44 s) @ [i]"
  using assms by (simp add: plain_id_def split_on_absent split_on_snoc)

lemma index_tag_new:
  assumes L: "redb_laws R vd vt" and rel: "redb_reliable R" and i: "plain_id i"
    and new: "i \<notin> set (listed (vd d) (index_key schema tag))"
  shows "\<exists>d'. index_tag R d i schema tag = (Ok (), d') \<and>
    listed (vd d') = (listed (vd d))(index_key schema tag := listed (vd d) (index_key schema tag) @ [i])"
proof -
  let ?key = "index_key schema tag"
  let ?cur = "case c_tab (vd d) INVERTED_INDEX_TABLE ?key of None \<Rightarrow> [] | Some s \<Rightarrow> s"
  let ?new = "if ?cur = [] then i else ?cur @ [44] @ i"
  note r = reliable_ok [OF L rel]
  obtain t where t: "begin_write R d = Ok t" "vt t = vd d" using r(2) by metis
  obtain t1 where t1: "open_write R t INVERTED_INDEX_TABLE = Ok t1" "vt t1 = vd d" using r(5) t(2) by metis
  have g: "t_get R t1 INVERTED_INDEX_TABLE ?key = Ok (c_tab (vd d) INVERTED_INDEX_TABLE ?key)"
    using r(6) t1(2) by metis
  obtain t2 where t2: "open_write R t1 INVERTED_INDEX_TABLE = Ok t2" "vt t2 = vd d" using r(5) t1(2) by metis
  obtain t3 where t3: "t_insert R t2 INVERTED_INDEX_TABLE ?key ?new = Ok t3"
      "vt t3 = put INVERTED_INDEX_TABLE ?key ?new (vd d)" using r(7) t2(2) by metis
  obtain d' where d': "commit R d t3 = Ok d'" "vd d' = put INVERTED_INDEX_TABLE ?key ?new (vd d)"
    using r(3) t3(2) by metis
  have run: "index_tag R d i schema tag = (Ok (), d')"
    using t(1) t1(1) g t2(1) t3(1) d'(1) existing_ids_simps(2) [OF i new]
    by (simp only: index_tag_def Let_def) simp
  have "listed (vd d) ?key = filter (\<lambda>x. x \<noteq> []) (split_on 44 ?cur)"
    by (simp add: listed_def split: option.splits)
  then have "listed (vd d') = (listed (vd d))(?key := listed (vd d) ?key @ [i])"
    by (auto simp only: d'(2) listed_put_del listed_appended [OF i] fun_upd_def fun_eq_iff)
  with run show ?thesis by blast
qed

lemma index_tag_again:
  assumes L: "redb_laws R vd vt" and rel: "redb_reliable R" and i: "plain_id i"
    and old: "i \<in> set (listed (vd d) (index_key schema tag))"
  shows "index_tag R d i schema tag = (Panic, d)"
proof -
  note r = reliable_ok [OF L rel]
  obtain t where t: "begin_write R d = Ok t" "vt t = vd d" using r(2) by metis
  obtain t1 where t1: "open_write R t INVERTED_INDEX_TABLE = Ok t1" "vt t1 = vd d" using r(5) t(2) by metis
  have g: "t_get R t1 INVERTED_INDEX_TABLE (index_key schema tag) =
      Ok (c_tab (vd d) INVERTED_INDEX_TABLE (index_key schema tag))"
    using r(6) t1(2) by metis
  show ?thesis
    using t(1) t1(1) g existing_ids_simps(1) [OF i old] by (simp add: index_tag_def Let_def)
qed

lemma filter_join_ids:
  assumes "xs \<noteq> []" "\<forall>x \<in> set xs. 44 \<notin> set x"
  shows "filter (\<lambda>x. x \<noteq> []) (split_on 44 (join [44] xs)) = filter (\<lambda>x. x \<noteq> []) xs"
  using assms by (simp add: split_on_join)

lemma deindex_tag_reliable:
  assumes L: "redb_laws R vd vt" and rel: "redb_reliable R"
  shows "\<exists>d'. deindex_tag R d i schema tag = (Ok (), d') \<and>
    listed (vd d') = (listed (vd d))(index_key schema tag :=
      filter (\<lambda>x. x \<noteq> i) (listed (vd d) (index_key schema tag)))"
proof -
  let ?key = "index_key schema tag"
  note r = reliable_ok [OF L rel]
  obtain t where t: "begin_write R d = Ok t" "vt t = vd d" using r(2) by metis
  obtain t1 where t1: "open_write R t INVERTED_INDEX_TABLE = Ok t1" "vt t1 = vd d" using r(5) t(2) by metis
  have g: "t_get R t1 INVERTED_INDEX_TABLE ?key = Ok (c_tab (vd d) INVERTED_INDEX_TABLE ?key)"
    using r(6) t1(2) by metis
  obtain t2 where t2: "open_write R t1 INVERTED_INDEX_TABLE = Ok t2" "vt t2 = vd d" using r(5) t1(2) by metis
  show ?thesis
  proof (cases "c_tab (vd d) INVERTED_INDEX_TABLE ?key")
    case None
    obtain d' where "commit R d t1 = Ok d'" "vd d' = vd d" using r(3) t1(2) by metis
    with None t t1 g show ?thesis
      by (auto simp: deindex_tag_def Let_def listed_def fun_eq_iff)
  next
    case (Some s)
    let ?ids = "filter (\<lambda>x. x \<noteq> i) (split_on 44 s)"
    have l: "listed (vd d) ?key = filter (\<lambda>x. x \<noteq> []) (split_on 44 s)" using Some by (simp add: listed_def)
    have sw: "filter (\<lambda>x. x \<noteq> i) (filter (\<lambda>x. x \<noteq> []) ys) = filter (\<lambda>x. x \<noteq> []) (filter (\<lambda>x. x \<noteq> i) ys)" for ys :: "ustr list"
      by (simp add: conj_commute)
    show ?thesis
    proof (cases "?ids = []")
      case True
      obtain v t3 where t3: "t_remove R t2 INVERTED_INDEX_TABLE ?key = Ok (v, t3)"
          "vt t3 = del INVERTED_INDEX_TABLE ?key (vd d)" using r(8) t2(2) by metis
      obtain d' where d': "commit R d t3 = Ok d'" "vd d' = del INVERTED_INDEX_TABLE ?key (vd d)"
        using r(3) t3(2) by metis
      have "listed (vd d') = (listed (vd d))(?key := filter (\<lambda>x. x \<noteq> i) (listed (vd d) ?key))"
        unfolding l sw True by (simp add: d'(2) fun_eq_iff)
      with Some True t(1) t1(1) t2(1) t3(1) d'(1) g show ?thesis
        by (simp add: deindex_tag_def Let_def)
    next
      case False
      obtain t3 where t3: "t_insert R t2 INVERTED_INDEX_TABLE ?key (join [44] ?ids) = Ok t3"
          "vt t3 = put INVERTED_INDEX_TABLE ?key (join [44] ?ids) (vd d)" using r(7) t2(2) by metis
      obtain d' where d': "commit R d t3 = Ok d'" "vd d' = put INVERTED_INDEX_TABLE ?key (join [44] ?ids) (vd d)"
        using r(3) t3(2) by metis
      have "filter (\<lambda>x. x \<noteq> []) (split_on 44 (join [44] ?ids)) = filter (\<lambda>x. x \<noteq> []) ?ids"
        by (rule filter_join_ids [OF False]) (auto dest: split_on_pieces)
      then have "listed (vd d') = (listed (vd d))(?key := filter (\<lambda>x. x \<noteq> i) (listed (vd d) ?key))"
        unfolding l sw by (simp add: d'(2) fun_eq_iff)
      with Some False t(1) t1(1) t2(1) t3(1) d'(1) g show ?thesis
        by (simp add: deindex_tag_def Let_def)
    qed
  qed
qed

text \<open>Whole records. \<open>indexable\<close>: the tags have distinct keys and no entry lists the id yet.\<close>

definition indexable :: "contents \<Rightarrow> ustr \<Rightarrow> ustr \<Rightarrow> ustr list \<Rightarrow> bool" where
  "indexable c i schema tags \<longleftrightarrow> distinct (map (index_key schema) tags) \<and>
     (\<forall>tag \<in> set tags. i \<notin> set (listed c (index_key schema tag)))"

definition keys_of :: "ustr \<Rightarrow> ustr list \<Rightarrow> ustr set" where
  "keys_of schema tags = index_key schema ` set tags"

lemma indexable_Cons:
  "indexable c i schema (tag # tags) \<longleftrightarrow> i \<notin> set (listed c (index_key schema tag)) \<and>
     index_key schema tag \<notin> keys_of schema tags \<and> indexable c i schema tags"
  by (auto simp: indexable_def keys_of_def)

lemma indexable_appended:
  assumes "listed c' = (listed c)(key := listed c key @ [i])"
  shows "indexable c' i schema tags \<longleftrightarrow> key \<notin> keys_of schema tags \<and> indexable c i schema tags"
proof -
  have "i \<notin> set (listed c' k) \<longleftrightarrow> k \<noteq> key \<and> i \<notin> set (listed c k)" for k
    using assms by simp
  then show ?thesis
    unfolding indexable_def keys_of_def by (simp only:) fast
qed

lemma index_record_new:
  assumes L: "redb_laws R vd vt" and rel: "redb_reliable R" and i: "plain_id i"
    and "indexable (vd d) i schema tags"
  shows "\<exists>d'. index_record R d i schema tags = (Ok (), d') \<and>
    listed (vd d') = (\<lambda>k. if k \<in> keys_of schema tags then listed (vd d) k @ [i] else listed (vd d) k)"
  using assms(4)
proof (induction tags arbitrary: d)
  case (Cons tag tags)
  let ?key = "index_key schema tag"
  have "i \<notin> set (listed (vd d) ?key)" and dist: "?key \<notin> keys_of schema tags"
    using Cons.prems by (simp_all add: indexable_Cons)
  then obtain d1 where d1: "index_tag R d i schema tag = (Ok (), d1)"
    "listed (vd d1) = (listed (vd d))(?key := listed (vd d) ?key @ [i])"
    using index_tag_new [OF L rel i] by blast
  have "indexable (vd d1) i schema tags"
    using Cons.prems dist by (simp add: indexable_appended [OF d1(2)] indexable_Cons)
  from Cons.IH [OF this] obtain d' where d': "index_record R d1 i schema tags = (Ok (), d')"
    "listed (vd d') = (\<lambda>k. if k \<in> keys_of schema tags then listed (vd d1) k @ [i] else listed (vd d1) k)"
    by blast
  have "listed (vd d') = (\<lambda>k. if k \<in> keys_of schema (tag # tags) then listed (vd d) k @ [i] else listed (vd d) k)"
    using dist by (auto simp: d'(2) d1(2) keys_of_def fun_eq_iff)
  with d1(1) d'(1) show ?case by simp
qed (simp add: keys_of_def)

lemma deindex_record_reliable:
  assumes L: "redb_laws R vd vt" and rel: "redb_reliable R"
  shows "\<exists>d'. deindex_record R d i schema tags = (Ok (), d') \<and>
    listed (vd d') = (\<lambda>k. if k \<in> keys_of schema tags then filter (\<lambda>x. x \<noteq> i) (listed (vd d) k) else listed (vd d) k)"
proof (induction tags arbitrary: d)
  case (Cons tag tags)
  let ?key = "index_key schema tag"
  obtain d1 where d1: "deindex_tag R d i schema tag = (Ok (), d1)"
    "listed (vd d1) = (listed (vd d))(?key := filter (\<lambda>x. x \<noteq> i) (listed (vd d) ?key))"
    using deindex_tag_reliable [OF L rel] by blast
  from Cons.IH [of d1] obtain d' where d': "deindex_record R d1 i schema tags = (Ok (), d')"
    "listed (vd d') = (\<lambda>k. if k \<in> keys_of schema tags then filter (\<lambda>x. x \<noteq> i) (listed (vd d1) k) else listed (vd d1) k)"
    by blast
  have "listed (vd d') = (\<lambda>k. if k \<in> keys_of schema (tag # tags) then filter (\<lambda>x. x \<noteq> i) (listed (vd d) k) else listed (vd d) k)"
    by (auto simp: d'(2) d1(2) keys_of_def fun_eq_iff)
  with d1(1) d'(1) show ?case by simp
qed (simp add: keys_of_def)

text \<open>Indexing a record whose id is not listed under any of its tags, with no two tags under
  one key, succeeds and appends the id to the entry of each tag and to no other; deindexing
  it afterwards succeeds and gives back every entry as it was.\<close>

theorem index_deindex_roundtrip:
  assumes "redb_laws R vd vt" and "redb_reliable R" and "plain_id i"
    and "indexable (vd d) i schema tags"
  shows "\<exists>d1 d2. index_record R d i schema tags = (Ok (), d1) \<and>
    listed (vd d1) = (\<lambda>k. if k \<in> keys_of schema tags then listed (vd d) k @ [i] else listed (vd d) k) \<and>
    deindex_record R d1 i schema tags = (Ok (), d2) \<and> listed (vd d2) = listed (vd d)"
proof -
  obtain d1 where d1: "index_record R d i schema tags = (Ok (), d1)"
    "listed (vd d1) = (\<lambda>k. if k \<in> keys_of schema tags then listed (vd d) k @ [i] else listed (vd d) k)"
    using index_record_new [OF assms] by blast
  obtain d2 where d2: "deindex_record R d1 i schema tags = (Ok (), d2)"
    "listed (vd d2) = (\<lambda>k. if k \<in> keys_of schema tags then filter (\<lambda>x. x \<noteq> i) (listed (vd d1) k) else listed (vd d1) k)"
    using deindex_record_reliable [OF assms(1,2)] by blast
  have "filter (\<lambda>x. x \<noteq> i) (listed (vd d) k @ [i]) = listed (vd d) k" if "k \<in> keys_of schema tags" for k
    using that assms(4) by (auto simp: indexable_def keys_of_def filter_id_conv)
  then have "listed (vd d2) = listed (vd d)" by (auto simp: d2(2) d1(2) fun_eq_iff)
  with d1 d2(1) show ?thesis by blast
qed

theorem index_deindex_roundtrip_witness:
  "\<exists>d1 d2. index_record mem_redb mem_empty (lit ''r1'') (lit ''s'') [lit ''lang:en'', lit ''x''] = (Ok (), d1) \<and>
     listed (mem_view d1) (index_key (lit ''s'') (lit ''x'')) = [lit ''r1''] \<and>
     deindex_record mem_redb d1 (lit ''r1'') (lit ''s'') [lit ''lang:en'', lit ''x''] = (Ok (), d2)"
proof -
  have l: "listed (mem_view mem_empty) k = []" for k
    by (simp add: listed_def mem_view_def mem_empty_def)
  have i: "plain_id (lit ''r1'')" by (simp add: plain_id_def lit_def)
  have ix: "indexable (mem_view mem_empty) (lit ''r1'') (lit ''s'') [lit ''lang:en'', lit ''x'']"
    by (simp add: indexable_def l index_key_def parse_tag_def lit_def)
  from index_deindex_roundtrip [OF mem_redb_laws mem_redb_reliable i ix] show ?thesis
    by (auto simp: l keys_of_def)
qed

text \<open>C7: Indexing panics in exactly two cases: an entry of one of the tags lists the id already,
  or two of the tags have the same key. The lookup signals ``already indexed, skip'' by a
  value the match takes for unreachable, so the branch meant to skip is never taken. In
  every other case indexing succeeds.\<close>

theorem index_record_panics_iff:
  assumes "redb_laws R vd vt" and "redb_reliable R" and "plain_id i"
  shows "fst (index_record R d i schema tags) =
    (if indexable (vd d) i schema tags then Ok () else Panic)"
proof (induction tags arbitrary: d)
  case Nil
  show ?case by (simp add: indexable_def)
next
  case (Cons tag tags)
  let ?key = "index_key schema tag"
  show ?case
  proof (cases "i \<in> set (listed (vd d) ?key)")
    case True
    then show ?thesis
      using index_tag_again [OF assms, of d schema tag] by (simp add: indexable_def)
  next
    case False
    then obtain d1 where d1: "index_tag R d i schema tag = (Ok (), d1)"
      "listed (vd d1) = (listed (vd d))(?key := listed (vd d) ?key @ [i])"
      using index_tag_new [OF assms] by blast
    have "indexable (vd d1) i schema tags \<longleftrightarrow> indexable (vd d) i schema (tag # tags)"
      using False by (simp add: indexable_appended [OF d1(2)] indexable_Cons)
    with Cons.IH [of d1] d1(1) show ?thesis by simp
  qed
qed

theorem index_record_panics_iff_witness:
  "fst (index_record mem_redb mem_empty (lit ''r1'') (lit ''s'') [lit ''lang:en'', lit ''lang:en'']) = Panic"
proof -
  have i: "plain_id (lit ''r1'')" by (simp add: plain_id_def lit_def)
  have "\<not> indexable (mem_view mem_empty) (lit ''r1'') (lit ''s'') [lit ''lang:en'', lit ''lang:en'']"
    by (simp add: indexable_def)
  with index_record_panics_iff [OF mem_redb_laws mem_redb_reliable i] show ?thesis by metis
qed

section \<open>Search\<close>

lemma push_ids_spec:
  "distinct rs \<Longrightarrow> distinct (push_ids rs is) \<and> set (push_ids rs is) = set rs \<union> set (filter (\<lambda>i. i \<noteq> []) is)"
  by (induction rs "is" rule: push_ids.induct) auto

lemma search_loop_spec:
  "distinct rs \<Longrightarrow> \<exists>ids. search_loop p rs (map Ok kvs) = Ok ids \<and> distinct ids \<and>
     set ids = set rs \<union> {i. i \<noteq> [] \<and> (\<exists>k v. (k, v) \<in> set kvs \<and> starts_with p k \<and> i \<in> set (split_on 44 v))}"
proof (induction kvs arbitrary: rs)
  case (Cons kv kvs)
  obtain k v where kv: "kv = (k, v)" by force
  show ?case
  proof (cases "starts_with p k")
    case True
    from push_ids_spec [OF Cons.prems, of "split_on 44 v"] Cons.IH [of "push_ids rs (split_on 44 v)"] True
    obtain ids where "search_loop p (push_ids rs (split_on 44 v)) (map Ok kvs) = Ok ids" "distinct ids"
      "set ids = set rs \<union> {i \<in> set (split_on 44 v). i \<noteq> []} \<union>
        {i. i \<noteq> [] \<and> (\<exists>k v. (k, v) \<in> set kvs \<and> starts_with p k \<and> i \<in> set (split_on 44 v))}"
      by auto
    moreover from this(3) True have "set ids = set rs \<union>
        {i. i \<noteq> [] \<and> (\<exists>k v. (k, v) \<in> set (kv # kvs) \<and> starts_with p k \<and> i \<in> set (split_on 44 v))}"
      unfolding kv by (simp only: list.set insert_iff prod.inject) blast
    ultimately show ?thesis using True by (intro exI [of _ ids]) (simp add: kv)
  next
    case False
    from Cons.IH [OF Cons.prems] obtain ids where "search_loop p rs (map Ok kvs) = Ok ids" "distinct ids"
      "set ids = set rs \<union>
        {i. i \<noteq> [] \<and> (\<exists>k v. (k, v) \<in> set kvs \<and> starts_with p k \<and> i \<in> set (split_on 44 v))}"
      by blast
    moreover from this(3) False have "set ids = set rs \<union>
        {i. i \<noteq> [] \<and> (\<exists>k v. (k, v) \<in> set (kv # kvs) \<and> starts_with p k \<and> i \<in> set (split_on 44 v))}"
      unfolding kv by (simp only: list.set insert_iff prod.inject) blast
    ultimately show ?thesis using False by (intro exI [of _ ids]) (simp add: kv)
  qed
qed simp

text \<open>A search of the index succeeds on a database that does not fail and returns, each
  once, exactly the ids listed in the entries whose key begins with the prefix built from
  the filters. The prefix of a value filter has no terminator, so a search for one value
  also returns the ids of every value it is a prefix of.\<close>

theorem search_index_exact:
  assumes "redb_laws R vd vt" and "redb_reliable R"
  shows "\<exists>ids. search_index R d schema tag_key tag_value = Ok ids \<and> distinct ids \<and>
    set ids = (\<Union>k \<in> {k. starts_with (search_prefix schema tag_key tag_value) k}. set (listed (vd d) k))"
proof -
  let ?p = "search_prefix schema tag_key tag_value"
  note r = reliable_ok [OF assms]
  obtain t where t: "begin_read R d = Ok t" "vt t = vd d" using r(1) by metis
  obtain kvs where es: "t_iter R t INVERTED_INDEX_TABLE = Ok (map Ok kvs)"
    and kvs: "listing (c_tab (vd d) INVERTED_INDEX_TABLE) kvs" using r(9) t(2) by metis
  obtain ids where ids: "search_loop ?p [] (map Ok kvs) = Ok ids" "distinct ids"
    "set ids = {i. i \<noteq> [] \<and> (\<exists>k v. (k, v) \<in> set kvs \<and> starts_with ?p k \<and> i \<in> set (split_on 44 v))}"
    using search_loop_spec [of "[]" ?p kvs] by auto
  have "set ids = (\<Union>k \<in> {k. starts_with ?p k}. set (listed (vd d) k))"
  proof (rule set_eqI)
    fix i
    have "i \<in> set (listed (vd d) k) \<longleftrightarrow> i \<noteq> [] \<and> (\<exists>v. (k, v) \<in> set kvs \<and> i \<in> set (split_on 44 v))" for k
      by (cases "c_tab (vd d) INVERTED_INDEX_TABLE k") (auto simp: listing_mem [OF kvs] listed_def)
    then show "i \<in> set ids \<longleftrightarrow> i \<in> (\<Union>k \<in> {k. starts_with ?p k}. set (listed (vd d) k))"
      unfolding ids(3) by auto
  qed
  moreover have "search_index R d schema tag_key tag_value = Ok ids"
    using t(1) es ids(1) r(4) by (simp add: search_index_def)
  ultimately show ?thesis using ids(2) by blast
qed

theorem search_index_exact_witness:
  "\<exists>ids. search_index mem_redb (mem_empty\<lparr>m_tab := (m_tab mem_empty)(INVERTED_INDEX_TABLE :=
       [(index_key (lit ''s'') (lit ''lang:eng''), lit ''r1'')])\<rparr>) (lit ''s'') (Some (lit ''lang'')) (Some (lit ''en'')) = Ok ids \<and>
     lit ''r1'' \<in> set ids"
proof -
  let ?d = "mem_empty\<lparr>m_tab := (m_tab mem_empty)(INVERTED_INDEX_TABLE :=
       [(index_key (lit ''s'') (lit ''lang:eng''), lit ''r1'')])\<rparr>"
  let ?k = "index_key (lit ''s'') (lit ''lang:eng'')"
  have "starts_with (search_prefix (lit ''s'') (Some (lit ''lang'')) (Some (lit ''en''))) ?k"
    by (simp add: search_prefix_def index_key_def parse_tag_def lit_def starts_with_def)
  moreover have "lit ''r1'' \<in> set (listed (mem_view ?d) ?k)"
    by (simp add: listed_def mem_view_def lit_def)
  ultimately show ?thesis
    using search_index_exact [OF mem_redb_laws mem_redb_reliable, of ?d "lit ''s''" "Some (lit ''lang'')" "Some (lit ''en'')"]
    by auto
qed

end
