(* ===== verification/Limits.thy ===== *)
theory Limits
  imports Sign
begin

text \<open>
  The rate limits: announcements per address (\<^verbatim>\<open>src/src/storage/tier2_limiter.rs\<close>), relayed
  bytes per peer (\<^verbatim>\<open>src/src/node/relay.rs\<close>), gateway requests per key
  (\<^verbatim>\<open>check_rate_limit\<close> of \<^verbatim>\<open>src/src/api/gateway_keys.rs\<close>). The first two share a contract,
  a budget per key and window, whose consequences are proved once: what is granted within
  one window, what can be granted within any interval of that length, and that the
  remaining budget predicts the next answer. An \<^verbatim>\<open>Instant\<close> is the number of time units since
  some moment; every operation is given the time it reads.
\<close>

section \<open>The contract\<close>

text \<open>The charge and the end of the window that a request at time \<open>now\<close> meets.\<close>

definition live :: "nat \<Rightarrow> nat \<Rightarrow> (nat \<times> nat) option \<Rightarrow> nat \<times> nat" where
  "live w now a = (case a of None \<Rightarrow> (0, now + w)
     | Some (u, e) \<Rightarrow> if e \<le> now then (0, now + w) else (u, e))"

locale window_limiter =
  fixes allow :: "nat \<Rightarrow> 'k \<Rightarrow> nat \<Rightarrow> 's \<Rightarrow> bool \<times> 's"
    and remaining :: "nat \<Rightarrow> 'k \<Rightarrow> 's \<Rightarrow> nat"
    and prune :: "nat \<Rightarrow> 's \<Rightarrow> 's"
    and acct :: "'s \<Rightarrow> 'k \<Rightarrow> (nat \<times> nat) option"
    and limit :: "'s \<Rightarrow> nat" and window :: "'s \<Rightarrow> nat"
    and ok :: "'s \<Rightarrow> nat \<Rightarrow> bool" and within :: "'s \<Rightarrow> bool"
  assumes within_acct: "within s \<Longrightarrow> acct s k = Some (u, e) \<Longrightarrow> u \<le> limit s"
    and allow_iff: "within s \<Longrightarrow> ok s n \<Longrightarrow>
      fst (allow now k n s) \<longleftrightarrow> fst (live (window s) now (acct s k)) + n \<le> limit s"
    and allow_acct: "within s \<Longrightarrow> ok s n \<Longrightarrow> acct (snd (allow now k n s)) =
      (acct s)(k \<mapsto> (let (u, e) = live (window s) now (acct s k)
         in (if fst (allow now k n s) then u + n else u, e)))"
    and allow_keeps: "within s \<Longrightarrow> ok s n \<Longrightarrow> within (snd (allow now k n s)) \<and>
      limit (snd (allow now k n s)) = limit s \<and> window (snd (allow now k n s)) = window s \<and>
      ok (snd (allow now k n s)) = ok s"
    and remaining_eq: "remaining now k s = limit s - fst (live (window s) now (acct s k))"
    and prune_live: "live (window s) now (acct (prune now s) k) = live (window s) now (acct s k)"
    and prune_keeps: "limit (prune now s) = limit s \<and> window (prune now s) = window s"
begin

text \<open>A run of requests, and what it grants to a key.\<close>

fun grants :: "'k \<Rightarrow> 's \<Rightarrow> (nat \<times> 'k \<times> nat) list \<Rightarrow> nat" where
  "grants k s [] = 0"
| "grants k s ((now, k', n) # es) =
     (case allow now k' n s of (b, s') \<Rightarrow> (if b \<and> k' = k then n else 0) + grants k s' es)"

lemma remaining_predicts:
  "within s \<Longrightarrow> ok s n \<Longrightarrow> 0 < n \<Longrightarrow> fst (allow now k n s) \<longleftrightarrow> n \<le> remaining now k s"
proof -
  assume a: "within s" "ok s n" "0 < n"
  have "fst (live (window s) now (acct s k)) \<le> limit s"
    using within_acct [OF a(1)] by (auto simp: live_def split: option.splits)
  with a show ?thesis by (auto simp: allow_iff remaining_eq)
qed

lemma prune_remaining: "remaining now k (prune now s) = remaining now k s"
  by (simp add: remaining_eq prune_keeps prune_live)

text \<open>Within one window no more than the limit is granted.\<close>

lemma grants_one_window:
  assumes "within s" "acct s k = Some (u, e)" "\<forall>(t, _, n) \<in> set es. t < e \<and> ok s n"
  shows "u + grants k s es \<le> limit s"
  using assms
proof (induction es arbitrary: s u)
  case Nil
  then show ?case using within_acct by simp
next
  case (Cons ev es)
  obtain t k' n where ev: "ev = (t, k', n)" by (cases ev) auto
  obtain b s' where step: "allow t k' n s = (b, s')" by force
  have te: "t < e" "ok s n" using Cons.prems(3) by (auto simp: ev)
  have keeps: "within s'" "limit s' = limit s" "ok s' = ok s"
    using allow_keeps [OF Cons.prems(1) te(2), of t k'] by (simp_all add: step)
  have rest: "\<forall>(t, _, n) \<in> set es. t < e \<and> ok s' n" using Cons.prems(3) keeps(3) by auto
  show ?case
  proof (cases "k' = k")
    case True
    have "acct s' k = Some (if b then u + n else u, e)"
      using allow_acct [OF Cons.prems(1) te(2), of t k'] te(1) Cons.prems(2) True step
      by (simp add: live_def)
    from Cons.IH [OF keeps(1) this rest] show ?thesis
      using True keeps(2) step by (cases b) (simp_all add: ev)
  next
    case False
    have "acct s' k = Some (u, e)"
      using allow_acct [OF Cons.prems(1) te(2), of t k'] Cons.prems(2) False by (simp add: step)
    from Cons.IH [OF keeps(1) this rest] show ?thesis
      using False keeps(2) by (simp add: ev step)
  qed
qed

text \<open>Over any interval as long as a window: what the window open at its start has left, and
  one more limit.\<close>

definition slack :: "'s \<Rightarrow> 'k \<Rightarrow> nat" where
  "slack s k = (case acct s k of None \<Rightarrow> 0 | Some (u, e) \<Rightarrow> limit s - u)"

lemma grants_interval:
  assumes "within s" "\<forall>(t, _, n) \<in> set es. a \<le> t \<and> t < a + window s \<and> ok s n"
  shows "grants k s es \<le> slack s k + limit s"
  using assms
proof (induction es arbitrary: s)
  case (Cons ev es)
  obtain t k' n where ev: "ev = (t, k', n)" by (cases ev) auto
  obtain b s' where step: "allow t k' n s = (b, s')" by force
  have ta: "a \<le> t" "t < a + window s" "ok s n" using Cons.prems(2) by (auto simp: ev)
  have keeps: "within s'" "limit s' = limit s" "window s' = window s" "ok s' = ok s"
    using allow_keeps [OF Cons.prems(1) ta(3), of t k'] by (simp_all add: step)
  have rest: "\<forall>(t, _, n) \<in> set es. a \<le> t \<and> t < a + window s \<and> ok s n"
    using Cons.prems(2) by simp
  obtain u e where live: "live (window s) t (acct s k') = (u, e)" by force
  have grant: "b \<longleftrightarrow> u + n \<le> limit s"
    using allow_iff [OF Cons.prems(1) ta(3), of t k'] live by (simp add: step)
  have acct': "acct s' = (acct s)(k' \<mapsto> (if b then u + n else u, e))"
    using allow_acct [OF Cons.prems(1) ta(3), of t k'] live by (simp add: step)
  have IH: "grants k s' es \<le> slack s' k + limit s"
    using Cons.IH [OF keeps(1)] rest unfolding keeps by blast
  show ?case
  proof (cases "k' = k")
    case False
    with IH show ?thesis by (auto simp: ev step slack_def acct' keeps(2) split: option.splits)
  next
    case True
    show ?thesis
    proof (cases "acct s k = Some (u, e)")
      case acct: True
      have "u \<le> limit s" by (rule within_acct [OF Cons.prems(1) acct])
      with IH grant True acct show ?thesis
        using step by (cases b) (simp_all add: ev slack_def acct' keeps(2))
    next
      case False
      then have new: "u = 0" "e = t + window s"
        using live True by (auto simp: live_def split: option.splits if_splits)
      have "acct s' k = Some (if b then n else 0, e)" using True new by (simp add: acct')
      moreover have "\<forall>(t', _, n) \<in> set es. t' < e \<and> ok s' n"
        unfolding keeps new(2) using rest ta(1) by fastforce
      ultimately have "(if b then n else 0) + grants k s' es \<le> limit s'"
        by (rule grants_one_window [OF keeps(1)])
      with True keeps(2) step show ?thesis by (simp add: ev)
    qed
  qed
qed simp

lemma grants_twice:
  assumes "within s" "\<forall>(t, _, n) \<in> set es. a \<le> t \<and> t < a + window s \<and> ok s n"
  shows "grants k s es \<le> 2 * limit s"
  using grants_interval [OF assms, of k] by (auto simp: slack_def split: option.splits)

lemma grants_new_key:
  assumes "within s" "\<forall>(t, _, n) \<in> set es. a \<le> t \<and> t < a + window s \<and> ok s n" "acct s k = None"
  shows "grants k s es \<le> limit s"
  using grants_interval [OF assms(1,2), of k] assms(3) by (simp add: slack_def)

end

section \<open>Announcements per address\<close>

record TokenBucket =
  tb_count :: u32
  tb_reset_at :: nat

record Tier2Limiter =
  t2_buckets :: "ustr \<rightharpoonup> TokenBucket"
  t2_max_requests :: u32
  t2_window :: nat

definition Tier2Limiter_new :: "u32 \<Rightarrow> nat \<Rightarrow> Tier2Limiter" where
  "Tier2Limiter_new max_requests window =
     \<lparr>t2_buckets = Map.empty, t2_max_requests = max_requests, t2_window = window\<rparr>"

definition tier2_allow :: "nat \<Rightarrow> ustr \<Rightarrow> Tier2Limiter \<Rightarrow> bool \<times> Tier2Limiter" where
  "tier2_allow now ip s =
     (let bucket = (case t2_buckets s ip of Some b \<Rightarrow> b
            | None \<Rightarrow> \<lparr>tb_count = 0, tb_reset_at = now + t2_window s\<rparr>);
          bucket = (if tb_reset_at bucket \<le> now
            then \<lparr>tb_count = 0, tb_reset_at = now + t2_window s\<rparr> else bucket)
      in if tb_count bucket < t2_max_requests s
         then (True, s\<lparr>t2_buckets := (t2_buckets s)(ip \<mapsto> bucket\<lparr>tb_count := tb_count bucket + 1\<rparr>)\<rparr>)
         else (False, s\<lparr>t2_buckets := (t2_buckets s)(ip \<mapsto> bucket)\<rparr>))"

definition tier2_remaining :: "nat \<Rightarrow> ustr \<Rightarrow> Tier2Limiter \<Rightarrow> u32" where
  "tier2_remaining now ip s = (case t2_buckets s ip of
     Some bucket \<Rightarrow> if tb_reset_at bucket \<le> now then t2_max_requests s
       else sat_sub (t2_max_requests s) (tb_count bucket)
   | None \<Rightarrow> t2_max_requests s)"

definition tier2_prune_expired :: "nat \<Rightarrow> Tier2Limiter \<Rightarrow> Tier2Limiter" where
  "tier2_prune_expired now s = s\<lparr>t2_buckets := (\<lambda>ip. case t2_buckets s ip of None \<Rightarrow> None
     | Some b \<Rightarrow> if now < tb_reset_at b then Some b else None)\<rparr>"

definition tier2_len :: "Tier2Limiter \<Rightarrow> nat" where
  "tier2_len s = card (dom (t2_buckets s))"

definition tier2_is_empty :: "Tier2Limiter \<Rightarrow> bool" where
  "tier2_is_empty s \<longleftrightarrow> tier2_len s = 0"

definition tier2_acct :: "Tier2Limiter \<Rightarrow> ustr \<Rightarrow> (nat \<times> nat) option" where
  "tier2_acct s ip = map_option (\<lambda>b. (unat (tb_count b), tb_reset_at b)) (t2_buckets s ip)"

definition tier2_within :: "Tier2Limiter \<Rightarrow> bool" where
  "tier2_within s \<longleftrightarrow> (\<forall>b \<in> ran (t2_buckets s). tb_count b \<le> t2_max_requests s)"

lemma unat_add_1: "(x :: 'a::len word) < m \<Longrightarrow> unat (x + 1) = unat x + 1"
proof -
  assume "x < m"
  then have "unat x < unat m" by (simp add: word_less_nat_alt)
  moreover have "unat m < 2 ^ LENGTH('a)" by (rule unsigned_less)
  ultimately have "unat x + 1 < 2 ^ LENGTH('a)" by linarith
  then have "unat (of_nat (unat x + 1) :: 'a word) = unat x + 1"
    by (simp only: unat_of_nat) (simp add: take_bit_eq_mod)
  then show ?thesis by (simp add: add.commute)
qed

interpretation tier2: window_limiter "\<lambda>now ip n s. tier2_allow now ip s"
  "\<lambda>now ip s. unat (tier2_remaining now ip s)" tier2_prune_expired tier2_acct
  "\<lambda>s. unat (t2_max_requests s)" t2_window "\<lambda>s n. n = 1" tier2_within
proof unfold_locales
  fix s :: Tier2Limiter and ip u e and n now :: nat
  show "tier2_within s \<Longrightarrow> tier2_acct s ip = Some (u, e) \<Longrightarrow> u \<le> unat (t2_max_requests s)"
    by (auto simp: tier2_within_def tier2_acct_def word_le_nat_alt ranI)
  let ?b = "case t2_buckets s ip of Some b \<Rightarrow> b | None \<Rightarrow> \<lparr>tb_count = 0, tb_reset_at = now + t2_window s\<rparr>"
  let ?b' = "if tb_reset_at ?b \<le> now then \<lparr>tb_count = 0, tb_reset_at = now + t2_window s\<rparr> else ?b"
  have live: "live (t2_window s) now (tier2_acct s ip) = (unat (tb_count ?b'), tb_reset_at ?b')"
    by (auto simp: live_def tier2_acct_def split: option.splits)
  show "n = 1 \<Longrightarrow> fst (tier2_allow now ip s) \<longleftrightarrow>
      fst (live (t2_window s) now (tier2_acct s ip)) + n \<le> unat (t2_max_requests s)"
    by (simp only: live) (simp add: tier2_allow_def Let_def word_less_nat_alt Suc_le_eq)
  show "n = 1 \<Longrightarrow> tier2_acct (snd (tier2_allow now ip s)) = (tier2_acct s)(ip \<mapsto>
      (let (u, e) = live (t2_window s) now (tier2_acct s ip)
       in (if fst (tier2_allow now ip s) then u + n else u, e)))"
    by (simp only: live) (auto simp: tier2_allow_def Let_def tier2_acct_def fun_eq_iff unat_add_1)
  show "tier2_within s \<Longrightarrow> n = 1 \<Longrightarrow> tier2_within (snd (tier2_allow now ip s)) \<and>
      unat (t2_max_requests (snd (tier2_allow now ip s))) = unat (t2_max_requests s) \<and>
      t2_window (snd (tier2_allow now ip s)) = t2_window s \<and> ((\<lambda>n. n = 1) = (\<lambda>n. n = 1))"
  proof -
    assume w: "tier2_within s"
    have le: "tb_count ?b' \<le> t2_max_requests s"
      using w by (auto simp: tier2_within_def ranI split: option.splits)
    have "tb_count ?b' < t2_max_requests s \<Longrightarrow> tb_count ?b' + 1 \<le> t2_max_requests s"
      using unat_add_1 by (metis word_le_nat_alt word_less_nat_alt Suc_eq_plus1 Suc_leI)
    with w le have "tier2_within (snd (tier2_allow now ip s))"
      unfolding tier2_within_def tier2_allow_def Let_def
      by (auto simp: ran_def)
    then show ?thesis by (simp add: tier2_allow_def Let_def)
  qed
  show "unat (tier2_remaining now ip s) = unat (t2_max_requests s) - fst (live (t2_window s) now (tier2_acct s ip))"
    by (auto simp: tier2_remaining_def live_def tier2_acct_def unat_sat_sub split: option.splits)
  show "live (t2_window s) now (tier2_acct (tier2_prune_expired now s) ip) = live (t2_window s) now (tier2_acct s ip)"
    by (auto simp: tier2_prune_expired_def live_def tier2_acct_def split: option.splits)
  show "unat (t2_max_requests (tier2_prune_expired now s)) = unat (t2_max_requests s) \<and>
      t2_window (tier2_prune_expired now s) = t2_window s"
    by (simp add: tier2_prune_expired_def)
qed

text \<open>How many of a run of announcements (times and addresses) an address gets through.\<close>

fun tier2_grants :: "ustr \<Rightarrow> Tier2Limiter \<Rightarrow> (nat \<times> ustr) list \<Rightarrow> nat" where
  "tier2_grants ip s [] = 0"
| "tier2_grants ip s ((now, ip') # es) =
     (case tier2_allow now ip' s of (b, s') \<Rightarrow> (if b \<and> ip' = ip then 1 else 0) + tier2_grants ip s' es)"

lemma tier2_grants_eq: "tier2_grants ip s es = tier2.grants ip s (map (\<lambda>(t, i). (t, i, 1)) es)"
  by (induction ip s es rule: tier2_grants.induct) (auto split: prod.splits)

text \<open>Of any run of announcements from any addresses, whatever their order, those whose times
  lie within one window's length get an address through at most twice the maximum, and at
  most the maximum if it had no bucket before. (Not the maximum in every such interval:
  the window is fixed by the first request and does not roll; the witness has three grants
  within three time units under a maximum of two per ten.)\<close>

theorem tier2_at_most_twice:
  assumes "tier2_within s" and "\<forall>(t, _) \<in> set es. a \<le> t \<and> t < a + t2_window s"
  shows "tier2_grants ip s es \<le> 2 * unat (t2_max_requests s) \<and>
    (t2_buckets s ip = None \<longrightarrow> tier2_grants ip s es \<le> unat (t2_max_requests s))"
proof -
  have "\<forall>(t, _, n) \<in> set (map (\<lambda>(t, i). (t, i, 1)) es). a \<le> t \<and> t < a + t2_window s \<and> n = 1"
    using assms(2) by auto
  from tier2.grants_twice [OF assms(1) this] tier2.grants_new_key [OF assms(1) this] show ?thesis
    by (simp add: tier2_acct_def tier2_grants_eq)
qed

theorem tier2_at_most_twice_witness:
  "tier2_grants [1] (Tier2Limiter_new 2 10) [(0, [1]), (8, [1]), (9, [1])] \<le> 2 \<and>
   tier2_grants [1] (snd (tier2_allow 0 [1] (Tier2Limiter_new 2 10))) [(9, [1]), (10, [1]), (11, [1])] = 3"
proof
  have w: "tier2_within (Tier2Limiter_new 2 10)" by (simp add: tier2_within_def Tier2Limiter_new_def)
  show "tier2_grants [1] (Tier2Limiter_new 2 10) [(0, [1]), (8, [1]), (9, [1])] \<le> 2"
    using tier2_at_most_twice [OF w, of "[(0, [1]), (8, [1]), (9, [1])]" 0 "[1]"]
    by (simp add: Tier2Limiter_new_def)
  show "tier2_grants [1] (snd (tier2_allow 0 [1] (Tier2Limiter_new 2 10))) [(9, [1]), (10, [1]), (11, [1])] = 3"
    by (simp add: tier2_allow_def Tier2Limiter_new_def)
qed

text \<open>The remaining count is exact: an announcement is allowed precisely when it is not zero,
  and pruning at any time changes neither.\<close>

theorem tier2_remaining_exact:
  assumes "tier2_within s"
  shows "(fst (tier2_allow now ip s) \<longleftrightarrow> 0 < tier2_remaining now ip s) \<and>
    tier2_remaining now ip (tier2_prune_expired now s) = tier2_remaining now ip s"
  using tier2.remaining_predicts [OF assms, of 1 now ip] tier2.prune_remaining [of now ip s]
  by (simp add: word_less_nat_alt word_unat_eq_iff Suc_le_eq)

theorem tier2_remaining_exact_witness:
  "fst (tier2_allow 5 [1] (Tier2Limiter_new 2 10))"
  using tier2_remaining_exact [of "Tier2Limiter_new 2 10" 5 "[1]"]
  by (simp add: tier2_within_def Tier2Limiter_new_def tier2_remaining_def)

section \<open>Relayed bytes per peer\<close>

record BandwidthAccount =
  ba_bytes_used :: u64
  ba_reset_at :: nat

record RelayBandwidthAccount =
  rb_accounts :: "ustr \<rightharpoonup> BandwidthAccount"
  rb_limit_bytes_per_window :: u64
  rb_window :: nat

text \<open>The constructor turns megabits per second into bytes per window: for a window of whole
  seconds the floating-point product is exact below 2^53.\<close>

definition RelayBandwidthAccount_new :: "u32 \<Rightarrow> nat \<Rightarrow> nat \<Rightarrow> RelayBandwidthAccount" where
  "RelayBandwidthAccount_new limit_mbps window_secs units_per_sec =
     \<lparr>rb_accounts = Map.empty,
      rb_limit_bytes_per_window = of_nat (unat limit_mbps * 125000 * window_secs),
      rb_window = window_secs * units_per_sec\<rparr>"

definition relay_account :: "nat \<Rightarrow> ustr \<Rightarrow> RelayBandwidthAccount \<Rightarrow> BandwidthAccount" where
  "relay_account now peer s =
     (let account = (case rb_accounts s peer of Some a \<Rightarrow> a
            | None \<Rightarrow> \<lparr>ba_bytes_used = 0, ba_reset_at = now + rb_window s\<rparr>)
      in if ba_reset_at account \<le> now
         then \<lparr>ba_bytes_used = 0, ba_reset_at = now + rb_window s\<rparr> else account)"

definition relay_allow :: "nat \<Rightarrow> ustr \<Rightarrow> u64 \<Rightarrow> RelayBandwidthAccount \<Rightarrow> bool \<times> RelayBandwidthAccount" where
  "relay_allow now peer bytes s =
     (let account = relay_account now peer s
      in if ba_bytes_used account + bytes \<le> rb_limit_bytes_per_window s
         then (True, s\<lparr>rb_accounts := (rb_accounts s)(peer \<mapsto>
           account\<lparr>ba_bytes_used := ba_bytes_used account + bytes\<rparr>)\<rparr>)
         else (False, s\<lparr>rb_accounts := (rb_accounts s)(peer \<mapsto> account)\<rparr>))"

definition relay_record :: "nat \<Rightarrow> ustr \<Rightarrow> u64 \<Rightarrow> RelayBandwidthAccount \<Rightarrow> RelayBandwidthAccount" where
  "relay_record now peer bytes s =
     (let account = relay_account now peer s
      in s\<lparr>rb_accounts := (rb_accounts s)(peer \<mapsto> account\<lparr>ba_bytes_used := ba_bytes_used account + bytes\<rparr>)\<rparr>)"

definition relay_remaining :: "nat \<Rightarrow> ustr \<Rightarrow> RelayBandwidthAccount \<Rightarrow> u64" where
  "relay_remaining now peer s = (case rb_accounts s peer of
     Some account \<Rightarrow> if ba_reset_at account \<le> now then rb_limit_bytes_per_window s
       else sat_sub (rb_limit_bytes_per_window s) (ba_bytes_used account)
   | None \<Rightarrow> rb_limit_bytes_per_window s)"

definition relay_prune_expired :: "nat \<Rightarrow> RelayBandwidthAccount \<Rightarrow> RelayBandwidthAccount" where
  "relay_prune_expired now s = s\<lparr>rb_accounts := (\<lambda>p. case rb_accounts s p of None \<Rightarrow> None
     | Some a \<Rightarrow> if now < ba_reset_at a then Some a else None)\<rparr>"

definition relay_len :: "RelayBandwidthAccount \<Rightarrow> nat" where
  "relay_len s = card (dom (rb_accounts s))"

definition relay_is_empty :: "RelayBandwidthAccount \<Rightarrow> bool" where
  "relay_is_empty s \<longleftrightarrow> relay_len s = 0"

definition relay_acct :: "RelayBandwidthAccount \<Rightarrow> ustr \<Rightarrow> (nat \<times> nat) option" where
  "relay_acct s p = map_option (\<lambda>a. (unat (ba_bytes_used a), ba_reset_at a)) (rb_accounts s p)"

definition relay_within :: "RelayBandwidthAccount \<Rightarrow> bool" where
  "relay_within s \<longleftrightarrow> (\<forall>a \<in> ran (rb_accounts s). ba_bytes_used a \<le> rb_limit_bytes_per_window s)"

lemma relay_account_live:
  "live (rb_window s) now (relay_acct s p) =
     (unat (ba_bytes_used (relay_account now p s)), ba_reset_at (relay_account now p s))"
  by (auto simp: live_def relay_acct_def relay_account_def Let_def split: option.splits)

lemma relay_account_within:
  "relay_within s \<Longrightarrow> ba_bytes_used (relay_account now p s) \<le> rb_limit_bytes_per_window s"
  by (auto simp: relay_within_def relay_account_def Let_def ranI split: option.splits)

text \<open>Sums below 2^64 do not wrap.\<close>

lemma unat_plus_of_nat:
  "unat (u :: u64) + n < 2 ^ 64 \<Longrightarrow> unat (u + of_nat n) = unat u + n"
proof -
  assume lt: "unat u + n < 2 ^ 64"
  have "u + of_nat n = of_nat (unat u + n)" by simp
  with lt show ?thesis by (simp only: unat_of_nat) (simp add: take_bit_eq_mod)
qed

lemma relay_sum:
  "relay_within s \<Longrightarrow> unat (rb_limit_bytes_per_window s) + n < 2 ^ 64 \<Longrightarrow>
     unat (ba_bytes_used (relay_account now p s) + of_nat n) = unat (ba_bytes_used (relay_account now p s)) + n"
  using relay_account_within [of s now p] by (intro unat_plus_of_nat) (simp add: word_le_nat_alt)

interpretation relay: window_limiter "\<lambda>now p n s. relay_allow now p (of_nat n) s"
  "\<lambda>now p s. unat (relay_remaining now p s)" relay_prune_expired relay_acct
  "\<lambda>s. unat (rb_limit_bytes_per_window s)" rb_window
  "\<lambda>s n. unat (rb_limit_bytes_per_window s) + n < 2 ^ 64" relay_within
proof (unfold_locales, goal_cases)
  case (1 s p u e)
  then show ?case by (auto simp: relay_within_def relay_acct_def word_le_nat_alt ranI)
next
  case (2 s n now p)
  then show ?case by (simp add: relay_account_live relay_allow_def Let_def word_le_nat_alt relay_sum)
next
  case (3 s n now p)
  then show ?case
    by (auto simp: relay_account_live relay_allow_def Let_def fun_eq_iff) (auto simp: relay_acct_def relay_sum)
next
  case (4 s n now p)
  then show ?case
    using relay_account_within [of s now p]
    by (auto simp: relay_within_def relay_allow_def Let_def ran_def)
next
  case (5 now p s)
  then show ?case
    by (auto simp: relay_remaining_def live_def relay_acct_def unat_sat_sub split: option.splits)
next
  case (6 s now p)
  then show ?case
    by (auto simp: relay_prune_expired_def live_def relay_acct_def split: option.splits)
next
  case (7 now s)
  then show ?case by (simp add: relay_prune_expired_def)
qed

text \<open>The bytes a run of relay requests gets through for a peer.\<close>

fun relay_grants :: "ustr \<Rightarrow> RelayBandwidthAccount \<Rightarrow> (nat \<times> ustr \<times> u64) list \<Rightarrow> nat" where
  "relay_grants p s [] = 0"
| "relay_grants p s ((now, p', bytes) # es) =
     (case relay_allow now p' bytes s of (b, s') \<Rightarrow>
        (if b \<and> p' = p then unat bytes else 0) + relay_grants p s' es)"

lemma relay_grants_eq: "relay_grants p s es = relay.grants p s (map (\<lambda>(t, i, n). (t, i, unat n)) es)"
  by (induction p s es rule: relay_grants.induct) (auto split: prod.splits)

text \<open>For requests that do not come within the limit of 2^64 bytes, the bytes relayed for a
  peer over any interval as long as a window are at most twice the limit, and at most the
  limit for a peer that had no account.\<close>

theorem relay_at_most_twice:
  assumes "relay_within s"
    and "\<forall>(t, _, n) \<in> set es. a \<le> t \<and> t < a + rb_window s \<and> unat (rb_limit_bytes_per_window s) + unat n < 2 ^ 64"
  shows "relay_grants p s es \<le> 2 * unat (rb_limit_bytes_per_window s) \<and>
    (rb_accounts s p = None \<longrightarrow> relay_grants p s es \<le> unat (rb_limit_bytes_per_window s))"
proof -
  have "\<forall>(t, _, n) \<in> set (map (\<lambda>(t, i, n). (t, i, unat n)) es).
      a \<le> t \<and> t < a + rb_window s \<and> unat (rb_limit_bytes_per_window s) + n < 2 ^ 64"
    using assms(2) by auto
  from relay.grants_twice [OF assms(1) this] relay.grants_new_key [OF assms(1) this] show ?thesis
    by (simp add: relay_acct_def relay_grants_eq)
qed

theorem relay_at_most_twice_witness:
  "relay_grants [1] (RelayBandwidthAccount_new 1 1 10) [(0, [1], 100000), (3, [1], 100000)] \<le> 125000"
proof -
  have w: "relay_within (RelayBandwidthAccount_new 1 1 10)"
    by (simp add: relay_within_def RelayBandwidthAccount_new_def)
  show ?thesis
    using relay_at_most_twice [OF w, of "[(0, [1], 100000), (3, [1], 100000)]" 0 "[1]"]
    by (simp add: RelayBandwidthAccount_new_def)
qed

text \<open>The sum of the bytes used and those asked for wraps in a release build: whatever a peer
  has used, a request for the two's complement of it (2^64 less what was used) is granted
  and sets the peer's account to zero.\<close>

theorem relay_sum_wraps:
  "relay_allow now p (- ba_bytes_used (relay_account now p s)) s =
     (True, s\<lparr>rb_accounts := (rb_accounts s)(p \<mapsto> (relay_account now p s)\<lparr>ba_bytes_used := 0\<rparr>)\<rparr>)"
  by (simp add: relay_allow_def Let_def)

section \<open>Gateway requests per key\<close>

record RateLimitEntry =
  rl_count :: u32
  rl_window_start :: u64

text \<open>The clock is the system's, in seconds; the subtraction wraps when it is set back.\<close>

definition check_rate_limit :: "u64 \<Rightarrow> ustr \<Rightarrow> u32 \<Rightarrow> (ustr \<rightharpoonup> RateLimitEntry) \<Rightarrow> bool \<times> (ustr \<rightharpoonup> RateLimitEntry)" where
  "check_rate_limit now i limit_per_min limits =
     (let entry = (case limits i of Some e \<Rightarrow> e | None \<Rightarrow> \<lparr>rl_count = 0, rl_window_start = now\<rparr>);
          entry = (if 60 \<le> now - rl_window_start entry
            then \<lparr>rl_count = 0, rl_window_start = now\<rparr> else entry);
          entry = entry\<lparr>rl_count := rl_count entry + 1\<rparr>
      in (rl_count entry \<le> limit_per_min, limits(i \<mapsto> entry)))"

fun gateway_grants :: "ustr \<Rightarrow> u32 \<Rightarrow> (ustr \<rightharpoonup> RateLimitEntry) \<Rightarrow> (u64 \<times> ustr) list \<Rightarrow> nat" where
  "gateway_grants i m l [] = 0"
| "gateway_grants i m l ((now, j) # es) =
     (case check_rate_limit now j m l of (b, l') \<Rightarrow> (if b \<and> j = i then 1 else 0) + gateway_grants i m l' es)"

lemma gateway_grants_window:
  assumes "l i = Some \<lparr>rl_count = c, rl_window_start = w\<rparr>"
    and "\<forall>(t, _) \<in> set es. t - w < 60" and "unat c + length es < 2 ^ 32"
  shows "gateway_grants i m l es \<le> unat m - unat c"
  using assms
proof (induction es arbitrary: l c)
  case (Cons ev es)
  obtain t j where ev: "ev = (t, j)" by force
  have c1: "unat (c + 1) = unat c + 1"
  proof -
    have "c + 1 = of_nat (unat c + 1)" by simp
    with Cons.prems(3) show ?thesis by (simp only: unat_of_nat) (simp add: take_bit_eq_mod)
  qed
  show ?case
  proof (cases "j = i")
    case True
    have step: "check_rate_limit t i m l =
        (c + 1 \<le> m, l(i \<mapsto> \<lparr>rl_count = c + 1, rl_window_start = w\<rparr>))"
      using Cons.prems(1,2) by (auto simp: check_rate_limit_def ev not_le)
    have "gateway_grants i m (l(i \<mapsto> \<lparr>rl_count = c + 1, rl_window_start = w\<rparr>)) es \<le> unat m - unat (c + 1)"
      by (rule Cons.IH) (use Cons.prems c1 in auto)
    then show ?thesis
      using True step c1 by (auto simp: ev word_le_nat_alt)
  next
    case False
    obtain b l' where step: "check_rate_limit t j m l = (b, l')" by force
    then have "l' i = Some \<lparr>rl_count = c, rl_window_start = w\<rparr>"
      using Cons.prems(1) False by (auto simp: check_rate_limit_def Let_def)
    then have "gateway_grants i m l' es \<le> unat m - unat c"
      by (rule Cons.IH) (use Cons.prems in auto)
    with False step show ?thesis by (simp add: ev)
  qed
qed simp

text \<open>From the request that opens a window, a gateway key is granted at most its limit in
  the sixty seconds that follow, however many requests it makes (fewer than 2^32, where the
  counter would wrap) and whatever other keys do.\<close>

theorem gateway_at_most_limit:
  assumes "l i = None" and "\<forall>(t, _) \<in> set es. t - now < 60" and "1 + length es < 2 ^ 32"
  shows "gateway_grants i m l ((now, i) # es) \<le> unat m"
proof -
  have step: "check_rate_limit now i m l = (1 \<le> m, l(i \<mapsto> \<lparr>rl_count = 1, rl_window_start = now\<rparr>))"
    using assms(1) by (simp add: check_rate_limit_def)
  have "gateway_grants i m (l(i \<mapsto> \<lparr>rl_count = 1, rl_window_start = now\<rparr>)) es \<le> unat m - unat (1 :: u32)"
    by (rule gateway_grants_window) (use assms in simp_all)
  with step show ?thesis by (auto simp: word_le_nat_alt)
qed

theorem gateway_at_most_limit_witness:
  "gateway_grants [1] 2 Map.empty ((100, [1]) # [(101, [1]), (130, [2]), (159, [1])]) \<le> 2"
  using gateway_at_most_limit [of Map.empty "[1]" "[(101, [1]), (130, [2]), (159, [1])]" 100 2] by simp

end
