(* ===== verification/Cache.thy ===== *)
theory Cache
  imports Prelude
begin

text \<open>
  The search cache (\<^verbatim>\<open>src/src/search/cache.rs\<close>): entries with a time to live, bounded in
  number, the oldest making room. The hash map is a list of entries with distinct keys; its
  order stands for the map's iteration order, which the standard library leaves open, and
  nothing below depends on it. Times are as in \<open>Limits\<close>: every operation is given the
  time it reads.
\<close>

section \<open>Operations\<close>

record CacheEntry =
  ce_results_json :: ustr
  ce_inserted_at :: nat

record SearchCache =
  sc_entries :: "(ustr \<times> CacheEntry) list"
  sc_ttl :: nat
  sc_max_entries :: nat

definition SearchCache_new :: "nat \<Rightarrow> nat \<Rightarrow> SearchCache" where
  "SearchCache_new ttl max_entries = \<lparr>sc_entries = [], sc_ttl = ttl, sc_max_entries = max_entries\<rparr>"

definition drop_key :: "ustr \<Rightarrow> (ustr \<times> CacheEntry) list \<Rightarrow> (ustr \<times> CacheEntry) list" where
  "drop_key k es = filter (\<lambda>e. fst e \<noteq> k) es"

definition cache_get :: "nat \<Rightarrow> ustr \<Rightarrow> SearchCache \<Rightarrow> ustr option \<times> SearchCache" where
  "cache_get now key s = (case map_of (sc_entries s) key of
     Some entry \<Rightarrow> if now - ce_inserted_at entry < sc_ttl s then (Some (ce_results_json entry), s)
       else (None, s\<lparr>sc_entries := drop_key key (sc_entries s)\<rparr>)
   | None \<Rightarrow> (None, s))"

text \<open>\<^verbatim>\<open>min_by_key\<close>: the first entry, in iteration order, of the least insertion time.\<close>

definition older :: "ustr \<times> CacheEntry \<Rightarrow> ustr \<times> CacheEntry \<Rightarrow> ustr \<times> CacheEntry" where
  "older m x = (if ce_inserted_at (snd x) < ce_inserted_at (snd m) then x else m)"

fun oldest_key :: "(ustr \<times> CacheEntry) list \<Rightarrow> ustr option" where
  "oldest_key [] = None"
| "oldest_key (e # es) = Some (fst (foldl older e es))"

lemma oldest_fold:
  "foldl older e es \<in> set (e # es) \<and>
   (\<forall>x \<in> set (e # es). ce_inserted_at (snd (foldl older e es)) \<le> ce_inserted_at (snd x))"
proof (induction es arbitrary: e)
  case (Cons x es)
  have "older e x \<in> {e, x}" "ce_inserted_at (snd (older e x)) \<le> ce_inserted_at (snd e)"
    "ce_inserted_at (snd (older e x)) \<le> ce_inserted_at (snd x)"
    by (auto simp: older_def)
  with Cons.IH [of "older e x"] show ?case by (auto intro: order.trans)
qed simp

lemma oldest_key_mem:
  assumes "oldest_key es = Some k"
  obtains x where "x \<in> set es" "fst x = k" "\<And>y. y \<in> set es \<Longrightarrow> ce_inserted_at (snd x) \<le> ce_inserted_at (snd y)"
proof (cases es)
  case (Cons e es')
  with assms oldest_fold [of e es'] that [of "foldl older e es'"] show thesis by auto
qed (use assms in simp)

lemma oldest_key_None: "oldest_key es = None \<longleftrightarrow> es = []"
  by (cases es) auto

lemma length_drop_key: "x \<in> set es \<Longrightarrow> fst x = k \<Longrightarrow> length (drop_key k es) < length es"
  unfolding drop_key_def by (rule length_filter_less) auto

function evict_loop :: "nat \<Rightarrow> (ustr \<times> CacheEntry) list \<Rightarrow> (ustr \<times> CacheEntry) list" where
  "evict_loop max_entries entries =
     (if length entries < max_entries then entries
      else case oldest_key entries of
        None \<Rightarrow> entries
      | Some k \<Rightarrow> evict_loop max_entries (drop_key k entries))"
  by auto
termination
  by (relation "measure (\<lambda>(_, es). length es)") (auto elim!: oldest_key_mem intro: length_drop_key)

declare evict_loop.simps [simp del]

definition cache_insert :: "nat \<Rightarrow> ustr \<Rightarrow> ustr \<Rightarrow> SearchCache \<Rightarrow> SearchCache" where
  "cache_insert now key results_json s =
     (let entries = filter (\<lambda>e. now - ce_inserted_at (snd e) < sc_ttl s) (sc_entries s);
          entries = evict_loop (sc_max_entries s) entries
      in s\<lparr>sc_entries := drop_key key entries @ [(key, \<lparr>ce_results_json = results_json, ce_inserted_at = now\<rparr>)]\<rparr>)"

definition cache_invalidate :: "ustr \<Rightarrow> SearchCache \<Rightarrow> SearchCache" where
  "cache_invalidate key s = s\<lparr>sc_entries := drop_key key (sc_entries s)\<rparr>"

definition cache_clear :: "SearchCache \<Rightarrow> SearchCache" where
  "cache_clear s = s\<lparr>sc_entries := []\<rparr>"

definition cache_len :: "SearchCache \<Rightarrow> nat" where
  "cache_len s = length (sc_entries s)"

definition cache_is_empty :: "SearchCache \<Rightarrow> bool" where
  "cache_is_empty s \<longleftrightarrow> cache_len s = 0"

section \<open>Bounded, fresh, oldest first\<close>

definition cache_wf :: "SearchCache \<Rightarrow> bool" where
  "cache_wf s \<longleftrightarrow> distinct (map fst (sc_entries s)) \<and> length (sc_entries s) \<le> max 1 (sc_max_entries s)"

lemma drop_key_facts [simp]:
  "set (drop_key k es) = {e \<in> set es. fst e \<noteq> k}"
  "distinct (map fst es) \<Longrightarrow> distinct (map fst (drop_key k es))"
  "length (drop_key k es) \<le> length es"
  by (auto simp: drop_key_def distinct_map_filter)

text \<open>What eviction keeps: a part of the entries, none older than one it drops, and all of them
  when there is room.\<close>

lemma evict_loop_spec:
  assumes "distinct (map fst es)"
  shows "set (evict_loop n es) \<subseteq> set es \<and> distinct (map fst (evict_loop n es)) \<and>
    (length (evict_loop n es) < n \<or> evict_loop n es = []) \<and>
    (\<forall>x \<in> set es - set (evict_loop n es). \<forall>y \<in> set (evict_loop n es).
       ce_inserted_at (snd x) \<le> ce_inserted_at (snd y)) \<and>
    (length es < n \<longrightarrow> evict_loop n es = es)"
  using assms
proof (induction n es rule: evict_loop.induct)
  case (1 n es)
  show ?case
  proof (cases "length es < n")
    case True
    then show ?thesis using 1(2) by (simp add: evict_loop.simps)
  next
    case False
    show ?thesis
    proof (cases "oldest_key es")
      case None
      then show ?thesis using False by (simp add: evict_loop.simps oldest_key_None)
    next
      case (Some k)
      then obtain x where x: "x \<in> set es" "fst x = k"
        "\<And>y. y \<in> set es \<Longrightarrow> ce_inserted_at (snd x) \<le> ce_inserted_at (snd y)"
        by (rule oldest_key_mem) blast
      have only: "y \<in> set es \<Longrightarrow> fst y = k \<Longrightarrow> y = x" for y
        using 1(2) x(1,2) by (metis distinct_map inj_on_eq_iff)
      note IH = 1(1) [OF False Some drop_key_facts(2) [OF 1(2)]]
      have e: "evict_loop n es = evict_loop n (drop_key k es)"
        using False Some by (subst evict_loop.simps) simp
      let ?r = "evict_loop n (drop_key k es)"
      have "\<forall>z \<in> set es - set ?r. \<forall>y \<in> set ?r. ce_inserted_at (snd z) \<le> ce_inserted_at (snd y)"
      proof (intro ballI)
        fix z y assume z: "z \<in> set es - set ?r" and y: "y \<in> set ?r"
        have "y \<in> set es" using IH y by auto
        show "ce_inserted_at (snd z) \<le> ce_inserted_at (snd y)"
        proof (cases "fst z = k")
          case True
          with only [of z] z have "z = x" by simp
          with x(3) [OF \<open>y \<in> set es\<close>] show ?thesis by simp
        next
          case False
          with z have "z \<in> set (drop_key k es) - set ?r" by simp
          with IH y show ?thesis by blast
        qed
      qed
      with IH False show ?thesis unfolding e by auto
    qed
  qed
qed

lemma cache_get_wf: "cache_wf s \<Longrightarrow> cache_wf (snd (cache_get now k s))"
proof -
  assume "cache_wf s"
  then have "cache_wf (s\<lparr>sc_entries := drop_key k (sc_entries s)\<rparr>)"
    using le_trans [OF drop_key_facts(3) [of k "sc_entries s"]] by (simp add: cache_wf_def)
  with \<open>cache_wf s\<close> show ?thesis by (auto simp: cache_get_def split: option.splits)
qed

lemma cache_insert_wf:
  assumes "cache_wf s"
  shows "cache_wf (cache_insert now k v s)"
proof -
  let ?l = "filter (\<lambda>e. now - ce_inserted_at (snd e) < sc_ttl s) (sc_entries s)"
  let ?e = "evict_loop (sc_max_entries s) ?l"
  have dist: "distinct (map fst ?l)"
    using assms by (simp add: cache_wf_def distinct_map_filter)
  note spec = evict_loop_spec [OF dist, of "sc_max_entries s"]
  have "length (drop_key k ?e) + 1 \<le> max 1 (sc_max_entries s)"
  proof -
    have "length ?e < sc_max_entries s \<or> ?e = []" using spec by blast
    then show ?thesis
    proof
      assume "length ?e < sc_max_entries s"
      with drop_key_facts(3) [of k ?e] show ?thesis by linarith
    qed (simp add: drop_key_def)
  qed
  with spec show ?thesis by (auto simp: cache_wf_def cache_insert_def)
qed

lemma cache_get_insert:
  "fst (cache_get now' k (cache_insert now k v s)) = (if now' - now < sc_ttl s then Some v else None)"
proof -
  have "map_of (drop_key k es) k = None" for es :: "(ustr \<times> CacheEntry) list"
    by (simp add: map_of_eq_None_iff image_iff)
  then show ?thesis
    by (simp add: cache_get_def cache_insert_def map_add_def)
qed

text \<open>An insert keeps the cache well formed: keys stay distinct and there are never more
  entries than the maximum (one, when the maximum is zero). Looked up before its time to
  live is over, the inserted entry is found; afterwards it is not. Every other entry kept
  was there and is not expired; and if the unexpired entries left room, all of them are
  kept, otherwise none that was dropped is newer than one kept.\<close>

theorem cache_insert_spec:
  assumes "cache_wf s"
  shows "cache_wf (cache_insert now k v s) \<and>
    fst (cache_get now' k (cache_insert now k v s)) = (if now' - now < sc_ttl s then Some v else None) \<and>
    (let live = {e \<in> set (sc_entries s). now - ce_inserted_at (snd e) < sc_ttl s};
         old = set (sc_entries (cache_insert now k v s)) - {(k, \<lparr>ce_results_json = v, ce_inserted_at = now\<rparr>)}
     in old \<subseteq> live \<and> (card live < sc_max_entries s \<longrightarrow> (\<forall>e \<in> live. fst e \<noteq> k \<longrightarrow> e \<in> old)) \<and>
        (\<forall>x \<in> live - old. \<forall>y \<in> old. fst x \<noteq> k \<longrightarrow> ce_inserted_at (snd x) \<le> ce_inserted_at (snd y)))"
proof -
  let ?l = "filter (\<lambda>e. now - ce_inserted_at (snd e) < sc_ttl s) (sc_entries s)"
  let ?e = "evict_loop (sc_max_entries s) ?l"
  have dist: "distinct (map fst ?l)"
    using assms by (simp add: cache_wf_def distinct_map_filter)
  note spec = evict_loop_spec [OF dist, of "sc_max_entries s"]
  have ent: "sc_entries (cache_insert now k v s) =
      drop_key k ?e @ [(k, \<lparr>ce_results_json = v, ce_inserted_at = now\<rparr>)]"
    by (simp add: cache_insert_def)
  note wf = cache_insert_wf [OF assms, of now k v]
  note get = cache_get_insert [of now' k now v s]
  have old: "set (sc_entries (cache_insert now k v s)) - {(k, \<lparr>ce_results_json = v, ce_inserted_at = now\<rparr>)} =
      {e \<in> set ?e. fst e \<noteq> k}"
    by (auto simp: ent)
  have live: "{e \<in> set (sc_entries s). now - ce_inserted_at (snd e) < sc_ttl s} = set ?l" by auto
  have card: "card (set ?l) = length ?l"
    using dist by (metis distinct_card distinct_map)
  let ?old = "{e \<in> set ?e. fst e \<noteq> k}"
  have "?old \<subseteq> set ?l" "length ?l < sc_max_entries s \<longrightarrow> (\<forall>e \<in> set ?l. fst e \<noteq> k \<longrightarrow> e \<in> ?old)"
    using spec by blast (use spec in simp)
  moreover have "\<forall>x \<in> set ?l - ?old. \<forall>y \<in> ?old. fst x \<noteq> k \<longrightarrow> ce_inserted_at (snd x) \<le> ce_inserted_at (snd y)"
    using spec by blast
  ultimately show ?thesis
    unfolding Let_def old live card using wf get by blast
qed

theorem cache_insert_spec_witness:
  "cache_wf (cache_insert 5 [1] [2] (SearchCache_new 30 256)) \<and>
   fst (cache_get 34 [1] (cache_insert 5 [1] [2] (SearchCache_new 30 256))) = Some [2]"
  using cache_insert_spec [of "SearchCache_new 30 256" 5 "[1]" "[2]" 34]
  by (simp add: cache_wf_def SearchCache_new_def)

end
