(* ===== verification/Query.thy ===== *)
theory Query
  imports Model
begin

text \<open>
  The query language (\<^verbatim>\<open>src/src/search/query.rs\<close>): tokens, the parser, dates, matching and
  scoring. \<open>lc\<close> is \<^verbatim>\<open>str::to_lowercase\<close>. Scores are floats: their operations are the
  parameter \<open>F\<close>. The main facts: free text is the conjunction of its words, an \<^verbatim>\<open>OR\<close> takes
  in the word before its operands, and the day count is the calendar's.
\<close>

section \<open>Tokens\<close>

text \<open>34 is the quote, 32 the space, 58 the colon, 45 the hyphen.\<close>

fun tokenize_loop :: "ustr list \<Rightarrow> ustr \<Rightarrow> bool \<Rightarrow> ustr \<Rightarrow> ustr list" where
  "tokenize_loop tokens current in_quotes [] = (if current \<noteq> [] then tokens @ [current] else tokens)"
| "tokenize_loop tokens current in_quotes (ch # chs) =
     (if ch = 34 then
        if in_quotes then tokenize_loop tokens (current @ [ch]) False chs
        else tokenize_loop (if current \<noteq> [] then tokens @ [current] else tokens) [ch] True chs
      else if is_whitespace ch \<and> \<not> in_quotes then
        tokenize_loop (if current \<noteq> [] then tokens @ [current] else tokens) [] in_quotes chs
      else tokenize_loop tokens (current @ [ch]) in_quotes chs)"

definition tokenize :: "ustr \<Rightarrow> ustr list" where
  "tokenize input = tokenize_loop [] [] False input"

definition FIELDS :: "ustr list" where
  "FIELDS = map lit [''title'', ''tag'', ''schema'', ''source'', ''scraped'', ''refresh'', ''limit'', ''since'', ''before'']"

definition parse_field_filter :: "ustr \<Rightarrow> (ustr \<times> ustr) option" where
  "parse_field_filter token = (case split_once 58 token of
     None \<Rightarrow> None
   | Some (field, v) \<Rightarrow> if field \<in> set FIELDS then Some (field, v) else None)"

section \<open>Dates\<close>

text \<open>Division truncates; \<^verbatim>\<open>i32\<close> arithmetic wraps.\<close>

definition tdiv :: "int \<Rightarrow> int \<Rightarrow> int" where
  "tdiv a b = (if 0 \<le> a then a div b else - ((- a) div b))"

definition wrap32 :: "int \<Rightarrow> int" where
  "wrap32 x = (x + 2147483648) mod 4294967296 - 2147483648"

definition days_from_civil :: "int \<Rightarrow> int \<Rightarrow> int \<Rightarrow> int" where
  "days_from_civil y0 m d =
     (let y = (if m \<le> 2 then wrap32 (y0 - 1) else y0);
          era = (if 0 \<le> y then tdiv y 400 else tdiv (wrap32 (y - 399)) 400);
          yoe = y - era * 400;
          doy = tdiv (153 * (m + (if 2 < m then -3 else 9)) + 2) 5 + d - 1;
          doe = yoe * 365 + tdiv yoe 4 - tdiv yoe 100 + doy
      in era * 146097 + doe - 719468)"

definition parse_i32 :: "ustr \<Rightarrow> int option" where
  "parse_i32 s = (case s of
     c # t \<Rightarrow> if c = 45 then map_option (\<lambda>n. - int n) (parse_digits 2147483648 t)
       else map_option int (parse_uint 2147483647 s)
   | [] \<Rightarrow> None)"

definition parse_date_value :: "ustr \<Rightarrow> u64 option" where
  "parse_date_value v = (case parse_uint (2 ^ 64 - 1) v of
     Some ts \<Rightarrow> Some (of_nat ts)
   | None \<Rightarrow> (case split_on 45 v of
       [p0, p1, p2] \<Rightarrow>
         (case (parse_i32 p0, parse_uint (2 ^ 32 - 1) p1, parse_uint (2 ^ 32 - 1) p2) of
            (Some y, Some m, Some d) \<Rightarrow>
              if \<not> (1 \<le> m \<and> m \<le> 12) then None
              else if \<not> (1 \<le> d \<and> d \<le> 31) then None
              else
                let days = days_from_civil y (int m) (int d);
                    epoch_days = days_from_civil 1970 1 1;
                    diff_days = days - epoch_days
                in if diff_days < 0 then None else Some (of_int diff_days * 86400)
          | _ \<Rightarrow> None)
     | _ \<Rightarrow> None))"

section \<open>Queries\<close>

record ParsedQuery =
  pq_terms :: "ustr list"
  pq_phrases :: "ustr list"
  pq_excludes :: "ustr list"
  pq_fields :: "(ustr \<times> ustr) list"
  pq_limit :: "u64 option"
  pq_since :: "u64 option"
  pq_before :: "u64 option"

definition ParsedQuery_default :: ParsedQuery where
  "ParsedQuery_default = \<lparr>pq_terms = [], pq_phrases = [], pq_excludes = [], pq_fields = [],
     pq_limit = None, pq_since = None, pq_before = None\<rparr>"

text \<open>\<^verbatim>\<open>fields.insert\<close>; the filters are a conjunction, so their order does not matter.\<close>

definition field_insert :: "ustr \<Rightarrow> ustr \<Rightarrow> (ustr \<times> ustr) list \<Rightarrow> (ustr \<times> ustr) list" where
  "field_insert k v l = filter (\<lambda>e. fst e \<noteq> k) l @ [(k, v)]"

definition OR_PREFIX :: ustr where "OR_PREFIX = lit ''OR:''"

text \<open>One token that is not the \<^verbatim>\<open>OR\<close> keyword.\<close>

definition parse_token :: "(ustr \<Rightarrow> ustr) \<Rightarrow> ustr \<Rightarrow> ParsedQuery \<Rightarrow> ParsedQuery" where
  "parse_token lc token q =
     (if starts_with [45] token \<and> 1 < str_len token then
        q\<lparr>pq_excludes := pq_excludes q @ [lc (drop 1 token)]\<rparr>
      else if starts_with [34] token \<and> ends_with [34] token \<and> 1 < str_len token then
        q\<lparr>pq_phrases := pq_phrases q @ [lc (butlast (drop 1 token))]\<rparr>
      else case parse_field_filter token of
        Some (field, v) \<Rightarrow>
          if field = lit ''limit'' then
            (case parse_uint (2 ^ 64 - 1) v of Some n \<Rightarrow> q\<lparr>pq_limit := Some (of_nat n)\<rparr> | None \<Rightarrow> q)
          else if field = lit ''since'' then q\<lparr>pq_since := parse_date_value v\<rparr>
          else if field = lit ''before'' then q\<lparr>pq_before := parse_date_value v\<rparr>
          else q\<lparr>pq_fields := field_insert field (lc v) (pq_fields q)\<rparr>
      | None \<Rightarrow> q\<lparr>pq_terms := pq_terms q @ [lc token]\<rparr>)"

fun parse_loop :: "(ustr \<Rightarrow> ustr) \<Rightarrow> ParsedQuery \<Rightarrow> ustr list \<Rightarrow> ParsedQuery" where
  "parse_loop lc q [] = q"
| "parse_loop lc q (token # tokens) =
     (if token = lit ''OR'' \<and> pq_terms q \<noteq> [] then
        let q = q\<lparr>pq_terms := butlast (pq_terms q) @ [OR_PREFIX @ last (pq_terms q)]\<rparr> in
        case tokens of
          [] \<Rightarrow> q
        | next # rest \<Rightarrow> parse_loop lc (q\<lparr>pq_terms := pq_terms q @ [OR_PREFIX @ next]\<rparr>) rest
      else parse_loop lc (parse_token lc token q) tokens)"

definition parse_query :: "(ustr \<Rightarrow> ustr) \<Rightarrow> ustr \<Rightarrow> ParsedQuery" where
  "parse_query lc input = parse_loop lc ParsedQuery_default (tokenize input)"

section \<open>Matching\<close>

definition build_searchable_text :: "(ustr \<Rightarrow> ustr) \<Rightarrow> ContentRecord \<Rightarrow> ustr" where
  "build_searchable_text lc r = lc (cr_id r @ [32] @ cr_source_url r @ [32] @ cr_schema r @ [32] @
     concat (map (\<lambda>tag. tag @ [32]) (cr_tags r)) @ cr_body r)"

text \<open>The host ends at the first slash (47) or colon.\<close>

definition extract_host :: "ustr \<Rightarrow> ustr option" where
  "extract_host url =
     (case (case strip_prefix (lit ''https://'') url of Some rest \<Rightarrow> Some rest
        | None \<Rightarrow> strip_prefix (lit ''http://'') url) of
        None \<Rightarrow> None
      | Some rest \<Rightarrow> Some (takeWhile (\<lambda>c. c \<noteq> 47 \<and> c \<noteq> 58) rest))"

definition first_line :: "ustr \<Rightarrow> ustr" where
  "first_line s = (case lines s of l # _ \<Rightarrow> l | [] \<Rightarrow> [])"

definition field_matches :: "(ustr \<Rightarrow> ustr) \<Rightarrow> ContentRecord \<Rightarrow> ustr \<times> ustr \<Rightarrow> bool" where
  "field_matches lc r fv = (case fv of (field, v) \<Rightarrow>
     if field = lit ''schema'' then str_contains (lc (cr_schema r)) v
     else if field = lit ''source'' then
       (case extract_host (cr_source_url r) of Some host \<Rightarrow> str_contains (lc host) v | None \<Rightarrow> False)
     else if field = lit ''scraped'' then ScrapeSource_as_str (cr_scrape_source r) = v
     else if field = lit ''refresh'' then RefreshPolicy_as_str (cr_refresh_policy r) = v
     else if field = lit ''tag'' then list_ex (\<lambda>t. lc t = v) (cr_tags r)
     else if field = lit ''title'' then
       str_contains (lc (cr_id r @ [32] @ cr_source_url r @ [32] @ first_line (cr_body r))) v
     else True)"

text \<open>The grouping of terms: an \<^verbatim>\<open>OR:\<close> term joins the group that is open, any other term closes
  it and opens its own.\<close>

fun or_groups :: "ustr list list \<Rightarrow> ustr list \<Rightarrow> ustr list \<Rightarrow> ustr list list" where
  "or_groups groups current [] = (if current \<noteq> [] then groups @ [current] else groups)"
| "or_groups groups current (term # terms) = (case strip_prefix OR_PREFIX term of
     Some stripped \<Rightarrow> or_groups groups (current @ [stripped]) terms
   | None \<Rightarrow> or_groups (if current \<noteq> [] then groups @ [current] else groups) [term] terms)"

definition matches_query :: "(ustr \<Rightarrow> ustr) \<Rightarrow> ContentRecord \<Rightarrow> ParsedQuery \<Rightarrow> bool" where
  "matches_query lc r q =
     (if \<not> list_all (field_matches lc r) (pq_fields q) then False
      else if (case pq_since q of Some since \<Rightarrow> cr_created_at r < since | None \<Rightarrow> False) then False
      else if (case pq_before q of Some before \<Rightarrow> before \<le> cr_created_at r | None \<Rightarrow> False) then False
      else
        let searchable = build_searchable_text lc r in
        if list_ex (str_contains searchable) (pq_excludes q) then False
        else if \<not> list_all (str_contains searchable) (pq_phrases q) then False
        else list_all (list_ex (str_contains searchable)) (or_groups [] [] (pq_terms q)))"

section \<open>Scoring\<close>

text \<open>The float operations used; \<open>f_lit n m\<close> is the literal \<open>n / m\<close>.\<close>

record 'f f64_ops =
  f_lit :: "nat \<Rightarrow> nat \<Rightarrow> 'f"
  f_add :: "'f \<Rightarrow> 'f \<Rightarrow> 'f"
  f_mul :: "'f \<Rightarrow> 'f \<Rightarrow> 'f"
  f_div :: "'f \<Rightarrow> 'f \<Rightarrow> 'f"
  f_of_u64 :: "u64 \<Rightarrow> 'f"
  f_of_u32 :: "u32 \<Rightarrow> 'f"
  f_ln :: "'f \<Rightarrow> 'f"
  f_max :: "'f \<Rightarrow> 'f \<Rightarrow> 'f"
  f_less :: "'f \<Rightarrow> 'f \<Rightarrow> bool"

definition add_if :: "'f f64_ops \<Rightarrow> bool \<Rightarrow> nat \<Rightarrow> nat \<Rightarrow> 'f \<Rightarrow> 'f" where
  "add_if F b n m s = (if b then f_add F s (f_lit F n m) else s)"

definition score_term :: "'f f64_ops \<Rightarrow> ustr \<Rightarrow> ustr \<Rightarrow> ustr \<Rightarrow> ustr \<Rightarrow> 'f \<Rightarrow> ustr \<Rightarrow> 'f" where
  "score_term F id_text tag_text body_text schema_text s term =
     (let t = (case strip_prefix OR_PREFIX term of Some u \<Rightarrow> u | None \<Rightarrow> term) in
      add_if F (str_contains schema_text t) 3 2
        (add_if F (str_contains body_text t) 1 1
          (add_if F (str_contains tag_text t) 2 1
            (add_if F (str_contains id_text t) 3 1 s))))"

definition score_record :: "'f f64_ops \<Rightarrow> (ustr \<Rightarrow> ustr) \<Rightarrow> u64 \<Rightarrow> ContentRecord \<Rightarrow> ParsedQuery \<Rightarrow> u32 \<Rightarrow> 'f" where
  "score_record F lc now r q holder_count =
     (let id_text = lc (cr_id r);
          tag_text = lc (join [32] (cr_tags r));
          body_text = lc (cr_body r);
          schema_text = lc (cr_schema r);
          score = foldl (score_term F id_text tag_text body_text schema_text) (f_lit F 0 1) (pq_terms q);
          score = foldl (\<lambda>s phrase. add_if F (str_contains id_text phrase) 7 1
                    (add_if F (str_contains body_text phrase) 5 1 s)) score (pq_phrases q);
          age_days = f_div F (f_of_u64 F (sat_sub now (cr_created_at r))) (f_lit F 86400 1);
          freshness = f_div F (f_lit F 1 1) (f_add F (f_lit F 1 1) (f_div F age_days (f_lit F 30 1)));
          score = f_add F score (f_mul F freshness (f_lit F 2 1))
      in f_add F score (f_mul F (f_max F (f_ln F (f_of_u32 F holder_count)) (f_lit F 0 1)) (f_lit F 1 2)))"

section \<open>The calendar\<close>

definition leap :: "int \<Rightarrow> bool" where
  "leap y \<longleftrightarrow> 4 dvd y \<and> \<not> 100 dvd y \<or> 400 dvd y"

definition month_len :: "int \<Rightarrow> int \<Rightarrow> int" where
  "month_len y m = (if m = 2 then (if leap y then 29 else 28)
     else if m \<in> {4, 6, 9, 11} then 30 else 31)"

text \<open>The years for which nothing wraps.\<close>

definition year_ok :: "int \<Rightarrow> bool" where
  "year_ok y \<longleftrightarrow> -2147483000 \<le> y \<and> y \<le> 2147483647"

lemma wrap32_id: "-2147483648 \<le> x \<Longrightarrow> x \<le> 2147483647 \<Longrightarrow> wrap32 x = x"
  by (simp add: wrap32_def)

text \<open>Days before March of a year, from the year alone.\<close>

definition march_days :: "int \<Rightarrow> int" where
  "march_days y = 365 * y + y div 4 - y div 100 + y div 400"

lemma div_step:
  assumes "(0 :: int) < n"
  shows "y div n = (y - 1) div n + (if n dvd y then 1 else 0)"
proof -
  have y: "y = n * (y div n) + y mod n" by simp
  have r: "0 \<le> y mod n" "y mod n < n" using assms by simp_all
  show ?thesis
  proof (cases "y mod n = 0")
    case True
    with y have "y - 1 = n * (y div n - 1) + (n - 1)" by (simp add: algebra_simps)
    then have "(y - 1) div n = y div n - 1" by (rule int_div_pos_eq) (use assms in simp_all)
    with True show ?thesis by (simp add: dvd_eq_mod_eq_0)
  next
    case False
    with y have "y - 1 = n * (y div n) + (y mod n - 1)" by simp
    then have "(y - 1) div n = y div n" by (rule int_div_pos_eq) (use r False in simp_all)
    with False show ?thesis by (simp add: dvd_eq_mod_eq_0)
  qed
qed

lemma march_days_step:
  "march_days y = march_days (y - 1) + 365 + (if leap y then 1 else 0)"
proof -
  have "(100 :: int) dvd y \<Longrightarrow> 4 dvd y" "(400 :: int) dvd y \<Longrightarrow> 100 dvd y"
    by (auto elim!: dvdE)
  then show ?thesis
    using div_step [of 4 y] div_step [of 100 y] div_step [of 400 y]
    by (auto simp: march_days_def leap_def)
qed

lemma era_split:
  fixes y :: int
  defines "e \<equiv> y div 400"
  shows "(y - e * 400) div 4 = y div 4 - 100 * e" "(y - e * 400) div 100 = y div 100 - 4 * e"
    "0 \<le> y - e * 400" "y < 0 \<Longrightarrow> - ((399 - y) div 400) = e"
proof -
  have "y div 4 = (y - e * 400 + (100 * e) * 4) div 4" "y div 100 = (y - e * 400 + (4 * e) * 100) div 100"
    by simp_all
  then show "(y - e * 400) div 4 = y div 4 - 100 * e" "(y - e * 400) div 100 = y div 100 - 4 * e"
    by (simp_all only: div_mult_self1 zero_neq_numeral [symmetric] not_False_eq_True)
  have y: "y - e * 400 = y mod 400" by (simp add: e_def minus_mult_div_eq_mod [symmetric] mult.commute)
  then show "0 \<le> y - e * 400" by simp
  have "399 - y = 400 * (- e) + (399 - y mod 400)" using y by simp
  then have "(399 - y) div 400 = - e" by (rule int_div_pos_eq) simp_all
  then show "- ((399 - y) div 400) = e" by simp
qed

lemma days_eq:
  assumes "year_ok y" "1 \<le> m" "m \<le> 12"
  shows "days_from_civil y m d = march_days (if m \<le> 2 then y - 1 else y) +
    (153 * (m + (if 2 < m then -3 else 9)) + 2) div 5 + d - 1 - 719468"
proof -
  let ?y = "if m \<le> 2 then y - 1 else y"
  let ?era = "?y div 400"
  have y: "(if m \<le> 2 then wrap32 (y - 1) else y) = ?y"
    using assms(1) by (simp add: year_ok_def wrap32_id)
  have "(if 0 \<le> ?y then tdiv ?y 400 else tdiv (wrap32 (?y - 399)) 400) = ?era"
  proof (cases "0 \<le> ?y")
    case False
    moreover have "wrap32 (?y - 399) = ?y - 399" by (rule wrap32_id) (use assms(1) False in \<open>auto simp: year_ok_def\<close>)
    ultimately show ?thesis using False era_split(4) [of ?y] by (simp add: tdiv_def)
  qed (simp add: tdiv_def)
  moreover have "0 \<le> ?y - ?era * 400" by (rule era_split(3))
  moreover have "?era * 146097 + ((?y - ?era * 400) * 365 + (?y - ?era * 400) div 4 - (?y - ?era * 400) div 100) = march_days ?y"
    unfolding era_split by (simp add: march_days_def algebra_simps)
  moreover have "0 \<le> 153 * (m + (if 2 < m then -3 else 9)) + 2" using assms(2) by auto
  ultimately show ?thesis
    unfolding days_from_civil_def Let_def y by (simp add: tdiv_def)
qed

text \<open>The day count is the Gregorian calendar's: day zero is the first of January 1970, the
  days of a month are numbered in order, the first of a month is the number of days of the
  month before it after the first of that month, and a year follows its December; for every
  year of 32 bits but the last few negative ones.\<close>

theorem days_from_civil_calendar:
  assumes "year_ok y" and "year_ok (y + 1)" and "1 \<le> m" and "m \<le> 12"
  shows "days_from_civil 1970 1 1 = 0 \<and>
    days_from_civil y m d = days_from_civil y m 1 + (d - 1) \<and>
    (if m < 12 then days_from_civil y (m + 1) 1 else days_from_civil (y + 1) 1 1) =
      days_from_civil y m 1 + month_len y m"
proof -
  have "m = 1 \<or> m = 2 \<or> m = 3 \<or> m = 4 \<or> m = 5 \<or> m = 6 \<or> m = 7 \<or> m = 8 \<or> m = 9 \<or> m = 10 \<or> m = 11 \<or> m = 12"
    using assms(3,4) by presburger
  then have "(if m < 12 then days_from_civil y (m + 1) 1 else days_from_civil (y + 1) 1 1) =
      days_from_civil y m 1 + month_len y m"
    by (elim disjE) (simp_all add: days_eq assms(1,2) month_len_def march_days_step [of y])
  moreover have "days_from_civil 1970 1 1 = 0" by (simp add: days_from_civil_def wrap32_def tdiv_def)
  ultimately show ?thesis using days_eq [OF assms(1,3,4)] by simp
qed

theorem days_from_civil_calendar_witness:
  "days_from_civil 2000 3 1 = days_from_civil 2000 2 1 + 29"
  using days_from_civil_calendar [of 2000 2 1] by (simp add: year_ok_def month_len_def leap_def)

section \<open>Free text\<close>

text \<open>A word without white space, quotes or colons that does not begin with a hyphen and is not
  the \<^verbatim>\<open>OR\<close> keyword; lower-casing brings no colon in.\<close>

definition plain_word :: "(ustr \<Rightarrow> ustr) \<Rightarrow> ustr \<Rightarrow> bool" where
  "plain_word lc w \<longleftrightarrow> w \<noteq> [] \<and> (\<forall>c \<in> set w. \<not> is_whitespace c \<and> c \<noteq> 34 \<and> c \<noteq> 58) \<and>
     hd w \<noteq> 45 \<and> w \<noteq> lit ''OR'' \<and> 58 \<notin> set (lc w)"

lemma tokenize_word:
  "\<forall>c \<in> set w. \<not> is_whitespace c \<and> c \<noteq> 34 \<Longrightarrow>
     tokenize_loop ts cur False (w @ s) = tokenize_loop ts (cur @ w) False s"
  by (induction w arbitrary: cur) auto

definition word :: "ustr \<Rightarrow> bool" where
  "word w \<longleftrightarrow> w \<noteq> [] \<and> (\<forall>c \<in> set w. \<not> is_whitespace c \<and> c \<noteq> 34)"

lemma tokenize_words:
  "list_all word ws \<Longrightarrow> tokenize_loop ts [] False (join [32] ws) = ts @ ws"
proof (induction ws arbitrary: ts)
  case (Cons w ws)
  have w: "w \<noteq> []" "\<forall>c \<in> set w. \<not> is_whitespace c \<and> c \<noteq> 34" using Cons.prems by (auto simp: word_def)
  have sp: "is_whitespace 32" by (simp add: is_whitespace_def)
  show ?case
  proof (cases "ws = []")
    case True
    with w tokenize_word [OF w(2), of ts "[]" "[]"] show ?thesis by simp
  next
    case False
    with tokenize_word [OF w(2), of ts "[]" "32 # join [32] ws"] w(1) sp Cons show ?thesis
      by (simp add: join_Cons)
  qed
qed simp

lemma tokenize_join: "list_all word ws \<Longrightarrow> tokenize (join [32] ws) = ws"
  by (simp add: tokenize_def tokenize_words)

lemma plain_word_word: "plain_word lc w \<Longrightarrow> word w"
  by (simp add: plain_word_def word_def)

lemma starts_with_single: "w \<noteq> [] \<Longrightarrow> starts_with [c] w \<longleftrightarrow> hd w = c"
  by (cases w) (auto simp: starts_with_def)

lemma parse_token_plain:
  "plain_word lc w \<Longrightarrow> parse_token lc w q = q\<lparr>pq_terms := pq_terms q @ [lc w]\<rparr>"
proof -
  assume p: "plain_word lc w"
  then have "hd w \<in> set w" by (simp add: plain_word_def)
  with p have "hd w \<noteq> 34" by (auto simp: plain_word_def)
  moreover have "split_once 58 w = None" using p by (auto simp: split_once_None_iff plain_word_def)
  ultimately show ?thesis
    using p by (simp add: parse_token_def starts_with_single parse_field_filter_def plain_word_def)
qed

lemma parse_loop_plain:
  "list_all (plain_word lc) ws \<Longrightarrow> parse_loop lc q (ws @ rest) =
     parse_loop lc (q\<lparr>pq_terms := pq_terms q @ map lc ws\<rparr>) rest"
proof (induction ws arbitrary: q)
  case (Cons w ws)
  then have "w \<noteq> lit ''OR''" by (simp add: plain_word_def)
  with Cons show ?case by (simp add: parse_token_plain)
qed simp

lemma no_or_prefix: "58 \<notin> set t \<Longrightarrow> strip_prefix OR_PREFIX t = None"
  by (auto simp: strip_prefix_def starts_with_iff OR_PREFIX_def lit_def)

lemma or_groups_plain:
  "\<forall>t \<in> set ts. 58 \<notin> set t \<Longrightarrow>
     or_groups gs cur ts = gs @ (if cur \<noteq> [] then [cur] else []) @ map (\<lambda>t. [t]) ts"
  by (induction ts arbitrary: gs cur) (auto simp: no_or_prefix)

lemma matches_terms:
  "matches_query lc r (ParsedQuery_default\<lparr>pq_terms := ts\<rparr>) \<longleftrightarrow>
     list_all (list_ex (str_contains (build_searchable_text lc r))) (or_groups [] [] ts)"
  by (simp add: matches_query_def ParsedQuery_default_def)

text \<open>Free text is a conjunction: a record matches a query of plain words exactly when its
  searchable text contains every one of them, lower-cased.\<close>

theorem free_text_is_conjunction:
  assumes "list_all (plain_word lc) ws"
  shows "matches_query lc r (parse_query lc (join [32] ws)) \<longleftrightarrow>
    (\<forall>w \<in> set ws. str_contains (build_searchable_text lc r) (lc w))"
proof -
  have "list_all word ws" using assms by (auto simp: list_all_iff plain_word_word)
  then have "parse_query lc (join [32] ws) = ParsedQuery_default\<lparr>pq_terms := map lc ws\<rparr>"
    using parse_loop_plain [OF assms, of ParsedQuery_default "[]"]
    by (simp add: parse_query_def tokenize_join) (simp add: ParsedQuery_default_def)
  moreover have "or_groups [] [] (map lc ws) = map (\<lambda>w. [lc w]) ws"
    using or_groups_plain [of "map lc ws" "[]" "[]"] assms by (auto simp: list_all_iff plain_word_def)
  ultimately show ?thesis by (simp add: matches_terms list_all_iff)
qed

theorem free_text_is_conjunction_witness:
  "\<exists>r. matches_query id r (parse_query id (join [32] [lit ''rust'', lit ''async'']))"
proof -
  define r where "r = \<lparr>cr_id = lit ''x'', cr_source_url = [], cr_source_hash = [], cr_schema = [],
     cr_tags = [], cr_body = lit ''async rust'', cr_created_at = 1, cr_expires_at = 2,
     cr_scrape_source = Url, cr_refresh_policy = Once, cr_sig = []\<rparr>"
  have "list_all (plain_word id) [lit ''rust'', lit ''async'']"
    by (simp add: plain_word_def lit_def is_whitespace_def)
  moreover have "\<forall>w \<in> set [lit ''rust'', lit ''async'']. str_contains (build_searchable_text id r) (id w)"
    by (simp add: r_def build_searchable_text_def lit_def starts_with_def)
  ultimately show ?thesis using free_text_is_conjunction [of id "[lit ''rust'', lit ''async'']" r] by blast
qed

text \<open>\<^verbatim>\<open>a b OR c\<close> is not ``a and (b or c)'': an \<^verbatim>\<open>OR\<close> term is added to the group that is
  open, which the word before opened, so the three are alternatives. A record that has any
  one of them matches, the last of them compared as it was typed, not lower-cased.\<close>

theorem or_takes_in_the_word_before:
  assumes "list_all (plain_word lc) [a, b]" and "word c" and "c \<noteq> []"
  shows "matches_query lc r (parse_query lc (join [32] [a, b, lit ''OR'', c])) \<longleftrightarrow>
    str_contains (build_searchable_text lc r) (lc a) \<or>
    str_contains (build_searchable_text lc r) (lc b) \<or>
    str_contains (build_searchable_text lc r) c"
proof -
  have "word (lit ''OR'')" by (simp add: word_def lit_def is_whitespace_def)
  then have words: "list_all word [a, b, lit ''OR'', c]"
    using assms plain_word_word [of lc a] plain_word_word [of lc b] by simp
  have "parse_query lc (join [32] [a, b, lit ''OR'', c]) =
      ParsedQuery_default\<lparr>pq_terms := [lc a, OR_PREFIX @ lc b, OR_PREFIX @ c]\<rparr>"
    unfolding parse_query_def tokenize_join [OF words]
    using parse_loop_plain [OF assms(1), of ParsedQuery_default "[lit ''OR'', c]"]
    by (simp add: ParsedQuery_default_def)
  moreover have "strip_prefix OR_PREFIX (lc a) = None"
    using assms(1) by (simp add: no_or_prefix plain_word_def)
  ultimately show ?thesis by (simp add: matches_terms)
qed

theorem or_takes_in_the_word_before_witness:
  "\<exists>r. matches_query id r (parse_query id (join [32] [lit ''rust'', lit ''tokio'', lit ''OR'', lit ''async''])) \<and>
     build_searchable_text id r = lit ''x   rust''"
proof -
  define r where "r = \<lparr>cr_id = lit ''x'', cr_source_url = [], cr_source_hash = [], cr_schema = [],
     cr_tags = [], cr_body = lit ''rust'', cr_created_at = 1, cr_expires_at = 2,
     cr_scrape_source = Url, cr_refresh_policy = Once, cr_sig = []\<rparr>"
  have "list_all (plain_word id) [lit ''rust'', lit ''tokio'']" "word (lit ''async'')"
    by (simp_all add: plain_word_def word_def lit_def is_whitespace_def)
  moreover have t: "build_searchable_text id r = lit ''x   rust''"
    by (simp add: r_def build_searchable_text_def lit_def)
  moreover have "str_contains (lit ''x   rust'') (lit ''rust'')"
    by (simp add: lit_def starts_with_def)
  ultimately show ?thesis
    using or_takes_in_the_word_before [of id "lit ''rust''" "lit ''tokio''" "lit ''async''" r] by auto
qed

end
