(* ===== verification/Store.thy ===== *)
theory Store
  imports Migrations Quota Index Limits Cache Query Pow
begin

text \<open>
  \<^verbatim>\<open>src/src/storage/mod.rs\<close>: the \<^verbatim>\<open>Store\<close>, which coordinates the tables, the inverted index,
  the search cache, the two limiters and the signing key. Each public method is one
  definition; a method that only hands its arguments on is the definition it calls. The
  clock is an argument: \<open>now\<close> in nanoseconds for the cache and the limiters (\<^verbatim>\<open>Instant\<close>),
  \<open>secs\<close> in seconds since the epoch. A method returns its result and the store afterwards.
\<close>

section \<open>The store\<close>

record ('d, 'sk) Store =
  st_db :: 'd
  st_config :: StorageConfig
  st_signing_key :: "'sk option"
  st_search_cache :: SearchCache
  st_tier2_limiter :: Tier2Limiter
  st_bandwidth_account :: RelayBandwidthAccount

definition secs_to_ns :: "nat \<Rightarrow> nat" where
  "secs_to_ns n = n * 1000000000"

definition Store_new :: "'d \<Rightarrow> StorageConfig \<Rightarrow> ('d, 'sk) Store" where
  "Store_new d config = \<lparr>st_db = d, st_config = config, st_signing_key = None,
     st_search_cache = SearchCache_new (secs_to_ns 30) 256,
     st_tier2_limiter = Tier2Limiter_new 100 (secs_to_ns 60),
     st_bandwidth_account = RelayBandwidthAccount_new 100 1 (secs_to_ns 1)\<rparr>"

definition set_signing_key :: "'sk \<Rightarrow> ('d, 'sk) Store \<Rightarrow> ('d, 'sk) Store" where
  "set_signing_key key st = st\<lparr>st_signing_key := Some key\<rparr>"

text \<open>An operation of the database becomes one of the store.\<close>

definition on_db :: "('d \<Rightarrow> 'a \<times> 'd) \<Rightarrow> ('d, 'sk) Store \<Rightarrow> 'a \<times> ('d, 'sk) Store" where
  "on_db f st = (case f (st_db st) of (a, d) \<Rightarrow> (a, st\<lparr>st_db := d\<rparr>))"

section \<open>Signing\<close>

text \<open>The fields a signature covers; the tags are joined with commas.\<close>

definition record_fields :: "ContentRecord \<Rightarrow> RecordFields" where
  "record_fields r =
     \<lparr>rf_id = utf8 (cr_id r), rf_source_url = utf8 (cr_source_url r), rf_source_hash = utf8 (cr_source_hash r),
      rf_schema = utf8 (cr_schema r), rf_tags = utf8 (join (lit '','') (cr_tags r)), rf_body = utf8 (cr_body r),
      rf_created_at = utf8 (to_dec (unat (cr_created_at r))), rf_expires_at = utf8 (to_dec (unat (cr_expires_at r))),
      rf_scrape_source = utf8 (ScrapeSource_as_str (cr_scrape_source r)),
      rf_refresh_policy = utf8 (RefreshPolicy_as_str (cr_refresh_policy r))\<rparr>"

definition announcement_fields :: "Announcement \<Rightarrow> AnnouncementFields" where
  "announcement_fields a =
     \<lparr>af_record_id = utf8 (an_record_id a), af_source_hash = utf8 (an_source_hash a),
      af_schema = utf8 (an_schema a), af_tags = utf8 (join (lit '','') (an_tags a)),
      af_holder_addr = utf8 (an_holder_addr a), af_expires_at = utf8 (to_dec (unat (an_expires_at a)))\<rparr>"

definition sign_if_unsigned :: "('sk, 'vk) crypto \<Rightarrow> 'sk option \<Rightarrow> ContentRecord \<Rightarrow> (ContentRecord, ustr) result" where
  "sign_if_unsigned K key rec = (case key of
     None \<Rightarrow> Ok rec
   | Some sk \<Rightarrow>
       if cr_sig rec = [] then
         let sig = sign_record K sk (record_fields rec)
         in if \<not> verify_record_sig K (ed_verifying_key K sk) (record_fields rec) sig
            then Err (lit ''self-verification of record signature failed'')
            else Ok (rec\<lparr>cr_sig := hex_encode sig\<rparr>)
       else Ok rec)"

definition sign_ann_if_unsigned :: "('sk, 'vk) crypto \<Rightarrow> 'sk option \<Rightarrow> Announcement \<Rightarrow> (Announcement, ustr) result" where
  "sign_ann_if_unsigned K key ann = (case key of
     None \<Rightarrow> Ok ann
   | Some sk \<Rightarrow>
       if an_sig ann = [] then
         let sig = sign_announcement K sk (announcement_fields ann)
         in if \<not> verify_announcement_sig K (ed_verifying_key K sk) (announcement_fields ann) sig
            then Err (lit ''self-verification of announcement signature failed'')
            else Ok (ann\<lparr>an_sig := hex_encode sig\<rparr>)
       else Ok ann)"

text \<open>
  \<^verbatim>\<open>(0..sig.len()).step_by(2)\<close> over byte slices of the signature's text. A slice that cuts a
  character panics, so two one-byte characters or one of two bytes make a slice.
\<close>

fun sig_slices :: "ustr \<Rightarrow> ustr list option" where
  "sig_slices [] = Some []"
| "sig_slices [c] = (if utf8_len c \<le> 2 then Some [[c]] else None)"
| "sig_slices (c # d # s) =
     (if utf8_len c = 1 then
        if utf8_len d = 1 then map_option (\<lambda>xs. [c, d] # xs) (sig_slices s) else None
      else if utf8_len c = 2 then map_option (\<lambda>xs. [c] # xs) (sig_slices (d # s)) else None)"

definition sig_bytes :: "ustr \<Rightarrow> bytes option" where
  "sig_bytes s = map_option (List.map_filter u8_from_hex) (sig_slices s)"

definition store_verify_record :: "('sk, 'vk) crypto \<Rightarrow> 'vk \<Rightarrow> ContentRecord \<Rightarrow> (VerifyResult, ustr) result" where
  "store_verify_record K vk rec = (case sig_bytes (cr_sig rec) of
     None \<Rightarrow> Panic
   | Some bs \<Rightarrow> if length bs \<noteq> 64 then Ok (VerifyResult_fail (lit ''invalid signature length''))
       else Ok (verify_record_signature K vk (record_fields rec) bs))"

definition store_verify_announcement :: "('sk, 'vk) crypto \<Rightarrow> 'vk \<Rightarrow> Announcement \<Rightarrow> (VerifyResult, ustr) result" where
  "store_verify_announcement K vk ann = (case sig_bytes (an_sig ann) of
     None \<Rightarrow> Panic
   | Some bs \<Rightarrow> if length bs \<noteq> 64 then Ok (VerifyResult_fail (lit ''invalid signature length''))
       else Ok (verify_announcement_signature K vk (announcement_fields ann) bs))"

definition store_verify_record_id :: "('sk, 'vk) crypto \<Rightarrow> ContentRecord \<Rightarrow> VerifyResult" where
  "store_verify_record_id K rec = verify_record_id K (cr_id rec) (utf8 (cr_source_url rec))
     (utf8 (cr_source_hash rec)) (utf8 (cr_schema rec)) (utf8 (join (lit '','') (cr_tags rec)))
     (utf8 (cr_body rec)) (utf8 (to_dec (unat (cr_created_at rec))))"

section \<open>Records\<close>

text \<open>The record is a mutable borrow: the caller sees the signature, whatever comes after.\<close>

definition store_insert_record :: "('sk, 'vk) crypto \<Rightarrow> ('d, 't) redb \<Rightarrow> serde \<Rightarrow> ContentRecord
    \<Rightarrow> ('d, 'sk) Store \<Rightarrow> ((InsertResult, ustr) result \<times> ContentRecord) \<times> ('d, 'sk) Store" where
  "store_insert_record K R J rec st = (case sign_if_unsigned K (st_signing_key st) rec of
     Err e \<Rightarrow> ((Err e, rec), st) | Panic \<Rightarrow> ((Panic, rec), st)
   | Ok rec \<Rightarrow>
       (case insert_record R J (st_db st) rec (Some (st_config st)) of
          (Err e, d) \<Rightarrow> ((Err e, rec), st\<lparr>st_db := d\<rparr>)
        | (Panic, d) \<Rightarrow> ((Panic, rec), st\<lparr>st_db := d\<rparr>)
        | (Ok res, d) \<Rightarrow>
            if res = Inserted \<or> res = ReplacedNewer then
              case index_record R d (cr_id rec) (cr_schema rec) (cr_tags rec) of
                (Ok _, d) \<Rightarrow> ((Ok res, rec), st\<lparr>st_db := d\<rparr>)
              | (Err e, d) \<Rightarrow> ((Err e, rec), st\<lparr>st_db := d\<rparr>)
              | (Panic, d) \<Rightarrow> ((Panic, rec), st\<lparr>st_db := d\<rparr>)
            else ((Ok res, rec), st\<lparr>st_db := d\<rparr>)))"

definition store_get_record :: "('d, 't) redb \<Rightarrow> serde \<Rightarrow> ustr \<Rightarrow> ('d, 'sk) Store \<Rightarrow> (ContentRecord option, ustr) result" where
  "store_get_record R J k st = get_record R J (st_db st) k"

definition store_list_records :: "('d, 't) redb \<Rightarrow> serde \<Rightarrow> ustr option \<Rightarrow> u64 \<Rightarrow> ('d, 'sk) Store
    \<Rightarrow> (ContentRecord list, ustr) result" where
  "store_list_records R J schema limit st = list_records R J (st_db st) schema limit"

definition store_delete_record :: "('d, 't) redb \<Rightarrow> serde \<Rightarrow> ustr \<Rightarrow> ('d, 'sk) Store
    \<Rightarrow> (bool, ustr) result \<times> ('d, 'sk) Store" where
  "store_delete_record R J k st = (case get_record R J (st_db st) k of
     Err e \<Rightarrow> (Err e, st) | Panic \<Rightarrow> (Panic, st)
   | Ok found \<Rightarrow>
       (case delete_record R J (st_db st) k of
          (Err e, d) \<Rightarrow> (Err e, st\<lparr>st_db := d\<rparr>) | (Panic, d) \<Rightarrow> (Panic, st\<lparr>st_db := d\<rparr>)
        | (Ok deleted, d) \<Rightarrow>
            if deleted then
              case found of
                Some r \<Rightarrow>
                  (case deindex_record R d (cr_id r) (cr_schema r) (cr_tags r) of
                     (Ok _, d) \<Rightarrow> (Ok deleted, st\<lparr>st_db := d\<rparr>)
                   | (Err e, d) \<Rightarrow> (Err e, st\<lparr>st_db := d\<rparr>)
                   | (Panic, d) \<Rightarrow> (Panic, st\<lparr>st_db := d\<rparr>))
              | None \<Rightarrow> (Ok deleted, st\<lparr>st_db := d\<rparr>)
            else (Ok deleted, st\<lparr>st_db := d\<rparr>)))"

definition store_pin_record :: "('d, 't) redb \<Rightarrow> u64 \<Rightarrow> ustr \<Rightarrow> ('d, 'sk) Store
    \<Rightarrow> (bool, ustr) result \<times> ('d, 'sk) Store" where
  "store_pin_record R secs k = on_db (\<lambda>d. pin_record R d secs k)"

definition store_unpin_record :: "('d, 't) redb \<Rightarrow> ustr \<Rightarrow> ('d, 'sk) Store
    \<Rightarrow> (bool, ustr) result \<times> ('d, 'sk) Store" where
  "store_unpin_record R k = on_db (\<lambda>d. unpin_record R d k)"

definition store_is_pinned :: "('d, 't) redb \<Rightarrow> ustr \<Rightarrow> ('d, 'sk) Store \<Rightarrow> (bool, ustr) result" where
  "store_is_pinned R k st = is_pinned R (st_db st) k"

definition store_insert_announcement :: "('sk, 'vk) crypto \<Rightarrow> ('d, 't) redb \<Rightarrow> serde \<Rightarrow> Announcement
    \<Rightarrow> ('d, 'sk) Store \<Rightarrow> ((unit, ustr) result \<times> Announcement) \<times> ('d, 'sk) Store" where
  "store_insert_announcement K R J ann st = (case sign_ann_if_unsigned K (st_signing_key st) ann of
     Err e \<Rightarrow> ((Err e, ann), st) | Panic \<Rightarrow> ((Panic, ann), st)
   | Ok ann \<Rightarrow> (case insert_announcement R J (st_db st) ann of (res, d) \<Rightarrow> ((res, ann), st\<lparr>st_db := d\<rparr>)))"

definition store_record_count :: "('d, 't) redb \<Rightarrow> ('d, 'sk) Store \<Rightarrow> (u64, ustr) result" where
  "store_record_count R st = record_count R (st_db st)"

definition store_records_size_bytes :: "('d, 't) redb \<Rightarrow> ('d, 'sk) Store \<Rightarrow> (u64, ustr) result" where
  "store_records_size_bytes R st = records_size_bytes R (st_db st)"

definition store_sweep_once :: "('d, 't) redb \<Rightarrow> serde \<Rightarrow> u64 \<Rightarrow> ('d, 'sk) Store
    \<Rightarrow> (nat \<times> nat, ustr) result \<times> ('d, 'sk) Store" where
  "store_sweep_once R J secs = on_db (\<lambda>d. sweep_once R J d secs)"

text \<open>One tick of the task \<^verbatim>\<open>start_expiry_sweeper\<close> spawns on a clone of the database handle.\<close>

definition store_sweeper_tick :: "('d, 't) redb \<Rightarrow> serde \<Rightarrow> u64 \<Rightarrow> ('d, 'sk) Store \<Rightarrow> ('d, 'sk) Store" where
  "store_sweeper_tick R J secs st = st\<lparr>st_db := sweeper_tick R J (st_db st) secs\<rparr>"

definition store_check_quota :: "('d, 't) redb \<Rightarrow> serde \<Rightarrow> u64 \<Rightarrow> ('d, 'sk) Store
    \<Rightarrow> (unit, ustr) result \<times> ('d, 'sk) Store" where
  "store_check_quota R J additional_bytes st =
     on_db (\<lambda>d. check_quota R J d (st_config st) additional_bytes) st"

section \<open>Searching\<close>

definition store_search_index :: "('d, 't) redb \<Rightarrow> ustr \<Rightarrow> ustr option \<Rightarrow> ustr option \<Rightarrow> ('d, 'sk) Store
    \<Rightarrow> (ustr list, ustr) result" where
  "store_search_index R schema tag_key tag_value st = search_index R (st_db st) schema tag_key tag_value"

text \<open>JSON of a list of records, as kept in the cache.\<close>

record vec_serde =
  vec_to_json :: "ContentRecord list \<Rightarrow> (ustr, ustr) result"
  vec_from_json :: "ustr \<Rightarrow> (ContentRecord list, ustr) result"

definition vec_laws :: "vec_serde \<Rightarrow> bool" where
  "vec_laws V \<longleftrightarrow> (\<forall>rs j. vec_to_json V rs = Ok j \<longrightarrow> vec_from_json V j = Ok rs)"

text \<open>\<^verbatim>\<open>sort_by(|a, b| b.1.partial_cmp(&a.1).unwrap_or(Equal))\<close>: stable, by descending score.\<close>

fun insert_desc :: "'f f64_ops \<Rightarrow> ContentRecord \<times> 'f \<Rightarrow> (ContentRecord \<times> 'f) list \<Rightarrow> (ContentRecord \<times> 'f) list" where
  "insert_desc F x [] = [x]"
| "insert_desc F x (y # ys) = (if f_less F (snd x) (snd y) then y # insert_desc F x ys else x # y # ys)"

definition sort_desc :: "'f f64_ops \<Rightarrow> (ContentRecord \<times> 'f) list \<Rightarrow> (ContentRecord \<times> 'f) list" where
  "sort_desc F xs = foldr (insert_desc F) xs []"

definition cache_key :: "ustr \<Rightarrow> u64 \<Rightarrow> ustr" where
  "cache_key query_str limit = query_str @ lit '':'' @ to_dec (unat limit)"

text \<open>The ranking: match, score, sort, cut.\<close>

definition rank :: "'f f64_ops \<Rightarrow> (ustr \<Rightarrow> ustr) \<Rightarrow> u64 \<Rightarrow> ParsedQuery \<Rightarrow> u64 \<Rightarrow> ContentRecord list \<Rightarrow> ContentRecord list" where
  "rank F lc secs q limit rs =
     take (unat limit) (map fst (sort_desc F
       (map (\<lambda>r. (r, score_record F lc secs r q 1)) (filter (\<lambda>r. matches_query lc r q) rs))))"

definition store_search_records :: "('d, 't) redb \<Rightarrow> serde \<Rightarrow> vec_serde \<Rightarrow> 'f f64_ops \<Rightarrow> (ustr \<Rightarrow> ustr)
    \<Rightarrow> nat \<Rightarrow> u64 \<Rightarrow> ustr \<Rightarrow> u64 \<Rightarrow> ('d, 'sk) Store
    \<Rightarrow> (ContentRecord list, ustr) result \<times> ('d, 'sk) Store" where
  "store_search_records R J V F lc now secs query_str limit st =
     (let key = cache_key query_str limit in
      case cache_get now key (st_search_cache st) of (cached, cache) \<Rightarrow>
      let st = st\<lparr>st_search_cache := cache\<rparr> in
      case (case cached of None \<Rightarrow> None
              | Some j \<Rightarrow> (case vec_from_json V j of Ok rs \<Rightarrow> Some rs | _ \<Rightarrow> None)) of
        Some rs \<Rightarrow> (Ok rs, st)
      | None \<Rightarrow>
          let parsed = parse_query lc query_str;
              effective_limit = (case pq_limit parsed of Some n \<Rightarrow> n | None \<Rightarrow> limit);
              schema_filter = map_of (pq_fields parsed) (lit ''schema'')
          in case list_records R J (st_db st) schema_filter (effective_limit * 10) of
               Err e \<Rightarrow> (Err e, st) | Panic \<Rightarrow> (Panic, st)
             | Ok all_records \<Rightarrow>
                 let results = rank F lc secs parsed effective_limit all_records in
                 (Ok results,
                  case vec_to_json V results of
                    Ok j \<Rightarrow> st\<lparr>st_search_cache := cache_insert now key j (st_search_cache st)\<rparr>
                  | _ \<Rightarrow> st))"

definition search_cache_len :: "('d, 'sk) Store \<Rightarrow> nat" where
  "search_cache_len st = cache_len (st_search_cache st)"

definition search_cache_is_empty :: "('d, 'sk) Store \<Rightarrow> bool" where
  "search_cache_is_empty st = cache_is_empty (st_search_cache st)"

definition invalidate_search_cache :: "ustr \<Rightarrow> ('d, 'sk) Store \<Rightarrow> ('d, 'sk) Store" where
  "invalidate_search_cache key st = st\<lparr>st_search_cache := cache_invalidate key (st_search_cache st)\<rparr>"

definition clear_search_cache :: "('d, 'sk) Store \<Rightarrow> ('d, 'sk) Store" where
  "clear_search_cache st = st\<lparr>st_search_cache := cache_clear (st_search_cache st)\<rparr>"

section \<open>Limits\<close>

definition store_tier2_allow :: "nat \<Rightarrow> ustr \<Rightarrow> ('d, 'sk) Store \<Rightarrow> bool \<times> ('d, 'sk) Store" where
  "store_tier2_allow now ip st = (case tier2_allow now ip (st_tier2_limiter st) of
     (b, l) \<Rightarrow> (b, st\<lparr>st_tier2_limiter := l\<rparr>))"

definition store_relay_allow :: "nat \<Rightarrow> ustr \<Rightarrow> u64 \<Rightarrow> ('d, 'sk) Store \<Rightarrow> bool \<times> ('d, 'sk) Store" where
  "store_relay_allow now peer bytes st = (case relay_allow now peer bytes (st_bandwidth_account st) of
     (b, l) \<Rightarrow> (b, st\<lparr>st_bandwidth_account := l\<rparr>))"

definition store_relay_record :: "nat \<Rightarrow> ustr \<Rightarrow> u64 \<Rightarrow> ('d, 'sk) Store \<Rightarrow> ('d, 'sk) Store" where
  "store_relay_record now peer bytes st =
     st\<lparr>st_bandwidth_account := relay_record now peer bytes (st_bandwidth_account st)\<rparr>"

definition prune_tier2 :: "nat \<Rightarrow> ('d, 'sk) Store \<Rightarrow> ('d, 'sk) Store" where
  "prune_tier2 now st = st\<lparr>st_tier2_limiter := tier2_prune_expired now (st_tier2_limiter st)\<rparr>"

definition prune_relay :: "nat \<Rightarrow> ('d, 'sk) Store \<Rightarrow> ('d, 'sk) Store" where
  "prune_relay now st = st\<lparr>st_bandwidth_account := relay_prune_expired now (st_bandwidth_account st)\<rparr>"

definition store_tier2_remaining :: "nat \<Rightarrow> ustr \<Rightarrow> ('d, 'sk) Store \<Rightarrow> u32" where
  "store_tier2_remaining now ip st = tier2_remaining now ip (st_tier2_limiter st)"

definition store_tier2_len :: "('d, 'sk) Store \<Rightarrow> nat" where
  "store_tier2_len st = tier2_len (st_tier2_limiter st)"

definition store_tier2_is_empty :: "('d, 'sk) Store \<Rightarrow> bool" where
  "store_tier2_is_empty st = tier2_is_empty (st_tier2_limiter st)"

definition store_relay_remaining :: "nat \<Rightarrow> ustr \<Rightarrow> ('d, 'sk) Store \<Rightarrow> u64" where
  "store_relay_remaining now peer st = relay_remaining now peer (st_bandwidth_account st)"

definition store_relay_len :: "('d, 'sk) Store \<Rightarrow> nat" where
  "store_relay_len st = relay_len (st_bandwidth_account st)"

definition store_relay_is_empty :: "('d, 'sk) Store \<Rightarrow> bool" where
  "store_relay_is_empty st = relay_is_empty (st_bandwidth_account st)"

definition check_pow :: "('sk, 'vk) crypto \<Rightarrow> bytes \<Rightarrow> u8 \<Rightarrow> PowSolution option" where
  "check_pow K input difficulty = mine_pow K input difficulty"

definition store_verify_pow :: "('sk, 'vk) crypto \<Rightarrow> bytes \<Rightarrow> PowSolution \<Rightarrow> bool" where
  "store_verify_pow K input solution = verify_pow K input solution"

section \<open>Facts shared by the properties\<close>

lemma on_db_simps [simp]:
  "st_db (snd (on_db f st)) = snd (f (st_db st))" "fst (on_db f st) = fst (f (st_db st))"
  "st_search_cache (snd (on_db f st)) = st_search_cache st"
  "st_tier2_limiter (snd (on_db f st)) = st_tier2_limiter st"
  by (simp_all add: on_db_def split: prod.splits)

text \<open>Signing changes the signature only, and what it writes reads back.\<close>

lemma record_fields_sig [simp]: "record_fields (rec\<lparr>cr_sig := s\<rparr>) = record_fields rec"
  by (simp add: record_fields_def)

lemma sign_if_unsigned_Ok:
  assumes "sign_if_unsigned K key rec = Ok rec'"
  shows "rec' = rec\<lparr>cr_sig := cr_sig rec'\<rparr>"
  using assms by (auto simp: sign_if_unsigned_def Let_def split: option.splits if_splits)

lemma signed_same:
  assumes "sign_if_unsigned K key rec = Ok rec'"
  shows "cr_id rec' = cr_id rec" "cr_source_hash rec' = cr_source_hash rec" "cr_schema rec' = cr_schema rec"
    "cr_tags rec' = cr_tags rec" "cr_created_at rec' = cr_created_at rec" "record_fields rec' = record_fields rec"
  by (subst sign_if_unsigned_Ok [OF assms], simp)+

lemma hex_digit_ascii: "n < 16 \<Longrightarrow> utf8_len (hex_digit n) = 1"
  by (auto simp: hex_digit_def utf8_len_def)

lemma sig_slices_hex: "sig_slices (hex_encode bs @ s) = map_option ((@) (map hex_byte bs)) (sig_slices s)"
proof (induction bs)
  case Nil
  then show ?case by (simp add: hex_encode_def option.map_ident)
next
  case (Cons b bs)
  have lt: "unat b div 16 < 16" "unat b mod 16 < 16"
    using unat_u8_less [of b] by (simp_all add: less_mult_imp_div_less)
  have e: "hex_encode (b # bs) @ s =
      hex_digit (unat b div 16) # hex_digit (unat b mod 16) # (hex_encode bs @ s)"
    by (simp add: hex_encode_def hex_byte_def)
  show ?case
    unfolding e using lt Cons.IH by (simp add: hex_digit_ascii hex_byte_def option.map_comp comp_def)
qed

lemma map_filter_hex: "List.map_filter u8_from_hex (map hex_byte bs @ xs) = bs @ List.map_filter u8_from_hex xs"
  by (induction bs) (auto simp: List.map_filter_simps)

lemma sig_bytes_hex: "sig_slices s = Some xs \<Longrightarrow>
    sig_bytes (hex_encode bs @ s) = Some (bs @ List.map_filter u8_from_hex xs)"
  by (simp add: sig_bytes_def sig_slices_hex map_filter_hex)

lemma sig_bytes_hex_only [simp]: "sig_bytes (hex_encode bs) = Some bs"
  using sig_bytes_hex [of "[]" "[]" bs] by (simp add: List.map_filter_simps)

text \<open>The database steps of an insert leave the inverted index alone; then the tags are indexed.\<close>

lemma insert_keeps_inverted:
  assumes "redb_laws R vd vt" and "insert_record R J d rec cfg = (Ok res, d')"
  shows "c_tab (vd d') INVERTED_INDEX_TABLE = c_tab (vd d) INVERTED_INDEX_TABLE"
  using insert_record_Ok [OF assms] by (cases res) (auto simp: insert_effect_def add_rec_def)

lemma listed_cong:
  assumes "c_tab c' INVERTED_INDEX_TABLE = c_tab c INVERTED_INDEX_TABLE"
  shows "listed c' = listed c" "indexable c' i schema tags = indexable c i schema tags"
proof -
  show "listed c' = listed c" by (rule ext) (simp add: listed_def assms)
  then show "indexable c' i schema tags = indexable c i schema tags" by (simp add: indexable_def)
qed

lemma store_insert_reliable:
  assumes L: "redb_laws R vd vt" and rel: "redb_reliable R" and i: "plain_id (cr_id rec)"
    and sign: "sign_if_unsigned K (st_signing_key st) rec = Ok rec'"
    and ins: "insert_record R J (st_db st) rec' (Some (st_config st)) = (Ok res, d1)" and "res \<noteq> SkippedOlder"
    and free: "indexable (vd (st_db st)) (cr_id rec) (cr_schema rec) (cr_tags rec)"
  obtains d2 where "store_insert_record K R J rec st = ((Ok res, rec'), st\<lparr>st_db := d2\<rparr>)"
    "listed (vd d2) = (\<lambda>k. if k \<in> keys_of (cr_schema rec) (cr_tags rec)
       then listed (vd (st_db st)) k @ [cr_id rec] else listed (vd (st_db st)) k)"
    "only_index (vd d1) (vd d2)"
proof -
  note same = signed_same [OF sign] and lc = listed_cong [OF insert_keeps_inverted [OF L ins]]
  obtain d2 where d2: "index_record R d1 (cr_id rec) (cr_schema rec) (cr_tags rec) = (Ok (), d2)"
    "listed (vd d2) = (\<lambda>k. if k \<in> keys_of (cr_schema rec) (cr_tags rec)
       then listed (vd d1) k @ [cr_id rec] else listed (vd d1) k)"
    using index_record_new [OF L rel i, of d1 "cr_schema rec" "cr_tags rec"] free lc(2) by metis
  have "store_insert_record K R J rec st = ((Ok res, rec'), st\<lparr>st_db := d2\<rparr>)"
    using d2(1) assms(6) by (cases res) (simp_all add: store_insert_record_def sign ins same)
  moreover have "only_index (vd d1) (vd d2)"
    using index_record_only [OF L, of d1 "cr_id rec" "cr_schema rec" "cr_tags rec"] d2(1) by simp
  ultimately show thesis using that [OF _ d2(2) [unfolded lc(1)]] by blast
qed

section \<open>Signed inserts\<close>

text \<open>A store with a signing key signs what it is given unsigned: every record it reports
  inserted verifies under the key's verifying key, the record returned is the one given but
  for the signature, and that signed record is the one stored under the id, unless an older
  or equally old copy was skipped.\<close>

theorem store_insert_signed:
  assumes "redb_laws R vd vt" and "serde_laws J" and "crypto_laws K"
    and "st_signing_key st = Some sk" and "cr_sig rec = []"
    and "store_insert_record K R J rec st = ((Ok res, rec'), st')"
  shows "rec' = rec\<lparr>cr_sig := cr_sig rec'\<rparr> \<and>
    store_verify_record K (ed_verifying_key K sk) rec' = Ok VerifyResult_ok \<and>
    (res \<noteq> SkippedOlder \<longrightarrow> stored J (vd (st_db st')) (cr_id rec) = Some rec')"
proof -
  let ?sig = "sign_record K sk (record_fields rec)"
  have ver: "verify_record_sig K (ed_verifying_key K sk) (record_fields rec) ?sig" and len: "length ?sig = 64"
    using assms(3) by (simp_all add: crypto_laws_def verify_record_sig_def sign_record_def)
  have sign: "sign_if_unsigned K (st_signing_key st) rec = Ok (rec\<lparr>cr_sig := hex_encode ?sig\<rparr>)"
    using assms(4,5) ver by (simp add: sign_if_unsigned_def Let_def)
  then have rec': "rec' = rec\<lparr>cr_sig := hex_encode ?sig\<rparr>"
    using assms(6) by (auto simp: store_insert_record_def split: prod.splits result.splits if_splits)
  have 1: "store_verify_record K (ed_verifying_key K sk) rec' = Ok VerifyResult_ok"
    using ver len by (simp add: rec' store_verify_record_def verify_record_signature_def)
  obtain d1 where ins: "insert_record R J (st_db st) rec' (Some (st_config st)) = (Ok res, d1)"
    and st': "st_db st' = d1 \<or> st_db st' = snd (index_record R d1 (cr_id rec') (cr_schema rec') (cr_tags rec'))"
    using assms(6) sign rec'
    by (auto simp: store_insert_record_def split: prod.splits result.splits if_splits)
  have 2: "stored J (vd (st_db st')) (cr_id rec) = Some rec'" if "res \<noteq> SkippedOlder"
  proof -
    from insert_record_Ok [OF assms(1) ins] obtain json where j: "record_to_json J rec' = Ok json"
      and eff: "insert_effect J (vd (st_db st)) rec' json res (vd d1)" by blast
    have "stored J (vd d1) (cr_id rec') = Some rec'"
      using eff that stored_add [OF serde_roundtrip(1) [OF assms(2) j]]
      by (cases res) (auto simp: insert_effect_def)
    with st' only_index_stored [OF index_record_only [OF assms(1)]] show ?thesis
      by (auto simp: rec')
  qed
  from 1 2 rec' show ?thesis by simp
qed

definition plain_config :: StorageConfig where
  "plain_config = \<lparr>sc_quota_mb = 0, sc_quota_action = lit ''reject'', sc_tier2_max_mb = 0\<rparr>"

definition r1_unsigned :: ContentRecord where
  "r1_unsigned = rec_of ''r1'' ''h1'' 5 0"

lemma r1_simps [simp]:
  "cr_id r1_unsigned = lit ''r1''" "cr_source_hash r1_unsigned = lit ''h1''" "cr_sig r1_unsigned = []"
  "cr_schema r1_unsigned = lit ''wiki/article''" "cr_tags r1_unsigned = [lit ''lang:en'']"
  by (simp_all add: r1_unsigned_def) (simp add: rec_of_def)

definition r1_signed :: ContentRecord where
  "r1_signed = r1_unsigned\<lparr>cr_sig := hex_encode (sign_record sample_crypto () (record_fields r1_unsigned))\<rparr>"

definition keyed_store :: "(mem_db, unit) Store" where
  "keyed_store = set_signing_key () (Store_new mem_empty plain_config)"

lemma keyed_store_simps [simp]:
  "st_db keyed_store = mem_empty" "st_signing_key keyed_store = Some ()" "st_config keyed_store = plain_config"
  by (simp_all add: keyed_store_def set_signing_key_def Store_new_def)

lemma sign_r1: "sign_if_unsigned sample_crypto (Some ()) r1_unsigned = Ok r1_signed"
  using sample_crypto_laws
  by (simp add: sign_if_unsigned_def Let_def r1_signed_def crypto_laws_def verify_record_sig_def sign_record_def)

lemma r1_signed_simps [simp]:
  "cr_id r1_signed = lit ''r1''" "cr_source_hash r1_signed = lit ''h1''"
  by (simp_all add: r1_signed_def)

lemma r1_small: "str_len (enc_record r1_signed) \<le> MAX_RECORD_SIZE"
proof -
  have four: "str_len s \<le> 4 * length s" for s :: ustr
  proof (induction s)
    case (Cons c s)
    with utf8_len_bounds(2) [of c] show ?case by simp
  qed simp
  have "length (sign_record sample_crypto () (record_fields r1_unsigned)) = 64"
    using sample_crypto_laws by (simp add: crypto_laws_def sign_record_def)
  then show ?thesis
    using four [of "enc_record r1_signed"]
    by (simp add: enc_record_def r1_signed_def r1_unsigned_def rec_of_def enc_str_def enc_strs.simps MAX_RECORD_SIZE_def)
qed

lemma r1_insert:
  obtains d1 where "insert_record mem_redb sample_serde mem_empty r1_signed (Some plain_config) = (Ok Inserted, d1)"
proof -
  have "validate_record_size sample_serde r1_signed = Ok ()"
    using r1_small by (simp add: validate_record_size_Ok)
  then have "fst (insert_record mem_redb sample_serde mem_empty r1_signed (Some plain_config)) = Ok Inserted"
    by (simp add: insert_record_def dedup_check_def settle_def insert_quota_check_def plain_config_def mem_empty_def)
  then show thesis using that by (metis prod.collapse)
qed

lemma r1_store_insert:
  obtains st' where "store_insert_record sample_crypto mem_redb sample_serde r1_unsigned keyed_store =
    ((Ok Inserted, r1_signed), st')"
proof -
  have i: "plain_id (cr_id r1_unsigned)" by (simp add: plain_id_def lit_def)
  have free: "indexable (mem_view (st_db keyed_store)) (cr_id r1_unsigned) (cr_schema r1_unsigned) (cr_tags r1_unsigned)"
    by (simp add: indexable_def listed_def mem_view_def mem_empty_def)
  have sign: "sign_if_unsigned sample_crypto (st_signing_key keyed_store) r1_unsigned = Ok r1_signed"
    by (simp add: sign_r1)
  obtain d1 where "insert_record mem_redb sample_serde (st_db keyed_store) r1_signed (Some (st_config keyed_store)) =
      (Ok Inserted, d1)"
    using r1_insert by auto
  from store_insert_reliable [OF mem_redb_laws mem_redb_reliable i sign this _ free] that
  show thesis by auto
qed

theorem store_insert_signed_witness:
  "\<exists>st'. store_insert_record sample_crypto mem_redb sample_serde r1_unsigned keyed_store = ((Ok Inserted, r1_signed), st') \<and>
     store_verify_record sample_crypto () r1_signed = Ok VerifyResult_ok \<and>
     stored sample_serde (mem_view (st_db st')) (lit ''r1'') = Some r1_signed"
proof -
  obtain st' where st': "store_insert_record sample_crypto mem_redb sample_serde r1_unsigned keyed_store =
      ((Ok Inserted, r1_signed), st')"
    by (rule r1_store_insert)
  from store_insert_signed [OF mem_redb_laws sample_serde_laws sample_crypto_laws _ _ st', of "()"] st'
  show ?thesis by (simp add: sample_crypto_def)
qed

section \<open>Inserting and deleting\<close>

text \<open>C12: Inserting a record and deleting it again gives the store back: for a record with an id
  that is neither stored nor listed under its tags and that no other source uses, the delete
  succeeds, the records stored are those from before and every entry of the inverted index
  lists what it listed. In between, the id is listed under each of the record's tags.\<close>

theorem store_insert_delete:
  assumes "redb_laws R vd vt" and "redb_reliable R" and "serde_laws J"
    and "index_exact J (vd (st_db st))" and "stored J (vd (st_db st)) (cr_id rec) = None"
    and "plain_id (cr_id rec)" and "indexable (vd (st_db st)) (cr_id rec) (cr_schema rec) (cr_tags rec)"
    and "sign_if_unsigned K (st_signing_key st) rec = Ok rec'"
    and "insert_record R J (st_db st) rec' (Some (st_config st)) = (Ok Inserted, d1)"
  shows "\<exists>st1 st2. store_insert_record K R J rec st = ((Ok Inserted, rec'), st1) \<and>
    stored J (vd (st_db st1)) = (stored J (vd (st_db st)))(cr_id rec \<mapsto> rec') \<and>
    (\<forall>tag \<in> set (cr_tags rec). cr_id rec \<in> set (listed (vd (st_db st1)) (index_key (cr_schema rec) tag))) \<and>
    store_delete_record R J (cr_id rec) st1 = (Ok True, st2) \<and>
    stored J (vd (st_db st2)) = stored J (vd (st_db st)) \<and>
    listed (vd (st_db st2)) = listed (vd (st_db st))"
proof -
  note L = assms(1) and rel = assms(2)
  note same = signed_same [OF assms(8)]
  let ?c = "vd (st_db st)" and ?i = "cr_id rec" and ?keys = "keys_of (cr_schema rec) (cr_tags rec)"
  obtain d2 where ins: "store_insert_record K R J rec st = ((Ok Inserted, rec'), st\<lparr>st_db := d2\<rparr>)"
    and l2: "listed (vd d2) = (\<lambda>k. if k \<in> ?keys then listed ?c k @ [?i] else listed ?c k)"
    and o2: "only_index (vd d1) (vd d2)"
    using store_insert_reliable [OF L rel assms(6,8,9) _ assms(7)] by blast
  from insert_record_Ok [OF L assms(9)] obtain json where j: "record_to_json J rec' = Ok json"
    and eff: "insert_effect J ?c rec' json Inserted (vd d1)" by blast
  have fresh: "fresh_id J ?c rec'" using assms(5) by (simp add: fresh_id_def same)
  have ex1: "index_exact J (vd d1)"
    using insert_effect_spec [OF assms(3,4) fresh j eff] by blast
  then have ex2: "index_exact J (vd d2)" by (simp add: only_index_exact [OF o2])
  have "stored J (vd d1) = (stored J ?c)(?i \<mapsto> rec')"
    using eff stored_add [OF serde_roundtrip(1) [OF assms(3) j]] by (simp add: insert_effect_def same)
  then have s2: "stored J (vd d2) = (stored J ?c)(?i \<mapsto> rec')"
    using only_index_stored [OF o2] by (auto simp: fun_eq_iff)
  have g: "get_record R J d2 ?i = Ok (Some rec')"
    using get_record_reliable [OF L rel, of J d2 ?i] ex2 s2 by (simp add: index_exact_def)
  obtain d3 where d3: "delete_record R J d2 ?i = (Ok True, d3)"
      "stored J (vd d3) = (stored J (vd d2))(?i := None)"
      "c_tab (vd d3) INVERTED_INDEX_TABLE = c_tab (vd d2) INVERTED_INDEX_TABLE"
    using delete_record_reliable [OF L rel ex2, of ?i] s2 by auto
  obtain d4 where d4: "deindex_record R d3 ?i (cr_schema rec) (cr_tags rec) = (Ok (), d4)"
      "listed (vd d4) = (\<lambda>k. if k \<in> ?keys then filter (\<lambda>x. x \<noteq> ?i) (listed (vd d3) k) else listed (vd d3) k)"
    using deindex_record_reliable [OF L rel] by blast
  have "listed (vd d4) = listed ?c"
    unfolding d4(2) listed_cong(1) [OF d3(3)] l2 using assms(7)
    by (auto simp: fun_eq_iff keys_of_def indexable_def filter_id_conv)
  moreover have "stored J (vd d4) = stored J ?c"
  proof -
    have "only_index (vd d3) (vd d4)"
      using deindex_record_only [OF L, of d3 ?i "cr_schema rec" "cr_tags rec"] d4(1) by simp
    from only_index_stored [OF this] show ?thesis
      using assms(5) by (auto simp: fun_eq_iff d3(2) s2)
  qed
  moreover have "store_delete_record R J ?i (st\<lparr>st_db := d2\<rparr>) = (Ok True, st\<lparr>st_db := d4\<rparr>)"
    using g d3(1) d4(1) by (simp add: store_delete_record_def same)
  moreover have "\<forall>tag \<in> set (cr_tags rec). ?i \<in> set (listed (vd d2) (index_key (cr_schema rec) tag))"
    by (simp add: l2 keys_of_def)
  ultimately show ?thesis using ins s2 by fastforce
qed

lemma mem_empty_exact: "index_exact sample_serde (mem_view mem_empty)"
  by (simp add: index_exact_def dedup_inv_def mem_view_def mem_empty_def)

theorem store_insert_delete_witness:
  "\<exists>st1 st2. store_insert_record sample_crypto mem_redb sample_serde r1_unsigned keyed_store = ((Ok Inserted, r1_signed), st1) \<and>
     lit ''r1'' \<in> set (listed (mem_view (st_db st1)) (index_key (lit ''wiki/article'') (lit ''lang:en''))) \<and>
     store_delete_record mem_redb sample_serde (lit ''r1'') st1 = (Ok True, st2)"
proof -
  obtain d1 where d1: "insert_record mem_redb sample_serde (st_db keyed_store) r1_signed (Some (st_config keyed_store)) =
      (Ok Inserted, d1)"
    using r1_insert by auto
  have "index_exact sample_serde (mem_view (st_db keyed_store))"
    by (simp add: mem_empty_exact)
  moreover have "stored sample_serde (mem_view (st_db keyed_store)) (cr_id r1_unsigned) = None"
    by (simp add: stored_def mem_view_def mem_empty_def)
  moreover have "plain_id (cr_id r1_unsigned)" by (simp add: plain_id_def lit_def)
  moreover have "indexable (mem_view (st_db keyed_store)) (cr_id r1_unsigned) (cr_schema r1_unsigned) (cr_tags r1_unsigned)"
    by (simp add: indexable_def listed_def mem_view_def mem_empty_def)
  moreover have "sign_if_unsigned sample_crypto (st_signing_key keyed_store) r1_unsigned = Ok r1_signed"
    by (simp add: sign_r1)
  ultimately show ?thesis
    using store_insert_delete [OF mem_redb_laws mem_redb_reliable sample_serde_laws _ _ _ _ _ d1, of r1_unsigned sample_crypto]
    by auto
qed

text \<open>A newer copy of a record under the id it already has is stored and then panics: the
  insert is committed, indexing meets the id under one of the tags, and the unwinding call
  leaves the caller with neither a result nor an error, and no later tag is indexed.\<close>

theorem store_update_panics:
  assumes "redb_laws R vd vt" and "redb_reliable R" and "plain_id (cr_id rec)"
    and "sign_if_unsigned K (st_signing_key st) rec = Ok rec'"
    and "insert_record R J (st_db st) rec' (Some (st_config st)) = (Ok ReplacedNewer, d1)"
    and "cr_tags rec = tag # tags" and "cr_id rec \<in> set (listed (vd (st_db st)) (index_key (cr_schema rec) tag))"
  shows "store_insert_record K R J rec st = ((Panic, rec'), st\<lparr>st_db := d1\<rparr>)"
proof -
  have "cr_id rec \<in> set (listed (vd d1) (index_key (cr_schema rec) tag))"
    using assms(7) listed_cong(1) [OF insert_keeps_inverted [OF assms(1,5)]] by simp
  from index_tag_again [OF assms(1-3) this] show ?thesis
    by (simp add: store_insert_record_def assms(4-6) signed_same [OF assms(4)])
qed

definition indexed_db :: mem_db where
  "indexed_db = one_record\<lparr>m_tab := (m_tab one_record)
     (INVERTED_INDEX_TABLE := [(index_key (lit ''wiki/article'') (lit ''lang:en''), lit ''r1'')])\<rparr>"

lemma indexed_db_insert:
  "fst (insert_record mem_redb sample_serde indexed_db (rec_of ''r1'' ''h1'' 9 0) (Some plain_config)) = Ok ReplacedNewer"
  by (simp add: insert_record_def validate_sample dedup_check_def settle_def
      insert_quota_check_def one_record_def mem_records_def mem_empty_def indexed_db_def plain_config_def)

definition indexed_store :: "(mem_db, unit) Store" where
  "indexed_store = Store_new indexed_db plain_config"

lemma indexed_store_simps [simp]:
  "st_db indexed_store = indexed_db" "st_signing_key indexed_store = None" "st_config indexed_store = plain_config"
  by (simp_all add: indexed_store_def Store_new_def)

theorem store_update_panics_witness:
  "fst (fst (store_insert_record sample_crypto mem_redb sample_serde (rec_of ''r1'' ''h1'' 9 0) indexed_store)) = Panic"
proof -
  let ?r = "rec_of ''r1'' ''h1'' 9 0"
  obtain d1 where d1: "insert_record mem_redb sample_serde (st_db indexed_store) ?r (Some (st_config indexed_store)) =
      (Ok ReplacedNewer, d1)"
    using indexed_db_insert by (metis indexed_store_simps(1,3) prod.collapse)
  have i: "plain_id (cr_id ?r)" by (simp add: plain_id_def lit_def)
  have sign: "sign_if_unsigned sample_crypto (st_signing_key indexed_store) ?r = Ok ?r"
    by (simp add: sign_if_unsigned_def)
  have tags: "cr_tags ?r = lit ''lang:en'' # []" by simp
  have "listed (mem_view (st_db indexed_store)) (index_key (cr_schema ?r) (lit ''lang:en'')) = [lit ''r1'']"
    by (simp add: listed_def mem_view_def indexed_db_def) (simp add: lit_def)
  then have old: "cr_id ?r \<in> set (listed (mem_view (st_db indexed_store)) (index_key (cr_schema ?r) (lit ''lang:en'')))"
    by simp
  from store_update_panics [OF mem_redb_laws mem_redb_reliable i sign d1 tags old] show ?thesis by simp
qed

section \<open>Searching\<close>

text \<open>The records stored, in the order of their ids.\<close>

definition records_in_order :: "serde \<Rightarrow> contents \<Rightarrow> ContentRecord list" where
  "records_in_order J c = map (\<lambda>k. the (stored J c k)) (sorted_list_of_set (dom (c_tab c RECORDS_TABLE)))"

definition has_schema :: "ustr option \<Rightarrow> ContentRecord \<Rightarrow> bool" where
  "has_schema schema r \<longleftrightarrow> schema = None \<or> schema = Some (cr_schema r)"

lemma list_loop_spec:
  assumes "\<And>k v. (k, v) \<in> set kvs \<Longrightarrow> record_from_json J v = Ok (parsed J v)" and "length acc < max 1 (unat limit)"
  shows "list_loop J schema limit acc (map Ok kvs) =
    Ok (take (max 1 (unat limit)) (acc @ filter (has_schema schema) (map (\<lambda>kv. parsed J (snd kv)) kvs)))"
  using assms
proof (induction kvs arbitrary: acc)
  case (Cons kv kvs)
  obtain k v where kv: "kv = (k, v)" by force
  have j: "record_from_json J v = Ok (parsed J v)" using Cons.prems(1) [of k v] kv by simp
  have p: "record_from_json J v = Ok (parsed J v)" if "(k, v) \<in> set kvs" for k v
    using Cons.prems(1) [of k v] that by simp
  show ?case
  proof (cases "has_schema schema (parsed J v)")
    case False
    with Cons.IH [OF p Cons.prems(2)] j kv show ?thesis
      by (auto simp: has_schema_def)
  next
    case True
    show ?thesis
    proof (cases "unat limit \<le> length acc + 1")
      case enough: True
      with Cons.prems(2) have "max 1 (unat limit) = length acc + 1" by linarith
      with True enough j kv show ?thesis by (auto simp: has_schema_def)
    next
      case False
      then have "length (acc @ [parsed J v]) < max 1 (unat limit)" by simp
      from Cons.IH [OF p this] True False j kv show ?thesis by (auto simp: has_schema_def)
    qed
  qed
qed simp

lemma list_records_reliable:
  assumes L: "redb_laws R vd vt" and rel: "redb_reliable R" and inv: "dedup_inv J (vd d)"
  shows "list_records R J d schema limit =
    Ok (take (max 1 (unat limit)) (filter (has_schema schema) (records_in_order J (vd d))))"
proof -
  note r = reliable_ok [OF L rel]
  obtain t where t: "begin_read R d = Ok t" "vt t = vd d" using r(1) by metis
  obtain kvs where kvs: "t_iter R t RECORDS_TABLE = Ok (map Ok kvs)" "listing (c_tab (vd d) RECORDS_TABLE) kvs"
    using r(9) t(2) by metis
  have p: "record_from_json J v = Ok (parsed J v) \<and> stored J (vd d) k = Some (parsed J v)"
    if "(k, v) \<in> set kvs" for k v
    using stored_parsed [OF inv] listing_mem [OF kvs(2)] that by blast
  have keys: "map fst kvs = sorted_list_of_set (dom (c_tab (vd d) RECORDS_TABLE))"
    by (subst listing_eq [OF kvs(2)]) (simp add: comp_def)
  have "map (\<lambda>kv. parsed J (snd kv)) kvs = map (\<lambda>k. the (stored J (vd d) k)) (map fst kvs)"
    using p by (auto simp: comp_def)
  then have "map (\<lambda>kv. parsed J (snd kv)) kvs = records_in_order J (vd d)"
    by (simp only: keys records_in_order_def)
  with t kvs(1) r(4) list_loop_spec [of kvs J "[]" limit schema] p show ?thesis
    by (simp add: list_records_def)
qed

text \<open>The limit of the scan: ten times the limit of the search, at the width of \<^verbatim>\<open>usize\<close>, and
  never less than one.\<close>

definition scan_limit :: "u64 \<Rightarrow> nat" where
  "scan_limit limit = max 1 (unat (limit * 10))"

lemma insert_desc_set [simp]: "set (insert_desc F x ys) = insert x (set ys)"
  by (induction ys) auto

lemma sort_desc_set [simp]: "set (sort_desc F xs) = set xs"
  by (induction xs) (auto simp: sort_desc_def)

text \<open>Scores without a NaN are weakly ordered by less-than.\<close>

definition weak_order :: "'f f64_ops \<Rightarrow> bool" where
  "weak_order F \<longleftrightarrow> (\<forall>a b. f_less F a b \<longrightarrow> \<not> f_less F b a) \<and>
     (\<forall>a b c. f_less F a c \<longrightarrow> f_less F a b \<or> f_less F b c)"

lemma insert_desc_sorted:
  assumes W: "weak_order F" and "sorted_wrt (\<lambda>x y. \<not> f_less F (snd x) (snd y)) ys"
  shows "sorted_wrt (\<lambda>x y. \<not> f_less F (snd x) (snd y)) (insert_desc F x ys)"
  using assms(2)
proof (induction ys)
  case (Cons y ys)
  show ?case
  proof (cases "f_less F (snd x) (snd y)")
    case True
    with W have "\<not> f_less F (snd y) (snd x)" by (simp add: weak_order_def)
    with True Cons show ?thesis by simp
  next
    case False
    have "\<not> f_less F (snd x) (snd z)" if "z \<in> set ys" for z
      using W False Cons.prems that unfolding weak_order_def by (metis sorted_wrt.simps(2))
    with False Cons.prems show ?thesis by simp
  qed
qed simp

lemma sort_desc_sorted:
  assumes "weak_order F"
  shows "sorted_wrt (\<lambda>x y. \<not> f_less F (snd x) (snd y)) (sort_desc F xs)"
  by (induction xs) (simp_all add: sort_desc_def insert_desc_sorted [OF assms])

lemma insert_desc_length [simp]: "length (insert_desc F x ys) = Suc (length ys)"
  by (induction ys) auto

lemma sort_desc_length [simp]: "length (sort_desc F xs) = length xs"
  by (induction xs) (auto simp: sort_desc_def)

lemma cache_get_miss:
  "fst (cache_get now k s) = None \<Longrightarrow> \<exists>s'. cache_get now k s = (None, s') \<and> sc_ttl s' = sc_ttl s"
  by (auto simp: cache_get_def split: option.splits if_splits)

text \<open>The records a search looks at.\<close>

definition effective_limit :: "ParsedQuery \<Rightarrow> u64 \<Rightarrow> u64" where
  "effective_limit q limit = (case pq_limit q of Some n \<Rightarrow> n | None \<Rightarrow> limit)"

definition scanned :: "serde \<Rightarrow> contents \<Rightarrow> ParsedQuery \<Rightarrow> u64 \<Rightarrow> ContentRecord list" where
  "scanned J c q limit = take (scan_limit (effective_limit q limit))
     (filter (has_schema (map_of (pq_fields q) (lit ''schema''))) (records_in_order J c))"

lemma rank_best:
  assumes "weak_order F"
  shows "best (\<lambda>x y. f_less F (score_record F lc secs x q 1) (score_record F lc secs y q 1)) (unat n)
    (filter (\<lambda>r. matches_query lc r q) rs) (rank F lc secs q n rs)"
proof -
  let ?score = "\<lambda>r. score_record F lc secs r q 1" and ?cs = "filter (\<lambda>r. matches_query lc r q) rs"
  let ?s = "sort_desc F (map (\<lambda>r. (r, ?score r)) ?cs)"
  have elem: "snd x = ?score (fst x)" if "x \<in> set ?s" for x
    using that by auto
  have "sorted_wrt (\<lambda>x y. \<not> f_less F (?score (fst x)) (?score (fst y))) ?s"
    by (rule sorted_wrt_mono_rel [OF _ sort_desc_sorted [OF assms]]) (simp only: elem not_False_eq_True)
  then have "sorted_wrt (\<lambda>x y. \<not> f_less F (?score x) (?score y)) (map fst ?s)"
    by (simp only: sorted_wrt_map)
  then show ?thesis
    unfolding rank_def by (rule best_take) (simp_all add: image_image)
qed

text \<open>C13: A search that is not answered from the cache succeeds and leaves the tables alone. It
  looks at the records of the query's schema, in the order of their ids, ten times as many as
  the limit asks for and no further; of those that match it returns as many as the limit
  allows, best score first, and none it leaves out scores higher than one it returns.\<close>

theorem store_search_exact:
  assumes "redb_laws R vd vt" and "redb_reliable R" and "dedup_inv J (vd (st_db st))" and "weak_order F"
    and "fst (cache_get now (cache_key query limit) (st_search_cache st)) = None"
    and "parse_query lc query = q"
  shows "\<exists>rs st'. store_search_records R J V F lc now secs query limit st = (Ok rs, st') \<and> st_db st' = st_db st \<and>
    best (\<lambda>x y. f_less F (score_record F lc secs x q 1) (score_record F lc secs y q 1))
      (unat (effective_limit q limit))
      (filter (\<lambda>r. matches_query lc r q) (scanned J (vd (st_db st)) q limit)) rs"
proof -
  obtain s' where miss: "cache_get now (cache_key query limit) (st_search_cache st) = (None, s')"
    using cache_get_miss [OF assms(5)] by blast
  let ?n = "effective_limit q limit" and ?rs = "scanned J (vd (st_db st)) q limit"
  have list: "list_records R J (st_db st) (map_of (pq_fields q) (lit ''schema'')) (?n * 10) = Ok ?rs"
    by (simp add: list_records_reliable [OF assms(1-3)] scanned_def scan_limit_def)
  have "fst (store_search_records R J V F lc now secs query limit st) = Ok (rank F lc secs q ?n ?rs) \<and>
      st_db (snd (store_search_records R J V F lc now secs query limit st)) = st_db st"
    using list miss assms(6)
    by (auto simp: store_search_records_def effective_limit_def Let_def split: result.splits)
  with rank_best [OF assms(4), of lc secs q ?n ?rs] show ?thesis
    by (intro exI [of _ "rank F lc secs q ?n ?rs"]
        exI [of _ "snd (store_search_records R J V F lc now secs query limit st)"]) (metis prod.collapse)
qed

text \<open>Integers as scores, for the concrete runs.\<close>

definition int_ops :: "int f64_ops" where
  "int_ops = \<lparr>f_lit = (\<lambda>n m. int n div int m), f_add = (+), f_mul = (*), f_div = (div),
     f_of_u64 = uint, f_of_u32 = uint, f_ln = (\<lambda>x. 0), f_max = max, f_less = (<)\<rparr>"

lemma int_ops_weak: "weak_order int_ops"
  by (auto simp: weak_order_def int_ops_def)

text \<open>A serialiser of the one list the runs produce.\<close>

definition sample_vec :: vec_serde where
  "sample_vec =
     \<lparr>vec_to_json = (\<lambda>rs. if rs = [rec_of ''r1'' ''h1'' 5 0] then Ok (enc_record (rec_of ''r1'' ''h1'' 5 0)) else Err []),
      vec_from_json = (\<lambda>j. if j = enc_record (rec_of ''r1'' ''h1'' 5 0) then Ok [rec_of ''r1'' ''h1'' 5 0] else Err [])\<rparr>"

lemma sample_vec_laws: "vec_laws sample_vec"
  by (simp add: vec_laws_def sample_vec_def)

lemma empty_query: "parse_query lc [] = ParsedQuery_default"
  by (simp add: parse_query_def tokenize_def)

lemma cache_empty [simp]: "fst (cache_get now k (st_search_cache indexed_store)) = None"
  by (simp add: indexed_store_def Store_new_def SearchCache_new_def cache_get_def)

lemma indexed_db_only: "only_index (mem_view one_record) (mem_view indexed_db)"
  by (simp add: only_index_def mem_view_def indexed_db_def)

lemma indexed_db_stored: "stored sample_serde (mem_view indexed_db) = [lit ''r1'' \<mapsto> rec_of ''r1'' ''h1'' 5 0]"
  using only_index_stored [OF indexed_db_only] stored_one_record by (auto simp: fun_eq_iff)

lemma indexed_db_exact: "index_exact sample_serde (mem_view indexed_db)"
  using only_index_exact [OF indexed_db_only] one_record_exact by simp

lemma indexed_db_in_order: "records_in_order sample_serde (mem_view indexed_db) = [rec_of ''r1'' ''h1'' 5 0]"
proof -
  have "dom (c_tab (mem_view indexed_db) RECORDS_TABLE) = {lit ''r1''}"
    by (auto simp: mem_view_def indexed_db_def one_record_def mem_records_def split: if_splits)
  then show ?thesis by (simp add: records_in_order_def indexed_db_stored)
qed

lemma indexed_db_matches:
  "filter (\<lambda>r. matches_query id r ParsedQuery_default)
     (scanned sample_serde (mem_view indexed_db) ParsedQuery_default 5) = [rec_of ''r1'' ''h1'' 5 0]"
  by (simp add: scanned_def has_schema_def indexed_db_in_order ParsedQuery_default_def effective_limit_def
      scan_limit_def matches_query_def)

lemma default_limit: "effective_limit ParsedQuery_default n = n"
  by (simp add: effective_limit_def ParsedQuery_default_def)

lemma sample_run:
  "\<exists>st'. store_search_records mem_redb sample_serde sample_vec int_ops id 0 0 [] 5 indexed_store =
     (Ok [rec_of ''r1'' ''h1'' 5 0], st')"
proof -
  have "list_records mem_redb sample_serde indexed_db None 50 = Ok [rec_of ''r1'' ''h1'' 5 0]"
    using list_records_reliable [OF mem_redb_laws mem_redb_reliable, of sample_serde indexed_db None 50] indexed_db_exact
    by (simp add: index_exact_def indexed_db_in_order has_schema_def)
  moreover have "matches_query id r ParsedQuery_default" for r
    by (simp add: matches_query_def ParsedQuery_default_def)
  moreover have "cache_get now k (st_search_cache indexed_store) = (None, st_search_cache indexed_store)" for now k
    by (simp add: indexed_store_def Store_new_def SearchCache_new_def cache_get_def)
  moreover have "pq_limit ParsedQuery_default = None" "pq_fields ParsedQuery_default = []"
    by (simp_all add: ParsedQuery_default_def)
  ultimately have "fst (store_search_records mem_redb sample_serde sample_vec int_ops id 0 0 [] 5 indexed_store) =
      Ok [rec_of ''r1'' ''h1'' 5 0]"
    by (simp add: store_search_records_def Let_def empty_query rank_def sort_desc_def split: result.splits)
  then show ?thesis by (metis prod.collapse)
qed

theorem store_search_exact_witness:
  "\<exists>rs. fst (store_search_records mem_redb sample_serde sample_vec int_ops id 0 0 [] 5 indexed_store) = Ok rs \<and>
     length rs = 1"
proof -
  have "dedup_inv sample_serde (mem_view (st_db indexed_store))"
    using indexed_db_exact by (simp add: index_exact_def)
  from store_search_exact [OF mem_redb_laws mem_redb_reliable this int_ops_weak cache_empty [of 0 "cache_key [] 5"] empty_query [of id],
      of sample_vec 0]
  show ?thesis
    by (auto simp: indexed_db_matches best_def default_limit)
qed

text \<open>The search cache is not told of changes: for the time to live of a cached result, the
  same query returns it whatever was deleted in between, the deleted record with it.\<close>

theorem cached_search_outlives_delete:
  assumes "vec_laws V" and "fst (cache_get now (cache_key query limit) (st_search_cache st)) = None"
    and "store_search_records R J V F lc now secs query limit st = (Ok rs, st1)"
    and "vec_to_json V rs = Ok j" and "now' - now < sc_ttl (st_search_cache st)"
  shows "fst (store_search_records R J V F lc now' secs' query limit (snd (store_delete_record R J k st1))) = Ok rs"
proof -
  obtain s' where miss: "cache_get now (cache_key query limit) (st_search_cache st) = (None, s')"
    and ttl: "sc_ttl s' = sc_ttl (st_search_cache st)"
    using cache_get_miss [OF assms(2)] by blast
  have "st_search_cache st1 = cache_insert now (cache_key query limit) j s'"
    using assms(3,4) miss by (auto simp: store_search_records_def Let_def split: result.splits)
  moreover have "st_search_cache (snd (store_delete_record R J k st1)) = st_search_cache st1"
    by (auto simp: store_delete_record_def split: result.splits prod.splits option.splits if_splits)
  ultimately have "fst (cache_get now' (cache_key query limit) (st_search_cache (snd (store_delete_record R J k st1)))) = Some j"
    using cache_get_insert ttl assms(5) by simp
  moreover have "vec_from_json V j = Ok rs" using assms(1,4) by (simp add: vec_laws_def)
  ultimately show ?thesis
    by (auto simp: store_search_records_def Let_def split: prod.splits)
qed

theorem cached_search_outlives_delete_witness:
  "\<exists>st1. store_search_records mem_redb sample_serde sample_vec int_ops id 0 0 [] 5 indexed_store =
     (Ok [rec_of ''r1'' ''h1'' 5 0], st1) \<and>
     fst (store_search_records mem_redb sample_serde sample_vec int_ops id 7 0 [] 5
       (snd (store_delete_record mem_redb sample_serde (lit ''r1'') st1))) = Ok [rec_of ''r1'' ''h1'' 5 0]"
proof -
  obtain st1 where st1: "store_search_records mem_redb sample_serde sample_vec int_ops id 0 0 [] 5 indexed_store =
      (Ok [rec_of ''r1'' ''h1'' 5 0], st1)"
    using sample_run by blast
  have "vec_to_json sample_vec [rec_of ''r1'' ''h1'' 5 0] = Ok (enc_record (rec_of ''r1'' ''h1'' 5 0))"
    by (simp add: sample_vec_def)
  moreover have "(7 :: nat) - 0 < sc_ttl (st_search_cache indexed_store)"
    by (simp add: indexed_store_def Store_new_def SearchCache_new_def secs_to_ns_def)
  ultimately show ?thesis
    using cached_search_outlives_delete [OF sample_vec_laws cache_empty st1] st1 by blast
qed

section \<open>Every reachable store\<close>

text \<open>One step per public method that may change the store, the sweeper's tick among them; the
  arguments, the clock and the outcomes of the database are arbitrary.\<close>

inductive store_step :: "('sk, 'vk) crypto \<Rightarrow> ('d, 't) redb \<Rightarrow> serde \<Rightarrow> vec_serde \<Rightarrow> 'f f64_ops \<Rightarrow> (ustr \<Rightarrow> ustr)
    \<Rightarrow> ('d, 'sk) Store \<Rightarrow> ('d, 'sk) Store \<Rightarrow> bool"
  for K R J V F lc where
  set_key: "store_step K R J V F lc st (set_signing_key key st)"
| insert: "store_step K R J V F lc st (snd (store_insert_record K R J rec st))"
| delete: "store_step K R J V F lc st (snd (store_delete_record R J k st))"
| pin: "store_step K R J V F lc st (snd (store_pin_record R secs k st))"
| unpin: "store_step K R J V F lc st (snd (store_unpin_record R k st))"
| announce: "store_step K R J V F lc st (snd (store_insert_announcement K R J ann st))"
| search: "store_step K R J V F lc st (snd (store_search_records R J V F lc now secs query limit st))"
| sweep: "store_step K R J V F lc st (snd (store_sweep_once R J secs st))"
| tick: "store_step K R J V F lc st (store_sweeper_tick R J secs st)"
| quota: "store_step K R J V F lc st (snd (store_check_quota R J n st))"
| tier2: "store_step K R J V F lc st (snd (store_tier2_allow now ip st))"
| relay: "store_step K R J V F lc st (snd (store_relay_allow now peer bytes st))"
| relay_rec: "store_step K R J V F lc st (store_relay_record now peer bytes st)"
| prune2: "store_step K R J V F lc st (prune_tier2 now st)"
| prune_r: "store_step K R J V F lc st (prune_relay now st)"
| invalidate: "store_step K R J V F lc st (invalidate_search_cache key st)"
| clear: "store_step K R J V F lc st (clear_search_cache st)"

definition store_inv :: "serde \<Rightarrow> ('d \<Rightarrow> contents) \<Rightarrow> ('d, 'sk) Store \<Rightarrow> bool" where
  "store_inv J vd st \<longleftrightarrow> dedup_inv J (vd (st_db st)) \<and> cache_wf (st_search_cache st) \<and>
     tier2_within (st_tier2_limiter st)"

text \<open>What each kind of step leaves alone.\<close>

lemma store_insert_parts [simp]:
  "st_search_cache (snd (store_insert_record K R J rec st)) = st_search_cache st"
  "st_tier2_limiter (snd (store_insert_record K R J rec st)) = st_tier2_limiter st"
  "st_search_cache (snd (store_insert_announcement K R J ann st)) = st_search_cache st"
  "st_tier2_limiter (snd (store_insert_announcement K R J ann st)) = st_tier2_limiter st"
  "st_search_cache (snd (store_delete_record R J k st)) = st_search_cache st"
  "st_tier2_limiter (snd (store_delete_record R J k st)) = st_tier2_limiter st"
  by (auto simp: store_insert_record_def store_insert_announcement_def store_delete_record_def
      split: result.splits prod.splits option.splits if_splits)

lemma store_search_parts [simp]:
  "st_db (snd (store_search_records R J V F lc now secs query limit st)) = st_db st"
  "st_tier2_limiter (snd (store_search_records R J V F lc now secs query limit st)) = st_tier2_limiter st"
  by (auto simp: store_search_records_def Let_def split: result.splits prod.splits option.splits)

lemma store_insert_db_inv:
  assumes L: "redb_laws R vd vt" and S: "serde_laws J" and inv: "dedup_inv J (vd (st_db st))"
  shows "dedup_inv J (vd (st_db (snd (store_insert_record K R J rec st))))"
proof (cases "sign_if_unsigned K (st_signing_key st) rec")
  case (Ok rec')
  note ins = insert_record_inv [OF L S inv, of rec' "Some (st_config st)"]
  obtain r d1 where d1: "insert_record R J (st_db st) rec' (Some (st_config st)) = (r, d1)" by force
  obtain u d2 where d2: "index_record R d1 (cr_id rec') (cr_schema rec') (cr_tags rec') = (u, d2)" by force
  have "dedup_inv J (vd d1)" using ins d1 by simp
  moreover have "dedup_inv J (vd d2) = dedup_inv J (vd d1)"
    using only_index_dedup_inv [OF index_record_only [OF L]] d2 by (metis snd_conv)
  ultimately show ?thesis
    by (cases r; cases u) (simp_all add: store_insert_record_def Ok d1 d2)
qed (simp_all add: store_insert_record_def inv)

lemma store_delete_db_inv:
  assumes L: "redb_laws R vd vt" and inv: "dedup_inv J (vd (st_db st))"
  shows "dedup_inv J (vd (st_db (snd (store_delete_record R J k st))))"
proof -
  obtain r d1 where d1: "delete_record R J (st_db st) k = (r, d1)" by force
  have inv1: "dedup_inv J (vd d1)" using delete_record_inv [OF L inv, of k] d1 by simp
  have "dedup_inv J (vd (snd (deindex_record R d1 i schema tags)))" for i schema tags
    using only_index_dedup_inv [OF deindex_record_only [OF L]] inv1 by metis
  then show ?thesis
    using inv inv1 by (auto simp: store_delete_record_def d1 split: result.splits prod.splits option.splits if_splits)
      (metis snd_conv)+
qed

lemma store_search_cache_wf:
  assumes "cache_wf (st_search_cache st)"
  shows "cache_wf (st_search_cache (snd (store_search_records R J V F lc now secs query limit st)))"
proof -
  obtain c s where g: "cache_get now (cache_key query limit) (st_search_cache st) = (c, s)" by force
  then have "cache_wf s" using cache_get_wf [OF assms] by (metis snd_conv)
  with cache_insert_wf [OF this] show ?thesis
    by (auto simp: store_search_records_def Let_def g split: result.splits option.splits)
qed

lemma store_other_db_inv:
  assumes L: "redb_laws R vd vt" and inv: "dedup_inv J (vd (st_db st))"
  shows "dedup_inv J (vd (st_db (snd (store_pin_record R secs k st))))"
    "dedup_inv J (vd (st_db (snd (store_unpin_record R k st))))"
    "dedup_inv J (vd (st_db (snd (store_insert_announcement K R J ann st))))"
    "dedup_inv J (vd (st_db (snd (store_sweep_once R J secs st))))"
    "dedup_inv J (vd (st_db (store_sweeper_tick R J secs st)))"
    "dedup_inv J (vd (st_db (snd (store_check_quota R J n st))))"
proof -
  show "dedup_inv J (vd (st_db (snd (store_pin_record R secs k st))))"
    using pin_record_inv [OF L inv] by (simp add: store_pin_record_def)
  show "dedup_inv J (vd (st_db (snd (store_unpin_record R k st))))"
    using unpin_record_inv [OF L inv] by (simp add: store_unpin_record_def)
  show "dedup_inv J (vd (st_db (snd (store_insert_announcement K R J ann st))))"
    using insert_announcement_inv [OF L inv] inv
    by (auto simp: store_insert_announcement_def split: result.splits prod.splits) (metis snd_conv)
  show "dedup_inv J (vd (st_db (snd (store_sweep_once R J secs st))))"
    using delete_expired_announcements_inv [OF L delete_expired_records_inv [OF L inv, of secs], of secs]
      delete_expired_records_inv [OF L inv, of secs]
    by (auto simp: store_sweep_once_def sweep_once_def split: result.splits prod.splits)
  show "dedup_inv J (vd (st_db (store_sweeper_tick R J secs st)))"
    using sweeper_tick_inv [OF L inv] by (simp add: store_sweeper_tick_def)
  show "dedup_inv J (vd (st_db (snd (store_check_quota R J n st))))"
    using check_quota_inv [OF L inv] by (simp add: store_check_quota_def)
qed

lemma store_other_parts [simp]:
  "st_search_cache (snd (store_pin_record R secs k st)) = st_search_cache st"
  "st_tier2_limiter (snd (store_pin_record R secs k st)) = st_tier2_limiter st"
  "st_search_cache (snd (store_unpin_record R k st)) = st_search_cache st"
  "st_tier2_limiter (snd (store_unpin_record R k st)) = st_tier2_limiter st"
  "st_search_cache (snd (store_sweep_once R J secs st)) = st_search_cache st"
  "st_tier2_limiter (snd (store_sweep_once R J secs st)) = st_tier2_limiter st"
  "st_search_cache (store_sweeper_tick R J secs st) = st_search_cache st"
  "st_tier2_limiter (store_sweeper_tick R J secs st) = st_tier2_limiter st"
  "st_search_cache (snd (store_check_quota R J n st)) = st_search_cache st"
  "st_tier2_limiter (snd (store_check_quota R J n st)) = st_tier2_limiter st"
  by (simp_all add: store_pin_record_def store_unpin_record_def store_sweep_once_def
      store_sweeper_tick_def store_check_quota_def)

lemma tier2_within_keeps:
  assumes "tier2_within l"
  shows "tier2_within (snd (tier2_allow now ip l))" "tier2_within (tier2_prune_expired now l)"
proof -
  show "tier2_within (snd (tier2_allow now ip l))"
    using tier2.allow_keeps [OF assms, of 1] by simp
  show "tier2_within (tier2_prune_expired now l)"
    using assms by (auto simp: tier2_within_def tier2_prune_expired_def ran_def split: option.splits if_splits)
qed

lemma store_step_inv:
  assumes L: "redb_laws R vd vt" and S: "serde_laws J" and "store_step K R J V F lc st st'" and "store_inv J vd st"
  shows "store_inv J vd st'"
proof -
  have inv: "dedup_inv J (vd (st_db st))" "cache_wf (st_search_cache st)" "tier2_within (st_tier2_limiter st)"
    using assms(4) by (simp_all add: store_inv_def)
  note db = store_insert_db_inv [OF L S inv(1)] store_delete_db_inv [OF L inv(1)] store_other_db_inv [OF L inv(1)]
  show ?thesis
    using assms(3)
  proof cases
    case (tier2 now ip)
    then show ?thesis
      using inv tier2_within_keeps(1) [OF inv(3), of now ip]
      by (simp add: store_inv_def store_tier2_allow_def split: prod.splits)
  next
    case (invalidate key)
    have "cache_wf (cache_invalidate key (st_search_cache st))"
      using inv(2) le_trans [OF drop_key_facts(3) [of key "sc_entries (st_search_cache st)"]]
      by (simp add: cache_wf_def cache_invalidate_def)
    with invalidate inv show ?thesis by (simp add: store_inv_def invalidate_search_cache_def)
  next
    case clear
    then show ?thesis
      using inv by (simp add: store_inv_def clear_search_cache_def cache_clear_def cache_wf_def)
  qed (use inv db store_search_cache_wf [OF inv(2)] tier2_within_keeps(2) [OF inv(3)] in
      \<open>auto simp: store_inv_def set_signing_key_def store_relay_allow_def store_relay_record_def
        prune_tier2_def prune_relay_def split: prod.splits\<close>)
qed

lemma store_steps_inv:
  assumes "redb_laws R vd vt" and "serde_laws J" and "(store_step K R J V F lc)\<^sup>*\<^sup>* st st'" and "store_inv J vd st"
  shows "store_inv J vd st'"
  using assms(3,4) by (induction rule: rtranclp_induct) (auto intro: store_step_inv [OF assms(1,2)])

lemma open_tables_Ok:
  assumes L: "redb_laws R vd vt"
  shows "open_tables R t ns = Ok t' \<Longrightarrow> vt t' = vt t"
proof (induction ns arbitrary: t)
  case (Cons x ns)
  obtain c n where x: "x = (c, n)" by force
  with Cons.prems obtain t1 where "open_write R t n = Ok t1" "open_tables R t1 ns = Ok t'"
    by (auto simp: res_simps)
  with Cons.IH redb_tx(1) [OF L] show ?case by metis
qed simp

lemma check_and_migrate_tables:
  assumes L: "redb_laws R vd vt" and ok: "check_and_migrate R d = (Ok u, d')"
  shows "c_tab (vd d') = c_tab (vd d)"
proof -
  have "d' = d \<or> (\<exists>t t1 t2. begin_write R d = Ok t \<and> open_write R t META_TABLE = Ok t1 \<and>
      meta_insert R t1 SCHEMA_VERSION_KEY CURRENT_SCHEMA_VERSION = Ok t2 \<and> commit R d t2 = Ok d')"
    using ok by (auto simp: check_and_migrate_def res_simps Migrator_run_def split: if_splits)
  then show ?thesis
    using redb_begin [OF L] redb_tx [OF L] by fastforce
qed

lemma open_store_Ok:
  assumes L: "redb_laws R vd vt" and ok: "open_store R (Ok d) = Ok d'"
  shows "c_tab (vd d') = c_tab (vd d)"
proof -
  from ok obtain t1 t2 d1 where t1: "begin_write R d = Ok t1" and t2: "open_tables R t1 all_tables = Ok t2"
    and d1: "commit R d t2 = Ok d1" and
    m: "(case check_and_migrate R d1 of (Ok _, d) \<Rightarrow> Ok d | (Err e, d) \<Rightarrow> Err e | (Panic, d) \<Rightarrow> Panic) = Ok d'"
    by (auto simp: open_store_def res_simps)
  obtain r d2 where r: "check_and_migrate R d1 = (r, d2)" by force
  with m have mig: "check_and_migrate R d1 = (Ok (), d')" by (cases r) auto
  have "vd d1 = vd d"
    using redb_begin(2) [OF L t1] open_tables_Ok [OF L t2] redb_begin(3) [OF L d1] by simp
  with check_and_migrate_tables [OF L mig] show ?thesis by simp
qed

lemma store_new_inv: "dedup_inv J (vd d) \<Longrightarrow> store_inv J vd (Store_new d config)"
  by (simp add: store_inv_def Store_new_def cache_wf_def SearchCache_new_def tier2_within_def Tier2Limiter_new_def)

text \<open>What the invariant says of the records.\<close>

lemma store_inv_records:
  assumes "store_inv J vd st"
  shows "(\<forall>k j. c_tab (vd (st_db st)) RECORDS_TABLE k = Some j \<longrightarrow>
      (\<exists>r. record_from_json J j = Ok r \<and> cr_id r = k)) \<and>
    (\<forall>k k' r r'. stored J (vd (st_db st)) k = Some r \<and> stored J (vd (st_db st)) k' = Some r' \<and>
      cr_source_hash r = cr_source_hash r' \<longrightarrow> k = k')"
proof -
  have d: "dedup_inv J (vd (st_db st))" using assms by (simp add: store_inv_def)
  have "k = k'" if "stored J (vd (st_db st)) k = Some r" "stored J (vd (st_db st)) k' = Some r'"
      "cr_source_hash r = cr_source_hash r'" for k k' r r'
    using dedup_inv_stored [OF d that(1)] dedup_inv_stored [OF d that(2)] that(3) by simp
  moreover have "\<exists>r. record_from_json J j = Ok r \<and> cr_id r = k"
    if "c_tab (vd (st_db st)) RECORDS_TABLE k = Some j" for k j
    using d that by (auto simp: dedup_inv_def)
  ultimately show ?thesis by blast
qed

text \<open>C11: Whatever sequence of calls a freshly opened store gets, with whatever arguments and
  clocks and whichever database operations fail, no two records stored have the same source
  hash, every stored value reads back as a record with its key as id, the search cache stays
  within its bound with one entry per key, and no address is counted past its limit.\<close>

theorem store_reachable:
  assumes "redb_laws R vd vt" and "serde_laws J" and "open_store R (Ok d) = Ok d'" and "dedup_inv J (vd d)"
    and "(store_step K R J V F lc)\<^sup>*\<^sup>* (Store_new d' config) st"
  shows "(\<forall>k j. c_tab (vd (st_db st)) RECORDS_TABLE k = Some j \<longrightarrow>
      (\<exists>r. record_from_json J j = Ok r \<and> cr_id r = k)) \<and>
    (\<forall>k k' r r'. stored J (vd (st_db st)) k = Some r \<and> stored J (vd (st_db st)) k' = Some r' \<and>
      cr_source_hash r = cr_source_hash r' \<longrightarrow> k = k') \<and>
    cache_wf (st_search_cache st) \<and> tier2_within (st_tier2_limiter st)"
proof -
  have "dedup_inv J (vd d')"
    using assms(4) open_store_Ok [OF assms(1,3)] by (simp add: dedup_inv_def)
  then have "store_inv J vd st"
    by (intro store_steps_inv [OF assms(1,2,5)] store_new_inv)
  then show ?thesis using store_inv_records unfolding store_inv_def by blast
qed

theorem store_reachable_witness:
  "\<exists>d'. open_store mem_redb (Ok mem_empty) = Ok d' \<and>
     cache_wf (st_search_cache (snd (store_delete_record mem_redb sample_serde (lit ''r1'') (snd (store_insert_record sample_crypto
       mem_redb sample_serde r1_unsigned (Store_new d' plain_config))))))"
proof -
  have "version_of (mem_view mem_empty) \<le> CURRENT_SCHEMA_VERSION"
    by (simp add: version_of_def mem_view_def mem_empty_def)
  then obtain d' where d': "open_store mem_redb (Ok mem_empty) = Ok d'"
    using open_store_reliable [OF mem_redb_laws mem_redb_reliable] by blast
  let ?step = "store_step sample_crypto mem_redb sample_serde sample_vec int_ops id"
  have "?step\<^sup>*\<^sup>* (Store_new d' plain_config) (snd (store_delete_record mem_redb sample_serde (lit ''r1'') (snd (store_insert_record
      sample_crypto mem_redb sample_serde r1_unsigned (Store_new d' plain_config)))))"
    by (meson rtranclp.intros store_step.insert store_step.delete)
  with store_reachable [OF mem_redb_laws sample_serde_laws d'] mem_empty_exact d' show ?thesis
    unfolding index_exact_def by blast
qed

end
