(* ===== verification/Dht.thy ===== *)
theory Dht
  imports Model Bytes
begin

text \<open>
  \<^verbatim>\<open>src/src/node/dht.rs\<close> and \<^verbatim>\<open>src/src/node/roles.rs\<close>: the routing table (a map from node
  ids to peers, the distance between ids, the closest peers to an id, pruning) and the roles a
  node can have. The \<^verbatim>\<open>BTreeMap\<close> is a list of entries sorted by id, which is the order it
  iterates in.
\<close>

section \<open>Node roles\<close>

datatype NodeRole = Light | Full | Bootstrap | Relay | Stun | Scraper | Archive | Indexer | Gateway | Observer

primrec NodeRole_as_str :: "NodeRole \<Rightarrow> ustr" where
  "NodeRole_as_str Light = lit ''light''"
| "NodeRole_as_str Full = lit ''full''"
| "NodeRole_as_str Bootstrap = lit ''bootstrap''"
| "NodeRole_as_str Relay = lit ''relay''"
| "NodeRole_as_str Stun = lit ''stun''"
| "NodeRole_as_str Scraper = lit ''scraper''"
| "NodeRole_as_str Archive = lit ''archive''"
| "NodeRole_as_str Indexer = lit ''indexer''"
| "NodeRole_as_str Gateway = lit ''gateway''"
| "NodeRole_as_str Observer = lit ''observer''"

definition NodeRole_from_str :: "ustr \<Rightarrow> NodeRole option" where
  "NodeRole_from_str s =
     (if s = lit ''light'' then Some Light
      else if s = lit ''full'' then Some Full
      else if s = lit ''bootstrap'' then Some Bootstrap
      else if s = lit ''relay'' then Some Relay
      else if s = lit ''stun'' then Some Stun
      else if s = lit ''scraper'' then Some Scraper
      else if s = lit ''archive'' then Some Archive
      else if s = lit ''indexer'' then Some Indexer
      else if s = lit ''gateway'' then Some Gateway
      else if s = lit ''observer'' then Some Observer
      else None)"

interpretation node_role: name_codec NodeRole_as_str NodeRole_from_str
proof unfold_locales
  show "NodeRole_from_str (NodeRole_as_str x) = Some x" for x
    by (cases x) (simp_all add: NodeRole_from_str_def)
  show "NodeRole_from_str s = Some x \<Longrightarrow> NodeRole_as_str x = s" for s x
    by (auto simp: NodeRole_from_str_def split: if_splits)
qed

definition NodeRole_all :: "NodeRole list" where
  "NodeRole_all = [Light, Full, Bootstrap, Relay, Stun, Scraper, Archive, Indexer, Gateway, Observer]"

lemma NodeRole_all_complete: "set NodeRole_all = UNIV" "distinct NodeRole_all"
proof -
  have "x \<in> set NodeRole_all" for x by (cases x) (simp_all add: NodeRole_all_def)
  then show "set NodeRole_all = UNIV" by blast
  show "distinct NodeRole_all" by (simp add: NodeRole_all_def)
qed

section \<open>The routing table\<close>

definition PEER_STALE_SECS :: u64 where "PEER_STALE_SECS = 900"

record RoutingEntry =
  re_node_id :: ustr
  re_addr :: ustr
  re_roles :: "ustr list"
  re_last_seen :: u64

record RoutingTable =
  rt_buckets :: "(ustr \<times> RoutingEntry) list"

definition RoutingTable_new :: RoutingTable where
  "RoutingTable_new = \<lparr>rt_buckets = []\<rparr>"

text \<open>\<^verbatim>\<open>hex.get(i..i + 2)\<close> for even \<open>i\<close>: the slice, when both ends fall on character boundaries.\<close>

definition is_char_boundary :: "bytes \<Rightarrow> nat \<Rightarrow> bool" where
  "is_char_boundary bs i \<longleftrightarrow> i = length bs \<or> (i < length bs \<and> bs ! i AND 0xC0 \<noteq> 0x80)"

definition hex_to_bytes :: "ustr \<Rightarrow> bytes" where
  "hex_to_bytes hex = (let bs = utf8 hex in
     List.map_filter (\<lambda>i. if i + 2 \<le> length bs \<and> is_char_boundary bs i \<and> is_char_boundary bs (i + 2)
       then u8_from_hex (map unat (take 2 (drop i bs))) else None)
     (map (\<lambda>j. 2 * j) [0..<(length bs + 1) div 2]))"

definition xor_bytes :: "bytes \<Rightarrow> bytes \<Rightarrow> bytes" where
  "xor_bytes a b = map (\<lambda>i. if i < length a \<and> i < length b then a ! i XOR b ! i else 0) [0..<32]"

definition xor_distance :: "ustr \<Rightarrow> ustr \<Rightarrow> bytes" where
  "xor_distance a b = xor_bytes (hex_to_bytes a) (hex_to_bytes b)"

fun bt_insert :: "ustr \<Rightarrow> RoutingEntry \<Rightarrow> (ustr \<times> RoutingEntry) list \<Rightarrow> (ustr \<times> RoutingEntry) list" where
  "bt_insert k v [] = [(k, v)]"
| "bt_insert k v ((k', v') # xs) =
     (if k < k' then (k, v) # (k', v') # xs else if k = k' then (k, v) # xs else (k', v') # bt_insert k v xs)"

definition rt_insert :: "RoutingEntry \<Rightarrow> RoutingTable \<Rightarrow> RoutingTable" where
  "rt_insert entry rt = rt\<lparr>rt_buckets := bt_insert (re_node_id entry) entry (rt_buckets rt)\<rparr>"

definition rt_remove :: "ustr \<Rightarrow> RoutingTable \<Rightarrow> bool \<times> RoutingTable" where
  "rt_remove node_id rt = (map_of (rt_buckets rt) node_id \<noteq> None,
     rt\<lparr>rt_buckets := filter (\<lambda>e. fst e \<noteq> node_id) (rt_buckets rt)\<rparr>)"

definition rt_list :: "RoutingTable \<Rightarrow> RoutingEntry list" where
  "rt_list rt = map snd (rt_buckets rt)"

definition find_closest :: "ustr \<Rightarrow> nat \<Rightarrow> RoutingTable \<Rightarrow> RoutingEntry list" where
  "find_closest target_id k rt = take k (sort_key (\<lambda>e. xor_distance (re_node_id e) target_id) (rt_list rt))"

definition prune_stale :: "u64 \<Rightarrow> u64 \<Rightarrow> RoutingTable \<Rightarrow> nat \<times> RoutingTable" where
  "prune_stale now cutoff_secs rt =
     (let stale = map fst (filter (\<lambda>e. cutoff_secs < sat_sub now (re_last_seen (snd e))) (rt_buckets rt))
      in (length stale, fold (\<lambda>id rt. snd (rt_remove id rt)) stale rt))"

definition prune_dead_peers :: "u64 \<Rightarrow> RoutingTable \<Rightarrow> nat \<times> RoutingTable" where
  "prune_dead_peers now rt = prune_stale now PEER_STALE_SECS rt"

section \<open>The table as a map\<close>

definition rt_wf :: "RoutingTable \<Rightarrow> bool" where
  "rt_wf rt \<longleftrightarrow> sorted_wrt (<) (map fst (rt_buckets rt)) \<and> (\<forall>(k, e) \<in> set (rt_buckets rt). re_node_id e = k)"

definition rt_map :: "RoutingTable \<Rightarrow> ustr \<rightharpoonup> RoutingEntry" where
  "rt_map rt = map_of (rt_buckets rt)"

lemma bt_insert_keys: "set (map fst (bt_insert k v xs)) = insert k (set (map fst xs))"
  by (induction k v xs rule: bt_insert.induct) (simp_all add: insert_commute)

lemma bt_insert_sorted:
  "sorted_wrt (<) (map fst xs) \<Longrightarrow> sorted_wrt (<) (map fst (bt_insert k v xs))"
proof (induction xs)
  case (Cons x xs)
  obtain k' v' where x: "x = (k', v')" by force
  show ?case
    using Cons bt_insert_keys [of k v xs] by (auto simp: x)
qed simp

lemma bt_insert_map:
  "sorted_wrt (<) (map fst xs) \<Longrightarrow> map_of (bt_insert k v xs) = (map_of xs)(k \<mapsto> v)"
proof (induction xs)
  case (Cons x xs)
  obtain k' v' where x: "x = (k', v')" by force
  show ?case
    using Cons by (auto simp: x fun_eq_iff)
qed (simp add: fun_eq_iff)

lemma bt_insert_set: "set (bt_insert k v xs) \<subseteq> insert (k, v) (set xs)"
  by (induction k v xs rule: bt_insert.induct) (simp_all split: if_splits, blast+)

lemma rt_insert_spec:
  assumes "rt_wf rt"
  shows "rt_wf (rt_insert e rt)" "rt_map (rt_insert e rt) = (rt_map rt)(re_node_id e \<mapsto> e)"
  using assms bt_insert_sorted [of "rt_buckets rt" "re_node_id e" e] bt_insert_map [of "rt_buckets rt" "re_node_id e" e]
    bt_insert_set [of "re_node_id e" e "rt_buckets rt"]
  by (auto simp: rt_wf_def rt_map_def rt_insert_def)

lemma rt_remove_spec:
  assumes "rt_wf rt"
  shows "rt_wf (snd (rt_remove k rt))" "rt_map (snd (rt_remove k rt)) = (rt_map rt)(k := None)"
    "fst (rt_remove k rt) \<longleftrightarrow> k \<in> dom (rt_map rt)"
proof -
  have "sorted_wrt (<) (map fst (filter P xs))" if "sorted_wrt (<) (map fst xs)" for P and xs :: "(ustr \<times> RoutingEntry) list"
    using that by (induction xs) auto
  then show "rt_wf (snd (rt_remove k rt))"
    using assms by (auto simp: rt_wf_def rt_remove_def)
  have "map_of (filter (\<lambda>e. fst e \<noteq> k) xs) = (map_of xs)(k := None)" for xs :: "(ustr \<times> RoutingEntry) list"
    by (induction xs) (auto simp: fun_eq_iff)
  then show "rt_map (snd (rt_remove k rt)) = (rt_map rt)(k := None)" by (simp add: rt_map_def rt_remove_def)
  show "fst (rt_remove k rt) \<longleftrightarrow> k \<in> dom (rt_map rt)" by (auto simp: rt_map_def rt_remove_def domIff)
qed

section \<open>Pruning\<close>

lemma fold_remove:
  "rt_wf rt \<Longrightarrow> rt_wf (fold (\<lambda>id rt. snd (rt_remove id rt)) ks rt) \<and>
     rt_map (fold (\<lambda>id rt. snd (rt_remove id rt)) ks rt) = (\<lambda>k. if k \<in> set ks then None else rt_map rt k)"
proof (induction ks arbitrary: rt)
  case (Cons k ks)
  from Cons.IH [OF rt_remove_spec(1) [OF Cons.prems, of k]] show ?case
    by (auto simp: rt_remove_spec(2) [OF Cons.prems] fun_eq_iff)
qed simp

text \<open>The entries a pruning removes.\<close>

definition stale_ids :: "u64 \<Rightarrow> u64 \<Rightarrow> RoutingTable \<Rightarrow> ustr set" where
  "stale_ids now cutoff rt =
     {k. \<exists>e. rt_map rt k = Some e \<and> unat cutoff < unat now - unat (re_last_seen e)}"

text \<open>Pruning removes exactly the peers last seen longer ago than the cutoff (a peer seen in
  the future is kept), reports how many there were, keeps the table ordered, and pruning
  again at the same time removes nothing.\<close>

theorem prune_stale_spec:
  assumes "rt_wf rt"
  shows "rt_map (snd (prune_stale now cutoff rt)) = rt_map rt |` (- stale_ids now cutoff rt) \<and>
    fst (prune_stale now cutoff rt) = card (stale_ids now cutoff rt) \<and>
    rt_wf (snd (prune_stale now cutoff rt)) \<and>
    fst (prune_stale now cutoff (snd (prune_stale now cutoff rt))) = 0"
proof -
  have spec: "rt_map (snd (prune_stale now cutoff rt)) = rt_map rt |` (- stale_ids now cutoff rt) \<and>
      fst (prune_stale now cutoff rt) = card (stale_ids now cutoff rt) \<and> rt_wf (snd (prune_stale now cutoff rt))"
    if wf: "rt_wf rt" for rt
  proof -
    let ?P = "\<lambda>e. cutoff < sat_sub now (re_last_seen (snd e))"
    let ?ks = "map fst (filter ?P (rt_buckets rt))"
    have dist: "distinct (map fst (rt_buckets rt))"
      using wf by (simp add: rt_wf_def strict_sorted_iff)
    then have dk: "distinct ?ks" by (simp add: distinct_map_filter)
    have ks: "set ?ks = stale_ids now cutoff rt"
      using dist by (force simp: stale_ids_def rt_map_def unat_sat_sub word_less_nat_alt map_of_eq_Some_iff)
    have "length ?ks = card (set ?ks)" using distinct_card [OF dk] by simp
    with fold_remove [OF wf, of ?ks] show ?thesis
      by (auto simp: prune_stale_def Let_def ks [symmetric] restrict_map_def fun_eq_iff)
  qed
  have "stale_ids now cutoff (snd (prune_stale now cutoff rt)) = {}"
    using spec [OF assms] by (auto simp: stale_ids_def restrict_map_def split: if_splits)
  with spec [OF assms] spec [of "snd (prune_stale now cutoff rt)"] show ?thesis by simp
qed

definition sample_peer :: "ustr \<Rightarrow> u64 \<Rightarrow> RoutingEntry" where
  "sample_peer i seen = \<lparr>re_node_id = i, re_addr = lit ''10.0.0.1:7744'', re_roles = [lit ''full''], re_last_seen = seen\<rparr>"

lemma sample_peer_simps [simp]: "re_node_id (sample_peer i seen) = i" "re_last_seen (sample_peer i seen) = seen"
  by (simp_all add: sample_peer_def)

definition two_peers :: RoutingTable where
  "two_peers = \<lparr>rt_buckets = [([1], sample_peer [1] 10), ([2], sample_peer [2] 2000)]\<rparr>"

lemma two_peers_wf: "rt_wf two_peers"
  by (simp add: rt_wf_def two_peers_def)

theorem prune_stale_spec_witness:
  "rt_map (snd (prune_stale 2000 PEER_STALE_SECS two_peers)) [1] = None \<and>
   rt_map (snd (prune_stale 2000 PEER_STALE_SECS two_peers)) [2] = Some (sample_peer [2] 2000)"
proof -
  have "[1] \<in> stale_ids 2000 PEER_STALE_SECS two_peers" "[2] \<notin> stale_ids 2000 PEER_STALE_SECS two_peers"
    by (simp_all add: stale_ids_def rt_map_def two_peers_def PEER_STALE_SECS_def)
  moreover have "rt_map two_peers [2] = Some (sample_peer [2] 2000)" by (simp add: rt_map_def two_peers_def)
  ultimately show ?thesis
    using prune_stale_spec [OF two_peers_wf, of 2000 PEER_STALE_SECS] by (simp add: restrict_map_def)
qed

section \<open>Distance\<close>

lemma length_xor_bytes [simp]: "length (xor_bytes a b) = 32"
  by (simp add: xor_bytes_def)

lemma utf8_ascii: "\<forall>c \<in> set s. c < 0x80 \<Longrightarrow> utf8 s = map of_nat s"
  by (induction s) (auto simp: utf8_def utf8_char_def)

lemma ascii_boundary: "i \<le> length bs \<Longrightarrow> \<forall>b \<in> set bs. unat b < 0x80 \<Longrightarrow> is_char_boundary bs i"
proof -
  assume i: "i \<le> length bs" and ascii: "\<forall>b \<in> set bs. unat b < 0x80"
  have "b AND 0xC0 \<noteq> 0x80" if "unat (b :: u8) < 0x80" for b
  proof
    assume "b AND 0xC0 = 0x80"
    then have "bit (b AND 0xC0) 7" by (simp add: bit_simps)
    then have "bit b 7" by (simp only: bit_and_iff)
    then have "bit (unat b) 7" by (simp add: bit_unsigned_iff)
    then have "odd (unat b div 128)" by (simp only: bit_iff_odd) simp
    with that show False by simp
  qed
  with i ascii show ?thesis by (cases "i < length bs") (auto simp: is_char_boundary_def)
qed

lemma map_filter_Some: "\<forall>x \<in> set xs. f x = Some (g x) \<Longrightarrow> List.map_filter f xs = map g xs"
  by (induction xs) (auto simp: List.map_filter_simps)

lemma hex_encode_slice: "j < length bs \<Longrightarrow> take 2 (drop (2 * j) (hex_encode bs)) = hex_byte (bs ! j)"
proof (induction bs arbitrary: j)
  case (Cons b bs)
  have e: "hex_encode (b # bs) = hex_byte b @ hex_encode bs" by (simp add: hex_encode_def)
  show ?case
  proof (cases j)
    case 0
    then show ?thesis by (simp add: e)
  next
    case (Suc i)
    with Cons show ?thesis by (simp add: e)
  qed
qed simp

lemma hex_to_bytes_encode [simp]: "hex_to_bytes (hex_encode bs) = bs"
proof -
  have ascii: "\<forall>c \<in> set (hex_encode bs). c < 0x80" using hex_encode_ascii by blast
  let ?u = "map of_nat (hex_encode bs) :: bytes"
  have u: "utf8 (hex_encode bs) = ?u" by (rule utf8_ascii [OF ascii])
  have small: "unat (of_nat c :: u8) = c" if "c < 0x80" for c
    using that by (simp only: unat_of_nat) (simp add: take_bit_eq_mod)
  then have low: "\<forall>b \<in> set ?u. unat b < 0x80" using ascii by simp
  have bd: "i \<le> length ?u \<Longrightarrow> is_char_boundary ?u i" for i by (rule ascii_boundary [OF _ low])
  have chars: "map unat (take 2 (drop i ?u)) = take 2 (drop i (hex_encode bs))" for i
  proof -
    have "\<forall>c \<in> set (take 2 (drop i (hex_encode bs))). c < 0x80"
      using ascii by (meson in_set_dropD in_set_takeD)
    then show ?thesis by (simp only: take_map drop_map map_map) (simp add: map_idI small comp_def)
  qed
  have "hex_to_bytes (hex_encode bs) = map (\<lambda>i. bs ! (i div 2)) (map (\<lambda>j. 2 * j) [0..<length bs])"
    unfolding hex_to_bytes_def Let_def u
  proof (subst map_filter_Some [where g = "\<lambda>i. bs ! (i div 2)"])
    show "\<forall>i \<in> set (map (\<lambda>j. 2 * j) [0..<(length ?u + 1) div 2]).
        (if i + 2 \<le> length ?u \<and> is_char_boundary ?u i \<and> is_char_boundary ?u (i + 2)
         then u8_from_hex (map unat (take 2 (drop i ?u))) else None) = Some (bs ! (i div 2))"
    proof
      fix i assume "i \<in> set (map (\<lambda>j. 2 * j) [0..<(length ?u + 1) div 2])"
      then obtain j where j: "i = 2 * j" "j < length bs" by auto
      then have "i + 2 \<le> length ?u" by simp
      moreover from this have "is_char_boundary ?u i" "is_char_boundary ?u (i + 2)" using bd by simp_all
      ultimately show "(if i + 2 \<le> length ?u \<and> is_char_boundary ?u i \<and> is_char_boundary ?u (i + 2)
         then u8_from_hex (map unat (take 2 (drop i ?u))) else None) = Some (bs ! (i div 2))"
        using j by (simp only: chars hex_encode_slice) simp
    qed
  qed simp
  also have "\<dots> = bs" by (simp add: comp_def map_nth)
  finally show ?thesis .
qed

lemma xor_bytes_nth: "i < 32 \<Longrightarrow> length a = 32 \<Longrightarrow> length b = 32 \<Longrightarrow> xor_bytes a b ! i = a ! i XOR b ! i"
  by (simp add: xor_bytes_def)

text \<open>On node ids, which are 32 bytes in hexadecimal, the distance is Kademlia's: the exclusive
  or of the bytes, so it is symmetric, zero from an id to itself only, the distance between two
  ids is the exclusive or of their distances to a third, and no two ids have the same distance
  to one target.\<close>

theorem xor_distance_metric:
  assumes "length a = 32" "length b = 32" "length c = 32"
  shows "xor_distance (hex_encode a) (hex_encode b) = map2 (XOR) a b \<and>
    xor_distance (hex_encode a) (hex_encode b) = xor_distance (hex_encode b) (hex_encode a) \<and>
    (xor_distance (hex_encode a) (hex_encode b) = replicate 32 0 \<longleftrightarrow> a = b) \<and>
    xor_distance (hex_encode a) (hex_encode b) =
      xor_bytes (xor_distance (hex_encode a) (hex_encode c)) (xor_distance (hex_encode c) (hex_encode b)) \<and>
    (xor_distance (hex_encode a) (hex_encode c) = xor_distance (hex_encode b) (hex_encode c) \<longleftrightarrow> a = b)"
proof -
  have eqI: "xor_bytes x y = zs \<longleftrightarrow> (\<forall>i < 32. x ! i XOR y ! i = zs ! i)"
    if "length x = 32" "length y = 32" "length zs = 32" for x y zs
    using that by (auto simp: list_eq_iff_nth_eq xor_bytes_nth)
  have cancel: "(x XOR z = y XOR z) = (x = y)" for x y z :: u8
    by (metis bit.xor_left_self xor.commute xor.left_commute)
  have self: "(x XOR y = 0) = (x = y)" for x y :: u8
    by (metis bit.xor_self cancel)
  have ext: "(\<forall>i < 32. a ! i = b ! i) \<longleftrightarrow> a = b" using assms by (auto simp: list_eq_iff_nth_eq)
  have 1: "xor_bytes a b = map2 (XOR) a b" using assms by (simp add: eqI)
  have 2: "xor_bytes a b = xor_bytes b a" using assms by (simp add: eqI xor_bytes_nth xor.commute)
  have 3: "xor_bytes a b = replicate 32 0 \<longleftrightarrow> a = b" using assms ext by (simp add: eqI self)
  have 4: "xor_bytes a b = xor_bytes (xor_bytes a c) (xor_bytes c b)"
    using assms by (simp add: eqI xor_bytes_nth) (metis bit.xor_left_self xor.assoc)
  have 5: "xor_bytes a c = xor_bytes b c \<longleftrightarrow> a = b" using assms ext by (simp add: eqI xor_bytes_nth cancel)
  from 1 2 3 4 5 show ?thesis unfolding xor_distance_def hex_to_bytes_encode by blast
qed

theorem xor_distance_metric_witness:
  "xor_distance (hex_encode (replicate 32 1)) (hex_encode (replicate 32 3)) = replicate 32 2"
proof -
  have "length (replicate 32 n :: bytes) = 32" for n by simp
  from xor_distance_metric [OF this this this, of 1 3 0] show ?thesis by (simp add: zip_replicate)
qed

section \<open>The closest peers\<close>

lemma zeros_le: "replicate (length ds) 0 \<le> (ds :: bytes)"
  by (induction ds) (auto simp: word_neq_0_conv)

lemma xor_distance_self: "xor_distance t t = replicate 32 0"
  by (simp add: xor_distance_def xor_bytes_def list_eq_iff_nth_eq)

lemma length_xor_distance [simp]: "length (xor_distance a b) = 32"
  by (simp add: xor_distance_def)

lemma sort_key_best: "best (\<lambda>x y. f y < f x) k xs (take k (sort_key f xs))"
proof (rule best_take)
  have "sorted (map f (sort_key f xs))" by simp
  then show "sorted_wrt (\<lambda>x y. \<not> f y < f x) (sort_key f xs)"
    by (simp add: sorted_map not_less)
qed simp_all

lemma zero_distance_first:
  assumes e: "e \<in> set (rt_list rt)" and zero: "xor_distance (re_node_id e) t = replicate 32 0" and "0 < k"
    and alone: "\<forall>x \<in> set (rt_list rt) - {e}. xor_distance (re_node_id x) t \<noteq> replicate 32 0"
  shows "\<exists>es. find_closest t k rt = e # es"
proof -
  let ?f = "\<lambda>e. xor_distance (re_node_id e) t"
  obtain h hs where s: "sort_key ?f (rt_list rt) = h # hs"
    using e by (metis list.exhaust list.set(1) set_sort empty_iff)
  have "sorted (map ?f (h # hs))" by (simp only: s [symmetric] sorted_sort_key)
  moreover have "e \<in> set (h # hs)" using e by (simp only: s [symmetric] set_sort)
  ultimately have "?f h \<le> ?f e" by auto
  moreover have "replicate 32 0 \<le> ?f h" using zeros_le [of "?f h"] by simp
  ultimately have "?f h = replicate 32 0" using zero by simp
  moreover have "h \<in> set (rt_list rt)" by (metis list.set_intros(1) s set_sort)
  ultimately have "h = e" using alone by blast
  moreover obtain j where "k = Suc j" using assms(3) by (cases k) auto
  ultimately show ?thesis by (simp add: find_closest_def s)
qed

text \<open>The number that bytes write, the most significant first; on lists of one length the order of the lists is that of
  the numbers.\<close>

fun be_value :: "bytes \<Rightarrow> nat" where
  "be_value [] = 0"
| "be_value (b # bs) = unat b * 256 ^ length bs + be_value bs"

lemma be_value_less: "be_value bs < 256 ^ length bs"
proof (induction bs)
  case (Cons b bs)
  have "Suc (unat b) * 256 ^ length bs \<le> 256 * 256 ^ length bs"
    using unat_u8_less [of b] by (intro mult_le_mono1) simp
  then have "256 ^ length bs + unat b * 256 ^ length bs \<le> 256 * 256 ^ length bs" by (simp only: mult_Suc)
  with Cons.IH show ?case by (simp only: be_value.simps length_Cons power_Suc)
qed simp

lemma lex_be_value: "length as = length bs \<Longrightarrow> as < bs \<longleftrightarrow> be_value as < be_value bs"
proof (induction as bs rule: list_induct2)
  case (Cons a as b bs)
  let ?n = "256 ^ length bs"
  have below: "x * ?n + be_value s < y * ?n + be_value t" if "x < y" "length s = length bs" for x y s t
  proof -
    have "x * ?n + be_value s < (x + 1) * ?n" using be_value_less [of s] that(2) by simp
    also have "\<dots> \<le> y * ?n" using that(1) by (intro mult_right_mono) simp_all
    finally show ?thesis by simp
  qed
  consider "unat a < unat b" | "unat b < unat a" | "a = b" by (metis linorder_neqE_nat word_unat_eq_iff)
  then show ?case
  proof cases
    case 1
    then show ?thesis using below [of "unat a" "unat b" as bs] Cons.hyps by (simp add: word_less_nat_alt)
  next
    case 2
    then show ?thesis using below [of "unat b" "unat a" bs as] Cons.hyps by (auto simp: word_less_nat_alt)
  next
    case 3
    then show ?thesis using Cons by simp
  qed
qed simp

lemma distinct_ids:
  assumes "rt_wf rt"
  shows "inj_on re_node_id (set (rt_list rt))"
proof (rule inj_onI)
  fix x y assume "x \<in> set (rt_list rt)" "y \<in> set (rt_list rt)" and same: "re_node_id x = re_node_id y"
  then obtain k l where kl: "(k, x) \<in> set (rt_buckets rt)" "(l, y) \<in> set (rt_buckets rt)" by (auto simp: rt_list_def)
  have "\<forall>(k, e) \<in> set (rt_buckets rt). re_node_id e = k" using assms unfolding rt_wf_def by blast
  with kl have "re_node_id x = k" "re_node_id y = l" by auto
  moreover have "distinct (map fst (rt_buckets rt))" using assms by (simp only: rt_wf_def strict_sorted_iff)
  ultimately show "x = y" using kl same by (simp add: eq_key_imp_eq_value)
qed

text \<open>Kademlia's distance of two keys of 32 bytes.\<close>

definition key_distance :: "bytes \<Rightarrow> bytes \<Rightarrow> nat" where
  "key_distance a b = be_value (map2 (XOR) a b)"

lemma key_distance_less:
  assumes "length a = 32" "length b = 32" "length t = 32"
  shows "xor_distance (hex_encode a) (hex_encode t) < xor_distance (hex_encode b) (hex_encode t) \<longleftrightarrow>
    key_distance a t < key_distance b t"
proof -
  have "xor_distance (hex_encode x) (hex_encode t) = map2 (XOR) x t" if "length x = 32" for x
    using assms(3) that by (auto simp: xor_distance_def list_eq_iff_nth_eq xor_bytes_nth)
  with assms show ?thesis by (simp add: key_distance_def lex_be_value)
qed

text \<open>C18: Among peers whose ids are keys of 32 bytes in hexadecimal, as the ids of nodes are, the lookup returns the closest to
  the target, nearest first, by the exclusive or of the keys read as a number: as many as asked for or all there are,
  every one from the table, and none it leaves out nearer than one it returns. A peer with the target's own id
  comes first.\<close>

theorem find_closest_spec:
  assumes "rt_wf rt" and "length t = 32" and "\<forall>e \<in> set (rt_list rt). re_node_id e = hex_encode (key e) \<and> length (key e) = 32"
  shows "best (\<lambda>x y. key_distance (key y) t < key_distance (key x) t) k (rt_list rt) (find_closest (hex_encode t) k rt) \<and>
   (\<forall>e \<in> set (rt_list rt). key e = t \<and> 0 < k \<longrightarrow> (\<exists>es. find_closest (hex_encode t) k rt = e # es))"
proof (intro conjI ballI impI)
  let ?d = "\<lambda>e. xor_distance (re_node_id e) (hex_encode t)"
  have less: "?d y < ?d x \<longleftrightarrow> key_distance (key y) t < key_distance (key x) t"
    if "x \<in> set (rt_list rt)" "y \<in> set (rt_list rt)" for x y
    using assms(2,3) that key_distance_less by metis
  have "best (\<lambda>x y. ?d y < ?d x) k (rt_list rt) (find_closest (hex_encode t) k rt)"
    unfolding find_closest_def by (rule sort_key_best)
  then show "best (\<lambda>x y. key_distance (key y) t < key_distance (key x) t) k (rt_list rt) (find_closest (hex_encode t) k rt)"
    using less by (auto simp: best_def sorted_wrt_iff_nth_less subset_iff)
  fix e assume e: "e \<in> set (rt_list rt)" and t: "key e = t \<and> 0 < k"
  have "?d x \<noteq> replicate 32 0" if x: "x \<in> set (rt_list rt) - {e}" for x
  proof
    assume "?d x = replicate 32 0"
    with xor_distance_metric [of "key x" t t] assms(2,3) x have "re_node_id x = re_node_id e" using e t by auto
    with distinct_ids [OF assms(1)] x e show False by (auto simp: inj_on_def)
  qed
  moreover have "?d e = replicate 32 0" using assms(3) e t xor_distance_self by metis
  ultimately show "\<exists>es. find_closest (hex_encode t) k rt = e # es" using zero_distance_first [OF e] t by blast
qed

definition id_of :: "u8 \<Rightarrow> ustr" where
  "id_of b = hex_encode (replicate 32 b)"

definition peers_of :: "ustr list \<Rightarrow> RoutingTable" where
  "peers_of ids = \<lparr>rt_buckets = map (\<lambda>i. (i, sample_peer i 0)) ids\<rparr>"

lemma rt_list_peers [simp]: "rt_list (peers_of ids) = map (\<lambda>i. sample_peer i 0) ids"
  by (simp add: rt_list_def peers_of_def comp_def)

lemma id_of_distance: "xor_distance (id_of a) (id_of b) = replicate 32 (a XOR b)"
  by (simp add: id_of_def xor_distance_def xor_bytes_def list_eq_iff_nth_eq)

lemma alone_2:
  assumes "a XOR t \<noteq> 0" and "x \<in> set (rt_list (peers_of [id_of a, i])) - {sample_peer i 0}"
  shows "xor_distance (re_node_id x) (id_of t) \<noteq> replicate 32 0"
proof -
  from assms(2) have "x = sample_peer (id_of a) 0" by auto
  with assms(1) show ?thesis by (simp add: id_of_distance)
qed

theorem find_closest_spec_witness:
  "\<exists>es. find_closest (id_of 3) 1 (peers_of [id_of 1, id_of 3]) = sample_peer (id_of 3) 0 # es"
proof -
  have "id_of b = hex_byte b @ hex_encode (replicate 31 b)" for b
    using replicate_Suc [of 31 b] by (simp add: id_of_def hex_encode_def)
  then have "id_of 1 < id_of 3" by (simp add: hex_byte_def hex_digit_def)
  then have wf: "rt_wf (peers_of [id_of 1, id_of 3])" by (simp add: rt_wf_def peers_of_def)
  let ?key = "\<lambda>e :: RoutingEntry. hex_to_bytes (re_node_id e)"
  have "\<forall>e \<in> set (rt_list (peers_of [id_of 1, id_of 3])). re_node_id e = hex_encode (?key e) \<and> length (?key e) = 32"
    by (simp add: id_of_def)
  with find_closest_spec [OF wf, of "replicate 32 3" ?key 1] show ?thesis by (simp add: id_of_def)
qed

lemma xor_bytes_Nil: "xor_bytes [] b = replicate 32 0"
  by (simp add: xor_bytes_def map_replicate_const)

text \<open>An id that holds no hexadecimal byte is at distance zero from every target, so a peer
  that names itself so is returned first by every lookup in which no other peer is at distance
  zero: ids are not checked, and the distance pads what it cannot read with zeros.\<close>

theorem malformed_id_is_closest:
  assumes "e \<in> set (rt_list rt)" and "hex_to_bytes (re_node_id e) = []" and "0 < k"
    and "\<forall>x \<in> set (rt_list rt) - {e}. xor_distance (re_node_id x) t \<noteq> replicate 32 0"
  shows "\<exists>es. find_closest t k rt = e # es"
proof (rule zero_distance_first [OF assms(1) _ assms(3,4)])
  show "xor_distance (re_node_id e) t = replicate 32 0"
    by (simp only: xor_distance_def assms(2) xor_bytes_Nil)
qed

theorem malformed_id_is_closest_witness:
  "\<exists>es. find_closest (id_of 3) 1 (peers_of [id_of 2, lit ''zz'']) = sample_peer (lit ''zz'') 0 # es"
proof -
  have u: "utf8 (lit ''zz'') = [122, 122]"
    by (simp add: lit_def utf8_def utf8_char_def)
  have "hex_to_bytes (lit ''zz'') = []"
    by (simp add: hex_to_bytes_def Let_def u hex_val_def List.map_filter_simps)
  then have zz: "hex_to_bytes (re_node_id (sample_peer (lit ''zz'') 0)) = []"
    by (simp only: sample_peer_simps)
  have m: "sample_peer (lit ''zz'') 0 \<in> set (rt_list (peers_of [id_of 2, lit ''zz'']))"
    by simp
  have a: "\<forall>x \<in> set (rt_list (peers_of [id_of 2, lit ''zz''])) - {sample_peer (lit ''zz'') 0}.
      xor_distance (re_node_id x) (id_of 3) \<noteq> replicate 32 0"
  proof
    fix x assume "x \<in> set (rt_list (peers_of [id_of 2, lit ''zz''])) - {sample_peer (lit ''zz'') 0}"
    then show "xor_distance (re_node_id x) (id_of 3) \<noteq> replicate 32 0"
      by (rule alone_2 [of 2 3, rotated]) simp
  qed
  show ?thesis by (rule malformed_id_is_closest [OF m zz zero_less_one a])
qed

end
