(* ===== verification/Server.thy ===== *)
theory Server
  imports Store Dht Wire
begin

text \<open>
  \<^verbatim>\<open>src/src/node/server.rs\<close>, \<^verbatim>\<open>src/src/node/announce.rs\<close> and
  \<^verbatim>\<open>src/src/scraper/replicate.rs\<close>: a node, the handshake on an inbound and on an outbound
  connection, the loop that answers a peer's messages, and what the loop's end does to the
  routing table. QUIC is the streams of \<^verbatim>\<open>Wire\<close>; JSON of the messages is the parameter
  \<open>codec\<close>. A log statement that slices a node id panics when its level is on and the cut
  falls inside a character, so the two levels are parameters. The file \<^verbatim>\<open>peers.json\<close> is the
  list of peers last written to it.
\<close>

section \<open>Parameters\<close>

text \<open>\<^verbatim>\<open>serde_json::to_vec\<close> and \<^verbatim>\<open>serde_json::from_slice\<close> for each message body sent or received.\<close>

record 'f codec =
  enc_handshake :: "HandshakeMsg \<Rightarrow> (bytes, ustr) result"
  dec_handshake :: "bytes \<Rightarrow> (HandshakeMsg, ustr) result"
  enc_handshake_ack :: "HandshakeAckMsg \<Rightarrow> (bytes, ustr) result"
  dec_handshake_ack :: "bytes \<Rightarrow> (HandshakeAckMsg, ustr) result"
  dec_ping :: "bytes \<Rightarrow> (PingMsg, ustr) result"
  enc_pong :: "PongMsg \<Rightarrow> (bytes, ustr) result"
  dec_find_node :: "bytes \<Rightarrow> (FindNodeMsg, ustr) result"
  enc_find_node_reply :: "FindNodeReplyMsg \<Rightarrow> (bytes, ustr) result"
  enc_announce :: "AnnounceMsg \<Rightarrow> (bytes, ustr) result"
  dec_announce :: "bytes \<Rightarrow> (AnnounceMsg, ustr) result"
  enc_announce_ack :: "AnnounceAckMsg \<Rightarrow> (bytes, ustr) result"
  dec_search_query :: "bytes \<Rightarrow> (SearchQueryMsg, ustr) result"
  enc_search_reply :: "'f SearchReplyMsg \<Rightarrow> (bytes, ustr) result"
  dec_record_fetch :: "bytes \<Rightarrow> (RecordFetchMsg, ustr) result"
  enc_record_reply :: "RecordReplyMsg \<Rightarrow> (bytes, ustr) result"
  enc_replicate_push :: "ReplicatePushMsg \<Rightarrow> (bytes, ustr) result"
  dec_replicate_push :: "bytes \<Rightarrow> (ReplicatePushMsg, ustr) result"
  enc_replicate_ack :: "ReplicateAckMsg \<Rightarrow> (bytes, ustr) result"
  enc_peer_exchange :: "PeerExchangeMsg \<Rightarrow> (bytes, ustr) result"
  dec_peer_exchange :: "bytes \<Rightarrow> (PeerExchangeMsg, ustr) result"
  enc_goodbye :: "GoodbyeMsg \<Rightarrow> (bytes, ustr) result"
  dec_goodbye :: "bytes \<Rightarrow> (GoodbyeMsg, ustr) result"

text \<open>What a node is run with: the crates it calls and the log levels that are on.\<close>

record ('sk, 'vk, 'd, 't, 'f) env =
  ev_crypto :: "('sk, 'vk) crypto"
  ev_redb :: "('d, 't) redb"
  ev_serde :: serde
  ev_vec :: vec_serde
  ev_floats :: "'f f64_ops"
  ev_lower :: "ustr \<Rightarrow> ustr"
  ev_codec :: "'f codec"
  ev_info :: bool
  ev_debug :: bool

section \<open>A node\<close>

definition DEFAULT_MAX_CONNECTIONS :: u64 where "DEFAULT_MAX_CONNECTIONS = 200"

record ('d, 'sk) Node =
  nd_node_id :: ustr
  nd_role :: NodeRole
  nd_listen_addr :: ustr
  nd_routing_table :: RoutingTable
  nd_endpoint :: bool
  nd_running :: bool
  nd_active_connections :: u64
  nd_max_connections :: u64
  nd_store :: "('d, 'sk) Store option"
  nd_peers_file :: "RoutingEntry list"

definition with_max_connections :: "ustr \<Rightarrow> NodeRole \<Rightarrow> ustr \<Rightarrow> u64 \<Rightarrow> ('d, 'sk) Node" where
  "with_max_connections node_id role listen_addr max_connections =
     \<lparr>nd_node_id = node_id, nd_role = role, nd_listen_addr = listen_addr, nd_routing_table = RoutingTable_new,
      nd_endpoint = False, nd_running = False, nd_active_connections = 0, nd_max_connections = max_connections,
      nd_store = None, nd_peers_file = []\<rparr>"

definition Node_new :: "ustr \<Rightarrow> NodeRole \<Rightarrow> ustr \<Rightarrow> ('d, 'sk) Node" where
  "Node_new node_id role listen_addr = with_max_connections node_id role listen_addr DEFAULT_MAX_CONNECTIONS"

text \<open>\<^verbatim>\<open>&id[..8.min(id.len())]\<close> as an argument of a log statement.\<close>

definition log_id :: "bool \<Rightarrow> ustr \<Rightarrow> (unit, ustr) result" where
  "log_id enabled node_id = (let bs = utf8 node_id in
     if enabled \<and> \<not> is_char_boundary bs (min 8 (length bs)) then Panic else Ok ())"

definition abs_diff :: "u8 \<Rightarrow> u8 \<Rightarrow> u8" where
  "abs_diff a b = (if b \<le> a then a - b else b - a)"

definition write_peers_file :: "('d, 'sk) Node \<Rightarrow> ('d, 'sk) Node" where
  "write_peers_file nd = nd\<lparr>nd_peers_file := rt_list (nd_routing_table nd)\<rparr>"

definition add_peer :: "RoutingEntry \<Rightarrow> ('d, 'sk) Node \<Rightarrow> ('d, 'sk) Node" where
  "add_peer e nd = nd\<lparr>nd_routing_table := rt_insert e (nd_routing_table nd)\<rparr>"

definition drop_peer :: "ustr \<Rightarrow> ('d, 'sk) Node \<Rightarrow> ('d, 'sk) Node" where
  "drop_peer k nd = nd\<lparr>nd_routing_table := snd (rt_remove k (nd_routing_table nd))\<rparr>"

text \<open>Serialising and writing one frame.\<close>

definition send_payload :: "MsgType \<Rightarrow> (bytes, ustr) result \<Rightarrow> sender \<Rightarrow> (unit, ustr) result \<times> sender" where
  "send_payload t payload w = (case payload of
     Ok p \<Rightarrow> write_frame (Frame_new t p) w | Err e \<Rightarrow> (Err e, w) | Panic \<Rightarrow> (Panic, w))"

section \<open>Announcements and replication\<close>

definition announcement_of :: "AnnounceMsg \<Rightarrow> Announcement" where
  "announcement_of m = \<lparr>an_record_id = am_record_id m, an_source_hash = am_source_hash m,
     an_schema = am_schema m, an_tags = am_tags m, an_holder_addr = am_holder_addr m,
     an_expires_at = am_expires_at m, an_sig = am_sig m\<rparr>"

definition announce_of :: "Announcement \<Rightarrow> AnnounceMsg" where
  "announce_of a = \<lparr>am_record_id = an_record_id a, am_source_hash = an_source_hash a,
     am_schema = an_schema a, am_tags = an_tags a, am_holder_addr = an_holder_addr a,
     am_expires_at = an_expires_at a, am_sig = an_sig a\<rparr>"

text \<open>The reply to an insert that was tried: accepted, or refused without saying why.\<close>

definition insert_reason :: "bool \<Rightarrow> ustr" where
  "insert_reason accepted = (if accepted then [] else lit ''insert failed'')"

definition handle_announce :: "('sk, 'vk, 'd, 't, 'f) env \<Rightarrow> AnnounceMsg \<Rightarrow> ('d, 'sk) Store \<Rightarrow> sender
    \<Rightarrow> (unit, ustr) result \<times> ('d, 'sk) Store \<times> sender" where
  "handle_announce E msg st w =
     (case store_insert_announcement (ev_crypto E) (ev_redb E) (ev_serde E) (announcement_of msg) st of
        ((Panic, _), st) \<Rightarrow> (Panic, st, w)
      | ((res, _), st) \<Rightarrow>
          (case send_payload AnnounceAck (enc_announce_ack (ev_codec E)
               \<lparr>aa_record_id = am_record_id msg, aa_accepted = is_ok res, aa_reason = insert_reason (is_ok res)\<rparr>) w of
             (r, w) \<Rightarrow> (r, st, w)))"

definition send_announce :: "('sk, 'vk, 'd, 't, 'f) env \<Rightarrow> Announcement \<Rightarrow> sender \<Rightarrow> (unit, ustr) result \<times> sender" where
  "send_announce E ann w = send_payload Announce (enc_announce (ev_codec E) (announce_of ann)) w"

definition push_record :: "('sk, 'vk, 'd, 't, 'f) env \<Rightarrow> ContentRecord \<Rightarrow> sender \<Rightarrow> (unit, ustr) result \<times> sender" where
  "push_record E rec w =
     (case map_err (\<lambda>e. lit ''serialize record for replication: '' @ e) (record_to_json (ev_serde E) rec) of
        Err e \<Rightarrow> (Err e, w) | Panic \<Rightarrow> (Panic, w)
      | Ok record_json \<Rightarrow>
          send_payload ReplicatePush (enc_replicate_push (ev_codec E)
            \<lparr>rp_record_id = cr_id rec, rp_record_json = record_json, rp_source_hash = cr_source_hash rec,
             rp_sig = cr_sig rec\<rparr>) w)"

definition handle_replicate_push :: "('sk, 'vk, 'd, 't, 'f) env \<Rightarrow> ReplicatePushMsg \<Rightarrow> ('d, 'sk) Store \<Rightarrow> sender
    \<Rightarrow> (unit, ustr) result \<times> ('d, 'sk) Store \<times> sender" where
  "handle_replicate_push E msg st w =
     (let ack = (\<lambda>accepted reason. send_payload ReplicateAck (enc_replicate_ack (ev_codec E)
         \<lparr>ra_record_id = rp_record_id msg, ra_accepted = accepted, ra_reason = reason\<rparr>))
      in case record_from_json (ev_serde E) (rp_record_json msg) of
           Panic \<Rightarrow> (Panic, st, w)
         | Err e \<Rightarrow> (case ack False (lit ''deserialize error: '' @ e) w of (r, w) \<Rightarrow> (r, st, w))
         | Ok rec \<Rightarrow>
             (case store_insert_record (ev_crypto E) (ev_redb E) (ev_serde E) rec st of
                ((Panic, _), st) \<Rightarrow> (Panic, st, w)
              | ((res, _), st) \<Rightarrow>
                  (case ack (is_ok res) (insert_reason (is_ok res)) w of (r, w) \<Rightarrow> (r, st, w))))"

section \<open>The message loop\<close>

definition info_of :: "RoutingEntry \<Rightarrow> NodeInfo" where
  "info_of e = \<lparr>ni_id = re_node_id e, ni_addr = re_addr e\<rparr>"

text \<open>What handling a message gives: an error (or a panic) that ends the loop, \<open>True\<close> to go on,
  \<open>False\<close> to return normally; the node; the send stream.\<close>

type_synonym ('d, 'sk) handled = "(bool, ustr) result \<times> ('d, 'sk) Node \<times> sender"

definition reply_with :: "('d, 'sk) Node \<Rightarrow> MsgType \<Rightarrow> (bytes, ustr) result \<Rightarrow> sender \<Rightarrow> ('d, 'sk) handled" where
  "reply_with nd t payload w = (case send_payload t payload w of (r, w) \<Rightarrow> (rbind r (\<lambda>_. Ok True), nd, w))"

definition on_ping :: "('sk, 'vk, 'd, 't, 'f) env \<Rightarrow> bytes \<Rightarrow> ('d, 'sk) Node \<Rightarrow> sender \<Rightarrow> ('d, 'sk) handled" where
  "on_ping E p nd w = (case dec_ping (ev_codec E) p of
     Err e \<Rightarrow> (Err e, nd, w) | Panic \<Rightarrow> (Panic, nd, w)
   | Ok ping \<Rightarrow> reply_with nd Pong (enc_pong (ev_codec E) \<lparr>pong_nonce = ping_nonce ping\<rparr>) w)"

definition on_find_node :: "('sk, 'vk, 'd, 't, 'f) env \<Rightarrow> bytes \<Rightarrow> ('d, 'sk) Node \<Rightarrow> sender \<Rightarrow> ('d, 'sk) handled" where
  "on_find_node E p nd w = (case dec_find_node (ev_codec E) p of
     Err e \<Rightarrow> (Err e, nd, w) | Panic \<Rightarrow> (Panic, nd, w)
   | Ok m \<Rightarrow> reply_with nd FindNodeReply (enc_find_node_reply (ev_codec E)
       \<lparr>fr_nodes = map info_of (find_closest (fn_target_id m) 20 (nd_routing_table nd))\<rparr>) w)"

definition on_announce :: "('sk, 'vk, 'd, 't, 'f) env \<Rightarrow> ustr \<Rightarrow> bytes \<Rightarrow> ('d, 'sk) Node \<Rightarrow> sender \<Rightarrow> ('d, 'sk) handled" where
  "on_announce E peer p nd w = (case dec_announce (ev_codec E) p of
     Err e \<Rightarrow> (Err e, nd, w) | Panic \<Rightarrow> (Panic, nd, w)
   | Ok ann \<Rightarrow>
       (case nd_store nd of
          Some st \<Rightarrow>
            (case handle_announce E ann st w of
               (r, st, w) \<Rightarrow> (rbind r (\<lambda>_. Ok True), nd\<lparr>nd_store := Some st\<rparr>, w))
        | None \<Rightarrow>
            (case log_id (ev_debug E) peer of
               Ok _ \<Rightarrow> reply_with nd AnnounceAck (enc_announce_ack (ev_codec E)
                 \<lparr>aa_record_id = am_record_id ann, aa_accepted = False, aa_reason = lit ''no store''\<rparr>) w
             | Err e \<Rightarrow> (Err e, nd, w) | Panic \<Rightarrow> (Panic, nd, w))))"

text \<open>The score of a result is the literal \<^verbatim>\<open>1.0\<close>; \<^verbatim>\<open>unwrap_or_default\<close> turns an error into no
  results.\<close>

definition on_search_query :: "('sk, 'vk, 'd, 't, 'f) env \<Rightarrow> nat \<Rightarrow> u64 \<Rightarrow> ustr \<Rightarrow> bytes \<Rightarrow> ('d, 'sk) Node \<Rightarrow> sender
    \<Rightarrow> ('d, 'sk) handled" where
  "on_search_query E now secs peer p nd w = (case dec_search_query (ev_codec E) p of
     Err e \<Rightarrow> (Err e, nd, w) | Panic \<Rightarrow> (Panic, nd, w)
   | Ok sq \<Rightarrow>
       (case log_id (ev_debug E) peer of
          Err e \<Rightarrow> (Err e, nd, w) | Panic \<Rightarrow> (Panic, nd, w)
        | Ok _ \<Rightarrow>
            (case nd_store nd of
               None \<Rightarrow> (Ok True, nd, w)
             | Some st \<Rightarrow>
                 (case store_search_records (ev_redb E) (ev_serde E) (ev_vec E) (ev_floats E) (ev_lower E) now secs
                    (sq_query sq) (ucast (sq_limit sq)) st of
                    (Panic, st) \<Rightarrow> (Panic, nd\<lparr>nd_store := Some st\<rparr>, w)
                  | (found, st) \<Rightarrow>
                      let results = (case found of Ok rs \<Rightarrow> rs | _ \<Rightarrow> [])
                      in reply_with (nd\<lparr>nd_store := Some st\<rparr>) SearchReply (enc_search_reply (ev_codec E)
                        \<lparr>sr_query = sq_query sq,
                         sr_results = map (\<lambda>r. \<lparr>re_record_id = cr_id r, re_schema = cr_schema r, re_tags = cr_tags r,
                           re_holder_addr = [], re_score = f_lit (ev_floats E) 1 1\<rparr>) results,
                         sr_from_node = peer\<rparr>) w))))"

definition on_record_fetch :: "('sk, 'vk, 'd, 't, 'f) env \<Rightarrow> ustr \<Rightarrow> bytes \<Rightarrow> ('d, 'sk) Node \<Rightarrow> sender
    \<Rightarrow> ('d, 'sk) handled" where
  "on_record_fetch E peer p nd w = (case dec_record_fetch (ev_codec E) p of
     Err e \<Rightarrow> (Err e, nd, w) | Panic \<Rightarrow> (Panic, nd, w)
   | Ok rq \<Rightarrow>
       (case log_id (ev_debug E) peer of
          Err e \<Rightarrow> (Err e, nd, w) | Panic \<Rightarrow> (Panic, nd, w)
        | Ok _ \<Rightarrow>
            (case nd_store nd of
               None \<Rightarrow> (Ok True, nd, w)
             | Some st \<Rightarrow>
                 let record_json =
                   (case store_get_record (ev_redb E) (ev_serde E) (rq_record_id rq) st of
                      Ok (Some r) \<Rightarrow> (case record_to_json (ev_serde E) r of Ok j \<Rightarrow> Some j | _ \<Rightarrow> None)
                    | _ \<Rightarrow> None)
                 in reply_with nd RecordReply (enc_record_reply (ev_codec E)
                   \<lparr>rr_record_id = rq_record_id rq, rr_record_json = record_json, rr_not_found = (record_json = None)\<rparr>) w)))"

definition on_replicate_push :: "('sk, 'vk, 'd, 't, 'f) env \<Rightarrow> ustr \<Rightarrow> bytes \<Rightarrow> ('d, 'sk) Node \<Rightarrow> sender
    \<Rightarrow> ('d, 'sk) handled" where
  "on_replicate_push E peer p nd w = (case dec_replicate_push (ev_codec E) p of
     Err e \<Rightarrow> (Err e, nd, w) | Panic \<Rightarrow> (Panic, nd, w)
   | Ok rp \<Rightarrow>
       (case nd_store nd of
          Some st \<Rightarrow>
            (case handle_replicate_push E rp st w of
               (r, st, w) \<Rightarrow> (rbind r (\<lambda>_. Ok True), nd\<lparr>nd_store := Some st\<rparr>, w))
        | None \<Rightarrow>
            (case log_id (ev_debug E) peer of
               Ok _ \<Rightarrow> reply_with nd ReplicateAck (enc_replicate_ack (ev_codec E)
                 \<lparr>ra_record_id = rp_record_id rp, ra_accepted = False, ra_reason = lit ''no store''\<rparr>) w
             | Err e \<Rightarrow> (Err e, nd, w) | Panic \<Rightarrow> (Panic, nd, w))))"

definition on_peer_exchange :: "('sk, 'vk, 'd, 't, 'f) env \<Rightarrow> ustr \<Rightarrow> bytes \<Rightarrow> ('d, 'sk) Node \<Rightarrow> sender
    \<Rightarrow> ('d, 'sk) handled" where
  "on_peer_exchange E peer p nd w = (case dec_peer_exchange (ev_codec E) p of
     Err e \<Rightarrow> (Err e, nd, w) | Panic \<Rightarrow> (Panic, nd, w)
   | Ok _ \<Rightarrow>
       (case log_id (ev_debug E) peer of
          Err e \<Rightarrow> (Err e, nd, w) | Panic \<Rightarrow> (Panic, nd, w)
        | Ok _ \<Rightarrow> reply_with nd PeerExchange (enc_peer_exchange (ev_codec E)
            \<lparr>pe_peers = map info_of (filter (\<lambda>e. re_node_id e \<noteq> peer) (rt_list (nd_routing_table nd)))\<rparr>) w))"

definition on_goodbye :: "('sk, 'vk, 'd, 't, 'f) env \<Rightarrow> ustr \<Rightarrow> bytes \<Rightarrow> ('d, 'sk) Node \<Rightarrow> sender
    \<Rightarrow> ('d, 'sk) handled" where
  "on_goodbye E peer p nd w =
     (rbind (dec_goodbye (ev_codec E) p) (\<lambda>_. rbind (log_id (ev_info E) peer) (\<lambda>_. Ok False)), nd, w)"

definition handle_frame :: "('sk, 'vk, 'd, 't, 'f) env \<Rightarrow> nat \<Rightarrow> u64 \<Rightarrow> ustr \<Rightarrow> Frame \<Rightarrow> ('d, 'sk) Node \<Rightarrow> sender
    \<Rightarrow> ('d, 'sk) handled" where
  "handle_frame E now secs peer f nd w = (case fr_msg_type f of
     Ping \<Rightarrow> on_ping E (fr_payload f) nd w
   | FindNode \<Rightarrow> on_find_node E (fr_payload f) nd w
   | Announce \<Rightarrow> on_announce E peer (fr_payload f) nd w
   | SearchQuery \<Rightarrow> on_search_query E now secs peer (fr_payload f) nd w
   | RecordFetch \<Rightarrow> on_record_fetch E peer (fr_payload f) nd w
   | ReplicatePush \<Rightarrow> on_replicate_push E peer (fr_payload f) nd w
   | PeerExchange \<Rightarrow> on_peer_exchange E peer (fr_payload f) nd w
   | Goodbye \<Rightarrow> on_goodbye E peer (fr_payload f) nd w
   | _ \<Rightarrow> (Ok True, nd, w))"

text \<open>
  Each turn of the loop races a frame against half a second of sleep. When the sleep wins,
  the read is dropped with the bytes it had taken: \<open>Idle k\<close> is a sleep that dropped \<open>k\<close> bytes.
  \<open>Frame_ready\<close> carries the clocks of the turn.
\<close>

datatype turn = Frame_ready nat u64 | Idle nat

definition loop_turn :: "('sk, 'vk, 'd, 't, 'f) env \<Rightarrow> ustr \<Rightarrow> turn \<Rightarrow> ('d, 'sk) Node \<times> stream \<times> sender
    \<Rightarrow> (bool, ustr) result \<times> ('d, 'sk) Node \<times> stream \<times> sender" where
  "loop_turn E peer turn = (\<lambda>(nd, r, w). case turn of
     Idle k \<Rightarrow>
       (let r = r\<lparr>rs_data := drop k (rs_data r)\<rparr>
        in if \<not> nd_running nd then
             (case send_payload Goodbye (enc_goodbye (ev_codec E) \<lparr>gb_reason = lit ''shutdown''\<rparr>) w of
                (res, w) \<Rightarrow> (rbind res (\<lambda>_. rbind (log_id (ev_info E) peer) (\<lambda>_. Ok False)), nd, r, w))
           else (Ok True, nd, r, w))
   | Frame_ready now secs \<Rightarrow>
       (case read_frame r of
          (Err e, r) \<Rightarrow> (Err (FrameError_fmt e), nd, r, w)
        | (Panic, r) \<Rightarrow> (Panic, nd, r, w)
        | (Ok None, r) \<Rightarrow> (rbind (log_id (ev_info E) peer) (\<lambda>_. Ok False), nd, r, w)
        | (Ok (Some f), r) \<Rightarrow>
            (case handle_frame E now secs peer f nd w of (res, nd, w) \<Rightarrow> (res, nd, r, w))))"

text \<open>The loop over the turns it gets; \<open>None\<close> while it is still running.\<close>

fun handle_messages_inner :: "('sk, 'vk, 'd, 't, 'f) env \<Rightarrow> ustr \<Rightarrow> turn list \<Rightarrow> ('d, 'sk) Node \<times> stream \<times> sender
    \<Rightarrow> (unit, ustr) result option \<times> ('d, 'sk) Node \<times> stream \<times> sender" where
  "handle_messages_inner E peer [] c = (None, c)"
| "handle_messages_inner E peer (t # ts) c =
     (case loop_turn E peer t c of
        (Ok True, c) \<Rightarrow> handle_messages_inner E peer ts c
      | (Ok False, c) \<Rightarrow> (Some (Ok ()), c)
      | (Err e, c) \<Rightarrow> (Some (Err e), c)
      | (Panic, c) \<Rightarrow> (Some Panic, c))"

text \<open>The peer leaves the routing table when the loop returns, not when it panics.\<close>

definition handle_messages :: "('sk, 'vk, 'd, 't, 'f) env \<Rightarrow> ustr \<Rightarrow> turn list \<Rightarrow> ('d, 'sk) Node \<times> stream \<times> sender
    \<Rightarrow> (unit, ustr) result option \<times> ('d, 'sk) Node \<times> stream \<times> sender" where
  "handle_messages E peer ts c = (case handle_messages_inner E peer ts c of
     (None, c) \<Rightarrow> (None, c)
   | (Some Panic, c) \<Rightarrow> (Some Panic, c)
   | (Some result, nd, r, w) \<Rightarrow>
       (Some (rbind (log_id (ev_info E) peer) (\<lambda>_. result)), write_peers_file (drop_peer peer nd), r, w))"

section \<open>Connections\<close>

text \<open>An inbound connection: the handshake, and the peer id the message loop is spawned for.\<close>

definition accept_handshake :: "('sk, 'vk, 'd, 't, 'f) env \<Rightarrow> u64 \<Rightarrow> ustr \<Rightarrow> HandshakeMsg \<Rightarrow> ('d, 'sk) Node \<Rightarrow> sender
    \<Rightarrow> (ustr option, ustr) result \<times> ('d, 'sk) Node \<times> sender" where
  "accept_handshake E secs remote_addr hs nd w =
     (if 1 < abs_diff (hs_version hs) PROTOCOL_VERSION then
        (case send_payload Goodbye (enc_goodbye (ev_codec E) \<lparr>gb_reason = lit ''incompatible version''\<rparr>) w of
           (res, w) \<Rightarrow> (rbind res (\<lambda>_. Err (lit ''Incompatible protocol version: '' @ to_dec (unat (hs_version hs)))), nd, w))
      else
        (case send_payload HandshakeAck (enc_handshake_ack (ev_codec E)
            \<lparr>ha_version = PROTOCOL_VERSION, ha_node_id = nd_node_id nd,
             ha_roles = [NodeRole_as_str (nd_role nd)], ha_capabilities = []\<rparr>) w of
           (Err e, w) \<Rightarrow> (Err e, nd, w) | (Panic, w) \<Rightarrow> (Panic, nd, w)
         | (Ok _, w) \<Rightarrow>
             let nd = add_peer \<lparr>re_node_id = hs_node_id hs, re_addr = remote_addr, re_roles = hs_roles hs,
                 re_last_seen = secs\<rparr> nd
             in case log_id (ev_info E) (hs_node_id hs) of
                  Ok _ \<Rightarrow> (Ok (Some (hs_node_id hs)), write_peers_file nd, w)
                | Err e \<Rightarrow> (Err e, nd, w) | Panic \<Rightarrow> (Panic, nd, w)))"

text \<open>A connection that comes in: \<open>incoming\<close> is the peer's address once the connection stands and its first stream
  is open, or the error of the one of the two that failed.\<close>

definition handle_connection :: "('sk, 'vk, 'd, 't, 'f) env \<Rightarrow> u64 \<Rightarrow> (ustr, ustr) result \<Rightarrow> ('d, 'sk) Node \<times> stream \<times> sender
    \<Rightarrow> (ustr option, ustr) result \<times> ('d, 'sk) Node \<times> stream \<times> sender" where
  "handle_connection E secs incoming = (\<lambda>(nd, r, w). case incoming of
     Err e \<Rightarrow> (Err e, nd, r, w)
   | Panic \<Rightarrow> (Panic, nd, r, w)
   | Ok remote_addr \<Rightarrow> (case read_frame r of
     (Err e, r) \<Rightarrow> (Err (FrameError_fmt e), nd, r, w)
   | (Panic, r) \<Rightarrow> (Panic, nd, r, w)
   | (Ok None, r) \<Rightarrow> (Ok None, nd, r, w)
   | (Ok (Some f), r) \<Rightarrow>
       if fr_msg_type f \<noteq> Handshake then (Ok None, nd, r, w)
       else
         (case rbind (dec_handshake (ev_codec E) (fr_payload f))
             (\<lambda>hs. rbind (log_id (ev_debug E) (hs_node_id hs)) (\<lambda>_. Ok hs)) of
            Err e \<Rightarrow> (Err e, nd, r, w) | Panic \<Rightarrow> (Panic, nd, r, w)
          | Ok hs \<Rightarrow> (case accept_handshake E secs remote_addr hs nd w of (res, nd, w) \<Rightarrow> (res, nd, r, w)))))"

text \<open>The accept loop: a connection over the cap is closed; a task counts itself in and, unless it
  panics, out again.\<close>

definition task_start :: "('d, 'sk) Node \<Rightarrow> ('d, 'sk) Node option" where
  "task_start nd = (if nd_max_connections nd \<le> nd_active_connections nd then None
     else Some (nd\<lparr>nd_active_connections := nd_active_connections nd + 1\<rparr>))"

definition task_end :: "('a, ustr) result \<Rightarrow> ('d, 'sk) Node \<Rightarrow> ('d, 'sk) Node" where
  "task_end res nd = (if res = Panic then nd else nd\<lparr>nd_active_connections := nd_active_connections nd - 1\<rparr>)"

definition accept_connection :: "('sk, 'vk, 'd, 't, 'f) env \<Rightarrow> u64 \<Rightarrow> (ustr, ustr) result \<Rightarrow> ('d, 'sk) Node \<times> stream \<times> sender
    \<Rightarrow> (ustr option, ustr) result option \<times> ('d, 'sk) Node \<times> stream \<times> sender" where
  "accept_connection E secs incoming = (\<lambda>(nd, r, w). case task_start nd of
     None \<Rightarrow> (None, nd, r, w)
   | Some nd \<Rightarrow> (case handle_connection E secs incoming (nd, r, w) of
       (res, nd, r, w) \<Rightarrow> (Some res, task_end res nd, r, w)))"

text \<open>What an outbound connection sends after the handshake; only a panic stops it.\<close>

fun announce_records :: "('sk, 'vk, 'd, 't, 'f) env \<Rightarrow> ustr \<Rightarrow> ContentRecord list \<Rightarrow> sender
    \<Rightarrow> (unit, ustr) result \<times> sender" where
  "announce_records E listen_addr [] w = (Ok (), w)"
| "announce_records E listen_addr (r # rs) w =
     (case send_announce E \<lparr>an_record_id = cr_id r, an_source_hash = cr_source_hash r, an_schema = cr_schema r,
         an_tags = cr_tags r, an_holder_addr = listen_addr, an_expires_at = cr_expires_at r, an_sig = cr_sig r\<rparr> w of
        (Panic, w) \<Rightarrow> (Panic, w)
      | (_, w) \<Rightarrow> announce_records E listen_addr rs w)"

fun push_records :: "('sk, 'vk, 'd, 't, 'f) env \<Rightarrow> ContentRecord list \<Rightarrow> sender \<Rightarrow> (unit, ustr) result \<times> sender" where
  "push_records E [] w = (Ok (), w)"
| "push_records E (r # rs) w = (case push_record E r w of (Panic, w) \<Rightarrow> (Panic, w) | (_, w) \<Rightarrow> push_records E rs w)"

definition offer_records :: "('sk, 'vk, 'd, 't, 'f) env \<Rightarrow> ('d, 'sk) Node \<Rightarrow> sender \<Rightarrow> (unit, ustr) result \<times> sender" where
  "offer_records E nd w = (case nd_store nd of
     None \<Rightarrow> (Ok (), w)
   | Some st \<Rightarrow>
       let records = (\<lambda>n. case store_list_records (ev_redb E) (ev_serde E) None n st of Ok rs \<Rightarrow> rs | _ \<Rightarrow> [])
       in (case announce_records E (nd_listen_addr nd) (records 50) w of
             (Ok _, w) \<Rightarrow> push_records E (records 10) w
           | (e, w) \<Rightarrow> (e, w)))"

definition accept_ack :: "('sk, 'vk, 'd, 't, 'f) env \<Rightarrow> u64 \<Rightarrow> ustr \<Rightarrow> HandshakeAckMsg \<Rightarrow> ('d, 'sk) Node \<Rightarrow> sender
    \<Rightarrow> (ustr, ustr) result \<times> ('d, 'sk) Node \<times> sender" where
  "accept_ack E secs remote_addr ack nd w =
     (if 1 < abs_diff (ha_version ack) PROTOCOL_VERSION then
        (case send_payload Goodbye (enc_goodbye (ev_codec E) \<lparr>gb_reason = lit ''incompatible version''\<rparr>) w of
           (res, w) \<Rightarrow> (rbind res (\<lambda>_. Err (lit ''Incompatible protocol version: '' @ to_dec (unat (ha_version ack)))), nd, w))
      else
        let nd = add_peer \<lparr>re_node_id = ha_node_id ack, re_addr = remote_addr, re_roles = ha_roles ack,
            re_last_seen = secs\<rparr> nd
        in case log_id (ev_info E) (ha_node_id ack) of
             Err e \<Rightarrow> (Err e, nd, w) | Panic \<Rightarrow> (Panic, nd, w)
           | Ok _ \<Rightarrow>
               (case offer_records E (write_peers_file nd) w of
                  (res, w) \<Rightarrow> (rbind res (\<lambda>_. Ok (ha_node_id ack)), write_peers_file nd, w)))"

text \<open>
  An outbound connection, given the outcome of connecting and opening a stream. It ends with
  the id the message loop is spawned for, empty when no acknowledgement came.
\<close>

definition connect_to_peer :: "('sk, 'vk, 'd, 't, 'f) env \<Rightarrow> (unit, ustr) result \<Rightarrow> u64 \<Rightarrow> ustr
    \<Rightarrow> ('d, 'sk) Node \<times> stream \<times> sender \<Rightarrow> (ustr, ustr) result \<times> ('d, 'sk) Node \<times> stream \<times> sender" where
  "connect_to_peer E connected secs remote_addr = (\<lambda>(nd, r, w).
     if \<not> nd_endpoint nd then (Err (lit ''Endpoint not started''), nd, r, w)
     else case connected of
       Err e \<Rightarrow> (Err e, nd, r, w) | Panic \<Rightarrow> (Panic, nd, r, w)
     | Ok _ \<Rightarrow>
         (case send_payload Handshake (enc_handshake (ev_codec E)
             \<lparr>hs_version = PROTOCOL_VERSION, hs_node_id = nd_node_id nd,
              hs_roles = [NodeRole_as_str (nd_role nd)], hs_capabilities = []\<rparr>) w of
            (Err e, w) \<Rightarrow> (Err e, nd, r, w) | (Panic, w) \<Rightarrow> (Panic, nd, r, w)
          | (Ok _, w) \<Rightarrow>
              (case read_frame r of
                 (Err e, r) \<Rightarrow> (Err (FrameError_fmt e), nd, r, w)
               | (Panic, r) \<Rightarrow> (Panic, nd, r, w)
               | (Ok None, r) \<Rightarrow> (Ok [], nd, r, w)
               | (Ok (Some f), r) \<Rightarrow>
                   if fr_msg_type f \<noteq> HandshakeAck then (Ok [], nd, r, w)
                   else
                     (case rbind (dec_handshake_ack (ev_codec E) (fr_payload f))
                         (\<lambda>ack. rbind (log_id (ev_debug E) (ha_node_id ack)) (\<lambda>_. Ok ack)) of
                        Err e \<Rightarrow> (Err e, nd, r, w) | Panic \<Rightarrow> (Panic, nd, r, w)
                      | Ok ack \<Rightarrow>
                          (case accept_ack E secs remote_addr ack nd w of (res, nd, w) \<Rightarrow> (res, nd, r, w))))))"

section \<open>Starting, pruning, stopping\<close>

text \<open>Starting, given the outcome of reading the certificate and binding the endpoint; the info
  line slices the node's own id at eight bytes, whatever its length.\<close>

definition node_start :: "('sk, 'vk, 'd, 't, 'f) env \<Rightarrow> (unit, ustr) result \<Rightarrow> ('d, 'sk) Node
    \<Rightarrow> (unit, ustr) result \<times> ('d, 'sk) Node" where
  "node_start E bound nd = (case bound of
     Err e \<Rightarrow> (Err e, nd) | Panic \<Rightarrow> (Panic, nd)
   | Ok _ \<Rightarrow>
       let nd = nd\<lparr>nd_endpoint := True, nd_running := True\<rparr>; bs = utf8 (nd_node_id nd)
       in if ev_info E \<and> \<not> (8 \<le> length bs \<and> is_char_boundary bs 8) then (Panic, nd) else (Ok (), nd))"

text \<open>One tick of the pruning task; \<open>None\<close> when it ends.\<close>

definition prune_tick :: "u64 \<Rightarrow> ('d, 'sk) Node \<Rightarrow> ('d, 'sk) Node option" where
  "prune_tick now nd =
     (if \<not> nd_running nd then None
      else case prune_dead_peers now (nd_routing_table nd) of
        (pruned, rt) \<Rightarrow>
          let nd = nd\<lparr>nd_routing_table := rt\<rparr>
          in Some (if 0 < pruned then write_peers_file nd else nd))"

text \<open>What a stop leaves in the node: its loops see the flag. The half second it gives them, the closing of the QUIC
  endpoint and the message on the shutdown channel follow, and are no state of the node.\<close>

definition node_stop :: "('d, 'sk) Node \<Rightarrow> ('d, 'sk) Node" where
  "node_stop nd = nd\<lparr>nd_running := False\<rparr>"

section \<open>The shape of a reply\<close>

text \<open>The frames on a send stream: what was written before, then these.\<close>

definition wrote :: "sender \<Rightarrow> Frame list \<Rightarrow> sender \<Rightarrow> bool" where
  "wrote w fs w' \<longleftrightarrow> ws_data w' = ws_data w @ concat (map Frame_encode fs) \<and> ws_error w' = ws_error w"

lemma wrote_Nil [simp]: "wrote w [] w"
  by (simp add: wrote_def)

lemma send_payload_Ok:
  "send_payload t payload w = (Ok u, w') \<longleftrightarrow>
     (\<exists>p. payload = Ok p \<and> ws_error w = None \<and> w' = w\<lparr>ws_data := ws_data w @ Frame_encode (Frame_new t p)\<rparr>)"
  by (auto simp: send_payload_def write_frame_def split: result.splits option.splits)

lemma send_payload_wrote:
  assumes "send_payload t payload w = (r, w')"
  shows "if is_ok r then \<exists>p. payload = Ok p \<and> wrote w [Frame_new t p] w' else w' = w"
  using assms by (auto simp: send_payload_def write_frame_def wrote_def split: result.splits option.splits)

text \<open>The type of the reply to a request.\<close>

fun reply_type :: "MsgType \<Rightarrow> MsgType option" where
  "reply_type Ping = Some Pong"
| "reply_type FindNode = Some FindNodeReply"
| "reply_type Announce = Some AnnounceAck"
| "reply_type SearchQuery = Some SearchReply"
| "reply_type RecordFetch = Some RecordReply"
| "reply_type ReplicatePush = Some ReplicateAck"
| "reply_type PeerExchange = Some PeerExchange"
| "reply_type _ = None"

text \<open>What handling a message may do to the node: nothing but steps of its store.\<close>

definition env_step :: "('sk, 'vk, 'd, 't, 'f) env \<Rightarrow> ('d, 'sk) Store \<Rightarrow> ('d, 'sk) Store \<Rightarrow> bool" where
  "env_step E = store_step (ev_crypto E) (ev_redb E) (ev_serde E) (ev_vec E) (ev_floats E) (ev_lower E)"

definition only_store :: "('sk, 'vk, 'd, 't, 'f) env \<Rightarrow> ('d, 'sk) Node \<Rightarrow> ('d, 'sk) Node \<Rightarrow> bool" where
  "only_store E nd nd' \<longleftrightarrow> nd' = nd\<lparr>nd_store := nd_store nd'\<rparr> \<and>
     (nd_store nd' = nd_store nd \<or>
       (\<exists>st st'. nd_store nd = Some st \<and> nd_store nd' = Some st' \<and> env_step E st st'))"

lemma only_store_refl [simp]: "only_store E nd nd"
  by (simp add: only_store_def)

lemma only_store_upd:
  "nd_store nd = Some st \<Longrightarrow> st' = st \<or> env_step E st st' \<Longrightarrow> only_store E nd (nd\<lparr>nd_store := Some st'\<rparr>)"
  by (auto simp: only_store_def)

text \<open>What it writes: when it goes on, one frame of the type of the reply, otherwise nothing.\<close>

definition answers :: "MsgType \<Rightarrow> (bool, ustr) result \<Rightarrow> sender \<Rightarrow> sender \<Rightarrow> bool" where
  "answers t res w w' \<longleftrightarrow> (if res = Ok True then \<exists>t' p. reply_type t = Some t' \<and> wrote w [Frame_new t' p] w' else w' = w)"

lemma send_answers:
  assumes "send_payload t' payload w = (r, w')" and "reply_type t = Some t'"
  shows "answers t (rbind r (\<lambda>_. Ok True)) w w'"
  using send_payload_wrote [OF assms(1)] assms(2) by (cases r) (auto simp: answers_def)

lemma reply_with_answers:
  assumes "reply_with nd t' payload w = (res, nd', w')" and "reply_type t = Some t'"
  shows "answers t res w w' \<and> nd' = nd"
  using assms send_answers [of t' payload w] by (auto simp: reply_with_def split: prod.splits)

lemma answers_refuse [simp]: "answers t (Err e) w w" "answers t Panic w w"
  by (simp_all add: answers_def)

lemma handle_announce_answers:
  assumes "handle_announce E m st w = (r, st', w')"
  shows "answers Announce (rbind r (\<lambda>_. Ok True)) w w' \<and> env_step E st st'"
proof -
  obtain res a st1 where i: "store_insert_announcement (ev_crypto E) (ev_redb E) (ev_serde E) (announcement_of m) st =
      ((res, a), st1)" by (metis prod.collapse)
  have step: "env_step E st st1"
    unfolding env_step_def using store_step.announce [of "ev_crypto E" "ev_redb E" "ev_serde E" "ev_vec E"
        "ev_floats E" "ev_lower E" st "announcement_of m"] by (simp add: i)
  show ?thesis
    using assms step send_answers [of AnnounceAck _ w _ w' Announce]
    by (cases res) (auto simp: handle_announce_def i split: prod.splits)
qed

lemma handle_replicate_push_answers:
  assumes "handle_replicate_push E m st w = (r, st', w')"
  shows "answers ReplicatePush (rbind r (\<lambda>_. Ok True)) w w' \<and> (st' = st \<or> env_step E st st')"
proof (cases "record_from_json (ev_serde E) (rp_record_json m)")
  case (Ok rec)
  obtain res a st1 where i: "store_insert_record (ev_crypto E) (ev_redb E) (ev_serde E) rec st = ((res, a), st1)"
    by (metis prod.collapse)
  have step: "env_step E st st1"
    unfolding env_step_def using store_step.insert [of "ev_crypto E" "ev_redb E" "ev_serde E" "ev_vec E"
        "ev_floats E" "ev_lower E" st rec] by (simp add: i)
  show ?thesis
    using assms step send_answers [of ReplicateAck _ w _ w' ReplicatePush]
    by (cases res) (auto simp: handle_replicate_push_def Ok i Let_def split: prod.splits)
qed (use assms send_answers [of ReplicateAck _ w _ w' ReplicatePush] in
    \<open>auto simp: handle_replicate_push_def Let_def split: prod.splits\<close>)

lemma on_ping_spec:
  assumes "on_ping E p nd w = (res, nd', w')"
  shows "answers Ping res w w' \<and> nd' = nd"
  using assms reply_with_answers [of nd Pong _ w res nd' w' Ping]
  by (auto simp: on_ping_def split: result.splits)

lemma on_find_node_spec:
  assumes "on_find_node E p nd w = (res, nd', w')"
  shows "answers FindNode res w w' \<and> nd' = nd"
  using assms reply_with_answers [of nd FindNodeReply _ w res nd' w' FindNode]
  by (auto simp: on_find_node_def split: result.splits)

lemma on_peer_exchange_spec:
  assumes "on_peer_exchange E peer p nd w = (res, nd', w')"
  shows "answers PeerExchange res w w' \<and> nd' = nd"
  using assms reply_with_answers [of nd PeerExchange _ w res nd' w' PeerExchange]
  by (auto simp: on_peer_exchange_def split: result.splits)

lemma on_announce_spec:
  assumes "on_announce E peer p nd w = (res, nd', w')"
  shows "answers Announce res w w' \<and> only_store E nd nd'"
proof (cases "dec_announce (ev_codec E) p")
  case (Ok m)
  show ?thesis
  proof (cases "nd_store nd")
    case None
    with assms Ok reply_with_answers [of nd AnnounceAck _ w res nd' w' Announce] show ?thesis
      by (auto simp: on_announce_def split: result.splits) (metis only_store_refl)
  next
    case (Some st)
    obtain r st' w1 where h: "handle_announce E m st w = (r, st', w1)" by (metis prod.collapse)
    with assms Ok Some handle_announce_answers [OF h] show ?thesis
      by (auto simp: on_announce_def intro: only_store_upd)
  qed
qed (use assms in \<open>auto simp: on_announce_def\<close>)

lemma on_replicate_push_spec:
  assumes "on_replicate_push E peer p nd w = (res, nd', w')"
  shows "answers ReplicatePush res w w' \<and> only_store E nd nd'"
proof (cases "dec_replicate_push (ev_codec E) p")
  case (Ok m)
  show ?thesis
  proof (cases "nd_store nd")
    case None
    with assms Ok reply_with_answers [of nd ReplicateAck _ w res nd' w' ReplicatePush] show ?thesis
      by (auto simp: on_replicate_push_def split: result.splits) (metis only_store_refl)
  next
    case (Some st)
    obtain r st' w1 where h: "handle_replicate_push E m st w = (r, st', w1)" by (metis prod.collapse)
    with assms Ok Some handle_replicate_push_answers [OF h] show ?thesis
      by (auto simp: on_replicate_push_def intro: only_store_upd)
  qed
qed (use assms in \<open>auto simp: on_replicate_push_def\<close>)

lemma on_search_query_spec:
  assumes "on_search_query E now secs peer p nd w = (res, nd', w')"
  shows "(if nd_store nd = None then w' = w else answers SearchQuery res w w') \<and> only_store E nd nd'"
proof (cases "nd_store nd")
  case None
  with assms show ?thesis by (auto simp: on_search_query_def split: result.splits)
next
  case (Some st)
  show ?thesis
  proof (cases "dec_search_query (ev_codec E) p")
    case (Ok q)
    obtain found st' where f: "store_search_records (ev_redb E) (ev_serde E) (ev_vec E) (ev_floats E) (ev_lower E) now secs
        (sq_query q) (ucast (sq_limit q)) st = (found, st')" by force
    then have step: "env_step E st st'"
      unfolding env_step_def using store_step.search [of "ev_crypto E" "ev_redb E" "ev_serde E" "ev_vec E"
          "ev_floats E" "ev_lower E" st now secs "sq_query q" "ucast (sq_limit q)"] by simp
    have "only_store E nd (nd\<lparr>nd_store := Some st'\<rparr>)"
      by (rule only_store_upd [OF Some]) (simp add: step)
    with assms Ok Some f reply_with_answers [of "nd\<lparr>nd_store := Some st'\<rparr>" SearchReply _ w res nd' w' SearchQuery]
    show ?thesis
      by (auto simp: on_search_query_def Let_def split: result.splits)
  qed (use assms Some in \<open>auto simp: on_search_query_def\<close>)
qed

lemma on_record_fetch_spec:
  assumes "on_record_fetch E peer p nd w = (res, nd', w')"
  shows "(if nd_store nd = None then w' = w else answers RecordFetch res w w') \<and> nd' = nd"
proof (cases "nd_store nd")
  case None
  with assms show ?thesis by (auto simp: on_record_fetch_def split: result.splits)
next
  case (Some st)
  show ?thesis
  proof (cases "dec_record_fetch (ev_codec E) p")
    case (Ok q)
    show ?thesis
    proof (cases "log_id (ev_debug E) peer")
      case l: (Ok u)
      have "\<exists>payload. reply_with nd RecordReply payload w = (res, nd', w')"
        using assms Ok Some l by (auto simp: on_record_fetch_def Let_def)
      then show ?thesis
        using Some reply_with_answers [of nd RecordReply _ w res nd' w' RecordFetch] by auto
    qed (use assms Ok Some in \<open>auto simp: on_record_fetch_def\<close>)
  qed (use assms Some in \<open>auto simp: on_record_fetch_def\<close>)
qed

lemma handle_frame_spec:
  assumes "handle_frame E now secs peer f nd w = (res, nd', w')"
  shows "only_store E nd nd' \<and>
    (if reply_type (fr_msg_type f) = None \<or> (nd_store nd = None \<and> fr_msg_type f \<in> {SearchQuery, RecordFetch})
     then w' = w else answers (fr_msg_type f) res w w')"
  using assms on_ping_spec [of E "fr_payload f" nd w res nd' w'] on_find_node_spec [of E "fr_payload f" nd w res nd' w']
    on_peer_exchange_spec [of E peer "fr_payload f" nd w res nd' w'] on_announce_spec [of E peer "fr_payload f" nd w res nd' w']
    on_replicate_push_spec [of E peer "fr_payload f" nd w res nd' w']
    on_search_query_spec [of E now secs peer "fr_payload f" nd w res nd' w']
    on_record_fetch_spec [of E peer "fr_payload f" nd w res nd' w']
  by (cases "fr_msg_type f") (auto simp: handle_frame_def on_goodbye_def split: if_splits)

text \<open>C15: Each message a peer sends is answered as the protocol says: when the loop goes on, exactly
  one frame has been written and its type is that of the reply to the request, or none for a
  message that is not a request (and for the two that a node without a store leaves
  unanswered); when handling fails, nothing has. The routing table, the counters and the peers
  file are as before, and the store has made at most one step.\<close>

theorem handle_frame_replies:
  assumes "handle_frame E now secs peer f nd w = (res, nd', w')"
  shows "only_store E nd nd' \<and>
    (if reply_type (fr_msg_type f) = None \<or> (nd_store nd = None \<and> fr_msg_type f \<in> {SearchQuery, RecordFetch})
     then w' = w else answers (fr_msg_type f) res w w')"
  by (rule handle_frame_spec [OF assms])

text \<open>A codec for the concrete runs: it encodes everything as no bytes, and decodes a ping, an
  announcement and the handshakes of one node.\<close>

definition sample_codec :: "int codec" where
  "sample_codec = \<lparr>
     enc_handshake = (\<lambda>h. if hs_version h = 1 \<and> hs_roles h = [lit ''full''] \<and> hs_capabilities h = []
        then Ok (utf8 (hs_node_id h)) else Err []),
     dec_handshake = (\<lambda>p. Ok \<lparr>hs_version = 1, hs_node_id = map unat p, hs_roles = [lit ''full''], hs_capabilities = []\<rparr>),
     enc_handshake_ack = (\<lambda>h. Ok (utf8 (ha_node_id h))),
     dec_handshake_ack = (\<lambda>p. Ok \<lparr>ha_version = 1, ha_node_id = map unat p, ha_roles = [lit ''full''], ha_capabilities = []\<rparr>),
     dec_ping = (\<lambda>p. Ok \<lparr>ping_nonce = of_nat (length p)\<rparr>), enc_pong = (\<lambda>m. Ok (replicate (unat (pong_nonce m)) 0)),
     dec_find_node = (\<lambda>p. Err []), enc_find_node_reply = (\<lambda>m. Ok []),
     enc_announce = (\<lambda>m. Ok []),
     dec_announce = (\<lambda>p. Ok \<lparr>am_record_id = lit ''r'', am_source_hash = [], am_schema = [], am_tags = [],
        am_holder_addr = lit ''h'', am_expires_at = 0, am_sig = []\<rparr>),
     enc_announce_ack = (\<lambda>m. Ok []), dec_search_query = (\<lambda>p. Err []), enc_search_reply = (\<lambda>m. Ok []),
     dec_record_fetch = (\<lambda>p. Err []), enc_record_reply = (\<lambda>m. Ok []),
     enc_replicate_push = (\<lambda>m. Ok []), dec_replicate_push = (\<lambda>p. Err []), enc_replicate_ack = (\<lambda>m. Ok []),
     enc_peer_exchange = (\<lambda>m. Ok []), dec_peer_exchange = (\<lambda>p. Err []),
     enc_goodbye = (\<lambda>m. Ok []), dec_goodbye = (\<lambda>p. Ok \<lparr>gb_reason = []\<rparr>)\<rparr>"

definition sample_env :: "(unit, unit, mem_db, mem_db, int) env" where
  "sample_env = \<lparr>ev_crypto = sample_crypto, ev_redb = mem_redb, ev_serde = sample_serde, ev_vec = sample_vec,
     ev_floats = int_ops, ev_lower = id, ev_codec = sample_codec, ev_info = True, ev_debug = False\<rparr>"

definition sample_node :: "ustr \<Rightarrow> (mem_db, unit) Node" where
  "sample_node i = (Node_new i Full (lit ''0.0.0.0:7744''))\<lparr>nd_endpoint := True, nd_running := True\<rparr>"

definition fresh_sender :: sender where
  "fresh_sender = \<lparr>ws_data = [], ws_error = None\<rparr>"

theorem handle_frame_replies_witness:
  "\<exists>p w'. handle_frame sample_env 0 0 (lit ''p'') (Frame_new Ping [1, 2]) (sample_node (lit ''n'')) fresh_sender =
     (Ok True, sample_node (lit ''n''), w') \<and> ws_data w' = Frame_encode (Frame_new Pong p)"
proof -
  obtain w' where h: "handle_frame sample_env 0 0 (lit ''p'') (Frame_new Ping [1, 2]) (sample_node (lit ''n'')) fresh_sender =
      (Ok True, sample_node (lit ''n''), w')"
    by (simp add: handle_frame_def Frame_new_def on_ping_def reply_with_def send_payload_def write_frame_def
        sample_env_def sample_codec_def fresh_sender_def)
  from handle_frame_replies [OF h] h show ?thesis
    by (auto simp: Frame_new_def answers_def wrote_def fresh_sender_def)
qed

section \<open>Every reachable node\<close>

text \<open>The routing table is an ordered map by id and the store keeps its invariant.\<close>

definition node_inv :: "serde \<Rightarrow> ('d \<Rightarrow> contents) \<Rightarrow> ('d, 'sk) Node \<Rightarrow> bool" where
  "node_inv J vd nd \<longleftrightarrow> rt_wf (nd_routing_table nd) \<and> (\<forall>st. nd_store nd = Some st \<longrightarrow> store_inv J vd st)"

text \<open>The steps of a node: a task of an inbound connection, an outbound connection, a turn of any
  message loop, the end of one, a tick of the pruning task, start and stop, and the calls of the
  local API, which reach the store only.\<close>

inductive node_step :: "('sk, 'vk, 'd, 't, 'f) env \<Rightarrow> ('d, 'sk) Node \<Rightarrow> ('d, 'sk) Node \<Rightarrow> bool" for E where
  inbound: "accept_connection E secs incoming (nd, r, w) = (res, nd', r', w') \<Longrightarrow> node_step E nd nd'"
| outbound: "connect_to_peer E connected secs addr (nd, r, w) = (res', nd', r', w') \<Longrightarrow> node_step E nd nd'"
| turn: "loop_turn E peer t (nd, r, w) = (res'', nd', r', w') \<Longrightarrow> node_step E nd nd'"
| leave: "node_step E nd (write_peers_file (drop_peer peer nd))"
| prune: "prune_tick now nd = Some nd' \<Longrightarrow> node_step E nd nd'"
| start: "node_start E bound nd = (u, nd') \<Longrightarrow> node_step E nd nd'"
| stop: "node_step E nd (node_stop nd)"
| api: "nd_store nd = Some st \<Longrightarrow> env_step E st st' \<Longrightarrow> node_step E nd (nd\<lparr>nd_store := Some st'\<rparr>)"

lemma node_inv_upd [simp]:
  "node_inv J vd (write_peers_file nd) = node_inv J vd nd" "node_inv J vd (nd\<lparr>nd_running := b\<rparr>) = node_inv J vd nd"
  "node_inv J vd (nd\<lparr>nd_active_connections := n\<rparr>) = node_inv J vd nd"
  "node_inv J vd (nd\<lparr>nd_endpoint := b\<rparr>) = node_inv J vd nd"
  by (simp_all add: node_inv_def write_peers_file_def)

lemma node_inv_peers [intro]:
  "node_inv J vd nd \<Longrightarrow> node_inv J vd (add_peer e nd)" "node_inv J vd nd \<Longrightarrow> node_inv J vd (drop_peer k nd)"
  by (simp_all add: node_inv_def add_peer_def drop_peer_def rt_insert_spec(1) rt_remove_spec(1))

lemma only_store_inv:
  assumes "redb_laws (ev_redb E) vd vt" and "serde_laws (ev_serde E)" and "only_store E nd nd'"
    and "node_inv (ev_serde E) vd nd"
  shows "node_inv (ev_serde E) vd nd'"
proof -
  have "store_inv (ev_serde E) vd st'" if "nd_store nd = Some st" "env_step E st st'" for st st'
    using store_step_inv [OF assms(1,2)] that assms(4) unfolding env_step_def node_inv_def by blast
  moreover have "nd_routing_table nd' = nd_routing_table nd"
    using assms(3) by (metis Node.select_convs(4) Node.surjective Node.update_convs(9) only_store_def)
  ultimately show ?thesis using assms(3,4) by (auto simp: only_store_def node_inv_def)
qed

lemma accept_handshake_inv:
  assumes "accept_handshake E secs addr hs nd w = (res, nd', w')" and "node_inv J vd nd"
  shows "node_inv J vd nd'"
  using assms by (auto simp: accept_handshake_def Let_def split: if_splits prod.splits result.splits)

lemma handle_connection_inv:
  assumes "handle_connection E secs incoming (nd, r, w) = (res, nd', r', w')" and "node_inv J vd nd"
  shows "node_inv J vd nd'"
proof -
  obtain x r1 where x: "read_frame r = (x, r1)" by force
  have "nd' = nd \<or> (\<exists>addr hs w1 res1. accept_handshake E secs addr hs nd w = (res1, nd', w1))"
    using assms(1)
    by (cases x; cases incoming) (auto simp: handle_connection_def x split: option.splits if_splits result.splits prod.splits)
  with assms(2) accept_handshake_inv show ?thesis by metis
qed

lemma accept_ack_inv:
  assumes "accept_ack E secs addr ack nd w = (res, nd', w')" and "node_inv J vd nd"
  shows "node_inv J vd nd'"
  using assms by (auto simp: accept_ack_def Let_def split: if_splits prod.splits result.splits)

lemma connect_to_peer_inv:
  assumes "connect_to_peer E connected secs addr (nd, r, w) = (res, nd', r', w')" and "node_inv J vd nd"
  shows "node_inv J vd nd'"
proof -
  obtain x r1 where x: "read_frame r = (x, r1)" by force
  have "nd' = nd \<or> (\<exists>ack w0 w1 res1. accept_ack E secs addr ack nd w0 = (res1, nd', w1))"
    using assms(1)
    by (cases x) (auto simp: connect_to_peer_def x split: option.splits if_splits result.splits prod.splits)
  with assms(2) accept_ack_inv show ?thesis by metis
qed

lemma loop_turn_store:
  assumes "loop_turn E peer t (nd, r, w) = (res, nd', r', w')"
  shows "only_store E nd nd'"
proof (cases t)
  case (Frame_ready now secs)
  obtain x r1 where x: "read_frame r = (x, r1)" by force
  show ?thesis
  proof (cases "\<exists>f. x = Ok (Some f)")
    case True
    then obtain f where f: "x = Ok (Some f)" by blast
    obtain res1 nd1 w1 where h: "handle_frame E now secs peer f nd w = (res1, nd1, w1)" by (metis prod.collapse)
    from assms Frame_ready x f h handle_frame_spec [OF h] show ?thesis by (auto simp: loop_turn_def)
  next
    case False
    with assms Frame_ready x show ?thesis
      by (cases x) (auto simp: loop_turn_def split: option.splits)
  qed
qed (use assms in \<open>auto simp: loop_turn_def Let_def split: if_splits prod.splits\<close>)

lemma node_step_inv:
  assumes L: "redb_laws (ev_redb E) vd vt" and S: "serde_laws (ev_serde E)" and "node_step E nd nd'"
    and inv: "node_inv (ev_serde E) vd nd"
  shows "node_inv (ev_serde E) vd nd'"
  using assms(3)
proof cases
  case (inbound secs incoming r w res r' w')
  show ?thesis
  proof (cases "task_start nd")
    case None
    with inbound inv show ?thesis by (auto simp: accept_connection_def)
  next
    case (Some nd1)
    obtain res1 nd2 r2 w2 where h: "handle_connection E secs incoming (nd1, r, w) = (res1, nd2, r2, w2)"
      by (metis prod.collapse)
    have "node_inv (ev_serde E) vd nd1"
      using Some inv by (auto simp: task_start_def split: if_splits)
    with handle_connection_inv [OF h] have "node_inv (ev_serde E) vd nd2" by blast
    with inbound Some h show ?thesis by (auto simp: accept_connection_def task_end_def split: if_splits)
  qed
next
  case (outbound connected secs addr r w res' r' w')
  with connect_to_peer_inv inv show ?thesis by metis
next
  case (turn peer t r w res'' r' w')
  with loop_turn_store only_store_inv [OF L S _ inv] show ?thesis by metis
next
  case (prune now)
  then show ?thesis
    using inv fold_remove [of "nd_routing_table nd"]
    by (auto simp: prune_tick_def prune_dead_peers_def prune_stale_def Let_def node_inv_def write_peers_file_def
        split: if_splits)
next
  case (api st st')
  with only_store_inv [OF L S only_store_upd [OF api(2)] inv] show ?thesis by simp
qed (use inv in \<open>auto simp: node_stop_def node_start_def Let_def split: result.splits if_splits\<close>)

text \<open>C16: Whatever peers send, connect and disconnect, whatever the local API does and whatever
  fails, in whatever order the steps interleave, a node started with a store that keeps its
  invariant keeps the routing table an ordered map with each peer under its own id, and the
  store's invariant: one record per source hash, every value readable, the cache and the
  announcement limiter within their bounds.\<close>

theorem node_reachable:
  assumes "redb_laws (ev_redb E) vd vt" and "serde_laws (ev_serde E)"
    and "store_inv (ev_serde E) vd st" and "(node_step E)\<^sup>*\<^sup>* ((Node_new i role addr)\<lparr>nd_store := Some st\<rparr>) nd"
  shows "rt_wf (nd_routing_table nd) \<and> (\<forall>k e. rt_map (nd_routing_table nd) k = Some e \<longrightarrow> re_node_id e = k) \<and>
    (\<forall>st'. nd_store nd = Some st' \<longrightarrow> store_inv (ev_serde E) vd st')"
proof -
  have "node_inv (ev_serde E) vd ((Node_new i role addr)\<lparr>nd_store := Some st\<rparr>)"
    using assms(3) by (simp add: node_inv_def Node_new_def with_max_connections_def RoutingTable_new_def rt_wf_def)
  with assms(4) have "node_inv (ev_serde E) vd nd"
    by (induction rule: rtranclp_induct) (auto intro: node_step_inv [OF assms(1,2)])
  moreover from this have "re_node_id e = k" if "rt_map (nd_routing_table nd) k = Some e" for k e
    using map_of_SomeD [OF that [unfolded rt_map_def]] by (auto simp: node_inv_def rt_wf_def)
  ultimately show ?thesis by (auto simp: node_inv_def)
qed

theorem node_reachable_witness:
  "rt_wf (nd_routing_table (fst (snd (accept_connection sample_env 0 (Ok (lit ''10.0.0.1:7744''))
     ((Node_new (lit ''n'') Full (lit ''0.0.0.0:7744''))\<lparr>nd_store := Some (Store_new mem_empty plain_config)\<rparr>, \<lparr>rs_data = Frame_encode (Frame_new Handshake [97]), rs_error = None\<rparr>, fresh_sender)))))"
proof -
  let ?nd = "(Node_new (lit ''n'') Full (lit ''0.0.0.0:7744''))\<lparr>nd_store := Some (Store_new mem_empty plain_config)\<rparr>"
  have L: "redb_laws (ev_redb sample_env) mem_view mem_view" and S: "serde_laws (ev_serde sample_env)"
    by (simp_all add: sample_env_def mem_redb_laws sample_serde_laws)
  have st: "store_inv (ev_serde sample_env) mem_view (Store_new mem_empty plain_config :: (mem_db, unit) Store)"
    using mem_empty_exact
    by (simp add: store_inv_def Store_new_def cache_wf_def SearchCache_new_def tier2_within_def Tier2Limiter_new_def
        index_exact_def sample_env_def)
  have "node_step sample_env ?nd (fst (snd (accept_connection sample_env 0 (Ok (lit ''10.0.0.1:7744'')) (?nd, \<lparr>rs_data = Frame_encode (Frame_new Handshake [97]), rs_error = None\<rparr>, fresh_sender))))"
    by (metis node_step.inbound prod.collapse)
  with node_reachable [OF L S st r_into_rtranclp] show ?thesis by blast
qed

section \<open>The connection cap\<close>

text \<open>A handshake whose node id cannot be cut at eight bytes, on a connection that is otherwise in
  order.\<close>

definition bad_handshake :: "('sk, 'vk, 'd, 't, 'f) env \<Rightarrow> u64 \<times> ustr \<times> stream \<times> sender \<Rightarrow> bool" where
  "bad_handshake E = (\<lambda>(secs, addr, r, w). \<exists>f r' hs. read_frame r = (Ok (Some f), r') \<and> fr_msg_type f = Handshake \<and>
     dec_handshake (ev_codec E) (fr_payload f) = Ok hs \<and> hs_version hs = PROTOCOL_VERSION \<and> ws_error w = None \<and>
     \<not> is_char_boundary (utf8 (hs_node_id hs)) (min 8 (length (utf8 (hs_node_id hs)))))"

fun serve :: "('sk, 'vk, 'd, 't, 'f) env \<Rightarrow> ('d, 'sk) Node \<Rightarrow> (u64 \<times> ustr \<times> stream \<times> sender) list \<Rightarrow> ('d, 'sk) Node" where
  "serve E nd [] = nd"
| "serve E nd ((secs, addr, r, w) # cs) = serve E (fst (snd (accept_connection E secs (Ok addr) (nd, r, w)))) cs"

text \<open>No step of a connection but its ends touches the counter or the cap.\<close>

definition same_counts :: "('d, 'sk) Node \<Rightarrow> ('d, 'sk) Node \<Rightarrow> bool" where
  "same_counts nd nd' \<longleftrightarrow> nd_active_connections nd' = nd_active_connections nd \<and>
     nd_max_connections nd' = nd_max_connections nd"

lemma same_counts_simps [simp]:
  "same_counts nd nd" "same_counts nd (write_peers_file nd') = same_counts nd nd'"
  "same_counts nd (add_peer e nd') = same_counts nd nd'"
  by (simp_all add: same_counts_def write_peers_file_def add_peer_def)

lemma handle_connection_counts:
  assumes "handle_connection E secs incoming (nd, r, w) = (res, nd', r', w')"
  shows "same_counts nd nd'"
proof -
  obtain x r1 where x: "read_frame r = (x, r1)" by force
  have hs: "accept_handshake E secs addr hs nd w = (res1, nd1, w1) \<Longrightarrow> same_counts nd nd1" for addr hs res1 nd1 w1
    by (auto simp: accept_handshake_def Let_def split: if_splits prod.splits result.splits)
  have "nd' = nd \<or> (\<exists>addr hs w1 res1. accept_handshake E secs addr hs nd w = (res1, nd', w1))"
    using assms(1)
    by (cases x; cases incoming) (auto simp: handle_connection_def x split: option.splits if_splits result.splits prod.splits)
  with hs show ?thesis by auto
qed

lemma accept_connection_count:
  assumes "accept_connection E secs incoming (nd, r, w) = (res, nd', r', w')"
  shows "nd_max_connections nd' = nd_max_connections nd \<and>
    nd_active_connections nd' = (if res = Some Panic then nd_active_connections nd + 1 else nd_active_connections nd)"
proof (cases "task_start nd")
  case (Some nd1)
  obtain res1 nd2 r2 w2 where h: "handle_connection E secs incoming (nd1, r, w) = (res1, nd2, r2, w2)"
    by (metis prod.collapse)
  from handle_connection_counts [OF h] have "same_counts nd1 nd2" .
  with assms Some h show ?thesis
    by (auto simp: accept_connection_def task_start_def task_end_def same_counts_def split: if_splits)
qed (use assms in \<open>auto simp: accept_connection_def\<close>)

lemma bad_handshake_panics:
  assumes "bad_handshake E (secs, addr, r, w)" and "ev_info E" and "\<forall>a. \<exists>p. enc_handshake_ack (ev_codec E) a = Ok p"
  shows "fst (handle_connection E secs (Ok addr) (nd, r, w)) = Panic"
proof -
  obtain f r' hs where f: "read_frame r = (Ok (Some f), r')" "fr_msg_type f = Handshake"
      "dec_handshake (ev_codec E) (fr_payload f) = Ok hs" "hs_version hs = PROTOCOL_VERSION" "ws_error w = None"
      "\<not> is_char_boundary (utf8 (hs_node_id hs)) (min 8 (length (utf8 (hs_node_id hs))))"
    using assms(1) by (auto simp: bad_handshake_def)
  have "log_id (ev_info E) (hs_node_id hs) = Panic" using f(6) assms(2) by (simp add: log_id_def Let_def)
  moreover obtain p where "enc_handshake_ack (ev_codec E)
      \<lparr>ha_version = PROTOCOL_VERSION, ha_node_id = nd_node_id nd, ha_roles = [NodeRole_as_str (nd_role nd)],
       ha_capabilities = []\<rparr> = Ok p"
    using assms(3) by blast
  ultimately have "fst (accept_handshake E secs addr hs nd w) = Panic"
    using f(4,5) by (simp add: accept_handshake_def abs_diff_def send_payload_def write_frame_def)
  with f show ?thesis
    by (auto simp: handle_connection_def log_id_def Let_def split: prod.splits)
qed

text \<open>The connection cap does not count connections. A connection that does not panic leaves the
  counter as it found it once its handshake is done, so peers that stay connected are not
  counted; and one whose handshake names an id that cannot be cut at eight bytes panics when info
  logging is on and is counted for ever: as many such handshakes as the cap allows, and every later
  connection is refused.\<close>

theorem connection_cap:
  assumes "ev_info E" and "\<forall>a. \<exists>p. enc_handshake_ack (ev_codec E) a = Ok p"
  shows "(accept_connection E secs incoming (nd, r, w) = (res, nd', r', w') \<and> res \<noteq> Some Panic \<longrightarrow>
      nd_active_connections nd' = nd_active_connections nd) \<and>
    (nd_active_connections nd = 0 \<and> (\<forall>c \<in> set cs. bad_handshake E c) \<and> length cs = unat (nd_max_connections nd) \<longrightarrow>
      task_start (serve E nd cs) = None)"
proof (intro conjI impI)
  show "nd_active_connections nd' = nd_active_connections nd"
    if "accept_connection E secs incoming (nd, r, w) = (res, nd', r', w') \<and> res \<noteq> Some Panic"
    using accept_connection_count [of E secs incoming nd r w res nd' r' w'] that by simp
  have filled: "task_start (serve E nd cs) = None"
    if "\<forall>c \<in> set cs. bad_handshake E c" "length cs + unat (nd_active_connections nd) = unat (nd_max_connections nd)" for cs nd
    using that
  proof (induction cs arbitrary: nd)
    case Nil
    then show ?case by (simp add: task_start_def word_le_nat_alt)
  next
    case (Cons c cs)
    obtain secs addr r w where c: "c = (secs, addr, r, w)" by (metis prod.collapse)
    obtain res nd1 r1 w1 where a: "accept_connection E secs (Ok addr) (nd, r, w) = (res, nd1, r1, w1)" by (metis prod.collapse)
    have less: "nd_active_connections nd < nd_max_connections nd"
      using Cons.prems(2) by (simp add: word_less_nat_alt)
    then have "\<not> nd_max_connections nd \<le> nd_active_connections nd" by simp
    then obtain nd2 where "task_start nd = Some nd2" by (simp add: task_start_def)
    with bad_handshake_panics [OF _ assms, of secs addr r w nd2] Cons.prems(1) c a have "res = Some Panic"
      by (auto simp: accept_connection_def split: prod.splits)
    with accept_connection_count [OF a] have n: "nd_max_connections nd1 = nd_max_connections nd"
        "nd_active_connections nd1 = nd_active_connections nd + 1" by simp_all
    have "length cs + unat (nd_active_connections nd1) = unat (nd_max_connections nd1)"
      using Cons.prems(2) unat_add_1 [OF less] by (simp add: n)
    with Cons.IH [of nd1] Cons.prems(1) show ?case by (simp add: c a)
  qed
  show "task_start (serve E nd cs) = None"
    if "nd_active_connections nd = 0 \<and> (\<forall>c \<in> set cs. bad_handshake E c) \<and> length cs = unat (nd_max_connections nd)"
    using filled [of cs nd] that by simp
qed

lemma read_back:
  "length (fr_payload f) \<le> 1048576 \<Longrightarrow> read_frame \<lparr>rs_data = Frame_encode f @ d, rs_error = e\<rparr> =
     (Ok (Some f), \<lparr>rs_data = d, rs_error = e\<rparr>)"
  by (simp add: read_frame_encoded)

definition bad_id :: ustr where
  "bad_id = [97, 97, 97, 97, 97, 97, 97, 233]"

lemma bad_id_boundary: "\<not> is_char_boundary (utf8 bad_id) (min 8 (length (utf8 bad_id)))"
proof -
  have "utf8 bad_id = [97, 97, 97, 97, 97, 97, 97, 0xC3, 0xA9]"
    by (simp add: bad_id_def utf8_def utf8_char_def)
  then show ?thesis by (simp add: is_char_boundary_def)
qed

theorem connection_cap_witness:
  "task_start (serve sample_env (with_max_connections (lit ''n'') Full [] 1)
     [(0, [], \<lparr>rs_data = Frame_encode (Frame_new Handshake (map of_nat bad_id)), rs_error = None\<rparr>, fresh_sender)]) = None"
proof -
  let ?c = "(0, [], \<lparr>rs_data = Frame_encode (Frame_new Handshake (map of_nat bad_id)), rs_error = None\<rparr>, fresh_sender)"
  have r: "read_frame \<lparr>rs_data = Frame_encode (Frame_new Handshake (map of_nat bad_id)), rs_error = None\<rparr> =
      (Ok (Some (Frame_new Handshake (map of_nat bad_id))), \<lparr>rs_data = [], rs_error = None\<rparr>)"
    using read_back [of "Frame_new Handshake (map of_nat bad_id)" "[]" None] by (simp add: Frame_new_def bad_id_def)
  have id: "map unat (map of_nat bad_id :: bytes) = bad_id" by (simp add: bad_id_def)
  have "dec_handshake (ev_codec sample_env) (fr_payload (Frame_new Handshake (map of_nat bad_id))) =
      Ok \<lparr>hs_version = 1, hs_node_id = bad_id, hs_roles = [lit ''full''], hs_capabilities = []\<rparr>"
    using id by (simp add: sample_env_def sample_codec_def Frame_new_def)
  then have "bad_handshake sample_env ?c"
    using r bad_id_boundary
    by (auto simp: bad_handshake_def fresh_sender_def PROTOCOL_VERSION_def Frame_new_def)
  moreover have "ev_info sample_env" "\<forall>a. \<exists>p. enc_handshake_ack (ev_codec sample_env) a = Ok p"
    by (simp_all add: sample_env_def sample_codec_def)
  ultimately show ?thesis
    using connection_cap [of sample_env, where nd = "with_max_connections (lit ''n'') Full [] 1" and cs = "[?c]"]
    by (simp add: with_max_connections_def del: serve.simps)
qed

section \<open>Shutdown\<close>

lemma only_store_running: "only_store E nd nd' \<Longrightarrow> nd_running nd' = nd_running nd"
  by (metis Node.select_convs(6) Node.surjective Node.update_convs(9) only_store_def)

lemma inner_ends:
  assumes "Idle k \<in> set ts" and "\<not> nd_running nd"
  shows "fst (handle_messages_inner E peer ts (nd, r, w)) \<noteq> None"
  using assms
proof (induction ts arbitrary: nd r w)
  case (Cons t ts)
  obtain res nd1 r1 w1 where t: "loop_turn E peer t (nd, r, w) = (res, nd1, r1, w1)" by (metis prod.collapse)
  show ?case
  proof (cases "res = Ok True")
    case False
    then show ?thesis using t by (cases res; cases "\<exists>b. res = Ok b") auto
  next
    case True
    with t Cons.prems(2) have "\<nexists>k. t = Idle k"
      by (auto simp: loop_turn_def Let_def res_simps split: prod.splits)
    with Cons.prems have "Idle k \<in> set ts" by auto
    moreover have "\<not> nd_running nd1" using only_store_running [OF loop_turn_store [OF t]] Cons.prems(2) by simp
    ultimately show ?thesis using Cons.IH t True by simp
  qed
qed simp

lemma drop_peer_absent: "rt_map (nd_routing_table (drop_peer k nd)) k = None"
proof -
  have "map_of (filter (\<lambda>e. fst e \<noteq> k) xs) k = None" for xs :: "(ustr \<times> RoutingEntry) list"
    by (induction xs) auto
  then show ?thesis by (simp add: drop_peer_def rt_map_def rt_remove_def)
qed

text \<open>C17: A message loop does not outlive its node: after \<open>stop\<close>, whatever the peer sends, the loop
  has ended by the first half-second in which nothing came; if that is the first thing that
  happens and the connection is up, its last frame is a Goodbye. However the loop ends, short
  of a panic, the peer is out of the routing table and the peers file says so.\<close>

theorem shutdown_ends_loop:
  assumes "Idle k \<in> set ts"
  shows "fst (handle_messages E peer ts (node_stop nd, r, w)) \<noteq> None \<and>
    (hd ts = Idle k \<and> ws_error w = None \<and> enc_goodbye (ev_codec E) \<lparr>gb_reason = lit ''shutdown''\<rparr> = Ok p \<longrightarrow>
       wrote w [Frame_new Goodbye p] (snd (snd (snd (handle_messages E peer ts (node_stop nd, r, w)))))) \<and>
    (\<forall>ts' nd0 r0 w0 res nd' r' w'. handle_messages E peer ts' (nd0, r0, w0) = (Some res, nd', r', w') \<and>
       fst (handle_messages_inner E peer ts' (nd0, r0, w0)) \<noteq> Some Panic \<longrightarrow>
       rt_map (nd_routing_table nd') peer = None \<and> nd_peers_file nd' = rt_list (nd_routing_table nd'))"
proof (intro conjI allI impI)
  have ends: "fst (handle_messages_inner E peer ts (node_stop nd, r, w)) \<noteq> None"
    by (rule inner_ends [OF assms]) (simp add: node_stop_def)
  then show "fst (handle_messages E peer ts (node_stop nd, r, w)) \<noteq> None"
    by (auto simp: handle_messages_def split: prod.splits option.splits result.splits)
  show "wrote w [Frame_new Goodbye p] (snd (snd (snd (handle_messages E peer ts (node_stop nd, r, w)))))"
    if "hd ts = Idle k \<and> ws_error w = None \<and> enc_goodbye (ev_codec E) \<lparr>gb_reason = lit ''shutdown''\<rparr> = Ok p"
  proof -
    have "ts \<noteq> []" "hd ts = Idle k" using that assms by auto
    then obtain ts' where ts: "ts = Idle k # ts'" by (cases ts) auto
    show ?thesis
      using that
      by (cases "log_id (ev_info E) peer")
        (auto simp: ts handle_messages_def loop_turn_def Let_def node_stop_def send_payload_def write_frame_def wrote_def)
  qed
  fix ts' nd0 r0 w0 res nd' r' w'
  assume h: "handle_messages E peer ts' (nd0, r0, w0) = (Some res, nd', r', w') \<and>
       fst (handle_messages_inner E peer ts' (nd0, r0, w0)) \<noteq> Some Panic"
  obtain out nd1 r1 w1 where i: "handle_messages_inner E peer ts' (nd0, r0, w0) = (out, nd1, r1, w1)"
    by (metis prod.collapse)
  with h have nd': "nd' = write_peers_file (drop_peer peer nd1)"
    by (auto simp: handle_messages_def split: option.splits result.splits)
  show "rt_map (nd_routing_table nd') peer = None"
    using drop_peer_absent [of peer nd1] by (simp add: nd' write_peers_file_def)
  show "nd_peers_file nd' = rt_list (nd_routing_table nd')"
    by (simp add: nd' write_peers_file_def)
qed

theorem shutdown_ends_loop_witness:
  "fst (handle_messages sample_env (lit ''p'') [Frame_ready 0 0, Idle 0] (node_stop (sample_node (lit ''n'')),
     \<lparr>rs_data = Frame_encode (Frame_new Ping []), rs_error = None\<rparr>, fresh_sender)) \<noteq> None \<and>
   wrote fresh_sender [Frame_new Goodbye []] (snd (snd (snd (handle_messages sample_env (lit ''p'') [Idle 0]
     (node_stop (sample_node (lit ''n'')), \<lparr>rs_data = [], rs_error = None\<rparr>, fresh_sender)))))"
  using shutdown_ends_loop [of 0 "[Frame_ready 0 0, Idle 0]" sample_env "lit ''p''" "sample_node (lit ''n'')"
      "\<lparr>rs_data = Frame_encode (Frame_new Ping []), rs_error = None\<rparr>" fresh_sender "[]"]
    shutdown_ends_loop [of 0 "[Idle 0]" sample_env "lit ''p''" "sample_node (lit ''n'')"
      "\<lparr>rs_data = [], rs_error = None\<rparr>" fresh_sender "[]"]
  by (simp add: sample_env_def sample_codec_def fresh_sender_def)

section \<open>Frames and sleeps\<close>

text \<open>A pause inside a frame changes what is read. When the half-second runs out after the
  header of a frame has been taken, the header is lost, and the next read takes the frame's
  payload for frames: a payload that is itself the encoding of a message is handled as that
  message.\<close>

theorem sleep_tears_frame:
  assumes "rs_data r = Frame_encode f @ d" and "fr_payload f = Frame_encode g" and "length (fr_payload g) \<le> 1048576"
    and "nd_running nd"
  shows "handle_messages_inner E peer [Idle HEADER_SIZE, Frame_ready now secs] (nd, r, w) =
    (case handle_frame E now secs peer g nd w of (res, nd', w') \<Rightarrow>
       (case res of Ok True \<Rightarrow> None | Ok False \<Rightarrow> Some (Ok ()) | Err e \<Rightarrow> Some (Err e) | Panic \<Rightarrow> Some Panic,
        nd', r\<lparr>rs_data := d\<rparr>, w'))"
proof -
  have "drop HEADER_SIZE (Frame_encode f) = fr_payload f"
    by (simp add: Frame_encode_def Let_def HEADER_SIZE_def be32_def)
  then have "drop HEADER_SIZE (rs_data r) = Frame_encode g @ d"
    using assms(1,2) by (simp add: Frame_encode_def Let_def be32_def HEADER_SIZE_def)
  then have "read_frame (r\<lparr>rs_data := drop HEADER_SIZE (rs_data r)\<rparr>) = (Ok (Some g), r\<lparr>rs_data := d\<rparr>)"
    using assms(3) by (simp add: read_frame_encoded)
  then show ?thesis
    using assms(4)
    by (simp add: loop_turn_def Let_def split: prod.splits result.splits bool.splits)
qed

theorem sleep_tears_frame_witness:
  "\<exists>nd' r' w'. handle_messages_inner sample_env (lit ''p'') [Idle HEADER_SIZE, Frame_ready 0 0] (sample_node (lit ''n''),
     \<lparr>rs_data = Frame_encode (Frame_new Ping (Frame_encode (Frame_new Goodbye []))), rs_error = None\<rparr>, fresh_sender) =
     (Some (Ok ()), nd', r', w')"
  using sleep_tears_frame [of "\<lparr>rs_data = Frame_encode (Frame_new Ping (Frame_encode (Frame_new Goodbye []))), rs_error = None\<rparr>"
      "Frame_new Ping (Frame_encode (Frame_new Goodbye []))" "[]" "Frame_new Goodbye []" "sample_node (lit ''n'')"
      sample_env "lit ''p''" 0 0 fresh_sender]
  by (simp add: Frame_new_def sample_node_def handle_frame_def on_goodbye_def sample_env_def sample_codec_def
      log_id_def Let_def utf8_def utf8_char_def lit_def is_char_boundary_def)

section \<open>Announcements from peers\<close>

lemma announcement_fields_sig [simp]: "announcement_fields (a\<lparr>an_sig := s\<rparr>) = announcement_fields a"
  by (simp add: announcement_fields_def)

text \<open>An unsigned announcement of a peer becomes one of this node: a store with a signing key
  signs it, as it signs its own, so what the handler stores verifies under this node's key,
  whoever sent it. A signature that is there is stored unchecked, whatever it is.\<close>

theorem peer_announcement_is_signed_here:
  assumes "redb_laws (ev_redb E) vd vt" and "serde_laws (ev_serde E)" and "crypto_laws (ev_crypto E)"
    and "st_signing_key st = Some sk"
    and "store_insert_announcement (ev_crypto E) (ev_redb E) (ev_serde E) (announcement_of m) st = ((Ok (), a), st1)"
    and "handle_announce E m st w = (r, st', w')"
  shows "\<exists>a json. c_tab (vd (st_db st')) ANNOUNCEMENTS_TABLE (am_record_id m @ [58] @ am_holder_addr m) = Some json \<and>
    ann_from_json (ev_serde E) json = Ok a \<and> announcement_fields a = announcement_fields (announcement_of m) \<and>
    (if am_sig m = [] then store_verify_announcement (ev_crypto E) (ed_verifying_key (ev_crypto E) sk) a = Ok VerifyResult_ok
     else an_sig a = am_sig m)"
proof -
  let ?a0 = "announcement_of m" and ?K = "ev_crypto E"
  have st': "st' = st1" using assms(5,6) by (auto simp: handle_announce_def split: prod.splits)
  obtain a' where sign: "sign_ann_if_unsigned ?K (st_signing_key st) ?a0 = Ok a'"
    and ins: "insert_announcement (ev_redb E) (ev_serde E) (st_db st) a' = (Ok (), st_db st1)"
    using assms(5) by (auto simp: store_insert_announcement_def split: result.splits prod.splits)
  have a': "a' = (if am_sig m = [] then ?a0\<lparr>an_sig := hex_encode (sign_announcement ?K sk (announcement_fields ?a0))\<rparr> else ?a0)"
    using sign assms(4) by (auto simp: sign_ann_if_unsigned_def announcement_of_def Let_def split: if_splits)
  have fields: "announcement_fields a' = announcement_fields ?a0"
    by (simp add: a' announcement_fields_def)
  obtain json where json: "ann_to_json (ev_serde E) a' = Ok json"
    "vd (st_db st1) = put ANNOUNCEMENTS_TABLE (an_record_id a' @ [58] @ an_holder_addr a') json (vd (st_db st))"
    using insert_announcement_Ok [OF assms(1) ins] by blast
  have "store_verify_announcement ?K (ed_verifying_key ?K sk) a' = Ok VerifyResult_ok" if "am_sig m = []"
  proof -
    have ver: "verify_announcement_sig ?K (ed_verifying_key ?K sk) (announcement_fields ?a0)
        (sign_announcement ?K sk (announcement_fields ?a0))"
      and len: "length (sign_announcement ?K sk (announcement_fields ?a0)) = 64"
      using assms(3) by (simp_all add: crypto_laws_def verify_announcement_sig_def sign_announcement_def)
    then show ?thesis
      using that by (simp add: a' store_verify_announcement_def verify_announcement_signature_def)
  qed
  moreover have "ann_from_json (ev_serde E) json = Ok a'"
    using assms(2) json(1) by (simp add: serde_laws_def)
  moreover have "an_record_id a' = am_record_id m" "an_holder_addr a' = am_holder_addr m"
    by (simp_all add: a' announcement_of_def)
  moreover have "an_sig a' = am_sig m" if "am_sig m \<noteq> []"
    using that by (simp add: a' announcement_of_def)
  ultimately show ?thesis using json(2) fields by (auto simp: st')
qed

definition short_msg :: AnnounceMsg where
  "short_msg = \<lparr>am_record_id = lit ''r'', am_source_hash = [], am_schema = [], am_tags = [],
     am_holder_addr = lit ''h'', am_expires_at = 0, am_sig = []\<rparr>"

theorem peer_announcement_is_signed_here_witness:
  "\<exists>a json st' w'. handle_announce sample_env short_msg keyed_store fresh_sender = (Ok (), st', w') \<and>
     c_tab (mem_view (st_db st')) ANNOUNCEMENTS_TABLE (lit ''r:h'') = Some json \<and> dec_ann json = Some a \<and>
     store_verify_announcement sample_crypto () a = Ok VerifyResult_ok"
proof -
  let ?m = "announcement_of short_msg"
  let ?a = "?m\<lparr>an_sig := hex_encode (sign_announcement sample_crypto () (announcement_fields ?m))\<rparr>"
  have sign: "sign_ann_if_unsigned sample_crypto (Some ()) ?m = Ok ?a"
    and len: "length (sign_announcement sample_crypto () (announcement_fields ?m)) = 64"
    using sample_crypto_laws
    by (simp_all add: sign_ann_if_unsigned_def Let_def crypto_laws_def verify_announcement_sig_def
        sign_announcement_def announcement_of_def short_msg_def)
  have "str_len (enc_ann ?a) \<le> 256"
    by (simp add: enc_ann_def enc_str_def enc_strs.simps str_len_append str_len_hex len)
      (simp add: announcement_of_def short_msg_def lit_def utf8_len_def)
  then have "fst (insert_announcement mem_redb sample_serde mem_empty ?a) = Ok ()"
    by (simp add: insert_announcement_def settle_def validate_announcement_size_def MAX_ANNOUNCEMENT_SIZE_def mem_empty_def)
  then obtain d where "insert_announcement mem_redb sample_serde mem_empty ?a = (Ok (), d)"
    by (metis prod.collapse)
  then have ins: "store_insert_announcement sample_crypto mem_redb sample_serde ?m keyed_store =
      ((Ok (), ?a), keyed_store\<lparr>st_db := d\<rparr>)"
    by (simp add: store_insert_announcement_def sign)
  have env: "ev_crypto sample_env = sample_crypto" "ev_redb sample_env = mem_redb" "ev_serde sample_env = sample_serde"
    by (simp_all add: sample_env_def)
  obtain w' where h: "handle_announce sample_env short_msg keyed_store fresh_sender = (Ok (), keyed_store\<lparr>st_db := d\<rparr>, w')"
    by (simp add: handle_announce_def env ins send_payload_def fresh_sender_def)
      (simp add: sample_env_def sample_codec_def write_frame_def Frame_new_def)
  have "redb_laws (ev_redb sample_env) mem_view mem_view" "serde_laws (ev_serde sample_env)"
    "crypto_laws (ev_crypto sample_env)"
    by (simp_all add: env mem_redb_laws sample_serde_laws sample_crypto_laws)
  from peer_announcement_is_signed_here [OF this keyed_store_simps(2) ins[folded env] h]
  show ?thesis
    using h by (auto simp: short_msg_def env lit_def sample_serde_def split: option.splits)
qed

end
