(* ===== verification/Handshake.thy ===== *)
theory Handshake
  imports Server
begin

text \<open>
  Two nodes of \<^verbatim>\<open>src/src/node/server.rs\<close> at the two ends of one stream: each reads the bytes
  the other writes. The dialling side runs \<open>connect_to_peer\<close>, the listening side
  \<open>handle_connection\<close>.
\<close>

section \<open>What each side writes first\<close>

text \<open>The bytes on a send stream only grow.\<close>

definition extends :: "sender \<Rightarrow> sender \<Rightarrow> bool" where
  "extends w w' \<longleftrightarrow> (\<exists>bs. ws_data w' = ws_data w @ bs)"

lemma extends_refl [simp]: "extends w w"
  by (simp add: extends_def)

lemma extends_trans [trans]: "extends w w1 \<Longrightarrow> extends w1 w2 \<Longrightarrow> extends w w2"
  by (auto simp: extends_def)

lemma send_payload_extends:
  "send_payload t p w = (r, w') \<Longrightarrow> extends w w'"
  using send_payload_wrote [of t p w r w'] by (auto simp: extends_def wrote_def split: if_splits)

lemma push_record_extends: "push_record E rec w = (r, w') \<Longrightarrow> extends w w'"
  by (auto simp: push_record_def dest: send_payload_extends split: result.splits)

lemma announce_records_extends:
  "announce_records E a rs w = (r, w') \<Longrightarrow> extends w w' \<and> (\<forall>e. r \<noteq> Err e)"
proof (induction rs arbitrary: w)
  case (Cons x rs)
  obtain r1 w1 where s: "send_announce E \<lparr>an_record_id = cr_id x, an_source_hash = cr_source_hash x,
      an_schema = cr_schema x, an_tags = cr_tags x, an_holder_addr = a, an_expires_at = cr_expires_at x,
      an_sig = cr_sig x\<rparr> w = (r1, w1)" by force
  then have "extends w w1" by (auto simp: send_announce_def dest: send_payload_extends)
  with Cons s show ?case by (cases r1) (auto intro: extends_trans)
qed auto

lemma push_records_extends:
  "push_records E rs w = (r, w') \<Longrightarrow> extends w w' \<and> (\<forall>e. r \<noteq> Err e)"
proof (induction rs arbitrary: w)
  case (Cons x rs)
  obtain r1 w1 where s: "push_record E x w = (r1, w1)" by force
  from push_record_extends [OF s] Cons s show ?case by (cases r1) (auto intro: extends_trans)
qed auto

lemma offer_records_extends:
  assumes "offer_records E nd w = (r, w')"
  shows "extends w w'" "r \<noteq> Err e"
proof -
  have "extends w w' \<and> (\<forall>e. r \<noteq> Err e)"
    using assms
    by (fastforce simp: offer_records_def Let_def split: option.splits prod.splits result.splits
        dest: announce_records_extends push_records_extends intro: extends_trans)
  then show "extends w w'" "r \<noteq> Err e" by auto
qed

lemma accept_ack_extends:
  assumes "accept_ack E secs addr ack nd w = (res, nd', w')"
  shows "extends w w'"
  using assms
  by (auto simp: accept_ack_def Let_def dest: send_payload_extends offer_records_extends
      split: if_splits prod.splits result.splits)

lemma connect_to_peer_first:
  assumes "connect_to_peer E (Ok ()) secs addr (nd, r, w) = (res, nd', r', w')"
    and "nd_endpoint nd" and "ws_error w = None"
    and "enc_handshake (ev_codec E) \<lparr>hs_version = PROTOCOL_VERSION, hs_node_id = nd_node_id nd,
      hs_roles = [NodeRole_as_str (nd_role nd)], hs_capabilities = []\<rparr> = Ok p"
  shows "\<exists>bs. ws_data w' = ws_data w @ Frame_encode (Frame_new Handshake p) @ bs"
proof -
  let ?w = "w\<lparr>ws_data := ws_data w @ Frame_encode (Frame_new Handshake p)\<rparr>"
  obtain x r1 where x: "read_frame r = (x, r1)" by force
  have "extends ?w w'"
    using assms x
    by (cases x) (auto simp: connect_to_peer_def send_payload_def write_frame_def dest: accept_ack_extends
        split: option.splits if_splits result.splits prod.splits)
  then show ?thesis by (auto simp: extends_def)
qed

section \<open>The two sides together\<close>

text \<open>The first frame on a stream that starts with an encoded frame.\<close>

lemma read_first:
  "length (fr_payload f) \<le> 1048576 \<Longrightarrow>
     read_frame \<lparr>rs_data = Frame_encode f @ bs, rs_error = None\<rparr> = (Ok (Some f), \<lparr>rs_data = bs, rs_error = None\<rparr>)"
  by (simp add: read_frame_encoded)

lemma log_id_any: "log_id True i = Ok () \<Longrightarrow> log_id v i = Ok ()"
  by (auto simp: log_id_def Let_def split: if_splits)

lemma abs_diff_self [simp]: "abs_diff v v = 0"
  by (simp add: abs_diff_def)

lemma handle_connection_handshake:
  assumes "read_frame r = (Ok (Some (Frame_new Handshake p)), r1)"
    and "dec_handshake (ev_codec E) p = Ok hs" and "hs_version hs = PROTOCOL_VERSION"
    and "enc_handshake_ack (ev_codec E) \<lparr>ha_version = PROTOCOL_VERSION, ha_node_id = nd_node_id nd,
      ha_roles = [NodeRole_as_str (nd_role nd)], ha_capabilities = []\<rparr> = Ok q"
    and "log_id True (hs_node_id hs) = Ok ()" and "ws_error w = None"
  shows "handle_connection E secs (Ok addr) (nd, r, w) =
    (Ok (Some (hs_node_id hs)),
     write_peers_file (add_peer \<lparr>re_node_id = hs_node_id hs, re_addr = addr, re_roles = hs_roles hs, re_last_seen = secs\<rparr> nd),
     r1, w\<lparr>ws_data := ws_data w @ Frame_encode (Frame_new HandshakeAck q)\<rparr>)"
proof -
  have "send_payload HandshakeAck (Ok q) w = (Ok (), w\<lparr>ws_data := ws_data w @ Frame_encode (Frame_new HandshakeAck q)\<rparr>)"
    using assms(6) by (simp add: send_payload_Ok)
  then show ?thesis
    using assms(1-4) log_id_any [OF assms(5)]
    by (simp add: handle_connection_def accept_handshake_def Frame_new_def)
qed

lemma connect_to_peer_ack:
  assumes "read_frame r = (Ok (Some (Frame_new HandshakeAck q)), r1)"
    and "dec_handshake_ack (ev_codec E) q = Ok ack" and "ha_version ack = PROTOCOL_VERSION"
    and "enc_handshake (ev_codec E) \<lparr>hs_version = PROTOCOL_VERSION, hs_node_id = nd_node_id nd,
      hs_roles = [NodeRole_as_str (nd_role nd)], hs_capabilities = []\<rparr> = Ok p"
    and "log_id True (ha_node_id ack) = Ok ()" and "ws_error w = None" and "nd_endpoint nd"
    and "connect_to_peer E (Ok ()) secs addr (nd, r, w) = (res, nd', r', w')"
  shows "nd' = write_peers_file (add_peer \<lparr>re_node_id = ha_node_id ack, re_addr = addr, re_roles = ha_roles ack,
      re_last_seen = secs\<rparr> nd)"
    and "res = Ok (ha_node_id ack) \<or> res = Panic"
proof -
  let ?nd = "write_peers_file (add_peer \<lparr>re_node_id = ha_node_id ack, re_addr = addr, re_roles = ha_roles ack,
      re_last_seen = secs\<rparr> nd)"
  let ?w = "w\<lparr>ws_data := ws_data w @ Frame_encode (Frame_new Handshake p)\<rparr>"
  obtain o1 w1 where o: "offer_records E ?nd ?w = (o1, w1)" by force
  have "send_payload Handshake (Ok p) w = (Ok (), ?w)"
    using assms(6) by (simp add: send_payload_Ok)
  then have c: "connect_to_peer E (Ok ()) secs addr (nd, r, w) = (rbind o1 (\<lambda>_. Ok (ha_node_id ack)), ?nd, r1, w1)"
    using assms(1-4,7) log_id_any [OF assms(5)] o
    by (simp add: connect_to_peer_def accept_ack_def Frame_new_def)
  then show "nd' = ?nd" using assms(8) by simp
  show "res = Ok (ha_node_id ack) \<or> res = Panic"
    using c assms(8) offer_records_extends(2) [OF o] by (cases o1) auto
qed

text \<open>C14: Two nodes that meet know each other. When a node dials another and each reads what the
  other writes, the listening side takes the dialling node into its routing table with the
  address it came from, its role and the time, acknowledges with its own id, and spawns a message
  loop for that id; the dialling side takes the listening node in the same way and, unless
  announcing or pushing its records panics, spawns its loop for it; both peers files list the
  table. What is left for the listening side's loop to read is what the dialling side sent after
  its handshake.\<close>

theorem handshake_introduces:
  assumes "enc_handshake (ev_codec E) \<lparr>hs_version = PROTOCOL_VERSION, hs_node_id = nd_node_id a,
      hs_roles = [NodeRole_as_str (nd_role a)], hs_capabilities = []\<rparr> = Ok p"
    and "dec_handshake (ev_codec E) p = Ok \<lparr>hs_version = PROTOCOL_VERSION, hs_node_id = nd_node_id a,
      hs_roles = [NodeRole_as_str (nd_role a)], hs_capabilities = []\<rparr>"
    and "enc_handshake_ack (ev_codec E) \<lparr>ha_version = PROTOCOL_VERSION, ha_node_id = nd_node_id b,
      ha_roles = [NodeRole_as_str (nd_role b)], ha_capabilities = []\<rparr> = Ok q"
    and "dec_handshake_ack (ev_codec E) q = Ok \<lparr>ha_version = PROTOCOL_VERSION, ha_node_id = nd_node_id b,
      ha_roles = [NodeRole_as_str (nd_role b)], ha_capabilities = []\<rparr>"
    and "length p \<le> 1048576" and "length q \<le> 1048576"
    and "log_id True (nd_node_id a) = Ok ()" and "log_id True (nd_node_id b) = Ok ()"
    and "nd_endpoint a" and "rt_wf (nd_routing_table a)" and "rt_wf (nd_routing_table b)"
    and "connect_to_peer E (Ok ()) ta addr_b (a, \<lparr>rs_data = ws_data wb, rs_error = None\<rparr>, fresh_sender) = (ra, a', r1, wa)"
    and "handle_connection E tb (Ok addr_a) (b, \<lparr>rs_data = ws_data wa, rs_error = None\<rparr>, fresh_sender) = (rb, b', r2, wb)"
  shows "rb = Ok (Some (nd_node_id a)) \<and> (ra = Ok (nd_node_id b) \<or> ra = Panic) \<and>
    rt_map (nd_routing_table b') = (rt_map (nd_routing_table b))(nd_node_id a \<mapsto>
      \<lparr>re_node_id = nd_node_id a, re_addr = addr_a, re_roles = [NodeRole_as_str (nd_role a)], re_last_seen = tb\<rparr>) \<and>
    rt_map (nd_routing_table a') = (rt_map (nd_routing_table a))(nd_node_id b \<mapsto>
      \<lparr>re_node_id = nd_node_id b, re_addr = addr_b, re_roles = [NodeRole_as_str (nd_role b)], re_last_seen = ta\<rparr>) \<and>
    nd_peers_file a' = rt_list (nd_routing_table a') \<and> nd_peers_file b' = rt_list (nd_routing_table b') \<and>
    ws_data wa = Frame_encode (Frame_new Handshake p) @ rs_data r2 \<and>
    ws_data wb = Frame_encode (Frame_new HandshakeAck q)"
proof -
  have fresh: "ws_error fresh_sender = None" "ws_data fresh_sender = []" by (simp_all add: fresh_sender_def)
  obtain bs where wa: "ws_data wa = Frame_encode (Frame_new Handshake p) @ bs"
    using connect_to_peer_first [OF assms(12,9) fresh(1) assms(1)] by (auto simp: fresh)
  have "read_frame \<lparr>rs_data = ws_data wa, rs_error = None\<rparr> = (Ok (Some (Frame_new Handshake p)), \<lparr>rs_data = bs, rs_error = None\<rparr>)"
    using assms(5) by (simp add: wa read_first Frame_new_def)
  from handle_connection_handshake [OF this assms(2) _ assms(3) _ fresh(1), of tb addr_a] assms(7,13)
  have b: "rb = Ok (Some (nd_node_id a))" "r2 = \<lparr>rs_data = bs, rs_error = None\<rparr>"
    "b' = write_peers_file (add_peer \<lparr>re_node_id = nd_node_id a, re_addr = addr_a,
       re_roles = [NodeRole_as_str (nd_role a)], re_last_seen = tb\<rparr> b)"
    "ws_data wb = Frame_encode (Frame_new HandshakeAck q)"
    by (auto simp: fresh)
  have "read_frame \<lparr>rs_data = ws_data wb, rs_error = None\<rparr> = (Ok (Some (Frame_new HandshakeAck q)), \<lparr>rs_data = [], rs_error = None\<rparr>)"
    using assms(6) read_first [of "Frame_new HandshakeAck q" "[]"] by (simp add: b(4) Frame_new_def)
  from connect_to_peer_ack [OF this assms(4) _ assms(1) _ fresh(1) assms(9,12)] assms(8)
  have a: "ra = Ok (nd_node_id b) \<or> ra = Panic"
    "a' = write_peers_file (add_peer \<lparr>re_node_id = nd_node_id b, re_addr = addr_b,
       re_roles = [NodeRole_as_str (nd_role b)], re_last_seen = ta\<rparr> a)"
    by simp_all
  show ?thesis
    using a(1) wa b(1,2,4)
    by (simp add: a(2) b(3) write_peers_file_def add_peer_def rt_insert_spec [OF assms(10)] rt_insert_spec [OF assms(11)])
qed

theorem handshake_introduces_witness:
  "\<exists>a' b' r1 r2 wa wb. connect_to_peer sample_env (Ok ()) 1 (lit ''10.0.0.2:7744'')
       (sample_node (lit ''a''), \<lparr>rs_data = ws_data wb, rs_error = None\<rparr>, fresh_sender) = (Ok (lit ''b''), a', r1, wa) \<and>
     handle_connection sample_env 2 (Ok (lit ''10.0.0.1:7744''))
       (sample_node (lit ''b''), \<lparr>rs_data = ws_data wa, rs_error = None\<rparr>, fresh_sender) = (Ok (Some (lit ''a'')), b', r2, wb) \<and>
     nd_peers_file b' = rt_list (nd_routing_table b') \<and> map re_node_id (rt_list (nd_routing_table b')) = [lit ''a''] \<and>
     lit ''b'' \<in> dom (rt_map (nd_routing_table a'))"
proof -
  let ?a = "sample_node (lit ''a'') :: (mem_db, unit) Node" and ?b = "sample_node (lit ''b'') :: (mem_db, unit) Node"
  define wa where "wa = \<lparr>ws_data = Frame_encode (Frame_new Handshake [97]), ws_error = None\<rparr>"
  define wb where "wb = \<lparr>ws_data = Frame_encode (Frame_new HandshakeAck [98]), ws_error = None\<rparr>"
  have nodes: "nd_node_id (sample_node i) = i" "nd_role (sample_node i) = Full" "nd_endpoint (sample_node i)"
    "nd_store (sample_node i) = None" "nd_routing_table (sample_node i) = RoutingTable_new" for i
    by (simp_all add: sample_node_def Node_new_def with_max_connections_def)
  have quiet: "log_id v (lit ''a'') = Ok ()" "log_id v (lit ''b'') = Ok ()" for v
    by (simp_all add: log_id_def lit_def is_char_boundary_def utf8_def utf8_char_def)
  have codec: "enc_handshake (ev_codec sample_env) \<lparr>hs_version = PROTOCOL_VERSION, hs_node_id = lit ''a'',
      hs_roles = [NodeRole_as_str Full], hs_capabilities = []\<rparr> = Ok [97]"
    "dec_handshake (ev_codec sample_env) [97] = Ok \<lparr>hs_version = PROTOCOL_VERSION, hs_node_id = lit ''a'',
      hs_roles = [NodeRole_as_str Full], hs_capabilities = []\<rparr>"
    "enc_handshake_ack (ev_codec sample_env) \<lparr>ha_version = PROTOCOL_VERSION, ha_node_id = lit ''b'',
      ha_roles = [NodeRole_as_str Full], ha_capabilities = []\<rparr> = Ok [98]"
    "dec_handshake_ack (ev_codec sample_env) [98] = Ok \<lparr>ha_version = PROTOCOL_VERSION, ha_node_id = lit ''b'',
      ha_roles = [NodeRole_as_str Full], ha_capabilities = []\<rparr>"
    by (simp_all add: sample_env_def sample_codec_def PROTOCOL_VERSION_def lit_def utf8_def utf8_char_def)
  have rd: "read_frame \<lparr>rs_data = ws_data wa, rs_error = None\<rparr> = (Ok (Some (Frame_new Handshake [97])), \<lparr>rs_data = [], rs_error = None\<rparr>)"
    "read_frame \<lparr>rs_data = ws_data wb, rs_error = None\<rparr> = (Ok (Some (Frame_new HandshakeAck [98])), \<lparr>rs_data = [], rs_error = None\<rparr>)"
    using read_first [of _ "[]"] by (simp_all add: wa_def wb_def Frame_new_def)
  obtain a' r1 where c: "connect_to_peer sample_env (Ok ()) 1 (lit ''10.0.0.2:7744'')
      (?a, \<lparr>rs_data = ws_data wb, rs_error = None\<rparr>, fresh_sender) = (Ok (lit ''b''), a', r1, wa)"
    using codec
    by (simp add: connect_to_peer_def rd(2) nodes send_payload_def write_frame_def fresh_sender_def quiet accept_ack_def
        offer_records_def write_peers_file_def add_peer_def Frame_new_def wa_def)
  obtain rb b' r2 w2 where d: "handle_connection sample_env 2 (Ok (lit ''10.0.0.1:7744''))
      (?b, \<lparr>rs_data = ws_data wa, rs_error = None\<rparr>, fresh_sender) = (rb, b', r2, w2)"
    by (metis prod.collapse)
  have w2: "w2 = wb"
    using d handle_connection_handshake [OF rd(1) codec(2), of ?b "[98]" fresh_sender] codec(3)
    by (simp add: nodes quiet fresh_sender_def wb_def)
  have wf: "rt_wf RoutingTable_new" by (simp add: RoutingTable_new_def rt_wf_def)
  from handshake_introduces [where E = sample_env and a = ?a and b = ?b and p = "[97]" and q = "[98]",
      OF _ _ _ _ _ _ _ _ _ _ _ c d[unfolded w2]]
  have "rb = Ok (Some (lit ''a''))" "nd_peers_file b' = rt_list (nd_routing_table b')"
    "rt_map (nd_routing_table b') = (rt_map RoutingTable_new)(lit ''a'' \<mapsto>
      \<lparr>re_node_id = lit ''a'', re_addr = lit ''10.0.0.1:7744'', re_roles = [NodeRole_as_str Full], re_last_seen = 2\<rparr>)"
    "lit ''b'' \<in> dom (rt_map (nd_routing_table a'))"
    using codec by (simp_all add: nodes quiet wf)
  moreover have "map re_node_id (rt_list (nd_routing_table b')) = [lit ''a'']"
    using d handle_connection_handshake [OF rd(1) codec(2), of ?b "[98]" fresh_sender 2 "lit ''10.0.0.1:7744''"] codec(3)
    by (auto simp: nodes quiet fresh_sender_def write_peers_file_def add_peer_def rt_insert_def RoutingTable_new_def rt_list_def)
  ultimately show ?thesis
    using c d [unfolded w2]
    by (intro exI [of _ a'] exI [of _ b'] exI [of _ r1] exI [of _ r2] exI [of _ wa] exI [of _ wb]) simp
qed

end
