(* ===== verification/Packet.thy ===== *)
theory Packet
  imports Bytes
begin

text \<open>
  Datagrams: reading at a position, where an index past the end is a panic, and the system
  calls on a UDP socket, which are parameters. The STUN client and the DNS resolver use both.
\<close>

section \<open>Reading\<close>

text \<open>\<^verbatim>\<open>data[i]\<close>.\<close>

definition at :: "bytes \<Rightarrow> nat \<Rightarrow> (u8, ustr) result" where
  "at data i = (if i < length data then Ok (data ! i) else Panic)"

definition u16_at :: "bytes \<Rightarrow> nat \<Rightarrow> (u16, ustr) result" where
  "u16_at data i = rbind (at data i) (\<lambda>a. rbind (at data (i + 1)) (\<lambda>b. Ok (from_be16 a b)))"

definition slice_at :: "bytes \<Rightarrow> nat \<Rightarrow> nat \<Rightarrow> (bytes, ustr) result" where
  "slice_at data i n = (if i + n \<le> length data then Ok (take n (drop i data)) else Panic)"

lemma at_ok: "i < length data \<Longrightarrow> at data i = Ok (data ! i)"
  by (simp add: at_def)

lemma u16_at_ok: "i + 1 < length data \<Longrightarrow> u16_at data i = Ok (from_be16 (data ! i) (data ! (i + 1)))"
  by (simp add: u16_at_def at_ok)

lemma slice_at_ok: "i + n \<le> length data \<Longrightarrow> slice_at data i n = Ok (take n (drop i data))"
  by (simp add: slice_at_def)

lemma u16_at_be16: "u16_at (pre @ be16 w @ post) (length pre) = Ok w"
  by (simp add: u16_at_def at_def be16_def nth_append from_be16_be16)

lemma u16_at_prefix: "length pre = n \<Longrightarrow> u16_at (pre @ be16 w @ post) n = Ok w"
  using u16_at_be16 by blast

section \<open>Sockets\<close>

text \<open>The system calls: binding a socket, its timeout, sending a request to a server, and the
  datagram received after that.\<close>

record udp =
  ud_bind :: "(unit, ustr) result"
  ud_set_timeout :: "(unit, ustr) result"
  ud_send :: "ustr \<Rightarrow> bytes \<Rightarrow> (unit, ustr) result"
  ud_recv :: "ustr \<Rightarrow> bytes \<Rightarrow> (bytes, ustr) result"

end
