(* ===== verification/Stun.thy ===== *)
theory Stun
  imports Packet
begin

text \<open>
  \<^verbatim>\<open>src/src/node/stun.rs\<close> and \<^verbatim>\<open>src/src/node/autonat.rs\<close>: the STUN client that asks a server
  for this node's public address, and the probe that tries five servers. The operating system's
  UDP calls are the parameter \<open>udp\<close>; the reply is read out of a buffer of 576 bytes, where an
  index past the end is a panic.
\<close>

section \<open>Addresses as text\<close>

text \<open>\<^verbatim>\<open>Display\<close> of \<^verbatim>\<open>Ipv4Addr\<close> and \<^verbatim>\<open>Ipv6Addr\<close>; the latter writes the longest run of at least
  two zero groups, the first of equal ones, as two colons.\<close>

definition ipv4_str :: "bytes \<Rightarrow> ustr" where
  "ipv4_str bs = join [46] (map (to_dec \<circ> unat) bs)"

definition hex_group :: "u16 \<Rightarrow> ustr" where
  "hex_group w = (let s = dropWhile (\<lambda>c. c = 48) (hex_encode (be16 w)) in if s = [] then [48] else s)"

fun segments :: "bytes \<Rightarrow> u16 list" where
  "segments (a # b # bs) = from_be16 a b # segments bs"
| "segments bs = []"

fun zero_span :: "nat \<Rightarrow> nat \<times> nat \<Rightarrow> nat \<times> nat \<Rightarrow> u16 list \<Rightarrow> nat \<times> nat" where
  "zero_span i longest current [] = longest"
| "zero_span i longest current (s # ss) =
     (if s = 0 then
        let current = (if snd current = 0 then i else fst current, snd current + 1)
        in zero_span (i + 1) (if snd longest < snd current then current else longest) current ss
      else zero_span (i + 1) longest (0, 0) ss)"

definition ipv6_str :: "bytes \<Rightarrow> ustr" where
  "ipv6_str bs =
     (let ss = segments bs; fmt = (\<lambda>ss. join [58] (map hex_group ss))
      in if take 6 ss = [0, 0, 0, 0, 0, 0xFFFF] then lit ''::ffff:'' @ ipv4_str (drop 12 bs)
         else case zero_span 0 (0, 0) (0, 0) ss of (start, len) \<Rightarrow>
           if 1 < len then fmt (take start ss) @ [58, 58] @ fmt (drop (start + len) ss) else fmt ss)"

section \<open>The request\<close>

text \<open>The last four bytes of a transaction id come from the clock by a linear congruence.\<close>

fun id_tail :: "nat \<Rightarrow> u64 \<Rightarrow> bytes" where
  "id_tail 0 h = []"
| "id_tail (Suc n) h = (let h = h * 6364136223846793005 + 1 in ucast (drop_bit 33 h) # id_tail n h)"

definition rand_transaction_id :: "nat \<Rightarrow> bytes" where
  "rand_transaction_id as_nanos = (let nanos = of_nat as_nanos :: u64 in le64 nanos @ id_tail 4 nanos)"

definition stun_request :: "bytes \<Rightarrow> bytes" where
  "stun_request txn_id = [0x00, 0x01, 0x00, 0x00, 0x21, 0x12, 0xA4, 0x42] @ txn_id"

section \<open>The reply\<close>

text \<open>What an attribute gives: an address, an error, or nothing.\<close>

definition xor_mapped_address :: "bytes \<Rightarrow> bytes \<Rightarrow> nat \<Rightarrow> nat \<Rightarrow> (ustr option, ustr) result" where
  "xor_mapped_address txn_id response start attr_len =
     (if attr_len < 4 then Err (lit ''XOR-MAPPED-ADDRESS too short'')
      else
        rbind (at response start) (\<lambda>b.
        rbind (u16_at response (start + 2)) (\<lambda>p.
        let family = b XOR 0x21; xport = p XOR 0x2112
        in if family = 0x01 then
             if attr_len < 8 then Err (lit ''XOR-MAPPED-ADDRESS IPv4 too short'')
             else rbind (slice_at response (start + 4) 4) (\<lambda>xip.
               Ok (Some (ipv4_str (map2 (XOR) xip [0x21, 0x12, 0xA4, 0x42]) @ lit '':'' @ to_dec (unat xport))))
           else if family = 0x02 then
             if attr_len < 20 then Err (lit ''XOR-MAPPED-ADDRESS IPv6 too short'')
             else rbind (slice_at response (start + 4) 16) (\<lambda>xip.
               Ok (Some (lit ''['' @ ipv6_str (map2 (XOR) xip ([0x21, 0x12, 0xA4, 0x42] @ txn_id)) @ lit '']:'' @
                 to_dec (unat xport))))
           else Err (lit ''unknown address family: '' @ to_dec (unat family)))))"

definition mapped_address :: "bytes \<Rightarrow> nat \<Rightarrow> nat \<Rightarrow> (ustr option, ustr) result" where
  "mapped_address response start attr_len =
     (if attr_len < 4 then Err (lit ''MAPPED-ADDRESS too short'')
      else
        rbind (at response start) (\<lambda>family.
        rbind (u16_at response (start + 2)) (\<lambda>port.
          if family = 0x01 then
            if attr_len < 8 then Err (lit ''MAPPED-ADDRESS IPv4 too short'')
            else rbind (slice_at response (start + 4) 4) (\<lambda>ip.
              Ok (Some (ipv4_str ip @ lit '':'' @ to_dec (unat port))))
          else Ok None)))"

definition stun_attr :: "bytes \<Rightarrow> bytes \<Rightarrow> u16 \<Rightarrow> nat \<Rightarrow> nat \<Rightarrow> (ustr option, ustr) result" where
  "stun_attr txn_id response attr_type start attr_len =
     (if attr_type = 0x0020 then xor_mapped_address txn_id response start attr_len
      else if attr_type = 0x0001 then mapped_address response start attr_len
      else Ok None)"

text \<open>\<^verbatim>\<open>(attr_len + 3) & !3\<close>.\<close>

definition padded_len :: "nat \<Rightarrow> nat" where
  "padded_len attr_len = (attr_len + 3) div 4 * 4"

text \<open>The attribute loop; \<open>Ok None\<close> when it ends without an address.\<close>

function stun_attrs :: "bytes \<Rightarrow> bytes \<Rightarrow> nat \<Rightarrow> nat \<Rightarrow> (ustr option, ustr) result" where
  "stun_attrs txn_id response attr_end offset =
     (if offset + 4 \<le> attr_end then
        rbind (u16_at response offset) (\<lambda>attr_type.
        rbind (u16_at response (offset + 2)) (\<lambda>len.
        let attr_len = unat len; attr_data_start = offset + 4
        in if attr_end < attr_data_start + attr_len then Ok None
           else
             rbind (stun_attr txn_id response attr_type attr_data_start attr_len) (\<lambda>found. case found of
               Some a \<Rightarrow> Ok (Some a)
             | None \<Rightarrow> stun_attrs txn_id response attr_end (attr_data_start + padded_len attr_len))))
      else Ok None)"
  by pat_completeness auto
termination
  by (relation "measure (\<lambda>(txn_id, response, attr_end, offset). attr_end - offset)") auto

declare stun_attrs.simps [simp del]

text \<open>The checks on the first \<open>n\<close> bytes of the buffer, then the loop.\<close>

definition stun_parse :: "bytes \<Rightarrow> bytes \<Rightarrow> nat \<Rightarrow> (ustr, ustr) result" where
  "stun_parse txn_id response n =
     (if n < 20 then Err (lit ''STUN response too short'')
      else
        rbind (u16_at response 0) (\<lambda>msg_type.
        if msg_type \<noteq> 0x0101 then Err (lit ''unexpected STUN message type: 0x'' @ hex_encode (be16 msg_type))
        else rbind (slice_at response 8 12) (\<lambda>id.
        if id \<noteq> txn_id then Err (lit ''transaction ID mismatch'')
        else rbind (u16_at response 2) (\<lambda>len.
        let attr_end = 20 + unat len
        in if n < attr_end then Err (lit ''STUN response truncated'')
           else rbind (stun_attrs txn_id response attr_end 20) (\<lambda>found. case found of
             Some a \<Rightarrow> Ok a
           | None \<Rightarrow> Err (lit ''no MAPPED-ADDRESS or XOR-MAPPED-ADDRESS found in STUN response''))))))"

section \<open>The client and the probe\<close>

definition BUFFER :: nat where "BUFFER = 576"

definition stun_bind :: "udp \<Rightarrow> nat \<Rightarrow> ustr \<Rightarrow> (ustr, ustr) result" where
  "stun_bind U nanos stun_addr =
     rbind (map_err (\<lambda>e. lit ''bind UDP socket: '' @ e) (ud_bind U)) (\<lambda>_.
     rbind (map_err (\<lambda>e. lit ''set read timeout: '' @ e) (ud_set_timeout U)) (\<lambda>_.
     let txn_id = rand_transaction_id nanos; request = stun_request txn_id
     in rbind (map_err (\<lambda>e. lit ''send to STUN server: '' @ e) (ud_send U stun_addr request)) (\<lambda>_.
        rbind (map_err (\<lambda>e. lit ''recv from STUN server: '' @ e) (ud_recv U stun_addr request)) (\<lambda>datagram.
        let n = min BUFFER (length datagram)
        in stun_parse txn_id (take BUFFER datagram @ replicate (BUFFER - n) 0) n))))"

definition default_stun_servers :: "ustr list" where
  "default_stun_servers = [lit ''stun.l.google.com:19302'', lit ''stun1.l.google.com:19302'',
     lit ''stun2.l.google.com:19302'', lit ''stun3.l.google.com:19302'', lit ''stun4.l.google.com:19302'']"

record AutoNATResult =
  na_is_public :: bool
  na_public_addr :: "ustr option"
  na_reason :: ustr

text \<open>The first server with an address; errors are skipped.\<close>

fun first_address :: "udp \<Rightarrow> (ustr \<Rightarrow> nat) \<Rightarrow> ustr list \<Rightarrow> (ustr option, ustr) result" where
  "first_address U nanos [] = Ok None"
| "first_address U nanos (s # ss) = (case stun_bind U (nanos s) s of
     Ok a \<Rightarrow> Ok (Some a) | Err _ \<Rightarrow> first_address U nanos ss | Panic \<Rightarrow> Panic)"

definition probe :: "udp \<Rightarrow> (ustr \<Rightarrow> nat) \<Rightarrow> bool \<Rightarrow> u16 \<Rightarrow> (AutoNATResult, ustr) result" where
  "probe U nanos can_bind quic_port =
     (if \<not> can_bind then
        Ok \<lparr>na_is_public = False, na_public_addr = None,
            na_reason = lit ''Cannot bind UDP port '' @ to_dec (unat quic_port) @ [32, 0x2014, 32] @
              lit ''another process is using it''\<rparr>
      else rbind (first_address U nanos default_stun_servers) (\<lambda>public_addr. case public_addr of
        Some a \<Rightarrow> Ok \<lparr>na_is_public = True, na_public_addr = Some a,
          na_reason = lit ''STUN reports public address '' @ a\<rparr>
      | None \<Rightarrow> Ok \<lparr>na_is_public = False, na_public_addr = None,
          na_reason = lit ''STUN probe failed'' @ [32, 0x2014, 32] @
            lit ''node is likely behind NAT without port forwarding''\<rparr>))"

section \<open>No reply makes the client panic\<close>

lemma stun_attr_no_panic:
  "start + attr_len \<le> length response \<Longrightarrow> stun_attr txn_id response ty start attr_len \<noteq> Panic"
  by (auto simp: stun_attr_def xor_mapped_address_def mapped_address_def Let_def res_simps at_ok u16_at_ok slice_at_ok)

lemma stun_attrs_no_panic:
  "attr_end \<le> length response \<Longrightarrow> stun_attrs txn_id response attr_end offset \<noteq> Panic"
proof (induction txn_id response attr_end offset rule: stun_attrs.induct)
  case (1 txn_id response attr_end offset)
  then show ?case
    by (subst stun_attrs.simps)
      (auto simp: res_simps Let_def u16_at_ok stun_attr_no_panic split: option.splits)
qed

lemma stun_parse_no_panic:
  "n \<le> length response \<Longrightarrow> stun_parse txn_id response n \<noteq> Panic"
  by (auto simp: stun_parse_def Let_def res_simps u16_at_ok slice_at_ok stun_attrs_no_panic split: option.splits)

lemma stun_bind_total:
  assumes "ud_bind U \<noteq> Panic" and "ud_set_timeout U \<noteq> Panic"
    and "\<forall>req. ud_send U addr req \<noteq> Panic" and "\<forall>req. ud_recv U addr (stun_request req) \<noteq> Panic"
  shows "stun_bind U nanos addr \<noteq> Panic"
proof -
  have "stun_parse t (take BUFFER d @ replicate (BUFFER - min BUFFER (length d)) 0) (min BUFFER (length d)) \<noteq> Panic" for t d
    by (rule stun_parse_no_panic) simp
  with assms show ?thesis by (simp add: stun_bind_def res_simps Let_def)
qed

text \<open>The STUN client is total on whatever the network sends: the attribute loop ends, every index
  it reads is inside the reply, and a datagram of any bytes and any length gives an address or an
  error, never a panic, unless a system call itself panics.\<close>

theorem stun_bind_no_panic:
  assumes "ud_bind U \<noteq> Panic" and "ud_set_timeout U \<noteq> Panic"
    and "\<forall>req. ud_send U addr req \<noteq> Panic" and "\<forall>req. ud_recv U addr req \<noteq> Panic"
  shows "\<exists>r. stun_bind U nanos addr = Ok r \<or> stun_bind U nanos addr = Err r"
  using stun_bind_total [of U addr nanos] assms by (cases "stun_bind U nanos addr") auto

section \<open>Replies by the standard\<close>

text \<open>An attribute and a binding response as RFC 5389 lays them out.\<close>

definition rfc_attr :: "u16 \<times> bytes \<Rightarrow> bytes" where
  "rfc_attr = (\<lambda>(ty, v). be16 ty @ be16 (of_nat (length v)) @ v @ replicate (padded_len (length v) - length v) 0)"

definition rfc_response :: "bytes \<Rightarrow> (u16 \<times> bytes) list \<Rightarrow> bytes" where
  "rfc_response txn_id attrs = (let body = concat (map rfc_attr attrs)
     in be16 0x0101 @ be16 (of_nat (length body)) @ [0x21, 0x12, 0xA4, 0x42] @ txn_id @ body)"

text \<open>An address attribute starts with a byte of zeros; the family is the byte after it.\<close>

definition rfc_address :: "u16 \<times> bytes \<Rightarrow> bool" where
  "rfc_address = (\<lambda>(ty, v). length v < 65536 \<and> (ty \<in> {0x0001, 0x0020} \<longrightarrow> v \<noteq> [] \<and> hd v = 0))"

lemma padded_len_ge: "n \<le> padded_len n"
  by (simp add: padded_len_def)

lemma length_rfc_attr [simp]: "length (rfc_attr (ty, v)) = 4 + padded_len (length v)"
  using padded_len_ge [of "length v"] by (simp add: rfc_attr_def be16_def)

text \<open>The loop at the start of an attribute.\<close>

lemma stun_attrs_attr:
  assumes "length v < 65536" and "attr_end = length pre + length (rfc_attr (ty, v)) + k"
  shows "stun_attrs txn_id (pre @ rfc_attr (ty, v) @ post) attr_end (length pre) =
    rbind (stun_attr txn_id (pre @ rfc_attr (ty, v) @ post) ty (length pre + 4) (length v)) (\<lambda>found. case found of
      Some a \<Rightarrow> Ok (Some a)
    | None \<Rightarrow> stun_attrs txn_id (pre @ rfc_attr (ty, v) @ post) attr_end (length pre + length (rfc_attr (ty, v))))"
proof -
  let ?r = "pre @ rfc_attr (ty, v) @ post"
  have ty: "u16_at ?r (length pre) = Ok ty"
    using u16_at_be16 [of pre ty "be16 (of_nat (length v)) @ v @ replicate (padded_len (length v) - length v) 0 @ post"]
    by (simp add: rfc_attr_def)
  have len: "u16_at ?r (length pre + 2) = Ok (of_nat (length v))"
    using u16_at_be16 [of "pre @ be16 ty" "of_nat (length v)" "v @ replicate (padded_len (length v) - length v) 0 @ post"]
    by (simp add: rfc_attr_def be16_def)
  have "unat (of_nat (length v) :: u16) = length v"
    using assms(1) by (simp add: unsigned_of_nat take_bit_nat_eq_self_iff)
  then show ?thesis
    using assms(2) padded_len_ge [of "length v"] len
    by (subst stun_attrs.simps) (simp add: ty Let_def add.assoc)
qed

lemma stun_attr_rfc:
  assumes "rfc_address (ty, v)" and "stun_attr txn_id (pre @ rfc_attr (ty, v) @ post) ty (length pre + 4) (length v) = Ok r"
  shows "r = None"
proof (cases "ty = 0x0020 \<or> ty = 0x0001")
  case True
  with assms(1) obtain t where v: "v = 0 # t" by (cases v) (auto simp: rfc_address_def)
  have "at (pre @ rfc_attr (ty, v) @ post) (length pre + 4) = Ok 0"
    by (simp add: at_def rfc_attr_def be16_def nth_append v)
  with assms(2) True show ?thesis
    by (auto simp: stun_attr_def xor_mapped_address_def mapped_address_def Let_def res_simps split: if_splits)
qed (use assms(2) in \<open>simp add: stun_attr_def\<close>)

lemma stun_attrs_rfc:
  assumes "\<forall>a \<in> set attrs. rfc_address a" and "attr_end = length pre + length (concat (map rfc_attr attrs))"
    and "stun_attrs txn_id (pre @ concat (map rfc_attr attrs) @ post) attr_end (length pre) = Ok r"
  shows "r = None"
  using assms
proof (induction attrs arbitrary: pre)
  case Nil
  then show ?case by (simp add: stun_attrs.simps)
next
  case (Cons a attrs)
  obtain ty v where a: "a = (ty, v)" by force
  let ?rest = "concat (map rfc_attr attrs)"
  have ok: "rfc_address (ty, v)" and len: "length v < 65536" using Cons.prems(1) by (simp_all add: a rfc_address_def)
  have "attr_end = length pre + length (rfc_attr (ty, v)) + length ?rest"
    using Cons.prems(2) by (simp add: a)
  from stun_attrs_attr [OF len this, of txn_id "?rest @ post"] Cons.prems(3)
  have "rbind (stun_attr txn_id (pre @ rfc_attr (ty, v) @ ?rest @ post) ty (length pre + 4) (length v)) (\<lambda>found. case found of
      Some a \<Rightarrow> Ok (Some a)
    | None \<Rightarrow> stun_attrs txn_id (pre @ rfc_attr (ty, v) @ ?rest @ post) attr_end (length pre + length (rfc_attr (ty, v)))) = Ok r"
    by (simp only: a list.map concat.simps append_assoc)
  then obtain f where f: "stun_attr txn_id (pre @ rfc_attr (ty, v) @ ?rest @ post) ty (length pre + 4) (length v) = Ok f"
    and step: "(case f of Some a \<Rightarrow> Ok (Some a) | None \<Rightarrow>
      stun_attrs txn_id (pre @ rfc_attr (ty, v) @ ?rest @ post) attr_end (length pre + length (rfc_attr (ty, v)))) = Ok r"
    unfolding rbind_Ok_iff by blast
  have "f = None" by (rule stun_attr_rfc [OF ok f])
  with step have "stun_attrs txn_id ((pre @ rfc_attr (ty, v)) @ ?rest @ post) attr_end (length (pre @ rfc_attr (ty, v))) = Ok r"
    by (simp only: option.case append_assoc length_append)
  from Cons.IH [OF _ _ this] Cons.prems(1,2) show ?case by (simp add: a)
qed

lemma length_id_tail [simp]: "length (id_tail n h) = n"
  by (induction n arbitrary: h) (simp_all add: Let_def)

lemma length_rand_transaction_id [simp]: "length (rand_transaction_id nanos) = 12"
  by (simp add: rand_transaction_id_def Let_def le64_def)

lemma stun_parse_OkD:
  "stun_parse txn_id response n = Ok r \<Longrightarrow>
     \<exists>len. u16_at response 2 = Ok len \<and> stun_attrs txn_id response (20 + unat len) 20 = Ok (Some r)"
  by (auto simp: stun_parse_def res_simps Let_def split: if_splits option.splits)

lemma stun_parse_rfc:
  assumes attrs: "\<forall>a \<in> set attrs. rfc_address a" and txn: "length txn_id = 12"
    and ok: "stun_parse txn_id (rfc_response txn_id attrs @ post) n = Ok r"
    and small: "length (concat (map rfc_attr attrs)) < 65536"
  shows False
proof -
  define body where "body = concat (map rfc_attr attrs)"
  define head where "head = be16 0x0101 @ be16 (of_nat (length body)) @ [0x21, 0x12, 0xA4, 0x42] @ txn_id"
  have r: "rfc_response txn_id attrs @ post = head @ body @ post"
    by (simp add: rfc_response_def Let_def head_def body_def)
  have head: "length head = 20" using txn by (simp add: head_def be16_def)
  have "u16_at (head @ body @ post) 2 = Ok (of_nat (length body))"
    using u16_at_prefix [of "be16 0x0101" 2 "of_nat (length body)" "[0x21, 0x12, 0xA4, 0x42] @ txn_id @ body @ post"]
    by (simp add: head_def) (simp add: be16_def)
  moreover obtain len where "u16_at (head @ body @ post) 2 = Ok len"
    "stun_attrs txn_id (head @ body @ post) (20 + unat len) 20 = Ok (Some r)"
    using stun_parse_OkD [OF ok] unfolding r by blast
  moreover have "unat (of_nat (length body) :: u16) = length body"
    using small by (simp add: body_def unsigned_of_nat take_bit_nat_eq_self_iff)
  ultimately have "stun_attrs txn_id (head @ body @ post) (length head + length body) (length head) = Ok (Some r)"
    by (simp add: head)
  with stun_attrs_rfc [OF attrs refl, of txn_id head post "Some r"] show False by (simp add: body_def)
qed

lemma length_rfc_response: "length txn_id = 12 \<Longrightarrow>
    length (rfc_response txn_id attrs) = 20 + length (concat (map rfc_attr attrs))"
  by (simp add: rfc_response_def Let_def be16_def)

lemma stun_bind_rfc:
  assumes "\<forall>a \<in> set attrs. rfc_address a" and "length (rfc_response (rand_transaction_id nanos) attrs) \<le> BUFFER"
    and "ud_recv U addr (stun_request (rand_transaction_id nanos)) = Ok (rfc_response (rand_transaction_id nanos) attrs)"
  shows "stun_bind U nanos addr \<noteq> Ok a"
proof
  let ?txn = "rand_transaction_id nanos"
  assume "stun_bind U nanos addr = Ok a"
  then have "stun_parse ?txn (rfc_response ?txn attrs @ replicate (BUFFER - length (rfc_response ?txn attrs)) 0)
      (length (rfc_response ?txn attrs)) = Ok a"
    using assms(2,3) by (simp add: stun_bind_def res_simps Let_def min_absorb2)
  from stun_parse_rfc [OF assms(1) _ this] assms(2) show False
    by (simp add: length_rfc_response BUFFER_def)
qed

lemma first_address_None:
  "\<forall>s \<in> set ss. \<exists>e. stun_bind U (nanos s) s = Err e \<Longrightarrow> first_address U nanos ss = Ok None"
  by (induction ss) auto

text \<open>C21: A node is never found to be public by servers that follow RFC 5389. An address attribute of
  the standard starts with a zero byte and names the family in the byte after it; the client reads
  the family out of the first byte, and in the XOR form takes it for masked. So whatever
  attributes the five servers put in their replies, each reply is an error, and the probe
  reports a node that can bind its port as not public, without an address.\<close>

theorem probe_never_public:
  assumes "ud_bind U = Ok ()" and "ud_set_timeout U = Ok ()" and "\<forall>s req. ud_send U s req = Ok ()"
    and "\<forall>s \<in> set default_stun_servers. \<forall>a \<in> set (attrs s). rfc_address a"
    and "\<forall>s \<in> set default_stun_servers. \<forall>txn. length txn = 12 \<longrightarrow> length (rfc_response txn (attrs s)) \<le> 576"
    and "\<forall>s \<in> set default_stun_servers. \<forall>txn. ud_recv U s (stun_request txn) = Ok (rfc_response txn (attrs s))"
  shows "\<exists>reason. probe U nanos True port = Ok \<lparr>na_is_public = False, na_public_addr = None, na_reason = reason\<rparr>"
proof -
  have "\<exists>e. stun_bind U (nanos s) s = Err e" if s: "s \<in> set default_stun_servers" for s
  proof -
    have "stun_bind U (nanos s) s \<noteq> Ok a" for a
      using stun_bind_rfc [of "attrs s" "nanos s" U s a] assms(4-6) s by (simp add: BUFFER_def)
    moreover have "stun_bind U (nanos s) s \<noteq> Panic"
      using stun_bind_total [of U s "nanos s"] assms(1-3,6) s by simp
    ultimately show ?thesis by (cases "stun_bind U (nanos s) s") auto
  qed
  then have "first_address U nanos default_stun_servers = Ok None"
    by (intro first_address_None) blast
  then show ?thesis by (simp add: probe_def)
qed

text \<open>A server that answers with the XOR form of 192.0.2.1:32853, as the standard's own example.\<close>

definition rfc_server :: udp where
  "rfc_server = \<lparr>ud_bind = Ok (), ud_set_timeout = Ok (), ud_send = (\<lambda>s req. Ok ()),
     ud_recv = (\<lambda>s req. Ok (rfc_response (drop 8 req) [(0x0020, [0, 1, 0xA1, 0x47, 0xE1, 0x12, 0xA6, 0x43])]))\<rparr>"

theorem probe_never_public_witness:
  "\<exists>reason. probe rfc_server (\<lambda>s. 0) True 7744 = Ok \<lparr>na_is_public = False, na_public_addr = None, na_reason = reason\<rparr>"
  by (rule probe_never_public [where attrs = "\<lambda>s. [(0x0020, [0, 1, 0xA1, 0x47, 0xE1, 0x12, 0xA6, 0x43])]"])
    (simp_all add: rfc_server_def stun_request_def rfc_address_def length_rfc_response padded_len_def)

theorem stun_bind_no_panic_witness:
  "\<exists>r. stun_bind rfc_server 0 (lit ''stun.example:3478'') = Ok r \<or> stun_bind rfc_server 0 (lit ''stun.example:3478'') = Err r"
  by (rule stun_bind_no_panic) (simp_all add: rfc_server_def)

end
