(* ===== verification/Utf8.thy ===== *)
theory Utf8
  imports Bytes
begin

text \<open>
  Reading UTF-8, as \<^verbatim>\<open>String::from_utf8\<close> and \<^verbatim>\<open>String::from_utf8_lossy\<close> do: a sequence that is not
  well formed is an error for the first and one replacement character for the second, which
  covers the bytes that could still have begun a character.
\<close>

definition continuation :: "u8 \<Rightarrow> bool" where
  "continuation b \<longleftrightarrow> 0x80 \<le> unat b \<and> unat b < 0xC0"

text \<open>The second bytes a lead byte of a sequence of three or four allows: no overlong forms, no
  surrogates, nothing over \<^verbatim>\<open>U+10FFFF\<close>.\<close>

definition second_byte :: "nat \<Rightarrow> u8 \<Rightarrow> bool" where
  "second_byte n b \<longleftrightarrow> continuation b \<and> (n = 0xE0 \<longrightarrow> 0xA0 \<le> unat b) \<and> (n = 0xED \<longrightarrow> unat b < 0xA0) \<and>
     (n = 0xF0 \<longrightarrow> 0x90 \<le> unat b) \<and> (n = 0xF4 \<longrightarrow> unat b < 0x90)"

text \<open>The next character, or \<open>None\<close>, and the number of bytes after the first that it takes.\<close>

definition next_char :: "u8 \<Rightarrow> bytes \<Rightarrow> uchar option \<times> nat" where
  "next_char b bs =
     (let n = unat b in
      if n < 0x80 then (Some n, 0)
      else if 0xC2 \<le> n \<and> n < 0xE0 then
        (case bs of
           c # _ \<Rightarrow> if continuation c then (Some ((n - 0xC0) * 0x40 + (unat c - 0x80)), 1) else (None, 0)
         | [] \<Rightarrow> (None, 0))
      else if 0xE0 \<le> n \<and> n < 0xF0 then
        (case bs of
           c # d # _ \<Rightarrow>
             if \<not> second_byte n c then (None, 0)
             else if continuation d
               then (Some ((n - 0xE0) * 0x1000 + (unat c - 0x80) * 0x40 + (unat d - 0x80)), 2)
             else (None, 1)
         | [c] \<Rightarrow> (None, if second_byte n c then 1 else 0)
         | [] \<Rightarrow> (None, 0))
      else if 0xF0 \<le> n \<and> n \<le> 0xF4 then
        (case bs of
           c # d # e # _ \<Rightarrow>
             if \<not> second_byte n c then (None, 0)
             else if \<not> continuation d then (None, 1)
             else if continuation e
               then (Some ((n - 0xF0) * 0x40000 + (unat c - 0x80) * 0x1000 + (unat d - 0x80) * 0x40 + (unat e - 0x80)), 3)
             else (None, 2)
         | [c, d] \<Rightarrow> (None, if second_byte n c then if continuation d then 2 else 1 else 0)
         | [c] \<Rightarrow> (None, if second_byte n c then 1 else 0)
         | [] \<Rightarrow> (None, 0))
      else (None, 0))"

function decode_utf8 :: "bytes \<Rightarrow> uchar option list" where
  "decode_utf8 [] = []"
| "decode_utf8 (b # bs) = fst (next_char b bs) # decode_utf8 (drop (snd (next_char b bs)) bs)"
  by pat_completeness auto
termination by (relation "measure length") auto

definition from_utf8 :: "bytes \<Rightarrow> ustr option" where
  "from_utf8 bs = (let cs = decode_utf8 bs in if None \<in> set cs then None else Some (map the cs))"

definition from_utf8_lossy :: "bytes \<Rightarrow> ustr" where
  "from_utf8_lossy bs = map (\<lambda>c. case c of Some c \<Rightarrow> c | None \<Rightarrow> 0xFFFD) (decode_utf8 bs)"

section \<open>Reading what was written\<close>

text \<open>The values a \<^verbatim>\<open>char\<close> can have.\<close>

definition scalar :: "uchar \<Rightarrow> bool" where
  "scalar c \<longleftrightarrow> c < 0xD800 \<or> (0xE000 \<le> c \<and> c < 0x110000)"

lemma unat_byte: "n < 256 \<Longrightarrow> unat (of_nat n :: u8) = n"
  by (simp add: unsigned_of_nat take_bit_nat_eq_self_iff)

lemma next_char_two:
  "2 \<le> q \<Longrightarrow> q < 0x20 \<Longrightarrow> r < 0x40 \<Longrightarrow>
     next_char (of_nat (0xC0 + q)) (of_nat (0x80 + r) # bs) = (Some (q * 0x40 + r), 1)"
  by (simp add: next_char_def Let_def unat_byte continuation_def del: of_nat_add)

lemma next_char_three:
  assumes "q < 0x10" "r < 0x40" "t < 0x40" "q = 0 \<Longrightarrow> 0x20 \<le> r" "q = 0xD \<Longrightarrow> r < 0x20"
  shows "next_char (of_nat (0xE0 + q)) (of_nat (0x80 + r) # of_nat (0x80 + t) # bs) =
    (Some (q * 0x1000 + r * 0x40 + t), 2)"
proof -
  have n: "unat (of_nat (0xE0 + q) :: u8) = 0xE0 + q" "unat (of_nat (0x80 + r) :: u8) = 0x80 + r"
    "unat (of_nat (0x80 + t) :: u8) = 0x80 + t" using assms by (simp_all only: unat_byte)
  have "second_byte (0xE0 + q) (of_nat (0x80 + r))" "continuation (of_nat (0x80 + t))"
    using assms n by (auto simp: second_byte_def continuation_def simp del: of_nat_add)
  then show ?thesis using assms(1) by (simp add: next_char_def n del: of_nat_add)
qed

lemma next_char_four:
  assumes "q \<le> 4" "r < 0x40" "t < 0x40" "u < 0x40" "q = 0 \<Longrightarrow> 0x10 \<le> r" "q = 4 \<Longrightarrow> r < 0x10"
  shows "next_char (of_nat (0xF0 + q)) (of_nat (0x80 + r) # of_nat (0x80 + t) # of_nat (0x80 + u) # bs) =
    (Some (q * 0x40000 + r * 0x1000 + t * 0x40 + u), 3)"
proof -
  have n: "unat (of_nat (0xF0 + q) :: u8) = 0xF0 + q" "unat (of_nat (0x80 + r) :: u8) = 0x80 + r"
    "unat (of_nat (0x80 + t) :: u8) = 0x80 + t" "unat (of_nat (0x80 + u) :: u8) = 0x80 + u"
    using assms by (simp_all only: unat_byte)
  have "second_byte (0xF0 + q) (of_nat (0x80 + r))" "continuation (of_nat (0x80 + t))" "continuation (of_nat (0x80 + u))"
    using assms n by (auto simp: second_byte_def continuation_def simp del: of_nat_add)
  then show ?thesis using assms(1) by (simp add: next_char_def n del: of_nat_add)
qed

text \<open>The digits of a number to the base 64.\<close>

lemma digits_64:
  fixes c :: nat
  shows "c = c div 0x1000 * 0x1000 + c div 0x40 mod 0x40 * 0x40 + c mod 0x40"
    "c div 0x1000 = c div 0x40000 * 0x40 + c div 0x1000 mod 0x40"
proof -
  have "c div 0x1000 = c div 0x40 div 0x40" "c div 0x40000 = c div 0x1000 div 0x40"
    by (simp_all add: div_mult2_eq [symmetric])
  then show "c = c div 0x1000 * 0x1000 + c div 0x40 mod 0x40 * 0x40 + c mod 0x40"
    "c div 0x1000 = c div 0x40000 * 0x40 + c div 0x1000 mod 0x40"
    using div_mult_mod_eq [of c "0x40"] div_mult_mod_eq [of "c div 0x40" "0x40"] div_mult_mod_eq [of "c div 0x1000" "0x40"]
    by linarith+
qed

lemma next_char_utf8:
  assumes "scalar c"
  shows "\<exists>b bs'. utf8_char c = b # bs' \<and> next_char b (bs' @ bs) = (Some c, length bs')"
proof -
  consider "c < 0x80" | "0x80 \<le> c" "c < 0x800" | "0x800 \<le> c" "c < 0x10000" | "0x10000 \<le> c"
    by fastforce
  then show ?thesis
  proof cases
    case 1
    then show ?thesis by (simp add: utf8_char_def next_char_def Let_def unat_byte)
  next
    case 2
    have "c = c div 0x40 * 0x40 + c mod 0x40" by simp
    moreover have "2 \<le> c div 0x40" "c div 0x40 < 0x20" "c mod 0x40 < 0x40" using 2 by auto
    ultimately show ?thesis using 2 next_char_two [of "c div 0x40" "c mod 0x40" bs]
      by (simp add: utf8_char_def del: of_nat_add)
  next
    case 3
    let ?q = "c div 0x1000" and ?r = "c div 0x40 mod 0x40" and ?t = "c mod 0x40"
    have c: "c = ?q * 0x1000 + ?r * 0x40 + ?t" by (rule digits_64(1))
    have lt: "?r < 0x40" "?t < 0x40" by simp_all
    have "?q < 0x10" using 3(2) by auto
    moreover have "?q = 0 \<Longrightarrow> 0x20 \<le> ?r" using c lt 3 by linarith
    moreover have "?q = 0xD \<Longrightarrow> ?r < 0x20" using c lt assms unfolding scalar_def by linarith
    ultimately have "next_char (of_nat (0xE0 + ?q)) (of_nat (0x80 + ?r) # of_nat (0x80 + ?t) # bs) = (Some c, 2)"
      using next_char_three [OF _ lt, of ?q bs] c by simp
    then show ?thesis using 3 by (simp add: utf8_char_def del: of_nat_add)
  next
    case 4
    let ?q = "c div 0x40000" and ?r = "c div 0x1000 mod 0x40" and ?t = "c div 0x40 mod 0x40" and ?u = "c mod 0x40"
    have c: "c = ?q * 0x40000 + ?r * 0x1000 + ?t * 0x40 + ?u" using digits_64 [of c] by linarith
    have lt: "?r < 0x40" "?t < 0x40" "?u < 0x40" by simp_all
    have top: "c < 0x110000" using assms 4 by (auto simp: scalar_def)
    have "?q \<le> 4" using top by auto
    moreover have "?q = 0 \<Longrightarrow> 0x10 \<le> ?r" using c lt 4 by linarith
    moreover have "?q = 4 \<Longrightarrow> ?r < 0x10" using c lt top by linarith
    ultimately have "next_char (of_nat (0xF0 + ?q)) (of_nat (0x80 + ?r) # of_nat (0x80 + ?t) # of_nat (0x80 + ?u) # bs) = (Some c, 3)"
      using next_char_four [OF _ lt, of ?q bs] c by simp
    then show ?thesis using 4 by (simp add: utf8_char_def del: of_nat_add)
  qed
qed

lemma decode_utf8_append:
  "list_all scalar s \<Longrightarrow> decode_utf8 (utf8 s @ bs) = map Some s @ decode_utf8 bs"
proof (induction s)
  case (Cons c s)
  obtain b bs' where u: "utf8_char c = b # bs'" "next_char b (bs' @ utf8 s @ bs) = (Some c, length bs')"
    using next_char_utf8 [of c "utf8 s @ bs"] Cons.prems by auto
  have "utf8 (c # s) @ bs = b # bs' @ utf8 s @ bs" by (simp add: utf8_def u(1))
  then show ?case using Cons by (simp add: u(2))
qed (simp add: utf8_def)

lemma decode_utf8_utf8: "list_all scalar s \<Longrightarrow> decode_utf8 (utf8 s) = map Some s"
  using decode_utf8_append [of s "[]"] by simp

lemma from_utf8_utf8 [simp]: "list_all scalar s \<Longrightarrow> from_utf8 (utf8 s) = Some s"
  by (auto simp: from_utf8_def Let_def decode_utf8_utf8 comp_def)

lemma from_utf8_lossy_utf8 [simp]: "list_all scalar s \<Longrightarrow> from_utf8_lossy (utf8 s) = s"
  by (simp add: from_utf8_lossy_def decode_utf8_utf8 comp_def)

end
