(* ===== verification/Disk.thy ===== *)
theory Disk
  imports Prelude
begin

text \<open>
  One text file of the data directory, as \<^verbatim>\<open>Path::exists\<close>, \<^verbatim>\<open>fs::read_to_string\<close> and
  \<^verbatim>\<open>fs::write\<close> see it: its contents when it exists, and the errors the system gives instead
  of reading or writing.
\<close>

record text_file =
  fl_contents :: "ustr option"
  fl_read_error :: "ustr option"
  fl_write_error :: "ustr option"

definition file_exists :: "text_file \<Rightarrow> bool" where
  "file_exists f \<longleftrightarrow> fl_contents f \<noteq> None"

definition read_to_string :: "text_file \<Rightarrow> (ustr, ustr) result" where
  "read_to_string f = (case fl_read_error f of
     Some e \<Rightarrow> Err e
   | None \<Rightarrow> (case fl_contents f of Some s \<Rightarrow> Ok s | None \<Rightarrow> Err (lit ''No such file or directory'')))"

definition write_file :: "ustr \<Rightarrow> text_file \<Rightarrow> (unit, ustr) result \<times> text_file" where
  "write_file s f = (case fl_write_error f of
     Some e \<Rightarrow> (Err e, f) | None \<Rightarrow> (Ok (), f\<lparr>fl_contents := Some s\<rparr>))"

text \<open>A file the system reads and writes without errors.\<close>

definition plain_file :: "ustr option \<Rightarrow> text_file" where
  "plain_file c = \<lparr>fl_contents = c, fl_read_error = None, fl_write_error = None\<rparr>"

lemma plain_file_simps [simp]:
  "file_exists (plain_file c) \<longleftrightarrow> c \<noteq> None"
  "read_to_string (plain_file (Some s)) = Ok s"
  "write_file s (plain_file c) = (Ok (), plain_file (Some s))"
  by (simp_all add: plain_file_def file_exists_def read_to_string_def write_file_def)

lemma write_file_Ok: "write_file s f = (Ok u, f') \<longleftrightarrow> fl_write_error f = None \<and> f' = f\<lparr>fl_contents := Some s\<rparr>"
  by (auto simp: write_file_def split: option.splits)

end
