(* ===== verification/Dns.thy ===== *)
theory Dns
  imports Packet Utf8 Disk Sample_Serde
begin

text \<open>
  \<^verbatim>\<open>src/src/bootstrap/resolver.rs\<close> and \<^verbatim>\<open>src/src/bootstrap/defaults.rs\<close>: the bootstrap peers of a
  node, from \<^verbatim>\<open>bootstrap.toml\<close>, from the SRV records of a name, and compiled in. The DNS packets
  are built and read byte by byte, as the source does; TOML is a parameter.
\<close>

section \<open>Data\<close>

record BootstrapPeer =
  bp_id :: ustr
  bp_addr :: ustr
  bp_note :: ustr

record BootstrapToml =
  bt_use_defaults :: bool
  bt_peers :: "BootstrapPeer list"

definition default_bootstrap_peers :: "BootstrapPeer list" where
  "default_bootstrap_peers =
     [\<lparr>bp_id = lit ''dsearch_bootstrap_us_east_1'', bp_addr = lit ''bootstrap-us-east.dsearch.network:7744'',
       bp_note = lit ''official bootstrap US-East''\<rparr>,
      \<lparr>bp_id = lit ''dsearch_bootstrap_eu_west_1'', bp_addr = lit ''bootstrap-eu-west.dsearch.network:7744'',
       bp_note = lit ''official bootstrap EU-West''\<rparr>,
      \<lparr>bp_id = lit ''dsearch_bootstrap_ap_east_1'', bp_addr = lit ''bootstrap-ap-east.dsearch.network:7744'',
       bp_note = lit ''official bootstrap AP-East''\<rparr>]"

text \<open>\<^verbatim>\<open>toml::from_str\<close> and \<^verbatim>\<open>toml::to_string_pretty\<close> at \<open>BootstrapToml\<close>.\<close>

record toml =
  toml_from_str :: "ustr \<Rightarrow> (BootstrapToml, ustr) result"
  toml_to_string :: "BootstrapToml \<Rightarrow> (ustr, ustr) result"

section \<open>Queries\<close>

definition build_dns_query :: "ustr \<Rightarrow> bytes" where
  "build_dns_query name =
     [0x12, 0x34] @ [0x01, 0x00] @ [0x00, 0x01] @ [0x00, 0x00] @ [0x00, 0x00] @ [0x00, 0x00] @
     concat (map (\<lambda>l. of_nat (length (utf8 l)) # utf8 l) (split_on 46 name)) @ [0x00] @
     [0x00, 0x21] @ [0x00, 0x01]"

section \<open>Names\<close>

definition is_pointer :: "u8 \<Rightarrow> bool" where
  "is_pointer len \<longleftrightarrow> len AND 0xC0 = 0xC0"

function skip_dns_name :: "bytes \<Rightarrow> nat \<Rightarrow> (nat, ustr) result" where
  "skip_dns_name data offset =
     (if length data \<le> offset then Err (lit ''name extends past packet'')
      else
        let len = data ! offset
        in if len = 0 then Ok (offset + 1)
           else if is_pointer len then Ok (offset + 2)
           else skip_dns_name data (offset + 1 + unat len))"
  by pat_completeness auto
termination by (relation "measure (\<lambda>(data, offset). length data - offset)") auto

declare skip_dns_name.simps [simp del]

text \<open>The loop of \<^verbatim>\<open>read_dns_name\<close>; it ends because at most 21 pointers are followed, and because
  labels move forward.\<close>

function read_name :: "bytes \<Rightarrow> nat \<Rightarrow> bool \<Rightarrow> nat \<Rightarrow> ustr \<Rightarrow> ustr" where
  "read_name data offset jumped visited name =
     (if length data \<le> offset then name
      else
        let len = data ! offset
        in if len = 0 then name
           else if is_pointer len then
             if length data \<le> offset + 1 then name
             else
               let ptr = unat (push_bit 8 (ucast (len AND 0x3F)) OR ucast (data ! (offset + 1)) :: u64)
               in if length data \<le> ptr \<or> 20 < visited then name
                  else read_name data ptr True (visited + 1) name
           else
             let name = (if name \<noteq> [] then name @ [46] else name);
                 label_end = offset + 1 + unat len
             in if length data < label_end then name
                else
                  let name = name @ from_utf8_lossy (take (unat len) (drop (offset + 1) data))
                  in if jumped then
                       if 20 < visited + 1 then name else read_name data label_end jumped (visited + 1) name
                     else read_name data label_end jumped visited name)"
  by pat_completeness auto
termination
  by (relation "measures [\<lambda>(data, offset, jumped, visited, name). 22 - visited,
      \<lambda>(data, offset, jumped, visited, name). length data - offset]") auto

declare read_name.simps [simp del]

definition read_dns_name :: "bytes \<Rightarrow> nat \<Rightarrow> ustr" where
  "read_dns_name data offset = read_name data offset False 0 []"

section \<open>Responses\<close>

fun skip_questions :: "bytes \<Rightarrow> nat \<Rightarrow> nat \<Rightarrow> (nat, ustr) result" where
  "skip_questions data 0 offset = Ok offset"
| "skip_questions data (Suc n) offset =
     rbind (skip_dns_name data offset) (\<lambda>offset. skip_questions data n (offset + 4))"

definition srv_peer :: "ustr \<Rightarrow> u16 \<Rightarrow> BootstrapPeer" where
  "srv_peer target port = (let addr = target @ [58] @ to_dec (unat port)
     in \<lparr>bp_id = lit ''srv:'' @ addr, bp_addr = addr, bp_note = lit ''DNS SRV''\<rparr>)"

fun read_answers :: "bytes \<Rightarrow> nat \<Rightarrow> nat \<Rightarrow> BootstrapPeer list \<Rightarrow> (BootstrapPeer list, ustr) result" where
  "read_answers data 0 offset peers = Ok peers"
| "read_answers data (Suc n) offset peers =
     rbind (skip_dns_name data offset) (\<lambda>offset.
     if length data < offset + 10 then Ok peers
     else
       rbind (u16_at data offset) (\<lambda>rtype.
       rbind (u16_at data (offset + 8)) (\<lambda>rdlength.
       let rdlength = unat rdlength; offset = offset + 10
       in if length data < offset + rdlength then Ok peers
          else if rtype = 33 \<and> 6 \<le> rdlength then
            rbind (u16_at data (offset + 4)) (\<lambda>port.
              read_answers data n (offset + rdlength) (peers @ [srv_peer (read_dns_name data (offset + 6)) port]))
          else read_answers data n (offset + rdlength) peers)))"

definition parse_dns_srv_response :: "bytes \<Rightarrow> (BootstrapPeer list, ustr) result" where
  "parse_dns_srv_response data =
     (if length data < 12 then Err (lit ''response too short'')
      else
        rbind (u16_at data 4) (\<lambda>qdcount.
        rbind (u16_at data 6) (\<lambda>ancount.
        rbind (skip_questions data (unat qdcount) 12) (\<lambda>offset.
        read_answers data (unat ancount) offset []))))"

section \<open>Resolution\<close>

definition query_dns_srv :: "udp \<Rightarrow> ustr \<Rightarrow> ustr \<Rightarrow> (BootstrapPeer list, ustr) result" where
  "query_dns_srv U name server =
     rbind (map_err (\<lambda>e. lit ''bind: '' @ e) (ud_bind U)) (\<lambda>_.
     rbind (map_err (\<lambda>e. lit ''set timeout: '' @ e) (ud_set_timeout U)) (\<lambda>_.
     let query = build_dns_query name
     in rbind (map_err (\<lambda>e. lit ''send: '' @ e) (ud_send U server query)) (\<lambda>_.
        rbind (map_err (\<lambda>e. lit ''recv: '' @ e) (ud_recv U server query)) (\<lambda>datagram.
        let response = take 4096 datagram
        in if length response < 12 then Err (lit ''DNS response too short'')
           else parse_dns_srv_response response))))"

fun query_servers :: "udp \<Rightarrow> ustr \<Rightarrow> ustr list \<Rightarrow> (BootstrapPeer list, ustr) result" where
  "query_servers U srv_name [] = Ok []"
| "query_servers U srv_name (s # ss) = (case query_dns_srv U srv_name s of
     Ok records \<Rightarrow> Ok records | Err _ \<Rightarrow> query_servers U srv_name ss | Panic \<Rightarrow> Panic)"

definition resolve_dns_srv :: "udp \<Rightarrow> ustr \<Rightarrow> (BootstrapPeer list, ustr) result" where
  "resolve_dns_srv U srv_name = query_servers U srv_name [lit ''8.8.8.8:53'', lit ''1.1.1.1:53'', lit ''9.9.9.9:53'']"

text \<open>A peer is added when no earlier one has its id.\<close>

definition add_new_peers :: "BootstrapPeer list \<Rightarrow> BootstrapPeer list \<Rightarrow> BootstrapPeer list" where
  "add_new_peers peers new =
     fold (\<lambda>p peers. if list_ex (\<lambda>ep. bp_id ep = bp_id p) peers then peers else peers @ [p]) new peers"

text \<open>The peers and the flag of \<^verbatim>\<open>bootstrap.toml\<close>; a file that cannot be read or parsed counts as
  missing.\<close>

definition read_bootstrap_toml :: "toml \<Rightarrow> text_file \<Rightarrow> BootstrapToml" where
  "read_bootstrap_toml T f =
     (if file_exists f then
        case read_to_string f of
          Ok contents \<Rightarrow>
            (case toml_from_str T contents of Ok config \<Rightarrow> config | _ \<Rightarrow> \<lparr>bt_use_defaults = True, bt_peers = []\<rparr>)
        | _ \<Rightarrow> \<lparr>bt_use_defaults = True, bt_peers = []\<rparr>
      else \<lparr>bt_use_defaults = True, bt_peers = []\<rparr>)"

definition resolve_bootstrap_peers :: "udp \<Rightarrow> toml \<Rightarrow> text_file \<Rightarrow> (BootstrapPeer list, ustr) result" where
  "resolve_bootstrap_peers U T f =
     (let config = read_bootstrap_toml T f; peers = bt_peers config
      in if \<not> bt_use_defaults config then Ok peers
         else rbind (resolve_dns_srv U (lit ''_dsearch._udp.dsearch.network'')) (\<lambda>srv_peers.
           Ok (add_new_peers (add_new_peers peers srv_peers) default_bootstrap_peers)))"

section \<open>Editing the file\<close>

text \<open>\<^verbatim>\<open>from_str(..).unwrap_or_else(..)\<close> and \<^verbatim>\<open>to_string_pretty(..).unwrap_or_default()\<close>.\<close>

definition parse_or_default :: "toml \<Rightarrow> ustr \<Rightarrow> BootstrapToml" where
  "parse_or_default T contents = (case toml_from_str T contents of
     Ok config \<Rightarrow> config | _ \<Rightarrow> \<lparr>bt_use_defaults = True, bt_peers = []\<rparr>)"

definition print_or_default :: "toml \<Rightarrow> BootstrapToml \<Rightarrow> ustr" where
  "print_or_default T config = (case toml_to_string T config of Ok s \<Rightarrow> s | _ \<Rightarrow> [])"

definition write_bootstrap_peer :: "toml \<Rightarrow> ustr \<Rightarrow> ustr \<Rightarrow> ustr \<Rightarrow> text_file \<Rightarrow> (unit, ustr) result \<times> text_file" where
  "write_bootstrap_peer T i addr note f =
     (let config = (if file_exists f then rbind (read_to_string f) (\<lambda>contents. Ok (parse_or_default T contents))
        else Ok \<lparr>bt_use_defaults = True, bt_peers = []\<rparr>)
      in case config of
           Err e \<Rightarrow> (Err e, f) | Panic \<Rightarrow> (Panic, f)
         | Ok config \<Rightarrow>
             let config = config\<lparr>bt_peers := bt_peers config @ [\<lparr>bp_id = i, bp_addr = addr, bp_note = note\<rparr>]\<rparr>
             in write_file (print_or_default T config) f)"

definition remove_bootstrap_peer :: "toml \<Rightarrow> ustr \<Rightarrow> text_file \<Rightarrow> (bool, ustr) result \<times> text_file" where
  "remove_bootstrap_peer T i f =
     (if \<not> file_exists f then (Ok False, f)
      else case read_to_string f of
        Err e \<Rightarrow> (Err e, f) | Panic \<Rightarrow> (Panic, f)
      | Ok contents \<Rightarrow>
          let config = parse_or_default T contents; kept = filter (\<lambda>p. bp_id p \<noteq> i) (bt_peers config)
          in if length kept = length (bt_peers config) then (Ok False, f)
             else case write_file (print_or_default T (config\<lparr>bt_peers := kept\<rparr>)) f of
               (r, f) \<Rightarrow> (rbind r (\<lambda>_. Ok True), f))"

section \<open>Names as they are written\<close>

text \<open>A name is its labels with their lengths and a zero; a label is at most 63 bytes.\<close>

definition dns_name :: "ustr list \<Rightarrow> bytes" where
  "dns_name ls = concat (map (\<lambda>l. of_nat (length (utf8 l)) # utf8 l) ls) @ [0]"

definition good_label :: "ustr \<Rightarrow> bool" where
  "good_label l \<longleftrightarrow> l \<noteq> [] \<and> length (utf8 l) \<le> 63 \<and> list_all scalar l"

lemma dns_name_simps [simp]:
  "dns_name [] = [0]" "dns_name (l # ls) = of_nat (length (utf8 l)) # utf8 l @ dns_name ls"
  by (simp_all add: dns_name_def)

lemma label_length:
  assumes "good_label l"
  shows "unat (of_nat (length (utf8 l)) :: u8) = length (utf8 l)" "(of_nat (length (utf8 l)) :: u8) \<noteq> 0"
    "\<not> is_pointer (of_nat (length (utf8 l)))"
proof -
  let ?b = "of_nat (length (utf8 l)) :: u8"
  show u: "unat ?b = length (utf8 l)" using assms by (simp add: good_label_def unat_byte)
  have "0 < length (utf8 l)" using assms by (cases l) (simp_all add: good_label_def length_utf8 utf8_len_def)
  with u show "?b \<noteq> 0" by (metis less_irrefl unat_0)
  have "?b AND 0xC0 \<le> ?b" by (rule word_and_le2)
  then have "unat (?b AND 0xC0) \<le> 63" using u assms by (simp add: good_label_def word_le_nat_alt)
  then show "\<not> is_pointer ?b" by (auto simp: is_pointer_def)
qed

lemma skip_dns_name_written:
  assumes "list_all good_label ls"
  shows "skip_dns_name (pre @ dns_name ls @ post) (length pre) = Ok (length pre + length (dns_name ls))"
  using assms
proof (induction ls arbitrary: pre)
  case Nil
  then show ?case by (subst skip_dns_name.simps) simp
next
  case (Cons l ls)
  let ?b = "of_nat (length (utf8 l)) :: u8"
  from Cons.prems have l: "good_label l" by simp
  from Cons.IH [of "pre @ ?b # utf8 l"] Cons.prems
  have "skip_dns_name (pre @ ?b # utf8 l @ dns_name ls @ post) (length pre + 1 + unat ?b) =
      Ok (length pre + length (dns_name (l # ls)))"
    by (simp add: label_length [OF l])
  then show ?case
    by (subst skip_dns_name.simps) (simp add: Let_def label_length(2,3) [OF l])
qed

text \<open>The labels read so far, then these.\<close>

definition add_labels :: "ustr \<Rightarrow> ustr list \<Rightarrow> ustr" where
  "add_labels name ls = (if name = [] then join [46] ls else join [46] (name # ls))"

lemma read_name_written:
  assumes "list_all good_label ls"
  shows "read_name (pre @ dns_name ls @ post) (length pre) False v name = add_labels name ls"
  using assms
proof (induction ls arbitrary: pre name)
  case Nil
  then show ?case by (subst read_name.simps) (simp add: add_labels_def)
next
  case (Cons l ls)
  let ?b = "of_nat (length (utf8 l)) :: u8" and ?n = "if name \<noteq> [] then name @ [46] @ l else l"
  from Cons.prems have l: "good_label l" by simp
  then have ne: "l \<noteq> []" and sc: "list_all scalar l" by (simp_all add: good_label_def)
  from Cons.IH [of "pre @ ?b # utf8 l" ?n] Cons.prems
  have "read_name (pre @ ?b # utf8 l @ dns_name ls @ post) (length pre + 1 + unat ?b) False v ?n = add_labels ?n ls"
    by (simp add: label_length [OF l])
  moreover have "add_labels ?n ls = add_labels name (l # ls)"
    using ne by (cases ls) (auto simp: add_labels_def)
  ultimately show ?case
    using sc by (subst read_name.simps) (simp add: Let_def label_length [OF l] split: if_splits)
qed

section \<open>Responses as they are written\<close>

text \<open>An SRV record of the name asked for, and the response of a server that holds such records: the
  question again, then the records, each with a pointer to the name in the question.\<close>

record srv =
  srv_ttl :: u32
  srv_priority :: u16
  srv_weight :: u16
  srv_port :: u16
  srv_target :: "ustr list"

definition srv_answer :: "srv \<Rightarrow> bytes" where
  "srv_answer a = [0xC0, 0x0C] @ be16 33 @ be16 1 @ be32 (srv_ttl a) @ be16 (of_nat (6 + length (dns_name (srv_target a)))) @
     be16 (srv_priority a) @ be16 (srv_weight a) @ be16 (srv_port a) @ dns_name (srv_target a)"

definition srv_response :: "bytes \<Rightarrow> u16 \<Rightarrow> srv list \<Rightarrow> bytes" where
  "srv_response query flags answers =
     take 2 query @ be16 flags @ be16 1 @ be16 (of_nat (length answers)) @ [0, 0, 0, 0] @ drop 12 query @
     concat (map srv_answer answers)"

definition good_srv :: "srv \<Rightarrow> bool" where
  "good_srv a \<longleftrightarrow> list_all good_label (srv_target a) \<and> length (dns_name (srv_target a)) \<le> 255"

lemma read_answers_step:
  assumes "skip_dns_name d o0 = Ok p" and "u16_at d p = Ok 33" and "u16_at d (p + 8) = Ok rl" and "6 \<le> unat rl"
    and "p + 10 + unat rl \<le> length d" and "u16_at d (p + 10 + 4) = Ok port"
  shows "read_answers d (Suc n) o0 peers =
    read_answers d n (p + 10 + unat rl) (peers @ [srv_peer (read_dns_name d (p + 10 + 6)) port])"
  using assms by (simp add: Let_def)

lemma read_answer:
  assumes "good_srv a"
  shows "read_answers (pre @ srv_answer a @ post) (Suc n) (length pre) peers =
    read_answers (pre @ srv_answer a @ post) n (length pre + length (srv_answer a))
      (peers @ [srv_peer (join [46] (srv_target a)) (srv_port a)])"
proof -
  let ?t = "dns_name (srv_target a)" and ?len = "of_nat (6 + length (dns_name (srv_target a))) :: u16"
  have good: "list_all good_label (srv_target a)" and small: "length ?t \<le> 255"
    using assms by (simp_all add: good_srv_def)
  let ?d = "pre @ srv_answer a @ post"
  have len: "unat ?len = 6 + length ?t" using small by (simp add: unsigned_of_nat take_bit_nat_eq_self_iff del: of_nat_add)
  have skip: "skip_dns_name ?d (length pre) = Ok (length pre + 2)"
    by (subst skip_dns_name.simps) (simp add: Let_def srv_answer_def is_pointer_def)
  have rtype: "u16_at ?d (length pre + 2) = Ok 33"
    using u16_at_prefix [of "pre @ [0xC0, 0x0C]" "length pre + 2" 33] by (simp add: srv_answer_def)
  have rdlen: "u16_at ?d (length pre + 2 + 8) = Ok ?len"
    using u16_at_prefix [of "pre @ [0xC0, 0x0C] @ be16 33 @ be16 1 @ be32 (srv_ttl a)" "length pre + 2 + 8" ?len]
    by (simp add: srv_answer_def be16_def)
  have port: "u16_at ?d (length pre + 2 + 10 + 4) = Ok (srv_port a)"
    using u16_at_prefix [of "pre @ [0xC0, 0x0C] @ be16 33 @ be16 1 @ be32 (srv_ttl a) @ be16 ?len @ be16 (srv_priority a) @
        be16 (srv_weight a)" "length pre + 2 + 10 + 4" "srv_port a"]
    by (simp add: srv_answer_def be16_def)
  define head where "head = pre @ [0xC0, 0x0C] @ be16 33 @ be16 1 @ be32 (srv_ttl a) @ be16 ?len @
      be16 (srv_priority a) @ be16 (srv_weight a) @ be16 (srv_port a)"
  have "length head = length pre + 2 + 10 + 6" and "?d = head @ ?t @ post"
    by (simp_all add: head_def be16_def srv_answer_def)
  then have name: "read_dns_name ?d (length pre + 2 + 10 + 6) = join [46] (srv_target a)"
    using read_name_written [OF good, of head post 0 "[]"] by (metis add_labels_def read_dns_name_def)
  have l: "length (srv_answer a) = 18 + length ?t" by (simp add: srv_answer_def be16_def)
  have six: "6 \<le> unat ?len" by (simp only: len)
  have inside: "length pre + 2 + 10 + unat ?len \<le> length ?d"
    and ends: "length pre + 2 + 10 + unat ?len = length pre + length (srv_answer a)"
    using l by (simp_all only: len length_append)
  show ?thesis
    using read_answers_step [OF skip rtype rdlen six inside port, of n peers] by (simp only: name ends)
qed

lemma read_answers_written:
  assumes "list_all good_srv as"
  shows "read_answers (pre @ concat (map srv_answer as) @ post) (length as) (length pre) peers =
    Ok (peers @ map (\<lambda>a. srv_peer (join [46] (srv_target a)) (srv_port a)) as)"
  using assms
proof (induction as arbitrary: pre peers)
  case (Cons a as)
  have "read_answers (pre @ srv_answer a @ concat (map srv_answer as) @ post) (Suc (length as)) (length pre) peers =
      read_answers ((pre @ srv_answer a) @ concat (map srv_answer as) @ post) (length as) (length (pre @ srv_answer a))
        (peers @ [srv_peer (join [46] (srv_target a)) (srv_port a)])"
    using read_answer [of a pre "concat (map srv_answer as) @ post"] Cons.prems by simp
  with Cons.IH [of "pre @ srv_answer a"] Cons.prems show ?case by simp
qed simp

lemma drop_query: "drop 12 (build_dns_query name) = dns_name (split_on 46 name) @ be16 33 @ be16 1"
  by (simp add: build_dns_query_def dns_name_def be16_def)

text \<open>What the parser reads from a packet laid out as a response; the records after the answers of the
  question are left alone.\<close>

lemma parse_written:
  assumes "list_all good_label (split_on 46 name)" and "list_all good_srv answers" and "length answers < 65536"
  shows "parse_dns_srv_response (srv_response (build_dns_query name) flags answers @ post) =
    Ok (map (\<lambda>a. srv_peer (join [46] (srv_target a)) (srv_port a)) answers)"
proof -
  define body where "body = concat (map srv_answer answers) @ post"
  define q where "q = dns_name (split_on 46 name)"
  define head where "head = [0x12, 0x34] @ be16 flags @ be16 1 @ be16 (of_nat (length answers)) @ [0, 0, 0, 0 :: u8]"
  have d: "srv_response (build_dns_query name) flags answers @ post = head @ q @ be16 33 @ be16 1 @ body"
    by (simp add: srv_response_def drop_query head_def q_def body_def) (simp add: build_dns_query_def)
  have head: "length head = 12" by (simp add: head_def be16_def)
  have qd: "u16_at (head @ q @ be16 33 @ be16 1 @ body) 4 = Ok 1"
    using u16_at_prefix [of "[0x12, 0x34] @ be16 flags" 4 1] by (simp add: head_def be16_def)
  have an: "u16_at (head @ q @ be16 33 @ be16 1 @ body) 6 = Ok (of_nat (length answers))"
    using u16_at_prefix [of "[0x12, 0x34] @ be16 flags @ be16 1" 6 "of_nat (length answers)"]
    by (simp add: head_def be16_def)
  have n: "unat (of_nat (length answers) :: u16) = length answers"
    using assms(3) by (simp add: unsigned_of_nat take_bit_nat_eq_self_iff)
  have "skip_dns_name (head @ q @ be16 33 @ be16 1 @ body) 12 = Ok (12 + length q)"
    using skip_dns_name_written [OF assms(1), of head] by (simp add: q_def head)
  moreover have "read_answers (head @ q @ be16 33 @ be16 1 @ body) (length answers) (12 + length q + 4) [] =
      Ok (map (\<lambda>a. srv_peer (join [46] (srv_target a)) (srv_port a)) answers)"
  proof -
    have "length (head @ q @ be16 33 @ be16 1) = 12 + length q + 4" by (simp add: head be16_def)
    with read_answers_written [OF assms(2), of "head @ q @ be16 33 @ be16 1" post "[]"]
    show ?thesis unfolding body_def by (simp only: append_assoc append_Nil)
  qed
  ultimately show ?thesis
    unfolding d parse_dns_srv_response_def by (simp add: qd an n head)
qed

text \<open>SRV records are read as they were written. A server that answers the query built for a name
  with any records of that name, each pointing back at the question and with any target of labels
  of at most 63 bytes, gives exactly the peers \<^verbatim>\<open>target:port\<close>, in the order of the answer, whatever
  the flags and whatever follows the answers.\<close>

theorem srv_roundtrip:
  assumes "list_all good_label (split_on 46 name)" and "list_all good_srv answers" and "length answers < 65536"
    and "ud_bind U = Ok ()" and "ud_set_timeout U = Ok ()" and "ud_send U server (build_dns_query name) = Ok ()"
    and "ud_recv U server (build_dns_query name) = Ok (srv_response (build_dns_query name) flags answers @ post)"
    and "length (srv_response (build_dns_query name) flags answers @ post) \<le> 4096"
  shows "query_dns_srv U name server = Ok (map (\<lambda>a. srv_peer (join [46] (srv_target a)) (srv_port a)) answers)"
proof -
  have "12 \<le> length (srv_response (build_dns_query name) flags answers)"
    by (simp add: srv_response_def build_dns_query_def be16_def)
  then show ?thesis
    using assms(4-8) by (simp add: query_dns_srv_def parse_written [OF assms(1-3)] del: append_assoc)
qed

definition seed_srv :: srv where
  "seed_srv = \<lparr>srv_ttl = 60, srv_priority = 10, srv_weight = 5, srv_port = 7744, srv_target = [lit ''seed'', lit ''example'']\<rparr>"

definition seed_server :: udp where
  "seed_server = \<lparr>ud_bind = Ok (), ud_set_timeout = Ok (), ud_send = (\<lambda>s req. Ok ()),
     ud_recv = (\<lambda>s req. Ok (srv_response req 0x8180 [seed_srv]))\<rparr>"

lemma good_seed: "good_srv seed_srv"
  by (simp add: good_srv_def seed_srv_def good_label_def length_utf8 lit_def utf8_len_def scalar_def utf8_def utf8_char_def)

theorem srv_roundtrip_witness:
  "map bp_addr (case query_dns_srv seed_server (lit ''_dsearch._udp'') (lit ''8.8.8.8:53'') of Ok ps \<Rightarrow> ps | _ \<Rightarrow> []) =
     [lit ''seed.example:7744'']"
proof -
  have name: "list_all good_label (split_on 46 (lit ''_dsearch._udp''))"
    by (simp add: lit_def good_label_def length_utf8 utf8_len_def scalar_def)
  have "length (srv_response (build_dns_query (lit ''_dsearch._udp'')) 0x8180 [seed_srv]) \<le> 4096"
    using good_seed by (simp add: srv_response_def build_dns_query_def srv_answer_def be16_def good_srv_def lit_def utf8_def utf8_char_def)
  then have "query_dns_srv seed_server (lit ''_dsearch._udp'') (lit ''8.8.8.8:53'') =
      Ok (map (\<lambda>a. srv_peer (join [46] (srv_target a)) (srv_port a)) [seed_srv])"
    using srv_roundtrip [OF name, where answers = "[seed_srv]" and U = seed_server and server = "lit ''8.8.8.8:53''"
        and flags = "0x8180" and post = "[]"] good_seed
    by (simp add: seed_server_def)
  then show ?thesis by (simp add: srv_peer_def Let_def seed_srv_def lit_def to_dec.simps)
qed

section \<open>Hostile responses\<close>

lemma next_char_length: "length (decode_utf8 bs) \<le> length bs"
  by (induction bs rule: decode_utf8.induct) auto

lemma length_lossy: "length (from_utf8_lossy bs) \<le> length bs"
  by (simp add: from_utf8_lossy_def next_char_length)

lemma read_name_bound:
  assumes "visited \<le> 21"
  shows "length (read_name data offset jumped visited name) \<le>
    length name + (if jumped then 0 else length data - offset) + 256 * (22 - visited)"
  using assms
proof (induction data offset jumped visited name rule: read_name.induct)
  case (1 data offset jumped visited name)
  let ?len = "data ! offset"
  let ?n1 = "if name \<noteq> [] then name @ [46] else name"
  let ?n2 = "?n1 @ from_utf8_lossy (take (unat ?len) (drop (offset + 1) data))"
  let ?ptr = "unat (push_bit 8 (ucast (?len AND 0x3F)) OR ucast (data ! (offset + 1)) :: u64)"
  have lossy: "length (from_utf8_lossy (take (unat ?len) (drop (offset + 1) data))) \<le> unat ?len"
    using length_lossy [of "take (unat ?len) (drop (offset + 1) data)"] by simp
  have n2: "length ?n2 \<le> length name + 1 + unat ?len" using lossy by simp
  have b: "unat ?len < 256" using unsigned_less [of ?len] by simp
  have unf: "read_name data offset jumped visited name =
      (if length data \<le> offset then name else if ?len = 0 then name
       else if is_pointer ?len then
         if length data \<le> offset + 1 then name else if length data \<le> ?ptr \<or> 20 < visited then name
         else read_name data ?ptr True (visited + 1) name
       else if length data < offset + 1 + unat ?len then ?n1
       else if jumped then
         if 20 < visited + 1 then ?n2 else read_name data (offset + 1 + unat ?len) jumped (visited + 1) ?n2
       else read_name data (offset + 1 + unat ?len) jumped visited ?n2)"
    by (subst read_name.simps) (simp only: Let_def)
  show ?case
  proof (cases "length data \<le> offset \<or> ?len = 0")
    case False
    then have off: "\<not> length data \<le> offset" "?len \<noteq> 0" by auto
    show ?thesis
    proof (cases "is_pointer ?len")
      case ptr: True
      show ?thesis
      proof (cases "length data \<le> offset + 1 \<or> length data \<le> ?ptr \<or> 20 < visited")
        case False
        then have f: "\<not> length data \<le> offset + 1" "\<not> (length data \<le> ?ptr \<or> 20 < visited)" by auto
        have "length (read_name data ?ptr True (visited + 1) name) \<le> length name + 256 * (22 - (visited + 1))"
          using 1(1) [OF off(1) refl off(2) ptr f(1) refl f(2)] f(2) by simp
        then show ?thesis using off ptr f by (simp only: unf if_False if_True)
      qed (use off ptr in \<open>auto simp: unf\<close>)
    next
      case lab: False
      show ?thesis
      proof (cases "length data < offset + 1 + unat ?len")
        case short: True
        have "256 \<le> 256 * (22 - visited)" using 1(4) by simp
        then have "length ?n1 \<le> length name + (if jumped then 0 else length data - offset) + 256 * (22 - visited)" by auto
        then show ?thesis using off lab short by (simp only: unf if_False if_True)
      next
        case inside: False
        show ?thesis
        proof (cases jumped)
          case j: True
          show ?thesis
          proof (cases "20 < visited + 1")
            case True
            have "256 \<le> 256 * (22 - visited)" using 1(4) by simp
            moreover have "read_name data offset jumped visited name = ?n2"
              unfolding unf using off lab inside j True by simp
            ultimately show ?thesis using j n2 b by simp
          next
            case False
            have "length (read_name data (offset + 1 + unat ?len) jumped (visited + 1) ?n2) \<le>
                length ?n2 + 256 * (22 - (visited + 1))"
              using 1(2) [OF off(1) refl off(2) lab refl refl inside refl j False] j False by simp
            moreover have "256 + 256 * (22 - (visited + 1)) = 256 * (22 - visited)" using False by simp
            moreover have "read_name data offset jumped visited name =
                read_name data (offset + 1 + unat ?len) jumped (visited + 1) ?n2"
              unfolding unf using off lab inside j False by simp
            ultimately show ?thesis using j n2 b by (simp only: if_True)
          qed
        next
          case j: False
          have "length (read_name data (offset + 1 + unat ?len) jumped visited ?n2) \<le>
              length ?n2 + (length data - (offset + 1 + unat ?len)) + 256 * (22 - visited)"
            using 1(3) [OF off(1) refl off(2) lab refl refl inside refl j] 1(4) j by simp
          moreover have "read_name data offset jumped visited name =
              read_name data (offset + 1 + unat ?len) jumped visited ?n2"
            unfolding unf using off lab inside j by simp
          ultimately show ?thesis using off lab inside j n2 by simp
        qed
      qed
    qed
  qed (auto simp: unf)
qed

lemma u16_at_panic: "u16_at d i = Panic \<longleftrightarrow> length d \<le> i + 1" "u16_at d i \<noteq> Err e"
  by (auto simp: u16_at_def at_def)

lemma skip_dns_name_no_panic: "skip_dns_name data offset \<noteq> Panic"
proof (induction data offset rule: skip_dns_name.induct)
  case (1 data offset)
  then show ?case by (subst skip_dns_name.simps) (simp add: Let_def)
qed

lemma skip_questions_no_panic: "skip_questions data n offset \<noteq> Panic"
  by (induction n arbitrary: offset) (auto simp: res_simps skip_dns_name_no_panic)

lemma to_dec_port: "length (to_dec (unat (w :: u16))) \<le> 5"
proof -
  have "unat w < 65536" using unsigned_less [of w] by simp
  then show ?thesis by (simp add: to_dec.simps)
qed

definition addr_fits :: "bytes \<Rightarrow> BootstrapPeer \<Rightarrow> bool" where
  "addr_fits data p \<longleftrightarrow> length (bp_addr p) \<le> length data + 5638"

lemma srv_peer_fits: "addr_fits data (srv_peer (read_dns_name data offset) port)"
  using read_name_bound [of 0 data offset False "[]"] to_dec_port [of port]
  by (simp add: addr_fits_def srv_peer_def Let_def read_dns_name_def)

lemma read_answers_total:
  assumes "list_all (addr_fits data) peers"
  shows "case read_answers data n offset peers of
    Ok ps \<Rightarrow> length ps \<le> length peers + n \<and> list_all (addr_fits data) ps | Err e \<Rightarrow> True | Panic \<Rightarrow> False"
  using assms
proof (induction n arbitrary: offset peers)
  case (Suc n)
  show ?case
  proof (cases "skip_dns_name data offset")
    case (Ok p)
    have u16: "\<exists>w. u16_at data i = Ok w" if "i + 1 < length data" for i using u16_at_ok [OF that] by simp
    show ?thesis
    proof (cases "length data < p + 10")
      case False
      then obtain ty rl where ty: "u16_at data p = Ok ty" and rl: "u16_at data (p + 8) = Ok rl"
        using u16 [of p] u16 [of "p + 8"] by auto
      show ?thesis
      proof (cases "length data < p + 10 + unat rl")
        case inside: False
        show ?thesis
        proof (cases "ty = 33 \<and> 6 \<le> unat rl")
          case True
          then obtain port where "u16_at data (p + 10 + 4) = Ok port" using u16 [of "p + 10 + 4"] inside by auto
          then have step: "read_answers data (Suc n) offset peers =
              read_answers data n (p + 10 + unat rl) (peers @ [srv_peer (read_dns_name data (p + 10 + 6)) port])"
            using read_answers_step [OF Ok _ rl] True ty inside by simp
          have "list_all (addr_fits data) (peers @ [srv_peer (read_dns_name data (p + 10 + 6)) port])"
            using Suc.prems srv_peer_fits by simp
          from Suc.IH [OF this, of "p + 10 + unat rl"] show ?thesis unfolding step by (auto split: result.splits)
        next
          case other: False
          then have step: "read_answers data (Suc n) offset peers = read_answers data n (p + 10 + unat rl) peers"
            using False inside Ok ty rl by (auto simp: Let_def)
          from Suc.IH [OF Suc.prems, of "p + 10 + unat rl"] show ?thesis unfolding step by (auto split: result.splits)
        qed
      qed (use Suc.prems Ok ty rl False in \<open>simp add: Let_def\<close>)
    qed (use Suc.prems Ok in simp)
  qed (use skip_dns_name_no_panic in auto)
qed simp

text \<open>C22: Whatever a DNS server sends, the parser ends without a panic: it gives an error or at most
  as many peers as sixteen bits can count, and no compression pointer, however it loops or points,
  makes a name longer than the packet and 22 labels together.\<close>

theorem dns_response_total:
  "case parse_dns_srv_response data of
     Ok ps \<Rightarrow> length ps \<le> 65535 \<and> list_all (\<lambda>p. length (bp_addr p) \<le> length data + 5638) ps
   | Err e \<Rightarrow> True
   | Panic \<Rightarrow> False"
proof (cases "length data < 12")
  case False
  let ?qd = "from_be16 (data ! 4) (data ! 5)" and ?an = "from_be16 (data ! 6) (data ! 7)"
  have eq: "parse_dns_srv_response data = rbind (skip_questions data (unat ?qd) 12) (\<lambda>offset. read_answers data (unat ?an) offset [])"
    using False by (simp add: parse_dns_srv_response_def u16_at_ok)
  show ?thesis
  proof (cases "skip_questions data (unat ?qd) 12")
    case (Ok p)
    have "unat ?an < 65536" using unsigned_less [where 'a = nat, of ?an] by simp
    moreover have "addr_fits data = (\<lambda>p. length (bp_addr p) \<le> length data + 5638)" by (simp add: fun_eq_iff addr_fits_def)
    ultimately show ?thesis
      using read_answers_total [of data "[]" "unat ?an" p] by (auto simp: eq Ok split: result.splits)
  qed (use skip_questions_no_panic in \<open>auto simp: eq\<close>)
qed (simp add: parse_dns_srv_response_def)

section \<open>The peers a node starts from\<close>

text \<open>The new peers of which no earlier one has the id.\<close>

definition news :: "BootstrapPeer list \<Rightarrow> BootstrapPeer list \<Rightarrow> BootstrapPeer list \<Rightarrow> bool" where
  "news peers new added \<longleftrightarrow> set added \<subseteq> set new \<and> distinct (map bp_id added) \<and>
     (\<forall>p \<in> set added. bp_id p \<notin> bp_id ` set peers) \<and> (\<forall>p \<in> set new. bp_id p \<in> bp_id ` set (peers @ added))"

lemma add_new_peers_spec: "\<exists>added. add_new_peers peers new = peers @ added \<and> news peers new added"
proof (induction new arbitrary: peers)
  case (Cons p new)
  have step: "add_new_peers peers (p # new) =
      add_new_peers (if bp_id p \<in> bp_id ` set peers then peers else peers @ [p]) new"
    by (auto simp: add_new_peers_def list_ex_iff image_iff dest: sym)
  show ?case
  proof (cases "bp_id p \<in> bp_id ` set peers")
    case True
    obtain added where a: "add_new_peers peers new = peers @ added" "news peers new added"
      using Cons.IH [of peers] by (elim exE conjE)
    moreover have "news peers (p # new) added" using True a(2) by (simp add: news_def image_Un subset_insertI2)
    ultimately show ?thesis unfolding step using True by auto
  next
    case False
    obtain added where a: "add_new_peers (peers @ [p]) new = (peers @ [p]) @ added" "news (peers @ [p]) new added"
      using Cons.IH [of "peers @ [p]"] by (elim exE conjE)
    moreover have "news peers (p # new) (p # added)" using False a(2) by (auto simp: news_def)
    ultimately show ?thesis unfolding step using False by auto
  qed
qed (simp add: add_new_peers_def news_def)

text \<open>The peers of \<^verbatim>\<open>bootstrap.toml\<close> come first, as they are, and alone when the file turns the
  defaults off. Otherwise the peers of the SRV records and the compiled-in ones follow, each only
  when no earlier peer has its id, and the id of each of them is there in the end.\<close>

theorem resolve_order:
  assumes "resolve_dns_srv U (lit ''_dsearch._udp.dsearch.network'') = Ok srvs"
  shows "\<exists>added. resolve_bootstrap_peers U T f = Ok (bt_peers (read_bootstrap_toml T f) @ added) \<and>
    (if bt_use_defaults (read_bootstrap_toml T f)
     then news (bt_peers (read_bootstrap_toml T f)) (srvs @ default_bootstrap_peers) added
     else added = [])"
proof (cases "bt_use_defaults (read_bootstrap_toml T f)")
  case True
  have "add_new_peers (add_new_peers ps srvs) default_bootstrap_peers = add_new_peers ps (srvs @ default_bootstrap_peers)" for ps
    by (simp add: add_new_peers_def)
  with True add_new_peers_spec [of "bt_peers (read_bootstrap_toml T f)" "srvs @ default_bootstrap_peers"] assms
  show ?thesis by (auto simp: resolve_bootstrap_peers_def Let_def)
qed (use assms in \<open>simp add: resolve_bootstrap_peers_def Let_def\<close>)

text \<open>A concrete codec, for the runs below.\<close>

fun triples :: "ustr list \<Rightarrow> BootstrapPeer list" where
  "triples (a # b # c # xs) = \<lparr>bp_id = a, bp_addr = b, bp_note = c\<rparr> # triples xs"
| "triples xs = []"

definition sample_toml :: toml where
  "sample_toml = \<lparr>
     toml_from_str = (\<lambda>s. case s of
         n # t \<Rightarrow> (case dec_strs t of Some (xs, []) \<Rightarrow> Ok \<lparr>bt_use_defaults = (n = 1), bt_peers = triples xs\<rparr>
           | _ \<Rightarrow> Err (lit ''expected an array''))
       | [] \<Rightarrow> Err (lit ''empty'')),
     toml_to_string = (\<lambda>c. Ok ((if bt_use_defaults c then 1 else 0) #
       enc_strs (concat (map (\<lambda>p. [bp_id p, bp_addr p, bp_note p]) (bt_peers c)))))\<rparr>"

definition toml_laws :: "toml \<Rightarrow> bool" where
  "toml_laws T \<longleftrightarrow> (\<forall>c. \<exists>s. toml_to_string T c = Ok s \<and> toml_from_str T s = Ok c)"

lemma triples_peers: "triples (concat (map (\<lambda>p. [bp_id p, bp_addr p, bp_note p]) ps)) = ps"
  by (induction ps) auto

lemma sample_toml_laws: "toml_laws sample_toml"
  using dec_enc_strs [of _ "[]"] by (auto simp: toml_laws_def sample_toml_def triples_peers)

theorem resolve_order_witness:
  "\<exists>added. resolve_bootstrap_peers (seed_server\<lparr>ud_bind := Err []\<rparr>) sample_toml (plain_file None) = Ok added \<and>
     bp_id ` set default_bootstrap_peers \<subseteq> bp_id ` set added"
proof -
  have "resolve_dns_srv (seed_server\<lparr>ud_bind := Err []\<rparr>) (lit ''_dsearch._udp.dsearch.network'') = Ok []"
    by (simp add: resolve_dns_srv_def query_dns_srv_def)
  from resolve_order [OF this, of sample_toml "plain_file None"] show ?thesis
    by (force simp: read_bootstrap_toml_def news_def)
qed

section \<open>Adding and removing a peer\<close>

lemma read_bootstrap_toml_readable:
  "fl_read_error f = None \<Longrightarrow> read_bootstrap_toml T f =
     (case fl_contents f of Some s \<Rightarrow> parse_or_default T s | None \<Rightarrow> \<lparr>bt_use_defaults = True, bt_peers = []\<rparr>)"
  by (auto simp: read_bootstrap_toml_def file_exists_def read_to_string_def parse_or_default_def split: option.splits result.splits)

lemma parse_print: "toml_laws T \<Longrightarrow> parse_or_default T (print_or_default T c) = c"
proof -
  assume "toml_laws T"
  then obtain s where "toml_to_string T c = Ok s" "toml_from_str T s = Ok c" unfolding toml_laws_def by blast
  then show ?thesis by (simp add: parse_or_default_def print_or_default_def)
qed

text \<open>Adding a peer to \<^verbatim>\<open>bootstrap.toml\<close> puts it after the others, whether or not there was a
  file; removing its id then gives the peers and the flag back, when no other peer has that id,
  and removing it once more changes nothing and says so.\<close>

theorem write_then_remove_peer:
  assumes "toml_laws T" and "fl_read_error f = None" and "fl_write_error f = None"
    and "\<forall>p \<in> set (bt_peers (read_bootstrap_toml T f)). bp_id p \<noteq> i"
  shows "\<exists>f1 f2. write_bootstrap_peer T i addr note f = (Ok (), f1) \<and>
    read_bootstrap_toml T f1 = (read_bootstrap_toml T f)\<lparr>bt_peers :=
      bt_peers (read_bootstrap_toml T f) @ [\<lparr>bp_id = i, bp_addr = addr, bp_note = note\<rparr>]\<rparr> \<and>
    remove_bootstrap_peer T i f1 = (Ok True, f2) \<and> read_bootstrap_toml T f2 = read_bootstrap_toml T f \<and>
    remove_bootstrap_peer T i f2 = (Ok False, f2)"
proof -
  let ?c = "read_bootstrap_toml T f"
  let ?c1 = "?c\<lparr>bt_peers := bt_peers ?c @ [\<lparr>bp_id = i, bp_addr = addr, bp_note = note\<rparr>]\<rparr>"
  let ?f1 = "f\<lparr>fl_contents := Some (print_or_default T ?c1)\<rparr>" and ?f2 = "f\<lparr>fl_contents := Some (print_or_default T ?c)\<rparr>"
  have kept: "filter (\<lambda>p. bp_id p \<noteq> i) (bt_peers ?c) = bt_peers ?c" using assms(4) by simp
  have c: "(if file_exists f then rbind (read_to_string f) (\<lambda>s. Ok (parse_or_default T s))
      else Ok \<lparr>bt_use_defaults = True, bt_peers = []\<rparr>) = Ok ?c"
    using assms(2) by (auto simp: read_bootstrap_toml_readable file_exists_def read_to_string_def split: option.splits)
  have "write_bootstrap_peer T i addr note f = (Ok (), ?f1)"
    using assms(3) by (simp add: write_bootstrap_peer_def c write_file_Ok)
  moreover have "read_bootstrap_toml T ?f1 = ?c1" "read_bootstrap_toml T ?f2 = ?c"
    using assms(1,2) by (simp_all add: read_bootstrap_toml_readable parse_print)
  moreover have "remove_bootstrap_peer T i ?f1 = (Ok True, ?f2)"
    using assms(1-3) kept
    by (simp add: remove_bootstrap_peer_def file_exists_def read_to_string_def parse_print Let_def write_file_def)
  moreover have "remove_bootstrap_peer T i ?f2 = (Ok False, ?f2)"
    using assms(1-3) kept
    by (simp add: remove_bootstrap_peer_def file_exists_def read_to_string_def parse_print Let_def)
  ultimately show ?thesis by blast
qed

theorem write_then_remove_peer_witness:
  "\<exists>f1 f2. write_bootstrap_peer sample_toml (lit ''a'') (lit ''1.2.3.4:7744'') [] (plain_file None) = (Ok (), f1) \<and>
     map bp_id (bt_peers (read_bootstrap_toml sample_toml f1)) = [lit ''a''] \<and>
     remove_bootstrap_peer sample_toml (lit ''a'') f1 = (Ok True, f2) \<and> bt_peers (read_bootstrap_toml sample_toml f2) = []"
proof -
  have "bt_peers (read_bootstrap_toml sample_toml (plain_file None)) = []"
    by (simp add: read_bootstrap_toml_def)
  with write_then_remove_peer [OF sample_toml_laws, of "plain_file None" "lit ''a''" "lit ''1.2.3.4:7744''" "[]"]
  show ?thesis by (auto simp: plain_file_def)
qed

end
