(* ===== verification/Text.thy ===== *)
theory Text
  imports Prelude
begin

text \<open>
  More of the standard library's strings: replacement, words, and the facts on trimming and
  lines that the configuration and the scraper use.
\<close>

section \<open>Replacement\<close>

text \<open>\<^verbatim>\<open>str::replace\<close> for a pattern that is not empty: every occurrence, from the left, without
  overlaps.\<close>

function replace_str :: "ustr \<Rightarrow> ustr \<Rightarrow> ustr \<Rightarrow> ustr" where
  "replace_str p r [] = []"
| "replace_str p r (c # s) =
     (if p \<noteq> [] \<and> starts_with p (c # s) then r @ replace_str p r (drop (length p) (c # s))
      else c # replace_str p r s)"
  by pat_completeness auto
termination by (relation "measure (\<lambda>(p, r, s). length s)") (auto simp: neq_Nil_conv)

section \<open>Trimming\<close>

lemma trim_fixed: "s \<noteq> [] \<Longrightarrow> \<not> is_whitespace (hd s) \<Longrightarrow> \<not> is_whitespace (last s) \<Longrightarrow> trim s = s"
proof -
  assume s: "s \<noteq> []" "\<not> is_whitespace (hd s)" "\<not> is_whitespace (last s)"
  then have "dropWhile is_whitespace s = s" "dropWhile is_whitespace (rev s) = rev s"
    by (simp_all add: dropWhile_eq_self_iff hd_rev)
  then show ?thesis by (simp add: trim_def trim_end_def)
qed

lemma digit_not_space: "is_digit c \<Longrightarrow> \<not> is_whitespace c"
  by (auto simp: is_digit_def is_whitespace_def)

lemma to_dec_ends: "\<not> is_whitespace (hd (to_dec n))" "\<not> is_whitespace (last (to_dec n))"
  using to_dec_digits [of n] digit_not_space by (simp_all add: list_all_iff)

section \<open>Lines\<close>

lemma lines_append_newline: "lines (a @ 10 # b) = map strip_cr (split_on 10 a) @ lines b"
proof -
  have "split_on 10 (a @ 10 # b) = split_on 10 a @ split_on 10 b"
    by (induction a) (auto split: list.splits)
  then show ?thesis by (simp add: lines_def Let_def butlast_append)
qed

section \<open>Words\<close>

text \<open>\<^verbatim>\<open>split_whitespace\<close>.\<close>

function text_words :: "ustr \<Rightarrow> ustr list" where
  "text_words [] = []"
| "text_words (c # s) =
     (if is_whitespace c then text_words s
      else (c # takeWhile (\<lambda>c. \<not> is_whitespace c) s) # text_words (dropWhile (\<lambda>c. \<not> is_whitespace c) s))"
  by pat_completeness auto
termination by (relation "measure length") (auto simp: less_Suc_eq_le length_dropWhile_le)

definition is_word :: "ustr \<Rightarrow> bool" where
  "is_word w \<longleftrightarrow> w \<noteq> [] \<and> list_all (\<lambda>c. \<not> is_whitespace c) w"

lemma text_words_words: "list_all is_word (text_words s)"
proof (induction s rule: text_words.induct)
  case (2 c s)
  show ?case
  proof (cases "is_whitespace c")
    case False
    then have "is_word (c # takeWhile (\<lambda>c. \<not> is_whitespace c) s)"
      by (auto simp: is_word_def list_all_iff dest: set_takeWhileD)
    with 2(2) [OF False] False show ?thesis by simp
  qed (use 2(1) in simp)
qed simp

lemma text_words_word:
  assumes "is_word w" and "s = [] \<or> is_whitespace (hd s)"
  shows "text_words (w @ s) = w # text_words s"
proof -
  obtain c v where w: "w = c # v" "\<not> is_whitespace c" "\<forall>c \<in> set v. \<not> is_whitespace c"
    using assms(1) by (cases w) (auto simp: is_word_def list_all_iff)
  have "takeWhile (\<lambda>c. \<not> is_whitespace c) (v @ s) = v" "dropWhile (\<lambda>c. \<not> is_whitespace c) (v @ s) = s"
    using w(3) assms(2) by (cases s; simp)+
  then show ?thesis using w(1,2) by simp
qed

lemma text_words_join: "list_all is_word ws \<Longrightarrow> text_words (join [32] ws) = ws"
proof (induction ws rule: induct_list012)
  case (2 x)
  then show ?case using text_words_word [of x "[]"] by simp
next
  case (3 x y xs)
  have "is_whitespace 32" by (simp add: is_whitespace_def)
  with 3 text_words_word [of x "32 # join [32] (y # xs)"] show ?case by simp
qed simp

lemma join_words_ends:
  assumes "list_all is_word ws" and "ws \<noteq> []"
  shows "join sep ws \<noteq> []" "\<not> is_whitespace (hd (join sep ws))" "\<not> is_whitespace (last (join sep ws))"
proof -
  have "join sep ws \<noteq> [] \<and> \<not> is_whitespace (hd (join sep ws)) \<and> \<not> is_whitespace (last (join sep ws))"
    using assms
  proof (induction ws rule: induct_list012)
    case (2 x)
    then show ?case by (auto simp: is_word_def list_all_iff)
  next
    case (3 x y xs)
    then have "x \<noteq> []" "\<not> is_whitespace (hd x)" by (auto simp: is_word_def list_all_iff)
    with 3 show ?case by simp
  qed simp
  then show "join sep ws \<noteq> []" "\<not> is_whitespace (hd (join sep ws))" "\<not> is_whitespace (last (join sep ws))" by auto
qed

section \<open>Searching\<close>

lemma split_str_skip:
  assumes "p = c # q" and "c \<notin> set a"
  shows "split_str p (a @ s) = map_option (\<lambda>(b, r). (a @ b, r)) (split_str p s)"
  using assms(2)
proof (induction a)
  case (Cons d a)
  then have "\<not> starts_with p (d # a @ s)" using assms(1) by (simp add: starts_with_def)
  with Cons show ?case by (cases "split_str p s") auto
qed (cases "split_str p s"; auto)

lemma split_str_here: "p \<noteq> [] \<Longrightarrow> split_str p (p @ s) = Some ([], s)"
proof -
  assume "p \<noteq> []"
  then obtain c q where p: "p = c # q" by (cases p) auto
  have "starts_with p (p @ s)" by simp
  then show ?thesis by (simp add: p)
qed

lemma split_str_found: "p = c # q \<Longrightarrow> c \<notin> set a \<Longrightarrow> split_str p (a @ p @ s) = Some (a, s)"
  using split_str_here [of p s] by (simp add: split_str_skip)

lemma split_str_absent: "p = c # q \<Longrightarrow> c \<notin> set a \<Longrightarrow> split_str p a = None"
  using split_str_skip [of p c q a "[]"] by simp

text \<open>\<^verbatim>\<open>split(p)\<close> for a string pattern.\<close>

function split_all :: "ustr \<Rightarrow> ustr \<Rightarrow> ustr list" where
  "split_all p s = (if p = [] then [s] else case split_str p s of None \<Rightarrow> [s] | Some (a, b) \<Rightarrow> a # split_all p b)"
  by pat_completeness auto
termination
proof (relation "measure (\<lambda>(p, s). length s)")
  fix p s x a b
  assume "p \<noteq> []" "split_str p s = Some x" "(a, b) = x"
  then have "s = a @ p @ b" by (simp add: split_str_SomeD)
  with \<open>p \<noteq> []\<close> show "((p, b), (p, s)) \<in> measure (\<lambda>(p, s). length s)" by simp
qed simp

declare split_all.simps [simp del]

text \<open>The last occurrence of a character (\<^verbatim>\<open>rfind\<close>).\<close>

definition rsplit_once :: "uchar \<Rightarrow> ustr \<Rightarrow> (ustr \<times> ustr) option" where
  "rsplit_once c s = map_option (\<lambda>(b, a). (rev a, rev b)) (split_once c (rev s))"

lemma rsplit_once_append: "c \<notin> set b \<Longrightarrow> rsplit_once c (a @ c # b) = Some (a, b)"
  using split_once_append [of c "rev b" "rev a"] by (simp add: rsplit_once_def)

lemma rsplit_once_None_iff: "rsplit_once c s = None \<longleftrightarrow> c \<notin> set s"
  using split_once_None_iff [of c "rev s"] by (simp add: rsplit_once_def)

definition strip_suffix :: "ustr \<Rightarrow> ustr \<Rightarrow> ustr option" where
  "strip_suffix p s = (if ends_with p s then Some (take (length s - length p) s) else None)"

lemma split_str_free:
  assumes "p = c # q" and "c \<notin> set q" and "s = [] \<or> hd s = c" and "\<not> str_contains a p"
  shows "split_str p (a @ s) = map_option (\<lambda>(b, r). (a @ b, r)) (split_str p s)"
  using assms(4)
proof (induction a)
  case (Cons d a)
  have "\<not> starts_with p (d # a @ s)"
  proof
    assume "starts_with p (d # a @ s)"
    then obtain r where r: "d # a @ s = p @ r" by (auto simp: starts_with_iff)
    then obtain u where "(d # a = p @ u) \<or> (p = (d # a) @ u \<and> s = u @ r)"
      using append_eq_append_conv2 [of "d # a" s p r] by auto
    then show False
    proof
      assume "d # a = p @ u"
      then show False using Cons.prems by (metis append_Nil str_contains_iff)
    next
      assume u: "p = (d # a) @ u \<and> s = u @ r"
      show False
      proof (cases u)
        case Nil
        with u have "d # a = p @ []" by simp
        then show False using Cons.prems by (metis append_Nil str_contains_iff)
      next
        case (Cons x v)
        with u assms(3) have "x = c" by auto
        with u Cons assms(1,2) show False by auto
      qed
    qed
  qed
  with Cons show ?case by (cases "split_str p s") auto
qed (cases "split_str p s"; auto)

end
