(* ===== verification/Config.thy ===== *)
theory Config
  imports Model Disk Text
begin

text \<open>
  \<^verbatim>\<open>src/src/config/mod.rs\<close> and \<^verbatim>\<open>src/src/config/migrations.rs\<close>: the configuration, its
  defaults, loading and saving \<^verbatim>\<open>config.toml\<close> with its version, and setting a key by its name.
  TOML is a parameter. The keys that can be set, with the text of their values, are the abstract
  view of a configuration: \<open>config_view\<close>.
\<close>

section \<open>The configuration\<close>

definition CURRENT_CONFIG_VERSION :: u32 where "CURRENT_CONFIG_VERSION = 1"

record ScrapeJob =
  sj_name :: ustr
  sj_source :: ScrapeSource
  sj_target :: ustr
  sj_transform :: "ustr option"
  sj_refresh :: RefreshPolicy
  sj_interval_secs :: u64
  sj_lifecycle :: Lifecycle
  sj_ttl_secs :: u64
  sj_max_results :: "u32 option"

record NodeConfig =
  nc_role :: ustr
  nc_max_connections :: u32
  nc_min_protocol_version :: u8
  nc_ipv4 :: bool
  nc_ipv6 :: bool
  nc_max_concurrent_queries :: u32

record ApiConfig =
  ac_port :: u16

record GatewayConfig =
  gc_enabled :: bool
  gc_bind :: ustr
  gc_rate_limit_per_min :: u32
  gc_require_api_key :: bool

record RelayConfig =
  rc_bandwidth_limit_mbps :: u32

record ScraperConfig =
  xc_default_interval_secs :: u64
  xc_default_replicate :: u32
  xc_default_lifecycle :: ustr
  xc_jobs :: "ScrapeJob list"

record LogConfig =
  lc_level :: ustr
  lc_output :: ustr
  lc_file :: ustr
  lc_max_size_mb :: u32
  lc_rotate_count :: u32

record BootstrapConfig =
  bc_use_defaults :: bool

record DsearchConfig =
  cf_node :: NodeConfig
  cf_api :: ApiConfig
  cf_gateway :: GatewayConfig
  cf_storage :: StorageConfig
  cf_relay :: RelayConfig
  cf_scraper :: ScraperConfig
  cf_log :: LogConfig
  cf_bootstrap :: BootstrapConfig

definition NodeConfig_default :: NodeConfig where
  "NodeConfig_default = \<lparr>nc_role = lit ''light'', nc_max_connections = 200, nc_min_protocol_version = 1,
     nc_ipv4 = True, nc_ipv6 = True, nc_max_concurrent_queries = 50\<rparr>"

definition ApiConfig_default :: ApiConfig where
  "ApiConfig_default = \<lparr>ac_port = 7743\<rparr>"

definition GatewayConfig_default :: GatewayConfig where
  "GatewayConfig_default = \<lparr>gc_enabled = False, gc_bind = lit ''0.0.0.0:7744'', gc_rate_limit_per_min = 60,
     gc_require_api_key = False\<rparr>"

definition StorageConfig_default :: StorageConfig where
  "StorageConfig_default = \<lparr>sc_quota_mb = 0, sc_quota_action = lit ''evict_oldest'', sc_tier2_max_mb = 512\<rparr>"

definition RelayConfig_default :: RelayConfig where
  "RelayConfig_default = \<lparr>rc_bandwidth_limit_mbps = 100\<rparr>"

definition ScraperConfig_default :: ScraperConfig where
  "ScraperConfig_default = \<lparr>xc_default_interval_secs = 3600, xc_default_replicate = 0,
     xc_default_lifecycle = lit ''ephemeral'', xc_jobs = []\<rparr>"

definition LogConfig_default :: LogConfig where
  "LogConfig_default = \<lparr>lc_level = lit ''info'', lc_output = lit ''stderr'', lc_file = lit ''{data_dir}/dsearch.log'',
     lc_max_size_mb = 50, lc_rotate_count = 3\<rparr>"

definition BootstrapConfig_default :: BootstrapConfig where
  "BootstrapConfig_default = \<lparr>bc_use_defaults = True\<rparr>"

definition DsearchConfig_default :: DsearchConfig where
  "DsearchConfig_default = \<lparr>cf_node = NodeConfig_default, cf_api = ApiConfig_default, cf_gateway = GatewayConfig_default,
     cf_storage = StorageConfig_default, cf_relay = RelayConfig_default, cf_scraper = ScraperConfig_default,
     cf_log = LogConfig_default, cf_bootstrap = BootstrapConfig_default\<rparr>"

section \<open>Loading and saving\<close>

text \<open>\<^verbatim>\<open>toml::from_str\<close> and \<^verbatim>\<open>toml::to_string_pretty\<close> at \<open>DsearchConfig\<close>.\<close>

record config_toml =
  cfg_from_str :: "ustr \<Rightarrow> (DsearchConfig, ustr) result"
  cfg_to_string :: "DsearchConfig \<Rightarrow> (ustr, ustr) result"

text \<open>The lines after \<^verbatim>\<open>[meta]\<close>, up to the next header, are searched for a line that begins with
  \<^verbatim>\<open>config_version\<close> and has an equals sign; what follows the sign decides.\<close>

fun extract_loop :: "bool \<Rightarrow> ustr list \<Rightarrow> u32 option" where
  "extract_loop in_meta [] = None"
| "extract_loop in_meta (line # ls) =
     (let trimmed = trim line in
      if trimmed = lit ''[meta]'' then extract_loop True ls
      else if starts_with (lit ''['') trimmed then extract_loop False ls
      else if in_meta \<and> starts_with (lit ''config_version'') trimmed then
        (case split_once 61 trimmed of
           Some (_, val) \<Rightarrow> map_option of_nat (parse_uint (2 ^ 32 - 1) (trim val))
         | None \<Rightarrow> extract_loop in_meta ls)
      else extract_loop in_meta ls)"

definition extract_config_version :: "ustr \<Rightarrow> u32 option" where
  "extract_config_version toml_str = extract_loop False (lines toml_str)"

definition future_version :: "u32 \<Rightarrow> ustr" where
  "future_version version = lit ''config_version '' @ to_dec (unat version) @ lit '' is from a future version (current: '' @
     to_dec (unat CURRENT_CONFIG_VERSION) @ lit ''). Downgrading is not supported''"

definition load_config :: "config_toml \<Rightarrow> text_file \<Rightarrow> (DsearchConfig, ustr) result" where
  "load_config T f =
     (if file_exists f then
        rbind (with_ctx ''Failed to read config.toml'' (read_to_string f)) (\<lambda>contents.
        rbind (with_ctx ''Failed to parse config.toml'' (cfg_from_str T contents)) (\<lambda>config.
        case extract_config_version contents of
          Some version \<Rightarrow>
            if CURRENT_CONFIG_VERSION < version
            then Err (future_version version @ [32, 0x2014] @ lit '' your data may be corrupted.'')
            else Ok config
        | None \<Rightarrow> Ok config))
      else Ok DsearchConfig_default)"

definition meta_section :: "u32 \<Rightarrow> ustr" where
  "meta_section version = [10] @ lit ''[meta]'' @ [10] @ lit ''config_version = '' @ to_dec (unat version) @ [10]"

definition save_config :: "config_toml \<Rightarrow> DsearchConfig \<Rightarrow> text_file \<Rightarrow> (unit, ustr) result \<times> text_file" where
  "save_config T config f =
     (let existing_version =
        (if file_exists f
         then rbind (with_ctx ''Failed to read config.toml'' (read_to_string f)) (\<lambda>contents. Ok (extract_config_version contents))
         else Ok None)
      in case existing_version of
           Err e \<Rightarrow> (Err e, f) | Panic \<Rightarrow> (Panic, f)
         | Ok existing_version \<Rightarrow>
             (case with_ctx ''Failed to serialize config'' (cfg_to_string T config) of
                Err e \<Rightarrow> (Err e, f) | Panic \<Rightarrow> (Panic, f)
              | Ok toml_str \<Rightarrow>
                  let version = (case existing_version of Some v \<Rightarrow> v | None \<Rightarrow> CURRENT_CONFIG_VERSION)
                  in (case write_file (trim_end toml_str @ meta_section version) f of
                        (r, f) \<Rightarrow> (with_ctx ''Failed to write config.toml'' r, f))))"

definition default_config_toml :: "config_toml \<Rightarrow> ustr" where
  "default_config_toml T =
     (case cfg_to_string T DsearchConfig_default of Ok s \<Rightarrow> s | _ \<Rightarrow> []) @ meta_section CURRENT_CONFIG_VERSION"

definition run_migrations :: "u32 \<Rightarrow> (unit, ustr) result" where
  "run_migrations current_version =
     (if CURRENT_CONFIG_VERSION < current_version then Err (future_version current_version @ lit ''.'') else Ok ())"

section \<open>Setting a key\<close>

text \<open>The arms of the match: the key and what it does with the value. \<^verbatim>\<open>parse::<bool>\<close> takes the two
  literals only.\<close>

definition invalid_value :: "ustr \<Rightarrow> string \<Rightarrow> ustr" where
  "invalid_value key ty = lit ''Invalid value for '' @ key @ lit '': expected '' @ lit ty"

definition set_str :: "((ustr \<Rightarrow> ustr) \<Rightarrow> DsearchConfig \<Rightarrow> DsearchConfig) \<Rightarrow> ustr \<Rightarrow> ustr \<Rightarrow> DsearchConfig
    \<Rightarrow> (DsearchConfig, ustr) result" where
  "set_str upd key val c = Ok (upd (\<lambda>_. val) c)"

definition set_bool :: "((bool \<Rightarrow> bool) \<Rightarrow> DsearchConfig \<Rightarrow> DsearchConfig) \<Rightarrow> ustr \<Rightarrow> ustr \<Rightarrow> DsearchConfig
    \<Rightarrow> (DsearchConfig, ustr) result" where
  "set_bool upd key val c =
     (if val = lit ''true'' then Ok (upd (\<lambda>_. True) c)
      else if val = lit ''false'' then Ok (upd (\<lambda>_. False) c)
      else Err (invalid_value key ''bool''))"

definition set_word :: "string \<Rightarrow> (('a::len word \<Rightarrow> 'a word) \<Rightarrow> DsearchConfig \<Rightarrow> DsearchConfig) \<Rightarrow> ustr \<Rightarrow> ustr
    \<Rightarrow> DsearchConfig \<Rightarrow> (DsearchConfig, ustr) result" where
  "set_word ty upd key val c = (case parse_uint (2 ^ LENGTH('a) - 1) val of
     Some n \<Rightarrow> Ok (upd (\<lambda>_. of_nat n) c) | None \<Rightarrow> Err (invalid_value key ty))"

definition config_arms :: "(ustr \<times> (ustr \<Rightarrow> ustr \<Rightarrow> DsearchConfig \<Rightarrow> (DsearchConfig, ustr) result)) list" where
  "config_arms =
    [(lit ''node.role'', set_str (cf_node_update \<circ> nc_role_update)),
     (lit ''node.max_connections'', set_word ''u32'' (cf_node_update \<circ> nc_max_connections_update)),
     (lit ''node.max_concurrent_queries'', set_word ''u32'' (cf_node_update \<circ> nc_max_concurrent_queries_update)),
     (lit ''node.min_protocol_version'', set_word ''u8'' (cf_node_update \<circ> nc_min_protocol_version_update)),
     (lit ''node.ipv4'', set_bool (cf_node_update \<circ> nc_ipv4_update)),
     (lit ''node.ipv6'', set_bool (cf_node_update \<circ> nc_ipv6_update)),
     (lit ''api.port'', set_word ''u16'' (cf_api_update \<circ> ac_port_update)),
     (lit ''gateway.enabled'', set_bool (cf_gateway_update \<circ> gc_enabled_update)),
     (lit ''gateway.bind'', set_str (cf_gateway_update \<circ> gc_bind_update)),
     (lit ''gateway.rate_limit_per_min'', set_word ''u32'' (cf_gateway_update \<circ> gc_rate_limit_per_min_update)),
     (lit ''gateway.require_api_key'', set_bool (cf_gateway_update \<circ> gc_require_api_key_update)),
     (lit ''storage.quota_mb'', set_word ''u32'' (cf_storage_update \<circ> sc_quota_mb_update)),
     (lit ''storage.quota_action'', set_str (cf_storage_update \<circ> sc_quota_action_update)),
     (lit ''storage.tier2_max_mb'', set_word ''u32'' (cf_storage_update \<circ> sc_tier2_max_mb_update)),
     (lit ''relay.bandwidth_limit_mbps'', set_word ''u32'' (cf_relay_update \<circ> rc_bandwidth_limit_mbps_update)),
     (lit ''scraper.default_interval_secs'', set_word ''u64'' (cf_scraper_update \<circ> xc_default_interval_secs_update)),
     (lit ''scraper.default_replicate'', set_word ''u32'' (cf_scraper_update \<circ> xc_default_replicate_update)),
     (lit ''scraper.default_lifecycle'', set_str (cf_scraper_update \<circ> xc_default_lifecycle_update)),
     (lit ''log.level'', set_str (cf_log_update \<circ> lc_level_update)),
     (lit ''log.output'', set_str (cf_log_update \<circ> lc_output_update)),
     (lit ''log.file'', set_str (cf_log_update \<circ> lc_file_update)),
     (lit ''log.max_size_mb'', set_word ''u32'' (cf_log_update \<circ> lc_max_size_mb_update)),
     (lit ''log.rotate_count'', set_word ''u32'' (cf_log_update \<circ> lc_rotate_count_update)),
     (lit ''bootstrap.use_defaults'', set_bool (cf_bootstrap_update \<circ> bc_use_defaults_update))]"

definition set_config_value :: "DsearchConfig \<Rightarrow> ustr \<Rightarrow> ustr \<Rightarrow> (DsearchConfig, ustr) result" where
  "set_config_value config key val = (case map_of config_arms key of
     Some arm \<Rightarrow> arm key val config | None \<Rightarrow> Err (lit ''Unknown config key: '' @ key))"

section \<open>The abstract view\<close>

text \<open>The kinds of value, what each takes, and how it is written back.\<close>

datatype kind = Text | Truth | Number nat

fun kind_name :: "kind \<Rightarrow> ustr" where
  "kind_name Text = lit ''String''"
| "kind_name Truth = lit ''bool''"
| "kind_name (Number n) = lit ''u'' @ to_dec n"

fun canonical :: "kind \<Rightarrow> ustr \<Rightarrow> ustr option" where
  "canonical Text v = Some v"
| "canonical Truth v = (if v \<in> {lit ''true'', lit ''false''} then Some v else None)"
| "canonical (Number n) v = map_option to_dec (parse_uint (2 ^ n - 1) v)"

definition config_kinds :: "(ustr \<times> kind) list" where
  "config_kinds =
    [(lit ''node.role'', Text),
     (lit ''node.max_connections'', Number 32),
     (lit ''node.max_concurrent_queries'', Number 32),
     (lit ''node.min_protocol_version'', Number 8),
     (lit ''node.ipv4'', Truth),
     (lit ''node.ipv6'', Truth),
     (lit ''api.port'', Number 16),
     (lit ''gateway.enabled'', Truth),
     (lit ''gateway.bind'', Text),
     (lit ''gateway.rate_limit_per_min'', Number 32),
     (lit ''gateway.require_api_key'', Truth),
     (lit ''storage.quota_mb'', Number 32),
     (lit ''storage.quota_action'', Text),
     (lit ''storage.tier2_max_mb'', Number 32),
     (lit ''relay.bandwidth_limit_mbps'', Number 32),
     (lit ''scraper.default_interval_secs'', Number 64),
     (lit ''scraper.default_replicate'', Number 32),
     (lit ''scraper.default_lifecycle'', Text),
     (lit ''log.level'', Text),
     (lit ''log.output'', Text),
     (lit ''log.file'', Text),
     (lit ''log.max_size_mb'', Number 32),
     (lit ''log.rotate_count'', Number 32),
     (lit ''bootstrap.use_defaults'', Truth)]"

definition show_bool :: "bool \<Rightarrow> ustr" where
  "show_bool b = (if b then lit ''true'' else lit ''false'')"

definition config_shows :: "DsearchConfig \<Rightarrow> (ustr \<times> ustr) list" where
  "config_shows c =
    [(lit ''node.role'', nc_role (cf_node c)),
     (lit ''node.max_connections'', to_dec (unat (nc_max_connections (cf_node c)))),
     (lit ''node.max_concurrent_queries'', to_dec (unat (nc_max_concurrent_queries (cf_node c)))),
     (lit ''node.min_protocol_version'', to_dec (unat (nc_min_protocol_version (cf_node c)))),
     (lit ''node.ipv4'', show_bool (nc_ipv4 (cf_node c))),
     (lit ''node.ipv6'', show_bool (nc_ipv6 (cf_node c))),
     (lit ''api.port'', to_dec (unat (ac_port (cf_api c)))),
     (lit ''gateway.enabled'', show_bool (gc_enabled (cf_gateway c))),
     (lit ''gateway.bind'', gc_bind (cf_gateway c)),
     (lit ''gateway.rate_limit_per_min'', to_dec (unat (gc_rate_limit_per_min (cf_gateway c)))),
     (lit ''gateway.require_api_key'', show_bool (gc_require_api_key (cf_gateway c))),
     (lit ''storage.quota_mb'', to_dec (unat (sc_quota_mb (cf_storage c)))),
     (lit ''storage.quota_action'', sc_quota_action (cf_storage c)),
     (lit ''storage.tier2_max_mb'', to_dec (unat (sc_tier2_max_mb (cf_storage c)))),
     (lit ''relay.bandwidth_limit_mbps'', to_dec (unat (rc_bandwidth_limit_mbps (cf_relay c)))),
     (lit ''scraper.default_interval_secs'', to_dec (unat (xc_default_interval_secs (cf_scraper c)))),
     (lit ''scraper.default_replicate'', to_dec (unat (xc_default_replicate (cf_scraper c)))),
     (lit ''scraper.default_lifecycle'', xc_default_lifecycle (cf_scraper c)),
     (lit ''log.level'', lc_level (cf_log c)),
     (lit ''log.output'', lc_output (cf_log c)),
     (lit ''log.file'', lc_file (cf_log c)),
     (lit ''log.max_size_mb'', to_dec (unat (lc_max_size_mb (cf_log c)))),
     (lit ''log.rotate_count'', to_dec (unat (lc_rotate_count (cf_log c)))),
     (lit ''bootstrap.use_defaults'', show_bool (bc_use_defaults (cf_bootstrap c)))]"

definition config_view :: "DsearchConfig \<Rightarrow> ustr \<rightharpoonup> ustr" where
  "config_view c = map_of (config_shows c)"

text \<open>An arm does to the \<open>i\<close>-th value of the view what its kind says, and nothing else.\<close>

definition arm_ok :: "nat \<Rightarrow> ustr \<Rightarrow> (ustr \<Rightarrow> ustr \<Rightarrow> DsearchConfig \<Rightarrow> (DsearchConfig, ustr) result) \<Rightarrow> kind \<Rightarrow> bool" where
  "arm_ok i key arm kd \<longleftrightarrow> (\<forall>c val. case canonical kd val of
     None \<Rightarrow> arm key val c = Err (lit ''Invalid value for '' @ key @ lit '': expected '' @ kind_name kd)
   | Some t \<Rightarrow> \<exists>c'. arm key val c = Ok c' \<and> map snd (config_shows c') = (map snd (config_shows c))[i := t] \<and>
       xc_jobs (cf_scraper c') = xc_jobs (cf_scraper c))"

lemma arm_ok_str:
  assumes "\<And>c v. map snd (config_shows (upd (\<lambda>_. v) c)) = (map snd (config_shows c))[i := v] \<and>
    xc_jobs (cf_scraper (upd (\<lambda>_. v) c)) = xc_jobs (cf_scraper c)"
  shows "arm_ok i key (set_str upd) Text"
  using assms by (simp add: arm_ok_def set_str_def)

lemma arm_ok_bool:
  assumes "\<And>c v. map snd (config_shows (upd (\<lambda>_. v) c)) = (map snd (config_shows c))[i := show_bool v] \<and>
    xc_jobs (cf_scraper (upd (\<lambda>_. v) c)) = xc_jobs (cf_scraper c)"
  shows "arm_ok i key (set_bool upd) Truth"
  using assms [of True] assms [of False] by (simp add: arm_ok_def set_bool_def invalid_value_def show_bool_def)

lemma arm_ok_word:
  assumes upd: "\<And>c (v :: 'a::len word). map snd (config_shows (upd (\<lambda>_. v) c)) = (map snd (config_shows c))[i := to_dec (unat v)] \<and>
    xc_jobs (cf_scraper (upd (\<lambda>_. v) c)) = xc_jobs (cf_scraper c)"
    and n: "LENGTH('a) = n" and ty: "lit ty = lit ''u'' @ to_dec n"
  shows "arm_ok i key (set_word ty upd) (Number n)"
proof -
  have "unat (of_nat m :: 'a word) = m" if "parse_uint (2 ^ LENGTH('a) - 1) val = Some m" for val m
  proof -
    have "(0 :: nat) < 2 ^ LENGTH('a)" by simp
    with parse_uint_bound [OF that] have "m < 2 ^ LENGTH('a)" by linarith
    then show ?thesis by (simp add: unsigned_of_nat take_bit_nat_eq_self_iff)
  qed
  with upd show ?thesis
    by (auto simp: arm_ok_def set_word_def invalid_value_def n ty split: option.splits)
qed

lemma arms_ok:
  "list_all (\<lambda>(i, (k, arm), (k', kd)). k = k' \<and> arm_ok i k arm kd) (zip [0..<24] (zip config_arms config_kinds))"
proof -
  have u: "lit ''u8'' = lit ''u'' @ to_dec 8" "lit ''u16'' = lit ''u'' @ to_dec 16" "lit ''u32'' = lit ''u'' @ to_dec 32"
    "lit ''u64'' = lit ''u'' @ to_dec 64"
    by (simp_all add: lit_def to_dec.simps)
  have nums: "[0..<24] = [0, 1, 2, 3, 4, 5, 6, 7, 8, 9, 10, 11, 12, 13, 14, 15, 16, 17, 18, 19, 20, 21, 22, 23]"
    by (simp add: upt_rec)
  show ?thesis
    unfolding config_arms_def config_kinds_def nums
    by (simp only: zip_Cons_Cons zip_Nil list.pred_inject case_prod_conv simp_thms,
        intro conjI arm_ok_str arm_ok_bool arm_ok_word u; simp add: config_shows_def)
qed

lemma config_keys:
  "map fst config_arms = map fst config_kinds" "map fst (config_shows c) = map fst config_kinds"
  "distinct (map fst config_kinds)" "length config_kinds = 24"
  by (simp_all add: config_arms_def config_kinds_def config_shows_def)

lemma map_of_nth:
  "distinct (map fst xs) \<Longrightarrow> map_of xs k = Some v \<longleftrightarrow> (\<exists>i < length xs. xs ! i = (k, v))"
  by (metis in_set_conv_nth map_of_eq_Some_iff)

lemma map_of_list_update:
  assumes "map fst ys = map fst xs" and "map snd ys = (map snd xs)[i := t]" and "distinct (map fst xs)" and "i < length xs"
  shows "map_of ys = (map_of xs)(fst (xs ! i) \<mapsto> t)"
proof -
  have "ys = xs[i := (fst (xs ! i), t)]"
  proof (rule nth_equalityI)
    show l: "length ys = length (xs[i := (fst (xs ! i), t)])" using assms(1) by (metis length_list_update length_map)
    fix j assume j: "j < length ys"
    then have "fst (ys ! j) = fst (xs ! j)" "snd (ys ! j) = (map snd xs)[i := t] ! j"
      using assms(1,2) l by (metis length_list_update nth_map)+
    then show "ys ! j = xs[i := (fst (xs ! i), t)] ! j"
      using j l assms(4) by (cases "i = j") (auto intro: prod_eqI)
  qed
  moreover have "map_of (xs[i := (fst (xs ! i), t)]) = (map_of xs)(fst (xs ! i) \<mapsto> t)"
    using assms(3,4)
  proof (induction xs arbitrary: i)
    case (Cons x xs)
    show ?case
    proof (cases i)
      case (Suc j)
      with Cons have "map_of (xs[j := (fst (xs ! j), t)]) = (map_of xs)(fst (xs ! j) \<mapsto> t)" "fst (xs ! j) \<noteq> fst x"
        by (auto simp: image_iff) (metis nth_mem)
      then show ?thesis by (cases x) (auto simp: Suc)
    qed (cases x, simp add: fun_eq_iff)
  qed simp
  ultimately show ?thesis by simp
qed

lemma config_arm:
  assumes "map_of config_kinds key = Some kd"
  obtains i arm where "i < 24" "map_of config_arms key = Some arm" "fst (config_shows c ! i) = key" "arm_ok i key arm kd"
proof -
  obtain i where i: "i < 24" "config_kinds ! i = (key, kd)"
    using assms config_keys(3,4) map_of_nth [OF config_keys(3)] by auto
  let ?arm = "snd (config_arms ! i)"
  have len: "length config_arms = 24" "length (config_shows c) = 24"
    using config_keys by (metis length_map)+
  have k: "fst (config_arms ! i) = key" "fst (config_shows c ! i) = key"
    using config_keys(1,2) i len by (metis fst_conv nth_map config_keys(4))+
  then have "map_of config_arms key = Some ?arm"
    using i len config_keys by (metis map_of_nth prod.collapse)
  moreover have "arm_ok i key ?arm kd"
    using arms_ok i len config_keys(4) k
    by (auto simp: list_all_length split_beta)
  ultimately show thesis using that i(1) k(2) by blast
qed

text \<open>C19: Setting a key is an update of the abstract view. A key that is not in the table is refused,
  and so is a value that is not of the key's kind: a number in decimal, with an optional plus
  sign, no larger than its width, or one of the two truth values; both leave the configuration
  to the caller as it was. Otherwise the view changes at that key only, to the canonical text of
  the value, and the jobs stay.\<close>

theorem set_config_value_refines:
  "case set_config_value c key val of
     Ok c' \<Rightarrow> (\<exists>kd t. map_of config_kinds key = Some kd \<and> canonical kd val = Some t \<and>
       config_view c' = (config_view c)(key \<mapsto> t) \<and> xc_jobs (cf_scraper c') = xc_jobs (cf_scraper c))
   | Err e \<Rightarrow> (case map_of config_kinds key of
       None \<Rightarrow> e = lit ''Unknown config key: '' @ key
     | Some kd \<Rightarrow> canonical kd val = None \<and> e = lit ''Invalid value for '' @ key @ lit '': expected '' @ kind_name kd)
   | Panic \<Rightarrow> False"
proof (cases "map_of config_kinds key")
  case None
  then have "map_of config_arms key = None" using config_keys(1) by (simp add: map_of_eq_None_iff flip: set_map)
  with None show ?thesis by (simp add: set_config_value_def)
next
  case (Some kd)
  obtain i arm where i: "i < 24" "map_of config_arms key = Some arm" "fst (config_shows c ! i) = key" "arm_ok i key arm kd"
    by (rule config_arm [OF Some])
  have set: "set_config_value c key val = arm key val c" using i(2) by (simp add: set_config_value_def)
  show ?thesis
  proof (cases "canonical kd val")
    case None
    with i(4) have "arm key val c = Err (lit ''Invalid value for '' @ key @ lit '': expected '' @ kind_name kd)"
      unfolding arm_ok_def by (auto dest!: spec [of _ c] spec [of _ val])
    with None Some show ?thesis by (simp add: set)
  next
    case can: (Some t)
    with i(4) obtain c' where c': "arm key val c = Ok c'" "map snd (config_shows c') = (map snd (config_shows c))[i := t]"
      "xc_jobs (cf_scraper c') = xc_jobs (cf_scraper c)"
      unfolding arm_ok_def by (auto dest!: spec [of _ c] spec [of _ val])
    have "length (config_shows c) = 24" using config_keys by (metis length_map)
    then have "config_view c' = (config_view c)(key \<mapsto> t)"
      using map_of_list_update [OF _ c'(2)] config_keys i(1,3) by (simp add: config_view_def)
    with Some can c' show ?thesis by (simp add: set)
  qed
qed

section \<open>The version line\<close>

text \<open>No line of a text is the header of the section the version is kept in.\<close>

definition no_meta :: "ustr \<Rightarrow> bool" where
  "no_meta s \<longleftrightarrow> (\<forall>l \<in> set (split_on 10 s). trim (strip_cr l) \<noteq> lit ''[meta]'')"

lemma extract_no_meta:
  "\<forall>l \<in> set ls. trim l \<noteq> lit ''[meta]'' \<Longrightarrow> extract_loop False (ls @ ls') = extract_loop False ls'"
  by (induction ls) (auto simp: Let_def)

lemma lines_header: "lines (lit ''[meta]'' @ 10 # t) = lit ''[meta]'' # lines t"
proof -
  have "10 \<notin> set (lit ''[meta]'')" by (simp add: lit_def)
  then show ?thesis
    unfolding lines_append_newline by (simp add: split_on_absent) (simp add: strip_cr_def lit_def)
qed

lemma lines_version:
  "lines ((lit ''config_version = '' @ to_dec n) @ 10 # t) = (lit ''config_version = '' @ to_dec n) # lines t"
proof -
  have nl: "10 \<notin> set (to_dec n)" "13 \<notin> set (to_dec n)"
    using to_dec_digits [of n] by (auto simp: list_all_iff is_digit_def)
  then have "10 \<notin> set (lit ''config_version = '' @ to_dec n)" by (simp add: lit_def)
  moreover have "last (lit ''config_version = '' @ to_dec n) \<noteq> 13"
    using nl(2) by (metis last_appendR last_in_set to_dec_nonempty)
  ultimately show ?thesis
    unfolding lines_append_newline by (simp add: split_on_absent strip_cr_def)
qed

lemma lines_meta_section:
  "lines (a @ meta_section v @ b) =
     map strip_cr (split_on 10 a) @ lit ''[meta]'' # (lit ''config_version = '' @ to_dec (unat v)) # lines b"
  using lines_append_newline [of a] lines_header lines_version [of "unat v"] by (simp add: meta_section_def)

lemma extract_header: "extract_loop m (lit ''[meta]'' # ls) = extract_loop True ls"
proof -
  have "trim (lit ''[meta]'') = lit ''[meta]''" by (rule trim_fixed) (simp_all add: lit_def is_whitespace_def)
  then show ?thesis by simp
qed

lemma extract_version_line:
  "extract_loop True ((lit ''config_version = '' @ to_dec (unat v)) # ls) = Some v"
proof -
  let ?l = "lit ''config_version = '' @ to_dec (unat v)"
  have "trim ?l = ?l" by (rule trim_fixed) (simp_all add: to_dec_ends, simp_all add: lit_def is_whitespace_def)
  moreover have "?l \<noteq> lit ''[meta]''" "\<not> starts_with (lit ''['') ?l" "starts_with (lit ''config_version'') ?l"
    by (simp_all add: lit_def starts_with_def)
  moreover have "split_once 61 ?l = Some (lit ''config_version '', 32 # to_dec (unat v))"
    by (simp add: lit_def)
  moreover have "trim (32 # to_dec (unat v)) = to_dec (unat v)"
  proof -
    have "trim (32 # to_dec (unat v)) = trim (to_dec (unat v))" by (simp add: trim_def is_whitespace_def)
    then show ?thesis by (simp add: trim_fixed to_dec_ends)
  qed
  moreover have "unat v \<le> 2 ^ 32 - 1" using unsigned_less [where 'a = nat, of v] by simp
  ultimately show ?thesis by (simp add: Let_def parse_uint_to_dec)
qed

lemma extract_meta: "no_meta a \<Longrightarrow> extract_config_version (a @ meta_section v @ b) = Some v"
  by (simp add: extract_config_version_def lines_meta_section extract_no_meta no_meta_def extract_header
      extract_version_line del: extract_loop.simps)

lemma extract_saved: "no_meta s \<Longrightarrow> extract_config_version (s @ meta_section v) = Some v"
  using extract_meta [of s v "[]"] by simp

section \<open>Saving and loading\<close>

text \<open>The version a save keeps.\<close>

definition kept_version :: "text_file \<Rightarrow> u32" where
  "kept_version f = (case fl_contents f of
     Some s \<Rightarrow> (case extract_config_version s of Some v \<Rightarrow> v | None \<Rightarrow> CURRENT_CONFIG_VERSION)
   | None \<Rightarrow> CURRENT_CONFIG_VERSION)"

lemma save_config_Ok:
  assumes "fl_read_error f = None" and "fl_write_error f = None" and "cfg_to_string T config = Ok s"
  shows "save_config T config f = (Ok (), f\<lparr>fl_contents := Some (trim_end s @ meta_section (kept_version f))\<rparr>)"
  using assms
  by (auto simp: save_config_def file_exists_def read_to_string_def kept_version_def write_file_def Let_def split: option.splits)

text \<open>C20: A saved configuration loads back. The file written keeps the version of the file it replaces,
  or gets the current one, and that version is what the search of the text finds; loading gives the
  configuration again, and an error when the version kept is from the future. TOML is assumed to
  print the configuration without a header \<^verbatim>\<open>[meta]\<close> of its own, and to read what it printed with
  an unknown section after it.\<close>

theorem save_then_load:
  assumes "fl_read_error f = None" and "fl_write_error f = None" and "cfg_to_string T config = Ok s"
    and "cfg_from_str T (trim_end s @ meta_section (kept_version f)) = Ok config" and "no_meta (trim_end s)"
  shows "\<exists>f' text. save_config T config f = (Ok (), f') \<and> fl_contents f' = Some text \<and>
    extract_config_version text = Some (kept_version f) \<and> kept_version f' = kept_version f \<and>
    (if CURRENT_CONFIG_VERSION < kept_version f then \<exists>e. load_config T f' = Err e else load_config T f' = Ok config)"
proof -
  let ?t = "trim_end s @ meta_section (kept_version f)"
  have v: "extract_config_version ?t = Some (kept_version f)" by (rule extract_saved [OF assms(5)])
  have "load_config T (f\<lparr>fl_contents := Some ?t\<rparr>) = (if CURRENT_CONFIG_VERSION < kept_version f
      then Err (future_version (kept_version f) @ [32, 0x2014] @ lit '' your data may be corrupted.'') else Ok config)"
    using assms(1,4) v by (simp add: load_config_def file_exists_def read_to_string_def)
  with save_config_Ok [OF assms(1-3)] v show ?thesis
    by (intro exI [of _ "f\<lparr>fl_contents := Some ?t\<rparr>"] exI [of _ ?t]) (simp add: kept_version_def)
qed

definition node_toml :: config_toml where
  "node_toml = \<lparr>cfg_from_str = (\<lambda>s. Ok DsearchConfig_default), cfg_to_string = (\<lambda>c. Ok (lit ''[node]'' @ [10]))\<rparr>"

theorem save_then_load_witness:
  "\<exists>f'. save_config node_toml DsearchConfig_default (plain_file None) = (Ok (), f') \<and>
     load_config node_toml f' = Ok DsearchConfig_default"
proof -
  have t: "trim_end (lit ''[node]'' @ [10]) = lit ''[node]''"
    by (simp add: trim_end_def is_whitespace_def) (simp add: lit_def is_whitespace_def)
  have m: "no_meta (lit ''[node]'')"
    by (simp add: no_meta_def lit_def strip_cr_def trim_def trim_end_def is_whitespace_def)
  have "kept_version (plain_file None) = CURRENT_CONFIG_VERSION" by (simp add: kept_version_def plain_file_def)
  with save_then_load [of "plain_file None" node_toml DsearchConfig_default "lit ''[node]'' @ [10]"] t m
  show ?thesis by (auto simp: plain_file_def node_toml_def)
qed

text \<open>A text value with line breaks is printed over several lines, and the search reads them: a value
  that holds the header and a version from the future makes every load after the save an error.\<close>

lemma meta_in_value_locks_out:
  assumes "fl_read_error f = None" and "fl_write_error f = None" and "cfg_to_string T config = Ok s"
    and "cfg_from_str T (trim_end s @ meta_section (kept_version f)) = Ok config"
    and "trim_end s = a @ meta_section w @ b" and "no_meta a" and "CURRENT_CONFIG_VERSION < w"
  shows "\<exists>f' e. save_config T config f = (Ok (), f') \<and> load_config T f' = Err e"
proof -
  let ?t = "trim_end s @ meta_section (kept_version f)"
  have "extract_config_version ?t = Some w"
    using extract_meta [OF assms(6), of w "b @ meta_section (kept_version f)"] unfolding assms(5) by simp
  then have "\<exists>e. load_config T (f\<lparr>fl_contents := Some ?t\<rparr>) = Err e"
    using assms(1,4,7) by (simp add: load_config_def file_exists_def read_to_string_def)
  with save_config_Ok [OF assms(1-3)] show ?thesis by blast
qed

end
