(* ===== verification/Json.thy ===== *)
theory Json
  imports Prelude
begin

text \<open>
  \<^verbatim>\<open>serde_json::Value\<close> and the accessors the source uses. Parsing and printing are the
  library's and are parameters. An object is a list of its members, which the library keeps
  sorted by key; a number is kept as its text.
\<close>

datatype json = JNull | JBool bool | JNum ustr | JStr ustr | JArr "json list" | JObj "(ustr \<times> json) list"

record json_lib =
  js_parse :: "ustr \<Rightarrow> (json, ustr) result"
  js_print :: "json \<Rightarrow> (ustr, ustr) result"
  js_pretty :: "json \<Rightarrow> (ustr, ustr) result"

fun json_get :: "string \<Rightarrow> json \<Rightarrow> json option" where
  "json_get k (JObj ms) = map_of ms (lit k)"
| "json_get k v = None"

fun as_str :: "json \<Rightarrow> ustr option" where
  "as_str (JStr s) = Some s"
| "as_str v = None"

fun as_array :: "json \<Rightarrow> json list option" where
  "as_array (JArr vs) = Some vs"
| "as_array v = None"

fun as_bool :: "json \<Rightarrow> bool option" where
  "as_bool (JBool b) = Some b"
| "as_bool v = None"

text \<open>\<^verbatim>\<open>as_u64\<close>: the text of a number that is a natural number of 64 bits; serde_json keeps such
  numbers as integers.\<close>

fun as_u64 :: "json \<Rightarrow> u64 option" where
  "as_u64 (JNum n) = map_option of_nat (parse_digits (2 ^ 64 - 1) n)"
| "as_u64 v = None"

text \<open>\<^verbatim>\<open>Option::or_else\<close> and \<^verbatim>\<open>Option::and_then\<close>.\<close>

definition or_else :: "'a option \<Rightarrow> 'a option \<Rightarrow> 'a option" where
  "or_else x y = (case x of Some a \<Rightarrow> Some a | None \<Rightarrow> y)"

definition get_str :: "string \<Rightarrow> json \<Rightarrow> ustr option" where
  "get_str k v = Option.bind (json_get k v) as_str"

text \<open>\<^verbatim>\<open>unwrap_or\<close>.\<close>

definition unwrap_or :: "'a option \<Rightarrow> 'a \<Rightarrow> 'a" where
  "unwrap_or x d = (case x of Some a \<Rightarrow> a | None \<Rightarrow> d)"

lemma or_else_simps [simp]: "or_else (Some a) y = Some a" "or_else None y = y"
  by (simp_all add: or_else_def)

lemma unwrap_or_simps [simp]: "unwrap_or (Some a) d = a" "unwrap_or None d = d"
  by (simp_all add: unwrap_or_def)

text \<open>The strings of an array.\<close>

definition strings_of :: "json list \<Rightarrow> ustr list" where
  "strings_of vs = List.map_filter as_str vs"

end
