(* ===== verification/Sandbox.thy ===== *)
theory Sandbox
  imports Json Text
begin

text \<open>
  \<^verbatim>\<open>src/src/scraper/sandbox.rs\<close>: the built-in text transforms. Case mapping needs the Unicode
  tables of the standard library, which are the parameters \<open>lc\<close> and \<open>uc\<close>.
\<close>

section \<open>Transforms\<close>

text \<open>The first loop: characters outside of angle brackets.\<close>

fun outside_tags :: "bool \<Rightarrow> ustr \<Rightarrow> ustr" where
  "outside_tags in_tag [] = []"
| "outside_tags in_tag (c # s) =
     (if c = 60 then outside_tags True s
      else if c = 62 then outside_tags False s
      else if \<not> in_tag then c # outside_tags in_tag s
      else outside_tags in_tag s)"

definition strip_html_tags :: "ustr \<Rightarrow> ustr" where
  "strip_html_tags input =
     (let text = outside_tags False input;
          text = replace_str (lit ''&nbsp;'') [32] text;
          text = replace_str (lit ''&lt;'') [60] text;
          text = replace_str (lit ''&gt;'') [62] text;
          text = replace_str [0x201C] [34] text;
          text = replace_str [0x201D] [34] text;
          text = replace_str (lit ''&#39;'') [39] text
      in replace_str (lit ''&amp;'') [38] text)"

fun collapse :: "bool \<Rightarrow> ustr \<Rightarrow> ustr" where
  "collapse last_was_space [] = []"
| "collapse last_was_space (c # s) =
     (if is_whitespace c then
        (if \<not> last_was_space then 32 # collapse True s else collapse last_was_space s)
      else c # collapse False s)"

definition normalize_whitespace :: "ustr \<Rightarrow> ustr" where
  "normalize_whitespace input = trim (collapse False input)"

text \<open>The first of the usual fields that holds a string, else a top-level string, else the strings of a
  top-level array, else the value printed.\<close>

definition json_extract :: "json_lib \<Rightarrow> ustr \<Rightarrow> (ustr, ustr) result" where
  "json_extract L input =
     rbind (map_err (\<lambda>e. lit ''json_extract: not valid JSON: '' @ e) (js_parse L input)) (\<lambda>val.
     let fallback = Ok (case js_pretty L val of Ok s \<Rightarrow> s | _ \<Rightarrow> [])
     in case List.find (\<lambda>field. get_str field val \<noteq> None)
          [''body'', ''content'', ''text'', ''description'', ''summary'', ''value''] of
          Some field \<Rightarrow> Ok (the (get_str field val))
        | None \<Rightarrow>
            (case as_str val of
               Some text \<Rightarrow> Ok text
             | None \<Rightarrow>
                 (case as_array val of
                    Some arr \<Rightarrow> if strings_of arr \<noteq> [] then Ok (join [10] (strings_of arr)) else fallback
                  | None \<Rightarrow> fallback)))"

definition apply_transform :: "(ustr \<Rightarrow> ustr) \<Rightarrow> (ustr \<Rightarrow> ustr) \<Rightarrow> json_lib \<Rightarrow> ustr \<Rightarrow> ustr \<Rightarrow> (ustr, ustr) result" where
  "apply_transform lc uc L name input =
     (if name = lit ''strip_html'' then Ok (strip_html_tags input)
      else if name = lit ''trim'' then Ok (trim input)
      else if name = lit ''lowercase'' then Ok (lc input)
      else if name = lit ''uppercase'' then Ok (uc input)
      else if name = lit ''strip_whitespace'' then Ok (filter (\<lambda>c. \<not> is_whitespace c) input)
      else if name = lit ''normalize_whitespace'' then Ok (normalize_whitespace input)
      else if name = lit ''json_extract'' then json_extract L input
      else if name = lit ''first_line'' then Ok (case lines input of l # _ \<Rightarrow> l | [] \<Rightarrow> [])
      else if name = lit ''take_lines'' then Ok (join [10] (take 10 (lines input)))
      else Err (lit ''unknown transform: '' @ name))"

section \<open>Whitespace\<close>

lemma collapse_word:
  "list_all (\<lambda>c. \<not> is_whitespace c) w \<Longrightarrow> w \<noteq> [] \<Longrightarrow> collapse b (w @ s) = w @ collapse False s"
proof (induction w arbitrary: b)
  case (Cons c w)
  then show ?case by (cases "w = []") auto
qed simp

lemma collapse_words:
  "collapse True s = (if text_words s = [] then []
     else join [32] (text_words s) @ (if is_whitespace (last s) then [32] else []))"
proof (induction s rule: text_words.induct)
  case (2 c s)
  show ?case
  proof (cases "is_whitespace c")
    case True
    then show ?thesis using 2(1) by (cases "s = []") auto
  next
    case False
    obtain w t where w: "w = c # takeWhile (\<lambda>c. \<not> is_whitespace c) s"
      and t: "t = dropWhile (\<lambda>c. \<not> is_whitespace c) s" by blast
    have s: "c # s = w @ t" using w t by simp
    have sw: "list_all (\<lambda>c. \<not> is_whitespace c) w" "w \<noteq> []"
      using False w by (auto simp: list_all_iff dest: set_takeWhileD)
    have hd: "t \<noteq> [] \<Longrightarrow> is_whitespace (hd t)" using hd_dropWhile t by metis
    have IH: "collapse True t = (if text_words t = [] then []
        else join [32] (text_words t) @ (if is_whitespace (last t) then [32] else []))"
      using 2(2) [OF False] t by simp
    have words: "text_words (w @ t) = w # text_words t"
      using False s w t by (metis text_words.simps(2))
    have last_t: "text_words t = [] \<Longrightarrow> t \<noteq> [] \<Longrightarrow> is_whitespace (last t)" for t
      by (induction t) (auto split: if_splits)
    have "collapse True (w @ t) = w @ collapse False t" by (rule collapse_word [OF sw])
    moreover have "collapse False t = (if t = [] then [] else 32 # collapse True t)"
      using hd by (cases t) auto
    moreover have "\<not> is_whitespace (last w)" using sw by (simp add: list_all_iff)
    ultimately have "collapse True (w @ t) = (if text_words (w @ t) = [] then []
        else join [32] (text_words (w @ t)) @ (if is_whitespace (last (w @ t)) then [32] else []))"
    proof (cases "t = []")
      case False
      then show ?thesis using IH words last_t [of t] \<open>collapse True (w @ t) = w @ collapse False t\<close>
          \<open>collapse False t = (if t = [] then [] else 32 # collapse True t)\<close>
        by (cases "text_words t = []") (simp_all add: join_Cons)
    qed (use words in simp)
    then show ?thesis using s by simp
  qed
qed simp

text \<open>Normalising whitespace gives the words of the text with one space between them, so nothing
  but whitespace is changed, and normalising again changes nothing.\<close>

theorem normalize_whitespace_words:
  "normalize_whitespace s = join [32] (text_words s) \<and> text_words (normalize_whitespace s) = text_words s \<and>
   normalize_whitespace (normalize_whitespace s) = normalize_whitespace s"
proof -
  have norm: "normalize_whitespace s = join [32] (text_words s)" for s
  proof -
    have "trim (collapse False s) = trim (collapse True s)"
    proof (cases s)
      case (Cons c t)
      have "is_whitespace 32" by (simp add: is_whitespace_def)
      then show ?thesis by (simp add: Cons trim_def)
    qed simp
    moreover have "trim (collapse True s) = join [32] (text_words s)"
    proof (cases "text_words s = []")
      case False
      note ends = join_words_ends [OF text_words_words False, of "[32]"]
      have "is_whitespace 32" by (simp add: is_whitespace_def)
      then have "trim (t @ [32]) = trim t" if "\<not> is_whitespace (hd t)" "t \<noteq> []" for t
        using that by (cases t) (simp_all add: trim_def trim_end_def)
      with ends False show ?thesis by (simp add: collapse_words trim_fixed)
    qed (simp add: collapse_words trim_def trim_end_def)
    ultimately show ?thesis by (simp add: normalize_whitespace_def)
  qed
  then show ?thesis using text_words_join [OF text_words_words] by simp
qed

end
