(* ===== verification/Base64.thy ===== *)
theory Base64
  imports Bytes Text
begin

text \<open>
  The base64 decoder of \<^verbatim>\<open>src/src/scraper/job.rs\<close> and its reference: the encoder of RFC 4648.
\<close>

section \<open>Decoding\<close>

definition TABLE :: bytes where
  "TABLE = map of_nat (lit ''ABCDEFGHIJKLMNOPQRSTUVWXYZabcdefghijklmnopqrstuvwxyz0123456789+/'')"

text \<open>\<^verbatim>\<open>iter().position(|b| b == x)\<close>.\<close>

fun position :: "'a \<Rightarrow> 'a list \<Rightarrow> nat option" where
  "position x [] = None"
| "position x (y # ys) = (if y = x then Some 0 else map_option Suc (position x ys))"

text \<open>The loop over the characters; a character is compared as a byte (\<^verbatim>\<open>ch as u8\<close>), and the
  accumulator is shifted without a check of what falls out.\<close>

fun base64_loop :: "ustr \<Rightarrow> u32 \<Rightarrow> nat \<Rightarrow> bytes \<Rightarrow> (bytes, ustr) result" where
  "base64_loop [] acc bits buf = Ok buf"
| "base64_loop (ch # s) acc bits buf =
     (case position (of_nat ch) TABLE of
        None \<Rightarrow> Err (lit ''invalid base64 char: '' @ [ch])
      | Some val \<Rightarrow>
          let acc = push_bit 6 acc OR of_nat val; bits = bits + 6
          in if 8 \<le> bits
             then base64_loop s acc (bits - 8) (buf @ [ucast (drop_bit (bits - 8) acc)])
             else base64_loop s acc bits buf)"

definition base64_decode :: "ustr \<Rightarrow> (bytes, ustr) result" where
  "base64_decode input =
     (let input = rev (dropWhile (\<lambda>c. c = 61) (rev input))
      in if input = [] then Ok [] else base64_loop input 0 0 [])"

section \<open>Encoding\<close>

definition base64_char :: "u8 \<Rightarrow> uchar" where
  "base64_char v = unat (TABLE ! unat v)"

text \<open>The groups of six bits of three bytes, and the characters of three, two and one byte, without
  the padding.\<close>

definition group1 :: "u8 \<Rightarrow> u8" where "group1 a = drop_bit 2 a"
definition group2 :: "u8 \<Rightarrow> u8 \<Rightarrow> u8" where "group2 a b = push_bit 4 (a AND 3) OR drop_bit 4 b"
definition group3 :: "u8 \<Rightarrow> u8 \<Rightarrow> u8" where "group3 b c = push_bit 2 (b AND 15) OR drop_bit 6 c"
definition group4 :: "u8 \<Rightarrow> u8" where "group4 c = c AND 63"

fun base64_chars :: "bytes \<Rightarrow> ustr" where
  "base64_chars [] = []"
| "base64_chars [a] = map base64_char [group1 a, group2 a 0]"
| "base64_chars [a, b] = map base64_char [group1 a, group2 a b, group3 b 0]"
| "base64_chars (a # b # c # s) = map base64_char [group1 a, group2 a b, group3 b c, group4 c] @ base64_chars s"

definition base64_encode :: "bytes \<Rightarrow> ustr" where
  "base64_encode bs = base64_chars bs @ replicate ((3 - length bs mod 3) mod 3) 61"

section \<open>Round trip\<close>

lemma position_nth: "distinct xs \<Longrightarrow> i < length xs \<Longrightarrow> position (xs ! i) xs = Some i"
proof (induction xs arbitrary: i)
  case (Cons x xs)
  then show ?case by (cases i) auto
qed simp

definition codes :: "nat list" where
  "codes = [65..<91] @ [97..<123] @ [48..<58] @ [43, 47]"

lemma TABLE_codes: "TABLE = map of_nat codes"
  by (simp add: TABLE_def codes_def lit_Cons upt_rec)

lemma set_codes: "set codes = {65..<91} \<union> {97..<123} \<union> {48..<58} \<union> {43, 47}"
  by (auto simp add: codes_def simp del: upt_rec_numeral)

lemma codes_small: "c \<in> set codes \<Longrightarrow> c < 128 \<and> c \<noteq> 45 \<and> c \<noteq> 61 \<and> \<not> is_whitespace c"
  by (auto simp: set_codes is_whitespace_def)

lemma u8_of_nat_eq: "c < 256 \<Longrightarrow> d < 256 \<Longrightarrow> (of_nat c :: u8) = of_nat d \<longleftrightarrow> c = d"
  by (simp add: word_of_nat_eq_iff take_bit_eq_mod)

lemma TABLE_facts: "length TABLE = 64" "distinct TABLE"
proof -
  have "inj_on (of_nat :: nat \<Rightarrow> u8) (set codes)"
    by (rule inj_onI, drule codes_small, drule codes_small) (simp add: u8_of_nat_eq)
  moreover have "distinct codes" by (auto simp add: codes_def simp del: upt_rec_numeral)
  ultimately show "distinct TABLE" by (simp add: TABLE_codes distinct_map)
  show "length TABLE = 64" by (simp add: TABLE_def)
qed

lemma TABLE_ascii: "b \<in> set TABLE \<Longrightarrow> unat b \<in> set codes"
  using codes_small by (fastforce simp: TABLE_codes unat_of_nat)

lemma byte_bits: "n < LENGTH(8) \<Longrightarrow> n = 0 \<or> n = 1 \<or> n = 2 \<or> n = 3 \<or> n = 4 \<or> n = 5 \<or> n = 6 \<or> n = 7"
  by auto

lemma no_high_bit: "8 \<le> n \<Longrightarrow> \<not> bit (a :: u8) n"
  using bit_imp_le_length [of a n] by auto

lemmas group_defs = group1_def group2_def group3_def group4_def

lemma six_bits:
  "unat (group1 a) < 64" "unat (group2 a b) < 64" "unat (group3 b c) < 64" "unat (group4 c) < 64"
proof -
  have low: "unat v < 64" if "drop_bit 6 v = 0" for v :: u8
    using arg_cong [OF that, of unat] by (simp add: unat_drop_bit_eq drop_bit_eq_div unat_div)
  show "unat (group1 a) < 64" "unat (group2 a b) < 64" "unat (group3 b c) < 64" "unat (group4 c) < 64"
    unfolding group_defs
    by - (rule low, rule bit_word_eqI, drule byte_bits, (elim disjE; simp add: bit_simps no_high_bit))+
qed

text \<open>What the accumulator holds after a character.\<close>

definition shift_in :: "u32 \<Rightarrow> u8 \<Rightarrow> u32" where
  "shift_in acc v = push_bit 6 acc OR ucast v"

lemma base64_loop_char:
  assumes "unat v < 64"
  shows "base64_loop (base64_char v # s) acc bits buf =
    (let acc = shift_in acc v
     in if 2 \<le> bits then base64_loop s acc (bits - 2) (buf @ [ucast (drop_bit (bits - 2) acc)])
        else base64_loop s acc (bits + 6) buf)"
proof -
  have "position (of_nat (base64_char v)) TABLE = Some (unat v)"
    using assms by (simp add: base64_char_def TABLE_facts position_nth)
  then show ?thesis by (simp add: shift_in_def Let_def numeral_eq_Suc)
qed

lemma reassembled:
  "ucast (drop_bit 4 (shift_in (shift_in acc (group1 a)) (group2 a b))) = a"
  "ucast (drop_bit 2 (shift_in (shift_in acc (group2 a b)) (group3 b c))) = b"
  "ucast (shift_in (shift_in acc (group3 b c)) (group4 c)) = c"
  unfolding group_defs shift_in_def
  by - (rule bit_word_eqI, drule byte_bits, (elim disjE; simp add: bit_simps no_high_bit))+

lemma base64_loop_chars: "base64_loop (base64_chars bs) acc 0 buf = Ok (buf @ bs)"
  by (induction bs arbitrary: acc buf rule: base64_chars.induct)
    (simp_all add: base64_loop_char six_bits reassembled Let_def del: base64_loop.simps(2))

lemma base64_char_code: "unat v < 64 \<Longrightarrow> base64_char v \<in> set codes"
  by (simp add: base64_char_def TABLE_ascii TABLE_facts)

lemma base64_chars_codes: "set (base64_chars bs) \<subseteq> set codes"
  by (induction bs rule: base64_chars.induct) (simp_all add: base64_char_code six_bits)

lemma base64_chars_Nil [simp]: "base64_chars bs = [] \<longleftrightarrow> bs = []"
  by (cases bs rule: base64_chars.cases) simp_all

text \<open>The decoder undoes the encoder of RFC 4648, with the padding and without it.\<close>

theorem base64_roundtrip:
  "base64_decode (base64_encode bs) = Ok bs \<and> base64_decode (base64_chars bs) = Ok bs"
proof -
  have "rev (dropWhile (\<lambda>c. c = 61) (rev (base64_chars bs @ replicate k 61))) = base64_chars bs" for k
  proof -
    have "61 \<notin> set (base64_chars bs)" using base64_chars_codes [of bs] codes_small by blast
    then have "last (base64_chars bs) \<noteq> 61" if "bs \<noteq> []"
      using that by (metis last_in_set base64_chars_Nil)
    then have "dropWhile (\<lambda>c. c = 61) (rev (base64_chars bs)) = rev (base64_chars bs)"
      by (cases "bs = []") (simp_all add: dropWhile_eq_self_iff hd_rev)
    then show ?thesis by (simp add: dropWhile_append)
  qed
  from this this [of 0] show ?thesis
    by (auto simp: base64_decode_def base64_encode_def base64_loop_chars Let_def)
qed

end
