(* ===== verification/Fetch.thy ===== *)
theory Fetch
  imports Base64 Utf8
begin

text \<open>
  \<^verbatim>\<open>src/src/scraper/job.rs\<close>: the hand-written HTTP client, and the reader of PEM bundles that
  fills its certificate store. Sockets and rustls are parameters.
\<close>

section \<open>PEM bundles\<close>

definition is_ascii_whitespace :: "uchar \<Rightarrow> bool" where
  "is_ascii_whitespace c \<longleftrightarrow> c = 32 \<or> c = 9 \<or> c = 10 \<or> c = 12 \<or> c = 13"

definition PEM_BEGIN :: ustr where "PEM_BEGIN = lit ''-----BEGIN CERTIFICATE-----''"
definition PEM_END :: ustr where "PEM_END = lit ''-----END CERTIFICATE-----''"

text \<open>The certificates the loop over the blocks hands to the store; \<^verbatim>\<open>split\<close> always has a first
  piece.\<close>

definition pem_ders :: "ustr \<Rightarrow> bytes list" where
  "pem_ders pem = List.map_filter
     (\<lambda>block.
        let b64 = hd (split_all PEM_END block);
            b64_clean = filter (\<lambda>c. \<not> is_ascii_whitespace c) b64
        in case base64_decode b64_clean of Ok der \<Rightarrow> Some der | _ \<Rightarrow> None)
     (tl (split_all PEM_BEGIN pem))"

text \<open>\<open>files\<close> is the file system and \<open>add\<close> the store's \<^verbatim>\<open>add\<close>, which may refuse a certificate.\<close>

definition try_load_pem_file :: "(ustr \<Rightarrow> bytes option) \<Rightarrow> ('c \<Rightarrow> bytes \<Rightarrow> 'c) \<Rightarrow> ustr \<Rightarrow> 'c \<Rightarrow> 'c" where
  "try_load_pem_file files add path root_store =
     (case files path of
        None \<Rightarrow> root_store
      | Some pem_data \<Rightarrow> foldl add root_store (pem_ders (from_utf8_lossy pem_data)))"

text \<open>The Linux paths.\<close>

definition load_native_certs :: "(ustr \<Rightarrow> bytes option) \<Rightarrow> ('c \<Rightarrow> bytes \<Rightarrow> 'c) \<Rightarrow> 'c \<Rightarrow> 'c" where
  "load_native_certs files add root_store =
     (let root_store = try_load_pem_file files add (lit ''/etc/ssl/certs/ca-certificates.crt'') root_store;
          root_store = try_load_pem_file files add (lit ''/etc/pki/tls/certs/ca-bundle.crt'') root_store
      in try_load_pem_file files add (lit ''/etc/ssl/ca-bundle.pem'') root_store)"

section \<open>URLs\<close>

text \<open>Host, path, port, and whether the scheme is https; 47 is the slash and 58 the colon.\<close>

definition parse_url :: "ustr \<Rightarrow> (ustr \<times> ustr \<times> u16 \<times> bool, ustr) result" where
  "parse_url url =
     rbind (case strip_prefix (lit ''https://'') url of
         Some r \<Rightarrow> Ok (True, r)
       | None \<Rightarrow> (case strip_prefix (lit ''http://'') url of
           Some r \<Rightarrow> Ok (False, r)
         | None \<Rightarrow> Err (lit ''unsupported URL scheme: '' @ url))) (\<lambda>(is_https, rest).
     let (host_port, path) = (case split_once 47 rest of
         Some (h, p) \<Rightarrow> (h, 47 # p) | None \<Rightarrow> (rest, lit ''/''))
     in rbind (case rsplit_once 58 host_port of
         Some (h, p) \<Rightarrow> (case parse_uint 65535 p of
             Some n \<Rightarrow> Ok (h, of_nat n) | None \<Rightarrow> Err (lit ''invalid port''))
       | None \<Rightarrow> Ok (host_port, if is_https then 443 else 80)) (\<lambda>(host, port).
     Ok (host, path, port, is_https)))"

section \<open>Fetching\<close>

text \<open>One \<^verbatim>\<open>read\<close>: the bytes read, none at the end of the stream, or an error, whose kind may be
  \<^verbatim>\<open>UnexpectedEof\<close>.\<close>

datatype read = Data bytes | Unexpected_eof ustr | Read_error ustr

text \<open>A connection: whether it is established and takes the request, and what each read of the
  response gives, all by address and request. With TLS, the name is checked first, and the session needs a certificate store.\<close>

record 'c net =
  nt_connect :: "ustr \<Rightarrow> (unit, ustr) result"
  nt_write :: "ustr \<Rightarrow> ustr \<Rightarrow> (unit, ustr) result"
  nt_read :: "ustr \<Rightarrow> ustr \<Rightarrow> nat \<Rightarrow> read"
  nt_server_name :: "ustr \<Rightarrow> (unit, ustr) result"
  nt_empty_store :: 'c
  nt_add_cert :: "'c \<Rightarrow> bytes \<Rightarrow> 'c"
  nt_files :: "ustr \<Rightarrow> bytes option"
  nt_tls_client :: "'c \<Rightarrow> ustr \<Rightarrow> (unit, ustr) result"
  nt_tls_write :: "'c \<Rightarrow> ustr \<Rightarrow> ustr \<Rightarrow> (unit, ustr) result"
  nt_tls_read :: "'c \<Rightarrow> ustr \<Rightarrow> ustr \<Rightarrow> nat \<Rightarrow> read"

definition http_request :: "ustr \<Rightarrow> ustr \<Rightarrow> ustr" where
  "http_request host path =
     lit ''GET '' @ path @ lit '' HTTP/1.1'' @ [13, 10] @ lit ''Host: '' @ host @ [13, 10] @
     lit ''User-Agent: dsearch/0.1'' @ [13, 10] @ lit ''Accept: */*'' @ [13, 10] @
     lit ''Connection: close'' @ [13, 10, 13, 10]"

text \<open>The read loop: the limit is checked after each read. Over TLS an unexpected end of file ends
  the response.\<close>

function read_loop :: "bool \<Rightarrow> ustr \<Rightarrow> (nat \<Rightarrow> read) \<Rightarrow> nat \<Rightarrow> bytes \<Rightarrow> (bytes, ustr) result" where
  "read_loop eof_ends what rd i response =
     (case rd i of
        Data buf \<Rightarrow>
          if buf = [] then Ok response
          else if 2 * 1024 * 1024 < length (response @ buf) then Err (lit ''response too large (>2 MB)'')
          else read_loop eof_ends what rd (Suc i) (response @ buf)
      | Unexpected_eof e \<Rightarrow> if eof_ends then Ok response else Err (what @ e)
      | Read_error e \<Rightarrow> Err (what @ e))"
  by pat_completeness auto
termination
  by (relation "measure (\<lambda>(_, _, _, _, response). Suc (2 * 1024 * 1024) - length response)")
    (auto simp: neq_Nil_conv)

declare read_loop.simps [simp del]

definition fetch_http_blocking :: "'c net \<Rightarrow> ustr \<Rightarrow> u16 \<Rightarrow> ustr \<Rightarrow> (bytes, ustr) result" where
  "fetch_http_blocking N host port path =
     (let addr = host @ lit '':'' @ to_dec (unat port); request = http_request host path
      in rbind (map_err (\<lambda>e. lit ''connect to '' @ addr @ lit '': '' @ e) (nt_connect N addr)) (\<lambda>_.
         rbind (map_err (\<lambda>e. lit ''write request: '' @ e) (nt_write N addr request)) (\<lambda>_.
           read_loop False (lit ''read response: '') (nt_read N addr request) 0 [])))"

definition fetch_https_blocking :: "'c net \<Rightarrow> ustr \<Rightarrow> u16 \<Rightarrow> ustr \<Rightarrow> (bytes, ustr) result" where
  "fetch_https_blocking N host port path =
     (let root_store = load_native_certs (nt_files N) (nt_add_cert N) (nt_empty_store N);
          addr = host @ lit '':'' @ to_dec (unat port); request = http_request host path
      in rbind (map_err (\<lambda>e. lit ''invalid DNS name '' @ host @ lit '': '' @ e) (nt_server_name N host)) (\<lambda>_.
         rbind (map_err (\<lambda>e. lit ''connect to '' @ addr @ lit '': '' @ e) (nt_connect N addr)) (\<lambda>_.
         rbind (map_err (\<lambda>e. lit ''TLS init for '' @ host @ lit '': '' @ e) (nt_tls_client N root_store host)) (\<lambda>_.
         rbind (map_err (\<lambda>e. lit ''TLS write: '' @ e) (nt_tls_write N root_store addr request)) (\<lambda>_.
           read_loop True (lit ''TLS read: '') (nt_tls_read N root_store addr request) 0 [])))))"

definition fetch_url_blocking :: "'c net \<Rightarrow> ustr \<Rightarrow> (ustr, ustr) result" where
  "fetch_url_blocking N url =
     rbind (parse_url url) (\<lambda>(host, path, port, is_https).
     rbind (if is_https then fetch_https_blocking N host port path else fetch_http_blocking N host port path) (\<lambda>body_bytes.
     rbind (case from_utf8 body_bytes of
         Some response \<Rightarrow> Ok response
       | None \<Rightarrow> Err (lit ''response not valid UTF-8: '')) (\<lambda>response.
     Ok (case split_str [13, 10, 13, 10] response of
           Some (_, body) \<Rightarrow> body
         | None \<Rightarrow> (case split_str [10, 10] response of Some (_, body) \<Rightarrow> body | None \<Rightarrow> response)))))"

text \<open>The blocking task; the error of a task that panics is tokio's.\<close>

definition fetch_url :: "'c net \<Rightarrow> ustr \<Rightarrow> (ustr, ustr) result" where
  "fetch_url N url = (case fetch_url_blocking N url of Panic \<Rightarrow> Err (lit ''fetch task: '') | r \<Rightarrow> r)"

section \<open>Certificates are loaded as they were written\<close>

text \<open>A block of a bundle: the certificate's base64 broken by white space, the end marker on a line of
  its own, and text without dashes after it.\<close>

fun pem_block :: "bytes \<times> ustr \<times> ustr \<Rightarrow> ustr" where
  "pem_block (der, body, post) = body @ PEM_END @ 10 # post"

fun good_block :: "bytes \<times> ustr \<times> ustr \<Rightarrow> bool" where
  "good_block (der, body, post) \<longleftrightarrow> 45 \<notin> set body \<and> 45 \<notin> set post \<and>
     filter (\<lambda>c. \<not> is_ascii_whitespace c) body = base64_encode der"

definition pem_bundle :: "ustr \<Rightarrow> (bytes \<times> ustr \<times> ustr) list \<Rightarrow> ustr" where
  "pem_bundle pre blocks = pre @ concat (map (\<lambda>b. PEM_BEGIN @ pem_block b) blocks)"

lemma PEM_END_Cons: "PEM_END = 45 # tl PEM_END" and PEM_BEGIN_Cons: "PEM_BEGIN = 45 # tl PEM_BEGIN"
  by (simp_all add: PEM_END_def PEM_BEGIN_def lit_Cons)

lemma marker_skips:
  assumes "p = [45, 45, 45, 45, 45, 66] @ q" and "c \<noteq> 45" and "c \<noteq> 66"
  shows "split_str p ([45, 45, 45, 45, 45, c] @ s) = map_option (\<lambda>(b, r). ([45, 45, 45, 45, 45, c] @ b, r)) (split_str p s)"
  using assms(2,3) unfolding assms(1)
  by (cases "split_str ([45, 45, 45, 45, 45, 66] @ q) s") (auto simp: starts_with_def)

lemma split_begin_skips_end:
  "split_str PEM_BEGIN (PEM_END @ 10 # s) = map_option (\<lambda>(b, r). (PEM_END @ 10 # b, r)) (split_str PEM_BEGIN s)"
proof -
  have B: "PEM_BEGIN = [45, 45, 45, 45, 45, 66] @ lit ''EGIN CERTIFICATE-----''"
    by (simp add: PEM_BEGIN_def lit_Cons)
  obtain name where E: "PEM_END @ 10 # s = [45, 45, 45, 45, 45, 69] @ name @ [45, 45, 45, 45, 45, 10] @ s"
      "PEM_END = [45, 45, 45, 45, 45, 69] @ name @ [45, 45, 45, 45, 45]" "45 \<notin> set name"
    by (rule that [of "lit ''ND CERTIFICATE''"]) (simp_all add: PEM_END_def lit_Cons)
  let ?pre = "\<lambda>a. map_option (\<lambda>(b, r). (a @ b, r))"
  have "split_str PEM_BEGIN (PEM_END @ 10 # s) =
      ?pre [45, 45, 45, 45, 45, 69] (?pre name (?pre [45, 45, 45, 45, 45, 10] (split_str PEM_BEGIN s)))"
    unfolding E(1) by (simp only: marker_skips [OF B] split_str_skip [OF PEM_BEGIN_Cons E(3)])
  then show ?thesis by (cases "split_str PEM_BEGIN s") (auto simp: E(2))
qed

text \<open>A text no begin marker starts in.\<close>

definition markerless :: "ustr \<Rightarrow> bool" where
  "markerless a \<longleftrightarrow> (\<forall>s. split_str PEM_BEGIN (a @ s) = map_option (\<lambda>(b, r). (a @ b, r)) (split_str PEM_BEGIN s))"

lemma markerless_dashes: "45 \<notin> set a \<Longrightarrow> markerless a"
  unfolding markerless_def using split_str_skip [OF PEM_BEGIN_Cons] by blast

lemma markerless_append: "markerless a \<Longrightarrow> markerless b \<Longrightarrow> markerless (a @ b)"
  by (simp add: markerless_def option.map_comp comp_def case_prod_unfold)

lemma markerless_block: "good_block b \<Longrightarrow> markerless (pem_block b)"
proof (cases b)
  case (fields der body post)
  moreover have "markerless (PEM_END @ [10])" using split_begin_skips_end by (simp add: markerless_def)
  ultimately show "good_block b \<Longrightarrow> markerless (pem_block b)"
    using markerless_append [of body "(PEM_END @ [10]) @ post"] markerless_append [of "PEM_END @ [10]" post]
    by (simp add: markerless_dashes)
qed

lemma split_bundle:
  "markerless pre \<Longrightarrow> list_all good_block bs \<Longrightarrow> split_all PEM_BEGIN (pem_bundle pre bs) = pre # map pem_block bs"
proof (induction bs arbitrary: pre)
  case Nil
  have "split_str PEM_BEGIN (pre @ []) = None" using Nil(1) unfolding markerless_def
    by (simp only:) (simp add: PEM_BEGIN_def lit_Cons)
  then show ?case by (subst split_all.simps) (simp add: pem_bundle_def)
next
  case (Cons b bs)
  have B: "PEM_BEGIN \<noteq> []" by (subst PEM_BEGIN_Cons) simp
  have "split_str PEM_BEGIN (pem_bundle pre (b # bs)) = Some (pre, pem_bundle (pem_block b) bs)"
    using Cons.prems(1) split_str_here [OF B] by (simp add: markerless_def pem_bundle_def)
  with Cons B show ?case by (subst split_all.simps) (simp add: markerless_block)
qed

lemma block_der:
  "good_block b \<Longrightarrow> base64_decode (filter (\<lambda>c. \<not> is_ascii_whitespace c) (hd (split_all PEM_END (pem_block b)))) = Ok (fst b)"
proof (cases b)
  case (fields der body post)
  moreover assume "good_block b"
  moreover from this fields have "split_str PEM_END (body @ PEM_END @ 10 # post) = Some (body, 10 # post)"
    using split_str_found [OF PEM_END_Cons] by simp
  moreover have "PEM_END \<noteq> []" by (subst PEM_END_Cons) simp
  ultimately show ?thesis using base64_roundtrip [of der] by (subst split_all.simps) simp
qed

text \<open>A PEM bundle is loaded as it was written: every certificate, in order, whatever line breaks its
  base64 has and whatever text without dashes stands before the blocks and between them.\<close>

theorem pem_bundle_loaded:
  assumes "files path = Some (utf8 (pem_bundle pre blocks))"
    and "45 \<notin> set pre" and "list_all good_block blocks" and "list_all scalar (pem_bundle pre blocks)"
  shows "try_load_pem_file files add path store = foldl add store (map fst blocks)"
proof -
  have "pem_ders (pem_bundle pre blocks) = map fst blocks"
    using assms(3) block_der
    by (auto simp: pem_ders_def split_bundle [OF markerless_dashes [OF assms(2)] assms(3)] Let_def
        map_filter_def list_all_iff comp_def cong: map_cong)
  then show ?thesis by (simp add: try_load_pem_file_def assms(1) from_utf8_lossy_utf8 [OF assms(4)])
qed

section \<open>The body is what the server sends after the head\<close>

text \<open>A stream that gives these pieces and then ends.\<close>

definition served :: "bytes list \<Rightarrow> nat \<Rightarrow> read" where
  "served chunks i = (if i < length chunks then Data (chunks ! i) else Data [])"

lemma read_loop_served:
  assumes "\<forall>k. rd (i + k) = served chunks k" and "[] \<notin> set chunks" and "length r \<le> 2097152"
  shows "read_loop eof_ends what rd i r =
    (if length (r @ concat chunks) \<le> 2097152 then Ok (r @ concat chunks) else Err (lit ''response too large (>2 MB)''))"
  using assms
proof (induction chunks arbitrary: i r)
  case Nil
  from Nil.prems(1) have "rd i = Data []" by (metis add_0_right served_def list.size(3) not_less_zero)
  with Nil show ?case by (subst read_loop.simps) simp
next
  case (Cons c cs)
  from Cons.prems(1) have "rd (i + 0) = served (c # cs) 0" by blast
  then have here: "rd i = Data c" by (simp add: served_def)
  have "\<forall>k. rd (Suc i + k) = served cs k"
  proof
    fix k
    from Cons.prems(1) have "rd (i + Suc k) = served (c # cs) (Suc k)" by blast
    then show "rd (Suc i + k) = served cs k" by (simp add: served_def)
  qed
  moreover have "c \<noteq> []" using Cons.prems(2) by auto
  ultimately show ?case
    using Cons.prems Cons.IH [of "Suc i" "r @ c"] here by (subst read_loop.simps) (simp add: not_less)
qed

lemma split_str_first: "\<not> str_contains (a @ butlast p) p \<Longrightarrow> p \<noteq> [] \<Longrightarrow> split_str p (a @ p @ s) = Some (a, s)"
proof (induction a)
  case (Cons c a)
  have "starts_with p (c # a @ p @ s) \<Longrightarrow> starts_with p (c # a @ butlast p)"
    using Cons.prems(2) by (cases p rule: rev_cases) (auto simp: starts_with_def)
  with Cons show ?case by auto
qed (simp add: split_str_here)

lemma parse_url_written:
  assumes "47 \<notin> set host" and "58 \<notin> set host" and "n < 65536"
  shows "parse_url (lit ''http://'' @ host @ 58 # to_dec n @ 47 # path) = Ok (host, 47 # path, of_nat n, False)"
proof -
  have "strip_prefix (lit ''https://'') (lit ''http://'' @ r) = None" for r
    by (simp add: strip_prefix_def starts_with_def lit_Cons)
  moreover have dec: "47 \<notin> set (to_dec n)" "58 \<notin> set (to_dec n)"
    using to_dec_digits [of n] by (auto simp: list_all_iff is_digit_def)
  moreover have "split_once 47 ((host @ 58 # to_dec n) @ 47 # path) = Some (host @ 58 # to_dec n, path)"
    using assms(1) dec by (intro split_once_append) simp
  moreover have "rsplit_once 58 (host @ 58 # to_dec n) = Some (host, to_dec n)"
    by (rule rsplit_once_append [OF dec(2)])
  ultimately show ?thesis
    using assms(3) by (simp add: parse_url_def parse_uint_to_dec)
qed

text \<open>C23: However a server cuts its response into reads, a page fetched over HTTP is what follows the first
  blank line, and a response longer than two megabytes is refused. Nothing else of the head is looked at.\<close>

theorem http_body_fetched:
  assumes "47 \<notin> set host" and "58 \<notin> set host" and "n < 65536"
    and "\<not> str_contains (head @ [13, 10, 13]) [13, 10, 13, 10]" and "list_all scalar (head @ body)"
    and "[] \<notin> set chunks" and "concat chunks = utf8 (head @ [13, 10, 13, 10] @ body)"
    and "nt_connect N (host @ 58 # to_dec n) = Ok ()"
    and "nt_write N (host @ 58 # to_dec n) (http_request host (47 # path)) = Ok ()"
    and "nt_read N (host @ 58 # to_dec n) (http_request host (47 # path)) = served chunks"
  shows "fetch_url N (lit ''http://'' @ host @ 58 # to_dec n @ 47 # path) =
    (if length (concat chunks) \<le> 2097152 then Ok body else Err (lit ''response too large (>2 MB)''))"
proof -
  have loop: "read_loop False (lit ''read response: '') (served chunks) 0 [] =
      (if length (concat chunks) \<le> 2097152 then Ok (concat chunks) else Err (lit ''response too large (>2 MB)''))"
    using read_loop_served [of "served chunks" 0 chunks "[]"] assms(6) by simp
  have "list_all scalar (head @ [13, 10, 13, 10] @ body)" using assms(5) by (simp add: scalar_def)
  moreover have "split_str [13, 10, 13, 10] (head @ [13, 10, 13, 10] @ body) = Some (head, body)"
    by (rule split_str_first) (use assms(4) in simp_all)
  moreover have "unat (of_nat n :: u16) = n" "lit '':'' = [58]" using assms(3) by (simp_all add: unat_of_nat lit_Cons)
  ultimately show ?thesis
    using assms(7-10) loop
    by (simp add: fetch_url_def fetch_url_blocking_def parse_url_written [OF assms(1-3)] fetch_http_blocking_def)
qed

definition page_head :: ustr where "page_head = lit ''HTTP/1.1 200 OK''"

definition page_chunks :: "bytes list" where
  "page_chunks = (let u = utf8 (page_head @ [13, 10, 13, 10] @ lit ''hello'') in [take 7 u, drop 7 u])"

definition page_net :: "unit net" where
  "page_net = \<lparr>nt_connect = (\<lambda>_. Ok ()), nt_write = (\<lambda>_ _. Ok ()), nt_read = (\<lambda>_ _. served page_chunks),
     nt_server_name = (\<lambda>_. Ok ()), nt_empty_store = (), nt_add_cert = (\<lambda>_ _. ()), nt_files = (\<lambda>_. None),
     nt_tls_client = (\<lambda>_ _. Ok ()), nt_tls_write = (\<lambda>_ _ _. Ok ()), nt_tls_read = (\<lambda>_ _ _. served page_chunks)\<rparr>"

theorem http_body_fetched_witness:
  "fetch_url page_net (lit ''http://'' @ lit ''example'' @ 58 # to_dec 80 @ 47 # lit ''a'') = Ok (lit ''hello'')"
proof -
  have len: "length (utf8 (page_head @ [13, 10, 13, 10] @ lit ''hello'')) = 24"
    by (simp add: length_utf8 page_head_def lit_Cons utf8_len_def)
  have "concat page_chunks = utf8 (page_head @ [13, 10, 13, 10] @ lit ''hello'')"
    by (simp only: page_chunks_def Let_def concat.simps append_Nil2 append_take_drop_id)
  moreover have "[] \<notin> set page_chunks" using len by (auto simp: page_chunks_def Let_def)
  moreover have "\<not> str_contains (page_head @ [13, 10, 13]) [13, 10, 13, 10]" "list_all scalar (page_head @ lit ''hello'')"
    by (simp_all add: page_head_def lit_Cons starts_with_def scalar_def)
  ultimately show ?thesis
    using http_body_fetched [of "lit ''example''" 80 page_head "lit ''hello''" page_chunks page_net "lit ''a''"] len
    by (simp add: page_net_def lit_Cons)
qed

definition one_cert :: "(bytes \<times> ustr \<times> ustr) list" where
  "one_cert = [([0, 0, 0, 0], lit ''AAA'' @ [10] @ lit ''AAA=='' @ [10], [10])]"

theorem pem_bundle_loaded_witness:
  "try_load_pem_file (\<lambda>_. Some (utf8 (pem_bundle (lit ''Root CA'' @ [10]) one_cert))) (\<lambda>s d. s @ [d]) [] [] = [[0, 0, 0, 0]]"
proof -
  have "base64_char 0 = 65" by (simp add: base64_char_def TABLE_def lit_Cons)
  moreover have "replicate 2 (61 :: uchar) = [61, 61]" by (simp add: numeral_2_eq_2)
  ultimately have "base64_encode [0, 0, 0, 0] = lit ''AAAAAA==''"
    by (simp add: base64_encode_def group_defs lit_Cons)
  then have "list_all good_block one_cert"
    by (simp add: one_cert_def lit_Cons is_ascii_whitespace_def)
  moreover have "list_all scalar (pem_bundle (lit ''Root CA'' @ [10]) one_cert)"
    by (simp add: one_cert_def pem_bundle_def PEM_BEGIN_def PEM_END_def lit_Cons scalar_def)
  moreover have "45 \<notin> set (lit ''Root CA'' @ [10])" by (simp add: lit_Cons)
  ultimately have "try_load_pem_file (\<lambda>_. Some (utf8 (pem_bundle (lit ''Root CA'' @ [10]) one_cert))) (\<lambda>s d. s @ [d]) [] [] =
      foldl (\<lambda>s d. s @ [d]) [] (map fst one_cert)"
    by (intro pem_bundle_loaded) simp_all
  also have "\<dots> = [[0, 0, 0, 0]]" by (simp add: one_cert_def)
  finally show ?thesis .
qed

end
