(* ===== verification/Feed.thy ===== *)
theory Feed
  imports Text Json
begin

text \<open>
  \<^verbatim>\<open>src/src/scraper/discovery/html_scrape.rs\<close> and \<^verbatim>\<open>api.rs\<close>: reading RSS and Atom feeds and
  JSON responses into items. In strings 60 and 62 are the angle brackets, 47 the slash and 34
  the quotation mark.
\<close>

section \<open>Markup\<close>

text \<open>The loop over the blocks. The opening tag is searched for without its closing bracket.\<close>

function xml_blocks :: "ustr \<Rightarrow> ustr \<Rightarrow> ustr \<Rightarrow> ustr list" where
  "xml_blocks opn cls s =
     (case split_str opn s of
        None \<Rightarrow> []
      | Some (_, r) \<Rightarrow>
          (case split_once 62 (opn @ r) of
             None \<Rightarrow> []
           | Some (_, content) \<Rightarrow>
               (case split_str cls content of
                  None \<Rightarrow> []
                | Some (block, rest) \<Rightarrow> block # xml_blocks opn cls rest)))"
  by pat_completeness auto
termination
proof (relation "measure (\<lambda>(_, _, s). length s)")
  fix opn cls s a r b content block rest :: ustr and x y z
  assume "split_str opn s = Some x" "(a, r) = x" "split_once 62 (opn @ r) = Some y" "(b, content) = y"
    "split_str cls content = Some z" "(block, rest) = z"
  then have "s = a @ opn @ r" "opn @ r = b @ 62 # content" "content = block @ cls @ rest"
    by (auto dest: split_str_SomeD split_once_SomeD)
  then have "length rest \<le> length content" "length content < length (opn @ r)" "length (opn @ r) \<le> length s"
    by simp_all
  then show "((opn, cls, rest), (opn, cls, s)) \<in> measure (\<lambda>(_, _, s). length s)" by simp
qed simp

declare xml_blocks.simps [simp del]

definition extract_xml_blocks :: "ustr \<Rightarrow> string \<Rightarrow> ustr list" where
  "extract_xml_blocks xml tag = xml_blocks (60 # lit tag) ([60, 47] @ lit tag @ [62]) xml"

definition cdata_stripped :: "ustr \<Rightarrow> ustr option" where
  "cdata_stripped text = Option.bind (strip_prefix (lit ''<![CDATA['') text) (strip_suffix (lit '']]>''))"

definition extract_xml_text :: "ustr \<Rightarrow> string \<Rightarrow> ustr option" where
  "extract_xml_text block tag =
     (let opn = 60 # lit tag; cls = [60, 47] @ lit tag @ [62]
      in Option.bind (split_str opn block) (\<lambda>(_, r).
         Option.bind (split_once 62 (opn @ r)) (\<lambda>(t, after).
         if ends_with (lit ''/>'') (t @ [62]) then None
         else Option.bind (split_str cls after) (\<lambda>(text, _).
           let text = trim text
           in case cdata_stripped text of
                Some stripped \<Rightarrow> Some stripped
              | None \<Rightarrow> if text = [] then None else Some text))))"

section \<open>Feeds\<close>

record FeedEntry =
  fe_link :: ustr
  fe_body :: ustr

definition entry_of :: "ustr \<Rightarrow> ustr \<Rightarrow> ustr \<Rightarrow> FeedEntry option" where
  "entry_of link title description =
     (if link = [] then None
      else Some \<lparr>fe_link = link,
        fe_body = (if title = [] then description
          else if description = [] then title
          else title @ [10, 10] @ description)\<rparr>)"

definition rss_entry :: "ustr \<Rightarrow> FeedEntry option" where
  "rss_entry item_block =
     (let link = unwrap_or (extract_xml_text item_block ''link'') [];
          title = unwrap_or (extract_xml_text item_block ''title'') [];
          description = unwrap_or (or_else (extract_xml_text item_block ''description'')
            (extract_xml_text item_block ''content:encoded'')) []
      in entry_of link title description)"

text \<open>The \<^verbatim>\<open>href\<close> of the first line with a link.\<close>

definition link_href :: "ustr \<Rightarrow> ustr option" where
  "link_href entry_block =
     Option.bind (List.find (\<lambda>l. str_contains l (lit ''<link'') \<and> str_contains l (lit ''href='')) (lines entry_block)) (\<lambda>l.
     Option.bind (split_str (lit ''href='' @ [34]) l) (\<lambda>(_, r).
     Option.bind (split_once 34 r) (\<lambda>(href, _). Some href)))"

definition atom_entry :: "ustr \<Rightarrow> FeedEntry option" where
  "atom_entry entry_block =
     (let link = unwrap_or (or_else (extract_xml_text entry_block ''link'') (link_href entry_block)) [];
          title = unwrap_or (extract_xml_text entry_block ''title'') [];
          summary = unwrap_or (or_else (extract_xml_text entry_block ''summary'')
            (extract_xml_text entry_block ''content'')) []
      in entry_of link title summary)"

definition parse_feed :: "ustr \<Rightarrow> (FeedEntry list, ustr) result" where
  "parse_feed xml =
     (let entries = List.map_filter rss_entry (extract_xml_blocks xml ''item'')
        @ List.map_filter atom_entry (extract_xml_blocks xml ''entry'')
      in if entries = [] \<and> \<not> str_contains xml (lit ''<item'') \<and> \<not> str_contains xml (lit ''<entry'')
         then Err (lit ''no feed entries found (expected RSS <item> or Atom <entry>)'')
         else Ok entries)"

section \<open>API responses\<close>

record ApiItem =
  ai_source_url :: ustr
  ai_schema :: ustr
  ai_tags :: "ustr list"
  ai_body :: ustr

definition api_item :: "json_lib \<Rightarrow> json \<Rightarrow> ApiItem" where
  "api_item L item =
     \<lparr>ai_source_url = unwrap_or (Option.bind (or_else (json_get ''url'' item) (json_get ''source_url'' item)) as_str)
        (lit ''api://unknown''),
      ai_schema = unwrap_or (get_str ''schema'' item) (lit ''generic/kv''),
      ai_tags = unwrap_or (map_option strings_of (Option.bind (json_get ''tags'' item) as_array)) [],
      ai_body = (case Option.bind (or_else (json_get ''body'' item) (json_get ''content'' item)) as_str of
          Some s \<Rightarrow> s
        | None \<Rightarrow> (case js_print L item of Ok s \<Rightarrow> s | _ \<Rightarrow> []))\<rparr>"

definition parse_api_response :: "json_lib \<Rightarrow> ustr \<Rightarrow> (ApiItem list, ustr) result" where
  "parse_api_response L response =
     rbind (map_err (\<lambda>e. lit ''parse API response: '' @ e) (js_parse L response)) (\<lambda>val.
     rbind (case val of JArr arr \<Rightarrow> Ok arr | JObj ms \<Rightarrow> Ok [val]
       | _ \<Rightarrow> Err (lit ''API response must be a JSON array or object'')) (\<lambda>items.
     Ok (map (api_item L) items)))"

section \<open>Feeds are read as they were written\<close>

text \<open>An RSS item, and a document with items between a header and a trailer.\<close>

record rss_item =
  ri_title :: ustr
  ri_link :: ustr
  ri_description :: ustr

definition item_text :: "rss_item \<Rightarrow> ustr" where
  "item_text i = lit ''<title>'' @ ri_title i @ lit ''</title><link>'' @ ri_link i @
     lit ''</link><description>'' @ ri_description i @ lit ''</description>''"

definition rss :: "ustr \<Rightarrow> rss_item list \<Rightarrow> ustr \<Rightarrow> ustr" where
  "rss header items trailer = header @ concat (map (\<lambda>i. lit ''<item>'' @ item_text i @ lit ''</item>'') items) @ trailer"

text \<open>Texts without markup, and without white space around them.\<close>

definition plain_text :: "ustr \<Rightarrow> bool" where
  "plain_text s \<longleftrightarrow> 60 \<notin> set s \<and> trim s = s"

definition good_item :: "rss_item \<Rightarrow> bool" where
  "good_item i \<longleftrightarrow> plain_text (ri_title i) \<and> plain_text (ri_link i) \<and> plain_text (ri_description i) \<and> ri_link i \<noteq> []"

lemma split_str_text: "60 \<notin> set t \<Longrightarrow>
    split_str (60 # q) (t @ s) = map_option (\<lambda>(b, r). (t @ b, r)) (split_str (60 # q) s)"
  by (rule split_str_skip) auto

lemma cdata_plain: "60 \<notin> set s \<Longrightarrow> cdata_stripped s = None"
  by (cases s) (auto simp: cdata_stripped_def strip_prefix_def starts_with_def lit_Cons)

lemma item_block:
  "good_item i \<Longrightarrow> split_str ([60, 47] @ lit ''item'' @ [62]) (item_text i @ lit ''</item>'' @ s) = Some (item_text i, s)"
  by (simp add: good_item_def plain_text_def item_text_def lit_Cons starts_with_def split_str_text)

lemma item_fields:
  assumes "good_item i"
  shows "extract_xml_text (item_text i) ''link'' = Some (ri_link i)"
    "extract_xml_text (item_text i) ''title'' = (if ri_title i = [] then None else Some (ri_title i))"
    "extract_xml_text (item_text i) ''description'' = (if ri_description i = [] then None else Some (ri_description i))"
    "extract_xml_text (item_text i) ''content:encoded'' = None"
  using assms
  by (simp_all add: good_item_def plain_text_def item_text_def extract_xml_text_def lit_Cons starts_with_def
      split_str_text ends_with_def cdata_plain)

lemma item_entry:
  "good_item i \<Longrightarrow> rss_entry (item_text i) = entry_of (ri_link i) (ri_title i) (ri_description i)"
  by (simp add: rss_entry_def item_fields)

definition items_text :: "rss_item list \<Rightarrow> ustr \<Rightarrow> ustr" where
  "items_text items trailer = concat (map (\<lambda>i. lit ''<item>'' @ item_text i @ lit ''</item>'') items) @ trailer"

lemma items_text_simps:
  "items_text [] trailer = trailer"
  "items_text (i # items) trailer = lit ''<item>'' @ item_text i @ lit ''</item>'' @ items_text items trailer"
  by (simp_all add: items_text_def)

lemma item_blocks:
  assumes "list_all good_item items" and "\<not> str_contains trailer (lit ''<item'')"
  shows "xml_blocks (60 # lit ''item'') ([60, 47] @ lit ''item'' @ [62]) (items_text items trailer) = map item_text items"
  using assms(1)
proof (induction items)
  case Nil
  have "split_str (60 # lit ''item'') trailer = None" using assms(2) by (simp add: split_str_None_iff lit_Cons)
  then show ?case by (subst xml_blocks.simps) (simp only: items_text_simps option.case list.map)
next
  case (Cons i items)
  let ?s = "item_text i @ lit ''</item>'' @ items_text items trailer"
  have "split_str (60 # lit ''item'') (lit ''<item>'' @ ?s) = Some ([], 62 # ?s)"
    by (simp add: lit_Cons starts_with_def)
  moreover have "split_once 62 ((60 # lit ''item'') @ 62 # ?s) = Some (60 # lit ''item'', ?s)"
    by (rule split_once_append) (simp add: lit_Cons)
  moreover have "split_str ([60, 47] @ lit ''item'' @ [62]) ?s = Some (item_text i, items_text items trailer)"
    using item_block Cons.prems by simp
  ultimately show ?case
    using Cons.IH Cons.prems by (subst xml_blocks.simps) (simp only: items_text_simps option.case prod.case list.map list.pred_inject)
qed

lemma no_entries:
  assumes "list_all good_item items" and "\<not> str_contains trailer (lit ''<entry'')"
  shows "split_str (60 # lit ''entry'') (items_text items trailer) = None"
  using assms(1)
proof (induction items)
  case Nil
  then show ?case using assms(2) by (simp add: items_text_simps split_str_None_iff lit_Cons)
next
  case (Cons i items)
  then show ?case
    by (simp add: items_text_simps good_item_def plain_text_def item_text_def lit_Cons starts_with_def split_str_text)
qed

text \<open>An RSS document is read as it was written: whatever stands around the items, each gives one
  entry in their order, with its link, and its title and description joined by a blank line, or the
  one that is not empty.\<close>

theorem parse_feed_rss:
  assumes "list_all good_item items" and "hd trailer = 60"
    and "\<not> str_contains header (lit ''<item'')" and "\<not> str_contains header (lit ''<entry'')"
    and "\<not> str_contains trailer (lit ''<item'')" and "\<not> str_contains trailer (lit ''<entry'')"
    and "items \<noteq> []"
  shows "parse_feed (rss header items trailer) =
    Ok (map (\<lambda>i. \<lparr>fe_link = ri_link i,
      fe_body = join [10, 10] (filter (\<lambda>t. t \<noteq> []) [ri_title i, ri_description i])\<rparr>) items)"
proof -
  have xml: "rss header items trailer = header @ items_text items trailer" by (simp add: rss_def items_text_def)
  have hd: "hd (items_text items trailer) = 60" using assms(2) by (cases items) (simp_all add: items_text_simps lit_Cons)
  have split: "split_str (60 # q) (header @ items_text items trailer) =
      map_option (\<lambda>(b, r). (header @ b, r)) (split_str (60 # q) (items_text items trailer))"
    if "60 \<notin> set q" "\<not> str_contains header (60 # q)" for q
    by (rule split_str_free [of _ 60 q]) (use that hd in simp_all)
  have "extract_xml_blocks (rss header items trailer) ''item'' =
      map item_text items"
    using item_blocks [OF assms(1,5)] split [of "lit ''item''"] assms(3) unfolding xml extract_xml_blocks_def
    by (subst xml_blocks.simps, subst (asm) xml_blocks.simps) (auto simp: lit_Cons split: option.splits)
  moreover have "extract_xml_blocks (rss header items trailer) ''entry'' = []"
    using split [of "lit ''entry''"] assms(4) no_entries [OF assms(1,6)] unfolding xml extract_xml_blocks_def
    by (subst xml_blocks.simps) (simp add: lit_Cons)
  moreover have "List.map_filter rss_entry (map item_text items) = map (\<lambda>i. \<lparr>fe_link = ri_link i,
      fe_body = join [10, 10] (filter (\<lambda>t. t \<noteq> []) [ri_title i, ri_description i])\<rparr>) items"
    using assms(1) by (induction items) (auto simp: item_entry entry_of_def good_item_def)
  ultimately show ?thesis
    using assms(7) by (simp add: parse_feed_def map_filter_simps)
qed

definition two_items :: "rss_item list" where
  "two_items = [\<lparr>ri_title = lit ''First'', ri_link = lit ''http://a/1'', ri_description = lit ''One''\<rparr>,
     \<lparr>ri_title = [], ri_link = lit ''http://a/2'', ri_description = lit ''Two''\<rparr>]"

theorem parse_feed_rss_witness:
  "parse_feed (rss (lit ''<rss><channel><title>News</title>'') two_items (lit ''</channel></rss>'')) =
     Ok [\<lparr>fe_link = lit ''http://a/1'', fe_body = lit ''First'' @ [10, 10] @ lit ''One''\<rparr>,
         \<lparr>fe_link = lit ''http://a/2'', fe_body = lit ''Two''\<rparr>]"
proof -
  have "list_all good_item two_items"
    by (simp add: two_items_def good_item_def plain_text_def lit_Cons trim_def trim_end_def is_whitespace_def)
  then show ?thesis
    by (subst parse_feed_rss) (simp_all add: two_items_def lit_Cons starts_with_def)
qed

end
