(* ===== verification/Job.thy ===== *)
theory Job
  imports Fetch Feed Url Sanitize Store
begin

text \<open>
  \<^verbatim>\<open>src/src/scraper/job.rs\<close> (\<^verbatim>\<open>run_url_job\<close>), \<^verbatim>\<open>discovery/html_scrape.rs\<close> (\<^verbatim>\<open>run_feed_job\<close>)
  and \<^verbatim>\<open>discovery/api.rs\<close> (\<^verbatim>\<open>run_api_job\<close>): what is fetched becomes records, which are sanitised and
  inserted into the store. The HTTP client reqwest is a parameter, and so is the clock, which
  gives the time of each reading.
\<close>

section \<open>Records\<close>

text \<open>In a release build the sum of the times wraps.\<close>

definition url_record :: "('sk, 'vk) crypto \<Rightarrow> (ustr \<Rightarrow> ustr) \<Rightarrow> ustr \<Rightarrow> ustr \<Rightarrow> ustr \<Rightarrow> u64 \<Rightarrow> u64 \<Rightarrow> ustr \<Rightarrow> ContentRecord" where
  "url_record K lc name target lifecycle ttl_secs now body =
     (let source_hash = compute_source_hash K lc target;
          created_at_str = to_dec (unat now);
          id = compute_record_id K (utf8 target) (utf8 source_hash) (utf8 GENERIC_KV) [] (utf8 body) (utf8 created_at_str);
          expires_at = (if lifecycle = lit ''pinned'' then 0 else now + ttl_secs)
      in \<lparr>cr_id = id, cr_source_url = target, cr_source_hash = source_hash, cr_schema = GENERIC_KV,
          cr_tags = [lit ''scraper:'' @ name], cr_body = body, cr_created_at = now, cr_expires_at = expires_at,
          cr_scrape_source = Url, cr_refresh_policy = Once, cr_sig = []\<rparr>)"

definition feed_record :: "('sk, 'vk) crypto \<Rightarrow> (ustr \<Rightarrow> ustr) \<Rightarrow> ustr \<Rightarrow> u64 \<Rightarrow> u64 \<Rightarrow> FeedEntry \<Rightarrow> ContentRecord" where
  "feed_record K lc name ttl_secs now entry =
     (let source_hash = compute_source_hash K lc (fe_link entry);
          id = compute_record_id K (utf8 (fe_link entry)) (utf8 source_hash) (utf8 (lit ''generic/kv'')) []
            (utf8 (fe_body entry)) (utf8 (to_dec (unat now)))
      in \<lparr>cr_id = id, cr_source_url = fe_link entry, cr_source_hash = source_hash, cr_schema = lit ''generic/kv'',
          cr_tags = [lit ''feed:'' @ name], cr_body = fe_body entry, cr_created_at = now, cr_expires_at = now + ttl_secs,
          cr_scrape_source = Feed, cr_refresh_policy = Interval, cr_sig = []\<rparr>)"

definition api_record :: "('sk, 'vk) crypto \<Rightarrow> (ustr \<Rightarrow> ustr) \<Rightarrow> u64 \<Rightarrow> u64 \<Rightarrow> ApiItem \<Rightarrow> ContentRecord" where
  "api_record K lc ttl_secs now item =
     (let source_hash = compute_source_hash K lc (ai_source_url item);
          id = compute_record_id K (utf8 (ai_source_url item)) (utf8 source_hash) (utf8 (ai_schema item)) []
            (utf8 (ai_body item)) (utf8 (to_dec (unat now)))
      in \<lparr>cr_id = id, cr_source_url = ai_source_url item, cr_source_hash = source_hash, cr_schema = ai_schema item,
          cr_tags = ai_tags item, cr_body = ai_body item, cr_created_at = now, cr_expires_at = now + ttl_secs,
          cr_scrape_source = Api, cr_refresh_policy = Interval, cr_sig = []\<rparr>)"

section \<open>Inserting items\<close>

type_synonym 's put = "ContentRecord \<Rightarrow> 's \<Rightarrow> ((InsertResult, ustr) result \<times> ContentRecord) \<times> 's"

record counts =
  ct_inserted :: nat
  ct_replaced :: nat
  ct_skipped :: nat

fun count :: "InsertResult \<Rightarrow> counts \<Rightarrow> counts" where
  "count Inserted c = c\<lparr>ct_inserted := ct_inserted c + 1\<rparr>"
| "count ReplacedNewer c = c\<lparr>ct_replaced := ct_replaced c + 1\<rparr>"
| "count SkippedOlder c = c\<lparr>ct_skipped := ct_skipped c + 1\<rparr>"

text \<open>The loop of a feed or API job; \<open>k\<close> counts the readings of the clock. An error ends the job,
  and what was inserted stays.\<close>

fun insert_items :: "'s put \<Rightarrow> (u64 \<Rightarrow> 'i \<Rightarrow> ContentRecord) \<Rightarrow> (nat \<Rightarrow> u64) \<Rightarrow> nat \<Rightarrow> 'i list \<Rightarrow> counts \<Rightarrow> 's
    \<Rightarrow> (counts, ustr) result \<times> 's" where
  "insert_items put_rec mk clock k [] c st = (Ok c, st)"
| "insert_items put_rec mk clock k (i # is) c st =
     (case sanitize_record (mk (clock k) i) of
        Err e \<Rightarrow> (Err e, st) | Panic \<Rightarrow> (Panic, st)
      | Ok rec \<Rightarrow> (case put_rec rec st of
            ((Ok res, _), st) \<Rightarrow> insert_items put_rec mk clock (Suc k) is (count res c) st
          | ((Err e, _), st) \<Rightarrow> (Err e, st)
          | ((Panic, _), st) \<Rightarrow> (Panic, st)))"

section \<open>Jobs\<close>

record ScrapeResult =
  sr_job_name :: ustr
  sr_record_id :: ustr
  sr_inserted :: bool
  sr_replaced :: bool

definition run_url_job :: "('sk, 'vk) crypto \<Rightarrow> (ustr \<Rightarrow> ustr) \<Rightarrow> 'c net \<Rightarrow> ('d, 't) redb \<Rightarrow> serde \<Rightarrow> u64
    \<Rightarrow> ustr \<Rightarrow> ustr \<Rightarrow> ustr \<Rightarrow> u64 \<Rightarrow> ('d, 'sk) Store \<Rightarrow> (ScrapeResult, ustr) result \<times> ('d, 'sk) Store" where
  "run_url_job K lc N R J now name target lifecycle ttl_secs st =
     (case fetch_url N target of
        Err e \<Rightarrow> (Err e, st) | Panic \<Rightarrow> (Panic, st)
      | Ok body \<Rightarrow>
          (case sanitize_record (url_record K lc name target lifecycle ttl_secs now body) of
             Err e \<Rightarrow> (Err e, st) | Panic \<Rightarrow> (Panic, st)
           | Ok rec \<Rightarrow>
               (case store_insert_record K R J rec st of
                  ((Ok res, rec), st) \<Rightarrow> (Ok \<lparr>sr_job_name = name, sr_record_id = cr_id rec,
                    sr_inserted = (res = Inserted), sr_replaced = (res = ReplacedNewer)\<rparr>, st)
                | ((Err e, _), st) \<Rightarrow> (Err e, st)
                | ((Panic, _), st) \<Rightarrow> (Panic, st))))"

record job_totals =
  jt_job_name :: ustr
  jt_total :: nat
  jt_inserted :: nat
  jt_replaced :: nat
  jt_skipped :: nat

definition totals :: "ustr \<Rightarrow> nat \<Rightarrow> (counts, ustr) result \<times> 's \<Rightarrow> (job_totals, ustr) result \<times> 's" where
  "totals name n r = (rbind (fst r) (\<lambda>c. Ok \<lparr>jt_job_name = name, jt_total = n, jt_inserted = ct_inserted c,
     jt_replaced = ct_replaced c, jt_skipped = ct_skipped c\<rparr>), snd r)"

definition no_counts :: counts where
  "no_counts = \<lparr>ct_inserted = 0, ct_replaced = 0, ct_skipped = 0\<rparr>"

record 'resp reqwest =
  rq_get :: "ustr \<Rightarrow> ('resp, ustr) result"
  rq_text :: "'resp \<Rightarrow> (ustr, ustr) result"

definition fetch_feed :: "'resp reqwest \<Rightarrow> ustr \<Rightarrow> (ustr, ustr) result" where
  "fetch_feed Q url =
     rbind (map_err (\<lambda>e. lit ''fetch feed '' @ url @ lit '': '' @ e) (rq_get Q url)) (\<lambda>response.
     map_err (\<lambda>e. lit ''read feed response: '' @ e) (rq_text Q response))"

definition fetch_api :: "'resp reqwest \<Rightarrow> ustr \<Rightarrow> (ustr, ustr) result" where
  "fetch_api Q url =
     rbind (map_err (\<lambda>e. lit ''fetch API '' @ url @ lit '': '' @ e) (rq_get Q url)) (\<lambda>response.
     map_err (\<lambda>e. lit ''read API response: '' @ e) (rq_text Q response))"

definition run_feed_job :: "('sk, 'vk) crypto \<Rightarrow> (ustr \<Rightarrow> ustr) \<Rightarrow> 'resp reqwest \<Rightarrow> ('d, 't) redb \<Rightarrow> serde \<Rightarrow> (nat \<Rightarrow> u64)
    \<Rightarrow> ustr \<Rightarrow> ustr \<Rightarrow> u64 \<Rightarrow> ('d, 'sk) Store \<Rightarrow> (job_totals, ustr) result \<times> ('d, 'sk) Store" where
  "run_feed_job K lc Q R J clock name target ttl_secs st =
     (case rbind (fetch_feed Q target) parse_feed of
        Err e \<Rightarrow> (Err e, st) | Panic \<Rightarrow> (Panic, st)
      | Ok entries \<Rightarrow> totals name (length entries)
          (insert_items (store_insert_record K R J) (feed_record K lc name ttl_secs) clock 0 entries no_counts st))"

definition run_api_job :: "('sk, 'vk) crypto \<Rightarrow> (ustr \<Rightarrow> ustr) \<Rightarrow> 'resp reqwest \<Rightarrow> json_lib \<Rightarrow> ('d, 't) redb \<Rightarrow> serde
    \<Rightarrow> (nat \<Rightarrow> u64) \<Rightarrow> ustr \<Rightarrow> ustr \<Rightarrow> u64 \<Rightarrow> ('d, 'sk) Store \<Rightarrow> (job_totals, ustr) result \<times> ('d, 'sk) Store" where
  "run_api_job K lc Q L R J clock name target ttl_secs st =
     (case rbind (fetch_api Q target) (parse_api_response L) of
        Err e \<Rightarrow> (Err e, st) | Panic \<Rightarrow> (Panic, st)
      | Ok records \<Rightarrow> totals name (length records)
          (insert_items (store_insert_record K R J) (api_record K lc ttl_secs) clock 0 records no_counts st))"

section \<open>What an inserting store promises\<close>

text \<open>A store whose insert keeps an invariant, whatever it returns.\<close>

locale record_sink =
  fixes inv :: "'s \<Rightarrow> bool" and put_rec :: "'s put"
  assumes put_keeps: "inv st \<Longrightarrow> inv (snd (put_rec r st))"
begin

lemma insert_items_keeps: "inv st \<Longrightarrow> inv (snd (insert_items put_rec mk clock k is c st))"
proof (induction "is" arbitrary: k c st)
  case (Cons i "is")
  show ?case
  proof (cases "sanitize_record (mk (clock k) i)")
    case (Ok r)
    obtain x rec st' where p: "put_rec r st = ((x, rec), st')" by (cases "put_rec r st") auto
    with put_keeps [OF Cons.prems, of r] have "inv st'" by simp
    with Cons.IH Ok p show ?thesis by (cases x) simp_all
  qed (use Cons.prems in simp_all)
qed simp

lemma totals_keep: "inv st \<Longrightarrow> inv (snd (totals name n (insert_items put_rec mk clock k is c st)))"
  by (simp add: totals_def insert_items_keeps)

end

interpretation store_sink: record_sink "\<lambda>st. redb_laws R vd vt \<and> serde_laws J \<and> store_inv J vd st" "store_insert_record K R J"
  for R :: "('d, 't) redb" and vd vt J and K :: "('sk, 'vk) crypto"
proof
  fix st :: "('d, 'sk) Store" and r
  assume "redb_laws R vd vt \<and> serde_laws J \<and> store_inv J vd st"
  then show "redb_laws R vd vt \<and> serde_laws J \<and> store_inv J vd (snd (store_insert_record K R J r st))"
    using store_step_inv [OF _ _ store_step.insert] by blast
qed

text \<open>Every item is counted once.\<close>

lemma insert_items_counts:
  "insert_items put_rec mk clock k is c st = (Ok c', st') \<Longrightarrow>
     ct_inserted c' + ct_replaced c' + ct_skipped c' = ct_inserted c + ct_replaced c + ct_skipped c + length is"
proof (induction "is" arbitrary: k c st)
  case (Cons i "is")
  from Cons.prems obtain rec res x st1 where "sanitize_record (mk (clock k) i) = Ok rec" "put_rec rec st = ((Ok res, x), st1)"
      "insert_items put_rec mk clock (Suc k) is (count res c) st1 = (Ok c', st')"
    by (auto split: result.splits prod.splits)
  with Cons.IH [of "Suc k" "count res c" st1] show ?case by (cases res) simp_all
qed simp

section \<open>The jobs keep the store's invariant\<close>

lemma run_url_job_keeps:
  assumes "redb_laws R vd vt" and "serde_laws J" and "store_inv J vd st"
  shows "store_inv J vd (snd (run_url_job K lc N R J now name target lifecycle ttl st))"
proof -
  have "store_inv J vd st'" if "store_insert_record K R J r st = (x, st')" for r x st'
    using assms store_sink.put_keeps [of R vd vt J st K r] that by simp
  then show ?thesis using assms(3) by (auto simp: run_url_job_def split: result.splits prod.splits)
qed

lemma run_feed_job_keeps:
  assumes "redb_laws R vd vt" and "serde_laws J" and "store_inv J vd st"
  shows "store_inv J vd (snd (run_feed_job K lc Q R J clock name target ttl st))"
  using assms store_sink.totals_keep [of R vd vt J st] by (auto simp: run_feed_job_def split: result.splits)

lemma run_api_job_keeps:
  assumes "redb_laws R vd vt" and "serde_laws J" and "store_inv J vd st"
  shows "store_inv J vd (snd (run_api_job K lc Q L R J clock name target ttl st))"
  using assms store_sink.totals_keep [of R vd vt J st] by (auto simp: run_api_job_def split: result.splits)

section \<open>Identifiers of scraped records\<close>

text \<open>What the identifier of a record was computed from by the scraper, and what its verification
  computes.\<close>

definition scraped_fields :: "ContentRecord \<Rightarrow> bytes list" where
  "scraped_fields r = [utf8 (cr_source_url r), utf8 (cr_source_hash r), utf8 (cr_schema r), [], utf8 (cr_body r),
     utf8 (to_dec (unat (cr_created_at r)))]"

definition verified_fields :: "ContentRecord \<Rightarrow> bytes list" where
  "verified_fields r = [utf8 (cr_source_url r), utf8 (cr_source_hash r), utf8 (cr_schema r),
     utf8 (join (lit '','') (cr_tags r)), utf8 (cr_body r), utf8 (to_dec (unat (cr_created_at r)))]"

lemma ascii_allowed: "32 \<le> c \<Longrightarrow> c < 127 \<Longrightarrow> allowed_char c"
  by (simp add: allowed_char_def is_control_def is_format_char_def)

lemma hex_allowed: "list_all allowed_char (hex_encode bs)"
proof -
  have "allowed_char (hex_digit n)" if "n < 16" for n
    using that by (intro ascii_allowed) (auto simp: hex_digit_def)
  moreover have "unat (b :: u8) div 16 < 16" for b using unat_u8_less [of b] by simp
  ultimately show ?thesis by (induction bs) (auto simp: hex_encode_def hex_byte_def)
qed

lemma scraped_id_mismatch:
  assumes "r = url_record K lc name target lifecycle ttl now body \<or> r = feed_record K lc name ttl now entry"
    and "sanitize_record r = Ok rec"
    and "list_all short (scraped_fields r)" and "list_all short (verified_fields rec)"
  shows "canonical_encode_fields (scraped_fields r) \<noteq> canonical_encode_fields (verified_fields rec) \<and>
    (vr_valid (store_verify_record_id K rec) \<longleftrightarrow>
       blake3 K (canonical_encode_fields (scraped_fields r)) = blake3 K (canonical_encode_fields (verified_fields rec)))"
proof -
  have id: "cr_id r = hex_encode (blake3 K (canonical_encode_fields (scraped_fields r)))"
    using assms(1) by (auto simp: url_record_def feed_record_def scraped_fields_def compute_record_id_def Let_def)
  obtain t where t: "cr_tags r = [102 # t] \<or> cr_tags r = [115 # t]"
    using assms(1) by (auto simp: url_record_def feed_record_def Let_def lit_Cons)
  have ok: "allowed_char 102" "allowed_char 115" by (simp_all add: ascii_allowed)
  have rec: "rec = strip_record r" using assms(2) by (simp add: sanitize_record_Ok_iff)
  have "join (lit '','') (cr_tags rec) \<noteq> []"
    using t ok by (auto simp: rec strip_record_def)
  then have "utf8 (join (lit '','') (cr_tags rec)) \<noteq> []" by (metis length_utf8 length_0_conv str_len_eq_0)
  then have "scraped_fields r \<noteq> verified_fields rec"
    by (simp add: scraped_fields_def verified_fields_def)
  moreover have "cr_id rec = cr_id r"
    using hex_allowed by (simp add: rec strip_record_def id filter_id_conv list_all_iff)
  ultimately show ?thesis
    using canonical_encode_inj [OF assms(3,4)]
    by (auto simp: store_verify_record_id_def verify_record_id_def compute_record_id_def id verified_fields_def hex_encode_inject)
qed

text \<open>The identifier of a scraped record does not verify: the scrapers compute it with no tags and
  before sanitising, and verification computes it with the tags of the record. The two encodings
  differ for every page and feed entry, so that only a collision of the hash could make them agree.\<close>

theorem scraped_id_never_verifies:
  assumes "r = url_record K lc name target lifecycle ttl now body \<or> r = feed_record K lc name ttl now entry"
    and "sanitize_record r = Ok rec"
    and "list_all short (scraped_fields r)" and "list_all short (verified_fields rec)"
  shows "canonical_encode_fields (scraped_fields r) \<noteq> canonical_encode_fields (verified_fields rec) \<and>
    (vr_valid (store_verify_record_id K rec) \<longleftrightarrow>
       blake3 K (canonical_encode_fields (scraped_fields r)) = blake3 K (canonical_encode_fields (verified_fields rec)))"
  using assms by (rule scraped_id_mismatch)

section \<open>Items without an address\<close>

text \<open>A record of this source, at least as new as \<open>now\<close>, is stored.\<close>

definition recent :: "serde \<Rightarrow> ustr \<Rightarrow> u64 \<Rightarrow> contents \<Rightarrow> bool" where
  "recent J h now c \<longleftrightarrow> (\<exists>e x. c_tab c SOURCE_INDEX_TABLE h = Some e \<and> stored J c e = Some x \<and> now \<le> cr_created_at x)"

lemma recent_only_index: "only_index c c' \<Longrightarrow> recent J h now c \<Longrightarrow> recent J h now c'"
  by (simp add: recent_def only_index_def stored_def)

lemma insert_makes_recent:
  assumes L: "redb_laws R vd vt" and S: "serde_laws J"
    and ok: "store_insert_record K R J rec st = ((Ok res, rec'), st')"
  shows "recent J (cr_source_hash rec) (cr_created_at rec) (vd (st_db st')) \<and>
    (recent J (cr_source_hash rec) (cr_created_at rec) (vd (st_db st)) \<longrightarrow> res = SkippedOlder)"
proof -
  from ok have sg: "sign_if_unsigned K (st_signing_key st) rec = Ok rec'"
    by (auto simp: store_insert_record_def split: result.splits prod.splits if_splits)
  obtain x d1 where x: "insert_record R J (st_db st) rec' (Some (st_config st)) = (x, d1)" by force
  obtain y d2 where y: "index_record R d1 (cr_id rec') (cr_schema rec') (cr_tags rec') = (y, d2)" by force
  have ins: "insert_record R J (st_db st) rec' (Some (st_config st)) = (Ok res, d1)"
    using ok by (cases x; cases y; auto simp: store_insert_record_def sg x y split: if_splits)
  have st': "st_db st' = d1 \<or> st_db st' = d2"
    using ok by (cases x; cases y; auto simp: store_insert_record_def sg x y split: if_splits)
  note same = signed_same [OF sg]
  obtain json where json: "record_to_json J rec' = Ok json" "insert_effect J (vd (st_db st)) rec' json res (vd d1)"
    using insert_record_Ok [OF L ins] by blast
  have reread: "record_from_json J json = Ok rec'" using serde_roundtrip [OF S] json(1) by blast
  have "recent J (cr_source_hash rec') (cr_created_at rec') (vd d1)"
    using json(2) reread
    by (cases res) (auto simp: insert_effect_def dedup_of_def recent_def add_rec_def stored_Some_iff not_less)
  moreover have "only_index (vd d1) (vd d2)" using index_record_only [OF L, of d1] y by (metis snd_conv)
  ultimately have "recent J (cr_source_hash rec') (cr_created_at rec') (vd (st_db st'))"
    using st' recent_only_index by metis
  moreover have "recent J (cr_source_hash rec') (cr_created_at rec') (vd (st_db st)) \<Longrightarrow> res = SkippedOlder"
    using json(2) by (cases res) (auto simp: insert_effect_def dedup_of_def recent_def stored_Some_iff split: option.splits)
  ultimately show ?thesis using same by simp
qed

text \<open>The hash every item without an address is stored under.\<close>

definition unknown_hash :: "('sk, 'vk) crypto \<Rightarrow> (ustr \<Rightarrow> ustr) \<Rightarrow> ustr" where
  "unknown_hash K lc = filter allowed_char (compute_source_hash K lc (lit ''api://unknown''))"

lemma unknown_items:
  assumes L: "redb_laws R vd vt" and S: "serde_laws J"
    and "list_all (\<lambda>i. ai_source_url i = lit ''api://unknown'') is" and "\<forall>k. clock k = now"
    and "insert_items (store_insert_record K R J) (api_record K lc ttl) clock k is c st = (Ok c', st')"
    and "recent J (unknown_hash K lc) now (vd (st_db st))"
  shows "ct_inserted c' = ct_inserted c \<and> ct_replaced c' = ct_replaced c"
  using assms(3,5,6)
proof (induction "is" arbitrary: k c st)
  case (Cons i "is")
  from Cons.prems(2) obtain rec where san: "sanitize_record (api_record K lc ttl (clock k) i) = Ok rec"
    by (auto split: result.splits)
  then obtain res x st1 where ins: "store_insert_record K R J rec st = ((Ok res, x), st1)"
      and rest: "insert_items (store_insert_record K R J) (api_record K lc ttl) clock (Suc k) is (count res c) st1 = (Ok c', st')"
    using Cons.prems(2) by (auto split: result.splits prod.splits)
  have rec: "cr_source_hash rec = unknown_hash K lc" "cr_created_at rec = now"
    using san Cons.prems(1) assms(4)
    by (auto simp: sanitize_record_Ok_iff strip_record_def api_record_def unknown_hash_def Let_def)
  note made = insert_makes_recent [OF L S ins, unfolded rec]
  with Cons.IH [OF _ rest] Cons.prems made show ?case by simp
qed simp

text \<open>The items of a response that have no address share one source, so of any number of them that
  are read in the same second at most one is stored; the others are skipped as older copies of it.\<close>

theorem unknown_items_collapse:
  assumes "redb_laws R vd vt" and "serde_laws J" and "\<forall>k. clock k = now"
    and "rbind (fetch_api Q target) (parse_api_response L) = Ok records"
    and "\<forall>i \<in> set records. ai_source_url i = lit ''api://unknown''"
  shows "case run_api_job K lc Q L R J clock name target ttl st of
     (Ok r, st') \<Rightarrow> jt_total r = length records \<and> jt_inserted r + jt_replaced r \<le> 1 \<and>
       length records - 1 \<le> jt_skipped r
   | _ \<Rightarrow> True"
proof (cases records)
  case (Cons i items)
  obtain out st' where run: "insert_items (store_insert_record K R J) (api_record K lc ttl) clock 0 records no_counts st = (out, st')"
    by force
  show ?thesis
  proof (cases out)
    case (Ok c')
    obtain rec where san: "sanitize_record (api_record K lc ttl (clock 0) i) = Ok rec"
      using run Cons Ok by (auto split: result.splits)
    then obtain res x st1 where ins: "store_insert_record K R J rec st = ((Ok res, x), st1)"
        and rest: "insert_items (store_insert_record K R J) (api_record K lc ttl) clock (Suc 0) items (count res no_counts) st1 = (Ok c', st')"
      using run Cons Ok by (auto split: result.splits prod.splits)
    have rec: "cr_source_hash rec = unknown_hash K lc" "cr_created_at rec = now"
      using san assms(3,5) Cons
      by (auto simp: sanitize_record_Ok_iff strip_record_def api_record_def unknown_hash_def Let_def)
    have unknown: "list_all (\<lambda>i. ai_source_url i = lit ''api://unknown'') items"
      using assms(5) Cons by (simp add: list_all_iff)
    have "ct_inserted c' = ct_inserted (count res no_counts) \<and> ct_replaced c' = ct_replaced (count res no_counts)"
      using unknown_items [OF assms(1,2) unknown assms(3) rest] insert_makes_recent [OF assms(1,2) ins] rec by simp
    moreover have "ct_inserted c' + ct_replaced c' + ct_skipped c' = length records"
      using insert_items_counts [OF run [unfolded Ok]] by (simp add: no_counts_def)
    ultimately have "ct_inserted c' + ct_replaced c' \<le> 1" "length records - 1 \<le> ct_skipped c'"
      by (cases res; simp add: no_counts_def)+
    then show ?thesis by (simp add: run_api_job_def assms(4) totals_def run Ok)
  qed (simp_all add: run_api_job_def assms(4) totals_def run)
qed (simp add: run_api_job_def assms(4) totals_def no_counts_def)

definition two_unnamed :: json_lib where
  "two_unnamed = \<lparr>js_parse = (\<lambda>_. Ok (JArr [JObj [(lit ''body'', JStr (lit ''one''))], JObj [(lit ''body'', JStr (lit ''two''))]])),
     js_print = (\<lambda>_. Ok []), js_pretty = (\<lambda>_. Ok [])\<rparr>"

definition plain_reqwest :: "unit reqwest" where
  "plain_reqwest = \<lparr>rq_get = (\<lambda>_. Ok ()), rq_text = (\<lambda>_. Ok [])\<rparr>"

theorem unknown_items_collapse_witness:
  "case run_api_job sample_crypto id plain_reqwest two_unnamed mem_redb sample_serde (\<lambda>_. 5) (lit ''job'') (lit ''http://a'') 60
     (Store_new mem_empty plain_config) of
     (Ok r, st') \<Rightarrow> jt_total r = 2 \<and> jt_inserted r + jt_replaced r \<le> 1 \<and> 1 \<le> jt_skipped r
   | _ \<Rightarrow> True"
proof -
  let ?items = "map (api_item two_unnamed) [JObj [(lit ''body'', JStr (lit ''one''))], JObj [(lit ''body'', JStr (lit ''two''))]]"
  have "rbind (fetch_api plain_reqwest (lit ''http://a'')) (parse_api_response two_unnamed) = Ok ?items"
    by (simp add: fetch_api_def plain_reqwest_def parse_api_response_def two_unnamed_def)
  moreover have "\<forall>i \<in> set ?items. ai_source_url i = lit ''api://unknown''"
    by (simp add: api_item_def)
  ultimately show ?thesis
    using unknown_items_collapse [OF mem_redb_laws sample_serde_laws, of "\<lambda>_. 5" 5 plain_reqwest "lit ''http://a''" two_unnamed ?items
      sample_crypto id "lit ''job''" 60 "Store_new mem_empty plain_config"] by (auto split: prod.splits result.splits)
qed

definition page_record :: ContentRecord where
  "page_record = url_record sample_crypto id (lit ''job'') (lit ''http://a/'') (lit ''pinned'') 60 5 (lit ''page'')"

lemma page_record_parts:
  "\<exists>h i. cr_source_hash page_record = hex_encode h \<and> length h = 32 \<and> cr_id page_record = hex_encode i"
  by (rule exI [of _ "blake3 sample_crypto (utf8 (normalize_source_url id (lit ''http://a/'')))"],
      rule exI [of _ "blake3 sample_crypto (canonical_encode_fields (scraped_fields page_record))"])
    (auto simp: scraped_fields_def page_record_def url_record_def compute_source_hash_def compute_record_id_def Let_def
      sample_crypto_def sample_digest_def GENERIC_KV_def)

lemma page_record_simps:
  "cr_source_url page_record = lit ''http://a/''" "cr_schema page_record = lit ''generic/kv''"
  "cr_tags page_record = [lit ''scraper:job'']" "cr_body page_record = lit ''page''" "cr_created_at page_record = 5"
  by (simp_all add: page_record_def url_record_def Let_def GENERIC_KV_def lit_Cons)

lemma page_sanitized: "sanitize_record page_record = Ok page_record"
proof -
  obtain h i where page: "cr_source_hash page_record = hex_encode h" "cr_id page_record = hex_encode i"
    using page_record_parts by blast
  have ascii: "list_all allowed_char (lit ''http://a/'' @ lit ''generic/kv'' @ lit ''scraper:job'' @ lit ''page'')"
    by (simp add: lit_Cons ascii_allowed)
  have "clean_record page_record"
    using ascii hex_allowed by (auto simp: clean_record_def clean_def page page_record_simps tag_ok_def lit_Cons utf8_len_def)
  then show ?thesis by (simp add: sanitize_record_Ok_iff)
qed

lemma page_short: "list_all short (scraped_fields page_record)" "list_all short (verified_fields page_record)"
proof -
  obtain h where page: "cr_source_hash page_record = hex_encode h" "length h = 32"
    using page_record_parts by blast
  have "str_len (hex_encode h) = 64" using page(2) by (simp add: str_len_hex)
  moreover have "to_dec 5 = [53]" by (simp add: to_dec.simps)
  ultimately show "list_all short (scraped_fields page_record)" "list_all short (verified_fields page_record)"
    by (simp_all add: scraped_fields_def verified_fields_def short_def length_utf8 page page_record_simps lit_Cons utf8_len_def)
qed

theorem scraped_id_never_verifies_witness:
  "\<exists>rec. sanitize_record page_record = Ok rec \<and>
     (vr_valid (store_verify_record_id sample_crypto rec) \<longleftrightarrow>
       blake3 sample_crypto (canonical_encode_fields (scraped_fields page_record)) =
       blake3 sample_crypto (canonical_encode_fields (verified_fields rec)))"
  using scraped_id_never_verifies [OF disjI1 [OF page_record_def] page_sanitized page_short] page_sanitized by blast

end
