(* ===== verification/Providers.thy ===== *)
theory Providers
  imports Disk Text
begin

text \<open>
  \<^verbatim>\<open>src/src/scraper/discovery/providers.rs\<close>: the search providers of
  \<^verbatim>\<open>search_providers.toml\<close> and the addresses a keyword is searched at. The toml crate is a
  parameter.
\<close>

section \<open>Providers\<close>

record SearchProvider =
  sp_name :: ustr
  sp_enabled :: bool
  sp_endpoint :: ustr

record SearchProvidersToml =
  st_providers :: "SearchProvider list"

record providers_toml =
  pt_from_str :: "ustr \<Rightarrow> (SearchProvidersToml, ustr) result"
  pt_to_string_pretty :: "SearchProvidersToml \<Rightarrow> (ustr, ustr) result"

definition load_providers :: "providers_toml \<Rightarrow> text_file \<Rightarrow> SearchProvider list" where
  "load_providers T f =
     (if \<not> file_exists f then []
      else case read_to_string f of
        Ok contents \<Rightarrow> (case pt_from_str T contents of
            Ok config \<Rightarrow> filter sp_enabled (st_providers config) | _ \<Rightarrow> [])
      | _ \<Rightarrow> [])"

text \<open>63 is the question mark, 38 the ampersand and 43 the plus sign.\<close>

definition keyword_url :: "ustr \<Rightarrow> SearchProvider \<Rightarrow> ustr \<times> ustr" where
  "keyword_url keyword provider =
     (sp_name provider,
      sp_endpoint provider @ (if 63 \<in> set (sp_endpoint provider) then [38] else [63]) @ lit ''q='' @
        map (\<lambda>c. if c = 32 then 43 else c) keyword)"

definition resolve_keyword_to_urls :: "SearchProvider list \<Rightarrow> ustr \<Rightarrow> (ustr \<times> ustr) list" where
  "resolve_keyword_to_urls providers keyword = map (keyword_url keyword) (filter sp_enabled providers)"

definition save_providers :: "providers_toml \<Rightarrow> SearchProvidersToml \<Rightarrow> text_file \<Rightarrow> (unit, ustr) result \<times> text_file" where
  "save_providers T config f =
     (case map_err (\<lambda>e. lit ''serialize: '' @ e) (pt_to_string_pretty T config) of
        Ok toml_str \<Rightarrow> apfst (map_err (\<lambda>e. lit ''write: '' @ e)) (write_file toml_str f)
      | Err e \<Rightarrow> (Err e, f) | Panic \<Rightarrow> (Panic, f))"

text \<open>A file that does not parse counts as an empty one here.\<close>

definition add_provider :: "providers_toml \<Rightarrow> ustr \<Rightarrow> ustr \<Rightarrow> text_file \<Rightarrow> (unit, ustr) result \<times> text_file" where
  "add_provider T name endpoint f =
     (case (if file_exists f
            then rbind (map_err (\<lambda>e. lit ''read: '' @ e) (read_to_string f)) (\<lambda>contents.
              Ok (case pt_from_str T contents of Ok c \<Rightarrow> c | _ \<Rightarrow> \<lparr>st_providers = []\<rparr>))
            else Ok \<lparr>st_providers = []\<rparr>) of
        Err e \<Rightarrow> (Err e, f) | Panic \<Rightarrow> (Panic, f)
      | Ok config \<Rightarrow>
          if \<exists>p \<in> set (st_providers config). sp_name p = name
          then (Err (lit ''provider '' @ [39] @ name @ [39] @ lit '' already exists''), f)
          else save_providers T (config\<lparr>st_providers := st_providers config @
            [\<lparr>sp_name = name, sp_enabled = True, sp_endpoint = endpoint\<rparr>]\<rparr>) f)"

definition remove_provider :: "providers_toml \<Rightarrow> ustr \<Rightarrow> text_file \<Rightarrow> (bool, ustr) result \<times> text_file" where
  "remove_provider T name f =
     (if \<not> file_exists f then (Ok False, f)
      else case rbind (map_err (\<lambda>e. lit ''read: '' @ e) (read_to_string f)) (\<lambda>contents.
          map_err (\<lambda>e. lit ''parse: '' @ e) (pt_from_str T contents)) of
        Err e \<Rightarrow> (Err e, f) | Panic \<Rightarrow> (Panic, f)
      | Ok config \<Rightarrow>
          let kept = filter (\<lambda>p. sp_name p \<noteq> name) (st_providers config)
          in if length kept = length (st_providers config) then (Ok False, f)
             else case save_providers T (config\<lparr>st_providers := kept\<rparr>) f of
               (Ok _, f) \<Rightarrow> (Ok True, f) | (Err e, f) \<Rightarrow> (Err e, f) | (Panic, f) \<Rightarrow> (Panic, f))"

end
