(* ===== verification/Scheduler.thy ===== *)
theory Scheduler
  imports Job Providers Config
begin

text \<open>
  \<^verbatim>\<open>src/src/scraper/scheduler.rs\<close>: the loop that reloads the configuration every minute and runs
  the scraper jobs that are due. Its state is the list of job states and the store. What a job
  gets from outside, the network, the clock and the files, is the record \<open>job_env\<close>; each job of each
  tick has its own, and a keyword job a network and a time for each address.
\<close>

section \<open>Job states\<close>

record JobState =
  js_name :: ustr
  js_source :: ustr
  js_target :: ustr
  js_refresh :: ustr
  js_interval_secs :: u64
  js_lifecycle :: ustr
  js_ttl_secs :: u64
  js_last_run :: u64
  js_run_count :: u64
  js_completed :: bool

definition job_state_of :: "ScrapeJob \<Rightarrow> JobState" where
  "job_state_of j =
     \<lparr>js_name = sj_name j, js_source = ScrapeSource_as_str (sj_source j), js_target = sj_target j,
      js_refresh = RefreshPolicy_as_str (sj_refresh j), js_interval_secs = sj_interval_secs j,
      js_lifecycle = Lifecycle_as_str (sj_lifecycle j), js_ttl_secs = sj_ttl_secs j,
      js_last_run = 0, js_run_count = 0, js_completed = False\<rparr>"

definition initial_states :: "DsearchConfig \<Rightarrow> JobState list" where
  "initial_states config = map job_state_of (xc_jobs (cf_scraper config))"

text \<open>New jobs are added, jobs that are gone removed, and the parameters of the others updated, all
  but the source.\<close>

definition add_job :: "JobState list \<Rightarrow> ScrapeJob \<Rightarrow> JobState list" where
  "add_job states job = (if list_ex (\<lambda>s. js_name s = sj_name job) states then states else states @ [job_state_of job])"

definition update_state :: "ScrapeJob list \<Rightarrow> JobState \<Rightarrow> JobState" where
  "update_state jobs state = (case List.find (\<lambda>j. sj_name j = js_name state) jobs of
     None \<Rightarrow> state
   | Some job \<Rightarrow> state\<lparr>js_target := sj_target job, js_interval_secs := sj_interval_secs job,
       js_ttl_secs := sj_ttl_secs job, js_refresh := RefreshPolicy_as_str (sj_refresh job),
       js_lifecycle := Lifecycle_as_str (sj_lifecycle job)\<rparr>)"

definition sync_job_states :: "JobState list \<Rightarrow> ScrapeJob list \<Rightarrow> JobState list" where
  "sync_job_states states jobs =
     (let states = foldl add_job states jobs;
          job_names = map sj_name jobs;
          states = filter (\<lambda>s. js_name s \<in> set job_names) states
      in map (update_state jobs) states)"

text \<open>The sum of the times wraps in a release build.\<close>

definition should_run :: "u64 \<Rightarrow> JobState \<Rightarrow> bool" where
  "should_run now job =
     (if js_refresh job = lit ''once'' then js_run_count job = 0
      else if js_refresh job = lit ''interval'' \<or> js_refresh job = lit ''on-change''
      then js_last_run job + js_interval_secs job \<le> now
      else False)"

section \<open>Running a job\<close>

record ('c, 'resp) job_env =
  ev_net :: "nat \<Rightarrow> 'c net"
  ev_reqwest :: "'resp reqwest"
  ev_json :: json_lib
  ev_providers_toml :: providers_toml
  ev_providers :: "ustr \<Rightarrow> text_file"
  ev_clock :: "nat \<Rightarrow> u64"
  ev_lowercase :: "ustr \<Rightarrow> ustr"

fun scrape_urls :: "('sk, 'vk) crypto \<Rightarrow> ('c, 'resp) job_env \<Rightarrow> ('d, 't) redb \<Rightarrow> serde \<Rightarrow> JobState \<Rightarrow> nat \<Rightarrow> nat
    \<Rightarrow> (ustr \<times> ustr) list \<Rightarrow> ('d, 'sk) Store \<Rightarrow> (nat, ustr) result \<times> ('d, 'sk) Store" where
  "scrape_urls K E R J job k total_inserted [] st = (Ok total_inserted, st)"
| "scrape_urls K E R J job k total_inserted ((provider_name, url) # urls) st =
     (case run_url_job K (ev_lowercase E) (ev_net E k) R J (ev_clock E k) provider_name url (js_lifecycle job) (js_ttl_secs job) st of
        (Ok r, st) \<Rightarrow> scrape_urls K E R J job (Suc k) (total_inserted + (if sr_inserted r then 1 else 0)) urls st
      | (Err e, st) \<Rightarrow> scrape_urls K E R J job (Suc k) total_inserted urls st
      | (Panic, st) \<Rightarrow> (Panic, st))"

definition totals_text :: "string \<Rightarrow> job_totals \<Rightarrow> ustr" where
  "totals_text what r = jt_job_name r @ lit '': '' @ to_dec (jt_total r) @ lit what @ to_dec (jt_inserted r) @
     lit '' inserted, '' @ to_dec (jt_replaced r) @ lit '' replaced, '' @ to_dec (jt_skipped r) @ lit '' skipped''"

definition run_job :: "('sk, 'vk) crypto \<Rightarrow> ('c, 'resp) job_env \<Rightarrow> ('d, 't) redb \<Rightarrow> serde \<Rightarrow> JobState \<Rightarrow> ('d, 'sk) Store
    \<Rightarrow> (ustr, ustr) result \<times> ('d, 'sk) Store" where
  "run_job K E R J job st =
     (if js_source job = lit ''url'' then
        apfst (\<lambda>r. rbind r (\<lambda>result. Ok (sr_record_id result)))
          (run_url_job K (ev_lowercase E) (ev_net E 0) R J (ev_clock E 0) (js_name job) (js_target job)
            (js_lifecycle job) (js_ttl_secs job) st)
      else if js_source job = lit ''feed'' then
        apfst (\<lambda>r. rbind r (\<lambda>result. Ok (totals_text '' entries, '' result)))
          (run_feed_job K (ev_lowercase E) (ev_reqwest E) R J (ev_clock E) (js_name job) (js_target job) (js_ttl_secs job) st)
      else if js_source job = lit ''api'' then
        apfst (\<lambda>r. rbind r (\<lambda>result. Ok (totals_text '' items, '' result)))
          (run_api_job K (ev_lowercase E) (ev_reqwest E) (ev_json E) R J (ev_clock E) (js_name job) (js_target job) (js_ttl_secs job) st)
      else if js_source job = lit ''keyword'' then
        let providers = load_providers (ev_providers_toml E) (ev_providers E (js_target job));
            urls = resolve_keyword_to_urls providers (js_name job)
        in if urls = [] then (Err (lit ''No search providers found for keyword '' @ [39] @ js_name job @ [39]), st)
           else apfst (\<lambda>r. rbind r (\<lambda>total_inserted. Ok (lit ''keyword '' @ [39] @ js_name job @ [39] @ lit '': '' @
               to_dec (length urls) @ lit '' URLs scraped, '' @ to_dec total_inserted @ lit '' inserted'')))
             (scrape_urls K E R J job 0 0 urls st)
      else (Err (lit ''Unknown source type: '' @ js_source job), st))"

section \<open>The loop\<close>

text \<open>The body of the loop over the jobs; a panic in a job ends the scheduler's task.\<close>

definition visit_job :: "('sk, 'vk) crypto \<Rightarrow> ('c, 'resp) job_env \<Rightarrow> ('d, 't) redb \<Rightarrow> serde \<Rightarrow> u64 \<Rightarrow> JobState \<Rightarrow> ('d, 'sk) Store
    \<Rightarrow> (JobState, ustr) result \<times> ('d, 'sk) Store" where
  "visit_job K E R J now job st =
     (if js_completed job then (Ok job, st)
      else if \<not> should_run now job then (Ok job, st)
      else case run_job K E R J job st of
        (Ok record_id, st) \<Rightarrow>
          (Ok (job\<lparr>js_run_count := js_run_count job + 1, js_last_run := now,
             js_completed := (if js_refresh job = lit ''once'' then True else js_completed job)\<rparr>), st)
      | (Err e, st) \<Rightarrow> (Ok (job\<lparr>js_last_run := now\<rparr>), st)
      | (Panic, st) \<Rightarrow> (Panic, st))"

fun visit_jobs :: "('sk, 'vk) crypto \<Rightarrow> (nat \<Rightarrow> ('c, 'resp) job_env) \<Rightarrow> ('d, 't) redb \<Rightarrow> serde \<Rightarrow> u64 \<Rightarrow> nat \<Rightarrow> JobState list
    \<Rightarrow> ('d, 'sk) Store \<Rightarrow> (JobState list, ustr) result \<times> ('d, 'sk) Store" where
  "visit_jobs K E R J now k [] st = (Ok [], st)"
| "visit_jobs K E R J now k (job # jobs) st =
     (case visit_job K (E k) R J now job st of
        (Ok job, st) \<Rightarrow> apfst (\<lambda>r. rbind r (\<lambda>jobs. Ok (job # jobs))) (visit_jobs K E R J now (Suc k) jobs st)
      | (Err e, st) \<Rightarrow> (Err e, st)
      | (Panic, st) \<Rightarrow> (Panic, st))"

text \<open>One round after the minute's sleep. \<open>config\<close> is what loading the configuration gives.\<close>

definition scheduler_tick :: "('sk, 'vk) crypto \<Rightarrow> (nat \<Rightarrow> ('c, 'resp) job_env) \<Rightarrow> ('d, 't) redb \<Rightarrow> serde
    \<Rightarrow> (DsearchConfig, ustr) result \<Rightarrow> u64 \<Rightarrow> JobState list \<Rightarrow> ('d, 'sk) Store
    \<Rightarrow> (JobState list, ustr) result \<times> ('d, 'sk) Store" where
  "scheduler_tick K E R J config now job_states st =
     (case config of
        Ok new_config \<Rightarrow> visit_jobs K E R J now 0 (sync_job_states job_states (xc_jobs (cf_scraper new_config))) st
      | Err _ \<Rightarrow> visit_jobs K E R J now 0 job_states st
      | Panic \<Rightarrow> (Panic, st))"

text \<open>The scheduler between two ticks, with what each tick finds.\<close>

inductive sched_step :: "('sk, 'vk) crypto \<Rightarrow> ('d, 't) redb \<Rightarrow> serde
    \<Rightarrow> ((nat \<Rightarrow> ('c, 'resp) job_env) \<Rightarrow> (DsearchConfig, ustr) result \<Rightarrow> u64 \<Rightarrow> bool)
    \<Rightarrow> JobState list \<times> ('d, 'sk) Store \<Rightarrow> JobState list \<times> ('d, 'sk) Store \<Rightarrow> bool"
  for K :: "('sk, 'vk) crypto" and R :: "('d, 't) redb" and J P where
  tick: "scheduler_tick K E R J config now js st = (Ok js', st') \<Longrightarrow> P E config now \<Longrightarrow>
     sched_step K R J P (js, st) (js', st')"

section \<open>The job states by name\<close>

definition job_view :: "JobState list \<Rightarrow> ustr \<Rightarrow> JobState option" where
  "job_view js n = List.find (\<lambda>s. js_name s = n) js"

text \<open>The parameters a reload brings: all but the source.\<close>

definition with_params :: "ScrapeJob \<Rightarrow> JobState \<Rightarrow> JobState" where
  "with_params job state = state\<lparr>js_target := sj_target job, js_interval_secs := sj_interval_secs job,
     js_ttl_secs := sj_ttl_secs job, js_refresh := RefreshPolicy_as_str (sj_refresh job),
     js_lifecycle := Lifecycle_as_str (sj_lifecycle job)\<rparr>"

lemma js_name_simps [simp]: "js_name (job_state_of j) = sj_name j" "js_name (with_params j s) = js_name s"
  "js_name (update_state jobs s) = js_name s"
  by (simp_all add: job_state_of_def with_params_def update_state_def split: option.split)

lemma with_params_new [simp]: "with_params j (job_state_of j) = job_state_of j"
  by (simp add: with_params_def job_state_of_def)

lemma find_append: "List.find P (xs @ ys) = (case List.find P xs of Some x \<Rightarrow> Some x | None \<Rightarrow> List.find P ys)"
  by (induction xs) simp_all

lemma list_ex_find: "list_ex P xs \<longleftrightarrow> List.find P xs \<noteq> None"
  by (induction xs) simp_all

lemma job_view_name: "job_view js n = Some s \<Longrightarrow> js_name s = n"
  by (auto simp: job_view_def find_Some_iff)

lemma job_view_add: "job_view (add_job js j) n =
    (case job_view js n of Some s \<Rightarrow> Some s | None \<Rightarrow> if sj_name j = n then Some (job_state_of j) else None)"
  by (auto simp: add_job_def job_view_def list_ex_find find_append split: option.split)

lemma job_view_adds: "job_view (foldl add_job js jobs) n =
    (case job_view js n of Some s \<Rightarrow> Some s | None \<Rightarrow> map_option job_state_of (List.find (\<lambda>j. sj_name j = n) jobs))"
  by (induction jobs arbitrary: js) (auto simp: job_view_add split: option.split)

lemma find_filter_name: "List.find (\<lambda>s. js_name s = n) (filter (\<lambda>s. js_name s \<in> N) js) =
    (if n \<in> N then List.find (\<lambda>s. js_name s = n) js else None)"
  by (induction js) auto

lemma find_map_name: "(\<And>s. js_name (f s) = js_name s) \<Longrightarrow>
    List.find (\<lambda>s. js_name s = n) (map f js) = map_option f (List.find (\<lambda>s. js_name s = n) js)"
  by (induction js) auto

lemma sync_view:
  "job_view (sync_job_states js jobs) n = (case List.find (\<lambda>j. sj_name j = n) jobs of
     None \<Rightarrow> None
   | Some j \<Rightarrow> Some (case job_view js n of Some s \<Rightarrow> with_params j s | None \<Rightarrow> job_state_of j))"
proof (cases "List.find (\<lambda>j. sj_name j = n) jobs")
  case None
  then have "n \<notin> sj_name ` set jobs" by (auto simp: find_None_iff)
  with None show ?thesis
    by (simp add: sync_job_states_def Let_def job_view_def find_map_name find_filter_name)
next
  case (Some j)
  then have n: "n \<in> sj_name ` set jobs" by (auto simp: find_Some_iff)
  have "job_view (sync_job_states js jobs) n = map_option (update_state jobs) (job_view (foldl add_job js jobs) n)"
    using n by (simp add: sync_job_states_def Let_def job_view_def find_map_name find_filter_name)
  also have "\<dots> = map_option (with_params j) (job_view (foldl add_job js jobs) n)"
  proof (cases "job_view (foldl add_job js jobs) n")
    case (Some s)
    with job_view_name [OF Some] \<open>List.find _ jobs = Some j\<close> show ?thesis
      by (simp add: update_state_def with_params_def)
  qed simp
  finally show ?thesis using Some by (simp add: job_view_adds split: option.split)
qed

text \<open>Whatever the states and the configuration, duplicated names included, a reload leaves, under
  each name, nothing when no job has it, the old state with the parameters of the first job of that name
  when there is one, and otherwise that job's initial state.\<close>

theorem sync_job_states_refines:
  "job_view (sync_job_states js jobs) n = (case List.find (\<lambda>j. sj_name j = n) jobs of
     None \<Rightarrow> None
   | Some j \<Rightarrow> Some (case job_view js n of Some s \<Rightarrow> with_params j s | None \<Rightarrow> job_state_of j))"
  by (rule sync_view)

section \<open>What a tick does to a job\<close>

definition visited :: "u64 \<Rightarrow> JobState \<Rightarrow> JobState \<Rightarrow> bool" where
  "visited now s s' \<longleftrightarrow> (if \<not> js_completed s \<and> should_run now s
     then s' = s\<lparr>js_last_run := now\<rparr> \<or>
       s' = s\<lparr>js_run_count := js_run_count s + 1, js_last_run := now, js_completed := (js_refresh s = lit ''once'')\<rparr>
     else s' = s)"

lemma visit_job_visited: "visit_job K E R J now s st = (Ok s', st') \<Longrightarrow> visited now s s'"
  by (auto simp: visit_job_def visited_def split: if_splits result.splits prod.splits)

lemma visit_jobs_visited: "visit_jobs K E R J now k js st = (Ok js', st') \<Longrightarrow> list_all2 (visited now) js js'"
proof (induction js arbitrary: k js' st)
  case (Cons s js)
  obtain r st1 where v: "visit_job K (E k) R J now s st = (r, st1)" by force
  obtain q st2 where q: "visit_jobs K E R J now (Suc k) js st1 = (q, st2)" by force
  from Cons.prems v q obtain s' js1 where "r = Ok s'" "q = Ok js1" "js' = s' # js1"
    by (cases r; cases q) (auto simp: res_simps)
  with Cons.IH [of "Suc k" st1 js1] Cons.prems v q show ?case
    by (auto dest: visit_job_visited)
qed simp

lemma visited_name: "visited now s s' \<Longrightarrow> js_name s' = js_name s"
  by (auto simp: visited_def split: if_splits)

lemma visited_names: "list_all2 (visited now) js js' \<Longrightarrow> map js_name js' = map js_name js"
  by (induction rule: list_all2_induct) (auto simp: visited_name)

lemma visited_view: "list_all2 (visited now) js js' \<Longrightarrow> rel_option (visited now) (job_view js n) (job_view js' n)"
  by (induction rule: list_all2_induct) (auto simp: visited_name job_view_def)

definition reloaded :: "(DsearchConfig, ustr) result \<Rightarrow> JobState list \<Rightarrow> JobState list" where
  "reloaded config js = (case config of Ok c \<Rightarrow> sync_job_states js (xc_jobs (cf_scraper c)) | _ \<Rightarrow> js)"

lemma tick_visited:
  "scheduler_tick K E R J config now js st = (Ok js', st') \<Longrightarrow> list_all2 (visited now) (reloaded config js) js'"
  by (auto simp: scheduler_tick_def reloaded_def dest: visit_jobs_visited split: result.splits)

text \<open>The job a configuration has under a name.\<close>

definition job_named :: "ustr \<Rightarrow> DsearchConfig \<Rightarrow> ScrapeJob option" where
  "job_named n c = List.find (\<lambda>j. sj_name j = n) (xc_jobs (cf_scraper c))"

lemma reloaded_view:
  assumes "job_view js n = Some s" and "\<And>c. config = Ok c \<Longrightarrow> job_named n c \<noteq> None"
  shows "job_view (reloaded config js) n = Some s \<or> (\<exists>c j. config = Ok c \<and> job_named n c = Some j \<and>
    job_view (reloaded config js) n = Some (with_params j s))"
proof (cases config)
  case (Ok c)
  with assms(2) obtain j where "job_named n c = Some j" by fastforce
  then show ?thesis
    using assms(1) Ok sync_view [of js "xc_jobs (cf_scraper c)" n] by (simp add: reloaded_def job_named_def)
qed (simp_all add: reloaded_def assms(1))

section \<open>Completed jobs\<close>

lemma sched_steps_view:
  assumes step: "\<And>js st js' st' s. sched_step K R J P (js, st) (js', st') \<Longrightarrow> job_view js n = Some s \<Longrightarrow> I s \<Longrightarrow>
      \<exists>s'. job_view js' n = Some s' \<and> I s'"
  shows "(sched_step K R J P)\<^sup>*\<^sup>* a b \<Longrightarrow> job_view (fst a) n = Some s \<Longrightarrow> I s \<Longrightarrow>
    \<exists>s'. job_view (fst b) n = Some s' \<and> I s'"
proof (induction rule: rtranclp_induct)
  case (step b c)
  then show ?case using assms by (metis prod.collapse)
qed blast

lemma sched_step_view:
  assumes "sched_step K R J P (js, st) (js', st')" and "job_view js n = Some s"
    and "\<And>E c now. P E (Ok c) now \<Longrightarrow> job_named n c \<noteq> None"
  shows "\<exists>E config now t s'. P E config now \<and> job_view js' n = Some s' \<and> visited now t s' \<and>
    (t = s \<or> (\<exists>c j. config = Ok c \<and> job_named n c = Some j \<and> t = with_params j s))"
  using assms(1)
proof cases
  case (tick E config now)
  from tick_visited [OF tick(1)] have "rel_option (visited now) (job_view (reloaded config js) n) (job_view js' n)"
    by (rule visited_view)
  moreover have "job_view (reloaded config js) n = Some s \<or> (\<exists>c j. config = Ok c \<and> job_named n c = Some j \<and>
      job_view (reloaded config js) n = Some (with_params j s))"
    using assms(3) tick(2) by (intro reloaded_view [OF assms(2)]) blast
  ultimately show ?thesis using tick(2) by (auto simp: option_rel_Some1) blast+
qed

text \<open>A job that has completed never runs again, in any sequence of ticks in which the configuration keeps a job of its
  name: its count and the time of its last run stay as they are, even when the job is given an interval.\<close>

theorem completed_never_runs:
  assumes "(sched_step K R J P)\<^sup>*\<^sup>* (js, st) (js', st')" and "job_view js n = Some s" and "js_completed s"
    and "\<forall>E c now. P E (Ok c) now \<longrightarrow> job_named n c \<noteq> None"
  shows "\<exists>s'. job_view js' n = Some s' \<and> js_completed s' \<and> js_run_count s' = js_run_count s \<and> js_last_run s' = js_last_run s"
proof -
  let ?I = "\<lambda>s'. js_completed s' \<and> js_run_count s' = js_run_count s \<and> js_last_run s' = js_last_run s"
  have "\<exists>s'. job_view c n = Some s' \<and> ?I s'"
    if "sched_step K R J P (b, st) (c, st')" "job_view b n = Some t" "?I t" for b c t st st'
    using sched_step_view [OF that(1,2)] assms(4) that(3) by (auto simp: visited_def with_params_def)
  from sched_steps_view [of K R J P n ?I, OF this assms(1)] assms(2,3) show ?thesis by simp
qed

section \<open>How often a job runs\<close>

text \<open>Ticks together with the times of those at which the job of a name is run, whether the run then succeeds or not. A tick
  runs a job when what the visit leaves depends on what is outside: for some network and store it leaves something
  else than it found.\<close>

inductive sched_runs :: "('sk, 'vk) crypto \<Rightarrow> ('d, 't) redb \<Rightarrow> serde
    \<Rightarrow> ((nat \<Rightarrow> ('c, 'resp) job_env) \<Rightarrow> (DsearchConfig, ustr) result \<Rightarrow> u64 \<Rightarrow> bool) \<Rightarrow> ustr
    \<Rightarrow> JobState list \<times> ('d, 'sk) Store \<Rightarrow> u64 list \<Rightarrow> JobState list \<times> ('d, 'sk) Store \<Rightarrow> bool"
  for K :: "('sk, 'vk) crypto" and R :: "('d, 't) redb" and J and P :: "(nat \<Rightarrow> ('c, 'resp) job_env) \<Rightarrow> (DsearchConfig, ustr) result \<Rightarrow> u64 \<Rightarrow> bool"
    and n and a where
  start: "sched_runs K R J P n a [] a"
| idle: "sched_runs K R J P n a ts (js, st) \<Longrightarrow> scheduler_tick K E R J config now js st = (Ok js', st') \<Longrightarrow> P E config now \<Longrightarrow>
     (\<And>s (E' :: ('c, 'resp) job_env) st1. job_view (reloaded config js) n = Some s \<Longrightarrow> visit_job K E' R J now s st1 = (Ok s, st1)) \<Longrightarrow>
     sched_runs K R J P n a ts (js', st')"
| run: "sched_runs K R J P n a ts (js, st) \<Longrightarrow> scheduler_tick K E R J config now js st = (Ok js', st') \<Longrightarrow> P E config now \<Longrightarrow>
     job_view (reloaded config js) n = Some s \<Longrightarrow> visit_job K (E' :: ('c, 'resp) job_env) R J now s st1 \<noteq> (Ok s, st1) \<Longrightarrow>
     sched_runs K R J P n a (ts @ [now]) (js', st')"

text \<open>Every sequence of ticks has its times.\<close>

lemma sched_runs_exist:
  "(sched_step K R J P)\<^sup>*\<^sup>* a b \<Longrightarrow> \<exists>ts. sched_runs K R J P n a ts b"
proof (induction rule: rtranclp_induct)
  case (step b c)
  then obtain ts where ts: "sched_runs K R J P n a ts b" by blast
  from step.hyps(2) show ?case
  proof cases
    case (tick E config now js st js' st')
    show ?thesis
    proof (cases "\<exists>s (E' :: ('e, 'f) job_env) st1. job_view (reloaded config js) n = Some s \<and> visit_job K E' R J now s st1 \<noteq> (Ok s, st1)")
      case True
      then show ?thesis using sched_runs.run ts tick by metis
    next
      case False
      then show ?thesis using sched_runs.idle ts tick by metis
    qed
  qed
qed (blast intro: sched_runs.start)

lemma runs_due: "visit_job K E R J now s st \<noteq> (Ok s, st) \<Longrightarrow> \<not> js_completed s \<and> should_run now s"
  by (simp add: visit_job_def split: if_splits)

lemma due_visit_time:
  assumes "visit_job K E R J now s st = (Ok s, st)" and "\<not> js_completed s" and "should_run now s"
  shows "js_last_run s = now"
proof -
  obtain r st1 where r: "run_job K E R J s st = (r, st1)" by force
  with assms have "s\<lparr>js_last_run := now\<rparr> = s \<or>
      s\<lparr>js_run_count := js_run_count s + 1, js_last_run := now, js_completed := (if js_refresh s = lit ''once'' then True else js_completed s)\<rparr> = s"
    by (cases r) (auto simp: visit_job_def)
  then have "js_last_run (s\<lparr>js_last_run := now\<rparr>) = js_last_run s \<or>
      js_last_run (s\<lparr>js_run_count := js_run_count s + 1, js_last_run := now, js_completed := (if js_refresh s = lit ''once'' then True else js_completed s)\<rparr>) = js_last_run s"
    by (metis (no_types))
  then show ?thesis by auto
qed

lemma below_last:
  "sorted_wrt (\<lambda>t u. unat t + i \<le> unat u) xs \<Longrightarrow> x \<in> set xs \<Longrightarrow> unat x \<le> unat (last xs)"
  by (induction xs) (auto dest!: bspec [OF _ last_in_set])

text \<open>What a job with an interval is after a reload.\<close>

definition every :: "u64 \<Rightarrow> JobState \<Rightarrow> bool" where
  "every i s \<longleftrightarrow> js_refresh s = lit ''interval'' \<and> js_interval_secs s = i \<and> unat (js_last_run s) + unat i < 2 ^ 64"

lemma every_due:
  assumes "every i s" and "should_run now s"
  shows "unat (js_last_run s) + unat i \<le> unat now"
proof -
  have "unat (js_last_run s + i) = unat (js_last_run s) + unat i" using assms(1) by (simp add: every_def flip: unat_add_lem)
  moreover have "js_last_run s + i \<le> now" using assms by (auto simp: every_def should_run_def)
  ultimately show ?thesis by (simp add: word_le_nat_alt)
qed

lemma every_reloaded:
  assumes "job_view js n = Some s" and "every i s"
    and "\<forall>c. config = Ok c \<longrightarrow> (\<exists>j. job_named n c = Some j \<and> sj_refresh j = Interval \<and> sj_interval_secs j = i)"
  shows "\<exists>t. job_view (reloaded config js) n = Some t \<and> every i t \<and> js_last_run t = js_last_run s"
proof -
  have "job_view (reloaded config js) n = Some s \<or> (\<exists>c j. config = Ok c \<and> job_named n c = Some j \<and>
      job_view (reloaded config js) n = Some (with_params j s))"
    using assms(3) by (intro reloaded_view [OF assms(1)]) auto
  with assms(2,3) show ?thesis by (auto simp: every_def with_params_def)
qed

lemma tick_view:
  assumes "scheduler_tick K E R J config now js st = (Ok js', st')" and "job_view (reloaded config js) n = Some t"
  shows "\<exists>s'. job_view js' n = Some s' \<and> visited now t s'"
  using visited_view [OF tick_visited [OF assms(1)], of n] assms(2) by (auto simp: option_rel_Some1)

text \<open>C28: While a job keeps an interval of \<open>i\<close> seconds, and the clock does not come within \<open>i\<close> seconds of 2^64, the scheduler
  runs it at most once every \<open>i\<close> seconds, failed runs included: in any sequence of ticks, the times at which it is run lie at least
  \<open>i\<close> apart, and at least \<open>i\<close> after the last run before them; and the time of the last run it keeps is the time of
  the last of them.\<close>

theorem interval_job_rate:
  assumes "sched_runs K R J P n (js, st) ts (js', st')" and "job_view js n = Some s"
    and "js_refresh s = lit ''interval''" and "js_interval_secs s = i" and "unat (js_last_run s) + unat i < 2 ^ 64"
    and "\<forall>E config now. P E config now \<longrightarrow> unat now + unat i < 2 ^ 64 \<and>
      (\<forall>c. config = Ok c \<longrightarrow> (\<exists>j. job_named n c = Some j \<and> sj_refresh j = Interval \<and> sj_interval_secs j = i))"
  shows "sorted_wrt (\<lambda>t u. unat t + unat i \<le> unat u) ts \<and> (\<forall>t \<in> set ts. unat (js_last_run s) + unat i \<le> unat t) \<and>
    (\<exists>s'. job_view js' n = Some s' \<and> js_last_run s' = last (js_last_run s # ts))"
proof -
  let ?I = "\<lambda>ts b. sorted_wrt (\<lambda>t u. unat t + unat i \<le> unat u) (js_last_run s # ts) \<and>
    (\<exists>s'. job_view (fst b) n = Some s' \<and> every i s' \<and> js_last_run s' = last (js_last_run s # ts))"
  have "?I ts b" if "sched_runs K R J P n a ts b" "a = (js, st)" for a ts b
    using that
  proof induction
    case start
    then show ?case using assms(2-5) by (simp add: every_def)
  next
    case (idle ts js1 st1 E config now js2 st2)
    then obtain s1 where s1: "job_view js1 n = Some s1" "every i s1" "js_last_run s1 = last (js_last_run s # ts)" by auto
    obtain t where t: "job_view (reloaded config js1) n = Some t" "every i t" "js_last_run t = js_last_run s1"
      using every_reloaded [OF s1(1,2), of config] assms(6) idle.hyps(3) by blast
    obtain s2 where s2: "job_view js2 n = Some s2" "visited now t s2" using tick_view [OF idle.hyps(2) t(1)] by blast
    have "js_last_run s2 = js_last_run t \<and> every i s2"
    proof (cases "\<not> js_completed t \<and> should_run now t")
      case True
      have "js_last_run t = now" using due_visit_time [OF idle.hyps(4) [OF t(1)]] True by blast
      then show ?thesis using s2(2) t(2) True by (auto simp: visited_def every_def split: if_splits)
    next
      case False
      with s2(2) t(2) show ?thesis by (simp add: visited_def)
    qed
    with idle.IH idle.prems s1 s2 t show ?case by auto
  next
    case (run ts js1 st1 E config now js2 st2 t E' st0)
    then obtain s1 where s1: "job_view js1 n = Some s1" "every i s1" "js_last_run s1 = last (js_last_run s # ts)"
        "sorted_wrt (\<lambda>t u. unat t + unat i \<le> unat u) (js_last_run s # ts)" by auto
    have t: "every i t" "js_last_run t = js_last_run s1"
      using every_reloaded [OF s1(1,2), of config] assms(6) run.hyps(3,4) by auto
    have due: "\<not> js_completed t" "should_run now t" using runs_due [OF run.hyps(5)] by simp_all
    note gap = every_due [OF t(1) due(2)]
    obtain s2 where s2: "job_view js2 n = Some s2" "visited now t s2" using tick_view [OF run.hyps(2,4)] by blast
    have "every i s2 \<and> js_last_run s2 = now"
      using s2(2) due t(1) assms(6) run.hyps(3) by (auto simp: visited_def every_def)
    moreover have "\<forall>u \<in> set (js_last_run s # ts). unat u + unat i \<le> unat now"
    proof
      fix u assume u: "u \<in> set (js_last_run s # ts)"
      have "unat u \<le> unat (last (js_last_run s # ts))"
        using s1(4) u by (rule below_last)
      with gap t(2) s1(3) show "unat u + unat i \<le> unat now" by simp
    qed
    ultimately show ?case using s1(4) s2(1) by (auto simp: sorted_wrt_append)
  qed
  from this [OF assms(1) refl] show ?thesis by auto
qed

section \<open>Reachable states\<close>

lemma distinct_filter_map: "distinct (map f xs) \<Longrightarrow> distinct (map f (filter P xs))"
  by (induction xs) auto

lemma add_job_distinct: "distinct (map js_name js) \<Longrightarrow> distinct (map js_name (add_job js j))"
  by (auto simp: add_job_def list_ex_iff)

lemma sync_distinct: "distinct (map js_name js) \<Longrightarrow> distinct (map js_name (sync_job_states js jobs))"
proof -
  have adds: "distinct (map js_name (foldl add_job js jobs))" if "distinct (map js_name js)" for js
    using that by (induction jobs arbitrary: js) (simp_all add: add_job_distinct)
  assume "distinct (map js_name js)"
  from distinct_filter_map [OF adds [OF this]] show ?thesis
    by (simp add: sync_job_states_def Let_def comp_def)
qed

lemma scrape_urls_keeps:
  assumes "redb_laws R vd vt" and "serde_laws J"
  shows "store_inv J vd st \<Longrightarrow> store_inv J vd (snd (scrape_urls K E R J job k n urls st))"
proof (induction urls arbitrary: k n st)
  case (Cons u urls)
  obtain name url where u: "u = (name, url)" by force
  obtain r st1 where r: "run_url_job K (ev_lowercase E) (ev_net E k) R J (ev_clock E k) name url (js_lifecycle job) (js_ttl_secs job) st = (r, st1)"
    by force
  have "store_inv J vd st1"
    using run_url_job_keeps [OF assms Cons.prems] r by (metis snd_conv)
  with Cons.IH u r show ?case by (cases r) simp_all
qed simp

lemma run_job_keeps:
  assumes "redb_laws R vd vt" and "serde_laws J" and "store_inv J vd st"
  shows "store_inv J vd (snd (run_job K E R J job st))"
  by (auto simp: run_job_def Let_def intro: run_url_job_keeps [OF assms] run_feed_job_keeps [OF assms]
      run_api_job_keeps [OF assms] scrape_urls_keeps [OF assms] assms(3))

lemma visit_jobs_keeps:
  assumes "redb_laws R vd vt" and "serde_laws J"
  shows "store_inv J vd st \<Longrightarrow> store_inv J vd (snd (visit_jobs K E R J now k js st))"
proof (induction js arbitrary: k st)
  case (Cons s js)
  obtain r st1 where r: "visit_job K (E k) R J now s st = (r, st1)" by force
  have "store_inv J vd st1"
    using r Cons.prems run_job_keeps [OF assms Cons.prems, of K "E k" s]
    by (auto simp: visit_job_def split: if_splits prod.splits result.splits)
  with Cons.IH r show ?case by (cases r) simp_all
qed simp

lemma sched_step_keeps:
  assumes "redb_laws R vd vt" and "serde_laws J" and "sched_step K R J P a b"
    and "store_inv J vd (snd a) \<and> distinct (map js_name (fst a))"
  shows "store_inv J vd (snd b) \<and> distinct (map js_name (fst b))"
  using assms(3)
proof cases
  case (tick E config now js st js' st')
  have "store_inv J vd (snd (scheduler_tick K E R J config now js st))"
    using assms(4) tick(1) by (auto simp: scheduler_tick_def intro: visit_jobs_keeps [OF assms(1,2)] split: result.split)
  moreover have "distinct (map js_name (reloaded config js))"
    using assms(4) tick(1) sync_distinct by (simp add: reloaded_def split: result.split)
  ultimately show ?thesis
    using tick visited_names [OF tick_visited [OF tick(3)]] by simp
qed

text \<open>C27: Whatever the network answers, whatever the configuration becomes and whatever the clock says, the scheduler keeps one
  state for each job name, if the first configuration names its jobs apart, and leaves in the store at most one record for each
  source hash, each under its own identifier.\<close>

theorem scheduler_reachable:
  assumes "redb_laws R vd vt" and "serde_laws J" and "open_store R (Ok d) = Ok d'" and "dedup_inv J (vd d)"
    and "distinct (map sj_name (xc_jobs (cf_scraper first)))"
    and "(sched_step K R J P)\<^sup>*\<^sup>* (initial_states first, Store_new d' config) (js, st)"
  shows "distinct (map js_name js) \<and>
    (\<forall>k j. c_tab (vd (st_db st)) RECORDS_TABLE k = Some j \<longrightarrow> (\<exists>r. record_from_json J j = Ok r \<and> cr_id r = k)) \<and>
    (\<forall>k k' r r'. stored J (vd (st_db st)) k = Some r \<and> stored J (vd (st_db st)) k' = Some r' \<and>
      cr_source_hash r = cr_source_hash r' \<longrightarrow> k = k')"
proof -
  have "dedup_inv J (vd d')"
    using assms(4) open_store_Ok [OF assms(1,3)] by (simp add: dedup_inv_def)
  then have "store_inv J vd (Store_new d' config)" by (rule store_new_inv)
  moreover have "distinct (map js_name (initial_states first))"
    using assms(5) by (simp add: initial_states_def comp_def)
  moreover have "store_inv J vd (snd b) \<and> distinct (map js_name (fst b))"
    if "(sched_step K R J P)\<^sup>*\<^sup>* a b" "store_inv J vd (snd a) \<and> distinct (map js_name (fst a))" for a b
    using that
  proof (induction rule: rtranclp_induct)
    case (step b c)
    with sched_step_keeps [OF assms(1,2) step.hyps(2)] show ?case by blast
  qed
  ultimately have "store_inv J vd st \<and> distinct (map js_name js)" using assms(6) by fastforce
  then show ?thesis using store_inv_records by blast
qed

section \<open>Runs\<close>

definition news_job :: "RefreshPolicy \<Rightarrow> u64 \<Rightarrow> ScrapeJob" where
  "news_job refresh interval =
     \<lparr>sj_name = lit ''news'', sj_source = Api, sj_target = lit ''http://a'', sj_transform = None,
      sj_refresh = refresh, sj_interval_secs = interval, sj_lifecycle = Ephemeral, sj_ttl_secs = 60, sj_max_results = None\<rparr>"

definition news_config :: "ScrapeJob \<Rightarrow> DsearchConfig" where
  "news_config j = DsearchConfig_default\<lparr>cf_scraper := ScraperConfig_default\<lparr>xc_jobs := [j]\<rparr>\<rparr>"

lemma news_config_jobs [simp]: "xc_jobs (cf_scraper (news_config j)) = [j]"
  by (simp add: news_config_def)

text \<open>An API that answers with an empty list.\<close>

definition news_env :: "nat \<Rightarrow> (unit, unit) job_env" where
  "news_env k = \<lparr>ev_net = (\<lambda>_. page_net), ev_reqwest = plain_reqwest,
     ev_json = \<lparr>js_parse = (\<lambda>_. Ok (JArr [])), js_print = (\<lambda>_. Ok []), js_pretty = (\<lambda>_. Ok [])\<rparr>,
     ev_providers_toml = \<lparr>pt_from_str = (\<lambda>_. Err []), pt_to_string_pretty = (\<lambda>_. Err [])\<rparr>,
     ev_providers = (\<lambda>_. plain_file None), ev_clock = (\<lambda>_. 5), ev_lowercase = id\<rparr>"

lemma news_runs: "js_source s = lit ''api'' \<Longrightarrow> \<exists>t. run_job K (news_env k) R J s st = (Ok t, st)"
  by (simp add: run_job_def run_api_job_def news_env_def fetch_api_def plain_reqwest_def parse_api_response_def
      totals_def no_counts_def)

lemma news_tick:
  assumes "js_source s = lit ''api''" and "js_name s = lit ''news''"
    and "sj_name j = lit ''news''" and "s' = with_params j s" and "js_refresh s' = lit ''interval''"
  shows "scheduler_tick K news_env R J (Ok (news_config j)) now [s] st =
    (Ok [if js_completed s' \<or> \<not> should_run now s' then s' else s'\<lparr>js_run_count := js_run_count s' + 1, js_last_run := now\<rparr>], st)"
proof -
  have "sync_job_states [s] [j] = [s']"
    using assms by (simp add: sync_job_states_def Let_def add_job_def update_state_def with_params_def)
  moreover have "js_source s' = lit ''api''" using assms by (simp add: with_params_def)
  ultimately show ?thesis
    using news_runs [of s' K 0 R J st] assms(5) by (auto simp: scheduler_tick_def visit_job_def res_simps)
qed

definition news_state :: "RefreshPolicy \<Rightarrow> u64 \<Rightarrow> u64 \<Rightarrow> bool \<Rightarrow> JobState" where
  "news_state refresh last_run run_count completed = (job_state_of (news_job refresh 60))
     \<lparr>js_last_run := last_run, js_run_count := run_count, js_completed := completed\<rparr>"

lemma news_state_simps [simp]:
  "js_source (news_state p l c b) = lit ''api''" "js_name (news_state p l c b) = lit ''news''"
  "with_params (news_job q 60) (news_state p l c b) = news_state q l c b"
  "js_refresh (news_state p l c b) = RefreshPolicy_as_str p" "js_interval_secs (news_state p l c b) = 60"
  "js_last_run (news_state p l c b) = l" "js_run_count (news_state p l c b) = c" "js_completed (news_state p l c b) \<longleftrightarrow> b"
  "(news_state p l c b)\<lparr>js_run_count := c', js_last_run := l'\<rparr> = news_state p l' c' b"
  by (simp_all add: news_state_def news_job_def job_state_of_def with_params_def)

lemma news_job_simps [simp]: "sj_name (news_job p n) = lit ''news''" "sj_refresh (news_job p n) = p" "sj_interval_secs (news_job p n) = n"
  by (simp_all add: news_job_def)

lemma news_named [simp]: "job_named (lit ''news'') (news_config (news_job p n)) = Some (news_job p n)"
  by (simp add: job_named_def)

lemma news_view [simp]: "job_view [news_state p l c b] (lit ''news'') = Some (news_state p l c b)"
  by (simp add: job_view_def)

definition news_world :: "RefreshPolicy \<Rightarrow> u64 \<Rightarrow> (nat \<Rightarrow> (unit, unit) job_env) \<Rightarrow> (DsearchConfig, ustr) result \<Rightarrow> u64 \<Rightarrow> bool" where
  "news_world p t E config now \<longleftrightarrow> E = news_env \<and> config = Ok (news_config (news_job p 60)) \<and> now = t"

lemma news_step: "sched_step K R J (news_world Interval t) ([news_state p l c b], st)
    ([if b \<or> \<not> l + 60 \<le> t then news_state Interval l c b else news_state Interval t (c + 1) b], st)"
  by (rule sched_step.tick [where E = news_env and config = "Ok (news_config (news_job Interval 60))" and now = t])
    (simp_all add: news_tick [where s' = "news_state Interval l c b"] news_world_def should_run_def)

theorem completed_never_runs_witness:
  "\<exists>js'. sched_step sample_crypto mem_redb sample_serde (news_world Interval 5000)
     ([news_state Once 100 1 True], Store_new mem_empty plain_config) (js', Store_new mem_empty plain_config) \<and>
   (\<exists>s'. job_view js' (lit ''news'') = Some s' \<and> js_completed s' \<and> js_run_count s' = 1 \<and> js_last_run s' = 100)"
proof -
  let ?a = "([news_state Once 100 1 True], Store_new mem_empty plain_config)"
    and ?b = "([news_state Interval 100 1 True], Store_new mem_empty plain_config)"
  have step: "sched_step sample_crypto mem_redb sample_serde (news_world Interval 5000) ?a ?b"
    using news_step [of sample_crypto mem_redb sample_serde 5000 Once 100 1 True] by simp
  have "\<exists>s'. job_view [news_state Interval 100 1 True] (lit ''news'') = Some s' \<and> js_completed s' \<and>
      js_run_count s' = js_run_count (news_state Once 100 1 True) \<and> js_last_run s' = js_last_run (news_state Once 100 1 True)"
    by (rule completed_never_runs [OF r_into_rtranclp [of "sched_step sample_crypto mem_redb sample_serde (news_world Interval 5000)", OF step]])
      (simp_all add: news_world_def)
  with step show ?thesis by auto
qed

theorem interval_job_rate_witness:
  "\<exists>js' ts. sched_runs sample_crypto mem_redb sample_serde (news_world Interval 5000) (lit ''news'')
     ([news_state Interval 100 1 False], Store_new mem_empty plain_config) ts (js', Store_new mem_empty plain_config) \<and>
   last (100 # ts) = 5000 \<and> sorted_wrt (\<lambda>t u. unat t + 60 \<le> unat u) ts"
proof -
  let ?a = "([news_state Interval 100 1 False], Store_new mem_empty plain_config)"
    and ?b = "([news_state Interval 5000 2 False], Store_new mem_empty plain_config)"
  have step: "sched_step sample_crypto mem_redb sample_serde (news_world Interval 5000) ?a ?b"
    using news_step [of sample_crypto mem_redb sample_serde 5000 Interval 100 1 False] by simp
  obtain ts where ts: "sched_runs sample_crypto mem_redb sample_serde (news_world Interval 5000) (lit ''news'') ?a ts ?b"
    using sched_runs_exist [OF r_into_rtranclp [of "sched_step sample_crypto mem_redb sample_serde (news_world Interval 5000)", OF step]]
    by blast
  have "sorted_wrt (\<lambda>t u. unat t + unat (60 :: u64) \<le> unat u) ts \<and>
      (\<forall>t \<in> set ts. unat (js_last_run (news_state Interval 100 1 False)) + unat (60 :: u64) \<le> unat t) \<and>
      (\<exists>s'. job_view [news_state Interval 5000 2 False] (lit ''news'') = Some s' \<and>
        js_last_run s' = last (js_last_run (news_state Interval 100 1 False) # ts))"
    by (rule interval_job_rate [OF ts]) (simp_all add: news_world_def)
  with ts show ?thesis by (intro exI conjI) auto
qed

theorem scheduler_reachable_witness:
  "\<exists>d' js. open_store mem_redb (Ok mem_empty) = Ok d' \<and>
     sched_step sample_crypto mem_redb sample_serde (news_world Interval 5000)
       (initial_states (news_config (news_job Interval 60)), Store_new d' plain_config) (js, Store_new d' plain_config) \<and>
     distinct (map js_name js)"
proof -
  have "version_of (mem_view mem_empty) \<le> CURRENT_SCHEMA_VERSION"
    by (simp add: version_of_def mem_view_def mem_empty_def)
  then obtain d' where d': "open_store mem_redb (Ok mem_empty) = Ok d'"
    using open_store_reliable [OF mem_redb_laws mem_redb_reliable] by blast
  let ?st = "Store_new d' plain_config :: (mem_db, unit) Store"
  have "initial_states (news_config (news_job Interval 60)) = [news_state Interval 0 0 False]"
    by (simp add: initial_states_def news_state_def job_state_of_def)
  then have step: "sched_step sample_crypto mem_redb sample_serde (news_world Interval 5000)
      (initial_states (news_config (news_job Interval 60)), ?st) ([news_state Interval 5000 1 False], ?st)"
    using news_step [of sample_crypto mem_redb sample_serde 5000 Interval 0 0 False ?st] by simp
  have "dedup_inv sample_serde (mem_view mem_empty)" using mem_empty_exact by (simp add: index_exact_def)
  from scheduler_reachable [OF mem_redb_laws sample_serde_laws d' this _ r_into_rtranclp [of "sched_step sample_crypto mem_redb
      sample_serde (news_world Interval 5000)", OF step]] step d'
  show ?thesis by auto
qed

end
