(* ===== verification/Http.thy ===== *)
theory Http
  imports Text Json Bytes Utf8 "HOL-Library.AList"
begin

text \<open>
  \<^verbatim>\<open>src/src/api/request.rs\<close> and \<^verbatim>\<open>response.rs\<close>: the request parser and the response writer of the
  HTTP APIs. A \<^verbatim>\<open>HashMap\<close> is an association list with distinct keys; the order in which it is
  iterated is a parameter. Lowercasing is the standard library's and is the parameter \<open>lc\<close>.
\<close>

type_synonym headers = "(ustr \<times> ustr) list"

section \<open>Requests\<close>

record HttpRequest =
  rq_method :: ustr
  rq_path :: ustr
  rq_query :: headers
  rq_headers :: headers
  rq_body :: ustr

definition MAX_HEADERS :: nat where "MAX_HEADERS = 64"
definition MAX_HEADER_VALUE_LEN :: nat where "MAX_HEADER_VALUE_LEN = 8192"
definition MAX_BODY_SIZE :: nat where "MAX_BODY_SIZE = 1048576"

text \<open>46 is the dot.\<close>

definition validate_path :: "ustr \<Rightarrow> (unit, ustr) result" where
  "validate_path path =
     (if 0 \<in> set path then Err (lit ''path contains null byte'')
      else if [46, 46] \<in> set (split_on 47 path)
      then Err (lit ''path traversal detected: '' @ [39, 46, 46, 39] @ lit '' segment not allowed'')
      else Ok ())"

text \<open>A byte becomes the character with its number (\<^verbatim>\<open>byte as char\<close>); 37 is the percent sign.\<close>

function percent_decode :: "ustr \<Rightarrow> ustr" where
  "percent_decode [] = []"
| "percent_decode (c # s) =
     (if c = 37 then
        case u8_from_hex (take 2 s) of
          Some byte \<Rightarrow> unat byte # percent_decode (drop 2 s)
        | None \<Rightarrow> 37 # take 2 s @ percent_decode (drop 2 s)
      else if c = 43 then 32 # percent_decode s
      else c # percent_decode s)"
  by pat_completeness auto
termination by (relation "measure length") auto

text \<open>38 is the ampersand and 61 the equals sign; a later pair replaces an earlier one.\<close>

definition parse_query_pair :: "headers \<Rightarrow> ustr \<Rightarrow> headers" where
  "parse_query_pair m pair =
     (if pair = [] then m
      else case split_once 61 pair of
        Some (key, v) \<Rightarrow> AList.update (percent_decode key) (percent_decode v) m
      | None \<Rightarrow> AList.update (percent_decode pair) [] m)"

definition parse_query_string :: "ustr \<Rightarrow> headers" where
  "parse_query_string qs = (if qs = [] then [] else foldl parse_query_pair [] (split_on 38 qs))"

fun parse_headers :: "(ustr \<Rightarrow> ustr) \<Rightarrow> ustr list \<Rightarrow> headers \<Rightarrow> (headers, ustr) result" where
  "parse_headers lc [] headers = Ok headers"
| "parse_headers lc (line # rest) headers =
     (if line = [] then Ok headers
      else if MAX_HEADERS \<le> length headers then Err (lit ''too many headers (max '' @ to_dec MAX_HEADERS @ lit '')'')
      else case split_once 58 line of
        None \<Rightarrow> parse_headers lc rest headers
      | Some (k, v) \<Rightarrow>
          let key = lc (trim k); val = trim v
          in if MAX_HEADER_VALUE_LEN < str_len val
             then Err (lit ''header value too long (max '' @ to_dec MAX_HEADER_VALUE_LEN @ lit '' bytes): '' @ key)
             else parse_headers lc rest (AList.update key val headers))"

text \<open>\<^verbatim>\<open>splitn(3, ' ')\<close>.\<close>

definition splitn3 :: "ustr \<Rightarrow> ustr list" where
  "splitn3 s = (case split_once 32 s of
     None \<Rightarrow> [s]
   | Some (a, r) \<Rightarrow> (case split_once 32 r of None \<Rightarrow> [a, r] | Some (b, c) \<Rightarrow> [a, b, c]))"

definition CRLF2 :: ustr where "CRLF2 = [13, 10, 13, 10]"

text \<open>The body is the second piece between blank lines, wherever the headers end.\<close>

definition request_body :: "ustr \<Rightarrow> ustr" where
  "request_body raw = (case split_all CRLF2 raw of _ # b # _ \<Rightarrow> b | _ \<Rightarrow> [])"

definition parse_http_request :: "(ustr \<Rightarrow> ustr) \<Rightarrow> ustr \<Rightarrow> (HttpRequest, ustr) result" where
  "parse_http_request lc raw = (case lines raw of
     [] \<Rightarrow> Err (lit ''empty request'')
   | request_line # rest \<Rightarrow>
       let parts = splitn3 request_line
       in if length parts < 2 then Err (lit ''malformed request line'')
          else
            let (path, query_string) = (case split_once 63 (parts ! 1) of
                Some (p, q) \<Rightarrow> (p, q) | None \<Rightarrow> (parts ! 1, []))
            in rbind (validate_path (percent_decode path)) (\<lambda>_.
               rbind (parse_headers lc rest []) (\<lambda>headers.
               let body = request_body raw
               in if MAX_BODY_SIZE < str_len body
                  then Err (lit ''body too large (max '' @ to_dec MAX_BODY_SIZE @ lit '' bytes, got '' @ to_dec (str_len body) @ lit '')'')
                  else rbind (case map_of headers (lit ''content-length'') of
                      None \<Rightarrow> Ok ()
                    | Some cl \<Rightarrow> (case parse_uint (2 ^ 64 - 1) cl of
                        None \<Rightarrow> Err (lit ''invalid Content-Length'')
                      | Some declared \<Rightarrow>
                          if MAX_BODY_SIZE < declared
                          then Err (lit ''Content-Length '' @ to_dec declared @ lit '' exceeds max body size '' @ to_dec MAX_BODY_SIZE)
                          else Ok ())) (\<lambda>_.
                    Ok \<lparr>rq_method = parts ! 0, rq_path = path, rq_query = parse_query_string query_string,
                        rq_headers = headers, rq_body = body\<rparr>))))"

section \<open>Responses\<close>

record HttpResponse =
  rp_status :: nat
  rp_status_text :: ustr
  rp_headers :: headers
  rp_body :: bytes

definition HttpResponse_new :: "nat \<Rightarrow> string \<Rightarrow> bytes \<Rightarrow> HttpResponse" where
  "HttpResponse_new status status_text body =
     \<lparr>rp_status = status, rp_status_text = lit status_text,
      rp_headers = AList.update (lit ''server'') (lit ''dsearch'') (AList.update (lit ''connection'') (lit ''close'') []),
      rp_body = body\<rparr>"

definition add_header :: "ustr \<Rightarrow> ustr \<Rightarrow> HttpResponse \<Rightarrow> HttpResponse" where
  "add_header k v resp = resp\<lparr>rp_headers := AList.update k v (rp_headers resp)\<rparr>"

definition as_json :: "HttpResponse \<Rightarrow> HttpResponse" where
  "as_json = add_header (lit ''content-type'') (lit ''application/json; charset=utf-8'')"

definition HttpResponse_ok :: "bytes \<Rightarrow> HttpResponse" where
  "HttpResponse_ok body = HttpResponse_new 200 ''OK'' body"

definition HttpResponse_json :: "ustr \<Rightarrow> HttpResponse" where
  "HttpResponse_json body = as_json (HttpResponse_ok (utf8 body))"

text \<open>The text of a value; printing a value does not fail.\<close>

definition json_text :: "json_lib \<Rightarrow> json \<Rightarrow> ustr" where
  "json_text L v = (case js_print L v of Ok s \<Rightarrow> s | _ \<Rightarrow> [])"

definition json_nat :: "nat \<Rightarrow> json" where "json_nat n = JNum (to_dec n)"

text \<open>Members in the order of their keys.\<close>

definition error_body :: "json_lib \<Rightarrow> ustr \<Rightarrow> nat \<Rightarrow> bytes" where
  "error_body L err code = utf8 (json_text L (JObj [(lit ''code'', json_nat code), (lit ''error'', JStr err)]))"

definition not_found :: "json_lib \<Rightarrow> ustr \<Rightarrow> HttpResponse" where
  "not_found L err = as_json (HttpResponse_new 404 ''Not Found'' (error_body L err 404))"

definition bad_request :: "json_lib \<Rightarrow> ustr \<Rightarrow> HttpResponse" where
  "bad_request L err = as_json (HttpResponse_new 400 ''Bad Request'' (error_body L err 400))"

definition internal_error :: "json_lib \<Rightarrow> ustr \<Rightarrow> HttpResponse" where
  "internal_error L err = as_json (HttpResponse_new 500 ''Internal Server Error'' (error_body L err 500))"

definition method_not_allowed :: "json_lib \<Rightarrow> ustr \<Rightarrow> HttpResponse" where
  "method_not_allowed L err = as_json (HttpResponse_new 405 ''Method Not Allowed'' (error_body L err 405))"

definition with_node_headers :: "ustr \<Rightarrow> HttpResponse \<Rightarrow> HttpResponse" where
  "with_node_headers node_id resp = add_header (lit ''x-protocol-version'') [49] (add_header (lit ''x-node-id'') node_id resp)"

definition with_record_count :: "nat \<Rightarrow> HttpResponse \<Rightarrow> HttpResponse" where
  "with_record_count count resp = add_header (lit ''x-record-count'') (to_dec count) resp"

text \<open>\<open>order\<close> is the order the hash map is iterated in.\<close>

definition header_line :: "ustr \<times> ustr \<Rightarrow> bytes" where
  "header_line h = utf8 (fst h @ lit '': '' @ snd h @ [13, 10])"

definition to_bytes :: "(ustr \<Rightarrow> ustr) \<Rightarrow> (headers \<Rightarrow> headers) \<Rightarrow> HttpResponse \<Rightarrow> bytes" where
  "to_bytes lc order resp =
     utf8 (lit ''HTTP/1.1 '' @ to_dec (rp_status resp) @ [32] @ rp_status_text resp @ [13, 10]) @
     utf8 (lit ''content-length: '' @ to_dec (length (rp_body resp)) @ [13, 10]) @
     concat (map header_line (filter (\<lambda>h. lc (fst h) \<noteq> lit ''content-length'') (order (rp_headers resp)))) @
     utf8 [13, 10] @ rp_body resp"

section \<open>Bounds\<close>

lemma length_update: "length (AList.update k v m) \<le> Suc (length m)"
  by (induction m) auto

lemma update_values: "snd ` set (AList.update k v m) \<subseteq> insert v (snd ` set m)"
  by (induction m) auto

lemma parse_headers_bounds:
  "parse_headers lc ls h = Ok h' \<Longrightarrow> length h \<le> 64 \<Longrightarrow> \<forall>v \<in> snd ` set h. str_len v \<le> 8192 \<Longrightarrow>
     length h' \<le> 64 \<and> (\<forall>v \<in> snd ` set h'. str_len v \<le> 8192)"
proof (induction lc ls h rule: parse_headers.induct)
  case (2 lc line ls h)
  show ?case
  proof (cases "line = []")
    case False
    show ?thesis
    proof (cases "split_once 58 line")
      case None
      then show ?thesis using 2(1) [OF False _ None] 2(3-) False by (auto split: if_splits)
    next
      case (Some kv)
      obtain k v where kv: "kv = (k, v)" by force
      have small: "length h < 64" "str_len (trim v) \<le> 8192"
        using 2(3) False Some kv by (auto simp: MAX_HEADERS_def MAX_HEADER_VALUE_LEN_def Let_def not_le split: if_splits)
      have rest: "parse_headers lc ls (AList.update (lc (trim k)) (trim v) h) = Ok h'"
        using 2(3) False Some kv by (auto simp: Let_def split: if_splits)
      have limits: "\<not> MAX_HEADERS \<le> length h" "\<not> MAX_HEADER_VALUE_LEN < str_len (trim v)"
        using small by (simp_all add: MAX_HEADERS_def MAX_HEADER_VALUE_LEN_def)
      have len: "length (AList.update (lc (trim k)) (trim v) h) \<le> 64"
        using length_update [of "lc (trim k)" "trim v" h] small(1) by simp
      have vals: "\<forall>u \<in> snd ` set (AList.update (lc (trim k)) (trim v) h). str_len u \<le> 8192"
      proof
        fix u
        assume "u \<in> snd ` set (AList.update (lc (trim k)) (trim v) h)"
        then have "u = trim v \<or> u \<in> snd ` set h" by (metis insert_iff subsetD update_values)
        with small(2) 2(5) show "str_len u \<le> 8192" by metis
      qed
      show ?thesis
        by (rule 2(2) [OF False limits(1) Some kv [symmetric] refl refl limits(2) rest len vals])
    qed
  qed (use 2 in simp)
qed simp

section \<open>Percent encoding\<close>

definition unreserved :: "u8 \<Rightarrow> bool" where
  "unreserved b \<longleftrightarrow> is_digit (unat b) \<or> (65 \<le> unat b \<and> unat b \<le> 90) \<or> (97 \<le> unat b \<and> unat b \<le> 122) \<or> unat b \<in> {45, 46, 95, 126}"

definition percent_encode :: "bytes \<Rightarrow> ustr" where
  "percent_encode bs = concat (map (\<lambda>b. if unreserved b then [unat b] else 37 # hex_byte b) bs)"

lemma percent_decode_encode: "percent_decode (percent_encode bs) = map unat bs"
proof (induction bs)
  case (Cons b bs)
  have "percent_encode (b # bs) = (if unreserved b then [unat b] else 37 # hex_byte b) @ percent_encode bs"
    by (simp add: percent_encode_def)
  with Cons show ?case by (auto simp: unreserved_def is_digit_def)
qed (simp add: percent_encode_def)

text \<open>Decoding undoes the percent encoding of ASCII text and of no other: each byte is read as a
  character, so a character of several bytes comes back as several.\<close>

theorem percent_decode_ascii_only:
  "percent_decode (percent_encode (utf8 s)) = s \<longleftrightarrow> (\<forall>c \<in> set s. c < 128)"
proof
  assume "\<forall>c \<in> set s. c < 128"
  then have "map unat (utf8 s) = s"
    by (induction s) (auto simp: utf8_def utf8_char_def unat_of_nat)
  then show "percent_decode (percent_encode (utf8 s)) = s" by (simp add: percent_decode_encode)
next
  assume "percent_decode (percent_encode (utf8 s)) = s"
  then have "length (utf8 s) = length s" by (metis length_map percent_decode_encode)
  then have "str_len s = length s" by (simp add: length_utf8)
  then show "\<forall>c \<in> set s. c < 128"
  proof (induction s)
    case (Cons c s)
    have "utf8_len c = 1 \<and> str_len s = length s"
      using Cons.prems length_le_str_len [of s] utf8_len_bounds(1) [of c] by simp
    with Cons.IH show ?case by (auto simp: utf8_len_def split: if_splits)
  qed simp
qed

end
