(* ===== verification/Openapi.thy ===== *)
theory Openapi
  imports Json
begin

text \<open>
  \<^verbatim>\<open>src/src/api/openapi.rs\<close>: the description of the API that the node serves, as the value that the macro
  \<^verbatim>\<open>json!\<close> makes, its members in the order of their keys.
\<close>

section \<open>The operations\<close>

definition jobj :: "(string \<times> json) list \<Rightarrow> json" where
  "jobj ms = JObj (map (\<lambda>(k, v). (lit k, v)) ms)"

definition jtxt :: "string \<Rightarrow> json" where
  "jtxt s = JStr (lit s)"

definition doc_health :: json where
  "doc_health = jobj [(''get'', jobj [(''responses'', jobj [(''200'', jobj [(''content'', jobj [(''application/json'', jobj [(''schema'',
    jobj [(''properties'', jobj [(''node_id'', jobj [(''type'', jtxt ''string'')]), (''status'', jobj [(''type'', jtxt ''string'')]),
    (''uptime_secs'', jobj [(''type'', jtxt ''number'')])]), (''type'', jtxt ''object'')])])]), (''description'', jtxt ''Node is healthy'')])]),
    (''summary'', jtxt ''Health check'')])]"

definition doc_node :: json where
  "doc_node = jobj [(''get'', jobj [(''responses'', jobj [(''200'', jobj [(''content'', jobj [(''application/json'', jobj [(''schema'',
    jobj [(''properties'', jobj [(''node_id'', jobj [(''type'', jtxt ''string'')]), (''peers'', jobj [(''type'', jtxt ''integer'')]),
    (''protocol_version'', jobj [(''type'', jtxt ''integer'')]), (''records'', jobj [(''type'', jtxt ''integer'')]), (''role'',
    jobj [(''type'', jtxt ''string'')])]), (''type'', jtxt ''object'')])])]), (''description'', jtxt ''Node identity and status'')])]),
    (''summary'', jtxt ''Node info'')])]"

definition doc_search :: json where
  "doc_search = jobj [(''get'', jobj [(''parameters'', JArr [jobj [(''description'', jtxt ''Search query''), (''in'', jtxt ''query''),
    (''name'', jtxt ''q''), (''required'', JBool True), (''schema'', jobj [(''type'', jtxt ''string'')])],
    jobj [(''description'', jtxt ''Schema filter''), (''in'', jtxt ''query''), (''name'', jtxt ''schema''), (''schema'',
    jobj [(''type'', jtxt ''string'')])], jobj [(''description'', jtxt ''Max results''), (''in'', jtxt ''query''), (''name'', jtxt ''limit''),
    (''schema'', jobj [(''default'', JNum (lit ''20'')), (''type'', jtxt ''integer'')])], jobj [(''description'', jtxt ''Result offset''),
    (''in'', jtxt ''query''), (''name'', jtxt ''offset''), (''schema'', jobj [(''default'', JNum (lit ''0'')), (''type'', jtxt ''integer'')])]]),
    (''responses'', jobj [(''200'', jobj [(''description'', jtxt ''Search results''), (''headers'', jobj [(''X-Record-Count'', jobj [(''schema'',
    jobj [(''type'', jtxt ''integer'')])])])])]), (''summary'', jtxt ''Search records'')])]"

definition doc_record_id :: json where
  "doc_record_id = jobj [(''get'', jobj [(''parameters'', JArr [jobj [(''in'', jtxt ''path''), (''name'', jtxt ''id''), (''required'', JBool True),
    (''schema'', jobj [(''type'', jtxt ''string'')])]]), (''responses'', jobj [(''200'', jobj [(''description'', jtxt ''Record found'')]), (''404'',
    jobj [(''description'', jtxt ''Record not found'')])]), (''summary'', jtxt ''Get a record by ID'')])]"

definition doc_records :: json where
  "doc_records = jobj [(''get'', jobj [(''parameters'', JArr [jobj [(''in'', jtxt ''query''), (''name'', jtxt ''schema''), (''schema'',
    jobj [(''type'', jtxt ''string'')])], jobj [(''in'', jtxt ''query''), (''name'', jtxt ''limit''), (''schema'',
    jobj [(''default'', JNum (lit ''50'')), (''type'', jtxt ''integer'')])], jobj [(''in'', jtxt ''query''), (''name'', jtxt ''offset''),
    (''schema'', jobj [(''default'', JNum (lit ''0'')), (''type'', jtxt ''integer'')])]]), (''responses'', jobj [(''200'',
    jobj [(''description'', jtxt ''Record list'')])]), (''summary'', jtxt ''List records'')])]"

definition doc_schema :: json where
  "doc_schema = jobj [(''get'', jobj [(''responses'', jobj [(''200'', jobj [(''description'', jtxt ''Schema list'')])]),
    (''summary'', jtxt ''List known schemas'')])]"

definition doc_schema_id :: json where
  "doc_schema_id = jobj [(''get'', jobj [(''parameters'', JArr [jobj [(''in'', jtxt ''path''), (''name'', jtxt ''id''), (''required'', JBool True),
    (''schema'', jobj [(''type'', jtxt ''string'')])]]), (''responses'', jobj [(''200'', jobj [(''description'', jtxt ''Schema details'')]),
    (''404'', jobj [(''description'', jtxt ''Unknown schema'')])]), (''summary'', jtxt ''Get schema details'')])]"

definition doc_peers :: json where
  "doc_peers = jobj [(''get'', jobj [(''responses'', jobj [(''200'', jobj [(''description'', jtxt ''Peer list'')])]),
    (''summary'', jtxt ''List known peers'')])]"

definition doc_peers_add :: json where
  "doc_peers_add = jobj [(''post'', jobj [(''requestBody'', jobj [(''content'', jobj [(''application/json'', jobj [(''schema'',
    jobj [(''properties'', jobj [(''addr'', jobj [(''type'', jtxt ''string'')])]), (''required'', JArr [jtxt ''addr'']),
    (''type'', jtxt ''object'')])])])]), (''responses'', jobj [(''200'', jobj [(''description'', jtxt ''Peer added'')])]),
    (''summary'', jtxt ''Add a peer'')])]"

definition doc_scraper :: json where
  "doc_scraper = jobj [(''get'', jobj [(''responses'', jobj [(''200'', jobj [(''description'', jtxt ''Scraper job list'')])]),
    (''summary'', jtxt ''List scraper jobs'')])]"

definition doc_scraper_run :: json where
  "doc_scraper_run = jobj [(''post'', jobj [(''requestBody'', jobj [(''content'', jobj [(''application/json'', jobj [(''schema'',
    jobj [(''properties'', jobj [(''name'', jobj [(''type'', jtxt ''string'')])]), (''required'', JArr [jtxt ''name'']),
    (''type'', jtxt ''object'')])])])]), (''responses'', jobj [(''200'', jobj [(''description'', jtxt ''Job result'')])]),
    (''summary'', jtxt ''Run a scraper job'')])]"

definition doc_storage :: json where
  "doc_storage = jobj [(''get'', jobj [(''responses'', jobj [(''200'', jobj [(''description'', jtxt ''Storage statistics'')])]),
    (''summary'', jtxt ''Storage info'')])]"

definition doc_storage_vacuum :: json where
  "doc_storage_vacuum = jobj [(''post'', jobj [(''responses'', jobj [(''200'', jobj [(''description'', jtxt ''Vacuum complete'')])]),
    (''summary'', jtxt ''Vacuum storage'')])]"

definition doc_config :: json where
  "doc_config = jobj [(''get'', jobj [(''responses'', jobj [(''200'', jobj [(''description'', jtxt ''Config object'')])]),
    (''summary'', jtxt ''Get current config'')])]"

definition doc_config_set :: json where
  "doc_config_set = jobj [(''post'', jobj [(''requestBody'', jobj [(''content'', jobj [(''application/json'', jobj [(''schema'',
    jobj [(''properties'', jobj [(''key'', jobj [(''type'', jtxt ''string'')]), (''value'', jobj [(''type'', jtxt ''string'')])]), (''required'',
    JArr [jtxt ''key'', jtxt ''value'']), (''type'', jtxt ''object'')])])])]), (''responses'', jobj [(''200'',
    jobj [(''description'', jtxt ''Config updated'')])]), (''summary'', jtxt ''Set a config key'')])]"

definition doc_identity :: json where
  "doc_identity = jobj [(''get'', jobj [(''responses'', jobj [(''200'', jobj [(''description'', jtxt ''Identity info'')])]),
    (''summary'', jtxt ''Show node identity'')])]"

definition doc_bootstrap :: json where
  "doc_bootstrap = jobj [(''get'', jobj [(''responses'', jobj [(''200'', jobj [(''description'', jtxt ''Bootstrap peer list'')])]),
    (''summary'', jtxt ''List bootstrap peers'')])]"

definition doc_openapi_json :: json where
  "doc_openapi_json = jobj [(''get'', jobj [(''responses'', jobj [(''200'', jobj [(''description'', jtxt ''OpenAPI 3.1 JSON'')])]),
    (''summary'', jtxt ''OpenAPI specification'')])]"

definition doc_paths :: "(string \<times> json) list" where
  "doc_paths = [(''/bootstrap'', doc_bootstrap), (''/config'', doc_config), (''/config/set'', doc_config_set), (''/health'', doc_health),
    (''/identity'', doc_identity), (''/node'', doc_node), (''/openapi.json'', doc_openapi_json), (''/peers'', doc_peers),
    (''/peers/add'', doc_peers_add), (''/record/{id}'', doc_record_id), (''/records'', doc_records), (''/schema'', doc_schema),
    (''/schema/{id}'', doc_schema_id), (''/scraper'', doc_scraper), (''/scraper/run'', doc_scraper_run), (''/search'', doc_search),
    (''/storage'', doc_storage), (''/storage/vacuum'', doc_storage_vacuum)]"

section \<open>The document\<close>

text \<open>8212 is the dash.\<close>

definition openapi_value :: "ustr \<Rightarrow> json" where
  "openapi_value node_id = jobj [(''components'', jobj [(''schemas'', jobj [(''error'', jobj [(''properties'', jobj [(''code'',
    jobj [(''type'', jtxt ''integer'')]), (''error'', jobj [(''type'', jtxt ''string'')])]), (''type'', jtxt ''object'')])])]), (''info'',
    jobj [(''description'', JStr (lit ''Local HTTP API for DSearch node '' @ [8212] @ lit
    '' all CLI and UI operations proxy through this surface.'')), (''title'', jtxt ''DSearch Local API''), (''version'', jtxt ''0.1.0'')]),
    (''openapi'', jtxt ''3.1.0''), (''paths'', jobj doc_paths), (''servers'', JArr [jobj [(''description'', jtxt ''Local node API''),
    (''url'', jtxt ''http://127.0.0.1:7743'')]]), (''x-node-id'', JStr node_id)]"

definition openapi_json :: "json_lib \<Rightarrow> ustr \<Rightarrow> ustr" where
  "openapi_json L node_id = (case js_pretty L (openapi_value node_id) of Ok s \<Rightarrow> s | _ \<Rightarrow> [])"

text \<open>The methods and paths that are described.\<close>

definition operations :: "json \<Rightarrow> (ustr \<times> ustr) list" where
  "operations v = (case json_get ''paths'' v of
     Some (JObj ps) \<Rightarrow> concat (map (\<lambda>(path, ops). case ops of JObj ms \<Rightarrow> map (\<lambda>(method, _). (method, path)) ms | _ \<Rightarrow> []) ps)
   | _ \<Rightarrow> [])"

lemma described_operations: "operations (openapi_value node_id) = map (\<lambda>(method, path). (lit method, lit path))
    [(''get'', ''/bootstrap''), (''get'', ''/config''), (''post'', ''/config/set''), (''get'', ''/health''), (''get'', ''/identity''), (''get'',
      ''/node''), (''get'', ''/openapi.json''), (''get'', ''/peers''), (''post'', ''/peers/add''), (''get'', ''/record/{id}''), (''get'',
      ''/records''), (''get'', ''/schema''), (''get'', ''/schema/{id}''), (''get'', ''/scraper''), (''post'', ''/scraper/run''), (''get'',
      ''/search''), (''get'', ''/storage''), (''post'', ''/storage/vacuum'')]"
  by (simp add: operations_def openapi_value_def jobj_def doc_paths_def doc_health_def doc_node_def doc_search_def doc_record_id_def doc_records_def
    doc_schema_def doc_schema_id_def doc_peers_def doc_peers_add_def doc_scraper_def doc_scraper_run_def doc_storage_def doc_storage_vacuum_def
    doc_config_def doc_config_set_def doc_identity_def doc_bootstrap_def doc_openapi_json_def lit_Cons)

end
