(* ===== verification/Api.thy ===== *)
theory Api
  imports Http Job Sandbox Config Dns Pow Openapi
begin

text \<open>
  \<^verbatim>\<open>src/src/api/handlers.rs\<close>: the routes of the local API. A handler takes the request and the
  state, which is the store and the files, and gives a response or a panic with the state after
  it. What a handler calls outside of the repository is in the record \<open>api_env\<close>: the libraries,
  the network, the clocks, and what opening the database a second time gives.
\<close>

section \<open>The environment and the state\<close>

text \<open>serde's view of the types the responses print and the requests read.\<close>

record api_serde =
  as_record_value :: "ContentRecord \<Rightarrow> json"
  as_job_value :: "ScrapeJob \<Rightarrow> json"
  as_config_value :: "DsearchConfig \<Rightarrow> json"
  as_records_pretty :: "ContentRecord list \<Rightarrow> (ustr, ustr) result"
  as_records_from_str :: "ustr \<Rightarrow> (ContentRecord list, ustr) result"

record ('sk, 'vk, 'd, 't, 'f, 'c) api_env =
  ae_crypto :: "('sk, 'vk) crypto"
  ae_redb :: "('d, 't) redb"
  ae_serde :: serde
  ae_vec_serde :: vec_serde
  ae_f64 :: "'f f64_ops"
  ae_lowercase :: "ustr \<Rightarrow> ustr"
  ae_uppercase :: "ustr \<Rightarrow> ustr"
  ae_json :: json_lib
  ae_values :: api_serde
  ae_net :: "'c net"
  ae_udp :: udp
  ae_bootstrap_toml :: toml
  ae_config_toml :: config_toml
  ae_secs :: u64
  ae_instant :: nat
  ae_reopened :: "('d, ustr) result"
  ae_zero_key :: 'vk
  ae_data_dir :: ustr
  ae_node_id :: ustr
  ae_config :: DsearchConfig

record ('d, 'sk) api_state =
  ap_store :: "('d, 'sk) Store"
  ap_files :: "ustr \<Rightarrow> text_file"

type_synonym ('d, 'sk) handled = "(HttpResponse, ustr) result \<times> ('d, 'sk) api_state"

definition data_file :: "('sk, 'vk, 'd, 't, 'f, 'c) api_env \<Rightarrow> string \<Rightarrow> ustr" where
  "data_file E name = ae_data_dir E @ 47 # lit name"

definition write_path :: "ustr \<Rightarrow> ustr \<Rightarrow> ('d, 'sk) api_state \<Rightarrow> (unit, ustr) result \<times> ('d, 'sk) api_state" where
  "write_path p s S = (case write_file s (ap_files S p) of (r, f) \<Rightarrow> (r, S\<lparr>ap_files := (ap_files S)(p := f)\<rparr>))"

text \<open>A 200 with an object and the node's headers. Members are written in the order of their keys.\<close>

definition ok_json :: "('sk, 'vk, 'd, 't, 'f, 'c) api_env \<Rightarrow> (string \<times> json) list \<Rightarrow> HttpResponse" where
  "ok_json E ms = with_node_headers (ae_node_id E)
     (HttpResponse_json (json_text (ae_json E) (JObj (map (\<lambda>(k, v). (lit k, v)) ms))))"

definition ok_value :: "('sk, 'vk, 'd, 't, 'f, 'c) api_env \<Rightarrow> json \<Rightarrow> HttpResponse" where
  "ok_value E v = with_node_headers (ae_node_id E) (HttpResponse_json (json_text (ae_json E) v))"

text \<open>\<^verbatim>\<open>unwrap_or\<close> on a result, and the match of a handler on what the store gave.\<close>

definition ok_or :: "('a, ustr) result \<Rightarrow> 'a \<Rightarrow> ('a, ustr) result" where
  "ok_or r d = (case r of Ok x \<Rightarrow> Ok x | Err _ \<Rightarrow> Ok d | Panic \<Rightarrow> Panic)"

definition answer :: "('sk, 'vk, 'd, 't, 'f, 'c) api_env \<Rightarrow> ('a, ustr) result \<Rightarrow> ('a \<Rightarrow> HttpResponse) \<Rightarrow> (HttpResponse, ustr) result" where
  "answer E r f = (case r of Ok x \<Rightarrow> Ok (f x) | Err e \<Rightarrow> Ok (internal_error (ae_json E) e) | Panic \<Rightarrow> Panic)"

definition on_store :: "(('d, 'sk) Store \<Rightarrow> 'a \<times> ('d, 'sk) Store) \<Rightarrow> ('d, 'sk) api_state \<Rightarrow> 'a \<times> ('d, 'sk) api_state" where
  "on_store f S = (case f (ap_store S) of (r, st) \<Rightarrow> (r, S\<lparr>ap_store := st\<rparr>))"

text \<open>The JSON body and a string field of it.\<close>

definition with_body :: "('sk, 'vk, 'd, 't, 'f, 'c) api_env \<Rightarrow> HttpRequest \<Rightarrow> ('d, 'sk) api_state
    \<Rightarrow> (json \<Rightarrow> ('d, 'sk) handled) \<Rightarrow> ('d, 'sk) handled" where
  "with_body E req S k = (case js_parse (ae_json E) (rq_body req) of
     Ok body \<Rightarrow> k body
   | Err e \<Rightarrow> (Ok (bad_request (ae_json E) (lit ''invalid JSON: '' @ e)), S)
   | Panic \<Rightarrow> (Panic, S))"

definition with_field :: "('sk, 'vk, 'd, 't, 'f, 'c) api_env \<Rightarrow> string \<Rightarrow> json \<Rightarrow> ('d, 'sk) api_state
    \<Rightarrow> (ustr \<Rightarrow> ('d, 'sk) handled) \<Rightarrow> ('d, 'sk) handled" where
  "with_field E name body S k = (case get_str name body of
     Some x \<Rightarrow> k x
   | None \<Rightarrow> (Ok (bad_request (ae_json E) (lit ''missing field: '' @ lit name)), S))"

section \<open>Reading the store\<close>

definition handle_health :: "('sk, 'vk, 'd, 't, 'f, 'c) api_env \<Rightarrow> HttpResponse" where
  "handle_health E = ok_json E [(''node_id'', JStr (ae_node_id E)), (''status'', JStr (lit ''ok''))]"

definition handle_node :: "('sk, 'vk, 'd, 't, 'f, 'c) api_env \<Rightarrow> ('d, 'sk) api_state \<Rightarrow> ('d, 'sk) handled" where
  "handle_node E S = (answer E (ok_or (store_record_count (ae_redb E) (ap_store S)) 0) (\<lambda>record_count.
     ok_json E [(''bandwidth_limit_mbps'', json_nat (unat (rc_bandwidth_limit_mbps (cf_relay (ae_config E))))),
       (''node_id'', JStr (ae_node_id E)), (''peers'', json_nat 0),
       (''protocol_version'', json_nat (unat (nc_min_protocol_version (cf_node (ae_config E))))),
       (''records'', json_nat (unat record_count)), (''role'', JStr (nc_role (cf_node (ae_config E))))]), S)"

definition limit_param :: "HttpRequest \<Rightarrow> nat \<Rightarrow> u64" where
  "limit_param req d = of_nat (unwrap_or (Option.bind (map_of (rq_query req) (lit ''limit'')) (parse_uint (2 ^ 64 - 1))) d)"

definition effective_query :: "ustr option \<Rightarrow> ustr \<Rightarrow> ustr" where
  "effective_query schema query = (case schema of
     Some s \<Rightarrow> if s \<noteq> [] then lit ''schema:'' @ s @ [32] @ query else query
   | None \<Rightarrow> query)"

definition search_response :: "('sk, 'vk, 'd, 't, 'f, 'c) api_env \<Rightarrow> ustr \<Rightarrow> ContentRecord list \<Rightarrow> HttpResponse" where
  "search_response E query results = with_record_count (length results)
     (ok_json E [(''count'', json_nat (length results)), (''query'', JStr query),
       (''results'', JArr (map (as_record_value (ae_values E)) results))])"

definition handle_search :: "('sk, 'vk, 'd, 't, 'f, 'c) api_env \<Rightarrow> HttpRequest \<Rightarrow> ('d, 'sk) api_state \<Rightarrow> ('d, 'sk) handled" where
  "handle_search E req S =
     (let query = unwrap_or (map_of (rq_query req) (lit ''q'')) [];
          schema = map_of (rq_query req) (lit ''schema'');
          limit = limit_param req 20
      in apfst (\<lambda>r. answer E r (search_response E query))
        (on_store (store_search_records (ae_redb E) (ae_serde E) (ae_vec_serde E) (ae_f64 E) (ae_lowercase E)
           (ae_instant E) (ae_secs E) (effective_query schema query) limit) S))"

definition record_response :: "('sk, 'vk, 'd, 't, 'f, 'c) api_env \<Rightarrow> ustr \<Rightarrow> ContentRecord option \<Rightarrow> HttpResponse" where
  "record_response E i r = (case r of
     Some record \<Rightarrow> ok_value E (as_record_value (ae_values E) record)
   | None \<Rightarrow> not_found (ae_json E) (lit ''record not found: '' @ i))"

definition handle_get_record :: "('sk, 'vk, 'd, 't, 'f, 'c) api_env \<Rightarrow> ustr \<Rightarrow> ('d, 'sk) api_state \<Rightarrow> ('d, 'sk) handled" where
  "handle_get_record E path S =
     (let i = drop (length (lit ''/record/'')) path
      in (answer E (store_get_record (ae_redb E) (ae_serde E) i (ap_store S)) (record_response E i), S))"

definition list_response :: "('sk, 'vk, 'd, 't, 'f, 'c) api_env \<Rightarrow> ContentRecord list \<Rightarrow> HttpResponse" where
  "list_response E records = with_record_count (length records)
     (ok_json E [(''count'', json_nat (length records)), (''records'', JArr (map (as_record_value (ae_values E)) records))])"

definition handle_list_records :: "('sk, 'vk, 'd, 't, 'f, 'c) api_env \<Rightarrow> HttpRequest \<Rightarrow> ('d, 'sk) api_state \<Rightarrow> ('d, 'sk) handled" where
  "handle_list_records E req S =
     (answer E (store_list_records (ae_redb E) (ae_serde E) (map_of (rq_query req) (lit ''schema'')) (limit_param req 50) (ap_store S))
       (list_response E), S)"

definition handle_list_schemas :: "('sk, 'vk, 'd, 't, 'f, 'c) api_env \<Rightarrow> HttpResponse" where
  "handle_list_schemas E = ok_json E [(''schemas'', JArr (map JStr known_schemas))]"

definition handle_get_schema :: "('sk, 'vk, 'd, 't, 'f, 'c) api_env \<Rightarrow> ustr \<Rightarrow> HttpResponse" where
  "handle_get_schema E path =
     (let i = drop (length (lit ''/schema/'')) path
      in if i \<in> set known_schemas then ok_json E [(''id'', JStr i), (''known'', JBool True)]
         else not_found (ae_json E) (lit ''unknown schema: '' @ i))"

section \<open>Peers\<close>

text \<open>\<^verbatim>\<open>from_str::<Vec<Value>>\<close>, where anything that does not parse counts as an empty list.\<close>

definition values_of :: "json_lib \<Rightarrow> ustr \<Rightarrow> json list" where
  "values_of L s = (case js_parse L s of Ok v \<Rightarrow> unwrap_or (as_array v) [] | _ \<Rightarrow> [])"

definition read_values :: "json_lib \<Rightarrow> text_file \<Rightarrow> json list" where
  "read_values L f = (if file_exists f
     then values_of L (case read_to_string f of Ok contents \<Rightarrow> contents | _ \<Rightarrow> [])
     else [])"

text \<open>A value that cannot be printed, or written, is not, and nothing is said.\<close>

definition write_values :: "json_lib \<Rightarrow> ustr \<Rightarrow> json list \<Rightarrow> ('d, 'sk) api_state \<Rightarrow> ('d, 'sk) api_state" where
  "write_values L p vs S = (case js_pretty L (JArr vs) of Ok s \<Rightarrow> snd (write_path p s S) | _ \<Rightarrow> S)"

definition handle_list_peers :: "('sk, 'vk, 'd, 't, 'f, 'c) api_env \<Rightarrow> ('d, 'sk) api_state \<Rightarrow> HttpResponse" where
  "handle_list_peers E S =
     (let peers = read_values (ae_json E) (ap_files S (data_file E ''peers.json''))
      in ok_json E [(''count'', json_nat (length peers)), (''peers'', JArr peers)])"

definition handle_add_peer :: "('sk, 'vk, 'd, 't, 'f, 'c) api_env \<Rightarrow> HttpRequest \<Rightarrow> ('d, 'sk) api_state \<Rightarrow> ('d, 'sk) handled" where
  "handle_add_peer E req S = with_body E req S (\<lambda>body. with_field E ''addr'' body S (\<lambda>addr.
     let p = data_file E ''peers.json'';
         peers = read_values (ae_json E) (ap_files S p) @ [JObj [(lit ''addr'', JStr addr)]];
         S = write_values (ae_json E) p peers S
     in (Ok (ok_json E [(''added'', JStr addr), (''ok'', JBool True)]), S)))"

definition is_ban_of :: "ustr \<Rightarrow> json \<Rightarrow> bool" where
  "is_ban_of peer_id b \<longleftrightarrow> get_str ''peer_id'' b = Some peer_id"

definition handle_ban_peer :: "('sk, 'vk, 'd, 't, 'f, 'c) api_env \<Rightarrow> HttpRequest \<Rightarrow> ('d, 'sk) api_state \<Rightarrow> ('d, 'sk) handled" where
  "handle_ban_peer E req S = with_body E req S (\<lambda>body. with_field E ''peer_id'' body S (\<lambda>peer_id.
     let p = data_file E ''banned_peers.json'';
         banned = read_values (ae_json E) (ap_files S p)
     in if list_ex (is_ban_of peer_id) banned
        then (Ok (ok_json E [(''already_banned'', JBool True), (''banned'', JStr peer_id), (''ok'', JBool True)]), S)
        else (Ok (ok_json E [(''banned'', JStr peer_id), (''ok'', JBool True)]),
          write_values (ae_json E) p (banned @ [JObj [(lit ''peer_id'', JStr peer_id)]]) S)))"

definition handle_unban_peer :: "('sk, 'vk, 'd, 't, 'f, 'c) api_env \<Rightarrow> HttpRequest \<Rightarrow> ('d, 'sk) api_state \<Rightarrow> ('d, 'sk) handled" where
  "handle_unban_peer E req S = with_body E req S (\<lambda>body. with_field E ''peer_id'' body S (\<lambda>peer_id.
     let p = data_file E ''banned_peers.json'';
         reply = (\<lambda>was_banned. ok_json E [(''ok'', JBool True), (''unbanned'', JStr peer_id), (''was_banned'', JBool was_banned)])
     in if \<not> file_exists (ap_files S p) then (Ok (reply False), S)
        else
          let banned = read_values (ae_json E) (ap_files S p);
              kept = filter (\<lambda>b. \<not> is_ban_of peer_id b) banned
          in (Ok (reply (length kept < length banned)), write_values (ae_json E) p kept S)))"

section \<open>Scrapers\<close>

definition handle_list_scrapers :: "('sk, 'vk, 'd, 't, 'f, 'c) api_env \<Rightarrow> HttpResponse" where
  "handle_list_scrapers E =
     (let scraper = cf_scraper (ae_config E)
      in ok_json E [(''default_interval_secs'', json_nat (unat (xc_default_interval_secs scraper))),
        (''default_lifecycle'', JStr (xc_default_lifecycle scraper)),
        (''jobs'', JArr (map (as_job_value (ae_values E)) (xc_jobs scraper)))])"

text \<open>Every job is run as a URL job, whatever its source.\<close>

definition handle_run_scraper :: "('sk, 'vk, 'd, 't, 'f, 'c) api_env \<Rightarrow> HttpRequest \<Rightarrow> ('d, 'sk) api_state \<Rightarrow> ('d, 'sk) handled" where
  "handle_run_scraper E req S = with_body E req S (\<lambda>body. with_field E ''name'' body S (\<lambda>name.
     case List.find (\<lambda>j. sj_name j = name) (xc_jobs (cf_scraper (ae_config E))) of
       None \<Rightarrow> (Ok (not_found (ae_json E) (lit ''scraper job '' @ [39] @ name @ [39] @ lit '' not found'')), S)
     | Some job \<Rightarrow>
         apfst (\<lambda>r. answer E r (\<lambda>result.
             ok_json E [(''inserted'', JBool (sr_inserted result)), (''job_name'', JStr (sr_job_name result)),
               (''ok'', JBool True), (''record_id'', JStr (sr_record_id result)), (''replaced'', JBool (sr_replaced result))]))
           (on_store (run_url_job (ae_crypto E) (ae_lowercase E) (ae_net E) (ae_redb E) (ae_serde E) (ae_secs E)
             (sj_name job) (sj_target job) (Lifecycle_as_str (sj_lifecycle job)) (sj_ttl_secs job)) S)))"

section \<open>Storage\<close>

definition handle_storage_info :: "('sk, 'vk, 'd, 't, 'f, 'c) api_env \<Rightarrow> ('d, 'sk) api_state \<Rightarrow> ('d, 'sk) handled" where
  "handle_storage_info E S =
     (rbind (ok_or (store_record_count (ae_redb E) (ap_store S)) 0) (\<lambda>record_count.
      rbind (ok_or (store_records_size_bytes (ae_redb E) (ap_store S)) 0) (\<lambda>size_bytes.
        Ok (ok_json E [(''record_count'', json_nat (unat record_count)), (''size_bytes'', json_nat (unat size_bytes))]))), S)"

definition handle_storage_vacuum :: "('sk, 'vk, 'd, 't, 'f, 'c) api_env \<Rightarrow> ('d, 'sk) api_state \<Rightarrow> ('d, 'sk) handled" where
  "handle_storage_vacuum E S =
     (rbind (ok_or (store_record_count (ae_redb E) (ap_store S)) 0) (\<lambda>record_count.
      rbind (ok_or (store_records_size_bytes (ae_redb E) (ap_store S)) 0) (\<lambda>size_bytes.
        Ok (ok_json E [(''message'', JStr (lit ''vacuum requires stopping the node first to compact the database'')),
          (''ok'', JBool True), (''record_count'', json_nat (unat record_count)), (''size_bytes'', json_nat (unat size_bytes))]))), S)"

text \<open>The handler opens the database again, beside the handle of the running node.\<close>

definition handle_storage_export :: "('sk, 'vk, 'd, 't, 'f, 'c) api_env \<Rightarrow> HttpRequest \<Rightarrow> ('d, 'sk) api_state \<Rightarrow> ('d, 'sk) handled" where
  "handle_storage_export E req S = with_body E req S (\<lambda>body. with_field E ''path'' body S (\<lambda>output_path.
     case open_store (ae_redb E) (ae_reopened E) of
       Err e \<Rightarrow> (Ok (internal_error (ae_json E) e), S) | Panic \<Rightarrow> (Panic, S)
     | Ok d \<Rightarrow>
         (case list_records (ae_redb E) (ae_serde E) d None 1000000 of
            Err e \<Rightarrow> (Ok (internal_error (ae_json E) e), S) | Panic \<Rightarrow> (Panic, S)
          | Ok records \<Rightarrow>
              (case as_records_pretty (ae_values E) records of
                 Err e \<Rightarrow> (Ok (internal_error (ae_json E) (lit ''serialize: '' @ e)), S) | Panic \<Rightarrow> (Panic, S)
               | Ok json \<Rightarrow>
                   (case write_path output_path json S of
                      (Ok _, S) \<Rightarrow> (Ok (ok_json E [(''exported'', json_nat (length records)), (''ok'', JBool True), (''path'', JStr output_path)]), S)
                    | (Err e, S) \<Rightarrow> (Ok (internal_error (ae_json E) (lit ''write: '' @ e)), S)
                    | (Panic, S) \<Rightarrow> (Panic, S))))))"

text \<open>The loop of the import: a record that fails is counted and passed over.\<close>

fun import_records :: "'s put \<Rightarrow> ContentRecord list \<Rightarrow> counts \<Rightarrow> nat \<Rightarrow> 's \<Rightarrow> (counts \<times> nat, ustr) result \<times> 's" where
  "import_records put_rec [] c errors st = (Ok (c, errors), st)"
| "import_records put_rec (r # rs) c errors st =
     (case sanitize_record r of
        Err _ \<Rightarrow> import_records put_rec rs c (errors + 1) st | Panic \<Rightarrow> (Panic, st)
      | Ok rec \<Rightarrow> (case put_rec rec st of
            ((Ok res, _), st) \<Rightarrow> import_records put_rec rs (count res c) errors st
          | ((Err _, _), st) \<Rightarrow> import_records put_rec rs c (errors + 1) st
          | ((Panic, _), st) \<Rightarrow> (Panic, st)))"

definition handle_storage_import :: "('sk, 'vk, 'd, 't, 'f, 'c) api_env \<Rightarrow> HttpRequest \<Rightarrow> ('d, 'sk) api_state \<Rightarrow> ('d, 'sk) handled" where
  "handle_storage_import E req S = with_body E req S (\<lambda>body. with_field E ''path'' body S (\<lambda>input_path.
     case read_to_string (ap_files S input_path) of
       Err e \<Rightarrow> (Ok (internal_error (ae_json E) (lit ''read: '' @ e)), S) | Panic \<Rightarrow> (Panic, S)
     | Ok json_str \<Rightarrow>
         (case as_records_from_str (ae_values E) json_str of
            Err e \<Rightarrow> (Ok (bad_request (ae_json E) (lit ''parse: '' @ e)), S) | Panic \<Rightarrow> (Panic, S)
          | Ok records \<Rightarrow>
              apfst (\<lambda>r. rbind r (\<lambda>(c, errors). Ok (ok_json E [(''errors'', json_nat errors), (''inserted'', json_nat (ct_inserted c)),
                  (''ok'', JBool True), (''path'', JStr input_path), (''replaced'', json_nat (ct_replaced c)), (''skipped'', json_nat (ct_skipped c))])))
                (on_store (import_records (store_insert_record (ae_crypto E) (ae_redb E) (ae_serde E)) records no_counts 0) S))))"

text \<open>The answer reads the sizes first; the check evicts records when the store is over its quota.\<close>

definition handle_storage_quota :: "('sk, 'vk, 'd, 't, 'f, 'c) api_env \<Rightarrow> ('d, 'sk) api_state \<Rightarrow> ('d, 'sk) handled" where
  "handle_storage_quota E S =
     (case rbind (ok_or (store_record_count (ae_redb E) (ap_store S)) 0) (\<lambda>n.
        rbind (ok_or (store_records_size_bytes (ae_redb E) (ap_store S)) 0) (\<lambda>size_bytes. Ok (n, size_bytes))) of
        Err e \<Rightarrow> (Err e, S) | Panic \<Rightarrow> (Panic, S)
      | Ok (n, size_bytes) \<Rightarrow>
          (case on_store (store_check_quota (ae_redb E) (ae_serde E) 0) S of
             (Panic, S) \<Rightarrow> (Panic, S)
           | (r, S) \<Rightarrow> (Ok (ok_json E [(''record_count'', json_nat (unat n)), (''size_bytes'', json_nat (unat size_bytes)),
               (''within_quota'', JBool (is_ok r))]), S)))"

text \<open>\<^verbatim>\<open>trust/pow.rs\<close>. The handler also mines and verifies a solution, and drops it.\<close>

definition default_difficulty :: u8 where "default_difficulty = DEFAULT_DIFFICULTY"

definition handle_storage_pow :: "('sk, 'vk, 'd, 't, 'f, 'c) api_env \<Rightarrow> HttpResponse" where
  "handle_storage_pow E = ok_json E [(''default_difficulty'', json_nat (unat default_difficulty))]"

text \<open>The handler calls the store's maintenance methods and drops their results.\<close>

definition handle_storage_cache :: "('sk, 'vk, 'd, 't, 'f, 'c) api_env \<Rightarrow> ('d, 'sk) api_state \<Rightarrow> ('d, 'sk) handled" where
  "handle_storage_cache E S =
     (let st = clear_search_cache (invalidate_search_cache [] (ap_store S));
          ip = lit ''127.0.0.1''; self = lit ''self''; now = ae_instant E
      in case store_search_index (ae_redb E) [] None None st of Panic \<Rightarrow> (Panic, S\<lparr>ap_store := st\<rparr>) | _ \<Rightarrow>
         let st = snd (store_tier2_allow now ip st);
             st = snd (store_relay_allow now self 0 st);
             st = prune_relay now (prune_tier2 now st)
         in case rbind (store_get_record (ae_redb E) (ae_serde E) [] st) (\<lambda>found. case found of
              None \<Rightarrow> Ok () | Some record \<Rightarrow> rbind (store_verify_record (ae_crypto E) (ae_zero_key E) record) (\<lambda>_. Ok ())) of
            Panic \<Rightarrow> (Panic, S\<lparr>ap_store := st\<rparr>)
          | _ \<Rightarrow>
            let tier2_remaining = store_tier2_remaining now ip st;
                relay_remaining = store_relay_remaining now self st;
                cache_len = search_cache_len st; tier2_len = store_tier2_len st; relay_len = store_relay_len st;
                st = store_relay_record now self 0 st
            in (Ok (ok_json E [(''cache_len'', json_nat cache_len), (''relay_len'', json_nat relay_len),
                 (''relay_remaining'', json_nat (unat relay_remaining)), (''tier2_len'', json_nat tier2_len),
                 (''tier2_remaining'', json_nat (unat tier2_remaining))]), S\<lparr>ap_store := st\<rparr>))"

section \<open>Configuration, identity, bootstrap\<close>

definition handle_get_config :: "('sk, 'vk, 'd, 't, 'f, 'c) api_env \<Rightarrow> ('d, 'sk) api_state \<Rightarrow> ('d, 'sk) handled" where
  "handle_get_config E S = (answer E (load_config (ae_config_toml E) (ap_files S (data_file E ''config.toml'')))
     (\<lambda>config. ok_value E (as_config_value (ae_values E) config)), S)"

definition handle_set_config :: "('sk, 'vk, 'd, 't, 'f, 'c) api_env \<Rightarrow> HttpRequest \<Rightarrow> ('d, 'sk) api_state \<Rightarrow> ('d, 'sk) handled" where
  "handle_set_config E req S = with_body E req S (\<lambda>body. with_field E ''key'' body S (\<lambda>key. with_field E ''value'' body S (\<lambda>val.
     let p = data_file E ''config.toml''
     in case load_config (ae_config_toml E) (ap_files S p) of
          Err e \<Rightarrow> (Ok (internal_error (ae_json E) e), S) | Panic \<Rightarrow> (Panic, S)
        | Ok config \<Rightarrow>
            (case set_config_value config key val of
               Err e \<Rightarrow> (Ok (bad_request (ae_json E) e), S) | Panic \<Rightarrow> (Panic, S)
             | Ok config \<Rightarrow>
                 (case save_config (ae_config_toml E) config (ap_files S p) of
                    (r, f) \<Rightarrow> (answer E r (\<lambda>_. ok_json E [(''key'', JStr key), (''ok'', JBool True), (''value'', JStr val)]),
                      S\<lparr>ap_files := (ap_files S)(p := f)\<rparr>))))))"

definition handle_identity :: "('sk, 'vk, 'd, 't, 'f, 'c) api_env \<Rightarrow> ('d, 'sk) api_state \<Rightarrow> HttpResponse" where
  "handle_identity E S = ok_json E [(''has_identity'', JBool (file_exists (ap_files S (data_file E ''identity.key'')))),
     (''node_id'', JStr (ae_node_id E))]"

definition peer_value :: "BootstrapPeer \<Rightarrow> json" where
  "peer_value p = JObj [(lit ''addr'', JStr (bp_addr p)), (lit ''id'', JStr (bp_id p)), (lit ''note'', JStr (bp_note p))]"

definition handle_bootstrap :: "('sk, 'vk, 'd, 't, 'f, 'c) api_env \<Rightarrow> ('d, 'sk) api_state \<Rightarrow> ('d, 'sk) handled" where
  "handle_bootstrap E S =
     (rbind (resolve_bootstrap_peers (ae_udp E) (ae_bootstrap_toml E) (ap_files S (data_file E ''bootstrap.toml''))) (\<lambda>peers.
        Ok (ok_json E [(''count'', json_nat (length peers)), (''peers'', JArr (map peer_value peers))])), S)"

definition handle_openapi :: "('sk, 'vk, 'd, 't, 'f, 'c) api_env \<Rightarrow> HttpResponse" where
  "handle_openapi E = with_node_headers (ae_node_id E) (as_json (HttpResponse_json (openapi_json (ae_json E) (ae_node_id E))))"

section \<open>Changing the store\<close>

definition action_of :: "InsertResult \<Rightarrow> ustr" where
  "action_of r = (case r of Inserted \<Rightarrow> lit ''inserted'' | ReplacedNewer \<Rightarrow> lit ''replaced'' | SkippedOlder \<Rightarrow> lit ''skipped'')"

definition handle_insert_record :: "('sk, 'vk, 'd, 't, 'f, 'c) api_env \<Rightarrow> HttpRequest \<Rightarrow> ('d, 'sk) api_state \<Rightarrow> ('d, 'sk) handled" where
  "handle_insert_record E req S =
     (case record_from_json (ae_serde E) (rq_body req) of
        Err e \<Rightarrow> (Ok (bad_request (ae_json E) (lit ''invalid record JSON: '' @ e)), S) | Panic \<Rightarrow> (Panic, S)
      | Ok record \<Rightarrow>
          (case sanitize_record record of
             Err e \<Rightarrow> (Ok (bad_request (ae_json E) (lit ''sanitization failed: '' @ e)), S) | Panic \<Rightarrow> (Panic, S)
           | Ok record \<Rightarrow>
               (case on_store (store_check_quota (ae_redb E) (ae_serde E) (of_nat (str_len (cr_body record)))) S of
                  (Err e, S) \<Rightarrow> (Ok (internal_error (ae_json E) (lit ''quota check: '' @ e)), S) | (Panic, S) \<Rightarrow> (Panic, S)
                | (Ok _, S) \<Rightarrow>
                    (case on_store (store_insert_record (ae_crypto E) (ae_redb E) (ae_serde E) record) S of
                       ((r, record), S) \<Rightarrow> (answer E r (\<lambda>result.
                          ok_json E [(''action'', JStr (action_of result)), (''id'', JStr (cr_id record)), (''ok'', JBool True)]), S)))))"

definition handle_pin_record :: "('sk, 'vk, 'd, 't, 'f, 'c) api_env \<Rightarrow> HttpRequest \<Rightarrow> ('d, 'sk) api_state \<Rightarrow> ('d, 'sk) handled" where
  "handle_pin_record E req S = with_body E req S (\<lambda>body. with_field E ''id'' body S (\<lambda>i.
     apfst (\<lambda>r. answer E r (\<lambda>found.
         if found then ok_json E [(''id'', JStr i), (''ok'', JBool True), (''pinned'', JBool True)]
         else not_found (ae_json E) (lit ''record not found: '' @ i)))
       (on_store (store_pin_record (ae_redb E) (ae_secs E) i) S)))"

definition handle_unpin_record :: "('sk, 'vk, 'd, 't, 'f, 'c) api_env \<Rightarrow> HttpRequest \<Rightarrow> ('d, 'sk) api_state \<Rightarrow> ('d, 'sk) handled" where
  "handle_unpin_record E req S = with_body E req S (\<lambda>body. with_field E ''id'' body S (\<lambda>i.
     apfst (\<lambda>r. answer E r (\<lambda>removed.
         ok_json E [(''id'', JStr i), (''ok'', JBool True), (''was_pinned'', JBool removed)]))
       (on_store (store_unpin_record (ae_redb E) i) S)))"

definition handle_delete_record :: "('sk, 'vk, 'd, 't, 'f, 'c) api_env \<Rightarrow> HttpRequest \<Rightarrow> ('d, 'sk) api_state \<Rightarrow> ('d, 'sk) handled" where
  "handle_delete_record E req S = with_body E req S (\<lambda>body. with_field E ''id'' body S (\<lambda>i.
     apfst (\<lambda>r. answer E r (\<lambda>found.
         if found then ok_json E [(''deleted'', JBool True), (''id'', JStr i), (''ok'', JBool True)]
         else not_found (ae_json E) (lit ''record not found: '' @ i)))
       (on_store (store_delete_record (ae_redb E) (ae_serde E) i) S)))"

definition announcement_for :: "u64 \<Rightarrow> ContentRecord \<Rightarrow> Announcement" where
  "announcement_for now record =
     \<lparr>an_record_id = cr_id record, an_source_hash = cr_source_hash record, an_schema = cr_schema record,
      an_tags = cr_tags record, an_holder_addr = lit ''127.0.0.1:7744'',
      an_expires_at = (if cr_expires_at record = 0 then now + 86400 else cr_expires_at record), an_sig = []\<rparr>"

definition handle_announce_record :: "('sk, 'vk, 'd, 't, 'f, 'c) api_env \<Rightarrow> HttpRequest \<Rightarrow> ('d, 'sk) api_state \<Rightarrow> ('d, 'sk) handled" where
  "handle_announce_record E req S = with_body E req S (\<lambda>body. with_field E ''id'' body S (\<lambda>i.
     case store_get_record (ae_redb E) (ae_serde E) i (ap_store S) of
       Err e \<Rightarrow> (Ok (internal_error (ae_json E) e), S) | Panic \<Rightarrow> (Panic, S)
     | Ok None \<Rightarrow> (Ok (not_found (ae_json E) (lit ''record not found: '' @ i)), S)
     | Ok (Some record) \<Rightarrow>
         let id_result = store_verify_record_id (ae_crypto E) record
         in if \<not> vr_valid id_result
            then (Ok (bad_request (ae_json E) (lit ''record ID verification failed: '' @ unwrap_or (vr_reason id_result) [])), S)
            else (case on_store (store_insert_announcement (ae_crypto E) (ae_redb E) (ae_serde E) (announcement_for (ae_secs E) record)) S of
              ((r, _), S) \<Rightarrow> (answer E r (\<lambda>_. ok_json E [(''id'', JStr i), (''ok'', JBool True)]), S))))"

definition handle_sweep :: "('sk, 'vk, 'd, 't, 'f, 'c) api_env \<Rightarrow> ('d, 'sk) api_state \<Rightarrow> ('d, 'sk) handled" where
  "handle_sweep E S =
     apfst (\<lambda>r. answer E r (\<lambda>(records, announcements).
         ok_json E [(''announcements_removed'', json_nat announcements), (''ok'', JBool True), (''records_removed'', json_nat records)]))
       (on_store (store_sweep_once (ae_redb E) (ae_serde E) (ae_secs E)) S)"

section \<open>Routes\<close>

text \<open>The match: the first route that fits decides.\<close>

definition route :: "('sk, 'vk, 'd, 't, 'f, 'c) api_env \<Rightarrow> HttpRequest \<Rightarrow> ('d, 'sk) api_state \<Rightarrow> ('d, 'sk) handled" where
  "route E req S =
     (let path = rq_path req; is_get = (rq_method req = lit ''GET''); is_post = (rq_method req = lit ''POST'')
      in if is_get \<and> path = lit ''/health'' then (Ok (handle_health E), S)
         else if is_get \<and> path = lit ''/node'' then handle_node E S
         else if is_get \<and> path = lit ''/search'' then handle_search E req S
         else if is_get \<and> starts_with (lit ''/record/'') path then handle_get_record E path S
         else if is_get \<and> path = lit ''/records'' then handle_list_records E req S
         else if is_get \<and> path = lit ''/schema'' then (Ok (handle_list_schemas E), S)
         else if is_get \<and> starts_with (lit ''/schema/'') path then (Ok (handle_get_schema E path), S)
         else if is_get \<and> path = lit ''/peers'' then (Ok (handle_list_peers E S), S)
         else if is_post \<and> path = lit ''/peers/add'' then handle_add_peer E req S
         else if is_post \<and> path = lit ''/peers/ban'' then handle_ban_peer E req S
         else if is_post \<and> path = lit ''/peers/unban'' then handle_unban_peer E req S
         else if is_get \<and> path = lit ''/scraper'' then (Ok (handle_list_scrapers E), S)
         else if is_post \<and> path = lit ''/scraper/run'' then handle_run_scraper E req S
         else if is_post \<and> path = lit ''/record/insert'' then handle_insert_record E req S
         else if is_post \<and> path = lit ''/record/pin'' then handle_pin_record E req S
         else if is_post \<and> path = lit ''/record/unpin'' then handle_unpin_record E req S
         else if is_post \<and> path = lit ''/record/delete'' then handle_delete_record E req S
         else if is_post \<and> path = lit ''/record/announce'' then handle_announce_record E req S
         else if is_post \<and> path = lit ''/record/sweep'' then handle_sweep E S
         else if is_get \<and> path = lit ''/storage'' then handle_storage_info E S
         else if is_get \<and> path = lit ''/storage/quota'' then handle_storage_quota E S
         else if is_get \<and> path = lit ''/storage/pow'' then (Ok (handle_storage_pow E), S)
         else if is_get \<and> path = lit ''/storage/cache'' then handle_storage_cache E S
         else if is_post \<and> path = lit ''/storage/vacuum'' then handle_storage_vacuum E S
         else if is_post \<and> path = lit ''/storage/export'' then handle_storage_export E req S
         else if is_post \<and> path = lit ''/storage/import'' then handle_storage_import E req S
         else if is_get \<and> path = lit ''/config'' then handle_get_config E S
         else if is_post \<and> path = lit ''/config/set'' then handle_set_config E req S
         else if is_get \<and> path = lit ''/identity'' then (Ok (handle_identity E S), S)
         else if is_get \<and> path = lit ''/bootstrap'' then handle_bootstrap E S
         else if is_get \<and> path = lit ''/openapi.json'' then (Ok (handle_openapi E), S)
         else (Ok (not_found (ae_json E) (lit ''unknown route'')), S))"

end
