(* ===== verification/Sample_Json.thy ===== *)
theory Sample_Json
  imports Json
begin

text \<open>
  What the development relies on in serde_json, that a value printed parses back, and a concrete
  codec with that law, for the runs that show the hypotheses can hold.
\<close>

section \<open>The law\<close>

definition json_laws :: "json_lib \<Rightarrow> bool" where
  "json_laws L \<longleftrightarrow> (\<forall>v. \<exists>s. js_print L v = Ok s \<and> js_parse L s = Ok v) \<and>
     (\<forall>v. \<exists>s. js_pretty L v = Ok s \<and> js_parse L s = Ok v)"

section \<open>A codec\<close>

fun enc_json :: "json \<Rightarrow> ustr" where
  "enc_json JNull = [0]"
| "enc_json (JBool b) = [1, if b then 1 else 0]"
| "enc_json (JNum s) = 2 # length s # s"
| "enc_json (JStr s) = 3 # length s # s"
| "enc_json (JArr vs) = 4 # length vs # concat (map enc_json vs)"
| "enc_json (JObj ms) = 5 # length ms # concat (map (\<lambda>(k, v). length k # k @ enc_json v) ms)"

fun dec_many :: "(ustr \<Rightarrow> ('a \<times> ustr) option) \<Rightarrow> nat \<Rightarrow> ustr \<Rightarrow> ('a list \<times> ustr) option" where
  "dec_many f 0 s = Some ([], s)"
| "dec_many f (Suc k) s = (case f s of None \<Rightarrow> None | Some (x, s) \<Rightarrow>
     (case dec_many f k s of None \<Rightarrow> None | Some (xs, s) \<Rightarrow> Some (x # xs, s)))"

definition dec_member :: "(ustr \<Rightarrow> (json \<times> ustr) option) \<Rightarrow> ustr \<Rightarrow> ((ustr \<times> json) \<times> ustr) option" where
  "dec_member f s = (case s of [] \<Rightarrow> None | k # s \<Rightarrow>
     (case f (drop k s) of None \<Rightarrow> None | Some (v, r) \<Rightarrow> Some ((take k s, v), r)))"

primrec dec_json :: "nat \<Rightarrow> ustr \<Rightarrow> (json \<times> ustr) option" where
  "dec_json 0 s = None"
| "dec_json (Suc n) s = (case s of
     c # s \<Rightarrow>
       (if c = 0 then Some (JNull, s)
        else (case s of [] \<Rightarrow> None | k # s \<Rightarrow>
          if c = 1 then Some (JBool (k = 1), s)
          else if c = 2 then Some (JNum (take k s), drop k s)
          else if c = 3 then Some (JStr (take k s), drop k s)
          else if c = 4 then map_option (apfst JArr) (dec_many (dec_json n) k s)
          else map_option (apfst JObj) (dec_many (dec_member (dec_json n)) k s)))
   | [] \<Rightarrow> None)"

lemma dec_many_enc:
  "(\<And>x r. x \<in> set xs \<Longrightarrow> f (enc x @ r) = Some (x, r)) \<Longrightarrow>
     dec_many f (length xs) (concat (map enc xs) @ r) = Some (xs, r)"
  by (induction xs) auto

lemma length_concat_member: "x \<in> set xs \<Longrightarrow> length (f x) \<le> length (concat (map f xs))"
  by (induction xs) auto

lemma dec_enc_json: "length (enc_json v) \<le> n \<Longrightarrow> dec_json n (enc_json v @ r) = Some (v, r)"
proof (induction v arbitrary: n r)
  case (JArr vs)
  then obtain m where n: "n = Suc m" by (cases n) auto
  have "dec_json m (enc_json v @ r) = Some (v, r)" if "v \<in> set vs" for v r
    using JArr n that length_concat_member [OF that, of enc_json] by simp
  then show ?case using n dec_many_enc [of vs "dec_json m" enc_json r] by simp
next
  case (JObj ms)
  let ?enc = "\<lambda>(k, v). length k # k @ enc_json v"
  from JObj obtain m where n: "n = Suc m" by (cases n) auto
  have "dec_member (dec_json m) (?enc x @ r) = Some (x, r)" if "x \<in> set ms" for x r
  proof -
    obtain k v where x: "x = (k, v)" by force
    then have "dec_json m (enc_json v @ r) = Some (v, r)"
      using JObj n that length_concat_member [OF that, of ?enc] by (fastforce intro: JObj.IH)
    then show ?thesis by (simp add: x dec_member_def)
  qed
  then show ?case using n dec_many_enc [of ms "dec_member (dec_json m)" ?enc r] by simp
next
  case JNull
  then show ?case by (cases n) auto
next
  case (JBool b)
  then show ?case by (cases n) auto
next
  case (JNum s)
  then show ?case by (cases n) auto
next
  case (JStr s)
  then show ?case by (cases n) auto
qed

definition sample_json :: json_lib where
  "sample_json = \<lparr>
     js_parse = (\<lambda>s. case dec_json (length s) s of Some (v, []) \<Rightarrow> Ok v | _ \<Rightarrow> Err (lit ''expected value'')),
     js_print = (\<lambda>v. Ok (enc_json v)), js_pretty = (\<lambda>v. Ok (enc_json v))\<rparr>"

lemma sample_json_laws: "json_laws sample_json"
  using dec_enc_json [of _ _ "[]"] by (simp add: json_laws_def sample_json_def)

lemma sample_json_parse: "js_parse sample_json (enc_json v) = Ok v"
  using dec_enc_json [of _ _ "[]"] by (simp add: sample_json_def)

end
