(* ===== verification/Sample_Api.thy ===== *)
theory Sample_Api
  imports Api Sample_Json
begin

text \<open>
  An environment for the API whose libraries keep their laws: an in-memory database, the JSON
  codec, the page server of \<^verbatim>\<open>Fetch\<close> and the resolver of \<^verbatim>\<open>Dns\<close>.
\<close>

definition sample_values :: api_serde where
  "sample_values = \<lparr>as_record_value = (\<lambda>r. JStr (cr_id r)), as_job_value = (\<lambda>j. JStr (sj_name j)), as_config_value = (\<lambda>c. JNull),
     as_records_pretty = (\<lambda>rs. Ok []), as_records_from_str = (\<lambda>s. Err (lit ''expected value''))\<rparr>"

definition api_sample :: "(unit, unit, mem_db, mem_db, int, unit) api_env" where
  "api_sample = \<lparr>ae_crypto = sample_crypto, ae_redb = mem_redb, ae_serde = sample_serde, ae_vec_serde = sample_vec, ae_f64 = int_ops,
     ae_lowercase = ascii_lower, ae_uppercase = id, ae_json = sample_json, ae_values = sample_values, ae_net = page_net, ae_udp = seed_server,
     ae_bootstrap_toml = sample_toml, ae_config_toml = node_toml, ae_secs = 5, ae_instant = 0, ae_reopened = Err (lit ''already open''),
     ae_zero_key = (), ae_data_dir = lit ''/d'', ae_node_id = lit ''n1'', ae_config = DsearchConfig_default\<rparr>"

lemma api_sample_simps [simp]:
  "ae_crypto api_sample = sample_crypto" "ae_redb api_sample = mem_redb" "ae_serde api_sample = sample_serde"
  "ae_vec_serde api_sample = sample_vec" "ae_json api_sample = sample_json" "ae_lowercase api_sample = ascii_lower"
  "ae_data_dir api_sample = lit ''/d''" "ae_node_id api_sample = lit ''n1''" "ae_secs api_sample = 5" "ae_instant api_sample = 0"
  by (simp_all add: api_sample_def)

definition sample_store :: "(mem_db, unit) Store" where
  "sample_store = Store_new mem_empty plain_config"

end
