(* ===== verification/Messages.thy ===== *)
theory Messages
  imports Http
begin

text \<open>
  HTTP messages as they are written: lines that end in a carriage return and a newline, a blank
  line, and the body. The parser gives back a request that is written so, and the blank line is
  where the reader of a response finds it. Also the connection the servers answer on.
\<close>

definition clean_line :: "ustr \<Rightarrow> bool" where
  "clean_line l \<longleftrightarrow> l \<noteq> [] \<and> 10 \<notin> set l \<and> 13 \<notin> set l"

definition head_text :: "ustr list \<Rightarrow> ustr" where
  "head_text ls = concat (map (\<lambda>l. l @ [13, 10]) ls)"

lemma head_text_simps [simp]: "head_text [] = []" "head_text (l # ls) = l @ 13 # 10 # head_text ls"
  by (simp_all add: head_text_def)

section \<open>Connections\<close>

text \<open>A connection: what one read into a buffer of the given size gives, and what writing and
  flushing do.\<close>

record tcp =
  tc_read :: "nat \<Rightarrow> (bytes, ustr) result"
  tc_write :: "bytes \<Rightarrow> (unit, ustr) result"
  tc_flush :: "(unit, ustr) result"

definition send :: "tcp \<Rightarrow> bytes \<Rightarrow> (unit, ustr) result" where
  "send c bs = map_err (\<lambda>e. lit ''write: '' @ e) (tc_write c bs)"

definition send_flush :: "tcp \<Rightarrow> bytes \<Rightarrow> (unit, ustr) result" where
  "send_flush c bs = rbind (send c bs) (\<lambda>_. map_err (\<lambda>e. lit ''flush: '' @ e) (tc_flush c))"

section \<open>The blank line\<close>

lemma split_crlf:
  assumes "clean_line l" and "clean_line l'"
  shows "split_str CRLF2 (l @ 13 # 10 # l' @ s) = map_option (\<lambda>(a, b). (l @ 13 # 10 # a, b)) (split_str CRLF2 (l' @ s))"
proof -
  obtain c m where l': "l' = c # m" "c \<noteq> 13" using assms(2) by (cases l') (auto simp: clean_line_def)
  have "split_str CRLF2 (13 # 10 # l' @ s) = map_option (\<lambda>(a, b). (13 # 10 # a, b)) (split_str CRLF2 (l' @ s))"
    using l' by (cases "split_str CRLF2 (l' @ s)") (auto simp: CRLF2_def starts_with_def)
  moreover have "split_str CRLF2 (l @ 13 # 10 # l' @ s) = map_option (\<lambda>(b, r). (l @ b, r)) (split_str CRLF2 (13 # 10 # l' @ s))"
    by (rule split_str_skip) (use assms(1) in \<open>auto simp: CRLF2_def clean_line_def\<close>)
  ultimately show ?thesis by (cases "split_str CRLF2 (l' @ s)") auto
qed

lemma split_head: "list_all clean_line ls \<Longrightarrow> ls \<noteq> [] \<Longrightarrow> split_str CRLF2 (head_text ls @ 13 # 10 # b) = Some (join [13, 10] ls, b)"
proof (induction ls rule: induct_list012)
  case (2 l)
  then show ?case
    using split_str_found [of CRLF2 13 "[10, 13, 10]" l b] by (simp add: CRLF2_def clean_line_def)
next
  case (3 l l' ls)
  then show ?case using split_crlf [of l l' "13 # 10 # head_text ls @ 13 # 10 # b"] by simp
qed simp

lemma split_on_none: "c \<notin> set s \<Longrightarrow> split_on c s = [s]"
  by (induction s) auto

lemma lines_crlf: "10 \<notin> set l \<Longrightarrow> lines (l @ 13 # 10 # b) = l # lines b"
  using lines_append_newline [of "l @ [13]" b] by (simp add: split_on_none strip_cr_def)

lemma lines_head: "list_all clean_line ls \<Longrightarrow> lines (head_text ls @ s) = ls @ lines s"
  by (induction ls) (simp_all add: lines_crlf clean_line_def)

lemma lines_blank: "lines (13 # 10 # b) = [] # lines b"
  using lines_crlf [of "[]" b] by simp

lemma lines_join_hd: "clean_line l \<Longrightarrow> \<exists>ls'. lines (join [13, 10] (l # ls)) = l # ls'"
proof (cases ls)
  case Nil
  assume "clean_line l"
  then show ?thesis using Nil
    by (simp add: lines_def Let_def split_on_none clean_line_def)
next
  case (Cons l' ls')
  assume "clean_line l"
  then show ?thesis using Cons by (simp add: lines_crlf clean_line_def)
qed

section \<open>Requests\<close>

definition field_text :: "ustr \<times> ustr \<Rightarrow> ustr" where
  "field_text h = fst h @ lit '': '' @ snd h"

definition request_line :: "ustr \<Rightarrow> ustr \<Rightarrow> ustr" where
  "request_line method path = method @ 32 # path @ lit '' HTTP/1.1''"

definition request_text :: "ustr \<Rightarrow> ustr \<Rightarrow> headers \<Rightarrow> ustr \<Rightarrow> ustr" where
  "request_text method path hs body = head_text (request_line method path # map field_text hs) @ 13 # 10 # body"

definition good_field :: "ustr \<times> ustr \<Rightarrow> bool" where
  "good_field h \<longleftrightarrow> clean_line (field_text h) \<and> 58 \<notin> set (fst h) \<and> trim (fst h) = fst h \<and> trim (32 # snd h) = snd h \<and>
     str_len (snd h) \<le> 8192"

definition fields_of :: "(ustr \<Rightarrow> ustr) \<Rightarrow> headers \<Rightarrow> headers \<Rightarrow> headers" where
  "fields_of lc hs m = foldl (\<lambda>m h. AList.update (lc (fst h)) (snd h) m) m hs"

lemma lit_colon: "lit '': '' = [58, 32]"
  by (simp add: lit_def)

lemma parse_headers_text:
  "list_all good_field hs \<Longrightarrow> length m + length hs \<le> 64 \<Longrightarrow>
     parse_headers lc (map field_text hs @ [] # ls) m = Ok (fields_of lc hs m)"
proof (induction hs arbitrary: m)
  case (Cons h hs)
  have h: "field_text h \<noteq> []" "split_once 58 (field_text h) = Some (fst h, 32 # snd h)" "trim (fst h) = fst h"
      "trim (32 # snd h) = snd h" "\<not> MAX_HEADER_VALUE_LEN < str_len (snd h)"
    using Cons.prems(1) by (simp_all add: good_field_def clean_line_def field_text_def lit_colon MAX_HEADER_VALUE_LEN_def)
  have "length (AList.update (lc (fst h)) (snd h) m) + length hs \<le> 64"
    using Cons.prems(2) length_update [of "lc (fst h)" "snd h" m] by simp
  with Cons h show ?case by (simp add: MAX_HEADERS_def fields_of_def Let_def)
qed (simp add: fields_of_def)

definition good_start :: "ustr \<Rightarrow> ustr \<Rightarrow> bool" where
  "good_start method path \<longleftrightarrow> 32 \<notin> set method \<and> 10 \<notin> set method \<and> 13 \<notin> set method \<and>
     32 \<notin> set path \<and> 10 \<notin> set path \<and> 13 \<notin> set path \<and> 63 \<notin> set path \<and> validate_path (percent_decode path) = Ok ()"

lemma request_body_text:
  assumes "list_all clean_line ls" and "ls \<noteq> []"
  shows "request_body (head_text ls @ 13 # 10 # b) = hd (split_all CRLF2 b)"
proof -
  have "split_all CRLF2 (head_text ls @ 13 # 10 # b) = join [13, 10] ls # split_all CRLF2 b"
    using split_head [OF assms, of b] by (subst split_all.simps) (simp add: CRLF2_def)
  moreover have "split_all CRLF2 b \<noteq> []" by (subst split_all.simps) (simp split: option.split)
  ultimately show ?thesis by (auto simp: request_body_def neq_Nil_conv)
qed

text \<open>The path of a target and the text of its query.\<close>

definition target_parts :: "ustr \<Rightarrow> ustr \<times> ustr" where
  "target_parts t = (case split_once 63 t of Some (p, q) \<Rightarrow> (p, q) | None \<Rightarrow> (t, []))"

definition good_target :: "ustr \<Rightarrow> ustr \<Rightarrow> bool" where
  "good_target method t \<longleftrightarrow> 32 \<notin> set method \<and> 10 \<notin> set method \<and> 13 \<notin> set method \<and>
     32 \<notin> set t \<and> 10 \<notin> set t \<and> 13 \<notin> set t \<and> validate_path (percent_decode (fst (target_parts t))) = Ok ()"

lemma good_start_target: "good_start method path \<longleftrightarrow> good_target method path \<and> 63 \<notin> set path"
  by (auto simp: good_start_def good_target_def target_parts_def split: option.split dest: split_once_SomeD
      simp flip: split_once_None_iff)

text \<open>A request with at most 64 fields is parsed as it was written, but for its body, which ends at its first
  blank line.\<close>

lemma parse_target_text:
  assumes "good_target method t" and "list_all good_field hs" and "length hs \<le> 64"
    and "str_len (hd (split_all CRLF2 body)) \<le> 1048576"
    and "\<And>cl. map_of (fields_of lc hs []) (lit ''content-length'') = Some cl \<Longrightarrow>
      \<exists>n \<le> 1048576. parse_uint (2 ^ 64 - 1) cl = Some n"
  shows "parse_http_request lc (request_text method t hs body) =
    Ok \<lparr>rq_method = method, rq_path = fst (target_parts t), rq_query = parse_query_string (snd (target_parts t)),
      rq_headers = fields_of lc hs [], rq_body = hd (split_all CRLF2 body)\<rparr>"
proof -
  let ?ls = "request_line method t # map field_text hs"
  have http: "lit '' HTTP/1.1'' = 32 # lit ''HTTP/1.1''" by (simp add: lit_Cons)
  have clean_start: "clean_line (request_line method t)"
    using assms(1) by (auto simp: good_target_def clean_line_def request_line_def lit_def)
  then have clean: "list_all clean_line ?ls"
    using assms(2) by (auto simp: good_field_def list_all_iff)
  have start: "splitn3 (request_line method t) = [method, t, lit ''HTTP/1.1'']"
    using assms(1) by (simp add: splitn3_def request_line_def good_target_def http)
  have ls: "lines (request_text method t hs body) = request_line method t # map field_text hs @ [] # lines body"
    using lines_head [OF clean, of "13 # 10 # body"] lines_blank [of body] by (simp add: request_text_def)
  have body: "request_body (request_text method t hs body) = hd (split_all CRLF2 body)"
    using request_body_text [OF clean] by (simp add: request_text_def)
  have headers: "parse_headers lc (map field_text hs @ [] # lines body) [] = Ok (fields_of lc hs [])"
    using parse_headers_text [OF assms(2)] assms(3) by simp
  show ?thesis
    using assms(1,4,5)
    by (auto simp: parse_http_request_def ls start target_parts_def body headers good_target_def MAX_BODY_SIZE_def
        Let_def split: option.split)
qed

lemma parse_request_text:
  assumes "good_start method path" and "list_all good_field hs" and "length hs \<le> 64"
    and "str_len (hd (split_all CRLF2 body)) \<le> 1048576"
    and "\<And>cl. map_of (fields_of lc hs []) (lit ''content-length'') = Some cl \<Longrightarrow>
      \<exists>n \<le> 1048576. parse_uint (2 ^ 64 - 1) cl = Some n"
  shows "parse_http_request lc (request_text method path hs body) =
    Ok \<lparr>rq_method = method, rq_path = path, rq_query = [], rq_headers = fields_of lc hs [], rq_body = hd (split_all CRLF2 body)\<rparr>"
proof -
  have "target_parts path = (path, [])"
    using assms(1) by (simp add: good_start_target target_parts_def flip: split_once_None_iff)
  then show ?thesis
    using parse_target_text [OF _ assms(2-5)] assms(1) by (simp add: good_start_target parse_query_string_def)
qed

section \<open>A request\<close>

definition one_request :: "ustr \<Rightarrow> tcp" where
  "one_request s = \<lparr>tc_read = (\<lambda>n. Ok (take n (utf8 s))), tc_write = (\<lambda>_. Ok ()), tc_flush = Ok ()\<rparr>"

definition health_request :: HttpRequest where
  "health_request = \<lparr>rq_method = lit ''GET'', rq_path = lit ''/health'', rq_query = [], rq_headers = [], rq_body = []\<rparr>"

definition health_text :: ustr where
  "health_text = request_text (lit ''GET'') (lit ''/health'') [] []"

lemma health_start: "good_start (lit ''GET'') (lit ''/health'')"
  by (simp add: good_start_def validate_path_def lit_Cons)

lemma health_parsed: "parse_http_request lc health_text = Ok health_request"
proof -
  have "split_all CRLF2 [] = [[]]" by (subst split_all.simps) (simp add: CRLF2_def)
  then show ?thesis
    using parse_request_text [OF health_start, of "[]" "[]" lc] by (simp add: health_text_def health_request_def fields_of_def)
qed

lemma health_text_read: "take 65536 (utf8 health_text) \<noteq> [] \<and> from_utf8_lossy (take 65536 (utf8 health_text)) = health_text"
proof -
  have "list_all scalar health_text"
    by (simp add: health_text_def request_text_def request_line_def lit_Cons scalar_def)
  moreover have "length (utf8 health_text) \<le> 65536" "utf8 health_text \<noteq> []"
    by (simp_all add: health_text_def request_text_def request_line_def lit_Cons utf8_def utf8_char_def)
  ultimately show ?thesis by simp
qed

text \<open>A request that is accepted has no parent directory and no null in its decoded path, at most 64
  headers with values of at most 8192 bytes, a body of at most one megabyte, and, when it declares a
  length, one of at most a megabyte too.\<close>

theorem parsed_request_bounds:
  assumes "parse_http_request lc raw = Ok r"
  shows "[46, 46] \<notin> set (split_on 47 (percent_decode (rq_path r))) \<and> 0 \<notin> set (percent_decode (rq_path r)) \<and>
    length (rq_headers r) \<le> 64 \<and> (\<forall>v \<in> snd ` set (rq_headers r). str_len v \<le> 8192) \<and>
    str_len (rq_body r) \<le> 1048576 \<and>
    (\<forall>cl. map_of (rq_headers r) (lit ''content-length'') = Some cl \<longrightarrow> (\<exists>n \<le> 1048576. parse_uint (2 ^ 64 - 1) cl = Some n))"
proof -
  obtain line rest where lines: "lines raw = line # rest"
    using assms by (auto simp: parse_http_request_def split: list.splits)
  obtain path query where uri: "(case split_once 63 (splitn3 line ! 1) of Some (p, q) \<Rightarrow> (p, q) | None \<Rightarrow> (splitn3 line ! 1, [])) = (path, query)"
    by force
  obtain h where h: "validate_path (percent_decode path) = Ok ()" "parse_headers lc rest [] = Ok h"
    using assms uri by (auto simp: parse_http_request_def lines res_simps Let_def split: if_splits)
  have r: "rq_path r = path" "rq_headers r = h" "rq_body r = request_body raw" "\<not> MAX_BODY_SIZE < str_len (request_body raw)"
    using assms uri h by (auto simp: parse_http_request_def lines res_simps Let_def split: if_splits)
  have cl: "(case map_of h (lit ''content-length'') of None \<Rightarrow> True
      | Some cl \<Rightarrow> (\<exists>n \<le> 1048576. parse_uint (2 ^ 64 - 1) cl = Some n))"
    using assms uri h by (auto simp: parse_http_request_def lines res_simps Let_def MAX_BODY_SIZE_def split: if_splits option.splits)
  show ?thesis
    using h r cl parse_headers_bounds [OF h(2)]
    by (auto simp: validate_path_def MAX_BODY_SIZE_def split: if_splits option.splits)
qed

theorem parsed_request_bounds_witness:
  "\<exists>r. parse_http_request id health_text = Ok r \<and> [46, 46] \<notin> set (split_on 47 (percent_decode (rq_path r))) \<and> length (rq_headers r) \<le> 64"
  using health_parsed [of id] parsed_request_bounds [OF health_parsed [of id]] by blast

end
