(* ===== verification/Routes.thy ===== *)
theory Routes
  imports Sample_Api Messages
begin

text \<open>
  What requests to the local API do to the store and the files: every request is a sequence of
  the store's operations, which requests only read, and how the handlers compose with the scraper
  and the configuration.
\<close>

section \<open>Requests are store operations\<close>

context record_sink
begin

lemma import_records_keeps: "inv st \<Longrightarrow> inv (snd (import_records put_rec rs c errors st))"
proof (induction rs arbitrary: c errors st)
  case (Cons r rs)
  show ?case
  proof (cases "sanitize_record r")
    case (Ok rec)
    obtain x rec' st' where p: "put_rec rec st = ((x, rec'), st')" by (cases "put_rec rec st") auto
    with put_keeps [OF Cons.prems, of rec] have "inv st'" by simp
    with Cons.IH Ok p show ?thesis by (cases x) simp_all
  qed (use Cons in simp_all)
qed simp

end

text \<open>The store after some operations of its own.\<close>

interpretation step_sink: record_sink "(store_step K R J V F lc)\<^sup>*\<^sup>* st0" "store_insert_record K R J"
  for K :: "('sk, 'vk) crypto" and R :: "('d, 't) redb" and J V F lc st0
proof
  fix st :: "('d, 'sk) Store" and r
  assume "(store_step K R J V F lc)\<^sup>*\<^sup>* st0 st"
  then show "(store_step K R J V F lc)\<^sup>*\<^sup>* st0 (snd (store_insert_record K R J r st))"
    using store_step.insert by (rule rtranclp.rtrancl_into_rtrancl)
qed

definition api_steps :: "('sk, 'vk, 'd, 't, 'f, 'c) api_env \<Rightarrow> ('d, 'sk) api_state \<Rightarrow> ('d, 'sk) api_state \<Rightarrow> bool" where
  "api_steps E S S' \<longleftrightarrow> (store_step (ae_crypto E) (ae_redb E) (ae_serde E) (ae_vec_serde E) (ae_f64 E) (ae_lowercase E))\<^sup>*\<^sup>*
     (ap_store S) (ap_store S')"

lemma api_steps_refl [simp]: "api_steps E S S"
  by (simp add: api_steps_def)

lemma api_steps_same: "ap_store S' = ap_store S \<Longrightarrow> api_steps E S S'"
  by (simp add: api_steps_def)

lemma api_steps_trans: "api_steps E S S' \<Longrightarrow> api_steps E S' S'' \<Longrightarrow> api_steps E S S''"
  unfolding api_steps_def by (rule rtranclp_trans)

lemma with_body_steps: "(\<And>b. api_steps E S (snd (k b))) \<Longrightarrow> api_steps E S (snd (with_body E req S k))"
  by (simp add: with_body_def split: result.split)

lemma with_field_steps: "(\<And>x. api_steps E S (snd (k x))) \<Longrightarrow> api_steps E S (snd (with_field E name b S k))"
  by (simp add: with_field_def split: option.split)

lemma on_store_steps:
  assumes "\<And>st. (store_step (ae_crypto E) (ae_redb E) (ae_serde E) (ae_vec_serde E) (ae_f64 E) (ae_lowercase E))\<^sup>*\<^sup>* st (snd (f st))"
  shows "api_steps E S (snd (on_store f S))"
  using assms [of "ap_store S"] by (cases "f (ap_store S)") (simp add: api_steps_def on_store_def)

lemma write_keeps_store [simp]:
  "ap_store (snd (write_path p s S)) = ap_store S" "ap_store (write_values L p vs S) = ap_store S"
  by (simp_all add: write_path_def write_values_def split: prod.split result.split)

lemma run_url_job_steps: "(store_step K R J V F lc)\<^sup>*\<^sup>* st (snd (run_url_job K lc' N R J now name target lifecycle ttl st))"
proof (cases "fetch_url N target")
  case (Ok body)
  show ?thesis
  proof (cases "sanitize_record (url_record K lc' name target lifecycle ttl now body)")
    case (Ok r)
    obtain x rec st' where p: "store_insert_record K R J r st = ((x, rec), st')" by (metis prod.exhaust)
    have "(store_step K R J V F lc)\<^sup>*\<^sup>* st (snd (store_insert_record K R J r st))"
      using store_step.insert by (rule r_into_rtranclp)
    then show ?thesis using \<open>fetch_url N target = Ok body\<close> Ok p by (cases x) (simp_all add: run_url_job_def)
  qed (simp_all add: run_url_job_def Ok)
qed (simp_all add: run_url_job_def)

text \<open>The handlers that change the store.\<close>

lemma handler_steps:
  "api_steps E S (snd (handle_search E req S))"
  "api_steps E S (snd (handle_run_scraper E req S))"
  "api_steps E S (snd (handle_storage_import E req S))"
  "api_steps E S (snd (handle_pin_record E req S))"
  "api_steps E S (snd (handle_unpin_record E req S))"
  "api_steps E S (snd (handle_delete_record E req S))"
  "api_steps E S (snd (handle_sweep E S))"
proof -
  show "api_steps E S (snd (handle_search E req S))"
    by (simp add: handle_search_def Let_def) (rule on_store_steps, rule r_into_rtranclp, rule store_step.intros)
  show "api_steps E S (snd (handle_run_scraper E req S))"
    unfolding handle_run_scraper_def
    by (intro with_body_steps with_field_steps) (auto intro: on_store_steps run_url_job_steps split: option.split)
  show "api_steps E S (snd (handle_storage_import E req S))"
    unfolding handle_storage_import_def
    by (intro with_body_steps with_field_steps)
      (auto intro!: on_store_steps step_sink.import_records_keeps split: result.split)
  show "api_steps E S (snd (handle_pin_record E req S))"
    unfolding handle_pin_record_def
    by (intro with_body_steps with_field_steps) (simp, rule on_store_steps, rule r_into_rtranclp, rule store_step.intros)
  show "api_steps E S (snd (handle_unpin_record E req S))"
    unfolding handle_unpin_record_def
    by (intro with_body_steps with_field_steps) (simp, rule on_store_steps, rule r_into_rtranclp, rule store_step.intros)
  show "api_steps E S (snd (handle_delete_record E req S))"
    unfolding handle_delete_record_def
    by (intro with_body_steps with_field_steps) (simp, rule on_store_steps, rule r_into_rtranclp, rule store_step.intros)
  show "api_steps E S (snd (handle_sweep E S))"
    by (simp add: handle_sweep_def) (rule on_store_steps, rule r_into_rtranclp, rule store_step.intros)
qed

text \<open>Two calls in a row, as the insert makes after its quota check.\<close>

lemma on_store_result: "on_store f S = (r, S') \<Longrightarrow> (\<And>st. (store_step (ae_crypto E) (ae_redb E) (ae_serde E)
    (ae_vec_serde E) (ae_f64 E) (ae_lowercase E))\<^sup>*\<^sup>* st (snd (f st))) \<Longrightarrow> api_steps E S S'"
  using on_store_steps [of E f S] by (metis snd_conv)

lemma quota_steps: "on_store (store_check_quota (ae_redb E) (ae_serde E) n) S = (r, S') \<Longrightarrow> api_steps E S S'"
  by (erule on_store_result) (rule r_into_rtranclp, rule store_step.intros)

lemma insert_steps: "on_store (store_insert_record (ae_crypto E) (ae_redb E) (ae_serde E) rec) S = (r, S') \<Longrightarrow> api_steps E S S'"
  by (erule on_store_result) (rule r_into_rtranclp, rule store_step.intros)

lemma announce_steps:
  "on_store (store_insert_announcement (ae_crypto E) (ae_redb E) (ae_serde E) a) S = (r, S') \<Longrightarrow> api_steps E S S'"
  by (erule on_store_result) (rule r_into_rtranclp, rule store_step.intros)

lemma insert_record_steps: "api_steps E S (snd (handle_insert_record E req S))"
  by (auto simp: handle_insert_record_def split: result.split prod.split
      intro: quota_steps insert_steps api_steps_trans)

lemma announce_record_steps: "api_steps E S (snd (handle_announce_record E req S))"
  unfolding handle_announce_record_def
  by (intro with_body_steps with_field_steps)
    (auto simp: Let_def split: result.split option.split prod.split intro: announce_steps)

lemma storage_quota_steps: "api_steps E S (snd (handle_storage_quota E S))"
  by (auto simp: handle_storage_quota_def split: result.split prod.split intro: quota_steps)

lemma storage_cache_steps: "api_steps E S (snd (handle_storage_cache E S))"
proof -
  let ?step = "store_step (ae_crypto E) (ae_redb E) (ae_serde E) (ae_vec_serde E) (ae_f64 E) (ae_lowercase E)"
  let ?now = "ae_instant E" and ?ip = "lit ''127.0.0.1''" and ?self = "lit ''self''"
  let ?a = "clear_search_cache (invalidate_search_cache [] (ap_store S))"
  let ?b = "prune_relay ?now (prune_tier2 ?now (snd (store_relay_allow ?now ?self 0 (snd (store_tier2_allow ?now ?ip ?a)))))"
  have a: "?step\<^sup>*\<^sup>* (ap_store S) ?a" by (meson rtranclp.intros store_step.invalidate store_step.clear)
  moreover have "?step\<^sup>*\<^sup>* ?a ?b"
    by (meson rtranclp.intros store_step.tier2 store_step.relay store_step.prune2 store_step.prune_r)
  ultimately have b: "?step\<^sup>*\<^sup>* (ap_store S) ?b" by (rule rtranclp_trans)
  then have "?step\<^sup>*\<^sup>* (ap_store S) (store_relay_record ?now ?self 0 ?b)"
    using store_step.relay_rec by (rule rtranclp.rtrancl_into_rtrancl)
  with a b show ?thesis
    by (auto simp: handle_storage_cache_def Let_def api_steps_def split: result.split)
qed

text \<open>The handlers that leave the store alone.\<close>

lemma other_steps:
  "api_steps E S (snd (handle_add_peer E req S))" "api_steps E S (snd (handle_ban_peer E req S))"
  "api_steps E S (snd (handle_unban_peer E req S))" "api_steps E S (snd (handle_storage_export E req S))"
  "api_steps E S (snd (handle_set_config E req S))"
proof -
  have export: "api_steps E S S'" if "write_path p j S = (r, S')" for p j r S'
    using write_keeps_store(1) [of p j S] that by (simp add: api_steps_same)
  show "api_steps E S (snd (handle_add_peer E req S))" "api_steps E S (snd (handle_ban_peer E req S))"
    "api_steps E S (snd (handle_unban_peer E req S))"
    unfolding handle_add_peer_def handle_ban_peer_def handle_unban_peer_def
    by (intro with_body_steps with_field_steps; auto simp: Let_def intro: api_steps_same)+
  show "api_steps E S (snd (handle_storage_export E req S))"
    unfolding handle_storage_export_def
    by (intro with_body_steps with_field_steps) (auto split: result.split prod.split intro: export)
  show "api_steps E S (snd (handle_set_config E req S))"
    unfolding handle_set_config_def
    by (intro with_body_steps with_field_steps)
      (auto simp: Let_def split: result.split prod.split intro: api_steps_same)
qed

lemma reading_same:
  "snd (handle_node E S) = S" "snd (handle_get_record E path S) = S" "snd (handle_list_records E req S) = S"
  "snd (handle_storage_info E S) = S" "snd (handle_storage_vacuum E S) = S" "snd (handle_get_config E S) = S"
  "snd (handle_bootstrap E S) = S"
  by (simp_all add: handle_node_def handle_get_record_def handle_list_records_def handle_storage_info_def
      handle_storage_vacuum_def handle_get_config_def handle_bootstrap_def Let_def)

text \<open>Whatever a request asks for, and whether it is answered or panics, the store is left as some
  sequence of its public operations leaves it.\<close>

theorem request_is_store_operations:
  "(store_step (ae_crypto E) (ae_redb E) (ae_serde E) (ae_vec_serde E) (ae_f64 E) (ae_lowercase E))\<^sup>*\<^sup>*
     (ap_store S) (ap_store (snd (route E req S)))"
proof -
  have "api_steps E S (snd (route E req S))"
    by (simp add: route_def Let_def reading_same handler_steps other_steps insert_record_steps announce_record_steps
        storage_quota_steps storage_cache_steps)
  then show ?thesis by (simp add: api_steps_def)
qed

section \<open>What the record requests do\<close>

text \<open>The records that are stored, by their ids, and the ids that are pinned.\<close>

definition library_of :: "serde \<Rightarrow> contents \<Rightarrow> records \<times> ustr set" where
  "library_of J c = (stored J c, {k. c_tab c PINS_TABLE k \<noteq> None})"

datatype record_request = ReqPin ustr | ReqUnpin ustr | ReqDelete ustr | ReqAnnounce ustr | ReqSweep

text \<open>What each request is meant to do at the time \<open>now\<close>.\<close>

fun spec_request :: "u64 \<Rightarrow> record_request \<Rightarrow> records \<times> ustr set \<Rightarrow> records \<times> ustr set" where
  "spec_request now (ReqPin i) (m, P) = (m, if m i = None then P else insert i P)"
| "spec_request now (ReqUnpin i) (m, P) = (m, P - {i})"
| "spec_request now (ReqDelete i) (m, P) = (m(i := None), if m i = None then P else P - {i})"
| "spec_request now (ReqAnnounce i) (m, P) = (m, P)"
| "spec_request now ReqSweep (m, P) =
     (\<lambda>k. case m k of Some r \<Rightarrow> if k \<notin> P \<and> 0 < cr_expires_at r \<and> cr_expires_at r < now then None else Some r | None \<Rightarrow> None, P)"

text \<open>The status of the answer, for the requests that cannot fail on a database that does not.\<close>

fun spec_status :: "record_request \<Rightarrow> records \<Rightarrow> nat option" where
  "spec_status (ReqPin i) m = Some (if m i = None then 404 else 200)"
| "spec_status (ReqUnpin i) m = Some 200"
| "spec_status (ReqDelete i) m = Some (if m i = None then 404 else 200)"
| "spec_status q m = None"

fun asks_for :: "json_lib \<Rightarrow> HttpRequest \<Rightarrow> record_request \<Rightarrow> bool" where
  "asks_for L req ReqSweep \<longleftrightarrow> rq_method req = lit ''POST'' \<and> rq_path req = lit ''/record/sweep''"
| "asks_for L req (ReqPin i) \<longleftrightarrow> rq_method req = lit ''POST'' \<and> rq_path req = lit ''/record/pin'' \<and>
     (\<exists>body. js_parse L (rq_body req) = Ok body \<and> get_str ''id'' body = Some i)"
| "asks_for L req (ReqUnpin i) \<longleftrightarrow> rq_method req = lit ''POST'' \<and> rq_path req = lit ''/record/unpin'' \<and>
     (\<exists>body. js_parse L (rq_body req) = Ok body \<and> get_str ''id'' body = Some i)"
| "asks_for L req (ReqDelete i) \<longleftrightarrow> rq_method req = lit ''POST'' \<and> rq_path req = lit ''/record/delete'' \<and>
     (\<exists>body. js_parse L (rq_body req) = Ok body \<and> get_str ''id'' body = Some i)"
| "asks_for L req (ReqAnnounce i) \<longleftrightarrow> rq_method req = lit ''POST'' \<and> rq_path req = lit ''/record/announce'' \<and>
     (\<exists>body. js_parse L (rq_body req) = Ok body \<and> get_str ''id'' body = Some i)"

definition same_library :: "contents \<Rightarrow> contents \<Rightarrow> bool" where
  "same_library c c' \<longleftrightarrow> (\<forall>n \<in> {RECORDS_TABLE, SOURCE_INDEX_TABLE, PINS_TABLE}. c_tab c' n = c_tab c n)"

lemma same_library_simps [simp]: "same_library c c"
  "n \<notin> {RECORDS_TABLE, SOURCE_INDEX_TABLE, PINS_TABLE} \<Longrightarrow> same_library c (put n k v c') = same_library c c'"
  by (auto simp: same_library_def)

lemma same_library_dels: "same_library c (fold (del ANNOUNCEMENTS_TABLE) ks c)"
proof -
  have "same_library c c' \<Longrightarrow> same_library c (fold (del ANNOUNCEMENTS_TABLE) ks c')" for c'
    by (induction ks arbitrary: c') (simp_all add: same_library_def)
  then show ?thesis by simp
qed

lemma same_library_keeps:
  assumes "same_library c c'"
  shows "library_of J c' = library_of J c" "index_exact J c' = index_exact J c"
proof -
  have stored: "stored J c' = stored J c" using assms by (simp add: same_library_def stored_def fun_eq_iff)
  then show "library_of J c' = library_of J c" using assms by (simp add: library_of_def same_library_def)
  show "index_exact J c' = index_exact J c" using assms stored by (simp add: index_exact_def dedup_inv_def same_library_def)
qed

lemma announcing_same_library:
  assumes "redb_laws R vd vt"
  shows "same_library (vd (st_db st)) (vd (st_db (snd (store_insert_announcement K R J ann st))))"
proof -
  have "same_library (vd d) (vd (snd (insert_announcement R J d a)))" for d a
    by (rule settled_keeps [where P = "\<lambda>d'. same_library (vd d) (vd d')", OF settled_ops(5)])
      (use insert_announcement_Ok [OF assms] in \<open>force+\<close>)
  from this [of "st_db st"] show ?thesis
    by (auto simp: store_insert_announcement_def split: result.split prod.split) (metis snd_conv)
qed

lemma pin_library:
  assumes L: "redb_laws R vd vt" and rel: "redb_reliable R" and ex: "index_exact J (vd (st_db st))"
  shows "\<exists>st'. store_pin_record R now i st = (Ok (stored J (vd (st_db st)) i \<noteq> None), st') \<and>
    library_of J (vd (st_db st')) = spec_request now (ReqPin i) (library_of J (vd (st_db st))) \<and> index_exact J (vd (st_db st'))"
proof -
  let ?d = "st_db st"
  note r = reliable_ok [OF L rel]
  obtain b d' where ok: "pin_record R ?d now i = (Ok b, d')"
  proof -
    obtain rt where rt: "begin_read R ?d = Ok rt" "vt rt = vd ?d" using r(1) by metis
    obtain t where t: "begin_write R ?d = Ok t" using r(2) by metis
    obtain t1 where t1: "open_write R t PINS_TABLE = Ok t1" using r(5) by metis
    obtain t2 where t2: "t_insert R t1 PINS_TABLE i (to_dec (unat now)) = Ok t2" using r(7) by metis
    obtain d1 where d1: "commit R ?d t2 = Ok d1" using r(3) by metis
    show ?thesis
      using that by (cases "c_tab (vt rt) RECORDS_TABLE i") (auto simp: pin_record_def rt(1) r(4) r(6) t t1 t2 d1)
  qed
  note eff = pin_record_Ok [OF L ok]
  have inv: "dedup_inv J (vd ?d)" using ex by (simp add: index_exact_def)
  have here: "stored J (vd ?d) i \<noteq> None \<longleftrightarrow> c_tab (vd ?d) RECORDS_TABLE i \<noteq> None"
    using inv by (fastforce simp: stored_def dedup_inv_def split: option.splits result.splits)
  have "library_of J (vd d') = spec_request now (ReqPin i) (library_of J (vd ?d))"
    using eff here by (auto simp: library_of_def)
  moreover have "index_exact J (vd d')"
    using eff ex dedup_inv_del(3) [OF inv, of PINS_TABLE] by (simp add: index_exact_def)
  ultimately show ?thesis using ok eff here by (simp add: store_pin_record_def on_db_def)
qed

lemma unpin_library:
  assumes L: "redb_laws R vd vt" and rel: "redb_reliable R" and ex: "index_exact J (vd (st_db st))"
  shows "\<exists>b st'. store_unpin_record R i st = (Ok b, st') \<and>
    library_of J (vd (st_db st')) = spec_request now (ReqUnpin i) (library_of J (vd (st_db st))) \<and> index_exact J (vd (st_db st'))"
proof -
  let ?d = "st_db st"
  note r = reliable_ok [OF L rel]
  obtain b d' where ok: "unpin_record R ?d i = (Ok b, d')"
  proof -
    obtain t where t: "begin_write R ?d = Ok t" using r(2) by metis
    obtain t1 where t1: "open_write R t PINS_TABLE = Ok t1" using r(5) by metis
    obtain v t2 where t2: "t_remove R t1 PINS_TABLE i = Ok (v, t2)" using r(8) by metis
    obtain d1 where d1: "commit R ?d t2 = Ok d1" using r(3) by metis
    show ?thesis using that by (simp add: unpin_record_def t t1 t2 d1)
  qed
  note eff = unpin_record_Ok [OF L ok]
  have inv: "dedup_inv J (vd ?d)" using ex by (simp add: index_exact_def)
  have "library_of J (vd d') = spec_request now (ReqUnpin i) (library_of J (vd ?d))"
    using eff by (auto simp: library_of_def)
  moreover have "index_exact J (vd d')"
    using eff ex dedup_inv_del(4) [OF inv, of PINS_TABLE] by (simp add: index_exact_def)
  ultimately show ?thesis using ok by (simp add: store_unpin_record_def on_db_def)
qed

lemma delete_library:
  assumes L: "redb_laws R vd vt" and rel: "redb_reliable R" and ex: "index_exact J (vd (st_db st))"
  shows "\<exists>st'. store_delete_record R J i st = (Ok (stored J (vd (st_db st)) i \<noteq> None), st') \<and>
    library_of J (vd (st_db st')) = spec_request now (ReqDelete i) (library_of J (vd (st_db st))) \<and> index_exact J (vd (st_db st'))"
proof -
  let ?d = "st_db st" and ?found = "stored J (vd (st_db st)) i"
  have g: "get_record R J ?d i = Ok ?found" using get_record_reliable [OF L rel] ex by (simp add: index_exact_def)
  obtain d1 where d1: "delete_record R J ?d i = (Ok (?found \<noteq> None), d1)" "stored J (vd d1) = (stored J (vd ?d))(i := None)"
      "index_exact J (vd d1)"
    using delete_record_reliable [OF L rel ex] by blast
  have pins: "c_tab (vd d1) PINS_TABLE = (if ?found = None then c_tab (vd ?d) PINS_TABLE else (c_tab (vd ?d) PINS_TABLE)(i := None))"
    using delete_record_Ok [OF L d1(1)] by (auto simp: drop_rec_def split: if_splits)
  have lib: "library_of J (vd d1) = spec_request now (ReqDelete i) (library_of J (vd ?d))"
    using d1(2) pins by (auto simp: library_of_def)
  show ?thesis
  proof (cases ?found)
    case None
    then show ?thesis using g d1 lib by (simp add: store_delete_record_def)
  next
    case (Some x)
    obtain d2 where d2: "deindex_record R d1 (cr_id x) (cr_schema x) (cr_tags x) = (Ok (), d2)"
      using deindex_record_reliable [OF L rel] by blast
    have "same_library (vd d1) (vd d2)"
      using deindex_record_only [OF L, of d1 "cr_id x" "cr_schema x" "cr_tags x"] d2 by (simp add: only_index_def same_library_def)
    from same_library_keeps [OF this] show ?thesis using g d1 lib d2 Some by (simp add: store_delete_record_def)
  qed
qed

lemma sweep_library:
  assumes L: "redb_laws R vd vt" and rel: "redb_reliable R" and ex: "index_exact J (vd (st_db st))"
  shows "library_of J (vd (st_db (snd (store_sweep_once R J now st)))) = spec_request now ReqSweep (library_of J (vd (st_db st))) \<and>
    index_exact J (vd (st_db (snd (store_sweep_once R J now st))))"
proof -
  let ?d = "st_db st"
  obtain n d1 where d1: "delete_expired_records R J ?d now = (Ok n, d1)"
      "stored J (vd d1) = (\<lambda>k. if k \<in> expired_keys J now (vd ?d) then None else stored J (vd ?d) k)"
      "c_tab (vd d1) PINS_TABLE = c_tab (vd ?d) PINS_TABLE" "index_exact J (vd d1)"
    using delete_expired_reliable [OF L rel ex] by blast
  obtain a d2 where d2: "delete_expired_announcements R J d1 now = (a, d2)" by force
  have "same_library (vd d1) (vd (snd (delete_expired_announcements R J d1 now)))"
    by (rule settled_keeps [where P = "\<lambda>d'. same_library (vd d1) (vd d')", OF settled_ops(7)])
      (use delete_expired_announcements_Ok [OF L] same_library_dels in \<open>fastforce+\<close>)
  then have same: "same_library (vd d1) (vd d2)" by (simp add: d2)
  have "library_of J (vd d1) = spec_request now ReqSweep (library_of J (vd ?d))"
    by (auto simp: library_of_def d1(2,3) expired_keys_def is_expired_def fun_eq_iff split: option.split)
  moreover have "st_db (snd (store_sweep_once R J now st)) = d2"
    using d1(1) d2 by (cases a) (simp_all add: store_sweep_once_def on_db_def sweep_once_def)
  ultimately show ?thesis using same_library_keeps [OF same] d1(4) by simp
qed

text \<open>C24: On a database that does not fail, a request about a record does to the records and to the set of pinned ids what it
  says: pinning adds the id of a stored record to the pinned ones, unpinning takes an id out, deleting removes the
  record and its pin, a sweep removes exactly the records that have expired and are not pinned, and announcing changes
  neither; pinning and deleting answer 404 when there is no such record and 200 otherwise.\<close>

theorem record_requests_refine:
  assumes "redb_laws (ae_redb E) vd vt" and "redb_reliable (ae_redb E)" and "index_exact (ae_serde E) (vd (st_db (ap_store S)))"
    and "asks_for (ae_json E) req q"
  shows "case route E req S of (r, S') \<Rightarrow>
    library_of (ae_serde E) (vd (st_db (ap_store S'))) = spec_request (ae_secs E) q (library_of (ae_serde E) (vd (st_db (ap_store S)))) \<and>
    index_exact (ae_serde E) (vd (st_db (ap_store S'))) \<and>
    (\<forall>n. spec_status q (stored (ae_serde E) (vd (st_db (ap_store S)))) = Some n \<longrightarrow> (\<exists>resp. r = Ok resp \<and> rp_status resp = n))"
proof -
  let ?R = "ae_redb E" and ?J = "ae_serde E" and ?c = "vd (st_db (ap_store S))"
  have ok: "rp_status (ok_json E ms) = 200" "rp_status (not_found (ae_json E) e) = 404" for ms e
    by (simp_all add: ok_json_def with_node_headers_def add_header_def HttpResponse_json_def HttpResponse_ok_def as_json_def
        HttpResponse_new_def not_found_def)
  show ?thesis
  proof (cases q)
    case (ReqPin i)
    obtain st' where st': "store_pin_record ?R (ae_secs E) i (ap_store S) = (Ok (stored ?J ?c i \<noteq> None), st')"
        "library_of ?J (vd (st_db st')) = spec_request (ae_secs E) (ReqPin i) (library_of ?J ?c)" "index_exact ?J (vd (st_db st'))"
      using pin_library [OF assms(1-3)] by blast
    with assms(4) ReqPin ok show ?thesis
      by (auto simp: route_def Let_def handle_pin_record_def with_body_def with_field_def on_store_def st'(1) answer_def)
  next
    case (ReqUnpin i)
    obtain b st' where st': "store_unpin_record ?R i (ap_store S) = (Ok b, st')"
        "library_of ?J (vd (st_db st')) = spec_request (ae_secs E) (ReqUnpin i) (library_of ?J ?c)" "index_exact ?J (vd (st_db st'))"
      using unpin_library [OF assms(1-3)] by blast
    with assms(4) ReqUnpin ok show ?thesis
      by (auto simp: route_def Let_def handle_unpin_record_def with_body_def with_field_def on_store_def st'(1) answer_def)
  next
    case (ReqDelete i)
    obtain st' where st': "store_delete_record ?R ?J i (ap_store S) = (Ok (stored ?J ?c i \<noteq> None), st')"
        "library_of ?J (vd (st_db st')) = spec_request (ae_secs E) (ReqDelete i) (library_of ?J ?c)" "index_exact ?J (vd (st_db st'))"
      using delete_library [OF assms(1-3)] by blast
    with assms(4) ReqDelete ok show ?thesis
      by (auto simp: route_def Let_def handle_delete_record_def with_body_def with_field_def on_store_def st'(1) answer_def)
  next
    case (ReqAnnounce i)
    have "same_library ?c (vd (st_db st'))"
      if "store_insert_announcement (ae_crypto E) ?R ?J ann (ap_store S) = (x, st')" for ann x st'
      using announcing_same_library [OF assms(1), of "ap_store S" "ae_crypto E" ?J ann] that by simp
    then have "same_library ?c (vd (st_db (ap_store (snd (handle_announce_record E req S)))))"
      by (auto simp: handle_announce_record_def with_body_def with_field_def Let_def on_store_def split: result.split option.split prod.split)
    moreover obtain r S' where "handle_announce_record E req S = (r, S')" by force
    moreover have "spec_request (ae_secs E) (ReqAnnounce i) lib = lib" for lib by (cases lib) simp
    ultimately show ?thesis
      using same_library_keeps [of ?c "vd (st_db (ap_store S'))"] assms(3,4) ReqAnnounce by (simp add: route_def Let_def)
  next
    case ReqSweep
    then show ?thesis
      using sweep_library [OF assms(1-3), of "ae_secs E"] assms(4)
      by (auto simp: route_def Let_def handle_sweep_def on_store_def split: prod.split)
  qed
qed

definition delete_request :: "ustr \<Rightarrow> HttpRequest" where
  "delete_request i = health_request\<lparr>rq_method := lit ''POST'', rq_path := lit ''/record/delete'',
     rq_body := enc_json (JObj [(lit ''id'', JStr i)])\<rparr>"

theorem record_requests_refine_witness:
  "\<exists>resp S'. route api_sample (delete_request (lit ''r1'')) \<lparr>ap_store = Store_new (mem_records [rec_of ''r1'' ''h1'' 5 6]) plain_config,
      ap_files = (\<lambda>_. plain_file None)\<rparr> = (Ok resp, S') \<and> rp_status resp = 200 \<and>
    fst (library_of sample_serde (mem_view (st_db (ap_store S')))) = Map.empty"
proof -
  let ?S = "\<lparr>ap_store = Store_new (mem_records [rec_of ''r1'' ''h1'' 5 6]) plain_config, ap_files = (\<lambda>_. plain_file None)\<rparr>"
  have ex: "index_exact (ae_serde api_sample) (mem_view (st_db (ap_store ?S)))"
    using mem_records_exact [of "[rec_of ''r1'' ''h1'' 5 6]"] by (simp add: Store_new_def)
  have "asks_for (ae_json api_sample) (delete_request (lit ''r1'')) (ReqDelete (lit ''r1''))"
    by (simp add: delete_request_def get_str_def sample_json_parse del: enc_json.simps)
  note claim = record_requests_refine [where E = api_sample and S = ?S and vd = mem_view and vt = mem_view, OF _ _ ex this]
  have st: "stored sample_serde (mem_view (mem_records [rec_of ''r1'' ''h1'' 5 6])) = [lit ''r1'' \<mapsto> rec_of ''r1'' ''h1'' 5 6]"
    by (rule ext) (simp add: stored_mem_records)
  obtain x S' where x: "route api_sample (delete_request (lit ''r1'')) ?S = (x, S')" by force
  have db: "st_db (ap_store ?S) = mem_records [rec_of ''r1'' ''h1'' 5 6]" by (simp add: Store_new_def)
  from claim [unfolded x db prod.case api_sample_simps st library_of_def] mem_redb_laws mem_redb_reliable x
  show ?thesis by (simp add: library_of_def)
qed

text \<open>A GET request reads: it leaves the store and the files as they are, but for a search, which
  fills the cache, and the two routes that are not what they seem, the quota and the cache.\<close>

theorem get_requests_read:
  assumes "rq_method req = lit ''GET''" and "rq_path req \<notin> {lit ''/search'', lit ''/storage/quota'', lit ''/storage/cache''}"
  shows "snd (route E req S) = S"
  using assms by (simp add: route_def Let_def reading_same)

theorem get_requests_read_witness:
  "snd (route api_sample health_request S) = S"
  by (rule get_requests_read) (simp_all add: health_request_def)

section \<open>Bans\<close>

text \<open>The identifiers that the ban file bans.\<close>

definition banned_ids :: "json_lib \<Rightarrow> text_file \<Rightarrow> ustr set" where
  "banned_ids L f = {i. \<exists>b \<in> set (read_values L f). is_ban_of i b}"

definition ban_file :: "('sk, 'vk, 'd, 't, 'f, 'c) api_env \<Rightarrow> ('d, 'sk) api_state \<Rightarrow> text_file" where
  "ban_file E S = ap_files S (data_file E ''banned_peers.json'')"

definition peer_request :: "string \<Rightarrow> HttpRequest \<Rightarrow> ustr \<Rightarrow> json_lib \<Rightarrow> bool" where
  "peer_request path req i L \<longleftrightarrow> rq_method req = lit ''POST'' \<and> rq_path req = lit path \<and>
     (\<exists>body. js_parse L (rq_body req) = Ok body \<and> get_str ''peer_id'' body = Some i)"

lemma write_values_read:
  assumes "json_laws L" and "fl_write_error (ap_files S p) = None" and "fl_read_error (ap_files S p) = None"
  shows "read_values L (ap_files (write_values L p vs S) p) = vs" "file_exists (ap_files (write_values L p vs S) p)"
    "fl_write_error (ap_files (write_values L p vs S) p) = None" "fl_read_error (ap_files (write_values L p vs S) p) = None"
proof -
  obtain s where "js_pretty L (JArr vs) = Ok s" "js_parse L s = Ok (JArr vs)" using assms(1) unfolding json_laws_def by blast
  with assms(2,3) show "read_values L (ap_files (write_values L p vs S) p) = vs" "file_exists (ap_files (write_values L p vs S) p)"
    "fl_write_error (ap_files (write_values L p vs S) p) = None" "fl_read_error (ap_files (write_values L p vs S) p) = None"
    by (simp_all add: write_values_def write_path_def write_file_def read_values_def values_of_def file_exists_def read_to_string_def)
qed

lemma is_ban_of_new: "is_ban_of i (JObj [(lit ''peer_id'', JStr j)]) \<longleftrightarrow> i = j"
  by (auto simp: is_ban_of_def get_str_def)

lemma ban_handled:
  assumes "js_parse (ae_json E) (rq_body req) = Ok body" and "get_str ''peer_id'' body = Some i"
  shows "\<exists>resp. handle_ban_peer E req S = (Ok resp,
    let p = data_file E ''banned_peers.json''; vs = read_values (ae_json E) (ap_files S p)
    in if list_ex (is_ban_of i) vs then S else write_values (ae_json E) p (vs @ [JObj [(lit ''peer_id'', JStr i)]]) S)"
  using assms by (simp add: handle_ban_peer_def with_body_def with_field_def Let_def)

lemma unban_handled:
  assumes "js_parse (ae_json E) (rq_body req) = Ok body" and "get_str ''peer_id'' body = Some i"
  shows "\<exists>resp. handle_unban_peer E req S = (Ok resp,
    let p = data_file E ''banned_peers.json''
    in if file_exists (ap_files S p) then write_values (ae_json E) p (filter (\<lambda>b. \<not> is_ban_of i b) (read_values (ae_json E) (ap_files S p))) S
       else S)"
  using assms by (simp add: handle_unban_peer_def with_body_def with_field_def Let_def)

lemma bans_without: "{j. \<exists>b \<in> set (filter (\<lambda>b. \<not> is_ban_of i b) vs). is_ban_of j b} = {j. \<exists>b \<in> set vs. is_ban_of j b} - {i}"
  by (auto simp: is_ban_of_def)

lemma bans_with: "{j. \<exists>b \<in> set (vs @ [JObj [(lit ''peer_id'', JStr i)]]). is_ban_of j b} = insert i {j. \<exists>b \<in> set vs. is_ban_of j b}"
  by (auto simp: is_ban_of_new)

text \<open>C29: On a ban file that can be read and written, banning a peer inserts its identifier into the set of the banned ones and
  unbanning it removes it, whatever the file held before, and neither touches the store.\<close>

theorem ban_refines_set:
  assumes "json_laws (ae_json E)" and "fl_write_error (ban_file E S) = None" and "fl_read_error (ban_file E S) = None"
    and "peer_request path req i (ae_json E)" and "path = ''/peers/ban'' \<or> path = ''/peers/unban''"
  shows "case route E req S of (r, S') \<Rightarrow> is_ok r \<and> ap_store S' = ap_store S \<and>
    banned_ids (ae_json E) (ban_file E S') =
      (if path = ''/peers/ban'' then insert i (banned_ids (ae_json E) (ban_file E S)) else banned_ids (ae_json E) (ban_file E S) - {i})"
proof -
  let ?p = "data_file E ''banned_peers.json''" and ?L = "ae_json E"
  let ?bans = "read_values ?L (ap_files S ?p)"
  obtain body where req: "rq_method req = lit ''POST''" "rq_path req = lit path" "js_parse ?L (rq_body req) = Ok body"
      "get_str ''peer_id'' body = Some i"
    using assms(4) by (auto simp: peer_request_def)
  have written: "read_values ?L (ap_files (write_values ?L ?p vs S) ?p) = vs" for vs
    using write_values_read(1) [OF assms(1)] assms(2,3) by (simp add: ban_file_def)
  consider "path = ''/peers/ban''" | "path = ''/peers/unban''" using assms(5) by blast
  then show ?thesis
  proof cases
    case 1
    then have route: "route E req S = handle_ban_peer E req S" using req(1,2) by (simp add: route_def Let_def)
    obtain resp where h: "handle_ban_peer E req S = (Ok resp, if list_ex (is_ban_of i) ?bans then S
        else write_values ?L ?p (?bans @ [JObj [(lit ''peer_id'', JStr i)]]) S)"
      using ban_handled [OF req(3,4), of S] by (auto simp: Let_def)
    show ?thesis
    proof (cases "list_ex (is_ban_of i) ?bans")
      case True
      then have "i \<in> banned_ids ?L (ban_file E S)" by (simp add: banned_ids_def ban_file_def list_ex_iff)
      with True show ?thesis using 1 by (simp add: route h insert_absorb)
    next
      case False
      then show ?thesis using 1 by (simp only: route h banned_ids_def ban_file_def) (simp add: written bans_with del: set_append)
    qed
  next
    case 2
    then have route: "route E req S = handle_unban_peer E req S" using req(1,2) by (simp add: route_def Let_def)
    obtain resp where h: "handle_unban_peer E req S = (Ok resp, if file_exists (ap_files S ?p)
        then write_values ?L ?p (filter (\<lambda>b. \<not> is_ban_of i b) ?bans) S else S)"
      using unban_handled [OF req(3,4), of S] by (auto simp: Let_def)
    show ?thesis
    proof (cases "file_exists (ap_files S ?p)")
      case True
      then show ?thesis using 2 by (simp only: route h banned_ids_def ban_file_def) (simp add: written bans_without del: set_filter)
    next
      case False
      then have "?bans = []" by (simp add: read_values_def)
      with False show ?thesis using 2 by (simp add: route h banned_ids_def ban_file_def)
    qed
  qed
qed

definition ban_request :: HttpRequest where
  "ban_request = health_request\<lparr>rq_method := lit ''POST'', rq_path := lit ''/peers/ban'',
     rq_body := enc_json (JObj [(lit ''peer_id'', JStr (lit ''p1''))])\<rparr>"

theorem ban_refines_set_witness:
  "banned_ids sample_json (ban_file api_sample (snd (route api_sample ban_request
     \<lparr>ap_store = sample_store, ap_files = (\<lambda>_. plain_file None)\<rparr>))) = {lit ''p1''}"
proof -
  let ?S = "\<lparr>ap_store = sample_store, ap_files = (\<lambda>_. plain_file None)\<rparr>"
  let ?body = "JObj [(lit ''peer_id'', JStr (lit ''p1''))]"
  have "peer_request ''/peers/ban'' ban_request (lit ''p1'') sample_json"
    by (simp add: peer_request_def ban_request_def get_str_def sample_json_parse del: enc_json.simps)
  moreover have "banned_ids sample_json (ban_file api_sample ?S) = {}"
    by (simp add: banned_ids_def ban_file_def read_values_def)
  ultimately show ?thesis
    using ban_refines_set [of api_sample ?S "''/peers/ban''" ban_request "lit ''p1''"] sample_json_laws
    by (auto simp: ban_file_def plain_file_def split: prod.splits)
qed

section \<open>Announcing a scraped record\<close>

definition announce_request :: "HttpRequest \<Rightarrow> ustr \<Rightarrow> json_lib \<Rightarrow> bool" where
  "announce_request req i L \<longleftrightarrow> rq_method req = lit ''POST'' \<and> rq_path req = lit ''/record/announce'' \<and>
     (\<exists>body. js_parse L (rq_body req) = Ok body \<and> get_str ''id'' body = Some i)"

text \<open>The API refuses to announce what the node's own scraper stored: the handler verifies the identifier first, and the
  identifier of a scraped record does not verify, but for a collision of the hash.\<close>

theorem scraped_record_not_announced:
  assumes "r = url_record (ae_crypto E) lc name target lifecycle ttl now body \<or> r = feed_record (ae_crypto E) lc name ttl now entry"
    and "sanitize_record r = Ok rec" and "list_all short (scraped_fields r)" and "list_all short (verified_fields rec)"
    and "store_get_record (ae_redb E) (ae_serde E) (cr_id rec) (ap_store S) = Ok (Some (rec\<lparr>cr_sig := s\<rparr>))"
    and "announce_request req (cr_id rec) (ae_json E)"
    and "blake3 (ae_crypto E) (canonical_encode_fields (scraped_fields r)) \<noteq> blake3 (ae_crypto E) (canonical_encode_fields (verified_fields rec))"
  shows "\<exists>resp. route E req S = (Ok resp, S) \<and> rp_status resp = 400"
proof -
  have "store_verify_record_id (ae_crypto E) (rec\<lparr>cr_sig := s\<rparr>) = store_verify_record_id (ae_crypto E) rec"
    by (simp add: store_verify_record_id_def)
  then have "\<not> vr_valid (store_verify_record_id (ae_crypto E) (rec\<lparr>cr_sig := s\<rparr>))"
    using scraped_id_mismatch [OF assms(1-4)] assms(7) by simp
  moreover have "route E req S = handle_announce_record E req S"
    using assms(6) by (auto simp: announce_request_def route_def Let_def)
  ultimately show ?thesis
    using assms(5,6)
    by (auto simp: announce_request_def handle_announce_record_def with_body_def with_field_def Let_def bad_request_def as_json_def
        add_header_def HttpResponse_new_def)
qed

definition page_state :: "(mem_db, unit) api_state" where
  "page_state = \<lparr>ap_store = Store_new (mem_records [page_record]) plain_config, ap_files = (\<lambda>_. plain_file None)\<rparr>"

definition page_announce :: HttpRequest where
  "page_announce = health_request\<lparr>rq_method := lit ''POST'', rq_path := lit ''/record/announce'',
     rq_body := enc_json (JObj [(lit ''id'', JStr (cr_id page_record))])\<rparr>"

lemma page_no_collision:
  "blake3 sample_crypto (canonical_encode_fields (scraped_fields page_record)) \<noteq>
     blake3 sample_crypto (canonical_encode_fields (verified_fields page_record))"
proof -
  have "sum_list (canonical_encode_fields (verified_fields page_record)) = sum_list (canonical_encode_fields (scraped_fields page_record)) + 112"
    by (simp add: canonical_encode_concat scraped_fields_def verified_fields_def encode_field_def be32_def page_record_simps lit_Cons
        utf8_def utf8_char_def)
  then show ?thesis by (simp add: sample_crypto_def sample_digest_def)
qed

theorem scraped_record_not_announced_witness:
  "\<exists>resp. route api_sample page_announce page_state = (Ok resp, page_state) \<and> rp_status resp = 400"
proof -
  have "store_get_record mem_redb sample_serde (cr_id page_record) (ap_store page_state) = Ok (Some (page_record\<lparr>cr_sig := cr_sig page_record\<rparr>))"
    by (simp add: store_get_record_def get_record_def page_state_def Store_new_def mem_records_def)
  moreover have "announce_request page_announce (cr_id page_record) sample_json"
    by (simp add: announce_request_def page_announce_def get_str_def sample_json_parse del: enc_json.simps)
  moreover have "page_record = url_record (ae_crypto api_sample) id (lit ''job'') (lit ''http://a/'') (lit ''pinned'') 60 5 (lit ''page'')"
    by (simp add: page_record_def)
  ultimately show ?thesis
    using scraped_record_not_announced [OF disjI1 _ page_short, of api_sample id "lit ''job''" "lit ''http://a/''" "lit ''pinned''" 60 5
        "lit ''page''" page_state "cr_sig page_record" page_announce] page_sanitized page_no_collision
    by simp
qed

end
