(* ===== verification/Local.thy ===== *)
theory Local
  imports Sample_Api Messages
begin

text \<open>
  \<^verbatim>\<open>src/src/api/local.rs\<close>: the server of the local API, which looks for a free port, writes it
  to \<^verbatim>\<open>api.port\<close>, and answers one request on each connection. Binding and the socket are parameters;
  at most 100 connections are handled at once, which tokio's semaphore sees to.
\<close>

section \<open>The server\<close>

fun try_ports :: "(u16 \<Rightarrow> (unit, ustr) result) \<Rightarrow> u16 list \<Rightarrow> u16 option" where
  "try_ports bind_port [] = None"
| "try_ports bind_port (port # ports) = (case bind_port port of Ok _ \<Rightarrow> Some port | _ \<Rightarrow> try_ports bind_port ports)"

text \<open>The last port is a sum of 16 bits.\<close>

definition port_range :: "u16 \<Rightarrow> u16 list" where
  "port_range start_port = (let max_port = start_port + 10 in map of_nat [unat start_port ..< Suc (unat max_port)])"

definition start_api_server :: "(u16 \<Rightarrow> (unit, ustr) result) \<Rightarrow> u16 \<Rightarrow> text_file \<Rightarrow> (u16, ustr) result \<times> text_file" where
  "start_api_server bind_port start_port f =
     (case try_ports bind_port (port_range start_port) of
        None \<Rightarrow> (Err (lit ''No available port in range '' @ to_dec (unat start_port) @ [45] @ to_dec (unat (start_port + 10)) @
          lit '' for local API''), f)
      | Some actual_port \<Rightarrow>
          apfst (\<lambda>r. rbind (map_err (\<lambda>e. lit ''write api.port: '' @ e) r) (\<lambda>_. Ok actual_port))
            (write_file (to_dec (unat actual_port)) f))"

text \<open>The handler's result, the response it wrote, and the state after it.\<close>

definition handle_api_connection :: "('sk, 'vk, 'd, 't, 'f, 'c) api_env \<Rightarrow> (headers \<Rightarrow> headers) \<Rightarrow> tcp \<Rightarrow> ('d, 'sk) api_state
    \<Rightarrow> (unit, ustr) result \<times> HttpResponse option \<times> ('d, 'sk) api_state" where
  "handle_api_connection E order c S =
     (case map_err (\<lambda>e. lit ''read: '' @ e) (tc_read c 65536) of
        Err e \<Rightarrow> (Err e, None, S) | Panic \<Rightarrow> (Panic, None, S)
      | Ok buf \<Rightarrow>
          if buf = [] then (Ok (), None, S)
          else case parse_http_request (ae_lowercase E) (from_utf8_lossy buf) of
            Err e \<Rightarrow> (Err e, None, S) | Panic \<Rightarrow> (Panic, None, S)
          | Ok req \<Rightarrow>
              (case route E req S of
                 (Ok resp, S) \<Rightarrow> (send_flush c (to_bytes (ae_lowercase E) order resp), Some resp, S)
               | (Err e, S) \<Rightarrow> (Err e, None, S) | (Panic, S) \<Rightarrow> (Panic, None, S)))"

section \<open>Ports\<close>

lemma try_ports_Some: "try_ports b ps = Some p \<Longrightarrow> \<exists>qs rs. ps = qs @ p # rs \<and> (\<forall>q \<in> set qs. \<not> is_ok (b q)) \<and> is_ok (b p)"
proof (induction ps)
  case (Cons q ps)
  show ?case
  proof (cases "is_ok (b q)")
    case True
    with Cons.prems have "p = q" by (auto simp: is_ok_def split: result.splits)
    with True show ?thesis by (metis append_Nil empty_iff list.set(1))
  next
    case False
    with Cons.prems have "try_ports b ps = Some p" by (auto simp: is_ok_def split: result.splits)
    with Cons.IH obtain qs rs where "ps = qs @ p # rs" "\<forall>q \<in> set qs. \<not> is_ok (b q)" "is_ok (b p)" by blast
    with False have "q # ps = (q # qs) @ p # rs \<and> (\<forall>x \<in> set (q # qs). \<not> is_ok (b x)) \<and> is_ok (b p)" by simp
    then show ?thesis by blast
  qed
qed simp

lemma try_ports_None: "try_ports b ps = None \<longleftrightarrow> (\<forall>p \<in> set ps. \<not> is_ok (b p))"
  by (induction ps) (auto simp: is_ok_def split: result.split)

lemma port_range_simp:
  assumes "unat start_port \<le> 65525"
  shows "port_range start_port = map (\<lambda>i. start_port + of_nat i) [0 ..< 11]"
proof -
  have "unat (start_port + 10) = unat start_port + 10"
    using assms unat_add_lem [of start_port 10] by simp
  then have "Suc (unat (start_port + 10)) = unat start_port + 11" by simp
  then have "port_range start_port = map of_nat [unat start_port ..< unat start_port + 11]"
    by (simp only: port_range_def Let_def)
  also have "\<dots> = map (\<lambda>i. start_port + of_nat i) [0 ..< 11]"
    by (rule nth_equalityI) simp_all
  finally show ?thesis .
qed

lemma port_range_empty: "65525 < unat start_port \<Longrightarrow> port_range start_port = []"
proof -
  assume s: "65525 < unat start_port"
  have "unat (start_port + 10) = (unat start_port + 10) mod 65536"
    by (simp add: unat_word_ariths)
  moreover have "unat start_port < 65536" using unsigned_less [of start_port] by simp
  ultimately have "unat (start_port + 10) < unat start_port" using s by (simp add: mod_if)
  then show ?thesis by (simp add: port_range_def Let_def)
qed

section \<open>The headers of the answers\<close>

text \<open>No answer can be taken for two, or for a header of its own: no header has a line break in it.\<close>

definition known_statuses :: "(nat \<times> ustr) list" where
  "known_statuses = [(200, lit ''OK''), (400, lit ''Bad Request''), (404, lit ''Not Found''), (405, lit ''Method Not Allowed''),
     (500, lit ''Internal Server Error'')]"

definition clean_resp :: "HttpResponse \<Rightarrow> bool" where
  "clean_resp resp \<longleftrightarrow> (rp_status resp, rp_status_text resp) \<in> set known_statuses \<and>
     (\<forall>h \<in> set (rp_headers resp). clean_line (field_text h) \<and> list_all scalar (field_text h))"

definition plain_line :: "ustr \<Rightarrow> bool" where
  "plain_line s \<longleftrightarrow> 10 \<notin> set s \<and> 13 \<notin> set s \<and> list_all scalar s"

lemma scalar_lit: "list_all scalar (lit s)"
proof -
  have "(of_char c :: nat) < 0xD800" for c
    by (rule less_trans [OF nat_of_char_less_256]) simp
  then have "scalar (of_char c)" for c by (simp add: scalar_def)
  then show ?thesis by (simp add: lit_def list_all_iff)
qed

lemma plain_lit: "10 \<notin> set (lit s) \<Longrightarrow> 13 \<notin> set (lit s) \<Longrightarrow> plain_line (lit s)"
  by (simp add: plain_line_def scalar_lit)

lemma plain_to_dec [simp]: "plain_line (to_dec n)"
  using to_dec_digits [of n] by (auto simp: plain_line_def list_all_iff is_digit_def scalar_def)

lemma clean_new: "(status, lit t) \<in> set known_statuses \<Longrightarrow> clean_resp (HttpResponse_new status t body)"
  by (auto simp: clean_resp_def HttpResponse_new_def clean_line_def field_text_def lit_Cons scalar_def)

lemma update_members: "set (AList.update k v m) \<subseteq> insert (k, v) (set m)"
  by (induction m) auto

lemma clean_add: "clean_resp resp \<Longrightarrow> plain_line k \<Longrightarrow> plain_line v \<Longrightarrow> clean_resp (add_header k v resp)"
  using update_members [of k v "rp_headers resp"]
  by (fastforce simp: clean_resp_def add_header_def plain_line_def clean_line_def field_text_def lit_def scalar_def list_all_iff)

lemma clean_json: "clean_resp resp \<Longrightarrow> clean_resp (as_json resp)"
  unfolding as_json_def by (rule clean_add; (rule plain_lit)?; simp add: lit_Cons)

lemma clean_errors:
  "clean_resp (not_found L e)" "clean_resp (bad_request L e)" "clean_resp (internal_error L e)" "clean_resp (method_not_allowed L e)"
  unfolding not_found_def bad_request_def internal_error_def method_not_allowed_def
  by (rule clean_json, rule clean_new; simp add: known_statuses_def)+

lemma clean_ok: "clean_resp (HttpResponse_json body)"
  unfolding HttpResponse_json_def HttpResponse_ok_def by (rule clean_json, rule clean_new) (simp add: known_statuses_def)

lemma clean_node: "clean_resp resp \<Longrightarrow> plain_line n \<Longrightarrow> clean_resp (with_node_headers n resp)"
  unfolding with_node_headers_def
  by (rule clean_add, rule clean_add; (rule plain_lit)?; simp add: lit_Cons plain_line_def scalar_def)

lemma clean_count: "clean_resp resp \<Longrightarrow> clean_resp (with_record_count n resp)"
  unfolding with_record_count_def by (rule clean_add; (rule plain_lit)?; simp add: lit_Cons)

definition clean_handled :: "('d, 'sk) handled \<Rightarrow> bool" where
  "clean_handled h \<longleftrightarrow> (\<forall>resp. fst h = Ok resp \<longrightarrow> clean_resp resp)"

lemma clean_handled_simps [simp]:
  "clean_handled (Ok resp, S) \<longleftrightarrow> clean_resp resp" "clean_handled (Err e, S)" "clean_handled (Panic, S)"
  by (simp_all add: clean_handled_def)

lemma clean_body: "(\<And>b. clean_handled (k b)) \<Longrightarrow> clean_handled (with_body E req S k)"
  by (simp add: with_body_def clean_errors split: result.split)

lemma clean_field: "(\<And>x. clean_handled (k x)) \<Longrightarrow> clean_handled (with_field E name b S k)"
  by (simp add: with_field_def clean_errors split: option.split)

lemma clean_answer: "(\<And>x. clean_resp (f x)) \<Longrightarrow> clean_handled (answer E r f, S)"
  by (simp add: answer_def clean_errors split: result.split)

lemma clean_ok_json: "plain_line (ae_node_id E) \<Longrightarrow> clean_resp (ok_json E ms)" "plain_line (ae_node_id E) \<Longrightarrow> clean_resp (ok_value E v)"
  by (simp_all add: ok_json_def ok_value_def clean_node clean_ok)

lemma clean_lists: "plain_line (ae_node_id E) \<Longrightarrow> clean_resp (search_response E q rs)"
  "plain_line (ae_node_id E) \<Longrightarrow> clean_resp (list_response E rs)" "plain_line (ae_node_id E) \<Longrightarrow> clean_resp (record_response E i r)"
  by (simp_all add: search_response_def list_response_def record_response_def clean_count clean_ok_json clean_errors split: option.split)

lemmas clean_responses = clean_ok_json clean_errors clean_lists

lemma apfst_fst: "apfst f p = (f (fst p), snd p)"
  by (cases p) simp

lemma clean_apfst: "(\<And>x. clean_resp (f x)) \<Longrightarrow> clean_handled (apfst (\<lambda>r. answer E r f) p)"
  by (simp add: apfst_fst clean_answer)

lemma clean_reading:
  assumes "plain_line (ae_node_id E)"
  shows "clean_handled (handle_node E S)" "clean_handled (handle_search E req S)" "clean_handled (handle_get_record E path S)"
    "clean_handled (handle_list_records E req S)" "clean_handled (handle_get_config E S)"
  by (simp_all add: handle_node_def handle_search_def handle_get_record_def handle_list_records_def handle_get_config_def
      Let_def clean_answer clean_apfst clean_responses assms)

lemma clean_ids:
  assumes "plain_line (ae_node_id E)"
  shows "clean_handled (handle_pin_record E req S)" "clean_handled (handle_unpin_record E req S)"
    "clean_handled (handle_delete_record E req S)" "clean_handled (handle_run_scraper E req S)"
  unfolding handle_pin_record_def handle_unpin_record_def handle_delete_record_def handle_run_scraper_def
  by (intro clean_body clean_field; auto simp: clean_responses assms intro!: clean_apfst split: option.split)+

lemma clean_peers:
  assumes "plain_line (ae_node_id E)"
  shows "clean_handled (handle_add_peer E req S)" "clean_handled (handle_ban_peer E req S)" "clean_handled (handle_unban_peer E req S)"
  unfolding handle_add_peer_def handle_ban_peer_def handle_unban_peer_def Let_def
  by (intro clean_body clean_field; auto simp: clean_responses assms)+

lemma clean_storage:
  assumes "plain_line (ae_node_id E)"
  shows "clean_handled (handle_storage_info E S)" "clean_handled (handle_storage_vacuum E S)" "clean_handled (handle_storage_quota E S)"
    "clean_handled (handle_storage_export E req S)" "clean_handled (handle_storage_import E req S)" "clean_handled (handle_sweep E S)"
    "clean_handled (handle_storage_cache E S)"
proof -
  note clean = clean_responses assms
  show "clean_handled (handle_storage_info E S)" "clean_handled (handle_storage_vacuum E S)"
    unfolding handle_storage_info_def handle_storage_vacuum_def clean_handled_def by (auto simp: res_simps clean)
  show "clean_handled (handle_storage_quota E S)" "clean_handled (handle_storage_cache E S)"
    unfolding handle_storage_quota_def handle_storage_cache_def Let_def
    by (auto simp: clean split: result.split prod.split)
  show "clean_handled (handle_sweep E S)"
    unfolding handle_sweep_def by (intro clean_apfst) (auto simp: clean)
  show "clean_handled (handle_storage_export E req S)"
    unfolding handle_storage_export_def by (intro clean_body clean_field) (auto simp: clean split: result.split prod.split)
  show "clean_handled (handle_storage_import E req S)"
    unfolding handle_storage_import_def
    by (intro clean_body clean_field) (auto simp: clean apfst_fst clean_handled_def res_simps split: result.split)
qed

lemma clean_changing:
  assumes "plain_line (ae_node_id E)"
  shows "clean_handled (handle_set_config E req S)" "clean_handled (handle_bootstrap E S)" "clean_handled (handle_insert_record E req S)"
    "clean_handled (handle_announce_record E req S)"
proof -
  note clean = clean_responses assms
  show "clean_handled (handle_set_config E req S)"
    unfolding handle_set_config_def Let_def
    by (intro clean_body clean_field) (auto simp: clean intro!: clean_answer split: result.split prod.split)
  show "clean_handled (handle_bootstrap E S)"
    unfolding handle_bootstrap_def clean_handled_def by (auto simp: res_simps clean)
  show "clean_handled (handle_insert_record E req S)"
    unfolding handle_insert_record_def by (auto simp: clean intro!: clean_answer split: result.split prod.split)
  show "clean_handled (handle_announce_record E req S)"
    unfolding handle_announce_record_def Let_def
    by (intro clean_body clean_field) (auto simp: clean intro!: clean_answer split: result.split option.split prod.split)
qed

lemma clean_plain_handlers:
  assumes "plain_line (ae_node_id E)"
  shows "clean_resp (handle_health E)" "clean_resp (handle_list_schemas E)" "clean_resp (handle_get_schema E path)"
    "clean_resp (handle_list_peers E S)" "clean_resp (handle_list_scrapers E)" "clean_resp (handle_storage_pow E)"
    "clean_resp (handle_identity E S)" "clean_resp (handle_openapi E)"
  by (simp_all add: handle_health_def handle_list_schemas_def handle_get_schema_def handle_list_peers_def handle_list_scrapers_def
      handle_storage_pow_def handle_identity_def handle_openapi_def Let_def clean_responses assms clean_node clean_json clean_ok)

lemma route_clean: "plain_line (ae_node_id E) \<Longrightarrow> clean_handled (route E req S)"
  by (simp add: route_def Let_def clean_reading clean_ids clean_peers clean_storage clean_changing clean_plain_handlers clean_errors)

end
