(* ===== verification/Client.thy ===== *)
theory Client
  imports Local
begin

text \<open>
  \<^verbatim>\<open>src/src/cli/api_client.rs\<close>: the HTTP client of the command line and of the user interface,
  and how it meets the server of \<^verbatim>\<open>Local\<close>. The network is a parameter; an address of four numbers
  and a port always parses, and flushing a TCP stream does nothing.
\<close>

section \<open>The client\<close>

definition read_api_port :: "text_file \<Rightarrow> u16 option" where
  "read_api_port f = (case read_to_string f of
     Ok contents \<Rightarrow> map_option of_nat (parse_uint 65535 (trim contents)) | _ \<Rightarrow> None)"

text \<open>Connecting to a local port, writing a request, and what each read after it gives.\<close>

record client_net =
  cn_connect :: "u16 \<Rightarrow> (unit, ustr) result"
  cn_write :: "u16 \<Rightarrow> bytes \<Rightarrow> (unit, ustr) result"
  cn_read :: "u16 \<Rightarrow> bytes \<Rightarrow> nat \<Rightarrow> read"

definition api_is_reachable :: "client_net \<Rightarrow> text_file \<Rightarrow> u16 option" where
  "api_is_reachable N f = Option.bind (read_api_port f) (\<lambda>port. if is_ok (cn_connect N port) then Some port else None)"

text \<open>The loop ends with the stream or an error, such as a read that times out; a server that never
  stops sending keeps it running.\<close>

partial_function (option) read_all :: "(nat \<Rightarrow> read) \<Rightarrow> nat \<Rightarrow> bytes \<Rightarrow> bytes option" where
  "read_all rd i response = (case rd i of
     Data buf \<Rightarrow> if buf = [] then Some response else read_all rd (Suc i) (response @ buf)
   | _ \<Rightarrow> Some response)"

definition host_field :: "u16 \<Rightarrow> ustr \<times> ustr" where
  "host_field port = (lit ''Host'', lit ''127.0.0.1:'' @ to_dec (unat port))"

definition get_request :: "u16 \<Rightarrow> ustr \<Rightarrow> ustr" where
  "get_request port path = request_text (lit ''GET'') path
     [host_field port, (lit ''Accept'', lit ''application/json''), (lit ''Connection'', lit ''close'')] []"

definition post_request :: "u16 \<Rightarrow> ustr \<Rightarrow> ustr \<Rightarrow> ustr" where
  "post_request port path body = request_text (lit ''POST'') path
     [host_field port, (lit ''Content-Type'', lit ''application/json''), (lit ''Content-Length'', to_dec (str_len body)),
      (lit ''Accept'', lit ''application/json''), (lit ''Connection'', lit ''close'')] body"

definition status_of :: "ustr \<Rightarrow> ustr" where
  "status_of s = (case lines s of [] \<Rightarrow> [] | l # _ \<Rightarrow> l)"

definition get_outcome :: "ustr \<Rightarrow> (ustr, ustr) result" where
  "get_outcome response_str = (case split_str CRLF2 response_str of
     None \<Rightarrow> Err (lit ''malformed HTTP response'')
   | Some (headers, body) \<Rightarrow>
       let status_line = status_of headers
       in if str_contains status_line (lit ''200'') then Ok body
          else if str_contains status_line (lit ''404'') then Err (lit ''not found: '' @ body)
          else if str_contains status_line (lit ''400'') then Err (lit ''bad request: '' @ body)
          else Err (lit ''API error: '' @ status_line))"

text \<open>8212 is the dash.\<close>

definition post_outcome :: "ustr \<Rightarrow> (ustr, ustr) result" where
  "post_outcome response_str = (case split_str CRLF2 response_str of
     None \<Rightarrow> Err (lit ''malformed HTTP response'')
   | Some (headers, body) \<Rightarrow>
       let status_line = status_of headers
       in if str_contains status_line (lit ''200'') \<or> str_contains status_line (lit ''201'') then Ok body
          else Err (lit ''API error: '' @ status_line @ [32, 8212, 32] @ body))"

text \<open>\<open>None\<close>: the call does not return.\<close>

definition exchange :: "client_net \<Rightarrow> u16 \<Rightarrow> ustr \<Rightarrow> (ustr \<Rightarrow> (ustr, ustr) result) \<Rightarrow> (ustr, ustr) result option" where
  "exchange N port request outcome =
     (case rbind (map_err (\<lambda>e. lit ''connect to API: '' @ e) (cn_connect N port)) (\<lambda>_.
        map_err (\<lambda>e. lit ''write: '' @ e) (cn_write N port (utf8 request))) of
        Err e \<Rightarrow> Some (Err e) | Panic \<Rightarrow> Some Panic
      | Ok _ \<Rightarrow> map_option (\<lambda>response. outcome (from_utf8_lossy response)) (read_all (cn_read N port (utf8 request)) 0 []))"

definition api_get :: "client_net \<Rightarrow> u16 \<Rightarrow> ustr \<Rightarrow> (ustr, ustr) result option" where
  "api_get N port path = exchange N port (get_request port path) get_outcome"

definition api_post :: "client_net \<Rightarrow> u16 \<Rightarrow> ustr \<Rightarrow> ustr \<Rightarrow> (ustr, ustr) result option" where
  "api_post N port path body = exchange N port (post_request port path body) post_outcome"

definition api_get_from_dir :: "client_net \<Rightarrow> text_file \<Rightarrow> ustr \<Rightarrow> ustr option option" where
  "api_get_from_dir N f path = (case read_api_port f of
     None \<Rightarrow> Some None
   | Some port \<Rightarrow> map_option (\<lambda>r. case r of Ok body \<Rightarrow> Some body | _ \<Rightarrow> None) (api_get N port path))"

section \<open>The port\<close>

lemma read_back_port: "write_file (to_dec (unat p)) f = (Ok u, f') \<Longrightarrow> fl_read_error f = None \<Longrightarrow> read_api_port f' = Some p"
proof -
  assume w: "write_file (to_dec (unat p)) f = (Ok u, f')" "fl_read_error f = None"
  have "unat p < 65536" using unsigned_less [of p] by simp
  moreover have "trim (to_dec (unat p)) = to_dec (unat p)"
    by (rule trim_fixed) (use to_dec_digits [of "unat p"] to_dec_ends in simp_all)
  ultimately show ?thesis
    using w by (auto simp: write_file_Ok read_api_port_def read_to_string_def parse_uint_to_dec)
qed

text \<open>A server started at a port of at most 65525 takes the first free one of eleven, and the client finds it in the file.
  It fails only when none is free or the file cannot be written.\<close>

theorem api_port_found:
  assumes "unat start_port \<le> 65525" and "fl_read_error f = None"
  shows "case start_api_server bind_port start_port f of
      (Ok p, f') \<Rightarrow> read_api_port f' = Some p \<and> is_ok (bind_port p) \<and>
        (\<exists>i < 11. p = start_port + of_nat i \<and> (\<forall>j < i. \<not> is_ok (bind_port (start_port + of_nat j))))
    | (Err e, f') \<Rightarrow> f' = f \<and> (fl_write_error f \<noteq> None \<or> (\<forall>i < 11. \<not> is_ok (bind_port (start_port + of_nat i))))
    | (Panic, f') \<Rightarrow> False"
proof (cases "try_ports bind_port (port_range start_port)")
  case None
  have "\<not> is_ok (bind_port (start_port + of_nat i))" if "i < 11" for i
    using None that by (simp add: try_ports_None port_range_simp [OF assms(1)])
  then show ?thesis by (simp add: start_api_server_def None)
next
  case (Some p)
  then obtain qs rs where ps: "port_range start_port = qs @ p # rs" "\<forall>q \<in> set qs. \<not> is_ok (bind_port q)" "is_ok (bind_port p)"
    using try_ports_Some by blast
  have nth: "port_range start_port ! j = start_port + of_nat j" if "j < 11" for j
    using that by (simp add: port_range_simp [OF assms(1)])
  have len: "length qs < 11" using arg_cong [OF ps(1), of length] by (simp add: port_range_simp [OF assms(1)])
  have p: "p = start_port + of_nat (length qs)" using nth [OF len] by (simp add: ps(1))
  have before: "\<not> is_ok (bind_port (start_port + of_nat j))" if "j < length qs" for j
  proof -
    have "qs ! j = start_port + of_nat j" using nth [of j] len that by (simp add: ps(1) nth_append)
    with that ps(2) show ?thesis by (metis nth_mem)
  qed
  obtain r f' where w: "write_file (to_dec (unat p)) f = (r, f')" by force
  show ?thesis
  proof (cases r)
    case (Ok u)
    then show ?thesis
      using w ps(3) p before len read_back_port [OF _ assms(2)]
      by (auto simp: start_api_server_def \<open>try_ports _ _ = Some p\<close>)
  qed (use w in \<open>auto simp: start_api_server_def \<open>try_ports _ _ = Some p\<close> write_file_def split: option.splits\<close>)
qed

text \<open>From port 65526 on the last port wraps below the first, the range is empty, and the server does not start
  although every port is free.\<close>

theorem high_ports_never_start:
  assumes "65525 < unat start_port"
  shows "\<exists>e. start_api_server bind_port start_port f = (Err e, f)"
  using port_range_empty [OF assms] by (simp add: start_api_server_def)

section \<open>The client gets what the route answers\<close>

lemma read_all_served:
  assumes "\<forall>k. rd (i + k) = served chunks k" and "[] \<notin> set chunks"
  shows "read_all rd i r = Some (r @ concat chunks)"
  using assms
proof (induction chunks arbitrary: i r)
  case Nil
  from Nil.prems(1) have "rd (i + 0) = served [] 0" by blast
  then have "rd i = Data []" by (simp add: served_def)
  then show ?case by (subst read_all.simps) simp
next
  case (Cons c cs)
  from Cons.prems(1) have "rd (i + 0) = served (c # cs) 0" by blast
  then have here: "rd i = Data c" by (simp add: served_def)
  have "\<forall>k. rd (Suc i + k) = served cs k"
  proof
    fix k
    from Cons.prems(1) have "rd (i + Suc k) = served (c # cs) (Suc k)" by blast
    then show "rd (Suc i + k) = served cs k" by (simp add: served_def)
  qed
  moreover have "c \<noteq> []" using Cons.prems(2) by auto
  ultimately show ?case
    using Cons.prems(2) Cons.IH [of "Suc i" "r @ c"] here by (subst read_all.simps) simp
qed

lemma utf8_append: "utf8 (a @ b) = utf8 a @ utf8 b"
  by (simp add: utf8_def)

definition status_line :: "HttpResponse \<Rightarrow> ustr" where
  "status_line resp = lit ''HTTP/1.1 '' @ to_dec (rp_status resp) @ [32] @ rp_status_text resp"

definition response_head :: "(ustr \<Rightarrow> ustr) \<Rightarrow> (headers \<Rightarrow> headers) \<Rightarrow> HttpResponse \<Rightarrow> ustr list" where
  "response_head lc order resp = status_line resp # (lit ''content-length: '' @ to_dec (length (rp_body resp))) #
     map field_text (filter (\<lambda>h. lc (fst h) \<noteq> lit ''content-length'') (order (rp_headers resp)))"

lemma to_bytes_text: "to_bytes lc order resp = utf8 (head_text (response_head lc order resp) @ [13, 10]) @ rp_body resp"
proof -
  have "concat (map header_line hs) = utf8 (head_text (map field_text hs))" for hs
    by (induction hs) (simp_all add: header_line_def field_text_def utf8_def)
  then show ?thesis
    by (simp add: to_bytes_def response_head_def status_line_def utf8_def)
qed

lemma response_head_clean:
  assumes "clean_resp resp" and "set (order (rp_headers resp)) \<subseteq> set (rp_headers resp)"
  shows "list_all clean_line (response_head lc order resp)" "list_all scalar (head_text (response_head lc order resp) @ [13, 10])"
proof -
  have digits: "\<forall>c \<in> set (to_dec n). 48 \<le> c \<and> c \<le> 57" for n
    using to_dec_digits [of n] by (auto simp: list_all_iff is_digit_def)
  have "(rp_status resp, rp_status_text resp) \<in> set known_statuses" using assms(1) by (simp add: clean_resp_def)
  then have "plain_line (rp_status_text resp)"
    by (auto simp: known_statuses_def lit_Cons plain_line_def scalar_def)
  then have status: "clean_line (status_line resp) \<and> list_all scalar (status_line resp)"
    using digits [of "rp_status resp"]
    by (fastforce simp: plain_line_def clean_line_def status_line_def lit_Cons scalar_def list_all_iff)
  have len: "clean_line (lit ''content-length: '' @ to_dec n) \<and> list_all scalar (lit ''content-length: '' @ to_dec n)" for n
    using digits [of n] by (fastforce simp: clean_line_def lit_def scalar_def list_all_iff)
  have fields: "clean_line (field_text h) \<and> list_all scalar (field_text h)" if "h \<in> set (order (rp_headers resp))" for h
    using that assms by (auto simp: clean_resp_def)
  show "list_all clean_line (response_head lc order resp)"
    using status len fields by (auto simp: response_head_def list_all_iff)
  have "list_all scalar (head_text ls)" if "\<forall>l \<in> set ls. list_all scalar l" for ls
    using that by (induction ls) (auto simp: scalar_def)
  then show "list_all scalar (head_text (response_head lc order resp) @ [13, 10])"
    using status len fields by (auto simp: response_head_def scalar_def)
qed

text \<open>What the client reads off a response: its body if the status is 200.\<close>

lemma split_response:
  assumes "clean_resp resp" and "set (order (rp_headers resp)) \<subseteq> set (rp_headers resp)"
  shows "\<exists>headers. split_str CRLF2 (from_utf8_lossy (to_bytes lc order resp)) = Some (headers, from_utf8_lossy (rp_body resp)) \<and>
    status_of headers = status_line resp"
proof -
  let ?ls = "response_head lc order resp"
  note clean = response_head_clean [where lc = lc and order = order, OF assms]
  have "from_utf8_lossy (to_bytes lc order resp) = head_text ?ls @ 13 # 10 # from_utf8_lossy (rp_body resp)"
    using decode_utf8_append [OF clean(2), of "rp_body resp"] by (simp add: to_bytes_text from_utf8_lossy_def comp_def)
  moreover have "status_of (join [13, 10] ?ls) = status_line resp"
  proof -
    have "clean_line (status_line resp)" using clean(1) by (simp add: response_head_def)
    from lines_join_hd [OF this] obtain ls' where "lines (join [13, 10] ?ls) = status_line resp # ls'"
      unfolding response_head_def by blast
    then show ?thesis by (simp add: status_of_def)
  qed
  moreover have "?ls \<noteq> []" by (simp add: response_head_def)
  ultimately show ?thesis using split_head [OF clean(1)] by simp
qed

definition get_fields :: "u16 \<Rightarrow> headers" where
  "get_fields port = [host_field port, (lit ''Accept'', lit ''application/json''), (lit ''Connection'', lit ''close'')]"

lemma trim_space: "trim (32 # s) = trim s"
  by (simp add: trim_def is_whitespace_def)

lemma field_lit:
  assumes "58 \<notin> set (lit k)" and "clean_line (lit k)" and "trim (lit k) = lit k" and "10 \<notin> set v" and "13 \<notin> set v"
    and "trim v = v" and "str_len v \<le> 8192"
  shows "good_field (lit k, v)"
  using assms by (simp add: good_field_def field_text_def clean_line_def trim_space lit_colon)

lemma str_len_ascii: "\<forall>c \<in> set s. c < 128 \<Longrightarrow> str_len s = length s"
  by (induction s) (auto simp: str_len_def utf8_len_def)

lemma good_host: "good_field (host_field port)"
proof -
  let ?v = "lit ''127.0.0.1:'' @ to_dec (unat port)"
  have digits: "\<forall>c \<in> set (to_dec (unat port)). 48 \<le> c \<and> c \<le> 57"
    using to_dec_digits [of "unat port"] by (auto simp: list_all_iff is_digit_def)
  have "str_len ?v = length ?v"
    by (rule str_len_ascii) (use digits in \<open>auto simp: lit_Cons\<close>)
  then have len: "str_len ?v \<le> 8192" using to_dec_port [of port] by (simp add: lit_Cons)
  have fixed: "trim ?v = ?v"
    by (rule trim_fixed) (use to_dec_ends(2) [of "unat port"] in \<open>simp_all add: lit_Cons is_whitespace_def\<close>)
  show ?thesis
    unfolding host_field_def
    by (rule field_lit [OF _ _ _ _ _ fixed len])
      (use digits in \<open>auto simp: lit_Cons clean_line_def trim_def trim_end_def is_whitespace_def\<close>)
qed

lemma good_word:
  "58 \<notin> set (lit k) \<Longrightarrow> clean_line (lit k) \<Longrightarrow> trim (lit k) = lit k \<Longrightarrow> clean_line (lit v) \<Longrightarrow> trim (lit v) = lit v \<Longrightarrow>
     str_len (lit v) \<le> 8192 \<Longrightarrow> good_field (lit k, lit v)"
  by (rule field_lit) (auto simp: clean_line_def)

lemmas word_simps = lit_Cons clean_line_def trim_def trim_end_def is_whitespace_def str_len_def utf8_len_def

lemma good_words:
  "good_field (lit ''Accept'', lit ''application/json'')" "good_field (lit ''Connection'', lit ''close'')"
  "good_field (lit ''Content-Type'', lit ''application/json'')"
  by (rule good_word; simp add: word_simps)+

lemma good_length: "length (to_dec n) \<le> 8192 \<Longrightarrow> good_field (lit ''Content-Length'', to_dec n)"
proof -
  have digits: "\<forall>c \<in> set (to_dec n). 48 \<le> c \<and> c \<le> 57"
    using to_dec_digits [of n] by (auto simp: list_all_iff is_digit_def)
  have "str_len (to_dec n) = length (to_dec n)"
    by (rule str_len_ascii) (use digits in fastforce)
  moreover assume "length (to_dec n) \<le> 8192"
  ultimately have len: "str_len (to_dec n) \<le> 8192" by simp
  have fixed: "trim (to_dec n) = to_dec n"
    by (rule trim_fixed) (simp_all add: to_dec_ends)
  show ?thesis
    by (rule field_lit [OF _ _ _ _ _ fixed len]) (use digits in \<open>auto simp: word_simps\<close>)
qed

lemma map_of_fields:
  "map_of (fields_of lc hs m) k = (case map_of (rev (map (\<lambda>h. (lc (fst h), snd h)) hs)) k of Some v \<Rightarrow> Some v | None \<Rightarrow> map_of m k)"
  by (induction hs arbitrary: m) (auto simp: fields_of_def update_conv' split: option.split)

lemma lower_names:
  assumes "\<forall>s. lc (lit s) = ascii_lower (lit s)"
  shows "lc (lit ''Host'') = lit ''host''" "lc (lit ''Accept'') = lit ''accept''" "lc (lit ''Connection'') = lit ''connection''"
    "lc (lit ''Content-Type'') = lit ''content-type''" "lc (lit ''Content-Length'') = lit ''content-length''"
  by (simp_all only: assms [rule_format]) (simp_all add: ascii_lower_def lit_Cons)

text \<open>The server parses the client's requests as they were meant, but for a blank line in a body.\<close>

lemma get_target_parsed:
  assumes "good_target (lit ''GET'') t" and "\<forall>s. lc (lit s) = ascii_lower (lit s)"
  shows "\<exists>hs. parse_http_request lc (get_request port t) = Ok \<lparr>rq_method = lit ''GET'', rq_path = fst (target_parts t),
    rq_query = parse_query_string (snd (target_parts t)), rq_headers = hs, rq_body = []\<rparr>"
proof -
  have empty: "split_all CRLF2 [] = [[]]" by (subst split_all.simps) (simp add: CRLF2_def)
  have "map_of (fields_of lc (get_fields port) []) (lit ''content-length'') = None"
    by (simp add: map_of_fields get_fields_def host_field_def lower_names [OF assms(2)])
  then show ?thesis
    using parse_target_text [OF assms(1), of "get_fields port" "[]" lc] good_host good_words
    by (simp add: get_request_def get_fields_def empty)
qed

lemma get_request_parsed:
  assumes "good_start (lit ''GET'') path" and "\<forall>s. lc (lit s) = ascii_lower (lit s)"
  shows "\<exists>hs. parse_http_request lc (get_request port path) = Ok \<lparr>rq_method = lit ''GET'', rq_path = path, rq_query = [],
    rq_headers = hs, rq_body = []\<rparr>"
proof -
  have "target_parts path = (path, [])"
    using assms(1) by (simp add: good_start_target target_parts_def flip: split_once_None_iff)
  then show ?thesis
    using get_target_parsed [of path lc port] assms by (simp add: good_start_target parse_query_string_def)
qed

lemma length_to_dec: "n < 10 ^ k \<Longrightarrow> 0 < k \<Longrightarrow> length (to_dec n) \<le> k"
proof (induction k arbitrary: n)
  case (Suc k)
  show ?case
  proof (cases "n < 10")
    case False
    with Suc.prems(1) have "n div 10 < 10 ^ k" "0 < k" by (cases k; simp add: less_mult_imp_div_less mult.commute)+
    with Suc.IH False show ?thesis by (subst to_dec.simps) simp
  qed (subst to_dec.simps, simp)
qed simp

lemma str_len_first_piece: "str_len (hd (split_all CRLF2 s)) \<le> str_len s"
proof (cases "split_str CRLF2 s")
  case None
  then show ?thesis by (subst split_all.simps) simp
next
  case (Some ab)
  obtain a b where ab: "ab = (a, b)" by force
  have "s = a @ CRLF2 @ b" using split_str_SomeD Some ab by blast
  then have "str_len a \<le> str_len s" by (simp add: str_len_def)
  then show ?thesis using Some ab by (subst split_all.simps) (simp add: CRLF2_def)
qed

lemma post_request_parsed:
  assumes "good_start (lit ''POST'') path" and "\<forall>s. lc (lit s) = ascii_lower (lit s)" and "str_len body \<le> 1048576"
  shows "\<exists>hs. parse_http_request lc (post_request port path body) = Ok \<lparr>rq_method = lit ''POST'', rq_path = path, rq_query = [],
    rq_headers = hs, rq_body = hd (split_all CRLF2 body)\<rparr>"
proof -
  let ?fields = "[host_field port, (lit ''Content-Type'', lit ''application/json''), (lit ''Content-Length'', to_dec (str_len body)),
    (lit ''Accept'', lit ''application/json''), (lit ''Connection'', lit ''close'')]"
  have small: "length (to_dec (str_len body)) \<le> 8192"
    using length_to_dec [of "str_len body" 7] assms(3) by simp
  have "map_of (fields_of lc ?fields []) (lit ''content-length'') = Some (to_dec (str_len body))"
    by (simp add: map_of_fields host_field_def lower_names [OF assms(2)])
  moreover have "parse_uint (2 ^ 64 - 1) (to_dec (str_len body)) = Some (str_len body)"
    by (rule parse_uint_to_dec) (use assms(3) in simp)
  ultimately show ?thesis
    using parse_request_text [OF assms(1), of ?fields body lc] good_host good_words good_length [OF small] assms(3)
      str_len_first_piece [of body]
    by (auto simp: post_request_def)
qed

section \<open>The outcome\<close>

lemma status_texts: "to_dec 200 = lit ''200''" "to_dec 400 = lit ''400''" "to_dec 404 = lit ''404''" "to_dec 405 = lit ''405''"
  "to_dec 500 = lit ''500''"
  by (simp_all add: to_dec.simps lit_Cons)

lemma status_contains:
  assumes "clean_resp resp"
  shows "str_contains (status_line resp) (lit ''200'') \<longleftrightarrow> rp_status resp = 200"
    "str_contains (status_line resp) (lit ''404'') \<longleftrightarrow> rp_status resp = 404"
    "str_contains (status_line resp) (lit ''400'') \<longleftrightarrow> rp_status resp = 400"
proof -
  have "(rp_status resp, rp_status_text resp) \<in> set known_statuses" using assms by (simp add: clean_resp_def)
  then show "str_contains (status_line resp) (lit ''200'') \<longleftrightarrow> rp_status resp = 200"
    "str_contains (status_line resp) (lit ''404'') \<longleftrightarrow> rp_status resp = 404"
    "str_contains (status_line resp) (lit ''400'') \<longleftrightarrow> rp_status resp = 400"
    by (auto simp: known_statuses_def status_line_def status_texts lit_Cons starts_with_def)
qed

lemma get_request_scalar: "list_all scalar path \<Longrightarrow> list_all scalar (get_request port path)"
proof -
  assume path: "list_all scalar path"
  have digits: "list_all scalar (to_dec (unat port))" using plain_to_dec by (simp add: plain_line_def)
  show ?thesis
    using path digits scalar_lit
    by (simp add: get_request_def request_text_def request_line_def field_text_def host_field_def) (simp add: scalar_def)
qed

text \<open>C25: What the command line is told about a GET is what the route answers: whatever the pieces the response arrives in, and
  in whatever order its headers are written.\<close>

theorem client_gets_answer:
  assumes "good_start (lit ''GET'') path" and "list_all scalar path" and "\<forall>s. ae_lowercase E (lit s) = ascii_lower (lit s)"
    and "plain_line (ae_node_id E)" and "\<forall>hs. set (order hs) \<subseteq> set hs"
    and "tc_read c 65536 = Ok (utf8 (get_request port path))"
    and "handle_api_connection E order c S = (r, Some resp, S')"
    and "concat chunks = to_bytes (ae_lowercase E) order resp" and "[] \<notin> set chunks"
    and "cn_connect N port = Ok ()" and "cn_write N port (utf8 (get_request port path)) = Ok ()"
    and "cn_read N port (utf8 (get_request port path)) = served chunks"
  shows "\<exists>hs. route E \<lparr>rq_method = lit ''GET'', rq_path = path, rq_query = [], rq_headers = hs, rq_body = []\<rparr> S = (Ok resp, S') \<and>
    api_get N port path = Some (if rp_status resp = 200 then Ok (from_utf8_lossy (rp_body resp))
      else if rp_status resp = 404 then Err (lit ''not found: '' @ from_utf8_lossy (rp_body resp))
      else if rp_status resp = 400 then Err (lit ''bad request: '' @ from_utf8_lossy (rp_body resp))
      else Err (lit ''API error: '' @ status_line resp))"
proof -
  have raw: "from_utf8_lossy (utf8 (get_request port path)) = get_request port path"
    using get_request_scalar [OF assms(2)] by simp
  obtain hs where parsed: "parse_http_request (ae_lowercase E) (get_request port path) = Ok \<lparr>rq_method = lit ''GET'', rq_path = path,
      rq_query = [], rq_headers = hs, rq_body = []\<rparr>" (is "_ = Ok ?req")
    using get_request_parsed [OF assms(1,3)] by blast
  have "utf8 (get_request port path) \<noteq> []"
    by (simp add: get_request_def request_text_def request_line_def utf8_def lit_Cons utf8_char_def)
  then have routed: "route E ?req S = (Ok resp, S')"
    using assms(6,7) parsed by (auto simp: handle_api_connection_def raw split: prod.splits result.splits)
  then have clean: "clean_resp resp"
    using route_clean [OF assms(4), of ?req S] by (simp add: clean_handled_def)
  obtain headers where headers: "split_str CRLF2 (from_utf8_lossy (to_bytes (ae_lowercase E) order resp)) =
      Some (headers, from_utf8_lossy (rp_body resp))" "status_of headers = status_line resp"
    using split_response [where lc = "ae_lowercase E" and order = order, OF clean] assms(5) by blast
  have "read_all (cn_read N port (utf8 (get_request port path))) 0 [] = Some (to_bytes (ae_lowercase E) order resp)"
    using read_all_served [of "cn_read N port (utf8 (get_request port path))" 0 chunks "[]"] assms(8,9,12) by simp
  then have "api_get N port path = Some (get_outcome (from_utf8_lossy (to_bytes (ae_lowercase E) order resp)))"
    using assms(10,11) by (simp add: api_get_def exchange_def)
  with routed show ?thesis
    by (auto simp: get_outcome_def headers status_contains [OF clean])
qed

text \<open>A posted body reaches the handler whole exactly when it has no blank line in it: the server takes the
  second piece between blank lines.\<close>

theorem posted_body_until_blank_line:
  assumes "good_start (lit ''POST'') path" and "\<forall>s. lc (lit s) = ascii_lower (lit s)" and "str_len body \<le> 1048576"
  shows "\<exists>req. parse_http_request lc (post_request port path body) = Ok req \<and> rq_path req = path \<and>
    (\<exists>rest. body = rq_body req @ rest) \<and> (rq_body req = body \<longleftrightarrow> \<not> str_contains body CRLF2)"
proof -
  have "(\<exists>rest. body = hd (split_all CRLF2 body) @ rest) \<and> (hd (split_all CRLF2 body) = body \<longleftrightarrow> \<not> str_contains body CRLF2)"
  proof (cases "split_str CRLF2 body")
    case None
    then show ?thesis using split_str_None_iff [of CRLF2 body] by (subst (1 2) split_all.simps) simp
  next
    case (Some ab)
    obtain a b where ab: "ab = (a, b)" by force
    then have "body = a @ CRLF2 @ b" using split_str_SomeD Some by blast
    moreover have "hd (split_all CRLF2 body) = a" using Some ab by (subst split_all.simps) (simp add: CRLF2_def)
    moreover have "str_contains body CRLF2" using split_str_None_iff [of CRLF2 body] Some by simp
    moreover have "CRLF2 \<noteq> []" by (simp add: CRLF2_def)
    ultimately show ?thesis by simp
  qed
  with post_request_parsed [OF assms, of port] show ?thesis by auto
qed

section \<open>Runs\<close>

definition local_net :: "bytes \<Rightarrow> client_net" where
  "local_net response = \<lparr>cn_connect = (\<lambda>_. Ok ()), cn_write = (\<lambda>_ _. Ok ()), cn_read = (\<lambda>_ _. served [response])\<rparr>"

definition sample_state :: "(mem_db, unit) api_state" where
  "sample_state = \<lparr>ap_store = sample_store, ap_files = (\<lambda>_. plain_file None)\<rparr>"

lemma plain_n1: "plain_line (ae_node_id api_sample)"
  by (simp add: plain_line_def lit_Cons scalar_def)

theorem client_gets_answer_witness:
  "api_get (local_net (to_bytes ascii_lower id (handle_health api_sample))) 7744 (lit ''/health'') =
     Some (Ok (from_utf8_lossy (rp_body (handle_health api_sample))))"
proof -
  let ?resp = "handle_health api_sample" and ?request = "utf8 (get_request 7744 (lit ''/health''))"
  let ?c = "\<lparr>tc_read = (\<lambda>_. Ok ?request), tc_write = (\<lambda>_. Ok ()), tc_flush = Ok ()\<rparr>"
  obtain hs where parsed: "parse_http_request ascii_lower (get_request 7744 (lit ''/health'')) = Ok \<lparr>rq_method = lit ''GET'',
      rq_path = lit ''/health'', rq_query = [], rq_headers = hs, rq_body = []\<rparr>"
    using get_request_parsed [OF health_start] by blast
  have raw: "from_utf8_lossy ?request = get_request 7744 (lit ''/health'')"
    using get_request_scalar [OF scalar_lit] by simp
  have "?request \<noteq> []"
    by (simp add: get_request_def request_text_def request_line_def utf8_def lit_Cons utf8_char_def)
  then have run: "handle_api_connection api_sample id ?c sample_state = (Ok (), Some ?resp, sample_state)"
    using parsed by (simp add: handle_api_connection_def raw route_def send_flush_def send_def)
  have ok: "rp_status ?resp = 200"
    by (simp add: handle_health_def ok_json_def with_node_headers_def add_header_def HttpResponse_json_def as_json_def
        HttpResponse_ok_def HttpResponse_new_def)
  have "to_bytes ascii_lower id ?resp \<noteq> []"
    by (simp add: to_bytes_def lit_Cons utf8_def utf8_char_def)
  then show ?thesis
    using client_gets_answer [OF health_start scalar_lit _ plain_n1 _ _ run, of "7744" "[to_bytes ascii_lower id ?resp]"
        "local_net (to_bytes ascii_lower id ?resp)"] ok
    by (simp add: local_net_def)
qed

theorem api_port_found_witness:
  "\<exists>f'. start_api_server (\<lambda>p. if p = 7745 then Err (lit ''in use'') else Ok ()) 7745 (plain_file None) = (Ok 7746, f') \<and>
     read_api_port f' = Some 7746"
proof -
  let ?b = "\<lambda>p :: u16. if p = 7745 then Err (lit ''in use'') else Ok ()"
  have "port_range 7745 = 7745 # 7746 # map (\<lambda>i. 7745 + of_nat i) [2 ..< 11]"
    by (subst port_range_simp) (simp_all add: upt_rec)
  then have "start_api_server ?b 7745 (plain_file None) = (Ok 7746, plain_file (Some (to_dec 7746)))"
    by (simp add: start_api_server_def)
  then show ?thesis
    using api_port_found [of 7745 "plain_file None" ?b] by (simp add: plain_file_def)
qed

theorem high_ports_never_start_witness:
  "\<exists>e. start_api_server (\<lambda>_. Ok ()) 65530 (plain_file None) = (Err e, plain_file None)"
  by (rule high_ports_never_start) simp

theorem posted_body_until_blank_line_witness:
  "\<exists>req. parse_http_request ascii_lower (post_request 7744 (lit ''/health'') (lit ''{}'' @ [13, 10, 13, 10] @ lit ''{}'')) = Ok req \<and>
     rq_body req \<noteq> lit ''{}'' @ [13, 10, 13, 10] @ lit ''{}''"
proof -
  have start: "good_start (lit ''POST'') (lit ''/health'')"
    by (simp add: good_start_def validate_path_def lit_Cons)
  have "str_contains (lit ''{}'' @ [13, 10, 13, 10] @ lit ''{}'') CRLF2"
    by (simp add: lit_Cons CRLF2_def starts_with_def)
  then show ?thesis
    using posted_body_until_blank_line [OF start, of ascii_lower "lit ''{}'' @ [13, 10, 13, 10] @ lit ''{}''" 7744]
    by (auto simp: lit_Cons str_len_def utf8_len_def)
qed

end
