(* ===== verification/Gateway.thy ===== *)
theory Gateway
  imports Sample_Api Messages
begin

text \<open>
  \<^verbatim>\<open>src/src/api/gateway_keys.rs\<close>, but for its rate limit (\<^verbatim>\<open>Limits\<close>), and
  \<^verbatim>\<open>src/src/api/gateway.rs\<close>: the keys of the public gateway, and what a connection to it gets.
  serde's view of the key file, the random source and the socket are parameters.
\<close>

section \<open>Keys\<close>

record GatewayKeyInfo =
  gk_nickname :: ustr
  gk_key_hash :: ustr
  gk_created_at :: u64
  gk_last_used :: u64
  gk_request_count :: u64

record keys_serde =
  ks_to_string_pretty :: "GatewayKeyInfo list \<Rightarrow> (ustr, ustr) result"
  ks_from_str :: "ustr \<Rightarrow> (GatewayKeyInfo list, ustr) result"

definition save_keys :: "keys_serde \<Rightarrow> GatewayKeyInfo list \<Rightarrow> text_file \<Rightarrow> (unit, ustr) result \<times> text_file" where
  "save_keys Q keys f =
     (case map_err (\<lambda>e. lit ''serialize gateway keys: '' @ e) (ks_to_string_pretty Q keys) of
        Ok json \<Rightarrow> apfst (map_err (\<lambda>e. lit ''write gateway_keys.json: '' @ e)) (write_file json f)
      | Err e \<Rightarrow> (Err e, f) | Panic \<Rightarrow> (Panic, f))"

text \<open>\<open>secret_bytes\<close> are 32 bytes of the system's random source. A file that cannot be read or
  parsed counts as an empty one.\<close>

definition create_key :: "('sk, 'vk) crypto \<Rightarrow> keys_serde \<Rightarrow> u64 \<Rightarrow> bytes \<Rightarrow> ustr \<Rightarrow> text_file
    \<Rightarrow> (ustr \<times> GatewayKeyInfo, ustr) result \<times> text_file" where
  "create_key K Q now secret_bytes nickname f =
     (let secret_hex = hex_encode secret_bytes;
          hash = hex_encode (blake3 K secret_bytes);
          info = \<lparr>gk_nickname = nickname, gk_key_hash = hash, gk_created_at = now, gk_last_used = 0, gk_request_count = 0\<rparr>;
          keys = (if file_exists f
            then (case ks_from_str Q (case read_to_string f of Ok contents \<Rightarrow> contents | _ \<Rightarrow> []) of Ok ks \<Rightarrow> ks | _ \<Rightarrow> [])
            else [])
      in if \<exists>k \<in> set keys. gk_nickname k = nickname
         then (Err (lit ''key with nickname '' @ [39] @ nickname @ [39] @ lit '' already exists''), f)
         else apfst (\<lambda>r. rbind r (\<lambda>_. Ok (secret_hex, info))) (save_keys Q (keys @ [info]) f))"

definition read_keys :: "keys_serde \<Rightarrow> text_file \<Rightarrow> (GatewayKeyInfo list, ustr) result" where
  "read_keys Q f =
     rbind (map_err (\<lambda>e. lit ''read gateway_keys.json: '' @ e) (read_to_string f)) (\<lambda>contents.
       map_err (\<lambda>e. lit ''parse gateway_keys.json: '' @ e) (ks_from_str Q contents))"

definition list_keys :: "keys_serde \<Rightarrow> text_file \<Rightarrow> (GatewayKeyInfo list, ustr) result" where
  "list_keys Q f = (if \<not> file_exists f then Ok [] else read_keys Q f)"

definition revoke_key :: "keys_serde \<Rightarrow> ustr \<Rightarrow> text_file \<Rightarrow> (bool, ustr) result \<times> text_file" where
  "revoke_key Q nickname f =
     (if \<not> file_exists f then (Ok False, f)
      else case read_keys Q f of
        Err e \<Rightarrow> (Err e, f) | Panic \<Rightarrow> (Panic, f)
      | Ok keys \<Rightarrow>
          let kept = filter (\<lambda>k. gk_nickname k \<noteq> nickname) keys
          in if length kept = length keys then (Ok False, f)
             else apfst (\<lambda>r. rbind r (\<lambda>_. Ok True)) (save_keys Q kept f))"

text \<open>\<^verbatim>\<open>hex::decode\<close>.\<close>

fun hex_decode :: "ustr \<Rightarrow> bytes option" where
  "hex_decode [] = Some []"
| "hex_decode [c] = None"
| "hex_decode (c # d # s) = (case (hex_val c, hex_val d, hex_decode s) of
     (Some h, Some l, Some bs) \<Rightarrow> Some (of_nat (16 * h + l) # bs) | _ \<Rightarrow> None)"

definition validate_key :: "('sk, 'vk) crypto \<Rightarrow> keys_serde \<Rightarrow> ustr \<Rightarrow> text_file \<Rightarrow> bool" where
  "validate_key K Q raw_key f =
     (case hex_decode raw_key of
        None \<Rightarrow> False
      | Some secret_bytes \<Rightarrow>
          if length secret_bytes \<noteq> 32 then False
          else let hash = hex_encode (blake3 K secret_bytes)
               in case list_keys Q f of Ok keys \<Rightarrow> list_ex (\<lambda>k. gk_key_hash k = hash) keys | _ \<Rightarrow> False)"

text \<open>The numbers are the random source's: \<open>i\<close>, \<open>j\<close> and \<open>l\<close> indices into the two lists and the
  alphabet, and \<open>n\<close> from 10 to 98.\<close>

definition adjectives :: "ustr list" where
  "adjectives = map lit [''swift'', ''bright'', ''calm'', ''dark'', ''eager'', ''fair'', ''gold'', ''hazy'', ''iron'', ''jade'',
     ''keen'', ''lark'', ''misty'', ''noble'', ''opal'', ''pale'', ''quiet'', ''rare'', ''silver'', ''true'', ''vivid'', ''warm'', ''zephyr'']"

definition animals :: "ustr list" where
  "animals = map lit [''falcon'', ''otter'', ''raven'', ''tiger'', ''viper'', ''wolf'', ''bear'', ''deer'', ''eagle'', ''fox'', ''hare'',
     ''ibis'', ''jay'', ''lynx'', ''mole'', ''newt'', ''owl'', ''puma'', ''quail'', ''rook'', ''stoat'', ''ursa'', ''vole'', ''wren'']"

definition generate_nickname :: "nat \<Rightarrow> nat \<Rightarrow> nat \<Rightarrow> nat \<Rightarrow> ustr" where
  "generate_nickname i j n l = adjectives ! i @ [45] @ animals ! j @ [45] @ to_dec n @ [97 + l]"

section \<open>Routes\<close>

definition extract_api_key :: "HttpRequest \<Rightarrow> ustr option" where
  "extract_api_key req =
     (case Option.bind (map_of (rq_headers req) (lit ''authorization'')) (strip_prefix (lit ''Bearer '')) of
        Some key \<Rightarrow> Some (trim key)
      | None \<Rightarrow> map_of (rq_query req) (lit ''api_key''))"

definition gateway_route :: "('sk, 'vk, 'd, 't, 'f, 'c) api_env \<Rightarrow> HttpRequest \<Rightarrow> ('d, 'sk) Store
    \<Rightarrow> (HttpResponse, ustr) result \<times> ('d, 'sk) Store" where
  "gateway_route E req st =
     (let path = rq_path req
      in if path = lit ''/health'' then (Ok (ok_json E [(''node_id'', JStr (ae_node_id E)), (''status'', JStr (lit ''ok''))]), st)
         else if path = lit ''/search'' then
           let query = unwrap_or (map_of (rq_query req) (lit ''q'')) [];
               schema = map_of (rq_query req) (lit ''schema'')
           in apfst (\<lambda>r. answer E r (search_response E query))
             (store_search_records (ae_redb E) (ae_serde E) (ae_vec_serde E) (ae_f64 E) (ae_lowercase E)
                (ae_instant E) (ae_secs E) (effective_query schema query) (limit_param req 20) st)
         else if path = lit ''/records'' then
           (answer E (store_list_records (ae_redb E) (ae_serde E) (map_of (rq_query req) (lit ''schema'')) (limit_param req 50) st)
              (list_response E), st)
         else if starts_with (lit ''/record/'') path then
           let i = drop (length (lit ''/record/'')) path
           in (answer E (store_get_record (ae_redb E) (ae_serde E) i st) (record_response E i), st)
         else if path = lit ''/node'' then
           (rbind (ok_or (store_record_count (ae_redb E) st) 0) (\<lambda>record_count.
              Ok (ok_json E [(''node_id'', JStr (ae_node_id E)), (''records'', json_nat (unat record_count))])), st)
         else (Ok (not_found (ae_json E) (lit ''unknown route'')), st))"

section \<open>Connections\<close>

record GatewayContext =
  gx_rate_limit :: u32
  gx_require_key :: bool

record ('d, 'sk) gateway_state =
  gt_store :: "('d, 'sk) Store"
  gt_keys :: text_file
  gt_limits :: "ustr \<rightharpoonup> RateLimitEntry"

text \<open>What a connection came to: the handler's result, the response it wrote, and the state after it.\<close>

type_synonym ('d, 'sk) gateway_outcome = "(unit, ustr) result \<times> HttpResponse option \<times> ('d, 'sk) gateway_state"

definition refusal :: "nat \<Rightarrow> string \<Rightarrow> string \<Rightarrow> HttpResponse" where
  "refusal status status_text body = HttpResponse_new status status_text (utf8 (lit body))"

text \<open>The gate: the response of a request that is turned away, and the limiter after it.\<close>

definition gateway_gate :: "('sk, 'vk) crypto \<Rightarrow> keys_serde \<Rightarrow> GatewayContext \<Rightarrow> u64 \<Rightarrow> ustr \<Rightarrow> HttpRequest
    \<Rightarrow> text_file \<Rightarrow> (ustr \<rightharpoonup> RateLimitEntry) \<Rightarrow> HttpResponse option \<times> (ustr \<rightharpoonup> RateLimitEntry)" where
  "gateway_gate K Q ctx now peer_ip req keys limits =
     (let api_key = extract_api_key req;
          identifier = (case api_key of Some key \<Rightarrow> key | None \<Rightarrow> peer_ip);
          (allowed, limits) = check_rate_limit now identifier (gx_rate_limit ctx) limits
      in if \<not> allowed then
           (Some (refusal 429 ''Too Many Requests'' ''{\"error\":\"rate limit exceeded\",\"code\":429}''), limits)
         else if gx_require_key ctx \<and> api_key = None then
           (Some (refusal 401 ''Unauthorized'' ''{\"error\":\"API key required\",\"code\":401}''), limits)
         else case api_key of
           Some key \<Rightarrow>
             if \<not> validate_key K Q key keys
             then (Some (refusal 401 ''Unauthorized'' ''{\"error\":\"invalid API key\",\"code\":401}''), limits)
             else (None, limits)
         | None \<Rightarrow> (None, limits))"

definition gateway_answer :: "('sk, 'vk, 'd, 't, 'f, 'c) api_env \<Rightarrow> HttpRequest \<Rightarrow> ('d, 'sk) Store
    \<Rightarrow> (HttpResponse, ustr) result \<times> ('d, 'sk) Store" where
  "gateway_answer E req st =
     (if rq_method req \<noteq> lit ''GET''
      then (Ok (method_not_allowed (ae_json E) (lit ''gateway is read-only, only GET is allowed'')), st)
      else gateway_route E req st)"

definition handle_gateway_connection :: "('sk, 'vk, 'd, 't, 'f, 'c) api_env \<Rightarrow> keys_serde \<Rightarrow> (headers \<Rightarrow> headers) \<Rightarrow> GatewayContext
    \<Rightarrow> ustr \<Rightarrow> tcp \<Rightarrow> ('d, 'sk) gateway_state \<Rightarrow> ('d, 'sk) gateway_outcome" where
  "handle_gateway_connection E Q order ctx peer_ip c S =
     (case map_err (\<lambda>e. lit ''read: '' @ e) (tc_read c 65536) of
        Err e \<Rightarrow> (Err e, None, S) | Panic \<Rightarrow> (Panic, None, S)
      | Ok buf \<Rightarrow>
          if buf = [] then (Ok (), None, S)
          else case parse_http_request (ae_lowercase E) (from_utf8_lossy buf) of
            Err e \<Rightarrow> (Err e, None, S) | Panic \<Rightarrow> (Panic, None, S)
          | Ok req \<Rightarrow>
              (case gateway_gate (ae_crypto E) Q ctx (ae_secs E) peer_ip req (gt_keys S) (gt_limits S) of
                 (Some resp, limits) \<Rightarrow>
                   (send c (to_bytes (ae_lowercase E) order resp), Some resp, S\<lparr>gt_limits := limits\<rparr>)
               | (None, limits) \<Rightarrow>
                   (case gateway_answer E req (gt_store S) of
                      (Ok resp, st) \<Rightarrow> (send_flush c (to_bytes (ae_lowercase E) order resp), Some resp, S\<lparr>gt_store := st, gt_limits := limits\<rparr>)
                    | (Err e, st) \<Rightarrow> (Err e, None, S\<lparr>gt_store := st, gt_limits := limits\<rparr>)
                    | (Panic, st) \<Rightarrow> (Panic, None, S\<lparr>gt_store := st, gt_limits := limits\<rparr>))))"

text \<open>Starting: nothing when the gateway is disabled; otherwise the context its connections get.
  Parsing, printing and binding an address are the system's.\<close>

definition start_gateway_server :: "(ustr \<Rightarrow> ('a, ustr) result) \<Rightarrow> ('a \<Rightarrow> ustr) \<Rightarrow> ('a \<Rightarrow> (unit, ustr) result) \<Rightarrow> DsearchConfig
    \<Rightarrow> (GatewayContext option, ustr) result" where
  "start_gateway_server parse show_addr bind_addr config =
     (let gateway = cf_gateway config
      in if \<not> gc_enabled gateway then Ok None
         else rbind (map_err (\<lambda>e. lit ''invalid gateway bind address '' @ [39] @ gc_bind gateway @ [39] @ lit '': '' @ e)
             (parse (gc_bind gateway))) (\<lambda>addr.
           rbind (map_err (\<lambda>e. lit ''gateway bind '' @ show_addr addr @ lit '': '' @ e) (bind_addr addr)) (\<lambda>_.
           Ok (Some \<lparr>gx_rate_limit = gc_rate_limit_per_min gateway, gx_require_key = gc_require_api_key gateway\<rparr>))))"

section \<open>The gateway reads\<close>

lemma search_changes_cache:
  "snd (store_search_records R J V F lc now secs query limit st) =
     st\<lparr>st_search_cache := st_search_cache (snd (store_search_records R J V F lc now secs query limit st))\<rparr>"
  by (auto simp: store_search_records_def Let_def split: result.splits prod.splits option.splits)

lemma same_cache: "\<exists>c. st = st\<lparr>st_search_cache := c\<rparr>"
  by (rule exI [of _ "st_search_cache st"]) simp

lemma gateway_answer_reads: "\<exists>c. snd (gateway_answer E req st) = st\<lparr>st_search_cache := c\<rparr>"
proof (cases "rq_method req = lit ''GET'' \<and> rq_path req = lit ''/search''")
  case True
  then show ?thesis
    by (simp add: gateway_answer_def gateway_route_def Let_def) (rule exI, rule search_changes_cache)
next
  case False
  then have "snd (gateway_answer E req st) = st" by (auto simp: gateway_answer_def gateway_route_def Let_def)
  then show ?thesis using same_cache by metis
qed

lemma gateway_answers_get: "gateway_answer E req st = (Ok resp, st') \<Longrightarrow> rp_status resp = 200 \<Longrightarrow> rq_method req = lit ''GET''"
  by (auto simp: gateway_answer_def method_not_allowed_def as_json_def add_header_def HttpResponse_new_def split: if_splits)

lemma gate_passes:
  assumes "gateway_gate K Q ctx now ip req keys limits = (None, limits')"
  shows "(gx_require_key ctx \<longrightarrow> extract_api_key req \<noteq> None) \<and>
    (\<forall>key. extract_api_key req = Some key \<longrightarrow> validate_key K Q key keys)"
  using assms by (auto simp: gateway_gate_def Let_def split: prod.splits if_splits option.splits)

lemma gate_refuses:
  assumes "gateway_gate K Q ctx now ip req keys limits = (Some resp, limits')"
  shows "rp_status resp = 429 \<or> rp_status resp = 401"
  using assms by (auto simp: gateway_gate_def refusal_def HttpResponse_new_def Let_def split: prod.splits if_splits option.splits)

text \<open>C26: Whatever a client sends, the gateway leaves the database, the store's limiters and the key file as they are: only the
  search cache and its own limits change. It answers with 200 only a GET, with a valid key if it came with a
  key, and with a key when keys are required.\<close>

theorem gateway_reads_only:
  assumes "handle_gateway_connection E Q order ctx ip c S = (r, answered, S')"
  shows "(\<exists>cache. gt_store S' = (gt_store S)\<lparr>st_search_cache := cache\<rparr>) \<and> gt_keys S' = gt_keys S \<and>
    (\<forall>resp. answered = Some resp \<and> rp_status resp = 200 \<longrightarrow> (\<exists>buf req. tc_read c 65536 = Ok buf \<and>
      parse_http_request (ae_lowercase E) (from_utf8_lossy buf) = Ok req \<and> rq_method req = lit ''GET'' \<and>
      (gx_require_key ctx \<longrightarrow> extract_api_key req \<noteq> None) \<and>
      (\<forall>key. extract_api_key req = Some key \<longrightarrow> validate_key (ae_crypto E) Q key (gt_keys S))))"
proof (cases "\<exists>buf req. tc_read c 65536 = Ok buf \<and> buf \<noteq> [] \<and> parse_http_request (ae_lowercase E) (from_utf8_lossy buf) = Ok req")
  case False
  then have "answered = None \<and> S' = S"
    using assms by (auto simp: handle_gateway_connection_def split: result.splits if_splits)
  then show ?thesis using same_cache by auto
next
  case True
  then obtain buf req where req: "tc_read c 65536 = Ok buf" "buf \<noteq> []"
      "parse_http_request (ae_lowercase E) (from_utf8_lossy buf) = Ok req" by blast
  obtain refused limits where gate: "gateway_gate (ae_crypto E) Q ctx (ae_secs E) ip req (gt_keys S) (gt_limits S) = (refused, limits)"
    by force
  show ?thesis
  proof (cases refused)
    case (Some resp)
    then have "answered = Some resp \<and> S' = S\<lparr>gt_limits := limits\<rparr>"
      using assms req gate by (simp add: handle_gateway_connection_def)
    then show ?thesis using gate_refuses [OF gate [unfolded Some]] same_cache by auto
  next
    case None
    obtain out st where out: "gateway_answer E req (gt_store S) = (out, st)" by force
    have S': "S' = S\<lparr>gt_store := st, gt_limits := limits\<rparr>" "answered = (case out of Ok resp \<Rightarrow> Some resp | _ \<Rightarrow> None)"
      using assms req gate None out by (auto simp: handle_gateway_connection_def split: result.splits)
    have "rq_method req = lit ''GET''" if "answered = Some resp" "rp_status resp = 200" for resp
      using S'(2) that gateway_answers_get [of E req "gt_store S" resp st] out by (auto split: result.splits)
    with S'(1) req gate_passes [OF gate [unfolded None]] gateway_answer_reads [of E req "gt_store S"] out
    show ?thesis by auto
  qed
qed

section \<open>Keys work until they are revoked\<close>

lemma hex_decode_encode [simp]: "hex_decode (hex_encode bs) = Some bs"
proof (induction bs)
  case (Cons b bs)
  have "unat b div 16 < 16" using unat_u8_less [of b] by (simp add: less_mult_imp_div_less)
  with Cons show ?case by (simp add: hex_encode_def hex_byte_def)
qed (simp add: hex_encode_def)

definition keys_laws :: "keys_serde \<Rightarrow> bool" where
  "keys_laws Q \<longleftrightarrow> (\<forall>ks. \<exists>s. ks_to_string_pretty Q ks = Ok s \<and> ks_from_str Q s = Ok ks)"

definition reliable_file :: "text_file \<Rightarrow> bool" where
  "reliable_file f \<longleftrightarrow> fl_read_error f = None \<and> fl_write_error f = None"

lemma save_keys_reliable:
  assumes "keys_laws Q" and "reliable_file f"
  shows "\<exists>f'. save_keys Q ks f = (Ok (), f') \<and> reliable_file f' \<and> file_exists f' \<and> read_keys Q f' = Ok ks"
proof -
  obtain s where "ks_to_string_pretty Q ks = Ok s" "ks_from_str Q s = Ok ks" using assms(1) by (auto simp: keys_laws_def)
  with assms(2) show ?thesis
    by (auto simp: save_keys_def write_file_def reliable_file_def file_exists_def read_keys_def read_to_string_def res_simps)
qed

text \<open>A key that is created under a free nickname is accepted, and listed after the others; revoking it gives the
  earlier list back, and the secret is accepted then only if the same secret was there before, up to collisions of the
  hash.\<close>

theorem key_lifetime:
  assumes "keys_laws Q" and "reliable_file f" and "list_keys Q f = Ok ks" and "nickname \<notin> gk_nickname ` set ks"
    and "length secret_bytes = 32"
  shows "\<exists>info f' f''. create_key K Q now secret_bytes nickname f = (Ok (hex_encode secret_bytes, info), f') \<and>
    list_keys Q f' = Ok (ks @ [info]) \<and> validate_key K Q (hex_encode secret_bytes) f' \<and>
    revoke_key Q nickname f' = (Ok True, f'') \<and> list_keys Q f'' = Ok ks \<and>
    (validate_key K Q (hex_encode secret_bytes) f'' \<longleftrightarrow> (\<exists>k \<in> set ks. gk_key_hash k = hex_encode (blake3 K secret_bytes)))"
proof -
  let ?info = "\<lparr>gk_nickname = nickname, gk_key_hash = hex_encode (blake3 K secret_bytes), gk_created_at = now,
    gk_last_used = 0, gk_request_count = 0\<rparr>"
  obtain f' where f': "save_keys Q (ks @ [?info]) f = (Ok (), f')" "reliable_file f'" "file_exists f'"
      "read_keys Q f' = Ok (ks @ [?info])"
    using save_keys_reliable [OF assms(1,2)] by blast
  obtain f'' where f'': "save_keys Q ks f' = (Ok (), f'')" "file_exists f''" "read_keys Q f'' = Ok ks"
    using save_keys_reliable [OF assms(1) f'(2)] by blast
  have old: "(if file_exists f then (case ks_from_str Q (case read_to_string f of Ok contents \<Rightarrow> contents | _ \<Rightarrow> []) of
      Ok ks \<Rightarrow> ks | _ \<Rightarrow> []) else []) = ks"
    using assms(2,3) by (auto simp: list_keys_def read_keys_def res_simps reliable_file_def split: if_splits)
  have free: "\<not> (\<exists>k \<in> set ks. gk_nickname k = nickname)" using assms(4) by auto
  have create: "create_key K Q now secret_bytes nickname f = (Ok (hex_encode secret_bytes, ?info), f')"
    unfolding create_key_def old Let_def using f'(1) free by (simp add: res_simps)
  have kept: "filter (\<lambda>k. gk_nickname k \<noteq> nickname) (ks @ [?info]) = ks"
    using free by (simp add: filter_id_conv)
  have revoke: "revoke_key Q nickname f' = (Ok True, f'')"
    using f' f''(1) by (simp add: revoke_key_def Let_def kept res_simps del: filter_append)
  show ?thesis
    using create revoke f' f'' assms(5) by (auto simp: list_keys_def validate_key_def Let_def list_ex_iff)
qed

section \<open>The rate limit and made-up keys\<close>

text \<open>A client that sends a key it has not sent before is not counted under its address, whether the key is valid or not:
  it is never told to slow down.\<close>

theorem fresh_key_escapes_limit:
  assumes "extract_api_key req = Some key" and "limits key = None" and "1 \<le> gx_rate_limit ctx"
  shows "case gateway_gate K Q ctx now ip req keys limits of (answered, limits') \<Rightarrow>
    (\<forall>resp. answered = Some resp \<longrightarrow> rp_status resp = 401) \<and> (\<forall>i. i \<noteq> key \<longrightarrow> limits' i = limits i)"
  using assms
  by (auto simp: gateway_gate_def check_rate_limit_def refusal_def HttpResponse_new_def Let_def split: if_splits option.splits)

section \<open>Runs\<close>

text \<open>Keys as arrays of their fields.\<close>

definition key_value :: "GatewayKeyInfo \<Rightarrow> json" where
  "key_value k = JArr [JStr (gk_nickname k), JStr (gk_key_hash k), JNum [unat (gk_created_at k)], JNum [unat (gk_last_used k)],
     JNum [unat (gk_request_count k)]]"

definition field_of :: "json \<Rightarrow> ustr" where
  "field_of v = (case v of JStr s \<Rightarrow> s | JNum s \<Rightarrow> s | _ \<Rightarrow> [])"

definition value_key :: "json \<Rightarrow> GatewayKeyInfo" where
  "value_key v = (let fs = map field_of (unwrap_or (as_array v) []) in
     \<lparr>gk_nickname = fs ! 0, gk_key_hash = fs ! 1, gk_created_at = of_nat (hd (fs ! 2)), gk_last_used = of_nat (hd (fs ! 3)),
      gk_request_count = of_nat (hd (fs ! 4))\<rparr>)"

definition sample_keys :: keys_serde where
  "sample_keys = \<lparr>ks_to_string_pretty = (\<lambda>ks. js_pretty sample_json (JArr (map key_value ks))),
     ks_from_str = (\<lambda>s. rbind (js_parse sample_json s) (\<lambda>v. Ok (map value_key (unwrap_or (as_array v) []))))\<rparr>"

lemma sample_keys_laws: "keys_laws sample_keys"
unfolding keys_laws_def
proof
  fix ks :: "GatewayKeyInfo list"
  have "map (value_key \<circ> key_value) ks = ks"
    by (rule map_idI) (simp add: key_value_def value_key_def field_of_def Let_def)
  moreover obtain s where "js_pretty sample_json (JArr (map key_value ks)) = Ok s" "js_parse sample_json s = Ok (JArr (map key_value ks))"
    using sample_json_laws unfolding json_laws_def by blast
  ultimately show "\<exists>s. ks_to_string_pretty sample_keys ks = Ok s \<and> ks_from_str sample_keys s = Ok ks"
    by (simp add: sample_keys_def)
qed

definition gateway_start :: "(mem_db, unit) gateway_state" where
  "gateway_start = \<lparr>gt_store = sample_store, gt_keys = plain_file None, gt_limits = Map.empty\<rparr>"

theorem key_lifetime_witness:
  "\<exists>info f' f''. create_key sample_crypto sample_keys 5 (replicate 32 7) (lit ''me'') (plain_file None) =
      (Ok (hex_encode (replicate 32 7), info), f') \<and>
    validate_key sample_crypto sample_keys (hex_encode (replicate 32 7)) f' \<and>
    revoke_key sample_keys (lit ''me'') f' = (Ok True, f'') \<and> \<not> validate_key sample_crypto sample_keys (hex_encode (replicate 32 7)) f''"
  using key_lifetime [OF sample_keys_laws, of "plain_file None" "[]" "lit ''me''" "replicate 32 7" sample_crypto 5]
  by (auto simp: reliable_file_def plain_file_def list_keys_def file_exists_def)

theorem fresh_key_escapes_limit_witness:
  "case gateway_gate sample_crypto sample_keys \<lparr>gx_rate_limit = 1, gx_require_key = True\<rparr> 5 (lit ''10.0.0.1'')
      (health_request\<lparr>rq_query := [(lit ''api_key'', lit ''guess2'')]\<rparr>) (plain_file None) [lit ''guess1'' \<mapsto> \<lparr>rl_count = 1, rl_window_start = 5\<rparr>] of
    (answered, limits') \<Rightarrow> (\<forall>resp. answered = Some resp \<longrightarrow> rp_status resp = 401) \<and> limits' (lit ''10.0.0.1'') = None"
  using fresh_key_escapes_limit [of "health_request\<lparr>rq_query := [(lit ''api_key'', lit ''guess2'')]\<rparr>" "lit ''guess2''"
      "[lit ''guess1'' \<mapsto> \<lparr>rl_count = 1, rl_window_start = 5\<rparr>]" "\<lparr>gx_rate_limit = 1, gx_require_key = True\<rparr>"
      sample_crypto sample_keys 5 "lit ''10.0.0.1''" "plain_file None"]
  by (auto simp: extract_api_key_def health_request_def split: prod.splits)

theorem gateway_reads_only_witness:
  "case handle_gateway_connection api_sample sample_keys id \<lparr>gx_rate_limit = 1, gx_require_key = False\<rparr> (lit ''10.0.0.1'')
      (one_request health_text) gateway_start of
    (r, answered, S') \<Rightarrow> answered = Some (handle_health api_sample) \<and> r = Ok () \<and> st_db (gt_store S') = mem_empty"
proof -
  let ?ctx = "\<lparr>gx_rate_limit = 1, gx_require_key = False\<rparr>"
  let ?run = "handle_gateway_connection api_sample sample_keys id ?ctx (lit ''10.0.0.1'') (one_request health_text) gateway_start"
  have "gateway_gate K Q ?ctx now ip health_request keys Map.empty = (None, [ip \<mapsto> \<lparr>rl_count = 1, rl_window_start = now\<rparr>])" for K :: "(unit, unit) crypto" and Q now ip keys
    by (simp add: gateway_gate_def extract_api_key_def health_request_def check_rate_limit_def)
  then have "fst ?run = Ok () \<and> fst (snd ?run) = Some (handle_health api_sample)"
    using health_text_read health_parsed
    by (simp add: handle_gateway_connection_def gateway_start_def gateway_answer_def gateway_route_def one_request_def
        health_request_def handle_health_def send_flush_def send_def)
  moreover obtain r answered S' where run: "?run = (r, answered, S')" by (metis prod.exhaust)
  ultimately show ?thesis
    using gateway_reads_only [OF run] by (auto simp: gateway_start_def sample_store_def Store_new_def)
qed

end
