(* ===== verification/Commands.thy ===== *)
theory Commands
  imports Client Gateway Providers Stun Dht
begin

text \<open>
  The commands of \<^verbatim>\<open>src/src/main.rs\<close> that work on the files of the data directory and on the
  running node's API, with their arguments as \<^verbatim>\<open>src/src/cli/cmd.rs\<close> declares them. A command gives
  the lines it prints, how it ends, and the file it edits. The API client (\<^verbatim>\<open>Client\<close>) is a parameter:
  nothing when the API is not reachable.
\<close>

section \<open>Output and endings\<close>

datatype out_line = Out ustr | Eout ustr

text \<open>A command returns, returns an error, which \<^verbatim>\<open>main\<close> prints before it exits with 1, exits by itself, or
  panics.\<close>

datatype ending = Finished | Failed ustr | Exit nat | Panicked

type_synonym 's command = "out_line list \<times> ending \<times> 's"

definition say :: "ustr list \<Rightarrow> 's \<Rightarrow> 's command" where
  "say ls S = (map Out ls, Finished, S)"

text \<open>The question mark.\<close>

definition attempt :: "('a, ustr) result \<Rightarrow> 's \<Rightarrow> ('a \<Rightarrow> 's command) \<Rightarrow> 's command" where
  "attempt r S k = (case r of Ok x \<Rightarrow> k x | Err e \<Rightarrow> ([], Failed e, S) | Panic \<Rightarrow> ([], Panicked, S))"

definition attempt_on :: "('a, ustr) result \<times> 's \<Rightarrow> ('a \<Rightarrow> 's \<Rightarrow> 's command) \<Rightarrow> 's command" where
  "attempt_on p k = (case p of (r, S) \<Rightarrow> attempt r S (\<lambda>x. k x S))"

definition main_result :: "'s command \<Rightarrow> out_line list \<times> nat" where
  "main_result c = (case c of (out, e, _) \<Rightarrow> (case e of
     Finished \<Rightarrow> (out, 0) | Failed msg \<Rightarrow> (out @ [Eout (lit ''Error: '' @ msg)], 1) | Exit n \<Rightarrow> (out, n) | Panicked \<Rightarrow> (out, 101)))"

text \<open>The client's two calls, and the value a body is read as (\<^verbatim>\<open>from_str(..).unwrap_or_default()\<close>).\<close>

record api_conn =
  ac_get :: "ustr \<Rightarrow> (ustr, ustr) result"
  ac_post :: "ustr \<Rightarrow> ustr \<Rightarrow> (ustr, ustr) result"

definition body_value :: "json_lib \<Rightarrow> ustr \<Rightarrow> json" where
  "body_value L s = (case js_parse L s of Ok v \<Rightarrow> v | _ \<Rightarrow> JNull)"

definition str_or :: "string \<Rightarrow> json \<Rightarrow> string \<Rightarrow> ustr" where
  "str_or k v d = unwrap_or (get_str k v) (lit d)"

definition array_at :: "string \<Rightarrow> json \<Rightarrow> json list option" where
  "array_at k v = Option.bind (json_get k v) as_array"

definition is_ok_body :: "json_lib \<Rightarrow> ustr \<Rightarrow> bool" where
  "is_ok_body L s \<longleftrightarrow> unwrap_or (Option.bind (json_get ''ok'' (body_value L s)) as_bool) False"

definition obj_text :: "json_lib \<Rightarrow> (string \<times> ustr) list \<Rightarrow> ustr" where
  "obj_text L ms = json_text L (JObj (map (\<lambda>(k, v). (lit k, JStr v)) ms))"

text \<open>\<^verbatim>\<open>{}. \<close> numbers of a list that is printed.\<close>

definition numbered :: "(nat \<Rightarrow> 'a \<Rightarrow> ustr) \<Rightarrow> 'a list \<Rightarrow> ustr list" where
  "numbered f xs = map (\<lambda>(i, x). f (i + 1) x) (enumerate 0 xs)"

definition quoted :: "ustr \<Rightarrow> ustr" where "quoted s = [39] @ s @ [39]"

section \<open>Roles\<close>

datatype RoleAction = RoleList | RoleSet ustr | RoleAdd ustr | RoleRemove ustr | RoleAutodetect

definition role_list :: "ustr \<Rightarrow> ustr list" where
  "role_list s = filter (\<lambda>r. r \<noteq> []) (map trim (split_on 44 s))"

definition known_role :: "ustr \<Rightarrow> (NodeRole, ustr) result" where
  "known_role role = (case NodeRole_from_str role of Some r \<Rightarrow> Ok r | None \<Rightarrow> Err (lit ''Unknown role: '' @ role))"

definition set_role :: "ustr \<Rightarrow> DsearchConfig \<Rightarrow> DsearchConfig" where
  "set_role s cfg = cfg\<lparr>cf_node := (cf_node cfg)\<lparr>nc_role := s\<rparr>\<rparr>"

definition save_role :: "config_toml \<Rightarrow> DsearchConfig \<Rightarrow> ustr \<Rightarrow> string \<Rightarrow> NodeRole \<Rightarrow> text_file \<Rightarrow> text_file command" where
  "save_role T cfg s what r f = attempt_on (save_config T (set_role s cfg) f) (\<lambda>_.
     say [lit ''Role '' @ lit what @ lit '': '' @ NodeRole_as_str r @ lit '' (saved to config.toml)''])"

text \<open>\<open>mk\<close> is the creation of the data directory, and \<open>found\<close> what the probe of \<^verbatim>\<open>autonat\<close> gives.\<close>

definition cmd_role :: "(unit, ustr) result \<Rightarrow> config_toml \<Rightarrow> (AutoNATResult, ustr) result \<Rightarrow> RoleAction \<Rightarrow> text_file
    \<Rightarrow> text_file command" where
  "cmd_role mk T found action f =
     (let edit = (\<lambda>role k. attempt (known_role role) f (\<lambda>r. attempt mk f (\<lambda>_. attempt (load_config T f) f (k r)))) in
      case action of
        RoleList \<Rightarrow> say (lit ''Available roles:'' # map (\<lambda>r. [32, 32] @ NodeRole_as_str r) NodeRole_all) f
      | RoleSet role \<Rightarrow> edit role (\<lambda>r cfg. save_role T cfg role ''set to'' r f)
      | RoleAdd role \<Rightarrow> edit role (\<lambda>r cfg.
          let roles = role_list (nc_role (cf_node cfg)); role_str = NodeRole_as_str r
          in if role_str \<notin> set roles then save_role T cfg (join [44] (roles @ [role_str])) ''added'' r f
             else say [lit ''Role '' @ NodeRole_as_str r @ lit '' already present''] f)
      | RoleRemove role \<Rightarrow> edit role (\<lambda>r cfg.
          let role_str = NodeRole_as_str r;
              roles = filter (\<lambda>s. s \<noteq> role_str) (role_list (nc_role (cf_node cfg)));
              roles = (if roles = [] then [lit ''light''] else roles)
          in save_role T cfg (join [44] roles) ''removed'' r f)
      | RoleAutodetect \<Rightarrow> attempt found f (\<lambda>result.
          if na_is_public result
          then say ([[10003] @ lit '' Node appears publicly reachable.''] @
            (case na_public_addr result of Some addr \<Rightarrow> [lit ''  Public address: '' @ addr] | None \<Rightarrow> []) @
            [lit ''  Recommendation: full or archive role'']) f
          else say [[10007] @ lit '' Node is not publicly reachable.'', lit ''  Reason: '' @ na_reason result,
            lit ''  Recommendation: light role (no inbound connections needed)''] f))"

section \<open>Configuration\<close>

datatype ConfigAction = ConfigShow | ConfigSet ustr ustr | ConfigReset

text \<open>\<^verbatim>\<open>println\<close> of a text that may have lines of its own is one line here.\<close>

definition cmd_config :: "(unit, ustr) result \<Rightarrow> config_toml \<Rightarrow> json_lib \<Rightarrow> api_conn option \<Rightarrow> ConfigAction \<Rightarrow> text_file
    \<Rightarrow> text_file command" where
  "cmd_config mk T L A action f = (case action of
     ConfigShow \<Rightarrow>
       (case Option.bind A (\<lambda>a. case ac_get a (lit ''/config'') of Ok body \<Rightarrow> Some body | _ \<Rightarrow> None) of
          Some body \<Rightarrow> attempt (js_pretty L (body_value L body)) f (\<lambda>s. say [s] f)
        | None \<Rightarrow>
            if file_exists f then attempt (read_to_string f) f (\<lambda>contents. say [contents] f)
            else say [default_config_toml T] f)
   | ConfigSet key val \<Rightarrow>
       (let set_line = say [lit ''Set '' @ key @ lit '' = '' @ val] in
        if (case A of Some a \<Rightarrow> is_ok (ac_post a (lit ''/config/set'') (obj_text L [(''key'', key), (''value'', val)])) | None \<Rightarrow> False)
        then set_line f
        else attempt mk f (\<lambda>_. attempt (load_config T f) f (\<lambda>cfg.
          attempt (set_config_value cfg key val) f (\<lambda>cfg.
          attempt_on (save_config T cfg f) (\<lambda>_. set_line)))))
   | ConfigReset \<Rightarrow> attempt mk f (\<lambda>_. attempt_on (write_file (default_config_toml T) f) (\<lambda>_.
       say [lit ''Config reset to defaults.''])))"

section \<open>Gateway keys\<close>

datatype GatewayAction = KeyCreate "ustr option" | KeyList | KeyRevoke ustr

text \<open>A match on the result whose errors are printed, with exit code 1.\<close>

definition or_exit :: "('a, ustr) result \<times> 's \<Rightarrow> string \<Rightarrow> ('a \<Rightarrow> 's \<Rightarrow> 's command) \<Rightarrow> 's command" where
  "or_exit p what k = (case p of
     (Ok x, S) \<Rightarrow> k x S | (Err e, S) \<Rightarrow> ([Eout (lit what @ lit '': '' @ e)], Exit 1, S) | (Panic, S) \<Rightarrow> ([], Panicked, S))"

text \<open>\<open>random_name\<close> and \<open>secret\<close> are the random source's, \<open>now\<close> the clock's.\<close>

definition cmd_gateway :: "('sk, 'vk) crypto \<Rightarrow> keys_serde \<Rightarrow> u64 \<Rightarrow> ustr \<Rightarrow> bytes \<Rightarrow> GatewayAction \<Rightarrow> text_file \<Rightarrow> text_file command" where
  "cmd_gateway K Q now random_name secret action f = (case action of
     KeyCreate nickname \<Rightarrow>
       or_exit (create_key K Q now secret (unwrap_or nickname random_name) f) ''Error creating key'' (\<lambda>(secret, info).
         say [lit ''API key created:'', lit ''  Nickname:    '' @ gk_nickname info,
           lit ''  Secret:      '' @ secret @ lit ''  (save this '' @ [8212] @ lit '' it won'' @ [39] @ lit ''t be shown again)'',
           lit ''  Created at:  '' @ to_dec (unat (gk_created_at info))])
   | KeyList \<Rightarrow>
       or_exit (list_keys Q f, f) ''Error listing keys'' (\<lambda>keys.
         if keys = [] then say [lit ''No gateway API keys.'']
         else say ((lit ''Gateway API keys ('' @ to_dec (length keys) @ lit ''):'') # map (\<lambda>k.
           [32, 32] @ gk_nickname k @ lit ''  created='' @ to_dec (unat (gk_created_at k)) @ lit ''  last_used='' @
           to_dec (unat (gk_last_used k)) @ lit ''  requests='' @ to_dec (unat (gk_request_count k))) keys))
   | KeyRevoke nickname \<Rightarrow>
       or_exit (revoke_key Q nickname f) ''Error revoking key'' (\<lambda>revoked f.
         if revoked then say [lit ''Key '' @ quoted nickname @ lit '' revoked.''] f
         else ([Eout (lit ''Key '' @ quoted nickname @ lit '' not found.'')], Exit 1, f)))"

end
