(* ===== verification/Commands_Records.thy ===== *)
theory Commands_Records
  imports Commands
begin

text \<open>
  The record and search commands of \<^verbatim>\<open>src/src/main.rs\<close>. Each asks the running node first and opens the
  database itself otherwise; the database is then the state. \<open>locked\<close> is the error of opening it.
\<close>

section \<open>Asking the node\<close>

datatype RecordAction = RecGet ustr ustr | RecList "ustr option" u64 ustr | RecPin ustr | RecUnpin ustr | RecDelete ustr
  | RecInsert ustr | RecSweep | RecAnnounce ustr

type_synonym ended = "out_line list \<times> ending"

definition u64_or0 :: "string \<Rightarrow> json \<Rightarrow> ustr" where
  "u64_or0 k v = to_dec (unat (unwrap_or (Option.bind (json_get k v) as_u64) 0))"

definition print_record_text :: "json \<Rightarrow> ustr list" where
  "print_record_text v =
     [lit ''ID:          '' @ str_or ''id'' v ''?'', lit ''Source URL:  '' @ str_or ''source_url'' v ''?'',
      lit ''Source Hash: '' @ str_or ''source_hash'' v ''?'', lit ''Schema:      '' @ str_or ''schema'' v ''?'',
      lit ''Tags:        '' @ unwrap_or (map_option (\<lambda>a. join (lit '', '') (strings_of a)) (array_at ''tags'' v)) [],
      lit ''Created At:  '' @ u64_or0 ''created_at'' v, lit ''Expires At:  '' @ u64_or0 ''expires_at'' v,
      lit ''Body:'', str_or ''body'' v '''']"

definition list_text :: "json \<Rightarrow> ustr list" where
  "list_text v = (case array_at ''records'' v of
     None \<Rightarrow> []
   | Some records \<Rightarrow>
       if records = [] then [lit ''No records found.'']
       else (lit ''Records ('' @ to_dec (length records) @ lit ''):'') # map (\<lambda>r. [32, 32] @ str_or ''id'' r ''?'' @
         lit ''  schema='' @ str_or ''schema'' r ''?'' @ lit ''  created='' @ u64_or0 ''created_at'' r) records)"

text \<open>A request whose failure ends the command.\<close>

definition or_die :: "(ustr, ustr) result \<Rightarrow> (ustr \<Rightarrow> ustr) \<Rightarrow> ended" where
  "or_die r done_text = (case r of
     Ok body \<Rightarrow> ([Out (done_text body)], Finished) | Err e \<Rightarrow> ([Eout (lit ''Error: '' @ e)], Exit 1) | Panic \<Rightarrow> ([], Panicked))"

definition record_line :: "ustr \<Rightarrow> string \<Rightarrow> ustr" where
  "record_line i what = lit ''Record '' @ i @ [32] @ lit what"

definition no_record :: "ustr \<Rightarrow> ended" where
  "no_record i = ([Eout (lit ''Record not found: '' @ i)], Exit 1)"

definition list_path :: "ustr option \<Rightarrow> u64 \<Rightarrow> ustr" where
  "list_path schema limit = lit ''/records?limit='' @ to_dec (unat limit) @
     (case schema of Some s \<Rightarrow> lit ''&schema='' @ s | None \<Rightarrow> [])"

definition read_input :: "(ustr \<Rightarrow> text_file) \<Rightarrow> ustr \<Rightarrow> (ustr, ustr) result" where
  "read_input files path = map_err (\<lambda>e. lit ''read '' @ path @ lit '': '' @ e) (read_to_string (files path))"

text \<open>The change a command posts: where, and what is printed when it is done.\<close>

definition record_post :: "json_lib \<Rightarrow> RecordAction \<Rightarrow> (string \<times> ustr \<times> (ustr \<Rightarrow> ustr)) option" where
  "record_post L action =
     (let on = (\<lambda>path i what. Some (path, obj_text L [(''id'', i)], \<lambda>_. record_line i what)) in
      case action of
        RecPin i \<Rightarrow> on ''/record/pin'' i ''pinned.'' | RecUnpin i \<Rightarrow> on ''/record/unpin'' i ''unpinned.''
      | RecDelete i \<Rightarrow> on ''/record/delete'' i ''deleted.'' | RecAnnounce i \<Rightarrow> on ''/record/announce'' i ''announced.''
      | RecSweep \<Rightarrow> Some (''/record/sweep'', lit ''{}'', \<lambda>body. let v = body_value L body in
          lit ''Expiry sweep complete: removed '' @ u64_or0 ''records_removed'' v @ lit '' records, '' @
          u64_or0 ''announcements_removed'' v @ lit '' announcements.'')
      | _ \<Rightarrow> None)"

text \<open>\<open>None\<close>: the command goes on to the database.\<close>

definition record_api :: "json_lib \<Rightarrow> (ustr \<Rightarrow> text_file) \<Rightarrow> api_conn \<Rightarrow> RecordAction \<Rightarrow> ended option" where
  "record_api L files a action =
     (let show = (\<lambda>output body text. Some (map Out (if output = lit ''json'' then [body] else text (body_value L body)), Finished)) in
      case action of
        RecGet i output \<Rightarrow> (case ac_get a (lit ''/record/'' @ i) of
          Ok body \<Rightarrow> show output body print_record_text
        | Err e \<Rightarrow> if str_contains e (lit ''not found'') then Some (no_record i) else None
        | Panic \<Rightarrow> Some ([], Panicked))
      | RecList schema limit output \<Rightarrow> (case ac_get a (list_path schema limit) of
          Ok body \<Rightarrow> show output body list_text | Err _ \<Rightarrow> None | Panic \<Rightarrow> Some ([], Panicked))
      | RecInsert path \<Rightarrow> (case read_input files path of
          Err e \<Rightarrow> Some ([], Failed e) | Panic \<Rightarrow> Some ([], Panicked)
        | Ok json_str \<Rightarrow> Some (or_die (ac_post a (lit ''/record/insert'') json_str) (\<lambda>body. let v = body_value L body in
            lit ''Record '' @ str_or ''id'' v ''?'' @ [32] @ str_or ''action'' v ''inserted'' @ lit ''.'')))
      | _ \<Rightarrow> map_option (\<lambda>(path, body, done_text). or_die (ac_post a (lit path) body) done_text) (record_post L action))"

section \<open>Opening the database\<close>

text \<open>The state afterwards is the database, when the command has opened it. The signing key of a store that a
  command opens is not set.\<close>

definition with_store :: "('sk, 'vk, 'd, 't, 'f, 'c) api_env \<Rightarrow> ('d, ustr) result \<Rightarrow> text_file
    \<Rightarrow> (('d, 'sk) Store \<Rightarrow> ('d, 'sk) Store command) \<Rightarrow> 'd option command" where
  "with_store E created config_file k =
     attempt (open_store (ae_redb E) created) None (\<lambda>d. attempt (load_config (ae_config_toml E) config_file) (Some d) (\<lambda>config.
       case k (Store_new d (cf_storage config)) of (out, e, st) \<Rightarrow> (out, e, Some (st_db st))))"

fun list_rows :: "(ustr \<Rightarrow> (bool, ustr) result) \<Rightarrow> ContentRecord list \<Rightarrow> ended" where
  "list_rows pinned [] = ([], Finished)"
| "list_rows pinned (r # rs) = (case pinned (cr_id r) of
     Ok p \<Rightarrow> apfst ((#) (Out ([32, 32] @ cr_id r @ lit ''  schema='' @ cr_schema r @ lit ''  tags=['' @ join [44] (cr_tags r) @
       lit '']  created='' @ to_dec (unat (cr_created_at r)) @ lit ''  expires='' @ to_dec (unat (cr_expires_at r)) @
       (if p then lit '' [pinned]'' else [])))) (list_rows pinned rs)
   | Err e \<Rightarrow> ([], Failed e) | Panic \<Rightarrow> ([], Panicked))"

definition get_direct :: "('sk, 'vk, 'd, 't, 'f, 'c) api_env \<Rightarrow> (ContentRecord \<Rightarrow> (ustr, ustr) result) \<Rightarrow> ustr \<Rightarrow> ustr \<Rightarrow> ('d, 'sk) Store
    \<Rightarrow> ended" where
  "get_direct E pretty i output st = (case store_get_record (ae_redb E) (ae_serde E) i st of
     Err e \<Rightarrow> ([], Failed e) | Panic \<Rightarrow> ([], Panicked)
   | Ok None \<Rightarrow> no_record i
   | Ok (Some record) \<Rightarrow>
       if output = lit ''json''
       then (case pretty record of Ok s \<Rightarrow> ([Out s], Finished) | Err e \<Rightarrow> ([], Failed e) | Panic \<Rightarrow> ([], Panicked))
       else
         let fields = map Out
               [lit ''ID:          '' @ cr_id record, lit ''Source URL:  '' @ cr_source_url record,
                lit ''Source Hash: '' @ cr_source_hash record, lit ''Schema:      '' @ cr_schema record,
                lit ''Tags:        '' @ join (lit '', '') (cr_tags record),
                lit ''Created At:  '' @ to_dec (unat (cr_created_at record)), lit ''Expires At:  '' @ to_dec (unat (cr_expires_at record))]
         in case store_is_pinned (ae_redb E) i st of
              Ok pinned \<Rightarrow> (fields @ [Out (lit ''Lifecycle:   '' @ (if pinned then lit ''pinned'' else lit ''ephemeral'')),
                Out (lit ''Body:''), Out (cr_body record)], Finished)
            | Err e \<Rightarrow> (fields, Failed e) | Panic \<Rightarrow> (fields, Panicked))"

definition insert_text :: "ustr \<Rightarrow> InsertResult \<Rightarrow> ustr" where
  "insert_text i r = record_line i (case r of
     Inserted \<Rightarrow> ''inserted.'' | ReplacedNewer \<Rightarrow> ''replaced older record with same source_hash.''
   | SkippedOlder \<Rightarrow> ''skipped (older than existing with same source_hash).'')"

definition ended_with :: "'s \<Rightarrow> ended \<Rightarrow> 's command" where
  "ended_with S r = (fst r, snd r, S)"

definition record_direct :: "('sk, 'vk, 'd, 't, 'f, 'c) api_env \<Rightarrow> (ContentRecord \<Rightarrow> (ustr, ustr) result) \<Rightarrow> (ustr \<Rightarrow> text_file)
    \<Rightarrow> RecordAction \<Rightarrow> ('d, 'sk) Store \<Rightarrow> ('d, 'sk) Store command" where
  "record_direct E pretty files action st =
     (let R = ae_redb E; J = ae_serde E; yes_or = (\<lambda>i what r st. if r then say [record_line i what] st else ended_with st (no_record i)) in
      case action of
        RecGet i output \<Rightarrow> ended_with st (get_direct E pretty i output st)
      | RecList schema limit output \<Rightarrow> attempt (store_list_records R J schema limit st) st (\<lambda>records.
          if records = [] then say [lit ''No records found.''] st
          else if output = lit ''json'' then attempt (as_records_pretty (ae_values E) records) st (\<lambda>s. say [s] st)
          else ended_with st (apfst ((#) (Out (lit ''Records ('' @ to_dec (length records) @ lit ''):'')))
            (list_rows (\<lambda>i. store_is_pinned R i st) records)))
      | RecPin i \<Rightarrow> attempt_on (store_pin_record R (ae_secs E) i st) (yes_or i ''pinned.'')
      | RecUnpin i \<Rightarrow> attempt_on (store_unpin_record R i st) (\<lambda>removed st.
          if removed then say [record_line i ''unpinned.''] st
          else ended_with st ([Eout (record_line i ''was not pinned.'')], Finished))
      | RecDelete i \<Rightarrow> attempt_on (store_delete_record R J i st) (yes_or i ''deleted.'')
      | RecInsert path \<Rightarrow> attempt (read_input files path) st (\<lambda>json_str.
          attempt (map_err (\<lambda>e. lit ''parse record JSON: '' @ e) (record_from_json J json_str)) st (\<lambda>record.
          attempt (sanitize_record record) st (\<lambda>record.
          case store_insert_record (ae_crypto E) R J record st of ((r, record), st) \<Rightarrow>
            attempt r st (\<lambda>result. say [insert_text (cr_id record) result] st))))
      | RecSweep \<Rightarrow> attempt_on (store_sweep_once R J (ae_secs E) st) (\<lambda>(records, announcements).
          say [lit ''Expiry sweep complete: removed '' @ to_dec records @ lit '' records, '' @ to_dec announcements @ lit '' announcements.''])
      | RecAnnounce i \<Rightarrow> attempt (store_get_record R J i st) st (\<lambda>found. case found of
          Some record \<Rightarrow>
            (case store_insert_announcement (ae_crypto E) R J (announcement_for (ae_secs E) record) st of
               ((r, _), st) \<Rightarrow> attempt r st (\<lambda>_. say [record_line i ''announced.''] st))
        | None \<Rightarrow> ended_with st (no_record i)))"

definition cmd_record :: "('sk, 'vk, 'd, 't, 'f, 'c) api_env \<Rightarrow> (ContentRecord \<Rightarrow> (ustr, ustr) result) \<Rightarrow> (ustr \<Rightarrow> text_file)
    \<Rightarrow> api_conn option \<Rightarrow> ('d, ustr) result \<Rightarrow> text_file \<Rightarrow> RecordAction \<Rightarrow> 'd option command" where
  "cmd_record E pretty files A created config_file action =
     (case Option.bind A (\<lambda>a. record_api (ae_json E) files a action) of
        Some r \<Rightarrow> ended_with None r
      | None \<Rightarrow> with_store E created config_file (record_direct E pretty files action))"

section \<open>Searching\<close>

definition hex_upper :: "u8 \<Rightarrow> ustr" where
  "hex_upper b = map (\<lambda>c. if 97 \<le> c then c - 32 else c) (hex_byte b)"

text \<open>Upper-case digits, and a plus for a space.\<close>

definition url_encode :: "ustr \<Rightarrow> ustr" where
  "url_encode s = concat (map (\<lambda>b. if unreserved b then [unat b] else if b = 32 then [43] else 37 # hex_upper b) (utf8 s))"

definition search_path :: "ustr \<Rightarrow> ustr option \<Rightarrow> u32 \<Rightarrow> ustr" where
  "search_path query schema limit = lit ''/search?q='' @ url_encode query @
     (case schema of Some s \<Rightarrow> lit ''&schema='' @ url_encode s | None \<Rightarrow> []) @ lit ''&limit='' @ to_dec (unat limit)"

definition results_text :: "json \<Rightarrow> ustr list" where
  "results_text v = (case array_at ''results'' v of
     None \<Rightarrow> []
   | Some results \<Rightarrow>
       if results = [] then [lit ''No results found.'']
       else (lit ''Search results ('' @ to_dec (length results) @ lit ''):'') # concat (map (\<lambda>r.
         [[32, 32] @ str_or ''id'' r ''?'' @ lit ''  schema='' @ str_or ''schema'' r ''?'' @ lit ''  source='' @ str_or ''source_url'' r ''?'',
          [32, 32, 32, 32] @ take 120 (str_or ''body'' r '''')]) results))"

definition search_direct :: "('sk, 'vk, 'd, 't, 'f, 'c) api_env \<Rightarrow> ustr \<Rightarrow> ustr option \<Rightarrow> u32 \<Rightarrow> ustr \<Rightarrow> ('d, 'sk) Store
    \<Rightarrow> ('d, 'sk) Store command" where
  "search_direct E query schema limit output st =
     attempt_on (store_search_records (ae_redb E) (ae_serde E) (ae_vec_serde E) (ae_f64 E) (ae_lowercase E) (ae_instant E) (ae_secs E)
       (case schema of Some s \<Rightarrow> lit ''schema:'' @ s @ [32] @ query | None \<Rightarrow> query) (ucast limit) st) (\<lambda>results st.
       if output = lit ''json'' then attempt (as_records_pretty (ae_values E) results) st (\<lambda>s. say [s] st)
       else if results = [] then say [lit ''No results found.''] st
       else say ((lit ''Search results ('' @ to_dec (length results) @ lit ''):'') # concat (map (\<lambda>r.
         [[32, 32] @ cr_id r @ lit ''  schema='' @ cr_schema r @ lit ''  tags=['' @ join [44] (cr_tags r) @ lit '']  created='' @
            to_dec (unat (cr_created_at r)) @ lit ''  source='' @ cr_source_url r,
          [32, 32, 32, 32] @ take 120 (cr_body r)]) results)) st)"

definition cmd_search :: "('sk, 'vk, 'd, 't, 'f, 'c) api_env \<Rightarrow> api_conn option \<Rightarrow> ('d, ustr) result \<Rightarrow> text_file
    \<Rightarrow> ustr \<Rightarrow> ustr option \<Rightarrow> u32 \<Rightarrow> ustr \<Rightarrow> 'd option command" where
  "cmd_search E A created config_file query schema limit output =
     (case Option.bind A (\<lambda>a. case ac_get a (search_path query schema limit) of Ok body \<Rightarrow> Some body | _ \<Rightarrow> None) of
        Some body \<Rightarrow> say (if output = lit ''json'' then [body] else results_text (body_value (ae_json E) body)) None
      | None \<Rightarrow> with_store E created config_file (search_direct E query schema limit output))"

section \<open>What the node receives\<close>

lemma u8_from_hex_upper [simp]: "u8_from_hex (hex_upper b) = Some b"
proof -
  have up: "hex_val (if 97 \<le> hex_digit n then hex_digit n - 32 else hex_digit n) = Some n"
    "(if 97 \<le> hex_digit n then hex_digit n - 32 else hex_digit n) \<noteq> 43" if "n < 16" for n
    using that by (auto simp: hex_val_def hex_digit_def)
  have "unat b div 16 < 16" using unat_u8_less [of b] by (simp add: less_mult_imp_div_less)
  moreover have "16 * (unat b div 16) + unat b mod 16 = unat b" by simp
  ultimately show ?thesis
    using up by (simp add: hex_upper_def hex_byte_def del: of_nat_add of_nat_mult)
qed

lemma url_encode_decode: "percent_decode (url_encode s) = map unat (utf8 s)"
proof -
  let ?enc = "\<lambda>b. if unreserved b then [unat b] else if b = 32 then [43] else 37 # hex_upper b"
  have len: "length (hex_upper b) = 2" for b by (simp add: hex_upper_def)
  have "percent_decode (concat (map ?enc bs)) = map unat bs" for bs
  proof (induction bs)
    case (Cons b bs)
    show ?case
    proof (cases "unreserved b")
      case True
      then have "unat b \<noteq> 37" "unat b \<noteq> 43" by (auto simp: unreserved_def is_digit_def)
      with True Cons.IH show ?thesis by simp
    qed (use Cons.IH len [of b] in simp)
  qed simp
  then show ?thesis by (simp add: url_encode_def)
qed

lemma url_encode_chars: "c \<in> set (url_encode s) \<Longrightarrow> c = 37 \<or> c = 43 \<or> is_digit c \<or> 65 \<le> c \<and> c \<le> 90 \<or> 97 \<le> c \<and> c \<le> 122 \<or>
    c \<in> {45, 46, 95, 126}"
proof -
  define up where "up n = (if 97 \<le> hex_digit n then hex_digit n - 32 else hex_digit n)" for n
  have up: "is_digit (up n) \<or> 65 \<le> up n \<and> up n \<le> 90" if "n < 16" for n
    using that by (auto simp: up_def hex_digit_def is_digit_def)
  have "is_digit c \<or> 65 \<le> c \<and> c \<le> 90" if "c \<in> set (hex_upper b)" for b
  proof -
    have "unat b div 16 < 16" "unat b mod 16 < 16" using unat_u8_less [of b] by (simp_all add: less_mult_imp_div_less)
    moreover have "c = up (unat b div 16) \<or> c = up (unat b mod 16)"
      using that by (simp add: hex_upper_def hex_byte_def up_def)
    ultimately show ?thesis using up by blast
  qed
  then show "c \<in> set (url_encode s) \<Longrightarrow> ?thesis"
    by (auto simp: url_encode_def unreserved_def split: if_splits)
qed

text \<open>What a query string must not have inside a pair.\<close>

lemma url_encode_plain: "set (url_encode s) \<inter> {10, 13, 32, 38, 61, 63} = {}"
  by (auto dest!: url_encode_chars simp: is_digit_def)

lemma to_dec_plain: "set (to_dec n) \<inter> {10, 13, 32, 37, 38, 43, 61, 63} = {}"
  using to_dec_digits [of n] by (auto simp: list_all_iff is_digit_def)

lemma decode_plain: "37 \<notin> set s \<Longrightarrow> 43 \<notin> set s \<Longrightarrow> percent_decode s = s"
  by (induction s) auto

definition search_query :: "ustr \<Rightarrow> ustr option \<Rightarrow> u32 \<Rightarrow> headers" where
  "search_query query schema limit = (lit ''q'', map unat (utf8 query)) #
     (case schema of Some s \<Rightarrow> [(lit ''schema'', map unat (utf8 s))] | None \<Rightarrow> []) @ [(lit ''limit'', to_dec (unat limit))]"

lemma search_path_query: "target_parts (search_path query schema limit) =
    (lit ''/search'', join [38] ((lit ''q='' @ url_encode query) #
      (case schema of Some s \<Rightarrow> [lit ''schema='' @ url_encode s] | None \<Rightarrow> []) @ [lit ''limit='' @ to_dec (unat limit)]))"
  by (simp add: target_parts_def search_path_def lit_Cons split: option.split)

lemma search_query_parsed: "parse_query_string (snd (target_parts (search_path query schema limit))) = search_query query schema limit"
proof -
  let ?pairs = "(lit ''q='' @ url_encode query) # (case schema of Some s \<Rightarrow> [lit ''schema='' @ url_encode s] | None \<Rightarrow> []) @
    [lit ''limit='' @ to_dec (unat limit)]"
  have "38 \<notin> set p" if "p \<in> set ?pairs" for p
    using that url_encode_plain to_dec_plain by (fastforce simp: lit_Cons split: option.splits)
  then have "split_on 38 (join [38] ?pairs) = ?pairs" by (intro split_on_join) auto
  moreover have "percent_decode (lit ''q'') = lit ''q''" "percent_decode (lit ''schema'') = lit ''schema''"
      "percent_decode (lit ''limit'') = lit ''limit''" by (simp_all add: decode_plain lit_Cons)
  moreover have "percent_decode (to_dec (unat limit)) = to_dec (unat limit)"
    using to_dec_plain [of "unat limit"] by (simp add: decode_plain)
  moreover have "split_once 61 (lit ''q='' @ url_encode query) = Some (lit ''q'', url_encode query)"
      "split_once 61 (lit ''schema='' @ s) = Some (lit ''schema'', s)" "split_once 61 (lit ''limit='' @ s) = Some (lit ''limit'', s)" for s
    by (simp_all add: lit_Cons)
  ultimately show ?thesis
    by (simp add: search_path_query parse_query_string_def parse_query_pair_def url_encode_decode search_query_def join_Cons
        split: option.split)
qed

text \<open>C32: The search handler gets the query text that was typed exactly when it is ASCII: each byte is read as a
  character.\<close>

theorem search_request_received:
  assumes "\<forall>s. lc (lit s) = ascii_lower (lit s)"
  shows "\<exists>req. parse_http_request lc (get_request port (search_path query schema limit)) = Ok req \<and> rq_method req = lit ''GET'' \<and>
    rq_path req = lit ''/search'' \<and> rq_query req = search_query query schema limit \<and> limit_param req 20 = ucast limit \<and>
    (map_of (rq_query req) (lit ''q'') = Some query \<longleftrightarrow> (\<forall>c \<in> set query. c < 128))"
proof -
  have "set (search_path query schema limit) \<inter> {10, 13, 32} = {}"
    using url_encode_plain to_dec_plain by (fastforce simp: search_path_def lit_Cons split: option.splits)
  moreover have "percent_decode (lit ''/search'') = lit ''/search''" by (simp add: decode_plain lit_Cons)
  moreover have "validate_path (lit ''/search'') = Ok ()" by (simp add: validate_path_def lit_Cons)
  ultimately have "good_target (lit ''GET'') (search_path query schema limit)"
    by (auto simp: good_target_def search_path_query) (simp_all add: lit_Cons)
  from get_target_parsed [OF this assms, of port] obtain req where req:
    "parse_http_request lc (get_request port (search_path query schema limit)) = Ok req" "rq_method req = lit ''GET''"
    "rq_path req = lit ''/search''" "rq_query req = search_query query schema limit"
    by (auto simp: search_query_parsed) (simp add: search_path_query)
  moreover have "map_of (search_query query schema limit) (lit ''limit'') = Some (to_dec (unat limit))"
    by (simp add: search_query_def lit_Cons split: option.split)
  moreover have "parse_uint (2 ^ 64 - 1) (to_dec (unat limit)) = Some (unat limit)"
    by (rule parse_uint_to_dec, rule less_imp_le, rule order_less_le_trans [OF unsigned_less]) simp
  moreover have "map unat (utf8 query) = query \<longleftrightarrow> (\<forall>c \<in> set query. c < 128)"
    using percent_decode_ascii_only [of query] by (simp add: percent_decode_encode)
  ultimately show ?thesis by (simp add: limit_param_def search_query_def)
qed

theorem search_request_received_witness:
  "\<exists>req. parse_http_request ascii_lower (get_request 7744 (search_path [110, 239] (Some (lit ''article'')) 5)) = Ok req \<and>
    map_of (rq_query req) (lit ''q'') \<noteq> Some [110, 239] \<and> limit_param req 20 = 5"
  using search_request_received [of ascii_lower 7744 "[110, 239]" "Some (lit ''article'')" 5] by auto

end
