(* ===== verification/Commands_Peers.thy ===== *)
theory Commands_Peers
  imports Commands
begin

text \<open>
  The commands of \<^verbatim>\<open>src/src/main.rs\<close> on peers, bootstrap peers, scraper jobs and search providers.
\<close>

section \<open>Peers\<close>

datatype PeersAction = PeersList ustr | PeersAdd ustr | PeersBan ustr | PeersUnban ustr

definition peers_text :: "json_lib \<Rightarrow> ustr \<Rightarrow> ustr list" where
  "peers_text L body = (case array_at ''peers'' (body_value L body) of
     None \<Rightarrow> []
   | Some peers \<Rightarrow>
       if peers = [] then [lit ''No peers known.'']
       else (lit ''Peers ('' @ to_dec (length peers) @ lit ''):'') # map (\<lambda>p. [32, 32] @ str_or ''addr'' p ''?'') peers)"

text \<open>A change of the peers: one request when the API can be reached, and nothing otherwise.\<close>

definition peer_change :: "json_lib \<Rightarrow> api_conn option \<Rightarrow> string \<Rightarrow> string \<Rightarrow> string \<Rightarrow> string \<Rightarrow> ustr \<Rightarrow> out_line list" where
  "peer_change L A path field did verb x =
     (case Option.bind A (\<lambda>a. case ac_post a (lit path) (obj_text L [(field, x)]) of Ok resp \<Rightarrow> Some resp | _ \<Rightarrow> None) of
        Some resp \<Rightarrow>
          if is_ok_body L resp then [Out (lit ''Peer '' @ x @ lit did)]
          else [Eout (lit ''Failed to '' @ lit verb @ lit '' peer: '' @ x)]
      | None \<Rightarrow> [Out (lit ''Peer '' @ lit verb @ lit '': node is not running (start the node first)'')])"

definition cmd_peers :: "json_lib \<Rightarrow> api_conn option \<Rightarrow> PeersAction \<Rightarrow> unit command" where
  "cmd_peers L A action =
     ((case action of
         PeersList output \<Rightarrow>
           (case A of
              None \<Rightarrow> [Out (lit ''No peers known. Is the node running?'')]
            | Some a \<Rightarrow> (case ac_get a (lit ''/peers'') of
                Ok body \<Rightarrow> map Out (if output = lit ''json'' then [body] else peers_text L body)
              | Err e \<Rightarrow> [Eout (lit ''API error: '' @ e)] | Panic \<Rightarrow> []))
       | PeersAdd addr \<Rightarrow> peer_change L A ''/peers/add'' ''addr'' '' added.'' ''add'' addr
       | PeersBan peer_id \<Rightarrow> peer_change L A ''/peers/ban'' ''peer_id'' '' banned.'' ''ban'' peer_id
       | PeersUnban peer_id \<Rightarrow> peer_change L A ''/peers/unban'' ''peer_id'' '' unbanned.'' ''unban'' peer_id), Finished, ())"

section \<open>Bootstrap peers\<close>

datatype BootstrapAction = BootList | BootAdd ustr ustr ustr | BootRemove ustr | BootTest | BootReset

definition peer_row :: "nat \<Rightarrow> ustr \<Rightarrow> ustr \<Rightarrow> ustr \<Rightarrow> ustr" where
  "peer_row i peer_id addr note = [32, 32] @ to_dec i @ lit ''. id='' @ peer_id @ lit '' addr='' @ addr @ lit '' note='' @ [34] @ note @ [34]"

definition boot_list_api :: "json_lib \<Rightarrow> ustr \<Rightarrow> ustr list" where
  "boot_list_api L body = (case array_at ''peers'' (body_value L body) of
     None \<Rightarrow> []
   | Some peers \<Rightarrow>
       if peers = [] then [lit ''No bootstrap peers configured.'']
       else (lit ''Bootstrap peers ('' @ to_dec (length peers) @ lit ''):'') #
         numbered (\<lambda>i p. peer_row i (str_or ''id'' p ''?'') (str_or ''addr'' p ''?'') (str_or ''note'' p [])) peers)"

text \<open>\<^verbatim>\<open>&s[..n.min(s.len())]\<close>: the first \<open>n\<close> bytes, when that is between characters.\<close>

fun str_upto :: "nat \<Rightarrow> ustr \<Rightarrow> ustr option" where
  "str_upto n [] = Some []"
| "str_upto n (c # s) = (if n = 0 then Some []
     else if utf8_len c \<le> n then map_option ((#) c) (str_upto (n - utf8_len c) s) else None)"

lemma str_upto_ascii: "\<forall>c \<in> set s. c < 128 \<Longrightarrow> str_upto n s = Some (take n s)"
proof (induction n s rule: str_upto.induct)
  case (2 n c s)
  then have "utf8_len c = 1" by (simp add: utf8_len_def)
  with 2 show ?case by (cases n) simp_all
qed simp

text \<open>One peer tested: an address that parses is connected to, which gives the milliseconds it took.\<close>

definition test_peer :: "(ustr \<Rightarrow> ('a, ustr) result) \<Rightarrow> ('a \<Rightarrow> (nat, ustr) result) \<Rightarrow> BootstrapPeer \<Rightarrow> (bool \<times> ustr, ustr) result" where
  "test_peer parse connect p =
     (case str_upto 8 (bp_id p) of None \<Rightarrow> Panic | Some short_id \<Rightarrow>
        let row = (\<lambda>mark what. [32, 32, mark, 32] @ short_id @ lit '' ('' @ bp_addr p @ lit '') '' @ [8212, 32] @ what)
        in case parse (bp_addr p) of
             Ok addr \<Rightarrow> (case connect addr of
               Ok ms \<Rightarrow> Ok (True, row 10003 (to_dec ms @ lit ''ms'')) | Err e \<Rightarrow> Ok (False, row 10007 e) | Panic \<Rightarrow> Panic)
           | Err e \<Rightarrow> Ok (False, row 10007 (lit ''invalid address: '' @ e)) | Panic \<Rightarrow> Panic)"

text \<open>The rows until a panic, if there is one.\<close>

fun test_peers :: "(ustr \<Rightarrow> ('a, ustr) result) \<Rightarrow> ('a \<Rightarrow> (nat, ustr) result) \<Rightarrow> BootstrapPeer list \<Rightarrow> (bool \<times> ustr) list \<times> bool" where
  "test_peers parse connect [] = ([], True)"
| "test_peers parse connect (p # ps) = (case test_peer parse connect p of
     Ok row \<Rightarrow> apfst ((#) row) (test_peers parse connect ps) | _ \<Rightarrow> ([], False))"

text \<open>\<open>resolve\<close> is \<^verbatim>\<open>resolve_bootstrap_peers\<close> on the file; removing the file can fail with \<open>rm_error\<close>.\<close>

definition cmd_bootstrap :: "json_lib \<Rightarrow> toml \<Rightarrow> api_conn option \<Rightarrow> (text_file \<Rightarrow> (BootstrapPeer list, ustr) result)
    \<Rightarrow> (ustr \<Rightarrow> ('a, ustr) result) \<Rightarrow> ('a \<Rightarrow> (nat, ustr) result) \<Rightarrow> ustr option \<Rightarrow> BootstrapAction \<Rightarrow> text_file \<Rightarrow> text_file command" where
  "cmd_bootstrap L T A resolve parse connect rm_error action f = (case action of
     BootList \<Rightarrow>
       (case A of
          Some a \<Rightarrow> (case ac_get a (lit ''/bootstrap'') of
              Ok body \<Rightarrow> say (boot_list_api L body) f
            | Err e \<Rightarrow> ([Eout (lit ''API error: '' @ e)], Finished, f) | Panic \<Rightarrow> ([], Panicked, f))
        | None \<Rightarrow> attempt (resolve f) f (\<lambda>peers.
            if peers = [] then say [lit ''No bootstrap peers configured.''] f
            else say (lit ''Bootstrap peers:'' # numbered (\<lambda>i p. peer_row i (bp_id p) (bp_addr p) (bp_note p)) peers) f))
   | BootAdd peer_id addr note \<Rightarrow> attempt_on (write_bootstrap_peer T peer_id addr note f) (\<lambda>_.
       say [lit ''Added bootstrap peer: id='' @ peer_id @ lit '' addr='' @ addr])
   | BootRemove peer_id \<Rightarrow> attempt_on (remove_bootstrap_peer T peer_id f) (\<lambda>removed.
       say [(if removed then lit ''Removed bootstrap peer: id='' else lit ''Bootstrap peer not found: id='') @ peer_id])
   | BootTest \<Rightarrow> attempt (resolve f) f (\<lambda>peers.
       if peers = [] then say [lit ''No bootstrap peers configured. Add peers with `dsearch bootstrap add`.''] f
       else
         let (rows, whole) = test_peers parse connect peers;
             reachable = length (filter fst rows); failed = length (filter (\<lambda>r. \<not> fst r) rows); total = to_dec (length peers);
             start = lit ''Testing connectivity to '' @ total @ lit '' bootstrap peer(s)...''
         in if \<not> whole then (map Out (start # map snd rows), Panicked, f)
            else say (start # map snd rows @ [[10] @ lit ''Results: '' @ to_dec reachable @ lit ''/'' @ total @ lit '' reachable, '' @
              to_dec failed @ lit ''/'' @ total @ lit '' failed'']) f)
   | BootReset \<Rightarrow>
       if file_exists f
       then attempt (case rm_error of Some e \<Rightarrow> Err e | None \<Rightarrow> Ok ()) f (\<lambda>_.
         say [lit ''Removed custom bootstrap.toml. Defaults will be used.''] (f\<lparr>fl_contents := None\<rparr>))
       else say [] f)"

section \<open>Scraper jobs and providers\<close>

definition ok_or_else :: "'a option \<Rightarrow> ustr \<Rightarrow> ('a, ustr) result" where
  "ok_or_else x e = (case x of Some a \<Rightarrow> Ok a | None \<Rightarrow> Err e)"

definition new_job :: "ustr \<Rightarrow> ustr \<Rightarrow> ustr \<Rightarrow> ustr \<Rightarrow> u64 \<Rightarrow> ustr \<Rightarrow> u64 \<Rightarrow> (Config.ScrapeJob, ustr) result" where
  "new_job name source target refresh interval_secs lifecycle ttl_secs =
     rbind (ok_or_else (ScrapeSource_from_str source) (lit ''Unknown source type: '' @ source)) (\<lambda>src.
     rbind (ok_or_else (RefreshPolicy_from_str refresh) (lit ''Unknown refresh policy: '' @ refresh)) (\<lambda>policy.
     rbind (ok_or_else (Lifecycle_from_str lifecycle) (lit ''Unknown lifecycle: '' @ lifecycle)) (\<lambda>life.
     Ok \<lparr>sj_name = name, sj_source = src, sj_target = target, sj_transform = None, sj_refresh = policy,
         sj_interval_secs = interval_secs, sj_lifecycle = life, sj_ttl_secs = ttl_secs, sj_max_results = None\<rparr>)))"

definition push_job :: "Config.ScrapeJob \<Rightarrow> DsearchConfig \<Rightarrow> DsearchConfig" where
  "push_job job cfg = cfg\<lparr>cf_scraper := (cf_scraper cfg)\<lparr>xc_jobs := xc_jobs (cf_scraper cfg) @ [job]\<rparr>\<rparr>"

text \<open>Adding a job edits the configuration; no job is refused for its name.\<close>

definition cmd_scraper_add :: "(unit, ustr) result \<Rightarrow> config_toml \<Rightarrow> ustr \<Rightarrow> ustr \<Rightarrow> ustr \<Rightarrow> ustr \<Rightarrow> u64 \<Rightarrow> ustr \<Rightarrow> u64 \<Rightarrow> text_file
    \<Rightarrow> text_file command" where
  "cmd_scraper_add mk T name source target refresh interval_secs lifecycle ttl_secs f =
     attempt mk f (\<lambda>_. attempt (load_config T f) f (\<lambda>cfg.
       attempt (new_job name source target refresh interval_secs lifecycle ttl_secs) f (\<lambda>job.
       attempt_on (save_config T (push_job job cfg) f) (\<lambda>_.
         say [lit ''Scraper job '' @ quoted name @ lit '' added.'']))))"

definition job_row :: "ustr \<Rightarrow> ustr \<Rightarrow> ustr \<Rightarrow> ustr \<Rightarrow> ustr \<Rightarrow> ustr" where
  "job_row name source target refresh lifecycle = [32, 32] @ name @ lit ''  source='' @ source @ lit ''  target='' @ target @
     lit ''  refresh='' @ refresh @ lit ''  lifecycle='' @ lifecycle"

definition jobs_text :: "ustr list \<Rightarrow> ustr list" where
  "jobs_text rows = (if rows = [] then [lit ''No scraper jobs configured.'']
     else (lit ''Scraper jobs ('' @ to_dec (length rows) @ lit ''):'') # rows)"

definition cmd_scraper_list :: "config_toml \<Rightarrow> json_lib \<Rightarrow> api_conn option \<Rightarrow> text_file \<Rightarrow> text_file command" where
  "cmd_scraper_list T L A f =
     (case Option.bind A (\<lambda>a. case ac_get a (lit ''/scraper'') of Ok body \<Rightarrow> Some body | _ \<Rightarrow> None) of
        Some body \<Rightarrow> say (case array_at ''jobs'' (body_value L body) of None \<Rightarrow> [] | Some jobs \<Rightarrow>
          jobs_text (map (\<lambda>j. job_row (str_or ''name'' j ''?'') (str_or ''source'' j ''?'') (str_or ''target'' j ''?'')
            (str_or ''refresh'' j ''?'') (str_or ''lifecycle'' j ''?'')) jobs)) f
      | None \<Rightarrow> attempt (load_config T f) f (\<lambda>config. say (jobs_text (map (\<lambda>j. job_row (sj_name j) (ScrapeSource_as_str (sj_source j))
          (sj_target j) (RefreshPolicy_as_str (sj_refresh j)) (Lifecycle_as_str (sj_lifecycle j))) (xc_jobs (cf_scraper config)))) f))"

definition cmd_provider_add :: "providers_toml \<Rightarrow> ustr \<Rightarrow> ustr \<Rightarrow> text_file \<Rightarrow> text_file command" where
  "cmd_provider_add T name endpoint f = (case add_provider T name endpoint f of
     (Ok _, f) \<Rightarrow> say [lit ''Provider '' @ quoted name @ lit '' added with endpoint '' @ endpoint] f
   | (Err e, f) \<Rightarrow> ([Eout (lit ''Error: '' @ e)], Finished, f) | (Panic, f) \<Rightarrow> ([], Panicked, f))"

definition cmd_provider_remove :: "providers_toml \<Rightarrow> ustr \<Rightarrow> text_file \<Rightarrow> text_file command" where
  "cmd_provider_remove T name f = (case remove_provider T name f of
     (Ok removed, f) \<Rightarrow> say [lit ''Provider '' @ quoted name @ (if removed then lit '' removed.'' else lit '' not found.'')] f
   | (Err e, f) \<Rightarrow> ([Eout (lit ''Error: '' @ e)], Finished, f) | (Panic, f) \<Rightarrow> ([], Panicked, f))"

end
