(* ===== verification/Command_Laws.thy ===== *)
theory Command_Laws
  imports Commands_Records Commands_Peers Routes
begin

text \<open>
  How the commands of the command line meet the node: a change made through the running node and one made on
  the database itself, a search as the node receives it, and what the role commands do to the set of roles.
\<close>

section \<open>The two ways of a change\<close>

lemma obj_text_parsed:
  assumes "json_laws L"
  shows "js_parse L (obj_text L [(k, v)]) = Ok (JObj [(lit k, JStr v)])"
proof -
  obtain s where "js_print L (JObj [(lit k, JStr v)]) = Ok s" "js_parse L s = Ok (JObj [(lit k, JStr v)])"
    using assms by (auto simp: json_laws_def)
  then show ?thesis by (simp add: obj_text_def json_text_def)
qed

lemma id_request:
  assumes "json_laws (ae_json E)" and "rq_body req = obj_text (ae_json E) [(''id'', i)]"
  shows "with_body E req S (\<lambda>body. with_field E ''id'' body S k) = k i"
  using obj_text_parsed [OF assms(1), of "''id''" i] assms(2) by (simp add: with_body_def with_field_def get_str_def)

lemmas response_simps = ok_json_def with_node_headers_def add_header_def HttpResponse_json_def HttpResponse_ok_def as_json_def
  HttpResponse_new_def not_found_def bad_request_def internal_error_def

lemma ok_json_status [simp]: "rp_status (ok_json E ms) = 200"
  by (simp add: response_simps)

lemma error_status [simp]: "rp_status (not_found L e) = 404" "rp_status (bad_request L e) = 400" "rp_status (internal_error L e) = 500"
  by (simp_all add: response_simps)

lemmas direct_simps = record_direct_def Let_def say_def ended_with_def no_record_def

text \<open>What the operations do to the database does not depend on the rest of the store.\<close>

lemma store_ops_db:
  assumes "st_db st = st_db st'"
  shows "(case store_pin_record R now i st of (r, s) \<Rightarrow> (r, st_db s)) = (case store_pin_record R now i st' of (r, s) \<Rightarrow> (r, st_db s))"
    "(case store_unpin_record R i st of (r, s) \<Rightarrow> (r, st_db s)) = (case store_unpin_record R i st' of (r, s) \<Rightarrow> (r, st_db s))"
    "(case store_sweep_once R J now st of (r, s) \<Rightarrow> (r, st_db s)) = (case store_sweep_once R J now st' of (r, s) \<Rightarrow> (r, st_db s))"
    "(case store_delete_record R J i st of (r, s) \<Rightarrow> (r, st_db s)) = (case store_delete_record R J i st' of (r, s) \<Rightarrow> (r, st_db s))"
  using assms
  by (simp_all add: store_pin_record_def store_unpin_record_def store_sweep_once_def on_db_def split: prod.split)
    (simp add: store_delete_record_def split: prod.split result.split option.split)

text \<open>The same operation, run by the command on its store and by the node on its own.\<close>

lemma two_ways:
  assumes "(case f st of (r, s) \<Rightarrow> (r, st_db s)) = (case f (ap_store S) of (r, s) \<Rightarrow> (r, st_db s))"
    and "\<And>v s. snd (snd (k v s)) = s" and "\<And>v s. fst (snd (k v s)) = Finished \<longleftrightarrow> rp_status (g v) = 200"
    and "attempt_on (f st) k = (out, e, st')" and "apfst (\<lambda>r. answer E r g) (on_store f S) = (r, S')"
  shows "st_db st' = st_db (ap_store S') \<and> (e = Finished \<longleftrightarrow> (\<exists>resp. r = Ok resp \<and> rp_status resp = 200))"
proof -
  obtain x s1 s2 where f: "f st = (x, s1)" "f (ap_store S) = (x, s2)" "st_db s1 = st_db s2"
    using assms(1) by (auto split: prod.splits)
  show ?thesis
  proof (cases x)
    case (Ok v)
    with f assms(4,5) have "k v s1 = (out, e, st')" "r = Ok (g v)" "ap_store S' = s2"
      by (auto simp: attempt_on_def attempt_def answer_def on_store_def)
    with f(3) assms(2,3) [of v s1] show ?thesis by simp
  next
    case (Err m)
    with f assms(4,5) show ?thesis by (auto simp: attempt_on_def attempt_def answer_def on_store_def)
  next
    case Panic
    with f assms(4,5) show ?thesis by (auto simp: attempt_on_def attempt_def answer_def on_store_def)
  qed
qed

text \<open>C30: Pinning, unpinning, deleting and sweeping change the database in the same way, and are reported to have been done in the
  same cases, through the node, whose store has its signing key, and by the command that opens the database itself,
  whose store has none.\<close>

theorem record_changes_agree:
  assumes "json_laws (ae_json E)" and "record_post (ae_json E) action = Some (path, body, done_text)" and "\<forall>i. action \<noteq> RecAnnounce i"
    and "rq_method req = lit ''POST'' \<and> rq_path req = lit path \<and> rq_body req = body"
    and "open_store (ae_redb E) created = Ok (st_db (ap_store S))" and "load_config (ae_config_toml E) config_file = Ok config"
    and "route E req S = (r, S')" and "cmd_record E pretty files None created config_file action = (out, e, db)"
  shows "db = Some (st_db (ap_store S')) \<and> (e = Finished \<longleftrightarrow> (\<exists>resp. r = Ok resp \<and> rp_status resp = 200))"
proof -
  let ?st = "Store_new (st_db (ap_store S)) (cf_storage config)"
  obtain e1 st where direct: "record_direct E pretty files action ?st = (out, e1, st)" and e: "e1 = e" "db = Some (st_db st)"
    using assms(5,6,8) by (auto simp: cmd_record_def with_store_def attempt_def split: prod.splits)
  have "st_db ?st = st_db (ap_store S)" by (simp add: Store_new_def)
  note same = store_ops_db [OF this]
  have "st_db st = st_db (ap_store S') \<and> (e1 = Finished \<longleftrightarrow> (\<exists>resp. r = Ok resp \<and> rp_status resp = 200))"
  proof (cases action)
    case (RecPin i)
    with assms(2,4) have "route E req S = handle_pin_record E req S" "rq_body req = obj_text (ae_json E) [(''id'', i)]"
      by (auto simp: record_post_def route_def Let_def)
    with assms(7) direct RecPin show ?thesis
      by (intro two_ways [OF same(1)]) (auto simp: handle_pin_record_def id_request [OF assms(1)] direct_simps)
  next
    case (RecUnpin i)
    with assms(2,4) have "route E req S = handle_unpin_record E req S" "rq_body req = obj_text (ae_json E) [(''id'', i)]"
      by (auto simp: record_post_def route_def Let_def)
    with assms(7) direct RecUnpin show ?thesis
      by (intro two_ways [OF same(2)]) (auto simp: handle_unpin_record_def id_request [OF assms(1)] direct_simps)
  next
    case (RecDelete i)
    with assms(2,4) have "route E req S = handle_delete_record E req S" "rq_body req = obj_text (ae_json E) [(''id'', i)]"
      by (auto simp: record_post_def route_def Let_def)
    with assms(7) direct RecDelete show ?thesis
      by (intro two_ways [OF same(4)]) (auto simp: handle_delete_record_def id_request [OF assms(1)] direct_simps)
  next
    case RecSweep
    with assms(2,4) have "route E req S = handle_sweep E S" by (auto simp: record_post_def route_def Let_def)
    with assms(7) direct RecSweep show ?thesis
      by (intro two_ways [OF same(3)]) (auto simp: handle_sweep_def direct_simps)
  qed (use assms(2,3) in \<open>simp_all add: record_post_def\<close>)
  with e show ?thesis by simp
qed

text \<open>Announcing is not among them: the node verifies the record's identifier first and signs the announcement, while
  the command does neither.\<close>

theorem command_announces_unsigned:
  assumes "get_record (ae_redb E) (ae_serde E) d i = Ok (Some record)"
  shows "st_db (snd (snd (record_direct E pretty files (RecAnnounce i) (Store_new d config :: ('d, 'sk) Store)))) =
      snd (insert_announcement (ae_redb E) (ae_serde E) d (announcement_for (ae_secs E) record))"
    "an_sig (announcement_for (ae_secs E) record) = []"
proof -
  show "an_sig (announcement_for (ae_secs E) record) = []" by (simp add: announcement_for_def)
  then have "sign_ann_if_unsigned (ae_crypto E) None (announcement_for (ae_secs E) record) = Ok (announcement_for (ae_secs E) record)"
    by (simp add: sign_ann_if_unsigned_def)
  then have ann: "store_insert_announcement (ae_crypto E) (ae_redb E) (ae_serde E) (announcement_for (ae_secs E) record) (Store_new d config) =
      (case insert_announcement (ae_redb E) (ae_serde E) d (announcement_for (ae_secs E) record) of
         (r, d') \<Rightarrow> ((r, announcement_for (ae_secs E) record), (Store_new d config)\<lparr>st_db := d'\<rparr>))"
    by (simp add: store_insert_announcement_def Store_new_def on_db_def split: prod.split)
  obtain r d' where r: "insert_announcement (ae_redb E) (ae_serde E) d (announcement_for (ae_secs E) record) = (r, d')" by force
  show "st_db (snd (snd (record_direct E pretty files (RecAnnounce i) (Store_new d config)))) =
      snd (insert_announcement (ae_redb E) (ae_serde E) d (announcement_for (ae_secs E) record))"
    using assms ann r by (cases r) (simp_all add: direct_simps attempt_def store_get_record_def Store_new_def)
qed

section \<open>Roles\<close>

definition roles_of :: "DsearchConfig \<Rightarrow> ustr set" where
  "roles_of cfg = set (role_list (nc_role (cf_node cfg)))"

fun role_change :: "RoleAction \<Rightarrow> ustr set \<Rightarrow> ustr set" where
  "role_change (RoleSet r) A = {r}"
| "role_change (RoleAdd r) A = insert r A"
| "role_change (RoleRemove r) A = (if A \<subseteq> {r} then {lit ''light''} else A - {r})"
| "role_change action A = A"

fun action_role :: "RoleAction \<Rightarrow> ustr option" where
  "action_role (RoleSet r) = Some r"
| "action_role (RoleAdd r) = Some r"
| "action_role (RoleRemove r) = Some r"
| "action_role action = None"

text \<open>What the TOML library must do for a configuration that is saved over a file.\<close>

definition toml_keeps :: "config_toml \<Rightarrow> text_file \<Rightarrow> DsearchConfig \<Rightarrow> bool" where
  "toml_keeps T f cfg \<longleftrightarrow> (\<exists>s. cfg_to_string T cfg = Ok s \<and> cfg_from_str T (trim_end s @ meta_section (kept_version f)) = Ok cfg \<and>
     no_meta (trim_end s))"

lemma saved_loads:
  assumes "fl_read_error f = None" and "fl_write_error f = None" and "toml_keeps T f cfg" and "load_config T f = Ok old"
  shows "\<exists>f'. save_config T cfg f = (Ok (), f') \<and> load_config T f' = Ok cfg"
proof -
  obtain s where s: "cfg_to_string T cfg = Ok s" "cfg_from_str T (trim_end s @ meta_section (kept_version f)) = Ok cfg" "no_meta (trim_end s)"
    using assms(3) by (auto simp: toml_keeps_def)
  have "\<not> CURRENT_CONFIG_VERSION < kept_version f"
    using assms(1,4) by (auto simp: kept_version_def load_config_def file_exists_def read_to_string_def res_simps
        split: option.splits if_splits)
  with s(2) extract_saved [OF s(3), of "kept_version f"] assms(1)
  have "load_config T (f\<lparr>fl_contents := Some (trim_end s @ meta_section (kept_version f))\<rparr>) = Ok cfg"
    by (simp add: load_config_def file_exists_def read_to_string_def)
  with save_config_Ok [OF assms(1,2) s(1)] show ?thesis by blast
qed

lemma join_chars: "c \<in> set (join sep xs) \<Longrightarrow> c \<in> set sep \<or> (\<exists>x \<in> set xs. c \<in> set x)"
  by (induction sep xs rule: join.induct) auto

lemma trim_end_split: "s = trim_end s @ rev (takeWhile is_whitespace (rev s))"
  by (simp add: trim_end_def flip: rev_append)

lemma trim_idem [simp]: "trim (trim s) = trim s"
proof (cases "trim s = []")
  case True
  show ?thesis by (simp only: True) (simp add: trim_def trim_end_def)
next
  case False
  let ?u = "dropWhile is_whitespace s"
  have ne: "?u \<noteq> []"
  proof
    assume "?u = []"
    with False show False by (simp only: trim_def trim_end_def) simp
  qed
  have "hd (trim s) = hd ?u" using False trim_end_split [of ?u] by (metis hd_append2 trim_def)
  then have "\<not> is_whitespace (hd (trim s))" using hd_dropWhile [OF ne] by simp
  moreover have "dropWhile is_whitespace (rev ?u) \<noteq> []" using False by (simp add: trim_def trim_end_def)
  then have "\<not> is_whitespace (last (trim s))"
    using hd_dropWhile [of is_whitespace "rev ?u"] by (simp add: trim_def trim_end_def last_rev)
  ultimately show ?thesis using trim_fixed [OF False] by blast
qed

lemma trim_chars: "set (trim s) \<subseteq> set s"
  using trim_end_split [of "dropWhile is_whitespace s"] set_dropWhileD [of _ is_whitespace s] by (metis Un_iff set_append subsetI trim_def)

lemma role_list_pieces: "x \<in> set (role_list s) \<Longrightarrow> x \<noteq> [] \<and> trim x = x \<and> 44 \<notin> set x \<and> set x \<subseteq> set s"
proof -
  assume "x \<in> set (role_list s)"
  then obtain p where p: "p \<in> set (split_on 44 s)" "x = trim p" "x \<noteq> []" by (auto simp: role_list_def)
  have "set p \<subseteq> set s"
    using p(1) by (induction s arbitrary: p) (fastforce split: if_splits list.splits)+
  with p trim_chars [of p] split_on_pieces [OF p(1)] show ?thesis by auto
qed

lemma role_list_join: "\<forall>x \<in> set xs. x \<noteq> [] \<and> trim x = x \<and> 44 \<notin> set x \<Longrightarrow> role_list (join [44] xs) = xs"
proof (cases "xs = []")
  case True
  then show ?thesis by (simp add: role_list_def trim_def trim_end_def)
next
  case False
  assume xs: "\<forall>x \<in> set xs. x \<noteq> [] \<and> trim x = x \<and> 44 \<notin> set x"
  then have "split_on 44 (join [44] xs) = xs" using False by (intro split_on_join) auto
  moreover have "map trim xs = xs" "filter (\<lambda>r. r \<noteq> []) xs = xs" using xs by (auto simp: map_idI)
  ultimately show ?thesis by (simp add: role_list_def)
qed

lemma known_role_plain: "NodeRole_from_str role = Some r \<Longrightarrow> NodeRole_as_str r = role \<and> role \<noteq> [] \<and> trim role = role \<and> 44 \<notin> set role"
  by (auto simp: NodeRole_from_str_def trim_def trim_end_def lit_def is_whitespace_def split: if_splits)

lemma roles_set_role: "\<forall>x \<in> set xs. x \<noteq> [] \<and> trim x = x \<and> 44 \<notin> set x \<Longrightarrow> roles_of (set_role (join [44] xs) cfg) = set xs"
  by (simp add: roles_of_def set_role_def role_list_join)

text \<open>C31: The role commands keep the set of roles of the saved configuration: setting, adding and removing a known
  role is that on the set, where nothing left over is the light role.\<close>

theorem role_commands_refine_set:
  assumes "fl_read_error f = None" and "fl_write_error f = None" and "load_config T f = Ok cfg"
    and "action_role action = Some role" and "NodeRole_from_str role = Some r"
    and "\<forall>s. set s \<subseteq> set (nc_role (cf_node cfg)) \<union> set role \<union> set (lit '',light'') \<longrightarrow> toml_keeps T f (set_role s cfg)"
  shows "\<exists>out f' cfg'. cmd_role (Ok ()) T found action f = (out, Finished, f') \<and> load_config T f' = Ok cfg' \<and>
    roles_of cfg' = role_change action (roles_of cfg)"
proof -
  note role = known_role_plain [OF assms(5)]
  let ?old = "role_list (nc_role (cf_node cfg))"
  have saved: "\<exists>out f' cfg'. save_role T cfg (join [44] xs) what r f = (out, Finished, f') \<and> load_config T f' = Ok cfg' \<and>
      roles_of cfg' = set xs" if xs: "set xs \<subseteq> insert (lit ''light'') (insert role (set ?old))" for xs what
  proof -
    have light: "lit ''light'' \<noteq> [] \<and> trim (lit ''light'') = lit ''light'' \<and> 44 \<notin> set (lit ''light'')"
      by (simp add: trim_def trim_end_def lit_def is_whitespace_def)
    have "set x \<subseteq> set (nc_role (cf_node cfg)) \<union> set role \<union> set (lit '',light'')" if "x \<in> set xs" for x
    proof -
      have "set (lit ''light'') \<subseteq> set (lit '',light'')" by (simp add: lit_Cons)
      with that xs role_list_pieces [of x "nc_role (cf_node cfg)"] show ?thesis by blast
    qed
    then have "set (join [44] xs) \<subseteq> set (nc_role (cf_node cfg)) \<union> set role \<union> set (lit '',light'')"
      using join_chars [of _ "[44]" xs] by (fastforce simp: lit_Cons)
    with assms(6) have "toml_keeps T f (set_role (join [44] xs) cfg)" by blast
    from saved_loads [OF assms(1,2) this assms(3)] obtain f' where
      f': "save_config T (set_role (join [44] xs) cfg) f = (Ok (), f')" "load_config T f' = Ok (set_role (join [44] xs) cfg)" by blast
    moreover have "roles_of (set_role (join [44] xs) cfg) = set xs"
    proof (intro roles_set_role ballI)
      fix x assume "x \<in> set xs"
      with xs consider "x = lit ''light''" | "x = role" | "x \<in> set ?old" by blast
      then show "x \<noteq> [] \<and> trim x = x \<and> 44 \<notin> set x"
        by cases (simp add: light, simp add: role, blast dest: role_list_pieces)
    qed
    ultimately show ?thesis by (simp add: save_role_def attempt_on_def attempt_def say_def)
  qed
  have cmd: "cmd_role (Ok ()) T found action f = (case action of
      RoleSet _ \<Rightarrow> save_role T cfg (join [44] [role]) ''set to'' r f
    | RoleAdd _ \<Rightarrow> if role \<in> set ?old then say [lit ''Role '' @ role @ lit '' already present''] f
        else save_role T cfg (join [44] (?old @ [role])) ''added'' r f
    | _ \<Rightarrow> save_role T cfg (join [44] (if filter (\<lambda>s. s \<noteq> role) ?old = [] then [lit ''light''] else filter (\<lambda>s. s \<noteq> role) ?old)) ''removed'' r f)"
    using assms(3,4,5) role by (cases action) (auto simp: cmd_role_def known_role_def attempt_def Let_def)
  show ?thesis
  proof (cases action)
    case (RoleSet x)
    with saved [of "[role]" "''set to''"] cmd assms(4) show ?thesis by simp
  next
    case (RoleAdd x)
    with saved [of "?old @ [role]" "''added''"] cmd assms(3,4) show ?thesis by (auto simp: say_def roles_of_def)
  next
    case (RoleRemove x)
    have "filter (\<lambda>s. s \<noteq> role) ?old = [] \<longleftrightarrow> roles_of cfg \<subseteq> {role}" by (auto simp: filter_empty_conv roles_of_def)
    moreover have "set (filter (\<lambda>s. s \<noteq> role) ?old) = roles_of cfg - {role}" by (auto simp: roles_of_def)
    ultimately show ?thesis
      using RoleRemove saved [of "if filter (\<lambda>s. s \<noteq> role) ?old = [] then [lit ''light''] else filter (\<lambda>s. s \<noteq> role) ?old" "''removed''"] cmd assms(4)
      by (cases "filter (\<lambda>s. s \<noteq> role) ?old = []") auto
  qed (use assms(4) in simp_all)
qed

section \<open>Runs\<close>

definition pin_request :: HttpRequest where
  "pin_request = health_request\<lparr>rq_method := lit ''POST'', rq_path := lit ''/record/pin'', rq_body := obj_text sample_json [(''id'', lit ''r'')]\<rparr>"

theorem record_changes_agree_witness:
  "\<exists>d r S' out e. open_store mem_redb (Ok mem_empty) = Ok d \<and>
     route api_sample pin_request \<lparr>ap_store = set_signing_key () (Store_new d plain_config), ap_files = (\<lambda>_. plain_file None)\<rparr> = (r, S') \<and>
     cmd_record api_sample (\<lambda>_. Ok []) (\<lambda>_. plain_file None) None (Ok mem_empty) (plain_file None) (RecPin (lit ''r'')) =
       (out, e, Some (st_db (ap_store S')))"
proof -
  have "version_of (mem_view mem_empty) \<le> CURRENT_SCHEMA_VERSION" by (simp add: version_of_def mem_view_def mem_empty_def)
  then obtain d where d: "open_store mem_redb (Ok mem_empty) = Ok d"
    using open_store_reliable [OF mem_redb_laws mem_redb_reliable] by blast
  let ?S = "\<lparr>ap_store = set_signing_key () (Store_new d plain_config), ap_files = (\<lambda>_. plain_file None)\<rparr>"
  obtain r S' where r: "route api_sample pin_request ?S = (r, S')" by force
  obtain out e db where c: "cmd_record api_sample (\<lambda>_. Ok []) (\<lambda>_. plain_file None) None (Ok mem_empty) (plain_file None) (RecPin (lit ''r'')) =
      (out, e, db)" by (metis prod.exhaust)
  have "record_post (ae_json api_sample) (RecPin (lit ''r'')) =
      Some (''/record/pin'', obj_text sample_json [(''id'', lit ''r'')], \<lambda>_. record_line (lit ''r'') ''pinned.'')"
    by (simp add: record_post_def)
  from record_changes_agree [OF _ this _ _ _ _ r c] d r c show ?thesis
    by (auto simp: sample_json_laws pin_request_def set_signing_key_def Store_new_def load_config_def api_sample_def)
qed

text \<open>A codec that keeps only the role.\<close>

definition role_toml :: config_toml where
  "role_toml = \<lparr>cfg_from_str = (\<lambda>s. Ok (set_role (fst (the (split_once 61 s))) DsearchConfig_default)),
     cfg_to_string = (\<lambda>c. Ok (nc_role (cf_node c) @ [61]))\<rparr>"

lemma role_toml_keeps:
  assumes "{10, 61, 93} \<inter> set s = {}"
  shows "toml_keeps role_toml f (set_role s DsearchConfig_default)"
proof -
  have "split_on 10 (s @ [61]) = [s @ [61]]" using assms by (intro split_on_absent) auto
  moreover have "trim (strip_cr (s @ [61])) \<noteq> lit ''[meta]''"
    using trim_chars [of "s @ [61]"] assms by (auto simp: strip_cr_def lit_Cons)
  ultimately have "no_meta (s @ [61])" by (simp add: no_meta_def)
  with assms show ?thesis
    by (auto simp: toml_keeps_def role_toml_def set_role_def trim_end_def is_whitespace_def)
qed

theorem role_commands_refine_set_witness:
  "\<exists>out f' cfg'. cmd_role (Ok ()) role_toml (Err []) (RoleAdd (lit ''relay'')) (plain_file None) = (out, Finished, f') \<and>
     load_config role_toml f' = Ok cfg' \<and> roles_of cfg' = {lit ''light'', lit ''relay''}"
proof -
  have "roles_of DsearchConfig_default = {lit ''light''}"
    using roles_set_role [of "[lit ''light'']" DsearchConfig_default] known_role_plain [of "lit ''light''"]
    by (simp add: set_role_def NodeRole_from_str_def DsearchConfig_default_def NodeConfig_default_def)
  moreover have "toml_keeps role_toml (plain_file None) (set_role s DsearchConfig_default)"
    if "set s \<subseteq> set (nc_role (cf_node DsearchConfig_default)) \<union> set (lit ''relay'') \<union> set (lit '',light'')" for s
    using that by (intro role_toml_keeps) (auto simp: DsearchConfig_default_def NodeConfig_default_def lit_Cons)
  moreover have "load_config role_toml (plain_file None) = Ok DsearchConfig_default"
    by (simp add: load_config_def file_exists_def plain_file_def)
  moreover have "NodeRole_from_str (lit ''relay'') = Some Relay" by (simp add: NodeRole_from_str_def)
  ultimately show ?thesis
    using role_commands_refine_set [of "plain_file None" role_toml DsearchConfig_default "RoleAdd (lit ''relay'')" "lit ''relay''" Relay "Err []"]
    by (auto simp: plain_file_def)
qed

end
