(* ===== verification/Cert.thy ===== *)
theory Cert
  imports Sign
begin

text \<open>
  \<^verbatim>\<open>src/src/proto/cert.rs\<close>: the identity of a node on disk, and the check of a peer's certificate. The
  X.509 parser, ed25519's key formats and rcgen are parameters. The permissions of the key file, and the
  quinn and rustls configurations that the certificate is put into, are not modelled.
\<close>

section \<open>Libraries\<close>

datatype general_name = UniformResourceIdentifier ustr | OtherName

text \<open>What is read of a parsed certificate: names, extensions (an identifier and its DER value), the key's
  algorithm and bits, the encoding of the signed part, and the signature's bits.\<close>

record x509 =
  xc_issuer :: bytes
  xc_subject :: bytes
  xc_extensions :: "(ustr \<times> bytes) list option"
  xc_key_oid :: ustr
  xc_key_bits :: bytes
  xc_tbs_der :: "(bytes, ustr) result"
  xc_signature :: bytes

record ('sk, 'vk, 'kp) cert_lib =
  cl_from_der :: "bytes \<Rightarrow> (x509, ustr) result"
  cl_general_names :: "bytes \<Rightarrow> general_name list option"
  cl_key_of_bytes :: "bytes \<Rightarrow> 'vk option"
  cl_key_bytes :: "'vk \<Rightarrow> bytes"
  cl_secret_of_bytes :: "bytes \<Rightarrow> 'sk"
  cl_secret_bytes :: "'sk \<Rightarrow> bytes"
  cl_pkcs8 :: "'sk \<Rightarrow> (bytes, ustr) result"
  cl_key_pair :: "bytes \<Rightarrow> ('kp, ustr) result"
  cl_ia5 :: "ustr \<Rightarrow> (ustr, ustr) result"
  cl_self_signed :: "'kp \<Rightarrow> ustr \<Rightarrow> ustr \<Rightarrow> (bytes, ustr) result"
  cl_pair_der :: "'kp \<Rightarrow> bytes"

datatype CertError = Generation ustr | Tls ustr | KeyFormat ustr | Io ustr

definition cert_error_text :: "CertError \<Rightarrow> ustr" where
  "cert_error_text e = (case e of
     Generation s \<Rightarrow> lit ''cert generation error: '' @ s | Tls s \<Rightarrow> lit ''TLS error: '' @ s
   | KeyFormat s \<Rightarrow> lit ''key format error: '' @ s | Io e \<Rightarrow> lit ''I/O error: '' @ e)"

section \<open>Making an identity\<close>

definition node_id_from_pubkey :: "('sk, 'vk) crypto \<Rightarrow> ('sk, 'vk, 'kp) cert_lib \<Rightarrow> 'vk \<Rightarrow> ustr" where
  "node_id_from_pubkey K X verifying_key = hex_encode (blake3 K (cl_key_bytes X verifying_key))"

definition make_cert_and_key :: "('sk, 'vk, 'kp) cert_lib \<Rightarrow> 'sk \<Rightarrow> ustr \<Rightarrow> (bytes \<times> bytes, CertError) result" where
  "make_cert_and_key X signing_key node_id =
     rbind (map_err (\<lambda>e. Generation (lit ''PKCS#8 encode: '' @ e)) (cl_pkcs8 X signing_key)) (\<lambda>pkcs8_bytes.
     rbind (map_err (\<lambda>e. Generation (lit ''rcgen KeyPair from PKCS#8: '' @ e)) (cl_key_pair X pkcs8_bytes)) (\<lambda>key_pair.
     rbind (map_err (\<lambda>e. Generation (lit ''invalid SAN URI: '' @ e)) (cl_ia5 X node_id)) (\<lambda>uri.
     rbind (map_err Generation (cl_self_signed X key_pair (lit ''dsearch'') uri)) (\<lambda>cert.
     Ok (cert, cl_pair_der X key_pair)))))"

text \<open>The key, the node id, the certificate and the TLS key. \<open>fresh\<close> is the random source's key.\<close>

type_synonym 'sk identity = "'sk \<times> ustr \<times> bytes \<times> bytes"

definition own_node_id :: "('sk, 'vk) crypto \<Rightarrow> ('sk, 'vk, 'kp) cert_lib \<Rightarrow> 'sk \<Rightarrow> ustr" where
  "own_node_id K X signing_key = node_id_from_pubkey K X (ed_verifying_key K signing_key)"

definition generate_identity :: "('sk, 'vk) crypto \<Rightarrow> ('sk, 'vk, 'kp) cert_lib \<Rightarrow> 'sk \<Rightarrow> ('sk identity, CertError) result" where
  "generate_identity K X fresh =
     (let node_id = own_node_id K X fresh
      in rbind (make_cert_and_key X fresh node_id) (\<lambda>(cert_der, key_der). Ok (fresh, node_id, cert_der, key_der)))"

section \<open>The identity on disk\<close>

record bin_file =
  bf_contents :: "bytes option"
  bf_read_error :: "ustr option"
  bf_write_error :: "ustr option"

definition bin_exists :: "bin_file \<Rightarrow> bool" where
  "bin_exists f \<longleftrightarrow> bf_contents f \<noteq> None"

definition read_bin :: "bin_file \<Rightarrow> (bytes, ustr) result" where
  "read_bin f = (case bf_read_error f of
     Some e \<Rightarrow> Err e
   | None \<Rightarrow> (case bf_contents f of Some s \<Rightarrow> Ok s | None \<Rightarrow> Err (lit ''No such file or directory'')))"

definition write_bin :: "bytes \<Rightarrow> bin_file \<Rightarrow> (unit, ustr) result \<times> bin_file" where
  "write_bin s f = (case bf_write_error f of
     Some e \<Rightarrow> (Err e, f) | None \<Rightarrow> (Ok (), f\<lparr>bf_contents := Some s\<rparr>))"

text \<open>\<^verbatim>\<open>identity.key\<close>, \<^verbatim>\<open>node.crt\<close> and \<^verbatim>\<open>identity.tls\<close>, and what creating the directory gives.\<close>

record id_dir =
  id_key :: bin_file
  id_crt :: bin_file
  id_tls :: bin_file
  id_mkdir :: "(unit, ustr) result"

type_synonym 'a id_step = "id_dir \<Rightarrow> ('a, CertError) result \<times> id_dir"

definition write_key :: "bytes \<Rightarrow> unit id_step" where
  "write_key s D = (case write_bin s (id_key D) of (r, f) \<Rightarrow> (map_err Io r, D\<lparr>id_key := f\<rparr>))"

definition write_crt :: "bytes \<Rightarrow> unit id_step" where
  "write_crt s D = (case write_bin s (id_crt D) of (r, f) \<Rightarrow> (map_err Io r, D\<lparr>id_crt := f\<rparr>))"

definition write_tls :: "bytes \<Rightarrow> unit id_step" where
  "write_tls s D = (case write_bin s (id_tls D) of (r, f) \<Rightarrow> (map_err Io r, D\<lparr>id_tls := f\<rparr>))"

definition id_then :: "'a id_step \<Rightarrow> ('a \<Rightarrow> 'b id_step) \<Rightarrow> 'b id_step" where
  "id_then m k D = (case m D of (Ok x, D) \<Rightarrow> k x D | (Err e, D) \<Rightarrow> (Err e, D) | (Panic, D) \<Rightarrow> (Panic, D))"

definition save_identity :: "('sk, 'vk, 'kp) cert_lib \<Rightarrow> 'sk \<Rightarrow> bytes \<Rightarrow> bytes \<Rightarrow> unit id_step" where
  "save_identity X signing_key cert_der key_der =
     id_then (\<lambda>D. (map_err Io (id_mkdir D), D)) (\<lambda>_.
     id_then (write_key (cl_secret_bytes X signing_key)) (\<lambda>_.
     id_then (write_crt cert_der) (\<lambda>_. write_tls key_der)))"

definition load_or_generate_identity :: "('sk, 'vk) crypto \<Rightarrow> ('sk, 'vk, 'kp) cert_lib \<Rightarrow> 'sk \<Rightarrow> 'sk identity id_step" where
  "load_or_generate_identity K X fresh D =
     (if bin_exists (id_key D) \<and> bin_exists (id_crt D) \<and> bin_exists (id_tls D) then
        (case rbind (map_err Io (read_bin (id_key D))) (\<lambda>key_bytes.
              rbind (map_err Io (read_bin (id_crt D))) (\<lambda>cert_der.
              rbind (map_err Io (read_bin (id_tls D))) (\<lambda>tls_key_der.
              if length key_bytes \<noteq> 32 then Err (KeyFormat (lit ''identity.key must be 32 bytes''))
              else
                let signing_key = cl_secret_of_bytes X key_bytes; node_id = own_node_id K X signing_key
                in rbind (make_cert_and_key X signing_key node_id) (\<lambda>(new_cert_der, expected_key_der).
                   Ok (signing_key, node_id, cert_der, tls_key_der, new_cert_der, expected_key_der))))) of
           Err e \<Rightarrow> (Err e, D) | Panic \<Rightarrow> (Panic, D)
         | Ok (signing_key, node_id, cert_der, tls_key_der, new_cert_der, new_key_der) \<Rightarrow>
             if tls_key_der \<noteq> new_key_der
             then id_then (write_crt new_cert_der) (\<lambda>_. id_then (write_tls new_key_der) (\<lambda>_ D.
               (Ok (signing_key, node_id, new_cert_der, new_key_der), D))) D
             else (Ok (signing_key, node_id, cert_der, tls_key_der), D))
      else id_then (\<lambda>D. (generate_identity K X fresh, D)) (\<lambda>(signing_key, node_id, cert_der, key_der).
        id_then (save_identity X signing_key cert_der key_der) (\<lambda>_ D. (Ok (signing_key, node_id, cert_der, key_der), D))) D)"

section \<open>Checking a certificate\<close>

fun first_uri :: "general_name list \<Rightarrow> ustr option" where
  "first_uri [] = None"
| "first_uri (UniformResourceIdentifier uri # names) = Some uri"
| "first_uri (OtherName # names) = first_uri names"

text \<open>The loop over the extensions: a subject alternative name that cannot be decoded ends it.\<close>

fun san_uri_of :: "('sk, 'vk, 'kp) cert_lib \<Rightarrow> (ustr \<times> bytes) list \<Rightarrow> ustr option" where
  "san_uri_of X [] = None"
| "san_uri_of X ((extn_id, extn_value) # exts) =
     (if extn_id = lit ''2.5.29.17'' then
        (case cl_general_names X extn_value of
           None \<Rightarrow> None
         | Some san \<Rightarrow> (case first_uri san of Some uri \<Rightarrow> Some uri | None \<Rightarrow> san_uri_of X exts))
      else san_uri_of X exts)"

definition extract_san_uri :: "('sk, 'vk, 'kp) cert_lib \<Rightarrow> x509 \<Rightarrow> ustr option" where
  "extract_san_uri X cert = Option.bind (xc_extensions cert) (san_uri_of X)"

definition extract_ed25519_pubkey :: "x509 \<Rightarrow> bytes option" where
  "extract_ed25519_pubkey cert =
     (if xc_key_oid cert \<noteq> lit ''1.3.101.112'' then None
      else if length (xc_key_bits cert) \<noteq> 32 then None
      else Some (xc_key_bits cert))"

definition some_or :: "'a option \<Rightarrow> string \<Rightarrow> ('a, ustr) result" where
  "some_or x e = (case x of Some a \<Rightarrow> Ok a | None \<Rightarrow> Err (lit e))"

definition verify_cert_signature :: "('sk, 'vk) crypto \<Rightarrow> ('sk, 'vk, 'kp) cert_lib \<Rightarrow> x509 \<Rightarrow> bytes \<Rightarrow> (unit, ustr) result" where
  "verify_cert_signature K X cert pubkey_bytes =
     rbind (some_or (cl_key_of_bytes X pubkey_bytes) ''invalid Ed25519 public key'') (\<lambda>verifying_key.
     rbind (map_err (\<lambda>e. lit ''TBS encode: '' @ e) (xc_tbs_der cert)) (\<lambda>tbs_der.
     if length (xc_signature cert) \<noteq> 64 then Err (lit ''invalid signature bit string'')
     else if ed_verify K verifying_key tbs_der (xc_signature cert) then Ok ()
     else Err (lit ''cert signature verification failed'')))"

definition parse_cert :: "('sk, 'vk, 'kp) cert_lib \<Rightarrow> bytes \<Rightarrow> (x509, ustr) result" where
  "parse_cert X cert_der = map_err (\<lambda>e. lit ''cert parse: '' @ e) (cl_from_der X cert_der)"

definition verify_dsearch_cert :: "('sk, 'vk) crypto \<Rightarrow> ('sk, 'vk, 'kp) cert_lib \<Rightarrow> bytes \<Rightarrow> (unit, ustr) result" where
  "verify_dsearch_cert K X cert_der =
     rbind (parse_cert X cert_der) (\<lambda>cert.
     if xc_issuer cert \<noteq> xc_subject cert then Err (lit ''cert not self-signed: issuer != subject'')
     else
       rbind (some_or (extract_san_uri X cert) ''no SAN URI found in cert'') (\<lambda>node_id.
       rbind (some_or (extract_ed25519_pubkey cert) ''no Ed25519 public key in cert'') (\<lambda>pubkey_bytes.
       let expected_node_id = hex_encode (blake3 K pubkey_bytes)
       in if node_id \<noteq> expected_node_id
          then Err (lit ''node_id mismatch: SAN claims '' @ node_id @ lit '' but pubkey hashes to '' @ expected_node_id)
          else verify_cert_signature K X cert pubkey_bytes)))"

text \<open>0x0807 is the scheme ED25519, the only one the verifier offers. A signature is 64 bytes.\<close>

definition verify_tls_signature :: "('sk, 'vk) crypto \<Rightarrow> ('sk, 'vk, 'kp) cert_lib \<Rightarrow> bytes \<Rightarrow> bytes \<Rightarrow> bytes \<Rightarrow> u16
    \<Rightarrow> (unit, ustr) result" where
  "verify_tls_signature K X message cert_der sig_bytes scheme =
     (if scheme \<noteq> 0x0807 then Err (lit ''unsupported signature scheme'')
      else
        rbind (parse_cert X cert_der) (\<lambda>cert.
        rbind (some_or (extract_ed25519_pubkey cert) ''no Ed25519 public key in cert'') (\<lambda>pubkey_bytes.
        rbind (some_or (cl_key_of_bytes X pubkey_bytes) ''invalid Ed25519 public key'') (\<lambda>verifying_key.
        if length sig_bytes \<noteq> 64 then Err (lit ''invalid Ed25519 signature'')
        else if ed_verify K verifying_key message sig_bytes then Ok ()
        else Err (lit ''TLS signature verification failed'')))))"

section \<open>The identity stays\<close>

definition cert_laws :: "('sk, 'vk) crypto \<Rightarrow> ('sk, 'vk, 'kp) cert_lib \<Rightarrow> bool" where
  "cert_laws K X \<longleftrightarrow> (\<forall>sk. length (cl_secret_bytes X sk) = 32 \<and> cl_secret_of_bytes X (cl_secret_bytes X sk) = sk) \<and>
     (\<forall>b vk. cl_key_of_bytes X b = Some vk \<longleftrightarrow> cl_key_bytes X vk = b) \<and> (\<forall>vk. length (cl_key_bytes X vk) = 32)"

text \<open>The system reads and writes the three files without errors.\<close>

definition plain_dir :: "id_dir \<Rightarrow> bool" where
  "plain_dir D \<longleftrightarrow> bf_read_error (id_key D) = None \<and> bf_write_error (id_key D) = None \<and>
     bf_read_error (id_crt D) = None \<and> bf_write_error (id_crt D) = None \<and>
     bf_read_error (id_tls D) = None \<and> bf_write_error (id_tls D) = None \<and> id_mkdir D = Ok ()"

definition with_files :: "bytes \<Rightarrow> bytes \<Rightarrow> bytes \<Rightarrow> id_dir \<Rightarrow> id_dir" where
  "with_files k c t D = D\<lparr>id_key := (id_key D)\<lparr>bf_contents := Some k\<rparr>, id_crt := (id_crt D)\<lparr>bf_contents := Some c\<rparr>,
     id_tls := (id_tls D)\<lparr>bf_contents := Some t\<rparr>\<rparr>"

definition has_identity :: "id_dir \<Rightarrow> bool" where
  "has_identity D \<longleftrightarrow> bin_exists (id_key D) \<and> bin_exists (id_crt D) \<and> bin_exists (id_tls D)"

lemma plain_with_files [simp]: "plain_dir (with_files k c t D) \<longleftrightarrow> plain_dir D"
  by (simp add: plain_dir_def with_files_def)

lemma with_files_parts [simp]:
  "bf_contents (id_key (with_files k c t D)) = Some k" "bf_contents (id_crt (with_files k c t D)) = Some c"
  "bf_contents (id_tls (with_files k c t D)) = Some t" "has_identity (with_files k c t D)"
  by (simp_all add: with_files_def has_identity_def bin_exists_def)

lemma with_files_same: "bf_contents (id_key D) = Some k \<Longrightarrow> bf_contents (id_crt D) = Some c \<Longrightarrow> bf_contents (id_tls D) = Some t \<Longrightarrow>
    with_files k c t D = D"
  by (cases D) (auto simp: with_files_def)

lemmas id_simps = id_then_def write_key_def write_crt_def write_tls_def write_bin_def read_bin_def save_identity_def

lemma load_missing:
  assumes "plain_dir D" and "\<not> has_identity D"
  shows "load_or_generate_identity K X fresh D = (case make_cert_and_key X fresh (own_node_id K X fresh) of
     Ok (c, t) \<Rightarrow> (Ok (fresh, own_node_id K X fresh, c, t), with_files (cl_secret_bytes X fresh) c t D)
   | Err e \<Rightarrow> (Err e, D) | Panic \<Rightarrow> (Panic, D))"
proof -
  have "load_or_generate_identity K X fresh D = id_then (\<lambda>D. (generate_identity K X fresh, D)) (\<lambda>(signing_key, node_id, cert_der, key_der).
      id_then (save_identity X signing_key cert_der key_der) (\<lambda>_ D. (Ok (signing_key, node_id, cert_der, key_der), D))) D"
    unfolding load_or_generate_identity_def if_not_P [OF assms(2) [unfolded has_identity_def]] ..
  then show ?thesis
    using assms(1) by (auto simp: id_simps plain_dir_def with_files_def generate_identity_def split: result.split)
qed

lemma load_present:
  assumes "plain_dir D" and "bf_contents (id_key D) = Some k" and "bf_contents (id_crt D) = Some c" and "bf_contents (id_tls D) = Some t"
    and "length k = 32"
  shows "load_or_generate_identity K X fresh D =
    (case make_cert_and_key X (cl_secret_of_bytes X k) (own_node_id K X (cl_secret_of_bytes X k)) of
       Ok (c', t') \<Rightarrow> if t \<noteq> t' then (Ok (cl_secret_of_bytes X k, own_node_id K X (cl_secret_of_bytes X k), c', t'), with_files k c' t' D)
         else (Ok (cl_secret_of_bytes X k, own_node_id K X (cl_secret_of_bytes X k), c, t), D)
     | Err e \<Rightarrow> (Err e, D) | Panic \<Rightarrow> (Panic, D))"
proof -
  have "bin_exists (id_key D) \<and> bin_exists (id_crt D) \<and> bin_exists (id_tls D)" using assms(2-4) by (simp add: bin_exists_def)
  then show ?thesis
    using assms
    by (cases D) (auto simp: load_or_generate_identity_def id_simps plain_dir_def with_files_def Let_def split: result.split)
qed

lemma load_result:
  assumes "cert_laws K X" and "plain_dir D" and "load_or_generate_identity K X fresh D = (Ok I, D')"
  shows "load_or_generate_identity K X fresh' D' = (Ok I, D') \<and>
    fst I = (if has_identity D then cl_secret_of_bytes X (the (bf_contents (id_key D))) else fresh) \<and>
    (has_identity D \<longrightarrow> bf_contents (id_key D') = bf_contents (id_key D)) \<and> fst (snd I) = own_node_id K X (fst I) \<and> plain_dir D'"
proof (cases "has_identity D")
  case False
  obtain c t where ct: "make_cert_and_key X fresh (own_node_id K X fresh) = Ok (c, t)"
    and I: "I = (fresh, own_node_id K X fresh, c, t)" "D' = with_files (cl_secret_bytes X fresh) c t D"
    using assms(3) unfolding load_missing [OF assms(2) False] by (auto split: result.splits)
  have "load_or_generate_identity K X fresh' D' = (Ok I, D')"
    using load_present [of D' "cl_secret_bytes X fresh" c t K X fresh'] assms(1,2) ct I by (simp add: cert_laws_def)
  with False I assms(2) show ?thesis by simp
next
  case True
  then obtain k c t where f: "bf_contents (id_key D) = Some k" "bf_contents (id_crt D) = Some c" "bf_contents (id_tls D) = Some t"
    by (auto simp: has_identity_def bin_exists_def)
  have len: "length k = 32"
  proof (rule ccontr)
    assume "length k \<noteq> 32"
    then show False
      using assms(2,3) f by (simp add: load_or_generate_identity_def bin_exists_def read_bin_def plain_dir_def)
  qed
  let ?sk = "cl_secret_of_bytes X k"
  obtain c' t' where ct: "make_cert_and_key X ?sk (own_node_id K X ?sk) = Ok (c', t')"
    using assms(3) unfolding load_present [OF assms(2) f len] by (auto split: result.splits)
  with assms(3) have I: "I = (?sk, own_node_id K X ?sk, if t = t' then c else c', t')"
    "D' = with_files k (if t = t' then c else c') t' D"
    unfolding load_present [OF assms(2) f len] using with_files_same [OF f] by (auto split: if_splits)
  have "load_or_generate_identity K X fresh' D' = (Ok I, D')"
    using load_present [of D' k "if t = t' then c else c'" t' K X fresh'] assms(2) len ct I by simp
  with True I f assms(2) show ?thesis by simp
qed

lemma load_keeps_files:
  assumes "plain_dir D" and "load_or_generate_identity K X fresh D = (Ok I, D')"
  shows "has_identity D'"
proof (cases "has_identity D")
  case False
  with assms(2) show ?thesis unfolding load_missing [OF assms(1) False] by (auto split: result.splits)
next
  case True
  then obtain k c t where f: "bf_contents (id_key D) = Some k" "bf_contents (id_crt D) = Some c" "bf_contents (id_tls D) = Some t"
    by (auto simp: has_identity_def bin_exists_def)
  have "length k = 32"
    using assms(1,2) f
    by (cases "length k = 32") (simp_all add: load_or_generate_identity_def bin_exists_def read_bin_def plain_dir_def)
  with assms(2) True show ?thesis unfolding load_present [OF assms(1) f \<open>length k = 32\<close>] by (auto split: result.splits if_splits)
qed

text \<open>C33: A loaded identity is the one every later load gives, and nothing is written again; a directory that has
  all three files keeps its key, whatever certificate and TLS key it has.\<close>

theorem identity_survives_reload:
  assumes "cert_laws K X" and "plain_dir D" and "load_or_generate_identity K X fresh D = (Ok I, D')"
  shows "load_or_generate_identity K X fresh' D' = (Ok I, D') \<and>
    fst I = (if has_identity D then cl_secret_of_bytes X (the (bf_contents (id_key D))) else fresh) \<and>
    (has_identity D \<longrightarrow> bf_contents (id_key D') = bf_contents (id_key D)) \<and> fst (snd I) = own_node_id K X (fst I)"
  using load_result [OF assms] by blast

section \<open>What accepting a certificate means\<close>

text \<open>The node id a certificate claims, and the bytes of its key.\<close>

definition claimed_id :: "('sk, 'vk, 'kp) cert_lib \<Rightarrow> bytes \<Rightarrow> ustr option" where
  "claimed_id X cert_der = (case cl_from_der X cert_der of Ok cert \<Rightarrow> extract_san_uri X cert | _ \<Rightarrow> None)"

definition cert_key_bits :: "('sk, 'vk, 'kp) cert_lib \<Rightarrow> bytes \<Rightarrow> bytes" where
  "cert_key_bits X cert_der = (case cl_from_der X cert_der of Ok cert \<Rightarrow> xc_key_bits cert | _ \<Rightarrow> [])"

lemma some_or_Ok [simp]: "some_or x e = Ok a \<longleftrightarrow> x = Some a"
  by (cases x) (simp_all add: some_or_def)

lemma pubkey_Some: "extract_ed25519_pubkey cert = Some b \<longleftrightarrow> xc_key_oid cert = lit ''1.3.101.112'' \<and> length b = 32 \<and> xc_key_bits cert = b"
  by (auto simp: extract_ed25519_pubkey_def)

lemma accepted_cert:
  "verify_dsearch_cert K X der = Ok u \<longleftrightarrow> (\<exists>cert vk tbs. cl_from_der X der = Ok cert \<and> xc_issuer cert = xc_subject cert \<and>
     xc_key_oid cert = lit ''1.3.101.112'' \<and> length (xc_key_bits cert) = 32 \<and> cl_key_of_bytes X (xc_key_bits cert) = Some vk \<and>
     extract_san_uri X cert = Some (hex_encode (blake3 K (xc_key_bits cert))) \<and> xc_tbs_der cert = Ok tbs \<and>
     length (xc_signature cert) = 64 \<and> ed_verify K vk tbs (xc_signature cert))"
  by (auto simp: verify_dsearch_cert_def parse_cert_def verify_cert_signature_def res_simps pubkey_Some Let_def)

lemma accepted_signature:
  "verify_tls_signature K X m der s scheme = Ok u \<longleftrightarrow> scheme = 0x0807 \<and> (\<exists>cert vk. cl_from_der X der = Ok cert \<and>
     xc_key_oid cert = lit ''1.3.101.112'' \<and> length (xc_key_bits cert) = 32 \<and> cl_key_of_bytes X (xc_key_bits cert) = Some vk \<and>
     length s = 64 \<and> ed_verify K vk m s)"
  by (auto simp: verify_tls_signature_def parse_cert_def res_simps pubkey_Some)

text \<open>C34: Two peers that are accepted under one node id have signed their handshakes with one key, the key that
  the id is the hash of, but for a collision of the hash.\<close>

theorem node_id_stands_for_one_key:
  assumes "cert_laws K X"
    and "verify_dsearch_cert K X der = Ok () \<and> verify_tls_signature K X m der s scheme = Ok () \<and> claimed_id X der = Some n"
    and "verify_dsearch_cert K X der' = Ok () \<and> verify_tls_signature K X m' der' s' scheme' = Ok () \<and> claimed_id X der' = Some n"
    and "blake3 K (cert_key_bits X der) = blake3 K (cert_key_bits X der') \<longrightarrow> cert_key_bits X der = cert_key_bits X der'"
  shows "\<exists>vk. node_id_from_pubkey K X vk = n \<and> ed_verify K vk m s \<and> ed_verify K vk m' s'"
proof -
  have one: "\<exists>vk. cl_key_bytes X vk = cert_key_bits X der \<and> n = hex_encode (blake3 K (cert_key_bits X der)) \<and> ed_verify K vk m s"
    if acc: "verify_dsearch_cert K X der = Ok () \<and> verify_tls_signature K X m der s scheme = Ok () \<and> claimed_id X der = Some n" for der m s scheme
  proof -
    obtain cert vk where c: "cl_from_der X der = Ok cert" "cl_key_of_bytes X (xc_key_bits cert) = Some vk"
        "extract_san_uri X cert = Some (hex_encode (blake3 K (xc_key_bits cert)))"
      using acc unfolding accepted_cert by blast
    moreover have "ed_verify K vk m s" using acc c(1,2) unfolding accepted_signature by auto
    moreover have "cl_key_bytes X vk = xc_key_bits cert" using assms(1) c(2) unfolding cert_laws_def by blast
    ultimately show ?thesis using acc by (auto simp: claimed_id_def cert_key_bits_def intro!: exI [of _ vk])
  qed
  obtain vk where vk: "cl_key_bytes X vk = cert_key_bits X der" "n = hex_encode (blake3 K (cert_key_bits X der))" "ed_verify K vk m s"
    using one [OF assms(2)] by blast
  obtain vk' where vk': "cl_key_bytes X vk' = cert_key_bits X der'" "n = hex_encode (blake3 K (cert_key_bits X der'))" "ed_verify K vk' m' s'"
    using one [OF assms(3)] by blast
  have "cert_key_bits X der = cert_key_bits X der'" using vk(2) vk'(2) assms(4) by (simp add: hex_encode_inject)
  then have "cl_key_bytes X vk' = cl_key_bytes X vk" using vk(1) vk'(1) by simp
  then have "cl_key_of_bytes X (cl_key_bytes X vk) = Some vk'" "cl_key_of_bytes X (cl_key_bytes X vk) = Some vk"
    using assms(1) unfolding cert_laws_def by blast+
  then have "vk' = vk" by simp
  moreover have "node_id_from_pubkey K X vk = n" by (simp only: node_id_from_pubkey_def vk(1,2))
  ultimately show ?thesis using vk(3) vk'(3) by blast
qed

text \<open>What rcgen is taken to do: a self-signed certificate with the given address, made with the pair read from
  a key, carries that key and its signature.\<close>

definition rcgen_laws :: "('sk, 'vk) crypto \<Rightarrow> ('sk, 'vk, 'kp) cert_lib \<Rightarrow> bool" where
  "rcgen_laws K X \<longleftrightarrow> (\<forall>s uri. cl_ia5 X s = Ok uri \<longrightarrow> uri = s) \<and>
     (\<forall>sk p kp cn uri der. cl_pkcs8 X sk = Ok p \<and> cl_key_pair X p = Ok kp \<and> cl_self_signed X kp cn uri = Ok der \<and> (\<forall>c \<in> set uri. c < 128) \<longrightarrow>
       (\<exists>cert tbs. cl_from_der X der = Ok cert \<and> xc_issuer cert = xc_subject cert \<and> xc_key_oid cert = lit ''1.3.101.112'' \<and>
          xc_key_bits cert = cl_key_bytes X (ed_verifying_key K sk) \<and> extract_san_uri X cert = Some uri \<and> xc_tbs_der cert = Ok tbs \<and>
          xc_signature cert = ed_sign K sk tbs))"

text \<open>A node accepts the certificate it makes for a new identity, and the certificate claims the identity's id.\<close>

theorem generated_identity_accepted:
  assumes "crypto_laws K" and "cert_laws K X" and "rcgen_laws K X" and "generate_identity K X fresh = Ok (sk, node_id, cert_der, key_der)"
  shows "verify_dsearch_cert K X cert_der = Ok () \<and> claimed_id X cert_der = Some node_id \<and>
    node_id = node_id_from_pubkey K X (ed_verifying_key K sk)"
proof -
  have I: "make_cert_and_key X fresh (own_node_id K X fresh) = Ok (cert_der, key_der)" "sk = fresh" "node_id = own_node_id K X fresh"
    using assms(4) by (cases "make_cert_and_key X fresh (own_node_id K X fresh)"; auto simp: generate_identity_def Let_def)+
  obtain p kp uri where made: "cl_pkcs8 X fresh = Ok p" "cl_key_pair X p = Ok kp" "cl_ia5 X (own_node_id K X fresh) = Ok uri"
      "cl_self_signed X kp (lit ''dsearch'') uri = Ok cert_der"
    using I(1) unfolding make_cert_and_key_def rbind_Ok_iff map_err_Ok_iff by blast
  have uri: "uri = hex_encode (blake3 K (cl_key_bytes X (ed_verifying_key K fresh)))"
    using assms(3) [unfolded rcgen_laws_def, THEN conjunct1, THEN spec, THEN spec, THEN mp, OF made(3)]
    by (simp only: own_node_id_def node_id_from_pubkey_def)
  have "\<forall>c \<in> set uri. c < 128" unfolding uri by (simp add: hex_encode_ascii)
  with made have "cl_pkcs8 X fresh = Ok p \<and> cl_key_pair X p = Ok kp \<and> cl_self_signed X kp (lit ''dsearch'') uri = Ok cert_der \<and>
      (\<forall>c \<in> set uri. c < 128)" by simp
  then obtain cert tbs where "cl_from_der X cert_der = Ok cert" "xc_issuer cert = xc_subject cert"
      "xc_key_oid cert = lit ''1.3.101.112''" "xc_key_bits cert = cl_key_bytes X (ed_verifying_key K fresh)"
      "extract_san_uri X cert = Some uri" "xc_tbs_der cert = Ok tbs" "xc_signature cert = ed_sign K fresh tbs"
    using assms(3) [unfolded rcgen_laws_def, THEN conjunct2, THEN spec [of _ fresh], THEN spec [of _ p], THEN spec [of _ kp],
        THEN spec [of _ "lit ''dsearch''"], THEN spec [of _ uri], THEN spec [of _ cert_der]] by blast
  moreover have "length (cl_key_bytes X (ed_verifying_key K fresh)) = 32"
      "cl_key_of_bytes X (cl_key_bytes X (ed_verifying_key K fresh)) = Some (ed_verifying_key K fresh)"
    using assms(2) unfolding cert_laws_def by blast+
  moreover have "length (ed_sign K fresh tbs) = 64" "ed_verify K (ed_verifying_key K fresh) tbs (ed_sign K fresh tbs)"
    using assms(1) unfolding crypto_laws_def by blast+
  ultimately show ?thesis
    using uri I by (simp add: accepted_cert claimed_id_def own_node_id_def node_id_from_pubkey_def)
qed

section \<open>Runs\<close>

text \<open>One key, and certificates that are the bytes of the address they claim.\<close>

definition sample_certs :: "(unit, unit, unit) cert_lib" where
  "sample_certs = \<lparr>cl_from_der = (\<lambda>d. Ok \<lparr>xc_issuer = [], xc_subject = [], xc_extensions = Some [(lit ''2.5.29.17'', d)],
       xc_key_oid = lit ''1.3.101.112'', xc_key_bits = replicate 32 0, xc_tbs_der = Ok d, xc_signature = ed_sign sample_crypto () d\<rparr>),
     cl_general_names = (\<lambda>v. Some [OtherName, UniformResourceIdentifier (map unat v)]),
     cl_key_of_bytes = (\<lambda>b. if b = replicate 32 0 then Some () else None), cl_key_bytes = (\<lambda>_. replicate 32 0),
     cl_secret_of_bytes = (\<lambda>_. ()), cl_secret_bytes = (\<lambda>_. replicate 32 7), cl_pkcs8 = (\<lambda>_. Ok [48]), cl_key_pair = (\<lambda>_. Ok ()),
     cl_ia5 = Ok, cl_self_signed = (\<lambda>_ _ uri. Ok (map of_nat uri)), cl_pair_der = (\<lambda>_. [48])\<rparr>"

lemma sample_cert_laws: "cert_laws sample_crypto sample_certs"
  by (auto simp: cert_laws_def sample_certs_def)

lemma ascii_bytes: "\<forall>c \<in> set uri. c < 128 \<Longrightarrow> map unat (map of_nat uri :: bytes) = uri"
  by (induction uri) (simp_all add: unat_of_nat)

lemma sample_rcgen_laws: "rcgen_laws sample_crypto sample_certs"
proof -
  have "map (unat \<circ> (of_nat :: nat \<Rightarrow> u8)) uri = uri" if "\<forall>c \<in> set uri. c < 128" for uri
    using ascii_bytes [OF that] by simp
  then show ?thesis by (auto simp: rcgen_laws_def sample_certs_def extract_san_uri_def)
qed

definition sample_id :: ustr where
  "sample_id = hex_encode (blake3 sample_crypto (replicate 32 0))"

lemma own_sample_id: "own_node_id sample_crypto sample_certs u = sample_id"
  by (simp add: own_node_id_def node_id_from_pubkey_def sample_id_def sample_certs_def)

lemma sample_cert_made: "make_cert_and_key sample_certs u i = Ok (map of_nat i, [48])"
  by (simp add: make_cert_and_key_def sample_certs_def)

lemma sample_cert_accepted:
  "verify_dsearch_cert sample_crypto sample_certs (map of_nat sample_id) = Ok () \<and>
   verify_tls_signature sample_crypto sample_certs m (map of_nat sample_id) (ed_sign sample_crypto () m) 0x0807 = Ok () \<and>
   claimed_id sample_certs (map of_nat sample_id) = Some sample_id"
proof -
  have "map unat (map of_nat sample_id :: bytes) = sample_id" by (rule ascii_bytes) (simp add: sample_id_def hex_encode_ascii)
  then have "extract_san_uri sample_certs cert = Some sample_id" if "xc_extensions cert = Some [(lit ''2.5.29.17'', map of_nat sample_id)]" for cert
    using that by (simp add: extract_san_uri_def sample_certs_def)
  then show ?thesis
    using sample_crypto_laws
    by (simp add: accepted_cert accepted_signature claimed_id_def crypto_laws_def) (simp add: sample_certs_def sample_id_def)
qed

definition empty_id_dir :: id_dir where
  "empty_id_dir = (let f = \<lparr>bf_contents = None, bf_read_error = None, bf_write_error = None\<rparr>
     in \<lparr>id_key = f, id_crt = f, id_tls = f, id_mkdir = Ok ()\<rparr>)"

lemma empty_id_dir: "plain_dir empty_id_dir" "\<not> has_identity empty_id_dir"
  by (simp_all add: empty_id_dir_def plain_dir_def has_identity_def bin_exists_def Let_def)

theorem identity_survives_reload_witness:
  "\<exists>I D'. load_or_generate_identity sample_crypto sample_certs () empty_id_dir = (Ok I, D') \<and>
     load_or_generate_identity sample_crypto sample_certs () D' = (Ok I, D') \<and> fst (snd I) = sample_id"
proof -
  have "load_or_generate_identity sample_crypto sample_certs () empty_id_dir =
      (Ok ((), sample_id, map of_nat sample_id, [48]), with_files (replicate 32 7) (map of_nat sample_id) [48] empty_id_dir)"
    by (simp add: load_missing empty_id_dir sample_cert_made own_sample_id) (simp add: sample_certs_def)
  from this identity_survives_reload [OF sample_cert_laws empty_id_dir(1) this, of "()"] show ?thesis by simp
qed

theorem node_id_stands_for_one_key_witness:
  "\<exists>vk. node_id_from_pubkey sample_crypto sample_certs vk = sample_id \<and> ed_verify sample_crypto vk [1] (ed_sign sample_crypto () [1]) \<and>
     ed_verify sample_crypto vk [2] (ed_sign sample_crypto () [2])"
  using node_id_stands_for_one_key [OF sample_cert_laws sample_cert_accepted [of "[1]"] sample_cert_accepted [of "[2]"]] by simp

theorem generated_identity_accepted_witness:
  "\<exists>cert_der key_der. generate_identity sample_crypto sample_certs () = Ok ((), sample_id, cert_der, key_der) \<and>
     verify_dsearch_cert sample_crypto sample_certs cert_der = Ok ()"
proof -
  have "generate_identity sample_crypto sample_certs () = Ok ((), sample_id, map of_nat sample_id, [48])"
    by (simp add: generate_identity_def sample_cert_made own_sample_id)
  from this generated_identity_accepted [OF sample_crypto_laws sample_cert_laws sample_rcgen_laws this] show ?thesis by blast
qed

end
