(* ===== verification/Commands_Node.thy ===== *)
theory Commands_Node
  imports Commands_Records Commands_Peers Cert Server
begin

text \<open>
  The commands of \<^verbatim>\<open>src/src/main.rs\<close> that set up, start and stop the node, keep its identity, run a scraper
  job, follow the log and stop the tray. Log lines are left out, but for those that can panic.
\<close>

section \<open>Identity\<close>

datatype IdentityAction = IdShow | IdExport ustr | IdImport ustr

text \<open>\<^verbatim>\<open>fs::copy\<close>.\<close>

definition copy_bin :: "bin_file \<Rightarrow> bin_file \<Rightarrow> (unit, ustr) result \<times> bin_file" where
  "copy_bin src dst = (case read_bin src of Ok s \<Rightarrow> write_bin s dst | Err e \<Rightarrow> (Err e, dst) | Panic \<Rightarrow> (Panic, dst))"

definition no_identity :: ustr where "no_identity = lit ''No identity found. Run `dsearch init` first.''"

definition show_identity :: "('sk, 'vk) crypto \<Rightarrow> ('sk, 'vk, 'kp) cert_lib \<Rightarrow> json_lib \<Rightarrow> api_conn option \<Rightarrow> id_dir \<Rightarrow> ended" where
  "show_identity K X L A D =
     (case Option.bind A (\<lambda>a. case ac_get a (lit ''/identity'') of Ok body \<Rightarrow> Some body | _ \<Rightarrow> None) of
        Some body \<Rightarrow> (case get_str ''node_id'' (body_value L body) of
            Some node_id \<Rightarrow> ([Out (lit ''Node ID: '' @ node_id)], Finished) | None \<Rightarrow> ([], Finished))
      | None \<Rightarrow>
          if \<not> bin_exists (id_key D) then ([Out no_identity], Finished)
          else (case read_bin (id_key D) of
              Err e \<Rightarrow> ([], Failed e) | Panic \<Rightarrow> ([], Panicked)
            | Ok key_bytes \<Rightarrow>
                if length key_bytes \<noteq> 32
                then ([Eout (lit ''Invalid identity key (expected 32 bytes, got '' @ to_dec (length key_bytes) @ lit '')'')], Exit 1)
                else
                  let verifying_key = ed_verifying_key K (cl_secret_of_bytes X key_bytes)
                  in ([Out (lit ''Node ID: '' @ node_id_from_pubkey K X verifying_key),
                       Out (lit ''Public key: '' @ hex_encode (cl_key_bytes X verifying_key))], Finished)))"

text \<open>The key and the certificate are copied; the TLS key is not. The state is the data directory and the other
  one, \<open>mkdir\<close> the creation of that.\<close>

definition copy_identity :: "id_dir \<Rightarrow> id_dir \<Rightarrow> (unit, ustr) result \<times> id_dir" where
  "copy_identity src dst = (case copy_bin (id_key src) (id_key dst) of
     (Ok _, k) \<Rightarrow> (case copy_bin (id_crt src) (id_crt dst) of (r, c) \<Rightarrow> (r, dst\<lparr>id_key := k, id_crt := c\<rparr>))
   | (r, k) \<Rightarrow> (r, dst\<lparr>id_key := k\<rparr>))"

definition cmd_identity :: "('sk, 'vk) crypto \<Rightarrow> ('sk, 'vk, 'kp) cert_lib \<Rightarrow> json_lib \<Rightarrow> api_conn option \<Rightarrow> IdentityAction
    \<Rightarrow> id_dir \<times> id_dir \<Rightarrow> (id_dir \<times> id_dir) command" where
  "cmd_identity K X L A action S = (case S of (D, other) \<Rightarrow> (case action of
     IdShow \<Rightarrow> ended_with S (show_identity K X L A D)
   | IdExport path \<Rightarrow>
       if bin_exists (id_key D) \<and> bin_exists (id_crt D)
       then attempt (id_mkdir other) S (\<lambda>_. attempt_on (apsnd (Pair D) (copy_identity D other)) (\<lambda>_.
         say [lit ''Identity exported to '' @ path]))
       else say [no_identity] S
   | IdImport path \<Rightarrow>
       if bin_exists (id_key other) \<and> bin_exists (id_crt other)
       then attempt_on (apsnd (\<lambda>D. (D, other)) (copy_identity other D)) (\<lambda>_. say [lit ''Identity imported from '' @ path])
       else say [lit ''No identity found at '' @ path] S))"

section \<open>Initialising\<close>

definition newlines :: "string list \<Rightarrow> ustr" where
  "newlines ls = concat (map (\<lambda>l. lit l @ [10]) ls)"

definition default_bootstrap_toml :: ustr where
  "default_bootstrap_toml = newlines [''# {data_dir}/bootstrap.toml'', ''# Edit freely. Add community or private bootstrap nodes here.'',
     ''# The built-in list is always tried alongside this file.'',
     ''# Remove the built-in list entirely by setting use_defaults = false.'', '''', ''use_defaults = true'']"

definition default_search_providers_toml :: ustr where
  "default_search_providers_toml = newlines [''# {data_dir}/search_providers.toml'', ''# Configure keyword discovery search providers.'',
     ''# Each provider defines a remote API endpoint that can be queried'', ''# for content matching specific keywords.'', '''',
     ''[[providers]]'', ''name = \"default\"'', ''enabled = false'', ''endpoint = \"https://search.dsearch.network/v1\"'']"

record init_files =
  if_id :: id_dir
  if_config :: text_file
  if_bootstrap :: text_file
  if_providers :: text_file

text \<open>\<^verbatim>\<open>to_string_pretty\<close> with the current version in the section \<open>[meta]\<close>.\<close>

definition full_config :: "config_toml \<Rightarrow> DsearchConfig \<Rightarrow> (ustr, ustr) result" where
  "full_config T config = rbind (with_ctx ''Failed to serialize config'' (cfg_to_string T config)) (\<lambda>toml_str.
     Ok (trim_end toml_str @ meta_section CURRENT_CONFIG_VERSION))"

text \<open>The configuration is made when there is none; with a role, one that loads is written again, without the
  version it had, and one that does not load is left as it is.\<close>

definition init_config :: "config_toml \<Rightarrow> ustr option \<Rightarrow> text_file \<Rightarrow> (unit, ustr) result \<times> text_file" where
  "init_config T role f =
     (let put = (\<lambda>config. case full_config T config of Ok s \<Rightarrow> write_file s f | Err e \<Rightarrow> (Err e, f) | Panic \<Rightarrow> (Panic, f))
      in if \<not> file_exists f then put (case role of Some r \<Rightarrow> set_role r DsearchConfig_default | None \<Rightarrow> DsearchConfig_default)
         else case role of
           None \<Rightarrow> (Ok (), f)
         | Some r \<Rightarrow> (case load_config T f of Ok config \<Rightarrow> put (set_role r config) | Err _ \<Rightarrow> (Ok (), f) | Panic \<Rightarrow> (Panic, f)))"

definition write_if_missing :: "ustr \<Rightarrow> text_file \<Rightarrow> (unit, ustr) result \<times> text_file" where
  "write_if_missing s f = (if file_exists f then (Ok (), f) else write_file s f)"

definition cmd_init :: "('sk, 'vk) crypto \<Rightarrow> ('sk, 'vk, 'kp) cert_lib \<Rightarrow> config_toml \<Rightarrow> 'sk \<Rightarrow> ustr \<Rightarrow> ustr option \<Rightarrow> init_files
    \<Rightarrow> init_files command" where
  "cmd_init K X T fresh data_dir role F =
     attempt (id_mkdir (if_id F)) F (\<lambda>_.
     attempt_on (case load_or_generate_identity K X fresh (if_id F) of (r, D) \<Rightarrow> (map_err cert_error_text r, F\<lparr>if_id := D\<rparr>))
       (\<lambda>(_, node_id, _, _) F.
     attempt_on (case init_config T role (if_config F) of (r, f) \<Rightarrow> (r, F\<lparr>if_config := f\<rparr>)) (\<lambda>_ F.
     attempt_on (case write_if_missing default_bootstrap_toml (if_bootstrap F) of (r, f) \<Rightarrow> (r, F\<lparr>if_bootstrap := f\<rparr>)) (\<lambda>_ F.
     attempt_on (case write_if_missing default_search_providers_toml (if_providers F) of (r, f) \<Rightarrow> (r, F\<lparr>if_providers := f\<rparr>)) (\<lambda>_.
       say [lit ''Node initialized successfully.'', lit ''  Node ID: '' @ node_id, lit ''  Data dir: '' @ data_dir,
         lit ''  Role: '' @ unwrap_or role (lit ''light''), lit ''  Identity: '' @ data_dir @ lit ''/identity.key'',
         lit ''  Cert: '' @ data_dir @ lit ''/node.crt''])))))"

section \<open>Starting and stopping\<close>

text \<open>The role of a node is the one on the command line; the configured one is not looked at.\<close>

definition start_role :: "ustr option \<Rightarrow> NodeRole" where
  "start_role role = unwrap_or (NodeRole_from_str (unwrap_or role (lit ''light''))) Light"

definition start_store :: "('sk, 'vk, 'd, 't, 'f, 'c) api_env \<Rightarrow> ('d, ustr) result \<Rightarrow> text_file \<Rightarrow> 'sk
    \<Rightarrow> (('d, 'sk) Store \<times> DsearchConfig, ustr) result" where
  "start_store E created config_file signing_key =
     rbind (open_store (ae_redb E) created) (\<lambda>db. rbind (load_config (ae_config_toml E) config_file) (\<lambda>cfg.
     Ok (set_signing_key signing_key (Store_new db (cf_storage cfg)), cfg)))"

text \<open>Up to the start of the endpoint; the state is the identity's directory, and the node with the configuration when there is one.
  \<open>bound\<close> is what binding the endpoint gives.\<close>

definition start_node :: "('sk, 'vk, 'd, 't, 'f, 'c) api_env \<Rightarrow> ('sk, 'vk, 'd, 't, 'f) env \<Rightarrow> ('sk, 'vk, 'kp) cert_lib \<Rightarrow> 'sk
    \<Rightarrow> (unit, ustr) result \<Rightarrow> ('d, ustr) result \<Rightarrow> ustr option \<Rightarrow> u16 option \<Rightarrow> text_file \<Rightarrow> id_dir
    \<Rightarrow> (id_dir \<times> (('d, 'sk) Node \<times> DsearchConfig) option) command" where
  "start_node E Ev X fresh bound created role port config_file D =
     attempt (id_mkdir D) (D, None) (\<lambda>_.
     case load_config (ae_config_toml E) config_file of
       Err e \<Rightarrow> ([Eout (lit ''Config error: '' @ e)], Exit 1, (D, None)) | Panic \<Rightarrow> ([], Panicked, (D, None))
     | Ok _ \<Rightarrow>
         attempt_on (case load_or_generate_identity (ae_crypto E) X fresh D of (r, D) \<Rightarrow> (map_err cert_error_text r, (D, None)))
           (\<lambda>(signing_key, node_id, _, _) S.
         attempt (start_store E created config_file signing_key) S (\<lambda>(store, cfg).
         case node_start Ev bound ((Node_new node_id (start_role role) (lit ''0.0.0.0:'' @ to_dec (unat (unwrap_or port 7744))))\<lparr>nd_store := Some store\<rparr>) of
           (r, nd) \<Rightarrow> attempt r (fst S, Some (nd, cfg)) (\<lambda>_. say [] (fst S, Some (nd, cfg))))))"

text \<open>Why a text is not an unsigned number of maximum \<open>m\<close>.\<close>

fun digits_error :: "nat \<Rightarrow> nat \<Rightarrow> ustr \<Rightarrow> string" where
  "digits_error m n [] = []"
| "digits_error m n (c # s) =
     (if \<not> is_digit c then ''invalid digit found in string''
      else if m < n * 10 + (c - 48) then ''number too large to fit in target type''
      else digits_error m (n * 10 + (c - 48)) s)"

definition parse_uint_error :: "nat \<Rightarrow> ustr \<Rightarrow> string" where
  "parse_uint_error m s =
     (if s = [] then ''cannot parse integer from empty string''
      else digits_error m 0 (if hd s = 43 \<and> tl s \<noteq> [] then tl s else s))"

text \<open>Stopping on Unix: a signal to the process in \<^verbatim>\<open>node.pid\<close>, as a signed number, and the file removed if it can
  be. The state is the file and the signals sent.\<close>

record pid_state =
  ps_file :: text_file
  ps_signals :: "int list"

definition stop_process :: "bool \<Rightarrow> (u32 \<Rightarrow> ustr list) \<Rightarrow> ustr \<Rightarrow> pid_state \<Rightarrow> pid_state command" where
  "stop_process removable after missing S =
     (if file_exists (ps_file S)
      then attempt (read_to_string (ps_file S)) S (\<lambda>pid_str.
        case parse_uint (2 ^ 32 - 1) (trim pid_str) of
          None \<Rightarrow> ([], Failed (lit ''Invalid PID in node.pid: '' @ lit (parse_uint_error (2 ^ 32 - 1) (trim pid_str))), S)
        | Some pid \<Rightarrow> say ((lit ''SIGTERM sent to node (PID '' @ to_dec pid @ lit '').'') # after (of_nat pid))
            \<lparr>ps_file = (if removable then (ps_file S)\<lparr>fl_contents := None\<rparr> else ps_file S),
             ps_signals = ps_signals S @ [sint (of_nat pid :: u32)]\<rparr>)
      else say [missing] S)"

definition cmd_node_stop :: "bool \<Rightarrow> pid_state \<Rightarrow> pid_state command" where
  "cmd_node_stop removable = stop_process removable (\<lambda>_. [])
     (lit ''No running node found (node.pid missing). Is the node running?'')"

definition cmd_node_restart :: "bool \<Rightarrow> pid_state \<Rightarrow> pid_state command" where
  "cmd_node_restart removable = stop_process removable (\<lambda>_. [lit ''Node stopped. Start it again with `dsearch node start`.''])
     (lit ''No running node found. Use `dsearch node start` to start one.'')"

definition cmd_node_status :: "api_conn option \<Rightarrow> unit command" where
  "cmd_node_status A = (case A of
     Some a \<Rightarrow> (case ac_get a (lit ''/node'') of
         Ok body \<Rightarrow> say [body] () | Err e \<Rightarrow> say [lit ''Node API error: '' @ e] () | Panic \<Rightarrow> ([], Panicked, ()))
   | None \<Rightarrow> say [lit ''Node is not running (API not reachable).''] ())"

definition cmd_tray_stop :: "text_file \<Rightarrow> text_file command" where
  "cmd_tray_stop f = attempt_on (write_file (lit ''stop'') f) (\<lambda>_. say [lit ''Stop signal sent to tray/node.''])"

text \<open>The watcher's turns: whether the file is there at each half-second. A turn that sees it removes it if it can
  and ends the wait.\<close>

fun shutdown_watch :: "bool \<Rightarrow> text_file list \<Rightarrow> text_file option" where
  "shutdown_watch removable [] = None"
| "shutdown_watch removable (f # fs) =
     (if file_exists f then Some (if removable then f\<lparr>fl_contents := None\<rparr> else f) else shutdown_watch removable fs)"

section \<open>Running a job\<close>

definition scraper_run_api :: "json_lib \<Rightarrow> api_conn \<Rightarrow> ustr \<Rightarrow> ended option" where
  "scraper_run_api L a name = (case ac_post a (lit ''/scraper/run'') (obj_text L [(''name'', name)]) of
     Ok resp \<Rightarrow> Some (if is_ok_body L resp
       then ([Out (lit ''Job '' @ quoted name @ lit '' completed: record '' @ str_or ''record_id'' (body_value L resp) ''?'')], Finished)
       else ([Eout (lit ''Job '' @ quoted name @ lit '' failed'')], Finished))
   | _ \<Rightarrow> None)"

definition run_text :: "ScrapeResult \<Rightarrow> ustr" where
  "run_text r = lit ''Job '' @ quoted (sr_job_name r) @ lit '' completed: record '' @ sr_record_id r @
     (if sr_inserted r then lit '' inserted.'' else if sr_replaced r then lit '' replaced (dedup).'' else lit '' skipped (older).'')"

definition cmd_scraper_run :: "('sk, 'vk, 'd, 't, 'f, 'c) api_env \<Rightarrow> api_conn option \<Rightarrow> ('d, ustr) result \<Rightarrow> text_file \<Rightarrow> ustr
    \<Rightarrow> 'd option command" where
  "cmd_scraper_run E A created config_file name =
     (case Option.bind A (\<lambda>a. scraper_run_api (ae_json E) a name) of
        Some r \<Rightarrow> ended_with None r
      | None \<Rightarrow>
          attempt (open_store (ae_redb E) created) None (\<lambda>d. attempt (load_config (ae_config_toml E) config_file) (Some d) (\<lambda>config.
          attempt (ok_or_else (find (\<lambda>j. sj_name j = name) (xc_jobs (cf_scraper config)))
            (lit ''Scraper job '' @ quoted name @ lit '' not found'')) (Some d) (\<lambda>job.
          case run_url_job (ae_crypto E) (ae_lowercase E) (ae_net E) (ae_redb E) (ae_serde E) (ae_secs E)
              (sj_name job) (sj_target job) (Lifecycle_as_str (sj_lifecycle job)) (sj_ttl_secs job)
              (Store_new d (cf_storage config) :: ('d, 'sk) Store) of
            (r, st) \<Rightarrow> attempt r (Some (st_db st)) (\<lambda>result. say [run_text result] (Some (st_db st)))))))"

section \<open>The log\<close>

definition log_level :: "ustr \<Rightarrow> nat" where
  "log_level level =
     (if level = lit ''trace'' then 0 else if level = lit ''debug'' then 1 else if level = lit ''info'' then 2
      else if level = lit ''warn'' then 3 else if level = lit ''error'' then 4 else 2)"

definition log_line_matches_level :: "ustr \<Rightarrow> nat \<Rightarrow> bool" where
  "log_line_matches_level line min_level =
     (let line_level =
        (if str_contains line (lit ''TRACE'') then 0 else if str_contains line (lit ''DEBUG'') then 1
         else if str_contains line (lit ''INFO'') then 2 else if str_contains line (lit ''WARN'') then 3
         else if str_contains line (lit ''ERROR'') then 4 else 2)
      in min_level \<le> line_level)"

text \<open>\<^verbatim>\<open>&s[n..]\<close>: from the byte \<open>n\<close> on, when that is between characters.\<close>

fun str_from :: "nat \<Rightarrow> ustr \<Rightarrow> ustr option" where
  "str_from n [] = (if n = 0 then Some [] else None)"
| "str_from n (c # s) = (if n = 0 then Some (c # s) else if utf8_len c \<le> n then str_from (n - utf8_len c) s else None)"

definition log_lines :: "nat \<Rightarrow> ustr list \<Rightarrow> out_line list" where
  "log_lines min_level ls = map Out (filter (\<lambda>line. log_line_matches_level line min_level) ls)"

text \<open>What each read of the file gives, one every half-second until the five minutes are over.\<close>

fun tail_loop :: "nat \<Rightarrow> nat \<Rightarrow> (ustr, ustr) result list \<Rightarrow> ended" where
  "tail_loop min_level offset [] = ([], Finished)"
| "tail_loop min_level offset (r # rs) = (case r of
     Ok contents \<Rightarrow>
       if offset < str_len contents then
         (case str_from offset contents of
            None \<Rightarrow> ([], Panicked)
          | Some new_content \<Rightarrow> apfst ((@) (log_lines min_level (lines new_content))) (tail_loop min_level (str_len contents) rs))
       else tail_loop min_level offset rs
   | Err _ \<Rightarrow> tail_loop min_level offset rs
   | Panic \<Rightarrow> ([], Panicked))"

definition cmd_log :: "ustr \<Rightarrow> ustr \<Rightarrow> text_file \<Rightarrow> (ustr, ustr) result list \<Rightarrow> ended" where
  "cmd_log path level f reads =
     (if \<not> file_exists f then ([Out (lit ''No log file found at '' @ path @ lit ''. Is the node running?'')], Finished)
      else case read_to_string f of
        Err e \<Rightarrow> ([], Failed e) | Panic \<Rightarrow> ([], Panicked)
      | Ok contents \<Rightarrow>
          let ls = lines contents
          in apfst ((@) (log_lines (log_level level) (drop (length ls - 50) ls))) (tail_loop (log_level level) (str_len contents) reads))"

end
