(* ===== verification/Node_Laws.thy ===== *)
theory Node_Laws
  imports Commands_Node
begin

text \<open>
  What the commands that set up the node, keep its identity and follow its log promise.
\<close>

section \<open>Importing an identity\<close>

lemma copied_bin: "bf_contents src = Some s \<Longrightarrow> bf_read_error src = None \<Longrightarrow> bf_write_error dst = None \<Longrightarrow>
    copy_bin src dst = (Ok (), dst\<lparr>bf_contents := Some s\<rparr>)"
  by (simp add: copy_bin_def read_bin_def write_bin_def)

text \<open>C35: An imported identity is the node's only when the directory had a TLS key before: without one the next
  start makes a new identity over the imported key.\<close>

theorem imported_identity_needs_tls_key:
  assumes "cert_laws K X" and "plain_dir D" and "plain_dir other"
    and "bf_contents (id_key other) = Some k" and "bf_contents (id_crt other) = Some c" and "length k = 32"
  shows "\<exists>out D'. cmd_identity K X L A (IdImport path) (D, other) = (out, Finished, (D', other)) \<and> bf_contents (id_key D') = Some k \<and>
    (\<forall>fresh I D''. load_or_generate_identity K X fresh D' = (Ok I, D'') \<longrightarrow>
      (if bin_exists (id_tls D) then fst I = cl_secret_of_bytes X k \<and> bf_contents (id_key D'') = Some k
       else fst I = fresh \<and> bf_contents (id_key D'') = Some (cl_secret_bytes X fresh)))"
proof -
  let ?D = "D\<lparr>id_key := (id_key D)\<lparr>bf_contents := Some k\<rparr>, id_crt := (id_crt D)\<lparr>bf_contents := Some c\<rparr>\<rparr>"
  have "copy_identity other D = (Ok (), ?D)"
    using assms(2-5) copied_bin [of "id_key other" k "id_key D"] copied_bin [of "id_crt other" c "id_crt D"]
    by (simp add: copy_identity_def plain_dir_def)
  then have run: "cmd_identity K X L A (IdImport path) (D, other) =
      ([Out (lit ''Identity imported from '' @ path)], Finished, (?D, other))"
    using assms(4,5) by (simp add: cmd_identity_def bin_exists_def attempt_on_def attempt_def say_def)
  have plain: "plain_dir ?D" using assms(2) by (simp add: plain_dir_def)
  have ids: "has_identity ?D \<longleftrightarrow> bin_exists (id_tls D)" by (simp add: has_identity_def bin_exists_def)
  have loaded: "if bin_exists (id_tls D) then fst I = cl_secret_of_bytes X k \<and> bf_contents (id_key D'') = Some k
      else fst I = fresh \<and> bf_contents (id_key D'') = Some (cl_secret_bytes X fresh)"
    if load: "load_or_generate_identity K X fresh ?D = (Ok I, D'')" for fresh I D''
  proof (cases "bin_exists (id_tls D)")
    case True
    with load_result [OF assms(1) plain load, of fresh] ids show ?thesis by simp
  next
    case False
    with load load_missing [OF plain, of K X fresh] ids show ?thesis by (auto split: result.splits)
  qed
  have key: "bf_contents (id_key ?D) = Some k" by simp
  show ?thesis using run key loaded by blast
qed

section \<open>Following the log\<close>

lemma split_on_at: "split_on c (a @ c # b) = split_on c a @ split_on c b"
  by (induction a) (auto split: list.split)

lemma lines_append: "lines ((a @ [10]) @ b) = lines (a @ [10]) @ lines b"
  by (simp add: lines_def Let_def split_on_at butlast_append)

lemma str_from_append: "str_from (str_len a) (a @ b) = Some b"
proof (induction a)
  case Nil
  then show ?case by (cases b) simp_all
next
  case (Cons c a)
  then show ?case using utf8_len_bounds(1) [of c] by (simp add: str_len_append)
qed

text \<open>A text that is written to the end of the file ends with a line break.\<close>

definition whole_lines :: "ustr \<Rightarrow> bool" where
  "whole_lines s \<longleftrightarrow> s = [] \<or> last s = 10"

lemma lines_whole: "whole_lines a \<Longrightarrow> lines (a @ b) = lines a @ lines b"
proof (cases "a = []")
  case False
  assume "whole_lines a"
  with False have "a = butlast a @ [10]" by (metis append_butlast_last_id whole_lines_def)
  then show ?thesis using lines_append by metis
qed (simp add: lines_def)

text \<open>What a file is at each read while it grows; reads that fail come between.\<close>

fun growing :: "ustr \<Rightarrow> ustr list \<Rightarrow> ustr list" where
  "growing s [] = []"
| "growing s (a # as) = (s @ a) # growing (s @ a) as"

fun reads_of :: "(ustr, ustr) result list \<Rightarrow> ustr list" where
  "reads_of [] = []"
| "reads_of (Ok s # rs) = s # reads_of rs"
| "reads_of (r # rs) = reads_of rs"

lemma tail_loop_growing:
  assumes "reads_of rs = growing s as" and "Panic \<notin> set rs"
  shows "tail_loop m (str_len s) rs = (concat (map (\<lambda>a. log_lines m (lines a)) as), Finished)"
  using assms
proof (induction rs arbitrary: s as)
  case Nil
  then show ?case by (cases as) simp_all
next
  case (Cons r rs)
  show ?case
  proof (cases r)
    case (Ok x)
    with Cons.prems(1) obtain a as' where as: "as = a # as'" "x = s @ a" "reads_of rs = growing (s @ a) as'" by (cases as) auto
    have rest: "tail_loop m (str_len (s @ a)) rs = (concat (map (\<lambda>a. log_lines m (lines a)) as'), Finished)"
      using Cons.IH [OF as(3)] Cons.prems(2) by simp
    show ?thesis
    proof (cases "a = []")
      case True
      with rest Ok as show ?thesis by (simp add: lines_def log_lines_def)
    next
      case False
      then have "str_len s < str_len (s @ a)" by (simp add: str_len_append zero_less_iff_neq_zero)
      with rest Ok as str_from_append [of s a] show ?thesis by simp
    qed
  qed (use Cons in simp_all)
qed

lemma log_lines_whole: "list_all whole_lines as \<Longrightarrow> concat (map (\<lambda>a. log_lines m (lines a)) as) = log_lines m (lines (concat as))"
  by (induction as) (simp_all add: lines_whole log_lines_def, simp add: lines_def)

text \<open>C36: The log is shown without a gap and without a repetition: the last fifty lines there were, then the lines of
  every piece that is added between two reads that succeed, however the reads fall and whichever fail. When each read sees
  whole lines, these are the lines that were added; a line that falls in two pieces is shown as two.\<close>

theorem log_followed:
  assumes "fl_contents f = Some s" and "fl_read_error f = None" and "reads_of rs = growing s as" and "Panic \<notin> set rs"
  shows "cmd_log path level f rs =
      (log_lines (log_level level) (drop (length (lines s) - 50) (lines s)) @
        concat (map (\<lambda>a. log_lines (log_level level) (lines a)) as), Finished) \<and>
    (list_all whole_lines as \<longrightarrow> cmd_log path level f rs =
      (log_lines (log_level level) (drop (length (lines s) - 50) (lines s) @ lines (concat as)), Finished))"
proof -
  have "cmd_log path level f rs = (log_lines (log_level level) (drop (length (lines s) - 50) (lines s)) @
      concat (map (\<lambda>a. log_lines (log_level level) (lines a)) as), Finished)"
    using tail_loop_growing [OF assms(3,4), of "log_level level"] assms(1,2)
    by (simp add: cmd_log_def file_exists_def read_to_string_def Let_def)
  then show ?thesis using log_lines_whole [of as "log_level level"] by (simp add: log_lines_def)
qed

text \<open>A line that is read in two parts is shown as two, each at a level of its own.\<close>

lemma torn_log_line:
  "cmd_log path (lit ''warn'') (plain_file (Some [])) [Ok (lit ''WARN disk''), Ok (lit ''WARN disk full'' @ [10])] =
     ([Out (lit ''WARN disk'')], Finished)"
  by (simp add: cmd_log_def log_level_def log_lines_def log_line_matches_level_def lines_def str_len_def utf8_len_def lit_Cons
      starts_with_def strip_cr_def Let_def)

section \<open>Initialising again\<close>

lemma attempt_on_Finished: "attempt_on (r, S) k = (out, Finished, S') \<Longrightarrow> \<exists>x. r = Ok x \<and> k x S = (out, Finished, S')"
  by (simp add: attempt_on_def attempt_def split: result.splits)

lemma write_if_missing_again: "write_if_missing s f = (Ok u, f') \<Longrightarrow> write_if_missing s' f' = (Ok (), f')"
  by (auto simp: write_if_missing_def write_file_Ok file_exists_def split: if_splits)

lemma init_config_again: "init_config T role f = (Ok u, f') \<Longrightarrow> init_config T None f' = (Ok (), f')"
  by (auto simp: init_config_def write_file_Ok file_exists_def Let_def split: if_splits option.splits result.splits)

text \<open>A directory that is initialised stays as it is when it is initialised again without a role: the same node,
  and no file written.\<close>

theorem init_again:
  assumes "cert_laws K X" and "plain_dir (if_id F)" and "cmd_init K X T fresh data_dir role F = (out, Finished, F')"
  shows "\<exists>out'. cmd_init K X T fresh' data_dir None F' = (out', Finished, F') \<and> out' ! 1 = out ! 1"
proof -
  obtain r D where load: "load_or_generate_identity K X fresh (if_id F) = (r, D)" by force
  obtain c f where config: "init_config T role (if_config F) = (c, f)" by force
  obtain b g where boot: "write_if_missing default_bootstrap_toml (if_bootstrap F) = (b, g)" by force
  obtain p h where prov: "write_if_missing default_search_providers_toml (if_providers F) = (p, h)" by force
  have mk: "id_mkdir (if_id F) = Ok ()" using assms(2) by (simp add: plain_dir_def)
  obtain I where I: "r = Ok I" using assms(3) mk load by (cases r) (auto simp: cmd_init_def attempt_on_def attempt_def)
  obtain sk i ct t where I': "I = (sk, i, ct, t)" by (cases I)
  have oks: "c = Ok ()" "b = Ok ()" "p = Ok ()"
    using assms(3) mk load I I' config boot prov
    by (auto simp: cmd_init_def attempt_on_def attempt_def split: result.splits)
  have F': "F' = \<lparr>if_id = D, if_config = f, if_bootstrap = g, if_providers = h\<rparr>" and out: "out ! 1 = Out (lit ''  Node ID: '' @ i)"
    using assms(3) mk load I I' config boot prov oks
    by (cases F, auto simp: cmd_init_def attempt_on_def attempt_def say_def)+
  have "load_or_generate_identity K X fresh' D = (Ok I, D)" using load_result [OF assms(1,2), of fresh I D fresh'] load I by simp
  moreover have "id_mkdir D = Ok ()"
    using load_result [OF assms(1,2), of fresh I D fresh] load I by (simp add: plain_dir_def)
  moreover have "init_config T None f = (Ok (), f)" using init_config_again config oks(1) by blast
  moreover have "write_if_missing default_bootstrap_toml g = (Ok (), g)" "write_if_missing default_search_providers_toml h = (Ok (), h)"
    using write_if_missing_again boot prov oks by blast+
  ultimately show ?thesis using I' F' out by (simp add: cmd_init_def attempt_on_def attempt_def say_def)
qed

section \<open>Stopping\<close>

text \<open>The number in the file is signed for the signal: one over 2147483647 addresses a group of processes, and
  4294967295 every process there is.\<close>

theorem stop_signals_signed_number:
  assumes "file_exists (ps_file S)" and "read_to_string (ps_file S) = Ok (to_dec pid)" and "pid < 2 ^ 32"
  shows "\<exists>out S'. cmd_node_stop removable S = (out, Finished, S') \<and>
    ps_signals S' = ps_signals S @ [if pid < 2 ^ 31 then int pid else int pid - 2 ^ 32]"
proof -
  have "parse_uint (2 ^ 32 - 1) (trim (to_dec pid)) = Some pid"
  proof -
    have "trim (to_dec pid) = to_dec pid" by (rule trim_fixed) (simp_all add: to_dec_ends)
    then show ?thesis using assms(3) by (simp add: parse_uint_to_dec)
  qed
  moreover have "sint (of_nat pid :: u32) = (if pid < 2 ^ 31 then int pid else int pid - 2 ^ 32)"
  proof -
    have "(int pid + 2147483648) mod 4294967296 = (if pid < 2 ^ 31 then int pid + 2147483648 else int pid - 2147483648)"
    proof (cases "pid < 2 ^ 31")
      case False
      then have "(int pid + 2147483648) mod 4294967296 = (int pid - 2147483648) mod 4294967296"
        using mod_add_self2 [of "int pid - 2147483648" 4294967296] by (simp add: add.commute)
      also have "\<dots> = int pid - 2147483648" using False assms(3) by (intro mod_pos_pos_trivial) simp_all
      finally show ?thesis using False by simp
    qed simp
    then show ?thesis by (simp add: signed_of_nat signed_take_bit_eq_take_bit_shift take_bit_eq_mod)
  qed
  ultimately show ?thesis
    using assms(1,2) by (simp add: cmd_node_stop_def stop_process_def attempt_def say_def)
qed

section \<open>Runs\<close>

definition other_id_dir :: id_dir where
  "other_id_dir = with_files (replicate 32 7) [1] [] empty_id_dir"

theorem imported_identity_needs_tls_key_witness:
  "\<exists>out D'. cmd_identity sample_crypto sample_certs sample_json None (IdImport (lit ''/b'')) (empty_id_dir, other_id_dir) = (out, Finished, (D', other_id_dir)) \<and>
     bf_contents (id_key D') = Some (replicate 32 7)"
  using imported_identity_needs_tls_key [OF sample_cert_laws empty_id_dir(1), of other_id_dir "replicate 32 7" "[1]" sample_json None "lit ''/b''"]
  by (auto simp: other_id_dir_def empty_id_dir)

theorem log_followed_witness:
  "cmd_log (lit ''/d/dsearch.log'') (lit ''warn'') (plain_file (Some (lit ''WARN a'' @ [10])))
     [Ok (lit ''WARN a'' @ [10]), Err (lit ''busy''), Ok (lit ''WARN a'' @ [10] @ lit ''INFO b'' @ [10])] =
   (log_lines 3 (lines (lit ''WARN a'' @ [10]) @ lines (lit ''INFO b'' @ [10])), Finished)"
proof -
  have "length (lines (lit ''WARN a'' @ [10])) = 1" by (simp add: lines_def lit_Cons)
  with log_followed [of "plain_file (Some (lit ''WARN a'' @ [10]))" "lit ''WARN a'' @ [10]" "[Ok (lit ''WARN a'' @ [10]), Err (lit ''busy''),
      Ok (lit ''WARN a'' @ [10] @ lit ''INFO b'' @ [10])]" "[[], lit ''INFO b'' @ [10]]" "lit ''/d/dsearch.log''" "lit ''warn''"]
  show ?thesis by (simp add: plain_file_def whole_lines_def log_level_def) (simp add: log_lines_def lines_def)
qed

definition empty_init_files :: init_files where
  "empty_init_files = \<lparr>if_id = empty_id_dir, if_config = plain_file None, if_bootstrap = plain_file None, if_providers = plain_file None\<rparr>"

theorem init_again_witness:
  "\<exists>out F' out'. cmd_init sample_crypto sample_certs node_toml () (lit ''/d'') (Some (lit ''full'')) empty_init_files = (out, Finished, F') \<and>
     cmd_init sample_crypto sample_certs node_toml () (lit ''/d'') None F' = (out', Finished, F') \<and> out' ! 1 = out ! 1"
proof -
  have mk: "id_mkdir empty_id_dir = Ok ()" using empty_id_dir(1) by (simp add: plain_dir_def)
  have "\<exists>out F'. cmd_init sample_crypto sample_certs node_toml () (lit ''/d'') (Some (lit ''full'')) empty_init_files = (out, Finished, F')"
    by (simp add: cmd_init_def empty_init_files_def mk load_missing empty_id_dir sample_cert_made own_sample_id init_config_def full_config_def
        write_if_missing_def node_toml_def attempt_on_def attempt_def say_def)
  then obtain out F' where "cmd_init sample_crypto sample_certs node_toml () (lit ''/d'') (Some (lit ''full'')) empty_init_files = (out, Finished, F')"
    by blast
  from this init_again [OF sample_cert_laws _ this, of "()"] show ?thesis
    by (simp add: empty_init_files_def empty_id_dir)
qed

theorem stop_signals_signed_number_witness:
  "\<exists>out S'. cmd_node_stop True \<lparr>ps_file = plain_file (Some (to_dec 4294967295)), ps_signals = []\<rparr> = (out, Finished, S') \<and> ps_signals S' = [-1]"
  using stop_signals_signed_number [of "\<lparr>ps_file = plain_file (Some (to_dec 4294967295)), ps_signals = []\<rparr>" 4294967295 True] by simp

end
