(* ===== verification/Commands_Start.thy ===== *)
theory Commands_Start
  imports Commands_Node
begin

text \<open>
  \<^verbatim>\<open>dsearch node start\<close> in \<^verbatim>\<open>src/src/main.rs\<close>: from the endpoint to the end of the process. What the node's
  other tasks do meanwhile are the steps of \<open>Server\<close>, \<open>Local\<close>, \<open>Gateway\<close> and \<open>Scheduler\<close>; here is the thread that
  starts them, with the files it leaves. The system, the network and the window are parameters.
\<close>

section \<open>The start\<close>

text \<open>What dialling a peer gives: the connection, the clock, and the two streams.\<close>

record dialled =
  dl_connected :: "(unit, ustr) result"
  dl_secs :: u64
  dl_stream :: stream
  dl_sender :: sender

text \<open>\<open>sy_dial\<close> is given how many peers are still to come; \<open>sy_warn\<close> is whether warnings are logged.\<close>

record 'a system =
  sy_bound :: "(unit, ustr) result"
  sy_bind_port :: "u16 \<Rightarrow> (unit, ustr) result"
  sy_parse_addr :: "ustr \<Rightarrow> ('a, ustr) result"
  sy_show_addr :: "'a \<Rightarrow> ustr"
  sy_bind_addr :: "'a \<Rightarrow> (unit, ustr) result"
  sy_dial :: "nat \<Rightarrow> dialled"
  sy_warn :: bool
  sy_pid :: u32
  sy_removable :: bool

record ('d, 'sk) start_state =
  sn_dir :: id_dir
  sn_node :: "('d, 'sk) Node option"
  sn_gateway :: "GatewayContext option"
  sn_config :: text_file
  sn_bootstrap :: text_file
  sn_api_port :: text_file
  sn_pid :: text_file
  sn_shutdown :: text_file

text \<open>The loop over the bootstrap peers: the node itself is left out, and so is an address that does not parse; a
  connection that fails is only logged.\<close>

fun connect_peers :: "('sk, 'vk, 'd, 't, 'f) env \<Rightarrow> 'a system \<Rightarrow> BootstrapPeer list \<Rightarrow> ('d, 'sk) Node
    \<Rightarrow> (unit, ustr) result \<times> ('d, 'sk) Node" where
  "connect_peers Ev V [] nd = (Ok (), nd)"
| "connect_peers Ev V (p # ps) nd =
     (if bp_id p = nd_node_id nd then connect_peers Ev V ps nd
      else case sy_parse_addr V (bp_addr p) of
        Ok addr \<Rightarrow>
          (case log_id (ev_info Ev) (bp_id p) of
             Ok _ \<Rightarrow>
               let d = sy_dial V (length ps)
               in (case connect_to_peer Ev (dl_connected d) (dl_secs d) (sy_show_addr V addr) (nd, dl_stream d, dl_sender d) of
                     (Ok _, nd, _, _) \<Rightarrow> connect_peers Ev V ps nd
                   | (Err _, nd, _, _) \<Rightarrow> (case log_id (sy_warn V) (bp_id p) of
                       Ok _ \<Rightarrow> connect_peers Ev V ps nd | _ \<Rightarrow> (Panic, nd))
                   | (Panic, nd, _, _) \<Rightarrow> (Panic, nd))
           | _ \<Rightarrow> (Panic, nd))
      | _ \<Rightarrow> connect_peers Ev V ps nd)"

text \<open>After the endpoint: the API, the gateway, the bootstrap peers, and only then the file by which \<^verbatim>\<open>node stop\<close>
  finds the process.\<close>

definition start_services :: "('sk, 'vk, 'd, 't, 'f, 'c) api_env \<Rightarrow> ('sk, 'vk, 'd, 't, 'f) env \<Rightarrow> 'a system \<Rightarrow> DsearchConfig
    \<Rightarrow> ('d, 'sk) Node \<Rightarrow> ('d, 'sk) start_state \<Rightarrow> ('d, 'sk) start_state command" where
  "start_services E Ev V cfg nd S =
     attempt_on (case start_api_server (sy_bind_port V) (ac_port (cf_api cfg)) (sn_api_port S) of (r, f) \<Rightarrow> (r, S\<lparr>sn_api_port := f\<rparr>))
       (\<lambda>_ S.
     attempt (if gc_enabled (cf_gateway cfg) then start_gateway_server (sy_parse_addr V) (sy_show_addr V) (sy_bind_addr V) cfg
       else Ok None) S (\<lambda>g.
     attempt (resolve_bootstrap_peers (ae_udp E) (ae_bootstrap_toml E) (sn_bootstrap S)) (S\<lparr>sn_gateway := g\<rparr>) (\<lambda>peers.
     attempt_on (case connect_peers Ev V peers nd of (r, nd) \<Rightarrow> (r, S\<lparr>sn_gateway := g, sn_node := Some nd\<rparr>)) (\<lambda>_ S.
     attempt_on (case write_file (to_dec (unat (sy_pid V))) (sn_pid S) of (r, f) \<Rightarrow> (r, S\<lparr>sn_pid := f\<rparr>)) (\<lambda>_.
       say [])))))"

definition start_up :: "('sk, 'vk, 'd, 't, 'f, 'c) api_env \<Rightarrow> ('sk, 'vk, 'd, 't, 'f) env \<Rightarrow> ('sk, 'vk, 'kp) cert_lib \<Rightarrow> 'a system
    \<Rightarrow> 'sk \<Rightarrow> ('d, ustr) result \<Rightarrow> ustr option \<Rightarrow> u16 option \<Rightarrow> ('d, 'sk) start_state \<Rightarrow> ('d, 'sk) start_state command" where
  "start_up E Ev X V fresh created role port S =
     (case start_node E Ev X fresh (sy_bound V) created role port (sn_config S) (sn_dir S) of
        (out, Finished, D, Some (nd, cfg)) \<Rightarrow> start_services E Ev V cfg nd (S\<lparr>sn_dir := D, sn_node := Some nd\<rparr>)
      | (out, e, D, n) \<Rightarrow> (out, e, S\<lparr>sn_dir := D, sn_node := map_option fst n\<rparr>))"

section \<open>The end\<close>

text \<open>The half-seconds of a node without a window: whether Ctrl+C came before the end of it, and the signal file
  then. The file as it is after the wait; nothing while the node still waits.\<close>

fun headless_wait :: "bool \<Rightarrow> (bool \<times> text_file) list \<Rightarrow> text_file option" where
  "headless_wait removable [] = None"
| "headless_wait removable ((ctrl_c, f) # turns) =
     (if ctrl_c then Some f
      else if file_exists f then Some (if removable then f\<lparr>fl_contents := None\<rparr> else f)
      else headless_wait removable turns)"

definition remove_pid :: "'a system \<Rightarrow> text_file \<Rightarrow> text_file" where
  "remove_pid V f = (if sy_removable V then f\<lparr>fl_contents := None\<rparr> else f)"

definition finish :: "'a system \<Rightarrow> ('d, 'sk) start_state \<Rightarrow> ('d, 'sk) start_state command" where
  "finish V S = say [lit ''Node stopped.''] (S\<lparr>sn_pid := remove_pid V (sn_pid S), sn_node := map_option node_stop (sn_node S)\<rparr>)"

text \<open>With a window the signal file is watched too, but only removed; what ends the node is the window, \<open>ui\<close>.\<close>

definition wait_for_end :: "'a system \<Rightarrow> bool \<Rightarrow> (bool \<times> text_file) list \<Rightarrow> (unit, ustr) result option \<Rightarrow> ('d, 'sk) start_state
    \<Rightarrow> ('d, 'sk) start_state command option" where
  "wait_for_end V headless turns ui S =
     (if headless then
        map_option (\<lambda>f. apfst ((#) (Out (lit ''Node running (headless). Press Ctrl+C to stop.''))) (finish V (S\<lparr>sn_shutdown := f\<rparr>)))
          (headless_wait (sy_removable V) turns)
      else
        map_option (\<lambda>r. let S = (case shutdown_watch (sy_removable V) (map snd turns) of Some f \<Rightarrow> S\<lparr>sn_shutdown := f\<rparr> | None \<Rightarrow> S)
          in attempt r S (\<lambda>_. finish V S)) ui)"

text \<open>The whole command; nothing while the node runs.\<close>

definition cmd_node_start :: "('sk, 'vk, 'd, 't, 'f, 'c) api_env \<Rightarrow> ('sk, 'vk, 'd, 't, 'f) env \<Rightarrow> ('sk, 'vk, 'kp) cert_lib \<Rightarrow> 'a system
    \<Rightarrow> 'sk \<Rightarrow> ('d, ustr) result \<Rightarrow> bool \<Rightarrow> ustr option \<Rightarrow> u16 option \<Rightarrow> (bool \<times> text_file) list \<Rightarrow> (unit, ustr) result option
    \<Rightarrow> ('d, 'sk) start_state \<Rightarrow> ('d, 'sk) start_state command option" where
  "cmd_node_start E Ev X V fresh created headless role port turns ui S =
     (case start_up E Ev X V fresh created role port S of
        (out, Finished, S) \<Rightarrow> map_option (apfst ((@) out)) (wait_for_end V headless turns ui S)
      | c \<Rightarrow> Some c)"


section \<open>What the start leaves\<close>


text \<open>Connecting changes the routing table and its file only.\<close>

definition same_node :: "('d, 'sk) Node \<Rightarrow> ('d, 'sk) Node \<Rightarrow> bool" where
  "same_node nd nd' \<longleftrightarrow> nd_running nd' = nd_running nd \<and> nd_role nd' = nd_role nd \<and> nd_node_id nd' = nd_node_id nd \<and>
     nd_store nd' = nd_store nd"

lemma same_node_simps [simp]:
  "same_node nd nd" "same_node nd (write_peers_file nd') = same_node nd nd'" "same_node nd (add_peer e nd') = same_node nd nd'"
  by (simp_all add: same_node_def write_peers_file_def add_peer_def)












text \<open>A window that cannot be opened ends the command with an error, and the process file stays.\<close>

theorem failed_window_leaves_pid:
  assumes "start_up E Ev X V fresh created role port S = (out, Finished, S')"
  shows "\<exists>S''. cmd_node_start E Ev X V fresh created False role port turns (Some (Err e)) S = Some (out, Failed e, S'') \<and>
    sn_pid S'' = sn_pid S'"
  using assms by (simp add: cmd_node_start_def wait_for_end_def attempt_def Let_def split: option.splits)

section \<open>A run\<close>





end
