(* ===== verification/Service.thy ===== *)
theory Service
  imports Commands
begin

text \<open>
  \<^verbatim>\<open>src/src/service/install.rs\<close> and \<^verbatim>\<open>status.rs\<close>, and the service commands of \<^verbatim>\<open>src/src/main.rs\<close>: what
  registering the node with the operating system writes and runs. The programs that are run are a
  parameter; the state is the unit file or property list, the marker in the data directory, and the
  command lines so far.
\<close>

section \<open>The system\<close>

datatype os = Linux | Macos | Windows | Other_os

text \<open>\<open>se_run\<close> gives whether a program succeeded and what it wrote to its error stream; \<open>se_exe\<close> is the path of
  the program, or why there is none; \<open>se_remove\<close> is the error of removing the unit file.\<close>

record service_env =
  se_os :: os
  se_exe :: "(ustr, ustr) result"
  se_home :: ustr
  se_data_dir :: ustr
  se_mkdir :: "(unit, ustr) result"
  se_remove :: "ustr option"
  se_run :: "ustr list \<Rightarrow> (bool \<times> ustr, ustr) result"

record service_state =
  sv_unit :: text_file
  sv_marker :: text_file
  sv_ran :: "ustr list list"

type_synonym 'a serviced = "service_state \<Rightarrow> ('a, ustr) result \<times> service_state"

definition sv_then :: "'a serviced \<Rightarrow> ('a \<Rightarrow> 'b serviced) \<Rightarrow> 'b serviced" where
  "sv_then m k S = (case m S of (Ok x, S) \<Rightarrow> k x S | (Err e, S) \<Rightarrow> (Err e, S) | (Panic, S) \<Rightarrow> (Panic, S))"

definition sv_result :: "('a, ustr) result \<Rightarrow> 'a serviced" where
  "sv_result r S = (r, S)"

definition sv_try :: "service_env \<Rightarrow> string list \<Rightarrow> ustr list \<Rightarrow> (bool \<times> ustr) serviced" where
  "sv_try V args words S = (se_run V (map lit args @ words), S\<lparr>sv_ran := sv_ran S @ [map lit args @ words]\<rparr>)"

text \<open>A program whose outcome is not looked at.\<close>

definition sv_ignore :: "service_env \<Rightarrow> string list \<Rightarrow> ustr list \<Rightarrow> unit serviced" where
  "sv_ignore V args words S = (case sv_try V args words S of (r, S) \<Rightarrow> (Ok (), S))"

text \<open>A program that must succeed.\<close>

definition sv_must :: "service_env \<Rightarrow> string \<Rightarrow> string \<Rightarrow> string list \<Rightarrow> ustr list \<Rightarrow> string \<Rightarrow> ustr serviced" where
  "sv_must V name what args words done_text =
     sv_then (\<lambda>S. apfst (map_err (\<lambda>e. lit ''Failed to run '' @ lit name @ lit '': '' @ e)) (sv_try V args words S)) (\<lambda>(success, stderr).
       sv_result (if success then Ok (lit done_text) else Err (lit what @ lit '' failed: '' @ stderr)))"

definition write_unit :: "string \<Rightarrow> ustr \<Rightarrow> unit serviced" where
  "write_unit what s S = (case write_file s (sv_unit S) of
     (r, f) \<Rightarrow> (map_err (\<lambda>e. lit ''Failed to write '' @ lit what @ lit '': '' @ e) r, S\<lparr>sv_unit := f\<rparr>))"

definition write_service_marker :: "string \<Rightarrow> unit serviced" where
  "write_service_marker service_type S = (case write_file (lit service_type) (sv_marker S) of
     (r, f) \<Rightarrow> (map_err (\<lambda>e. lit ''Failed to write service marker: '' @ e) r, S\<lparr>sv_marker := f\<rparr>))"

definition remove_unit :: "service_env \<Rightarrow> string \<Rightarrow> unit serviced" where
  "remove_unit V what S =
     (if file_exists (sv_unit S)
      then (case se_remove V of
          Some e \<Rightarrow> (Err (lit ''Failed to remove '' @ lit what @ lit '': '' @ e), S)
        | None \<Rightarrow> (Ok (), S\<lparr>sv_unit := (sv_unit S)\<lparr>fl_contents := None\<rparr>\<rparr>))
      else (Ok (), S))"

section \<open>Paths and files\<close>

definition systemd_unit_dir :: "service_env \<Rightarrow> ustr" where
  "systemd_unit_dir V = se_home V @ lit ''/.config/systemd/user''"

definition systemd_unit_path :: "service_env \<Rightarrow> ustr" where
  "systemd_unit_path V = systemd_unit_dir V @ lit ''/dsearch.service''"

definition launchd_plist_dir :: "service_env \<Rightarrow> ustr" where
  "launchd_plist_dir V = se_home V @ lit ''/Library/LaunchAgents''"

definition launchd_plist_path :: "service_env \<Rightarrow> ustr" where
  "launchd_plist_path V = launchd_plist_dir V @ lit ''/com.dsearch.node.plist''"

definition text_lines :: "ustr list \<Rightarrow> ustr" where
  "text_lines ls = concat (map (\<lambda>l. l @ [10]) ls)"

definition node_args :: "service_env \<Rightarrow> bool \<Rightarrow> ustr \<Rightarrow> ustr list" where
  "node_args V headless exe_path = [exe_path, lit ''node'', lit ''start''] @ (if headless then [lit ''--headless''] else []) @
     [lit ''--data-dir'', se_data_dir V]"

text \<open>The command line is the words with single spaces; nothing is quoted.\<close>

definition node_cmd :: "service_env \<Rightarrow> bool \<Rightarrow> ustr \<Rightarrow> ustr" where
  "node_cmd V headless exe_path = join [32] (node_args V headless exe_path)"

definition unit_content :: "ustr \<Rightarrow> ustr" where
  "unit_content cmd = text_lines [lit ''[Unit]'', lit ''Description=DSearch Node'', lit ''After=network.target'', [], lit ''[Service]'',
     lit ''Type=simple'', lit ''ExecStart='' @ cmd, lit ''Restart=on-failure'', lit ''RestartSec=5'', [], lit ''[Install]'',
     lit ''WantedBy=default.target'']"

text \<open>The source's lines of the list are continued with backslashes, so they lose their indentation; the lines
  that join the arguments keep eight spaces.\<close>

definition plist_content :: "ustr list \<Rightarrow> ustr" where
  "plist_content args = text_lines [lit ''<?xml version=\"1.0\" encoding=\"UTF-8\"?>'',
     lit ''<!DOCTYPE plist PUBLIC \"-//Apple//DTD PLIST 1.0//EN\" \"http://www.apple.com/DTDs/PropertyList-1.0.dtd\">'',
     lit ''<plist version=\"1.0\">'', lit ''<dict>'', lit ''<key>Label</key>'', lit ''<string>com.dsearch.node</string>'',
     lit ''<key>ProgramArguments</key>'', lit ''<array>'',
     join ([10] @ lit ''        '') (map (\<lambda>a. lit ''<string>'' @ a @ lit ''</string>'') args),
     lit ''</array>'', lit ''<key>RunAtLoad</key>'', lit ''<true/>'', lit ''<key>KeepAlive</key>'', lit ''<true/>'', lit ''</dict>'', lit ''</plist>'']"

section \<open>Installing\<close>

definition install_systemd :: "service_env \<Rightarrow> ustr \<Rightarrow> bool \<Rightarrow> ustr serviced" where
  "install_systemd V exe_path headless =
     sv_then (sv_result (map_err (\<lambda>e. lit ''Failed to create systemd unit dir: '' @ e) (se_mkdir V))) (\<lambda>_.
     sv_then (write_unit ''unit file'' (unit_content (node_cmd V headless exe_path))) (\<lambda>_.
     sv_then (sv_ignore V [''systemctl'', ''--user'', ''daemon-reload''] []) (\<lambda>_.
     sv_then (write_service_marker ''systemd'') (\<lambda>_.
     sv_result (Ok (lit ''Service installed (systemd user unit at '' @ systemd_unit_path V @ lit '')''))))))"

definition install_launchd :: "service_env \<Rightarrow> ustr \<Rightarrow> bool \<Rightarrow> ustr serviced" where
  "install_launchd V exe_path headless =
     sv_then (sv_result (map_err (\<lambda>e. lit ''Failed to create launchd plist dir: '' @ e) (se_mkdir V))) (\<lambda>_.
     sv_then (write_unit ''plist'' (plist_content (node_args V headless exe_path))) (\<lambda>_.
     sv_then (sv_ignore V [''launchctl'', ''load'', ''-w''] [launchd_plist_path V]) (\<lambda>_.
     sv_then (write_service_marker ''launchd'') (\<lambda>_.
     sv_result (Ok (lit ''Service installed (launchd plist at '' @ launchd_plist_path V @ lit '')''))))))"

definition install_windows_service :: "service_env \<Rightarrow> ustr \<Rightarrow> bool \<Rightarrow> ustr serviced" where
  "install_windows_service V exe_path headless =
     sv_then (\<lambda>S. apfst (map_err (\<lambda>e. lit ''Failed to run sc: '' @ e))
       (sv_try V [''sc'', ''create'', ''DSearch'', ''binPath=''] [node_cmd V headless exe_path, lit ''start=demand'', lit ''DisplayName=DSearch Node''] S))
       (\<lambda>(success, stderr).
     if success
     then sv_then (write_service_marker ''windows_service'') (\<lambda>_. sv_result (Ok (lit ''Service installed (Windows Service: DSearch)'')))
     else if str_contains stderr (lit ''already exists'') \<or> str_contains stderr (lit ''ERROR_SERVICE_EXISTS'')
     then sv_then (write_service_marker ''windows_service'') (\<lambda>_. sv_result (Ok (lit ''Service already exists (Windows Service: DSearch)'')))
     else sv_result (Err (lit ''sc create failed: '' @ stderr)))"

definition service_install :: "service_env \<Rightarrow> bool \<Rightarrow> ustr serviced" where
  "service_install V headless =
     sv_then (sv_result (map_err (\<lambda>e. lit ''Cannot determine executable path: '' @ e) (se_exe V))) (\<lambda>exe_str.
     case se_os V of
       Linux \<Rightarrow> install_systemd V exe_str headless
     | Macos \<Rightarrow> install_launchd V exe_str headless
     | Windows \<Rightarrow> install_windows_service V exe_str headless
     | Other_os \<Rightarrow> sv_result (Err (lit ''Service installation not supported on this platform'')))"

section \<open>The other operations\<close>

definition service_enable :: "service_env \<Rightarrow> ustr serviced" where
  "service_enable V = (case se_os V of
     Linux \<Rightarrow> sv_must V ''systemctl'' ''systemctl enable'' [''systemctl'', ''--user'', ''enable'', ''dsearch''] []
       ''Service enabled (will start on boot)''
   | Macos \<Rightarrow> sv_must V ''launchctl'' ''launchctl load'' [''launchctl'', ''load'', ''-w''] [launchd_plist_path V]
       ''Service enabled (will start on boot)''
   | Windows \<Rightarrow> sv_must V ''sc'' ''sc config'' [''sc'', ''config'', ''DSearch'', ''start=auto''] []
       ''Service enabled (will start on boot)''
   | Other_os \<Rightarrow> sv_result (Err (lit ''Service enable not supported on this platform'')))"

definition service_disable :: "service_env \<Rightarrow> ustr serviced" where
  "service_disable V = (case se_os V of
     Linux \<Rightarrow> sv_must V ''systemctl'' ''systemctl disable'' [''systemctl'', ''--user'', ''disable'', ''dsearch''] []
       ''Service disabled (will not start on boot)''
   | Macos \<Rightarrow> sv_must V ''launchctl'' ''launchctl unload'' [''launchctl'', ''unload'', ''-w''] [launchd_plist_path V]
       ''Service disabled (will not start on boot)''
   | Windows \<Rightarrow> sv_must V ''sc'' ''sc config'' [''sc'', ''config'', ''DSearch'', ''start=demand''] []
       ''Service disabled (will not start on boot)''
   | Other_os \<Rightarrow> sv_result (Err (lit ''Service disable not supported on this platform'')))"

definition service_uninstall :: "service_env \<Rightarrow> ustr serviced" where
  "service_uninstall V = (case se_os V of
     Linux \<Rightarrow>
       sv_then (sv_ignore V [''systemctl'', ''--user'', ''stop'', ''dsearch''] []) (\<lambda>_.
       sv_then (sv_ignore V [''systemctl'', ''--user'', ''disable'', ''dsearch''] []) (\<lambda>_.
       sv_then (remove_unit V ''unit file'') (\<lambda>_.
       sv_then (sv_ignore V [''systemctl'', ''--user'', ''daemon-reload''] []) (\<lambda>_.
       sv_result (Ok (lit ''Service uninstalled''))))))
   | Macos \<Rightarrow>
       sv_then (sv_ignore V [''launchctl'', ''unload''] [launchd_plist_path V]) (\<lambda>_.
       sv_then (remove_unit V ''plist'') (\<lambda>_.
       sv_result (Ok (lit ''Service uninstalled''))))
   | Windows \<Rightarrow>
       sv_then (sv_ignore V [''net'', ''stop'', ''DSearch''] []) (\<lambda>_.
       sv_must V ''sc'' ''sc delete'' [''sc'', ''delete'', ''DSearch''] [] ''Service uninstalled'')
   | Other_os \<Rightarrow> sv_result (Err (lit ''Service uninstall not supported on this platform'')))"

definition is_service_registered :: "service_state \<Rightarrow> bool" where
  "is_service_registered S \<longleftrightarrow> file_exists (sv_marker S)"

text \<open>\<open>health\<close> is the client's call on a port.\<close>

definition is_service_running :: "(u16 \<Rightarrow> (ustr, ustr) result) \<Rightarrow> text_file \<Rightarrow> bool" where
  "is_service_running health port_file =
     (file_exists port_file \<and> (case read_api_port port_file of Some port \<Rightarrow> is_ok (health port) | None \<Rightarrow> False))"

definition service_status :: "(u16 \<Rightarrow> (ustr, ustr) result) \<Rightarrow> text_file \<Rightarrow> ustr serviced" where
  "service_status health port_file S = (Ok (lit ''Service: '' @
     (if is_service_registered S then lit ''registered'' else lit ''not registered'') @ lit '' | '' @
     (if is_service_running health port_file then lit ''running'' else lit ''stopped'')), S)"

datatype ServiceAction = SvInstall bool | SvEnable | SvDisable | SvStatus | SvUninstall

definition cmd_service :: "service_env \<Rightarrow> (u16 \<Rightarrow> (ustr, ustr) result) \<Rightarrow> text_file \<Rightarrow> ServiceAction \<Rightarrow> service_state
    \<Rightarrow> service_state command" where
  "cmd_service V health port_file action S =
     attempt_on ((case action of
         SvInstall headless \<Rightarrow> service_install V headless
       | SvEnable \<Rightarrow> service_enable V
       | SvDisable \<Rightarrow> service_disable V
       | SvStatus \<Rightarrow> service_status health port_file
       | SvUninstall \<Rightarrow> service_uninstall V) S) (\<lambda>msg. say [msg])"

section \<open>What the commands keep\<close>

text \<open>A property of the state that each part of a command keeps.\<close>

definition keeps :: "(service_state \<Rightarrow> bool) \<Rightarrow> 'a serviced \<Rightarrow> bool" where
  "keeps P m \<longleftrightarrow> (\<forall>S. P S \<longrightarrow> P (snd (m S)))"

lemma keeps_then: "keeps P m \<Longrightarrow> (\<And>x. keeps P (k x)) \<Longrightarrow> keeps P (sv_then m k)"
  by (force simp: keeps_def sv_then_def split: prod.split result.split)

lemma keeps_result: "keeps P (sv_result r)"
  by (simp add: keeps_def sv_result_def)

lemma keeps_if: "keeps P m \<Longrightarrow> keeps P m' \<Longrightarrow> keeps P (if b then m else m')"
  by simp

lemma registered_parts:
  "keeps is_service_registered (sv_ignore V args words)" "keeps is_service_registered (write_unit what s)"
  "keeps is_service_registered (write_service_marker t)" "keeps is_service_registered (remove_unit V what)"
  "keeps is_service_registered (\<lambda>S. apfst f (sv_try V args words S))" "keeps is_service_registered (service_status health port_file)"
  by (auto simp: keeps_def is_service_registered_def sv_ignore_def sv_try_def write_unit_def write_service_marker_def remove_unit_def
      write_file_def file_exists_def service_status_def split: option.splits)

lemmas registered_intros = keeps_then keeps_result keeps_if registered_parts

lemma must_keeps: "keeps is_service_registered (sv_must V name what args words t)"
  unfolding sv_must_def by (intro registered_intros) (auto intro: registered_intros)

lemma service_keeps:
  "keeps is_service_registered (service_install V headless)" "keeps is_service_registered (service_enable V)"
  "keeps is_service_registered (service_disable V)" "keeps is_service_registered (service_uninstall V)"
  by (cases "se_os V"; force simp: service_install_def service_enable_def service_disable_def service_uninstall_def install_systemd_def
      install_launchd_def install_windows_service_def intro!: registered_intros must_keeps)+

text \<open>The node counts as registered from the first installation on: no command, an uninstallation included,
  takes the marker away, so the status and the doctor report a service that is gone.\<close>

theorem registered_for_ever:
  assumes "is_service_registered S" and "cmd_service V health port_file action S = (out, e, S')"
  shows "is_service_registered S'"
proof -
  let ?m = "case action of SvInstall headless \<Rightarrow> service_install V headless | SvEnable \<Rightarrow> service_enable V
    | SvDisable \<Rightarrow> service_disable V | SvStatus \<Rightarrow> service_status health port_file | SvUninstall \<Rightarrow> service_uninstall V"
  have "keeps is_service_registered ?m"
    using service_keeps registered_parts(6) by (cases action) simp_all
  then have "is_service_registered (snd (?m S))" using assms(1) by (simp add: keeps_def)
  moreover have "S' = snd (?m S)"
    using assms(2) by (auto simp: cmd_service_def attempt_on_def attempt_def say_def split: prod.splits result.splits)
  ultimately show ?thesis by simp
qed

text \<open>An installation on Linux that succeeds leaves the unit with the node's command, and the marker.\<close>

theorem installed_unit:
  assumes "se_os V = Linux" and "service_install V headless S = (Ok msg, S')"
  shows "is_service_registered S' \<and> (\<exists>exe. se_exe V = Ok exe \<and> fl_contents (sv_unit S') = Some (unit_content (node_cmd V headless exe))) \<and>
    sv_ran S' = sv_ran S @ [[lit ''systemctl'', lit ''--user'', lit ''daemon-reload'']]"
  using assms
  by (auto simp: service_install_def install_systemd_def sv_then_def sv_result_def write_unit_def write_service_marker_def sv_ignore_def
      sv_try_def write_file_Ok is_service_registered_def file_exists_def split: prod.splits result.splits)

section \<open>Runs\<close>

definition linux_env :: service_env where
  "linux_env = \<lparr>se_os = Linux, se_exe = Ok (lit ''/bin/dsearch''), se_home = lit ''/h'', se_data_dir = lit ''/d'', se_mkdir = Ok (),
     se_remove = None, se_run = (\<lambda>_. Ok (True, []))\<rparr>"

definition installed_state :: service_state where
  "installed_state = \<lparr>sv_unit = plain_file (Some []), sv_marker = plain_file (Some (lit ''systemd'')), sv_ran = []\<rparr>"

theorem registered_for_ever_witness:
  "\<exists>out S'. cmd_service linux_env (\<lambda>_. Err []) (plain_file None) SvUninstall installed_state = (out, Finished, S') \<and>
     \<not> file_exists (sv_unit S') \<and> is_service_registered S'"
proof -
  have "\<exists>out S'. cmd_service linux_env (\<lambda>_. Err []) (plain_file None) SvUninstall installed_state = (out, Finished, S') \<and> \<not> file_exists (sv_unit S')"
    by (simp add: cmd_service_def service_uninstall_def linux_env_def installed_state_def sv_then_def sv_ignore_def sv_try_def sv_result_def
        remove_unit_def attempt_on_def attempt_def say_def plain_file_def file_exists_def)
  then obtain out S' where run: "cmd_service linux_env (\<lambda>_. Err []) (plain_file None) SvUninstall installed_state = (out, Finished, S')"
    and "\<not> file_exists (sv_unit S')" by blast
  moreover have "is_service_registered installed_state" by (simp add: is_service_registered_def installed_state_def)
  ultimately show ?thesis using registered_for_ever [OF _ run] by blast
qed

end
