(* ===== verification/Doctor.thy ===== *)
theory Doctor
  imports Commands_Node Service
begin

text \<open>
  \<^verbatim>\<open>src/src/doctor/mod.rs\<close>: the checks of \<^verbatim>\<open>dsearch doctor\<close> and its report. What the system
  and the network give, with the store and the files the checks read, is in the record \<open>doctor_env\<close>; the first check can write the identity's files, so it
  gives their directory too.
\<close>

section \<open>Checks\<close>

datatype CheckStatus = CheckOk | CheckWarn | CheckFail

definition CheckStatus_text :: "CheckStatus \<Rightarrow> ustr" where
  "CheckStatus_text s = (case s of CheckOk \<Rightarrow> [10003] | CheckWarn \<Rightarrow> [9888] | CheckFail \<Rightarrow> [10007])"

record DoctorCheck =
  dc_category :: ustr
  dc_name :: ustr
  dc_status :: CheckStatus
  dc_detail :: "ustr option"

definition check :: "string \<Rightarrow> ustr \<Rightarrow> CheckStatus \<Rightarrow> ustr option \<Rightarrow> DoctorCheck" where
  "check category name status detail = \<lparr>dc_category = lit category, dc_name = name, dc_status = status, dc_detail = detail\<rparr>"

text \<open>A result that is reported: fine, or failed with the error.\<close>

definition outcome :: "string \<Rightarrow> ustr \<Rightarrow> string \<Rightarrow> ('a, ustr) result \<Rightarrow> (DoctorCheck list, ustr) result" where
  "outcome category name what r = (case r of
     Ok _ \<Rightarrow> Ok [check category name CheckOk None]
   | Err e \<Rightarrow> Ok [check category name CheckFail (Some (lit what @ e))]
   | Panic \<Rightarrow> Panic)"

fun all_checks :: "(DoctorCheck list, ustr) result list \<Rightarrow> (DoctorCheck list, ustr) result" where
  "all_checks [] = Ok []"
| "all_checks (r # rs) = rbind r (\<lambda>cs. rbind (all_checks rs) (\<lambda>ds. Ok (cs @ ds)))"

text \<open>The store is missing or what opening its file gives; the configuration and the bootstrap list are files of
  the data directory.\<close>

record ('d, 't) doctor_env =
  de_data_dir :: ustr
  de_redb :: "('d, 't) redb"
  de_store :: "('d, ustr) result option"
  de_config_toml :: config_toml
  de_config_file :: text_file
  de_udp :: udp
  de_bootstrap_toml :: toml
  de_bootstrap_file :: text_file
  de_bind_quic :: "(unit, ustr) result"
  de_bind_any :: "(unit, ustr) result"
  de_connect :: "ustr \<Rightarrow> (unit, ustr) result"
  de_port_file :: text_file
  de_health :: "u16 \<Rightarrow> (ustr, ustr) result"
  de_registered :: bool

definition de_db_exists :: "('d, 't) doctor_env \<Rightarrow> bool" where
  "de_db_exists V \<longleftrightarrow> de_store V \<noteq> None"

definition de_db_opens :: "('d, 't) doctor_env \<Rightarrow> (unit, ustr) result" where
  "de_db_opens V = (case de_store V of None \<Rightarrow> Err (lit ''not found'') | Some opened \<Rightarrow> rbind opened (\<lambda>_. Ok ()))"

definition de_schema :: "('d, 't) doctor_env \<Rightarrow> (u64, ustr) result" where
  "de_schema V = check_and_migrate_on_path (de_redb V) (de_store V)"

definition de_config :: "('d, 't) doctor_env \<Rightarrow> (DsearchConfig, ustr) result" where
  "de_config V = load_config (de_config_toml V) (de_config_file V)"

definition de_peers :: "('d, 't) doctor_env \<Rightarrow> (BootstrapPeer list, ustr) result" where
  "de_peers V = resolve_bootstrap_peers (de_udp V) (de_bootstrap_toml V) (de_bootstrap_file V)"

definition check_identity :: "('sk, 'vk) crypto \<Rightarrow> ('sk, 'vk, 'kp) cert_lib \<Rightarrow> 'sk \<Rightarrow> ustr \<Rightarrow> id_dir
    \<Rightarrow> (DoctorCheck list, ustr) result \<times> id_dir" where
  "check_identity K X fresh data_dir D =
     (let found = lit ''Keypair found at '' @ data_dir @ lit ''/identity.key'';
          (r, D) =
            (if bin_exists (id_key D) then
               (case load_or_generate_identity K X fresh D of
                  (Ok (_, node_id, _, _), D) \<Rightarrow>
                    (case str_upto 16 node_id of
                       Some short_id \<Rightarrow> (Ok [check ''Identity'' found CheckOk None, check ''Identity'' (lit ''TLS cert valid, matches keypair'') CheckOk None,
                         check ''Identity'' (lit ''Node ID: '' @ short_id) CheckOk None], D)
                     | None \<Rightarrow> (Panic, D))
                | (Err e, D) \<Rightarrow> (Ok [check ''Identity'' found CheckOk None, check ''Identity'' (lit ''TLS cert valid, matches keypair'') CheckFail
                    (Some (lit ''Error: '' @ cert_error_text e))], D)
                | (Panic, D) \<Rightarrow> (Panic, D))
             else (Ok [check ''Identity'' found CheckFail (Some (lit ''File not found '' @ [8212] @ lit '' run `dsearch init` first''))], D))
      in (rbind r (\<lambda>cs. Ok (cs @ (if bin_exists (id_crt D) then []
           else [check ''Identity'' (lit ''Cert file at '' @ data_dir @ lit ''/node.crt'') CheckFail (Some (lit ''File not found''))]))), D))"

definition check_storage :: "('d, 't) doctor_env \<Rightarrow> (DoctorCheck list, ustr) result" where
  "check_storage V = all_checks
     [(case de_db_opens V of
         Err e \<Rightarrow> Ok [if de_db_exists V then check ''Storage'' (lit ''store.redb opens cleanly'') CheckFail (Some (lit ''Error: '' @ e))
           else check ''Storage'' (lit ''store.redb opens cleanly'') CheckWarn
             (Some (lit ''Database file not yet created '' @ [8212] @ lit '' will be created on first use''))]
       | r \<Rightarrow> outcome ''Storage'' (lit ''store.redb opens cleanly'') '''' r),
      (case de_schema V of
         Ok version \<Rightarrow>
           (let is_current = (version = CURRENT_SCHEMA_VERSION)
            in Ok [check ''Storage'' (lit ''Schema version: '' @ to_dec (unat version) @ lit '' ('' @
                 (if is_current then lit ''current'' else lit ''outdated'') @ lit '')'') (if is_current then CheckOk else CheckWarn)
                 (if is_current then None else Some (lit ''Current is '' @ to_dec (unat CURRENT_SCHEMA_VERSION)))])
       | Err e \<Rightarrow> Ok [check ''Storage'' (lit ''Schema version'') CheckWarn (Some (lit ''Could not read: '' @ e))]
       | Panic \<Rightarrow> Panic),
      (case de_config V of
         Ok config \<Rightarrow> Ok [check ''Storage'' (lit ''Quota: '' @ (if sc_quota_mb (cf_storage config) = 0 then lit ''unlimited''
           else to_dec (unat (sc_quota_mb (cf_storage config))) @ lit '' MB'')) CheckOk None]
       | Err _ \<Rightarrow> Ok [] | Panic \<Rightarrow> Panic)]"

text \<open>A peer is taken to be reachable when a UDP socket can be connected to its address, which sends nothing.\<close>

definition check_peer :: "('d, 't) doctor_env \<Rightarrow> BootstrapPeer \<Rightarrow> (DoctorCheck list, ustr) result" where
  "check_peer V p =
     (let name = lit ''Bootstrap peer '' @ bp_addr p @ lit '' reachable''
      in case de_bind_any V of
           Ok _ \<Rightarrow> outcome ''Network'' name ''Unreachable: '' (de_connect V (bp_addr p))
         | r \<Rightarrow> outcome ''Network'' name ''Cannot create socket: '' r)"

definition check_network :: "('d, 't) doctor_env \<Rightarrow> (DoctorCheck list, ustr) result" where
  "check_network V = rbind (outcome ''Network'' (lit ''UDP port 7744 bindable'') ''Error: '' (de_bind_quic V)) (\<lambda>bind_check.
     rbind (de_peers V) (\<lambda>peers.
     rbind (all_checks (map (check_peer V) peers)) (\<lambda>peer_checks.
     Ok (bind_check @ peer_checks @ (if peers = []
       then [check ''Network'' (lit ''Bootstrap peers configured'') CheckWarn (Some (lit ''No bootstrap peers found''))] else [])))))"

definition check_api :: "('d, 't) doctor_env \<Rightarrow> (DoctorCheck list, ustr) result" where
  "check_api V =
     (if file_exists (de_port_file V)
      then (case read_api_port (de_port_file V) of
          Some port \<Rightarrow> outcome ''API'' (lit ''Local API on port '' @ to_dec (unat port)) ''Not reachable: '' (de_health V port)
        | None \<Rightarrow> Ok [])
      else Ok [check ''API'' (lit ''Local API'') CheckWarn (Some (lit ''Node not running (api.port file not found)''))])"

definition check_config :: "('d, 't) doctor_env \<Rightarrow> (DoctorCheck list, ustr) result" where
  "check_config V = outcome ''Config'' (lit ''config.toml valid'') ''Error: '' (de_config V)"

definition check_service :: "('d, 't) doctor_env \<Rightarrow> (DoctorCheck list, ustr) result" where
  "check_service V = Ok
     [check ''Service'' (lit ''Registered for startup'') (if de_registered V then CheckOk else CheckWarn)
        (if de_registered V then None else Some (lit ''Not registered '' @ [8212] @ lit '' run `dsearch service install`'')),
      check ''Service'' (lit ''Currently running'')
        (if is_service_running (de_health V) (de_port_file V) then CheckOk else CheckWarn) None]"

definition run_doctor :: "('sk, 'vk) crypto \<Rightarrow> ('sk, 'vk, 'kp) cert_lib \<Rightarrow> 'sk \<Rightarrow> ('d, 't) doctor_env \<Rightarrow> id_dir
    \<Rightarrow> (DoctorCheck list, ustr) result \<times> id_dir" where
  "run_doctor K X fresh V D = (case check_identity K X fresh (de_data_dir V) D of
     (r, D) \<Rightarrow> (all_checks [r, check_storage V, check_network V, check_api V, check_config V, check_service V], D))"

section \<open>The report\<close>

fun format_checks :: "ustr \<Rightarrow> DoctorCheck list \<Rightarrow> ustr" where
  "format_checks current_category [] = []"
| "format_checks current_category (c # cs) =
     (if dc_category c \<noteq> current_category then [10, 32, 32] @ dc_category c @ [10] else []) @
     lit ''    '' @ CheckStatus_text (dc_status c) @ [32] @ dc_name c @
     (case dc_detail c of Some d \<Rightarrow> lit '' ('' @ d @ lit '')'' | None \<Rightarrow> []) @ [10] @ format_checks (dc_category c) cs"

definition format_text :: "DoctorCheck list \<Rightarrow> ustr" where
  "format_text checks = format_checks [] checks"

text \<open>\<open>pretty\<close> is serde's view of the checks.\<close>

definition format_json :: "(DoctorCheck list \<Rightarrow> (ustr, ustr) result) \<Rightarrow> DoctorCheck list \<Rightarrow> ustr" where
  "format_json pretty checks = (case pretty checks of Ok s \<Rightarrow> s | _ \<Rightarrow> lit ''[]'')"

definition cmd_doctor :: "('sk, 'vk) crypto \<Rightarrow> ('sk, 'vk, 'kp) cert_lib \<Rightarrow> 'sk \<Rightarrow> (DoctorCheck list \<Rightarrow> (ustr, ustr) result) \<Rightarrow> ('d, 't) doctor_env
    \<Rightarrow> ustr \<Rightarrow> id_dir \<Rightarrow> id_dir command" where
  "cmd_doctor K X fresh pretty V output D = attempt_on (run_doctor K X fresh V D) (\<lambda>checks D.
     (if output = lit ''json'' then [Out (format_json pretty checks)]
      else [Out (lit ''dsearch doctor'' @ [10]), Out (format_text checks)],
      if list_ex (\<lambda>c. dc_status c = CheckFail) checks then Exit 1 else Finished, D))"

section \<open>What the report means\<close>

definition passes :: "(DoctorCheck list, ustr) result \<Rightarrow> bool" where
  "passes r \<longleftrightarrow> (\<exists>cs. r = Ok cs \<and> (\<forall>c \<in> set cs. dc_status c \<noteq> CheckFail))"

lemma passes_all: "passes (all_checks rs) \<longleftrightarrow> (\<forall>r \<in> set rs. passes r)"
  by (induction rs) (auto simp: passes_def res_simps)

lemma passes_outcome [simp]: "passes (outcome category name what r) \<longleftrightarrow> is_ok r"
  by (cases r) (auto simp: passes_def outcome_def check_def)

lemma passes_bind: "passes (rbind r (\<lambda>cs. Ok (f cs))) \<longleftrightarrow> (\<exists>cs. r = Ok cs \<and> (\<forall>c \<in> set (f cs). dc_status c \<noteq> CheckFail))"
  by (auto simp: passes_def res_simps)

lemma short_own_id: "\<exists>t. str_upto 16 (own_node_id K X sk) = Some t"
  using str_upto_ascii [of "own_node_id K X sk" 16] hex_encode_ascii by (auto simp: own_node_id_def node_id_from_pubkey_def)

lemma passes_identity:
  assumes "cert_laws K X" and "plain_dir D" and "check_identity K X fresh data_dir D = (r, D')"
  shows "passes r \<longleftrightarrow> bin_exists (id_key D) \<and> is_ok (fst (load_or_generate_identity K X fresh D))"
proof (cases "bin_exists (id_key D)")
  case True
  obtain q E where load: "load_or_generate_identity K X fresh D = (q, E)" by force
  show ?thesis
  proof (cases q)
    case (Ok I)
    obtain sk i c t where I: "I = (sk, i, c, t)" by (cases I)
    obtain u where "str_upto 16 i = Some u"
      using load_result [OF assms(1,2), of fresh I E fresh] load Ok I short_own_id [of K X sk] by auto
    moreover have "bin_exists (id_crt E)"
      using load_keeps_files [OF assms(2), of K X fresh I E] load Ok by (simp add: has_identity_def)
    ultimately show ?thesis
      using assms(3) True load Ok I by (auto simp: check_identity_def Let_def passes_def check_def)
  qed (use assms(3) True load in \<open>auto simp: check_identity_def Let_def passes_def check_def\<close>)
qed (use assms(3) in \<open>auto simp: check_identity_def Let_def passes_def check_def\<close>)

text \<open>Everything the environment must give for no check to fail.\<close>

definition healthy :: "('d, 't) doctor_env \<Rightarrow> bool" where
  "healthy V \<longleftrightarrow> (is_ok (de_db_opens V) \<or> de_db_opens V \<noteq> Panic \<and> \<not> de_db_exists V) \<and> de_schema V \<noteq> Panic \<and> is_ok (de_config V) \<and>
     is_ok (de_bind_quic V) \<and>
     (\<exists>ps. de_peers V = Ok ps \<and> (\<forall>p \<in> set ps. is_ok (de_bind_any V) \<and> is_ok (de_connect V (bp_addr p)))) \<and>
     (\<forall>port. file_exists (de_port_file V) \<and> read_api_port (de_port_file V) = Some port \<longrightarrow> is_ok (de_health V port))"

lemma passes_Ok: "passes (Ok cs) \<longleftrightarrow> (\<forall>c \<in> set cs. dc_status c \<noteq> CheckFail)" "\<not> passes Panic"
  by (simp_all add: passes_def)

lemma check_status [simp]: "dc_status (check category name status detail) = status"
  by (simp add: check_def)

lemma passes_storage: "passes (check_storage V) \<longleftrightarrow>
    (is_ok (de_db_opens V) \<or> de_db_opens V \<noteq> Panic \<and> \<not> de_db_exists V) \<and> de_schema V \<noteq> Panic \<and> de_config V \<noteq> Panic"
  unfolding check_storage_def passes_all
  by (cases "de_db_opens V"; cases "de_schema V"; cases "de_config V") (simp_all add: passes_Ok Let_def)

lemma passes_peer: "passes (check_peer V p) \<longleftrightarrow> is_ok (de_bind_any V) \<and> is_ok (de_connect V (bp_addr p))"
  by (cases "de_bind_any V") (simp_all add: check_peer_def)

lemma passes_network: "passes (check_network V) \<longleftrightarrow> is_ok (de_bind_quic V) \<and>
    (\<exists>ps. de_peers V = Ok ps \<and> (\<forall>p \<in> set ps. is_ok (de_bind_any V) \<and> is_ok (de_connect V (bp_addr p))))"
proof -
  have "passes (check_network V) \<longleftrightarrow> passes (outcome ''Network'' (lit ''UDP port 7744 bindable'') ''Error: '' (de_bind_quic V)) \<and>
      (\<exists>ps. de_peers V = Ok ps \<and> passes (all_checks (map (check_peer V) ps)))"
  proof (cases "de_peers V")
    case (Ok ps)
    then show ?thesis
      by (cases "outcome ''Network'' (lit ''UDP port 7744 bindable'') ''Error: '' (de_bind_quic V)"; cases "all_checks (map (check_peer V) ps)")
        (auto simp: check_network_def passes_def)
  qed (cases "outcome ''Network'' (lit ''UDP port 7744 bindable'') ''Error: '' (de_bind_quic V)"; simp add: check_network_def passes_def)+
  then show ?thesis by (simp add: passes_all passes_peer)
qed

lemma passes_rest: "passes (check_api V) \<longleftrightarrow> (\<forall>port. file_exists (de_port_file V) \<and> read_api_port (de_port_file V) = Some port \<longrightarrow>
      is_ok (de_health V port))" "passes (check_config V) \<longleftrightarrow> is_ok (de_config V)" "passes (check_service V)"
  by (cases "read_api_port (de_port_file V)"; simp add: check_api_def check_config_def check_service_def passes_Ok)+

text \<open>The doctor ends well exactly when there is a key whose identity loads and the environment is healthy.\<close>

theorem doctor_ends_well:
  assumes "cert_laws K X" and "plain_dir D"
  shows "(\<exists>out D'. cmd_doctor K X fresh pretty V output D = (out, Finished, D')) \<longleftrightarrow>
    bin_exists (id_key D) \<and> is_ok (fst (load_or_generate_identity K X fresh D)) \<and> healthy V"
proof -
  obtain r D' where r: "check_identity K X fresh (de_data_dir V) D = (r, D')" by force
  have "(\<exists>out D'. cmd_doctor K X fresh pretty V output D = (out, Finished, D')) \<longleftrightarrow> passes (fst (run_doctor K X fresh V D))"
    by (auto simp: cmd_doctor_def attempt_on_def attempt_def passes_def list_ex_iff split: prod.splits result.splits)
  also have "\<dots> \<longleftrightarrow> passes r \<and> passes (check_storage V) \<and> passes (check_network V) \<and> passes (check_api V) \<and> passes (check_config V) \<and>
      passes (check_service V)"
    by (simp add: run_doctor_def r passes_all del: all_checks.simps)
  finally show ?thesis
    unfolding passes_identity [OF assms r] passes_storage passes_network passes_rest healthy_def by (auto simp: is_ok_iff passes_rest(3))
qed

text \<open>C40: The doctor itself replaces an identity that lost its certificate or its TLS key, and finds nothing wrong with it.\<close>

theorem doctor_replaces_identity:
  assumes "plain_dir D" and "bin_exists (id_key D) \<and> \<not> has_identity D"
    and "make_cert_and_key X fresh (own_node_id K X fresh) = Ok (c, t)"
  shows "\<exists>cs. check_identity K X fresh data_dir D = (Ok cs, with_files (cl_secret_bytes X fresh) c t D) \<and> (\<forall>c \<in> set cs. dc_status c = CheckOk)"
proof -
  obtain u where "str_upto 16 (own_node_id K X fresh) = Some u" using short_own_id [of K X fresh] by blast
  moreover have "bin_exists (id_crt (with_files (cl_secret_bytes X fresh) c t D))" by (simp add: bin_exists_def)
  ultimately show ?thesis
    using assms(2,3) load_missing [OF assms(1), of K X fresh] by (simp add: check_identity_def Let_def)
qed

section \<open>Runs\<close>

text \<open>A directory without a store and a configuration, and a list of one peer in place of the defaults.\<close>

definition lone_peer_toml :: toml where
  "lone_peer_toml = \<lparr>toml_from_str = (\<lambda>_. Ok \<lparr>bt_use_defaults = False, bt_peers = take 1 default_bootstrap_peers\<rparr>),
     toml_to_string = (\<lambda>_. Err [])\<rparr>"

definition healthy_env :: "(mem_db, mem_db) doctor_env" where
  "healthy_env = \<lparr>de_data_dir = lit ''/d'', de_redb = mem_redb, de_store = None, de_config_toml = node_toml, de_config_file = plain_file None,
     de_udp = seed_server, de_bootstrap_toml = lone_peer_toml, de_bootstrap_file = plain_file (Some []), de_bind_quic = Ok (),
     de_bind_any = Ok (), de_connect = (\<lambda>_. Ok ()), de_port_file = plain_file None, de_health = (\<lambda>_. Err []), de_registered = False\<rparr>"

lemma healthy_env: "healthy healthy_env"
  by (simp add: healthy_def healthy_env_def de_db_opens_def de_db_exists_def de_schema_def check_and_migrate_on_path_def de_config_def
      load_config_def plain_file_def file_exists_def de_peers_def resolve_bootstrap_peers_def read_bootstrap_toml_def lone_peer_toml_def
      read_to_string_def)

theorem doctor_ends_well_witness:
  "\<exists>out D'. cmd_doctor sample_crypto sample_certs () (\<lambda>_. Ok []) healthy_env (lit ''text'') (with_files (replicate 32 7) [1] [48] empty_id_dir) =
     (out, Finished, D')"
proof -
  let ?D = "with_files (replicate 32 7) [1] [48] empty_id_dir"
  have "is_ok (fst (load_or_generate_identity sample_crypto sample_certs () ?D))"
    using load_present [of ?D "replicate 32 7" "[1]" "[48]" sample_crypto sample_certs "()"] by (simp add: empty_id_dir sample_cert_made)
  moreover have "bin_exists (id_key ?D)" by (simp add: bin_exists_def)
  ultimately show ?thesis
    using healthy_env doctor_ends_well [OF sample_cert_laws, of ?D "()" "\<lambda>_. Ok []" healthy_env "lit ''text''"] by (simp add: empty_id_dir)
qed

definition lone_key_dir :: id_dir where
  "lone_key_dir = empty_id_dir\<lparr>id_key := (id_key empty_id_dir)\<lparr>bf_contents := Some (replicate 32 9)\<rparr>\<rparr>"

theorem doctor_replaces_identity_witness:
  "bf_contents (id_key lone_key_dir) = Some (replicate 32 9) \<and>
   bf_contents (id_key (snd (check_identity sample_crypto sample_certs () (lit ''/d'') lone_key_dir))) = Some (replicate 32 7)"
proof -
  have "plain_dir lone_key_dir" using empty_id_dir(1) by (simp add: plain_dir_def lone_key_dir_def)
  moreover have "bin_exists (id_key lone_key_dir) \<and> \<not> has_identity lone_key_dir"
    by (simp add: lone_key_dir_def bin_exists_def has_identity_def empty_id_dir_def Let_def)
  ultimately show ?thesis
    using doctor_replaces_identity [of lone_key_dir sample_certs "()" sample_crypto "map of_nat sample_id" "[48]" "lit ''/d''"]
    by (auto simp: own_sample_id sample_cert_made) (simp_all add: sample_certs_def lone_key_dir_def)
qed

end
