(* ===== verification/Commands_Windows.thy ===== *)
theory Commands_Windows
  imports Commands_Node
begin

text \<open>
  Stopping and restarting a node on Windows (\<^verbatim>\<open>src/src/main.rs\<close>): a signal file, up to twenty looks at the
  task list half a second apart, and a forced end. The task list's output at each look is a parameter.
\<close>

record win_state =
  wn_pid_file :: text_file
  wn_shutdown :: text_file
  wn_killed :: "nat list"

text \<open>The process counts as running while its number occurs anywhere in the output.\<close>

fun wait_exit :: "(nat \<Rightarrow> (ustr, ustr) result) \<Rightarrow> nat \<Rightarrow> nat \<Rightarrow> nat \<Rightarrow> (bool, ustr) result" where
  "wait_exit tasks pid i 0 = Ok False"
| "wait_exit tasks pid i (Suc n) = rbind (tasks i) (\<lambda>output_str.
     if \<not> str_contains output_str (to_dec pid) then Ok True else wait_exit tasks pid (Suc i) n)"

definition cleared :: "bool \<Rightarrow> text_file \<Rightarrow> text_file" where
  "cleared removable f = (if removable then f\<lparr>fl_contents := None\<rparr> else f)"

text \<open>\<open>signal\<close> is what the signal file says, \<open>start\<close> and \<open>finish\<close> are what is printed; the node is never told more
  than that the file is there.\<close>

definition windows_stop :: "bool \<Rightarrow> (nat \<Rightarrow> (ustr, ustr) result) \<Rightarrow> string \<Rightarrow> (ustr \<Rightarrow> ustr) \<Rightarrow> (ustr \<Rightarrow> bool \<Rightarrow> ustr list) \<Rightarrow> ustr \<Rightarrow> win_state
    \<Rightarrow> win_state command" where
  "windows_stop removable tasks signal start finish missing S =
     (if file_exists (wn_pid_file S)
      then attempt (read_to_string (wn_pid_file S)) S (\<lambda>pid_str.
        case parse_uint (2 ^ 32 - 1) (trim pid_str) of
          None \<Rightarrow> ([], Failed (lit ''Invalid PID in node.pid: '' @ lit (parse_uint_error (2 ^ 32 - 1) (trim pid_str))), S)
        | Some pid \<Rightarrow>
            attempt_on (case write_file (lit signal) (wn_shutdown S) of (r, f) \<Rightarrow> (r, S\<lparr>wn_shutdown := f\<rparr>)) (\<lambda>_ S.
              case wait_exit tasks pid 0 20 of
                Err e \<Rightarrow> ([Out (start (to_dec pid))], Failed e, S)
              | Panic \<Rightarrow> ([Out (start (to_dec pid))], Panicked, S)
              | Ok exited \<Rightarrow> say (start (to_dec pid) # finish (to_dec pid) exited)
                  (S\<lparr>wn_killed := wn_killed S @ (if exited then [] else [pid]), wn_pid_file := cleared removable (wn_pid_file S),
                     wn_shutdown := cleared removable (wn_shutdown S)\<rparr>)))
      else say [missing] S)"

definition windows_node_stop :: "bool \<Rightarrow> (nat \<Rightarrow> (ustr, ustr) result) \<Rightarrow> win_state \<Rightarrow> win_state command" where
  "windows_node_stop removable tasks = windows_stop removable tasks ''stop''
     (\<lambda>pid. lit ''Stop signal sent to node (PID '' @ pid @ lit ''). Waiting for graceful shutdown...'')
     (\<lambda>pid exited. [lit ''Node (PID '' @ pid @ (if exited then lit '') stopped gracefully.'' else lit '') force-killed (graceful shutdown timed out).'')])
     (lit ''No running node found (node.pid missing). Is the node running?'')"

definition windows_node_restart :: "bool \<Rightarrow> (nat \<Rightarrow> (ustr, ustr) result) \<Rightarrow> win_state \<Rightarrow> win_state command" where
  "windows_node_restart removable tasks = windows_stop removable tasks ''restart''
     (\<lambda>pid. lit ''Stop signal sent to node (PID '' @ pid @ lit ''). Waiting...'')
     (\<lambda>pid exited. (if exited then [] else [lit ''Node force-killed (graceful shutdown timed out).'']) @
        [lit ''Node stopped. Start it again with `dsearch node start`.''])
     (lit ''No running node found. Use `dsearch node start` to start one.'')"

section \<open>When the node is killed\<close>

lemma wait_exit_ok:
  assumes "\<forall>j. \<exists>out. tasks j = Ok out"
  shows "\<exists>exited. wait_exit tasks pid i n = Ok exited \<and>
    (exited \<longleftrightarrow> (\<exists>j < n. \<exists>out. tasks (i + j) = Ok out \<and> \<not> str_contains out (to_dec pid)))"
proof (induction n arbitrary: i)
  case (Suc n)
  obtain out where out: "tasks i = Ok out" using assms by blast
  show ?case
  proof (cases "str_contains out (to_dec pid)")
    case True
    from Suc [of "Suc i"] obtain exited where e: "wait_exit tasks pid (Suc i) n = Ok exited"
      "exited \<longleftrightarrow> (\<exists>j < n. \<exists>out. tasks (Suc i + j) = Ok out \<and> \<not> str_contains out (to_dec pid))" by blast
    have "(\<exists>j < Suc n. \<exists>out. tasks (i + j) = Ok out \<and> \<not> str_contains out (to_dec pid)) \<longleftrightarrow>
        (\<exists>j < n. \<exists>out. tasks (Suc i + j) = Ok out \<and> \<not> str_contains out (to_dec pid))"
      using True out by (auto simp: Ex_less_Suc2)
    with e True out show ?thesis by simp
  next
    case False
    with out have "\<exists>j < Suc n. \<exists>out. tasks (i + j) = Ok out \<and> \<not> str_contains out (to_dec pid)" by (intro exI [of _ 0]) simp
    moreover have "wait_exit tasks pid i (Suc n) = Ok True" using False out by simp
    ultimately show ?thesis by blast
  qed
qed (simp add: exI [of _ False])

text \<open>The command kills the process exactly when its number was in the output at every one of the twenty looks, and
  leaves neither file, when it may remove them.\<close>

theorem windows_stop_kills_last:
  assumes "fl_contents (wn_pid_file S) = Some s" and "fl_read_error (wn_pid_file S) = None" and "parse_uint (2 ^ 32 - 1) (trim s) = Some pid"
    and "fl_write_error (wn_shutdown S) = None" and "\<forall>j. \<exists>out. tasks j = Ok out"
  shows "\<exists>out S'. windows_node_stop True tasks S = (out, Finished, S') \<and> \<not> file_exists (wn_pid_file S') \<and> \<not> file_exists (wn_shutdown S') \<and>
    wn_killed S' = wn_killed S @ (if \<exists>j < 20. \<exists>out. tasks j = Ok out \<and> \<not> str_contains out (to_dec pid) then [] else [pid])"
proof -
  obtain exited where "wait_exit tasks pid 0 20 = Ok exited"
    "exited \<longleftrightarrow> (\<exists>j < 20. \<exists>out. tasks j = Ok out \<and> \<not> str_contains out (to_dec pid))"
    using wait_exit_ok [OF assms(5), of pid 0 20] by auto
  with assms(1-4) show ?thesis
    by (simp add: windows_node_stop_def windows_stop_def file_exists_def read_to_string_def attempt_def attempt_on_def write_file_def say_def
        cleared_def)
qed

theorem windows_stop_kills_last_witness:
  "\<exists>out S'. windows_node_stop True (\<lambda>_. Ok (lit ''dsearch.exe 12'')) \<lparr>wn_pid_file = plain_file (Some (lit ''12'')), wn_shutdown = plain_file None,
     wn_killed = []\<rparr> = (out, Finished, S') \<and> wn_killed S' = [12]"
proof -
  have twelve: "to_dec 12 = [49, 50]" by (subst to_dec.simps, subst to_dec.simps) simp
  have "str_contains (lit ''dsearch.exe 12'') (to_dec 12)" by (simp add: twelve starts_with_def lit_Cons)
  moreover have "parse_uint (2 ^ 32 - 1) (trim (lit ''12'')) = Some 12"
    by (simp add: lit_Cons trim_def parse_uint_def parse_digits_def is_digit_def dec_val_def is_whitespace_def trim_end_def)
  ultimately show ?thesis
    using windows_stop_kills_last [of "\<lparr>wn_pid_file = plain_file (Some (lit ''12'')), wn_shutdown = plain_file None, wn_killed = []\<rparr>" "lit ''12''" 12
      "\<lambda>_. Ok (lit ''dsearch.exe 12'')"] by (simp add: plain_file_def) blast
qed

end
