(* ===== verification/Ui_Search.thy ===== *)
theory Ui_Search
  imports Commands_Records Commands_Peers
begin

text \<open>
  \<^verbatim>\<open>src/src/ui/search.rs\<close> and the API helper of \<^verbatim>\<open>src/src/ui/mod.rs\<close>: the panel in which the user searches.
  \<open>get\<close> is what the helper's call gives, nothing when the API is not reachable. A panel gives the texts it shows,
  top to bottom, and what it asks of the system; a frame that panics gives \<open>None\<close>.
\<close>

section \<open>The helper\<close>

definition api_get_result :: "(ustr \<Rightarrow> ustr option) \<Rightarrow> ustr \<Rightarrow> (ustr, ustr) result" where
  "api_get_result get path = (case get path of
     Some body \<Rightarrow> Ok body | None \<Rightarrow> Err (lit ''Node API is not reachable. Is the node running?''))"

text \<open>A JSON text that is looked at only when it parses.\<close>

definition parsed :: "json_lib \<Rightarrow> ustr \<Rightarrow> json option" where
  "parsed L body = (case js_parse L body of Ok v \<Rightarrow> Some v | _ \<Rightarrow> None)"

section \<open>Searching\<close>

record SearchResult =
  se_id :: ustr
  se_schema :: ustr
  se_source_url :: ustr
  se_body_snippet :: ustr
  se_title :: ustr

record SearchPanel =
  sn_query :: ustr
  sn_results :: "SearchResult list"
  sn_searching :: bool
  sn_last_query :: ustr
  sn_error :: ustr

definition SearchPanel_default :: SearchPanel where
  "SearchPanel_default = \<lparr>sn_query = [], sn_results = [], sn_searching = False, sn_last_query = [], sn_error = []\<rparr>"

definition panel_search_path :: "ustr \<Rightarrow> ustr" where
  "panel_search_path query = lit ''/search?q='' @ map (\<lambda>c. if c = 32 then 43 else c) query @ lit ''&limit=20''"

text \<open>The short id is cut out before it is known whether there is a tag.\<close>

definition result_of_value :: "json \<Rightarrow> SearchResult option" where
  "result_of_value r =
     (let i = str_or ''id'' r ''''
      in map_option (\<lambda>short_id. \<lparr>se_id = i, se_schema = str_or ''schema'' r '''', se_source_url = str_or ''source_url'' r '''',
            se_body_snippet = take 200 (str_or ''body'' r ''''),
            se_title = unwrap_or (Option.bind (array_at ''tags'' r) (\<lambda>a. case a of [] \<Rightarrow> None | t # _ \<Rightarrow> as_str t)) short_id\<rparr>)
          (str_upto 16 i))"

definition results_of_body :: "json_lib \<Rightarrow> ustr \<Rightarrow> SearchResult list option" where
  "results_of_body L body = (case Option.bind (parsed L body) (array_at ''results'') of
     None \<Rightarrow> Some []
   | Some vs \<Rightarrow> those (map result_of_value vs))"

definition run_search :: "json_lib \<Rightarrow> (ustr \<Rightarrow> ustr option) \<Rightarrow> SearchPanel \<Rightarrow> SearchPanel option" where
  "run_search L get p =
     (if sn_query p = [] then Some p
      else
        let p = p\<lparr>sn_searching := True, sn_error := [], sn_last_query := sn_query p\<rparr>
        in map_option (sn_searching_update (\<lambda>_. False))
          (case api_get_result get (panel_search_path (sn_query p)) of
             Ok body \<Rightarrow> map_option (\<lambda>rs. p\<lparr>sn_results := rs\<rparr>) (results_of_body L body)
           | Err e \<Rightarrow> Some (p\<lparr>sn_results := [], sn_error := e\<rparr>)
           | Panic \<Rightarrow> None))"

section \<open>The panel\<close>

text \<open>8226 is the bullet, 8230 the ellipsis.\<close>

definition result_text :: "SearchResult \<Rightarrow> ustr list option" where
  "result_text r = map_option (\<lambda>short_id. [se_schema r, [8226], se_source_url r, se_title r, se_body_snippet r,
     lit ''ID: '' @ short_id @ [8230]]) (str_upto 12 (se_id r))"

definition search_text :: "SearchPanel \<Rightarrow> ustr list option" where
  "search_text p =
     (if sn_searching p then Some [lit ''Searching'' @ [8230]]
      else if sn_error p \<noteq> [] then Some [lit ''Search failed'', sn_error p, lit ''Make sure the node is running and the API is reachable.'']
      else if sn_results p = [] \<and> sn_last_query p = [] then Some [lit ''Start searching'',
        lit ''Your node is connected. Try searching for something,'' @ [10] @
        lit ''or add a scraper in Settings to contribute content to the network.'']
      else if sn_results p = [] then Some [lit ''No results found'',
        lit ''No content matched your query. Try different keywords,'' @ [10] @ lit ''or check that scrapers are running in Settings.'']
      else map_option concat (those (map result_text (sn_results p))))"

text \<open>The field, the button, the enter key, and the copy button of each result.\<close>

datatype search_event = QueryUntouched | QueryEdited ustr | SearchClicked | EnterPressed | CopyClicked nat

text \<open>What a panel asks of the system.\<close>

datatype ui_effect = CopyText ustr | Spawn "ustr list" | ShowWindow | FocusWindow | CloseWindow

definition search_ui :: "json_lib \<Rightarrow> (ustr \<Rightarrow> ustr option) \<Rightarrow> search_event \<Rightarrow> SearchPanel \<Rightarrow> (ustr list \<times> ui_effect list \<times> SearchPanel) option" where
  "search_ui L get event p =
     (let p = (case event of QueryEdited s \<Rightarrow> p\<lparr>sn_query := s\<rparr> | _ \<Rightarrow> p);
          enter_pressed = (event = EnterPressed \<and> sn_query p \<noteq> [])
      in Option.bind (if event = SearchClicked \<or> enter_pressed then run_search L get p else Some p) (\<lambda>p.
         map_option (\<lambda>texts. (texts,
           (case event of CopyClicked i \<Rightarrow> if i < length (sn_results p) then [CopyText (se_id (sn_results p ! i))] else [] | _ \<Rightarrow> []), p))
           (search_text p)))"

section \<open>What the node is asked\<close>

definition plussed :: "ustr \<Rightarrow> ustr" where
  "plussed s = map (\<lambda>c. if c = 32 then 43 else c) s"

lemma plussed_set: "set (plussed s) \<subseteq> insert 43 (set s) - {32}"
  by (auto simp: plussed_def)

lemma plussed_decoded: "37 \<notin> set s \<Longrightarrow> 43 \<notin> set s \<Longrightarrow> percent_decode (plussed s) = s"
  by (induction s) (auto simp: plussed_def)

text \<open>A query with one ampersand is two parts of the request.\<close>

lemma panel_target: "target_parts (panel_search_path query) = (lit ''/search'', lit ''q='' @ plussed query @ lit ''&limit=20'')"
  by (simp add: target_parts_def panel_search_path_def plussed_def lit_Cons)

lemma panel_target_good:
  assumes "set query \<inter> {10, 13} = {}"
  shows "good_target (lit ''GET'') (panel_search_path query)"
proof -
  have "set (panel_search_path query) \<inter> {10, 13, 32} = {}"
    using assms plussed_set [of query] by (auto simp: panel_search_path_def plussed_def lit_Cons)
  moreover have "percent_decode (lit ''/search'') = lit ''/search''" by (simp add: decode_plain lit_Cons)
  moreover have "validate_path (lit ''/search'') = Ok ()" by (simp add: validate_path_def lit_Cons)
  ultimately show ?thesis by (auto simp: good_target_def panel_target) (simp_all add: lit_Cons)
qed

lemma panel_pairs:
  assumes "set query \<inter> {37, 38, 43} = {}"
  shows "parse_query_string (snd (target_parts (panel_search_path query))) = [(lit ''q'', query), (lit ''limit'', lit ''20'')]"
proof -
  have "split_on 38 (join [38] [lit ''q='' @ plussed query, lit ''limit=20'']) = [lit ''q='' @ plussed query, lit ''limit=20'']"
    by (rule split_on_join) (use assms plussed_set [of query] in \<open>auto simp: lit_Cons\<close>)
  moreover have "lit ''q='' @ plussed query @ lit ''&limit=20'' = join [38] [lit ''q='' @ plussed query, lit ''limit=20'']"
    by (simp add: lit_Cons join_Cons)
  moreover have "split_once 61 (lit ''q='' @ plussed query) = Some (lit ''q'', plussed query)"
      "split_once 61 (lit ''limit=20'') = Some (lit ''limit'', lit ''20'')" by (simp_all add: lit_Cons)
  moreover have "percent_decode (plussed query) = query" using assms plussed_decoded by blast
  ultimately show ?thesis
    unfolding panel_target snd_conv parse_query_string_def by (simp add: parse_query_pair_def decode_plain lit_Cons)
qed

text \<open>A query without a percent sign, an ampersand and a plus sign is searched for as it was typed, in any language, for
  at most twenty results.\<close>

theorem panel_query_received:
  assumes "set query \<inter> {10, 13, 37, 38, 43} = {}" and "\<forall>s. lc (lit s) = ascii_lower (lit s)"
  shows "\<exists>req. parse_http_request lc (get_request port (panel_search_path query)) = Ok req \<and> rq_method req = lit ''GET'' \<and>
    rq_path req = lit ''/search'' \<and> map_of (rq_query req) (lit ''q'') = Some query \<and> limit_param req 20 = 20"
proof -
  have "good_target (lit ''GET'') (panel_search_path query)" using assms(1) panel_target_good by blast
  from get_target_parsed [OF this assms(2), of port] obtain hs where
    req: "parse_http_request lc (get_request port (panel_search_path query)) = Ok \<lparr>rq_method = lit ''GET'', rq_path = lit ''/search'',
      rq_query = parse_query_string (snd (target_parts (panel_search_path query))), rq_headers = hs, rq_body = []\<rparr>"
    by (auto simp: panel_target)
  moreover have "parse_query_string (snd (target_parts (panel_search_path query))) = [(lit ''q'', query), (lit ''limit'', lit ''20'')]"
    using assms(1) by (intro panel_pairs) blast
  moreover have "lit ''q'' \<noteq> lit ''limit''" "parse_uint (2 ^ 64 - 1) (lit ''20'') = Some 20"
    by (simp_all add: lit_Cons parse_uint_def parse_digits_def is_digit_def dec_val_def)
  ultimately show ?thesis by (simp add: limit_param_def)
qed

text \<open>Of a query with an ampersand only what stands before it is searched for.\<close>

theorem panel_query_cut:
  assumes "set (a @ b) \<inter> {10, 13, 37, 38, 43, 61} = {}" and "b \<noteq> lit ''q''" and "\<forall>s. lc (lit s) = ascii_lower (lit s)"
  shows "\<exists>req. parse_http_request lc (get_request port (panel_search_path (a @ 38 # b))) = Ok req \<and>
    map_of (rq_query req) (lit ''q'') = Some a"
proof -
  let ?pairs = "[lit ''q='' @ plussed a, plussed b, lit ''limit=20'']"
  have "set (a @ 38 # b) \<inter> {10, 13} = {}" using assms(1) by auto
  from get_target_parsed [OF panel_target_good [OF this] assms(3), of port] obtain hs where
    req: "parse_http_request lc (get_request port (panel_search_path (a @ 38 # b))) = Ok \<lparr>rq_method = lit ''GET'', rq_path = lit ''/search'',
      rq_query = parse_query_string (lit ''q='' @ plussed (a @ 38 # b) @ lit ''&limit=20''), rq_headers = hs, rq_body = []\<rparr>"
    by (auto simp: panel_target)
  have "split_on 38 (join [38] ?pairs) = ?pairs"
    by (rule split_on_join) (use assms(1) plussed_set [of a] plussed_set [of b] in \<open>auto simp: lit_Cons\<close>)
  moreover have "lit ''q='' @ plussed (a @ 38 # b) @ lit ''&limit=20'' = join [38] ?pairs"
    by (simp add: plussed_def lit_Cons join_Cons)
  moreover have "split_once 61 (lit ''q='' @ plussed a) = Some (lit ''q'', plussed a)"
      "split_once 61 (lit ''limit=20'') = Some (lit ''limit'', lit ''20'')" by (simp_all add: lit_Cons)
  moreover have "split_once 61 (plussed b) = None"
    using assms(1) plussed_set [of b] by (subst split_once_None_iff) auto
  moreover have "percent_decode (plussed a) = a" "percent_decode (plussed b) = b"
    using assms(1) by (auto intro!: plussed_decoded)
  moreover have "percent_decode (lit ''q'') = lit ''q''" "percent_decode (lit ''limit'') = lit ''limit''" "lit ''limit'' \<noteq> lit ''q''"
    by (simp_all add: decode_plain lit_Cons)
  ultimately have "map_of (parse_query_string (lit ''q='' @ plussed (a @ 38 # b) @ lit ''&limit=20'')) (lit ''q'') = Some a"
    using assms(2) by (cases "plussed b = []") (simp_all add: parse_query_string_def parse_query_pair_def AList.update_conv')
  with req show ?thesis by simp
qed

section \<open>What the user is shown\<close>

text \<open>serde's view of a record is an object with the record's fields.\<close>

definition record_values :: "api_serde \<Rightarrow> bool" where
  "record_values Q \<longleftrightarrow> (\<forall>r. get_str ''id'' (as_record_value Q r) = Some (cr_id r) \<and> get_str ''schema'' (as_record_value Q r) = Some (cr_schema r) \<and>
     get_str ''source_url'' (as_record_value Q r) = Some (cr_source_url r) \<and> get_str ''body'' (as_record_value Q r) = Some (cr_body r) \<and>
     array_at ''tags'' (as_record_value Q r) = Some (map JStr (cr_tags r)))"

definition shown_record :: "ContentRecord \<Rightarrow> SearchResult" where
  "shown_record r = \<lparr>se_id = cr_id r, se_schema = cr_schema r, se_source_url = cr_source_url r, se_body_snippet = take 200 (cr_body r),
     se_title = (case cr_tags r of t # _ \<Rightarrow> t | [] \<Rightarrow> take 16 (cr_id r))\<rparr>"

text \<open>The results of an answer of the search route are listed in its order, each with its first tag, or the beginning of
  its id, as the title.\<close>

theorem panel_shows_records:
  assumes "sn_query p \<noteq> []" and "get (panel_search_path (sn_query p)) = Some body"
    and "parsed L body = Some (JObj ms)" and "map_of ms (lit ''results'') = Some (JArr (map (as_record_value Q) rs))" and "record_values Q"
    and "\<forall>r \<in> set rs. \<forall>c \<in> set (cr_id r). c < 128"
  shows "run_search L get p = Some (p\<lparr>sn_searching := False, sn_error := [], sn_last_query := sn_query p, sn_results := map shown_record rs\<rparr>) \<and>
    list_all (\<lambda>r. result_text (shown_record r) \<noteq> None) rs"
proof -
  have cut: "str_upto n (cr_id r) = Some (take n (cr_id r))" if "r \<in> set rs" for r n
    using that assms(6) by (simp add: str_upto_ascii)
  have "result_of_value (as_record_value Q r) = Some (shown_record r)" if "r \<in> set rs" for r
    using cut [OF that, of 16] assms(5)
    by (simp add: result_of_value_def shown_record_def str_or_def record_values_def Let_def split: list.split)
  then have "those (map result_of_value (map (as_record_value Q) rs)) = Some (map shown_record rs)"
    by (induction rs) simp_all
  then have "results_of_body L body = Some (map shown_record rs)"
    using assms(3,4) by (simp add: results_of_body_def array_at_def)
  moreover have "list_all (\<lambda>r. result_text (shown_record r) \<noteq> None) rs"
    using cut by (simp add: list_all_iff result_text_def shown_record_def)
  ultimately show ?thesis using assms(1,2) by (simp add: run_search_def api_get_result_def Let_def)
qed

section \<open>Runs\<close>

theorem panel_query_received_witness:
  "\<exists>req. parse_http_request ascii_lower (get_request 7744 (panel_search_path [110, 239, 32, 97])) = Ok req \<and>
     map_of (rq_query req) (lit ''q'') = Some [110, 239, 32, 97]"
  using panel_query_received [of "[110, 239, 32, 97]" ascii_lower 7744] by auto

theorem panel_query_cut_witness:
  "\<exists>req. parse_http_request ascii_lower (get_request 7744 (panel_search_path (lit ''R'' @ 38 # lit ''D''))) = Ok req \<and>
     map_of (rq_query req) (lit ''q'') = Some (lit ''R'')"
  using panel_query_cut [of "lit ''R''" "lit ''D''" ascii_lower 7744] by (auto simp: lit_Cons)

text \<open>serde's view as its attributes give it, and a parser that knows one answer.\<close>

definition field_values :: api_serde where
  "field_values = sample_values\<lparr>as_record_value := (\<lambda>r. JObj [(lit ''id'', JStr (cr_id r)), (lit ''schema'', JStr (cr_schema r)),
     (lit ''source_url'', JStr (cr_source_url r)), (lit ''body'', JStr (cr_body r)), (lit ''tags'', JArr (map JStr (cr_tags r)))])\<rparr>"

lemma field_values: "record_values field_values"
  by (simp add: record_values_def field_values_def get_str_def array_at_def lit_Cons)

definition answer_lib :: "ContentRecord list \<Rightarrow> json_lib" where
  "answer_lib rs = sample_json\<lparr>js_parse := (\<lambda>_. Ok (JObj [(lit ''results'', JArr (map (as_record_value field_values) rs))]))\<rparr>"

theorem panel_shows_records_witness:
  "map se_title (sn_results (the (run_search (answer_lib [r1_unsigned]) (\<lambda>_. Some []) (SearchPanel_default\<lparr>sn_query := lit ''x''\<rparr>)))) =
     [se_title (shown_record r1_unsigned)]"
proof -
  have "parsed (answer_lib [r1_unsigned]) [] = Some (JObj [(lit ''results'', JArr (map (as_record_value field_values) [r1_unsigned]))])"
    by (simp add: parsed_def answer_lib_def)
  moreover have "\<forall>r \<in> set [r1_unsigned]. \<forall>c \<in> set (cr_id r). c < 128" by (simp add: lit_Cons)
  ultimately show ?thesis
    using panel_shows_records [of "SearchPanel_default\<lparr>sn_query := lit ''x''\<rparr>" "\<lambda>_. Some []" "[]" "answer_lib [r1_unsigned]" _ field_values
      "[r1_unsigned]", OF _ _ _ _ field_values] by (simp add: lit_Cons)
qed

end
