(* ===== verification/Ui_Settings.thy ===== *)
theory Ui_Settings
  imports Ui_Search
begin

text \<open>
  \<^verbatim>\<open>src/src/ui/settings.rs\<close> and \<^verbatim>\<open>bootstrap_panel.rs\<close>: the tabs in which the user looks at the node's
  configuration and changes the files of the data directory. A tab gives the texts it shows, what it asks of the
  system, the panel and the files. A frame handles at most one click or edit; one that panics gives \<open>None\<close>.
\<close>

section \<open>State\<close>

datatype SettingsTab = General | Identity | GatewayTab | Scrapers | BootstrapTab | SearchProviders

record BootstrapPanel =
  bn_new_peer_id :: ustr
  bn_new_peer_addr :: ustr
  bn_new_peer_note :: ustr
  bn_test_results :: "(ustr \<times> bool \<times> ustr) list"

record SettingsPanel =
  sg_tab :: SettingsTab
  sg_new_key_nickname :: ustr
  sg_new_key_secret :: "ustr option"
  sg_new_job_name :: ustr
  sg_new_job_target :: ustr
  sg_new_job_source :: ustr
  sg_new_job_refresh :: ustr
  sg_new_job_lifecycle :: ustr
  sg_bootstrap :: BootstrapPanel
  sg_new_provider_name :: ustr
  sg_new_provider_target :: ustr
  sg_add_provider_error :: ustr
  sg_add_job_error :: ustr
  sg_api_error :: ustr

definition SettingsPanel_default :: SettingsPanel where
  "SettingsPanel_default = \<lparr>sg_tab = BootstrapTab, sg_new_key_nickname = [], sg_new_key_secret = None, sg_new_job_name = [],
     sg_new_job_target = [], sg_new_job_source = [], sg_new_job_refresh = [], sg_new_job_lifecycle = [],
     sg_bootstrap = \<lparr>bn_new_peer_id = [], bn_new_peer_addr = [], bn_new_peer_note = [], bn_test_results = []\<rparr>,
     sg_new_provider_name = [], sg_new_provider_target = [], sg_add_provider_error = [], sg_add_job_error = [], sg_api_error = []\<rparr>"

text \<open>\<^verbatim>\<open>gateway_keys.json\<close>, \<^verbatim>\<open>config.toml\<close>, \<^verbatim>\<open>search_providers.toml\<close> and \<^verbatim>\<open>bootstrap.toml\<close>.\<close>

record settings_files =
  fs_keys :: text_file
  fs_config :: text_file
  fs_providers :: text_file
  fs_bootstrap :: text_file

text \<open>\<open>sx_get\<close> and \<open>sx_get_again\<close> are a first and a second call of the helper; \<open>sx_opener\<close> is the program that opens a
  directory, if the system has one.\<close>

record ('sk, 'vk) settings_env =
  sx_crypto :: "('sk, 'vk) crypto"
  sx_keys :: keys_serde
  sx_json :: json_lib
  sx_config_toml :: config_toml
  sx_bootstrap_toml :: toml
  sx_providers_toml :: providers_toml
  sx_udp :: udp
  sx_parse_addr :: "ustr \<Rightarrow> ustr option"
  sx_connect :: "ustr \<Rightarrow> (unit, ustr) result"
  sx_get :: "ustr \<Rightarrow> ustr option"
  sx_get_again :: "ustr \<Rightarrow> ustr option"
  sx_data_dir :: ustr
  sx_opener :: "ustr option"

datatype settings_event = NoClick | TabClicked SettingsTab | OpenClicked | CopyIdClicked
  | NicknameEdited ustr | CreateKeyClicked u64 bytes | RevokeClicked nat
  | JobNameEdited ustr | JobTargetEdited ustr | SourcePicked ScrapeSource | RefreshPicked RefreshPolicy | LifecyclePicked Lifecycle
  | AddJobClicked | ProviderNameEdited ustr | ProviderTargetEdited ustr | AddProviderClicked
  | PeerIdEdited ustr | PeerAddrEdited ustr | PeerNoteEdited ustr | AddPeerButton | TestAllClicked

type_synonym drawn = "ustr list \<times> ui_effect list \<times> SettingsPanel \<times> settings_files"

section \<open>General and identity\<close>

definition config_keys :: "(string \<times> string \<times> string) list" where
  "config_keys = [(''node'', ''role'', ''Role''), (''node'', ''max_connections'', ''Max Connections''),
     (''node'', ''min_protocol_version'', ''Min Protocol Version''), (''node'', ''ipv4'', ''IPv4''), (''node'', ''ipv6'', ''IPv6''),
     (''api'', ''port'', ''API Port''), (''storage'', ''quota_mb'', ''Storage Quota (MB)''),
     (''storage'', ''quota_action'', ''Quota Action''), (''storage'', ''tier2_max_mb'', ''Tier 2 Max (MB)''),
     (''log'', ''level'', ''Log Level''), (''log'', ''output'', ''Log Output''), (''bootstrap'', ''use_defaults'', ''Use Default Peers'')]"

text \<open>A value is printed as JSON, so a string has its quotes.\<close>

definition config_rows :: "json_lib \<Rightarrow> json \<Rightarrow> ustr list" where
  "config_rows L v = concat (map (\<lambda>(s, k, label). case Option.bind (json_get s v) (json_get k) of
     Some val \<Rightarrow> [lit label, json_text L val] | None \<Rightarrow> []) config_keys)"

definition tab_general :: "('sk, 'vk) settings_env \<Rightarrow> settings_event \<Rightarrow> SettingsPanel \<times> settings_files \<Rightarrow> drawn" where
  "tab_general V event = (\<lambda>(p, fs).
     let head = [lit ''General Settings'', lit ''Data Directory'', sx_data_dir V];
         effects = (if event = OpenClicked then (case sx_opener V of Some program \<Rightarrow> [Spawn [program, sx_data_dir V]] | None \<Rightarrow> []) else [])
     in case api_get_result (sx_get V) (lit ''/config'') of
          Ok body \<Rightarrow> (head @ (case parsed (sx_json V) body of Some v \<Rightarrow> lit ''Node Configuration'' # config_rows (sx_json V) v | None \<Rightarrow> []),
            effects, p\<lparr>sg_api_error := []\<rparr>, fs)
        | Err e \<Rightarrow> (head, effects, p\<lparr>sg_api_error := e\<rparr>, fs)
        | Panic \<Rightarrow> (head, effects, p, fs))"

definition identity_rows :: "json \<Rightarrow> ustr list" where
  "identity_rows v = [lit ''Node ID'', str_or ''node_id'' v ''unknown'',
     if unwrap_or (Option.bind (json_get ''has_identity'' v) as_bool) False then [10003] @ lit '' Identity key found''
     else [10007] @ lit '' No identity key found'']"

definition tab_identity :: "('sk, 'vk) settings_env \<Rightarrow> settings_event \<Rightarrow> SettingsPanel \<times> settings_files \<Rightarrow> drawn" where
  "tab_identity V event = (\<lambda>(p, fs).
     let answered = api_get_result (sx_get V) (lit ''/identity'');
         value = (case answered of Ok body \<Rightarrow> parsed (sx_json V) body | _ \<Rightarrow> None);
         rows = (case value of Some v \<Rightarrow> identity_rows v | None \<Rightarrow> []);
         effects = (case value of Some v \<Rightarrow> if event = CopyIdClicked then [CopyText (str_or ''node_id'' v ''unknown'')] else [] | None \<Rightarrow> []);
         p = (case answered of Ok _ \<Rightarrow> p\<lparr>sg_api_error := []\<rparr> | Err e \<Rightarrow> p\<lparr>sg_api_error := e\<rparr> | Panic \<Rightarrow> p)
     in (lit ''Identity'' # rows @ [lit ''Identity Files'', [128273, 32] @ sx_data_dir V @ lit ''/identity.key'',
           [128220, 32] @ sx_data_dir V @ lit ''/node.crt''], effects, p, fs))"

section \<open>The gateway\<close>

definition yes_no :: "bool \<Rightarrow> ustr" where
  "yes_no b = (if b then lit ''Yes'' else lit ''No'')"

definition gateway_rows :: "json \<Rightarrow> ustr list" where
  "gateway_rows gw = [lit ''Gateway Configuration'', lit ''Enabled:'', yes_no (unwrap_or (Option.bind (json_get ''enabled'' gw) as_bool) False),
     lit ''Bind:'', str_or ''bind'' gw ''0.0.0.0:7744'', lit ''Rate Limit:'',
     to_dec (unat (unwrap_or (Option.bind (json_get ''rate_limit_per_min'' gw) as_u64) 60)) @ lit ''/min'',
     lit ''Require API Key:'', yes_no (unwrap_or (Option.bind (json_get ''require_api_key'' gw) as_bool) False)]"

text \<open>A first call that fails is made again, and only the second failure is shown.\<close>

definition gateway_config :: "('sk, 'vk) settings_env \<Rightarrow> SettingsPanel \<Rightarrow> ustr list \<times> SettingsPanel" where
  "gateway_config V p = (case api_get_result (sx_get V) (lit ''/config'') of
     Ok body \<Rightarrow> ((case Option.bind (parsed (sx_json V) body) (json_get ''gateway'') of Some gw \<Rightarrow> gateway_rows gw | None \<Rightarrow> []),
       p\<lparr>sg_api_error := []\<rparr>)
   | _ \<Rightarrow> (case api_get_result (sx_get_again V) (lit ''/config'') of
       Err e \<Rightarrow> ([], p\<lparr>sg_api_error := e\<rparr>) | _ \<Rightarrow> ([], p)))"

definition create_key_clicked :: "('sk, 'vk) settings_env \<Rightarrow> u64 \<Rightarrow> bytes \<Rightarrow> SettingsPanel \<times> settings_files \<Rightarrow> (SettingsPanel \<times> settings_files) option" where
  "create_key_clicked V now secret_bytes = (\<lambda>(p, fs).
     if sg_new_key_nickname p = [] then Some (p, fs)
     else case create_key (sx_crypto V) (sx_keys V) now secret_bytes (sg_new_key_nickname p) (fs_keys fs) of
       (r, f) \<Rightarrow>
         map_option (\<lambda>secret. (p\<lparr>sg_new_key_secret := Some secret, sg_new_key_nickname := []\<rparr>, fs\<lparr>fs_keys := f\<rparr>))
           (case r of
              Ok (secret, info) \<Rightarrow> Some (lit ''Nickname: '' @ gk_nickname info @ [10] @ lit ''Secret: '' @ secret @ [10, 10] @
                lit ''Save this secret '' @ [8212] @ lit '' it won'' @ [39] @ lit ''t be shown again!'')
            | Err e \<Rightarrow> Some (lit ''Error: '' @ e)
            | Panic \<Rightarrow> None))"

definition key_rows :: "GatewayKeyInfo list \<Rightarrow> ustr list" where
  "key_rows keys = (if keys = [] then [lit ''No API keys configured.'']
     else concat (map (\<lambda>k. [gk_nickname k, lit ''created: '' @ to_dec (unat (gk_created_at k)),
       lit ''requests: '' @ to_dec (unat (gk_request_count k))]) keys))"

definition revoke_clicked :: "('sk, 'vk) settings_env \<Rightarrow> settings_event \<Rightarrow> GatewayKeyInfo list \<Rightarrow> settings_files \<Rightarrow> settings_files" where
  "revoke_clicked V event keys fs = (case event of
     RevokeClicked i \<Rightarrow> if i < length keys then fs\<lparr>fs_keys := snd (revoke_key (sx_keys V) (gk_nickname (keys ! i)) (fs_keys fs))\<rparr> else fs
   | _ \<Rightarrow> fs)"

definition tab_gateway :: "('sk, 'vk) settings_env \<Rightarrow> settings_event \<Rightarrow> SettingsPanel \<times> settings_files \<Rightarrow> drawn option" where
  "tab_gateway V event = (\<lambda>(p, fs).
     let (rows, p) = gateway_config V p;
         p = (case event of NicknameEdited s \<Rightarrow> p\<lparr>sg_new_key_nickname := s\<rparr> | _ \<Rightarrow> p)
     in Option.bind (case event of CreateKeyClicked now secret_bytes \<Rightarrow> create_key_clicked V now secret_bytes (p, fs) | _ \<Rightarrow> Some (p, fs))
       (\<lambda>(p, fs). case list_keys (sx_keys V) (fs_keys fs) of
          Ok keys \<Rightarrow> Some (lit ''Gateway API'' # rows @ [lit ''API Keys'', lit ''Nickname:''] @
            (case sg_new_key_secret p of Some s \<Rightarrow> [s] | None \<Rightarrow> []) @ key_rows keys, [], p, revoke_clicked V event keys fs)
        | Err e \<Rightarrow> Some (lit ''Gateway API'' # rows @ [lit ''API Keys'', lit ''Nickname:''] @
            (case sg_new_key_secret p of Some s \<Rightarrow> [s] | None \<Rightarrow> []), [], p, fs)
        | Panic \<Rightarrow> None))"

section \<open>Jobs\<close>

definition job_texts :: "ustr \<Rightarrow> ustr \<Rightarrow> ustr \<Rightarrow> ustr \<Rightarrow> ustr \<Rightarrow> ustr list" where
  "job_texts name source target refresh lifecycle =
     [name, source @ [32, 8226, 32] @ refresh @ [32, 8226, 32] @ lifecycle, target]"

definition jobs_or_none :: "ustr list list \<Rightarrow> ustr list" where
  "jobs_or_none rows = (if rows = [] then [lit ''No scraper jobs configured.''] else concat rows)"

text \<open>The node's answer, or the configuration when the node is not reachable.\<close>

definition scraper_rows :: "('sk, 'vk) settings_env \<Rightarrow> settings_files \<Rightarrow> SettingsPanel \<Rightarrow> ustr list \<times> SettingsPanel" where
  "scraper_rows V fs p = (case sx_get V (lit ''/scraper'') of
     Some body \<Rightarrow> ((case Option.bind (parsed (sx_json V) body) (array_at ''jobs'') of
         Some jobs \<Rightarrow> jobs_or_none (map (\<lambda>j. job_texts (str_or ''name'' j ''?'') (str_or ''source'' j ''?'') (str_or ''target'' j ''?'')
           (str_or ''refresh'' j ''?'') (str_or ''lifecycle'' j ''?'')) jobs)
       | None \<Rightarrow> []), p\<lparr>sg_api_error := []\<rparr>)
   | None \<Rightarrow> (case load_config (sx_config_toml V) (fs_config fs) of
       Ok config \<Rightarrow> (jobs_or_none (map (\<lambda>j. job_texts (sj_name j) (ScrapeSource_as_str (sj_source j)) (sj_target j)
         (RefreshPolicy_as_str (sj_refresh j)) (Lifecycle_as_str (sj_lifecycle j))) (xc_jobs (cf_scraper config))), p)
     | _ \<Rightarrow> ([], p\<lparr>sg_api_error := lit ''Cannot load scraper jobs: API unreachable and config file invalid.''\<rparr>)))"

text \<open>The boxes pick one of the names; nothing picked is an empty text.\<close>

definition edit_job :: "settings_event \<Rightarrow> SettingsPanel \<Rightarrow> SettingsPanel" where
  "edit_job event p = (case event of
     JobNameEdited s \<Rightarrow> p\<lparr>sg_new_job_name := s\<rparr>
   | JobTargetEdited s \<Rightarrow> p\<lparr>sg_new_job_target := s\<rparr>
   | SourcePicked source \<Rightarrow> p\<lparr>sg_new_job_source := ScrapeSource_as_str source\<rparr>
   | RefreshPicked refresh \<Rightarrow> p\<lparr>sg_new_job_refresh := RefreshPolicy_as_str refresh\<rparr>
   | LifecyclePicked lifecycle \<Rightarrow> p\<lparr>sg_new_job_lifecycle := Lifecycle_as_str lifecycle\<rparr>
   | _ \<Rightarrow> p)"

definition or_text :: "ustr \<Rightarrow> string \<Rightarrow> ustr" where
  "or_text s d = (if s = [] then lit d else s)"

definition panel_job :: "SettingsPanel \<Rightarrow> Config.ScrapeJob" where
  "panel_job p = \<lparr>sj_name = sg_new_job_name p, sj_source = unwrap_or (ScrapeSource_from_str (or_text (sg_new_job_source p) ''url'')) Url,
     sj_target = sg_new_job_target p, sj_transform = None,
     sj_refresh = unwrap_or (RefreshPolicy_from_str (or_text (sg_new_job_refresh p) ''once'')) Once, sj_interval_secs = 3600,
     sj_lifecycle = unwrap_or (Lifecycle_from_str (or_text (sg_new_job_lifecycle p) ''ephemeral'')) Ephemeral, sj_ttl_secs = 3600,
     sj_max_results = None\<rparr>"

definition add_job_clicked :: "('sk, 'vk) settings_env \<Rightarrow> SettingsPanel \<times> settings_files \<Rightarrow> (SettingsPanel \<times> settings_files) option" where
  "add_job_clicked V = (\<lambda>(p, fs).
     if sg_new_job_name p = [] \<or> sg_new_job_target p = [] then Some (p, fs)
     else case load_config (sx_config_toml V) (fs_config fs) of
       Ok config \<Rightarrow>
         (case save_config (sx_config_toml V) (push_job (panel_job p) config) (fs_config fs) of
            (Ok _, f) \<Rightarrow> Some (p\<lparr>sg_add_job_error := [], sg_new_job_name := [], sg_new_job_target := []\<rparr>, fs\<lparr>fs_config := f\<rparr>)
          | (Err e, f) \<Rightarrow> Some (p\<lparr>sg_add_job_error := lit ''Failed to save config: '' @ e\<rparr>, fs\<lparr>fs_config := f\<rparr>)
          | (Panic, f) \<Rightarrow> None)
     | Err e \<Rightarrow> Some (p\<lparr>sg_add_job_error := lit ''Failed to load config: '' @ e\<rparr>, fs)
     | Panic \<Rightarrow> None)"

definition shown_error :: "ustr \<Rightarrow> ustr list" where
  "shown_error e = (if e = [] then [] else [e])"

definition tab_scrapers :: "('sk, 'vk) settings_env \<Rightarrow> settings_event \<Rightarrow> SettingsPanel \<times> settings_files \<Rightarrow> drawn option" where
  "tab_scrapers V event = (\<lambda>(p, fs).
     let (rows, p) = scraper_rows V fs p; p = edit_job event p;
         texts = lit ''Scraper Jobs'' # rows @ [lit ''New Scraper Job'', lit ''Name:'', lit ''Target:'', lit ''Source'', lit ''Refresh'',
           lit ''Lifecycle''] @ shown_error (sg_add_job_error p)
     in map_option (\<lambda>(p, fs). (texts, [], p, fs))
       (if event = AddJobClicked then add_job_clicked V (p, fs) else Some (p, fs)))"

section \<open>Providers\<close>

definition add_provider_clicked :: "('sk, 'vk) settings_env \<Rightarrow> SettingsPanel \<times> settings_files \<Rightarrow> (SettingsPanel \<times> settings_files) option" where
  "add_provider_clicked V = (\<lambda>(p, fs).
     if sg_new_provider_name p = [] then Some (p, fs)
     else case add_provider (sx_providers_toml V) (sg_new_provider_name p) (sg_new_provider_target p) (fs_providers fs) of
       (Ok _, f) \<Rightarrow> Some (p\<lparr>sg_add_provider_error := [], sg_new_provider_name := [], sg_new_provider_target := []\<rparr>, fs\<lparr>fs_providers := f\<rparr>)
     | (Err e, f) \<Rightarrow> Some (p\<lparr>sg_add_provider_error := e\<rparr>, fs\<lparr>fs_providers := f\<rparr>)
     | (Panic, f) \<Rightarrow> None)"

definition tab_search_providers :: "('sk, 'vk) settings_env \<Rightarrow> settings_event \<Rightarrow> SettingsPanel \<times> settings_files \<Rightarrow> drawn option" where
  "tab_search_providers V event = (\<lambda>(p, fs).
     let rows = (if file_exists (fs_providers fs)
           then (case read_to_string (fs_providers fs) of Ok contents \<Rightarrow> [lit ''Current Providers'', contents] | _ \<Rightarrow> [])
           else [lit ''No search_providers.toml found. Default provider (DuckDuckGo) will be used.'']);
         p = (case event of ProviderNameEdited s \<Rightarrow> p\<lparr>sg_new_provider_name := s\<rparr>
           | ProviderTargetEdited s \<Rightarrow> p\<lparr>sg_new_provider_target := s\<rparr> | _ \<Rightarrow> p);
         texts = [lit ''Search Providers'', lit ''Search providers resolve keyword queries into URLs for scraping.''] @ rows @
           [lit ''Add Provider'', lit ''Name:'', lit ''Target:''] @ shown_error (sg_add_provider_error p)
     in map_option (\<lambda>(p, fs). (texts, [], p, fs))
       (if event = AddProviderClicked then add_provider_clicked V (p, fs) else Some (p, fs)))"

section \<open>Bootstrap peers\<close>

text \<open>Whatever their origin, the first three peers are called built-in.\<close>

definition source_label :: "nat \<Rightarrow> ustr" where
  "source_label i = (if i < 3 then lit ''built-in'' else lit ''user'')"

definition boot_row :: "nat \<Rightarrow> json \<Rightarrow> ustr list option" where
  "boot_row i v = map_option (\<lambda>short_id. [short_id @ [8230], str_or ''addr'' v ''?'', source_label i, str_or ''note'' v ''''])
     (str_upto 8 (str_or ''id'' v ''?''))"

definition boot_rows :: "json list \<Rightarrow> ustr list option" where
  "boot_rows peers = (if peers = [] then Some [lit ''No bootstrap peers configured.'']
     else map_option (\<lambda>rows. (lit ''Configured Peers ('' @ to_dec (length peers) @ lit '')'') #
         [lit ''ID'', lit ''Address'', lit ''Source'', lit ''Note''] @ concat rows)
       (those (map (\<lambda>(i, v). boot_row i v) (List.enumerate 0 peers))))"

definition peer_tested :: "('sk, 'vk) settings_env \<Rightarrow> ustr \<Rightarrow> ustr \<times> bool \<times> ustr" where
  "peer_tested V addr = (case sx_connect V (unwrap_or (sx_parse_addr V addr) (lit ''0.0.0.0:0'')) of
     Err e \<Rightarrow> (addr, False, e) | _ \<Rightarrow> (addr, True, lit ''reachable''))"

definition test_all_clicked :: "('sk, 'vk) settings_env \<Rightarrow> settings_files \<Rightarrow> BootstrapPanel \<Rightarrow> BootstrapPanel option" where
  "test_all_clicked V fs b = (case resolve_bootstrap_peers (sx_udp V) (sx_bootstrap_toml V) (fs_bootstrap fs) of
     Ok peers \<Rightarrow> Some (b\<lparr>bn_test_results := map (peer_tested V) (map bp_addr peers)\<rparr>)
   | _ \<Rightarrow> None)"

definition tested_rows :: "BootstrapPanel \<Rightarrow> ustr list" where
  "tested_rows b = (if bn_test_results b = [] then []
     else lit ''Test Results'' # concat (map (\<lambda>(addr, reachable, detail). [[if reachable then 10003 else 10007], addr, detail]) (bn_test_results b)))"

definition edit_peer :: "settings_event \<Rightarrow> BootstrapPanel \<Rightarrow> BootstrapPanel" where
  "edit_peer event b = (case event of
     PeerIdEdited s \<Rightarrow> b\<lparr>bn_new_peer_id := s\<rparr> | PeerAddrEdited s \<Rightarrow> b\<lparr>bn_new_peer_addr := s\<rparr>
   | PeerNoteEdited s \<Rightarrow> b\<lparr>bn_new_peer_note := s\<rparr> | _ \<Rightarrow> b)"

definition add_peer_button :: "('sk, 'vk) settings_env \<Rightarrow> BootstrapPanel \<times> settings_files \<Rightarrow> (BootstrapPanel \<times> settings_files) option" where
  "add_peer_button V = (\<lambda>(b, fs).
     if bn_new_peer_id b = [] \<or> bn_new_peer_addr b = [] then Some (b, fs)
     else case write_bootstrap_peer (sx_bootstrap_toml V) (bn_new_peer_id b) (bn_new_peer_addr b) (bn_new_peer_note b) (fs_bootstrap fs) of
       (Ok _, f) \<Rightarrow> Some (b\<lparr>bn_new_peer_id := [], bn_new_peer_addr := [], bn_new_peer_note := []\<rparr>, fs\<lparr>fs_bootstrap := f\<rparr>)
     | (Err _, f) \<Rightarrow> Some (b, fs\<lparr>fs_bootstrap := f\<rparr>)
     | (Panic, f) \<Rightarrow> None)"

definition default_peers_rows :: "config_toml \<Rightarrow> text_file \<Rightarrow> ustr list" where
  "default_peers_rows T f = lit ''Default Peers'' # (case load_config T f of
     Ok config \<Rightarrow> if bc_use_defaults (cf_bootstrap config) then [[10003] @ lit '' Using default bootstrap peers'']
       else [[10007] @ lit '' Default peers disabled (private network mode)'',
         [9888] @ lit '' Private network mode '' @ [8212] @ lit '' your node won'' @ [39] @ lit ''t connect to the public DSearch network.'']
   | _ \<Rightarrow> [])"

definition bootstrap_ui :: "('sk, 'vk) settings_env \<Rightarrow> settings_event \<Rightarrow> BootstrapPanel \<times> settings_files
    \<Rightarrow> (ustr list \<times> BootstrapPanel \<times> settings_files) option" where
  "bootstrap_ui V event = (\<lambda>(b, fs).
     Option.bind (case Option.bind (sx_get V (lit ''/bootstrap'')) (\<lambda>body. Option.bind (parsed (sx_json V) body) (array_at ''peers'')) of
         Some peers \<Rightarrow> boot_rows peers | None \<Rightarrow> Some []) (\<lambda>rows.
     Option.bind (if event = TestAllClicked then test_all_clicked V fs b else Some b) (\<lambda>b.
     map_option (\<lambda>(b', fs'). (lit ''Bootstrap Peers'' # rows @ tested_rows b @
         [lit ''Add Peer Manually'', lit ''ID:'', lit ''Addr:'', lit ''Note:''] @ default_peers_rows (sx_config_toml V) (fs_config fs), b', fs'))
       (if event = AddPeerButton then add_peer_button V (b, fs) else Some (edit_peer event b, fs)))))"

section \<open>The panel\<close>

definition tab_names :: "ustr list" where
  "tab_names = [lit ''General'', lit ''Identity'', lit ''Gateway'', lit ''Scrapers'', lit ''Bootstrap'', lit ''Search Providers'']"

definition settings_ui :: "('sk, 'vk) settings_env \<Rightarrow> settings_event \<Rightarrow> SettingsPanel \<times> settings_files \<Rightarrow> drawn option" where
  "settings_ui V event = (\<lambda>(p, fs).
     let p = (case event of TabClicked t \<Rightarrow> p\<lparr>sg_tab := t\<rparr> | _ \<Rightarrow> p);
         banner = (if sg_api_error p = [] then [] else [[9888, 32] @ sg_api_error p])
     in map_option (\<lambda>(texts, effects, p, fs). (tab_names @ banner @ texts, effects, p, fs))
       (case sg_tab p of
          General \<Rightarrow> Some (tab_general V event (p, fs))
        | Identity \<Rightarrow> Some (tab_identity V event (p, fs))
        | GatewayTab \<Rightarrow> tab_gateway V event (p, fs)
        | Scrapers \<Rightarrow> tab_scrapers V event (p, fs)
        | BootstrapTab \<Rightarrow> map_option (\<lambda>(texts, b, fs). (texts, [], p\<lparr>sg_bootstrap := b\<rparr>, fs)) (bootstrap_ui V event (sg_bootstrap p, fs))
        | SearchProviders \<Rightarrow> tab_search_providers V event (p, fs)))"

section \<open>The panel and the command line\<close>

text \<open>What the boxes of the job form hold: nothing yet, or a name.\<close>

definition picked :: "SettingsPanel \<Rightarrow> bool" where
  "picked p \<longleftrightarrow> sg_new_job_source p \<in> insert [] (range ScrapeSource_as_str) \<and> sg_new_job_refresh p \<in> insert [] (range RefreshPolicy_as_str) \<and>
     sg_new_job_lifecycle p \<in> insert [] (range Lifecycle_as_str)"

text \<open>The form of a panel, which the tabs other than that of the jobs leave alone.\<close>

definition same_form :: "SettingsPanel \<Rightarrow> SettingsPanel \<Rightarrow> bool" where
  "same_form p q \<longleftrightarrow> sg_new_job_source q = sg_new_job_source p \<and> sg_new_job_refresh q = sg_new_job_refresh p \<and>
     sg_new_job_lifecycle q = sg_new_job_lifecycle p"

lemma same_picked: "same_form p q \<Longrightarrow> picked p \<Longrightarrow> picked q"
  by (simp add: same_form_def picked_def)

lemma edit_picked: "picked p \<Longrightarrow> picked (edit_job event p)"
  by (cases event) (auto simp: edit_job_def picked_def)

lemma add_job_form: "add_job_clicked V (p, fs) = Some (q, fs') \<Longrightarrow> same_form p q"
  by (auto simp: add_job_clicked_def same_form_def split: if_splits result.splits prod.splits)

lemma scraper_rows_form: "scraper_rows V fs p = (rows, q) \<Longrightarrow> same_form p q"
  by (auto simp: scraper_rows_def same_form_def split: option.splits result.splits)

lemma scrapers_picked: "tab_scrapers V event (p, fs) = Some (texts, effects, q, fs') \<Longrightarrow> picked p \<Longrightarrow> picked q"
  by (auto simp: tab_scrapers_def Let_def split: prod.splits if_splits dest!: add_job_form scraper_rows_form
      intro: same_picked edit_picked)

lemma same_form_refl [simp]: "same_form p p"
  by (simp add: same_form_def)

lemma same_form_trans: "same_form p q \<Longrightarrow> same_form q r \<Longrightarrow> same_form p r"
  by (simp add: same_form_def)

lemma gateway_config_form: "same_form p (snd (gateway_config V p))"
  by (auto simp: gateway_config_def same_form_def split: result.split)

lemma create_key_form: "create_key_clicked V now secret_bytes (p, fs) = Some (q, fs') \<Longrightarrow> same_form p q"
  by (auto simp: create_key_clicked_def same_form_def split: if_splits prod.splits)

lemma gateway_form:
  assumes "tab_gateway V event (p, fs) = Some (texts, effects, q, fs')"
  shows "same_form p q"
proof -
  obtain rows p1 where config: "gateway_config V p = (rows, p1)" by force
  let ?p2 = "case event of NicknameEdited s \<Rightarrow> p1\<lparr>sg_new_key_nickname := s\<rparr> | _ \<Rightarrow> p1"
  have "same_form p p1" using gateway_config_form [of p V] config by simp
  moreover have "same_form p1 ?p2" by (cases event) (simp_all add: same_form_def)
  moreover have "\<exists>fs''. (case event of CreateKeyClicked now secret_bytes \<Rightarrow> create_key_clicked V now secret_bytes (?p2, fs) | _ \<Rightarrow> Some (?p2, fs)) =
      Some (q, fs'')"
    using assms config by (auto simp: tab_gateway_def Let_def bind_eq_Some_conv split: result.splits simp del: split_paired_Ex)
  then have "same_form ?p2 q" by (cases event) (auto intro: create_key_form)
  ultimately show ?thesis using same_form_trans by blast
qed

lemma general_form: "tab_general V event (p, fs) = (texts, effects, q, fs') \<Longrightarrow> same_form p q"
  by (auto simp: tab_general_def same_form_def Let_def split: result.splits)

lemma identity_form: "tab_identity V event (p, fs) = (texts, effects, q, fs') \<Longrightarrow> same_form p q"
  by (auto simp: tab_identity_def same_form_def Let_def split: result.splits)

lemma add_provider_form: "add_provider_clicked V (p, fs) = Some (q, fs') \<Longrightarrow> same_form p q"
  by (auto simp: add_provider_clicked_def same_form_def split: if_splits result.splits prod.splits)

lemma providers_form:
  assumes "tab_search_providers V event (p, fs) = Some (texts, effects, q, fs')"
  shows "same_form p q"
proof -
  let ?p = "case event of ProviderNameEdited s \<Rightarrow> p\<lparr>sg_new_provider_name := s\<rparr> | ProviderTargetEdited s \<Rightarrow> p\<lparr>sg_new_provider_target := s\<rparr> | _ \<Rightarrow> p"
  have "same_form p ?p" by (cases event) (simp_all add: same_form_def)
  moreover have "same_form ?p q"
    using assms by (auto simp: tab_search_providers_def Let_def split: if_splits intro: add_provider_form)
  ultimately show ?thesis using same_form_trans by blast
qed

lemma settings_picked:
  assumes "settings_ui V event (p, fs) = Some (texts, effects, q, fs')" and "picked p"
  shows "picked q"
proof -
  let ?p = "case event of TabClicked t \<Rightarrow> p\<lparr>sg_tab := t\<rparr> | _ \<Rightarrow> p"
  have "picked ?p" using assms(2) by (cases event) (simp_all add: picked_def)
  obtain ts where tab: "(case sg_tab ?p of
        General \<Rightarrow> Some (tab_general V event (?p, fs)) | Identity \<Rightarrow> Some (tab_identity V event (?p, fs))
      | GatewayTab \<Rightarrow> tab_gateway V event (?p, fs) | Scrapers \<Rightarrow> tab_scrapers V event (?p, fs)
      | BootstrapTab \<Rightarrow> map_option (\<lambda>(texts, b, fs). (texts, [], ?p\<lparr>sg_bootstrap := b\<rparr>, fs)) (bootstrap_ui V event (sg_bootstrap ?p, fs))
      | SearchProviders \<Rightarrow> tab_search_providers V event (?p, fs)) = Some (ts, effects, q, fs')"
    using assms(1) unfolding settings_ui_def Let_def prod.case by (auto simp del: split_paired_Ex)
  show ?thesis
  proof (cases "sg_tab ?p")
    case General
    then have "tab_general V event (?p, fs) = (ts, effects, q, fs')" using tab by simp
    then show ?thesis by (rule same_picked [OF general_form]) fact
  next
    case Identity
    then have "tab_identity V event (?p, fs) = (ts, effects, q, fs')" using tab by simp
    then show ?thesis by (rule same_picked [OF identity_form]) fact
  next
    case GatewayTab
    then have "tab_gateway V event (?p, fs) = Some (ts, effects, q, fs')" using tab by simp
    then show ?thesis by (rule same_picked [OF gateway_form]) fact
  next
    case Scrapers
    then have "tab_scrapers V event (?p, fs) = Some (ts, effects, q, fs')" using tab by simp
    then show ?thesis by (rule scrapers_picked) fact
  next
    case BootstrapTab
    then obtain b where "q = ?p\<lparr>sg_bootstrap := b\<rparr>" using tab by auto
    then have "same_form ?p q" by (simp add: same_form_def)
    then show ?thesis by (rule same_picked) fact
  next
    case SearchProviders
    then have "tab_search_providers V event (?p, fs) = Some (ts, effects, q, fs')" using tab by simp
    then show ?thesis by (rule same_picked [OF providers_form]) fact
  qed
qed

text \<open>The panel over its frames: the environment, the event and the files, which others change too, are those of each frame.\<close>

inductive panel_reachable :: "('sk, 'vk) crypto \<Rightarrow> SettingsPanel \<Rightarrow> bool" for K where
  fresh: "panel_reachable K SettingsPanel_default"
| drawn: "panel_reachable K p \<Longrightarrow> sx_crypto V = K \<Longrightarrow> settings_ui V event (p, fs) = Some (texts, effects, q, fs') \<Longrightarrow> panel_reachable K q"

lemma reachable_picked: "panel_reachable K p \<Longrightarrow> picked p"
proof (induction rule: panel_reachable.induct)
  case fresh
  then show ?case by (simp add: picked_def SettingsPanel_default_def)
next
  case (drawn p V event fs texts effects q fs')
  then show ?case using settings_picked by blast
qed

lemma panel_job_new:
  assumes "picked p"
  shows "new_job (sg_new_job_name p) (or_text (sg_new_job_source p) ''url'') (sg_new_job_target p) (or_text (sg_new_job_refresh p) ''once'')
    3600 (or_text (sg_new_job_lifecycle p) ''ephemeral'') 3600 = Ok (panel_job p)"
proof -
  have defaults: "lit ''url'' \<in> range ScrapeSource_as_str" "lit ''once'' \<in> range RefreshPolicy_as_str" "lit ''ephemeral'' \<in> range Lifecycle_as_str"
    using rangeI [of ScrapeSource_as_str Url] rangeI [of RefreshPolicy_as_str Once] rangeI [of Lifecycle_as_str Ephemeral] by simp_all
  have "or_text (sg_new_job_source p) ''url'' \<in> range ScrapeSource_as_str" "or_text (sg_new_job_refresh p) ''once'' \<in> range RefreshPolicy_as_str"
      "or_text (sg_new_job_lifecycle p) ''ephemeral'' \<in> range Lifecycle_as_str"
    using assms defaults by (auto simp: picked_def or_text_def)
  then have "ScrapeSource_from_str (or_text (sg_new_job_source p) ''url'') \<noteq> None"
      "RefreshPolicy_from_str (or_text (sg_new_job_refresh p) ''once'') \<noteq> None"
      "Lifecycle_from_str (or_text (sg_new_job_lifecycle p) ''ephemeral'') \<noteq> None"
    by (simp_all only: scrape_source.dec_None_iff refresh_policy.dec_None_iff lifecycle.dec_None_iff not_not)
  then show ?thesis by (auto simp: new_job_def panel_job_def ok_or_else_def)
qed

text \<open>The button of the form does what the command does: the same job is added to the configuration, or the same failure
  keeps the file as it is; the command's job has an hour as its interval and as its time to live.\<close>

theorem panel_adds_as_command:
  assumes "panel_reachable (sx_crypto V) p" and "sg_new_job_name p \<noteq> []" and "sg_new_job_target p \<noteq> []"
    and "add_job_clicked V (p, fs) = Some (q, fs')"
    and "cmd_scraper_add (Ok ()) (sx_config_toml V) (sg_new_job_name p) (or_text (sg_new_job_source p) ''url'') (sg_new_job_target p)
      (or_text (sg_new_job_refresh p) ''once'') 3600 (or_text (sg_new_job_lifecycle p) ''ephemeral'') 3600 (fs_config fs) = (out, e, f)"
  shows "fs' = fs\<lparr>fs_config := f\<rparr> \<and> (e = Finished \<longleftrightarrow> sg_add_job_error q = []) \<and> (e = Finished \<longleftrightarrow> sg_new_job_name q = [])"
  using assms(2-5) panel_job_new [OF reachable_picked [OF assms(1)]]
  by (auto simp: add_job_clicked_def cmd_scraper_add_def attempt_def attempt_on_def say_def lit_Cons split: result.splits prod.splits)

section \<open>Labels\<close>

text \<open>The resolver gives the peers of the user's file first, so they are the ones that are called built-in.\<close>

theorem own_peers_called_built_in:
  assumes "resolve_bootstrap_peers (sx_udp V) (sx_bootstrap_toml V) f = Ok peers"
    and "own = bt_peers (read_bootstrap_toml (sx_bootstrap_toml V) f)" and "i < length own" and "i < 3"
  shows "peers ! i = own ! i \<and> source_label i = lit ''built-in''"
proof -
  have "\<exists>added. peers = own @ added"
  proof (cases "bt_use_defaults (read_bootstrap_toml (sx_bootstrap_toml V) f)")
    case True
    then obtain srv where "peers = add_new_peers (add_new_peers own srv) default_bootstrap_peers"
      using assms(1,2) by (auto simp: resolve_bootstrap_peers_def Let_def rbind_Ok_iff)
    moreover obtain xs where "add_new_peers own srv = own @ xs" using add_new_peers_spec by blast
    moreover obtain ys where "add_new_peers (own @ xs) default_bootstrap_peers = (own @ xs) @ ys" using add_new_peers_spec by blast
    ultimately show ?thesis by simp
  qed (use assms(1,2) in \<open>simp add: resolve_bootstrap_peers_def Let_def\<close>)
  then show ?thesis using assms(3,4) by (auto simp: nth_append source_label_def)
qed

section \<open>Runs\<close>

definition lone_env :: "(unit, unit) settings_env" where
  "lone_env = \<lparr>sx_crypto = sample_crypto, sx_keys = sample_keys, sx_json = sample_json, sx_config_toml = node_toml,
     sx_bootstrap_toml = \<lparr>toml_from_str = (\<lambda>_. Ok \<lparr>bt_use_defaults = False, bt_peers = take 1 default_bootstrap_peers\<rparr>), toml_to_string = (\<lambda>_. Err [])\<rparr>,
     sx_providers_toml = \<lparr>pt_from_str = (\<lambda>_. Err []), pt_to_string_pretty = (\<lambda>_. Err [])\<rparr>,
     sx_udp = seed_server, sx_parse_addr = (\<lambda>_. None), sx_connect = (\<lambda>_. Err []),
     sx_get = (\<lambda>_. None), sx_get_again = (\<lambda>_. None), sx_data_dir = lit ''/d'', sx_opener = None\<rparr>"

definition lone_files :: settings_files where
  "lone_files = \<lparr>fs_keys = plain_file None, fs_config = plain_file None, fs_providers = plain_file None, fs_bootstrap = plain_file (Some [])\<rparr>"

definition job_panel :: SettingsPanel where
  "job_panel = SettingsPanel_default\<lparr>sg_tab := Scrapers, sg_new_job_name := lit ''n'', sg_new_job_target := lit ''t''\<rparr>"

lemma lone_scrapers: "sg_tab p = Scrapers \<Longrightarrow> event \<noteq> AddJobClicked \<Longrightarrow> \<forall>t. event \<noteq> TabClicked t \<Longrightarrow>
    \<exists>texts. settings_ui lone_env event (p, lone_files) = Some (texts, [], edit_job event p, lone_files)"
  by (cases event) (simp_all add: settings_ui_def tab_scrapers_def scraper_rows_def lone_env_def lone_files_def load_config_def Let_def)

lemma job_panel_reachable: "panel_reachable sample_crypto job_panel"
proof -
  have K: "sx_crypto lone_env = sample_crypto" by (simp add: lone_env_def)
  let ?p = "SettingsPanel_default\<lparr>sg_tab := Scrapers\<rparr>"
  have "\<exists>texts. settings_ui lone_env (TabClicked Scrapers) (SettingsPanel_default, lone_files) = Some (texts, [], ?p, lone_files)"
    by (simp add: settings_ui_def tab_scrapers_def scraper_rows_def lone_env_def lone_files_def load_config_def Let_def edit_job_def)
  then have "panel_reachable sample_crypto ?p" using panel_reachable.drawn [OF fresh K] by blast
  moreover have "\<exists>texts. settings_ui lone_env (JobNameEdited (lit ''n'')) (?p, lone_files) =
      Some (texts, [], ?p\<lparr>sg_new_job_name := lit ''n''\<rparr>, lone_files)"
    using lone_scrapers [of ?p "JobNameEdited (lit ''n'')"] by (simp add: edit_job_def)
  ultimately have "panel_reachable sample_crypto (?p\<lparr>sg_new_job_name := lit ''n''\<rparr>)" using panel_reachable.drawn [OF _ K] by blast
  moreover have "\<exists>texts. settings_ui lone_env (JobTargetEdited (lit ''t'')) (?p\<lparr>sg_new_job_name := lit ''n''\<rparr>, lone_files) =
      Some (texts, [], job_panel, lone_files)"
    using lone_scrapers [of "?p\<lparr>sg_new_job_name := lit ''n''\<rparr>" "JobTargetEdited (lit ''t'')"] by (simp add: edit_job_def job_panel_def)
  ultimately show ?thesis using panel_reachable.drawn [OF _ K] by blast
qed

theorem panel_adds_as_command_witness:
  "\<exists>q f. add_job_clicked lone_env (job_panel, lone_files) = Some (q, lone_files\<lparr>fs_config := f\<rparr>) \<and> sg_new_job_name q = [] \<and> file_exists f"
proof -
  obtain out e f where cmd: "cmd_scraper_add (Ok ()) (sx_config_toml lone_env) (sg_new_job_name job_panel)
      (or_text (sg_new_job_source job_panel) ''url'') (sg_new_job_target job_panel) (or_text (sg_new_job_refresh job_panel) ''once'') 3600
      (or_text (sg_new_job_lifecycle job_panel) ''ephemeral'') 3600 (fs_config lone_files) = (out, e, f)" using prod_cases3 by blast
  have "\<exists>q f. add_job_clicked lone_env (job_panel, lone_files) = Some (q, lone_files\<lparr>fs_config := f\<rparr>) \<and> sg_add_job_error q = [] \<and> file_exists f"
    by (simp add: add_job_clicked_def job_panel_def SettingsPanel_default_def lone_env_def lone_files_def load_config_def save_config_def node_toml_def
        plain_file_def file_exists_def write_file_def Let_def lit_Cons)
  then obtain q f' where q: "add_job_clicked lone_env (job_panel, lone_files) = Some (q, lone_files\<lparr>fs_config := f'\<rparr>)" "sg_add_job_error q = []"
    "file_exists f'" by blast
  have "panel_reachable (sx_crypto lone_env) job_panel" using job_panel_reachable by (simp add: lone_env_def)
  then have "sg_new_job_name q = []"
    using panel_adds_as_command [OF _ _ _ q(1) cmd] q(2) by (auto simp: job_panel_def)
  with q show ?thesis by blast
qed

theorem own_peers_called_built_in_witness:
  "\<exists>peers. resolve_bootstrap_peers (sx_udp lone_env) (sx_bootstrap_toml lone_env) (plain_file (Some [])) = Ok peers \<and>
     peers ! 0 = default_bootstrap_peers ! 0 \<and> source_label 0 = lit ''built-in''"
proof -
  have peers: "resolve_bootstrap_peers (sx_udp lone_env) (sx_bootstrap_toml lone_env) (plain_file (Some [])) = Ok (take 1 default_bootstrap_peers)"
      "take 1 default_bootstrap_peers = bt_peers (read_bootstrap_toml (sx_bootstrap_toml lone_env) (plain_file (Some [])))"
    by (simp_all add: resolve_bootstrap_peers_def read_bootstrap_toml_def lone_env_def Let_def)
  have "0 < length (take 1 default_bootstrap_peers)" by (simp add: default_bootstrap_peers_def)
  from own_peers_called_built_in [OF peers this] peers(1) show ?thesis by simp
qed

end
