(* ===== verification/Ui_Setup.thy ===== *)
theory Ui_Setup
  imports Commands_Peers Cert
begin

text \<open>
  \<^verbatim>\<open>src/src/ui/onboarding.rs\<close>: the wizard of the first start. A frame draws the page of the current step and
  handles at most one click or edit; the widgets are not modelled, only what they do to the wizard and to
  the files of the chosen data directory. A frame that panics gives \<open>None\<close>.
\<close>

section \<open>The wizard\<close>

datatype OnboardingStep = Welcome | GenerateIdentity | ChooseRole | ConnectBootstrap | StepDone

record BootstrapPeerInfo =
  pi_id :: ustr
  pi_addr :: ustr

record OnboardingState =
  wz_step :: OnboardingStep
  wz_data_dir :: ustr
  wz_node_id :: ustr
  wz_selected_role :: ustr
  wz_autonat_result :: "bool option"
  wz_bootstrap_connected :: bool
  wz_bootstrap_peer_count :: nat
  wz_identity_generated :: bool
  wz_custom_data_dir :: ustr
  wz_identity_error :: ustr
  wz_bootstrap_peers :: "BootstrapPeerInfo list"
  wz_bootstrap_peers_loaded :: bool
  wz_bootstrap_test_results :: "(ustr \<times> bool \<times> ustr) list"
  wz_new_peer_id :: ustr
  wz_new_peer_addr :: ustr

text \<open>The argument is the system's directory for data, the working directory when there is none.\<close>

definition OnboardingState_new :: "ustr option \<Rightarrow> OnboardingState" where
  "OnboardingState_new system_dir =
     (let default_dir = unwrap_or system_dir (lit ''.'') @ lit ''/dsearch''
      in \<lparr>wz_step = Welcome, wz_data_dir = default_dir, wz_node_id = [], wz_selected_role = lit ''light'', wz_autonat_result = None,
          wz_bootstrap_connected = False, wz_bootstrap_peer_count = 0, wz_identity_generated = False, wz_custom_data_dir = default_dir,
          wz_identity_error = [], wz_bootstrap_peers = [], wz_bootstrap_peers_loaded = False, wz_bootstrap_test_results = [],
          wz_new_peer_id = [], wz_new_peer_addr = []\<rparr>)"

definition is_complete :: "OnboardingState \<Rightarrow> bool" where
  "is_complete w \<longleftrightarrow> wz_step w = StepDone"

definition step_index :: "OnboardingState \<Rightarrow> nat" where
  "step_index w = (case wz_step w of Welcome \<Rightarrow> 0 | GenerateIdentity \<Rightarrow> 1 | ChooseRole \<Rightarrow> 2 | ConnectBootstrap \<Rightarrow> 3 | StepDone \<Rightarrow> 4)"

text \<open>The files of a data directory that the wizard writes, for every path.\<close>

record setup_dir =
  su_identity :: id_dir
  su_config :: text_file
  su_bootstrap :: text_file

type_synonym disk = "ustr \<Rightarrow> setup_dir"

text \<open>The libraries, the resolver's sockets, and the address parser and TCP connections of the connectivity test.\<close>

record ('sk, 'vk, 'kp) wizard_env =
  we_crypto :: "('sk, 'vk) crypto"
  we_certs :: "('sk, 'vk, 'kp) cert_lib"
  we_config_toml :: config_toml
  we_bootstrap_toml :: toml
  we_udp :: udp
  we_parse_addr :: "ustr \<Rightarrow> ustr option"
  we_connect :: "ustr \<Rightarrow> (unit, ustr) result"

text \<open>What the user does in a frame; the key of \<open>GenerateClicked\<close> is the one the generator draws.\<close>

datatype 'sk wizard_event = Nothing | EditDir ustr | ContinueClicked | BackClicked | GenerateClicked 'sk | RoleClicked nat
  | TestClicked | EditPeerId ustr | EditPeerAddr ustr | AddPeerClicked | SkipClicked | StartClicked

section \<open>The steps\<close>

definition step_welcome :: "'sk wizard_event \<Rightarrow> OnboardingState \<Rightarrow> OnboardingState" where
  "step_welcome event w = (case event of
     EditDir dir_str \<Rightarrow> w\<lparr>wz_custom_data_dir := dir_str, wz_data_dir := dir_str\<rparr>
   | ContinueClicked \<Rightarrow> w\<lparr>wz_step := GenerateIdentity\<rparr>
   | _ \<Rightarrow> w)"

definition generate_clicked :: "('sk, 'vk, 'kp) wizard_env \<Rightarrow> 'sk \<Rightarrow> OnboardingState \<times> disk \<Rightarrow> (OnboardingState \<times> disk) option" where
  "generate_clicked V fresh = (\<lambda>(w, files).
     let w = w\<lparr>wz_identity_error := []\<rparr>; dir = wz_data_dir w
     in case generate_identity (we_crypto V) (we_certs V) fresh of
          Ok (signing_key, node_id, cert_der, key_der) \<Rightarrow>
            (case save_identity (we_certs V) signing_key cert_der key_der (su_identity (files dir)) of
               (r, D) \<Rightarrow>
                 let files = files(dir := (files dir)\<lparr>su_identity := D\<rparr>)
                 in case r of
                      Ok _ \<Rightarrow> Some (w\<lparr>wz_node_id := node_id, wz_identity_generated := True\<rparr>, files)
                    | Err e \<Rightarrow> Some (w\<lparr>wz_identity_error := lit ''Failed to save identity: '' @ cert_error_text e\<rparr>, files)
                    | Panic \<Rightarrow> None)
        | Err e \<Rightarrow> Some (w\<lparr>wz_identity_error := lit ''Failed to generate identity: '' @ cert_error_text e\<rparr>, files)
        | Panic \<Rightarrow> None)"

text \<open>The page has the button that generates the identity only until one is there.\<close>

definition step_identity :: "('sk, 'vk, 'kp) wizard_env \<Rightarrow> 'sk wizard_event \<Rightarrow> OnboardingState \<times> disk \<Rightarrow> (OnboardingState \<times> disk) option" where
  "step_identity V event = (\<lambda>(w, files).
     if \<not> wz_identity_generated w
     then (case event of
         GenerateClicked fresh \<Rightarrow> generate_clicked V fresh (w, files)
       | BackClicked \<Rightarrow> Some (w\<lparr>wz_step := Welcome\<rparr>, files)
       | _ \<Rightarrow> Some (w, files))
     else (case event of
         ContinueClicked \<Rightarrow> Some (w\<lparr>wz_step := ChooseRole\<rparr>, files)
       | BackClicked \<Rightarrow> Some (w\<lparr>wz_step := Welcome\<rparr>, files)
       | _ \<Rightarrow> Some (w, files)))"

definition wizard_roles :: "ustr list" where
  "wizard_roles = [lit ''light'', lit ''full'', lit ''scraper'', lit ''archive'', lit ''custom'']"

text \<open>Nothing is done about a configuration that does not load or cannot be saved.\<close>

definition write_config_with_role :: "config_toml \<Rightarrow> ustr \<Rightarrow> text_file \<Rightarrow> text_file" where
  "write_config_with_role T selected_role f =
     (if \<not> file_exists f
      then snd (save_config T (DsearchConfig_default\<lparr>cf_node := (cf_node DsearchConfig_default)\<lparr>nc_role := selected_role\<rparr>\<rparr>) f)
      else case load_config T f of
        Ok config \<Rightarrow> snd (save_config T (config\<lparr>cf_node := (cf_node config)\<lparr>nc_role := selected_role\<rparr>\<rparr>) f)
      | _ \<Rightarrow> f)"

text \<open>The probe that the page announces is not run: the first frame sets its result.\<close>

definition role_page :: "'sk wizard_event \<Rightarrow> OnboardingState \<Rightarrow> OnboardingState" where
  "role_page event w =
     (let w = (case event of
           RoleClicked i \<Rightarrow> if i < length wizard_roles then w\<lparr>wz_selected_role := wizard_roles ! i\<rparr> else w
         | _ \<Rightarrow> w)
      in if wz_autonat_result w = None then w\<lparr>wz_autonat_result := Some False\<rparr> else w)"

definition step_role :: "('sk, 'vk, 'kp) wizard_env \<Rightarrow> 'sk wizard_event \<Rightarrow> OnboardingState \<times> disk \<Rightarrow> OnboardingState \<times> disk" where
  "step_role V event = (\<lambda>(w, files).
     let w = role_page event w; dir = wz_data_dir w
     in case event of
          ContinueClicked \<Rightarrow> (w\<lparr>wz_step := ConnectBootstrap\<rparr>, files(dir := (files dir)\<lparr>su_config :=
            write_config_with_role (we_config_toml V) (wz_selected_role w) (su_config (files dir))\<rparr>))
        | BackClicked \<Rightarrow> (w\<lparr>wz_step := GenerateIdentity\<rparr>, files)
        | _ \<Rightarrow> (w, files))"

definition default_bootstrap_text :: ustr where
  "default_bootstrap_text = concat (map (\<lambda>l. lit l @ [10])
     [''# {data_dir}/bootstrap.toml'', ''# Edit freely. Add community or private bootstrap nodes here.'',
      ''# The built-in list is always tried alongside this file.'', ''# Remove the built-in list entirely by setting use_defaults = false.'',
      '''', ''use_defaults = true''])"

definition write_bootstrap_defaults :: "text_file \<Rightarrow> text_file" where
  "write_bootstrap_defaults f = (if file_exists f then f else snd (write_file default_bootstrap_text f))"

definition load_peers :: "('sk, 'vk, 'kp) wizard_env \<Rightarrow> OnboardingState \<times> disk \<Rightarrow> OnboardingState option" where
  "load_peers V = (\<lambda>(w, files).
     if wz_bootstrap_peers_loaded w then Some w
     else case resolve_bootstrap_peers (we_udp V) (we_bootstrap_toml V) (su_bootstrap (files (wz_data_dir w))) of
       Ok peers \<Rightarrow> Some (w\<lparr>wz_bootstrap_peers := map (\<lambda>p. \<lparr>pi_id = bp_id p, pi_addr = bp_addr p\<rparr>) peers, wz_bootstrap_peers_loaded := True\<rparr>)
     | _ \<Rightarrow> None)"

text \<open>Until there are test results, the peers are listed, each with the first eight bytes of its id.\<close>

definition list_peers :: "OnboardingState \<Rightarrow> ustr list option" where
  "list_peers w = (if wz_bootstrap_test_results w \<noteq> [] then Some []
     else those (map (\<lambda>p. map_option (\<lambda>short_id. short_id @ lit '' ('' @ pi_addr p @ lit '')'') (str_upto 8 (pi_id p))) (wz_bootstrap_peers w)))"

definition connectivity :: "('sk, 'vk, 'kp) wizard_env \<Rightarrow> ustr \<Rightarrow> ustr \<times> bool \<times> ustr" where
  "connectivity V addr = (case we_connect V (unwrap_or (we_parse_addr V addr) (lit ''0.0.0.0:0'')) of
     Err e \<Rightarrow> (addr, False, e)
   | _ \<Rightarrow> (addr, True, lit ''reachable''))"

definition add_peer_clicked :: "('sk, 'vk, 'kp) wizard_env \<Rightarrow> OnboardingState \<times> disk \<Rightarrow> OnboardingState \<times> disk" where
  "add_peer_clicked V = (\<lambda>(w, files).
     let dir = wz_data_dir w
     in if wz_new_peer_id w = [] \<or> wz_new_peer_addr w = [] then (w, files)
        else case write_bootstrap_peer (we_bootstrap_toml V) (wz_new_peer_id w) (wz_new_peer_addr w) (lit ''added during onboarding'')
            (su_bootstrap (files dir)) of
          (r, f) \<Rightarrow> (if is_ok r then w\<lparr>wz_bootstrap_peers_loaded := False, wz_bootstrap_test_results := [], wz_new_peer_id := [], wz_new_peer_addr := []\<rparr>
             else w, files(dir := (files dir)\<lparr>su_bootstrap := f\<rparr>)))"

definition leave_bootstrap :: "OnboardingState \<times> disk \<Rightarrow> OnboardingState \<times> disk" where
  "leave_bootstrap = (\<lambda>(w, files).
     let dir = wz_data_dir w
     in (w\<lparr>wz_bootstrap_connected := True, wz_step := StepDone\<rparr>,
         files(dir := (files dir)\<lparr>su_bootstrap := write_bootstrap_defaults (su_bootstrap (files dir))\<rparr>)))"

definition step_bootstrap :: "('sk, 'vk, 'kp) wizard_env \<Rightarrow> 'sk wizard_event \<Rightarrow> OnboardingState \<times> disk \<Rightarrow> (OnboardingState \<times> disk) option" where
  "step_bootstrap V event = (\<lambda>(w, files).
     if \<not> wz_bootstrap_connected w
     then Option.bind (load_peers V (w, files)) (\<lambda>w.
       Option.bind (list_peers w) (\<lambda>_.
       Some (case event of
           TestClicked \<Rightarrow> (w\<lparr>wz_bootstrap_test_results := map (connectivity V) (map pi_addr (wz_bootstrap_peers w))\<rparr>, files)
         | EditPeerId s \<Rightarrow> (w\<lparr>wz_new_peer_id := s\<rparr>, files)
         | EditPeerAddr s \<Rightarrow> (w\<lparr>wz_new_peer_addr := s\<rparr>, files)
         | AddPeerClicked \<Rightarrow> add_peer_clicked V (w, files)
         | SkipClicked \<Rightarrow> leave_bootstrap (w, files)
         | ContinueClicked \<Rightarrow> apfst (wz_bootstrap_peer_count_update (\<lambda>_. length (wz_bootstrap_peers w))) (leave_bootstrap (w, files))
         | BackClicked \<Rightarrow> (w\<lparr>wz_step := ChooseRole\<rparr>, files)
         | _ \<Rightarrow> (w, files))))
     else (case event of
         StartClicked \<Rightarrow> Some (w\<lparr>wz_step := StepDone\<rparr>, files)
       | _ \<Rightarrow> Some (w, files)))"

text \<open>The last page, drawn with the first sixteen bytes of the node's id.\<close>

definition step_done :: "OnboardingState \<Rightarrow> ustr option" where
  "step_done w = map_option (\<lambda>short_id. lit ''Node ID: '' @ short_id @ [8230]) (str_upto 16 (wz_node_id w))"

definition wizard_frame :: "('sk, 'vk, 'kp) wizard_env \<Rightarrow> 'sk wizard_event \<Rightarrow> OnboardingState \<times> disk \<Rightarrow> (OnboardingState \<times> disk) option" where
  "wizard_frame V event = (\<lambda>(w, files). case wz_step w of
     Welcome \<Rightarrow> Some (step_welcome event w, files)
   | GenerateIdentity \<Rightarrow> step_identity V event (w, files)
   | ChooseRole \<Rightarrow> Some (step_role V event (w, files))
   | ConnectBootstrap \<Rightarrow> step_bootstrap V event (w, files)
   | StepDone \<Rightarrow> map_option (\<lambda>_. (w, files)) (step_done w))"

text \<open>The application draws the wizard until it is complete, so the last page is never seen.\<close>

fun wizard_frames :: "('sk, 'vk, 'kp) wizard_env \<Rightarrow> 'sk wizard_event list \<Rightarrow> OnboardingState \<times> disk \<Rightarrow> (OnboardingState \<times> disk) option" where
  "wizard_frames V [] s = Some s"
| "wizard_frames V (event # events) s = (if is_complete (fst s) then Some s
     else Option.bind (wizard_frame V event s) (wizard_frames V events))"

section \<open>What a completed wizard leaves\<close>

lemma save_identity_files:
  assumes "save_identity X sk c t D = (Ok u, D')"
  shows "has_identity D' \<and> bf_contents (id_key D') = Some (cl_secret_bytes X sk)"
  using assms
  by (cases "id_mkdir D"; cases "bf_write_error (id_key D)"; cases "bf_write_error (id_crt D)"; cases "bf_write_error (id_tls D)")
    (auto simp: save_identity_def id_then_def write_key_def write_crt_def write_tls_def write_bin_def has_identity_def bin_exists_def)

lemma write_role: "load_config T f = Ok config \<Longrightarrow> write_config_with_role T r f = snd (save_config T (set_role r config) f)"
  by (auto simp: write_config_with_role_def load_config_def set_role_def)

text \<open>A role that is written is the role that loads, when the text that was saved reads back and is not from the future.\<close>

theorem role_saved:
  assumes "fl_read_error f = None" and "fl_write_error f = None" and "load_config T f = Ok config"
    and "cfg' = set_role role config" and "cfg_to_string T cfg' = Ok s"
    and "cfg_from_str T (trim_end s @ meta_section (kept_version f)) = Ok cfg'" and "no_meta (trim_end s)"
    and "kept_version f \<le> CURRENT_CONFIG_VERSION"
  shows "load_config T (write_config_with_role T role f) = Ok cfg'"
proof -
  have "write_config_with_role T role f = snd (save_config T cfg' f)"
    using write_role [OF assms(3)] assms(4) by simp
  also have "\<dots> = f\<lparr>fl_contents := Some (trim_end s @ meta_section (kept_version f))\<rparr>"
    by (simp add: save_config_Ok [OF assms(1,2,5)])
  finally show ?thesis
    using assms(1,6-8) extract_saved by (simp add: load_config_def file_exists_def read_to_string_def)
qed

text \<open>What the TOML library must do for a configuration: with any role of the wizard it is written, and what is written is
  read back.\<close>

definition config_keeps :: "config_toml \<Rightarrow> DsearchConfig \<Rightarrow> bool" where
  "config_keeps T c \<longleftrightarrow> (\<forall>r \<in> set wizard_roles. \<exists>s. cfg_to_string T (set_role r c) = Ok s \<and> no_meta (trim_end s) \<and>
     (\<forall>v. cfg_from_str T (trim_end s @ meta_section v) = Ok (set_role r c)))"

text \<open>A file that loads as the configuration, but for the role.\<close>

definition loads_but_role :: "config_toml \<Rightarrow> DsearchConfig \<Rightarrow> text_file \<Rightarrow> bool" where
  "loads_but_role T c f \<longleftrightarrow> fl_read_error f = None \<and> fl_write_error f = None \<and> (\<exists>r. load_config T f = Ok (set_role r c))"

lemma set_role_simps [simp]: "set_role r (set_role r' c) = set_role r c" "set_role (nc_role (cf_node c)) c = c"
  by (simp_all add: set_role_def)

lemma loaded_version:
  assumes "fl_read_error f = None" and "load_config T f = Ok c"
  shows "kept_version f \<le> CURRENT_CONFIG_VERSION"
  using assms by (auto simp: kept_version_def load_config_def file_exists_def read_to_string_def res_simps not_less
      split: option.splits if_splits)

lemma role_written:
  assumes "config_keeps T c" and "loads_but_role T c f" and "r \<in> set wizard_roles"
  shows "load_config T (write_config_with_role T r f) = Ok (set_role r c) \<and> loads_but_role T c (write_config_with_role T r f)"
proof -
  obtain r0 where f: "fl_read_error f = None" "fl_write_error f = None" "load_config T f = Ok (set_role r0 c)"
    using assms(2) by (auto simp: loads_but_role_def)
  obtain s where s: "cfg_to_string T (set_role r c) = Ok s" "no_meta (trim_end s)"
      "cfg_from_str T (trim_end s @ meta_section (kept_version f)) = Ok (set_role r c)"
    using assms(1,3) by (auto simp: config_keeps_def)
  have loads: "load_config T (write_config_with_role T r f) = Ok (set_role r c)"
    by (rule role_saved [OF f]) (use s loaded_version [OF f(1,3)] in simp_all)
  have "write_config_with_role T r f = snd (save_config T (set_role r c) f)" using write_role [OF f(3)] by simp
  with save_config_Ok [OF f(1,2) s(1)] f loads show ?thesis by (auto simp: loads_but_role_def)
qed

lemma bootstrap_written: "write_bootstrap_defaults f =
    (if file_exists f \<or> fl_write_error f \<noteq> None then f else f\<lparr>fl_contents := Some default_bootstrap_text\<rparr>)"
  by (auto simp: write_bootstrap_defaults_def write_file_def)

text \<open>What every frame keeps while the directory is not edited: only the files of the chosen directory change, and
  each page past the second one has behind it what the pages before it wrote.\<close>

definition identity_in :: "('sk, 'vk, 'kp) wizard_env \<Rightarrow> OnboardingState \<Rightarrow> id_dir \<Rightarrow> bool" where
  "identity_in V w D \<longleftrightarrow> has_identity D \<and> (\<exists>sk. wz_node_id w = own_node_id (we_crypto V) (we_certs V) sk \<and>
     bf_contents (id_key D) = Some (cl_secret_bytes (we_certs V) sk))"

definition role_in :: "('sk, 'vk, 'kp) wizard_env \<Rightarrow> DsearchConfig \<Rightarrow> OnboardingState \<Rightarrow> text_file \<Rightarrow> bool" where
  "role_in V c w f \<longleftrightarrow> load_config (we_config_toml V) f = Ok (set_role (wz_selected_role w) c)"

text \<open>The bootstrap list when no peer is added: \<open>f0\<close> is what the directory had.\<close>

definition bootstrap_left :: "bool \<Rightarrow> text_file \<Rightarrow> text_file \<Rightarrow> bool" where
  "bootstrap_left finished f0 f \<longleftrightarrow> f = (if finished then write_bootstrap_defaults f0 else f0)"

text \<open>\<open>c\<close> is the configuration there is, \<open>b\<close> whether peers may be added.\<close>

definition setup_inv :: "('sk, 'vk, 'kp) wizard_env \<Rightarrow> ustr \<Rightarrow> DsearchConfig \<Rightarrow> bool \<Rightarrow> disk \<Rightarrow> OnboardingState \<times> disk \<Rightarrow> bool" where
  "setup_inv V d c b files0 = (\<lambda>(w, files).
     wz_data_dir w = d \<and> (\<forall>x. x \<noteq> d \<longrightarrow> files x = files0 x) \<and> wz_selected_role w \<in> set wizard_roles \<and> wz_autonat_result w \<noteq> Some True \<and>
     (wz_bootstrap_connected w \<longrightarrow> wz_step w = StepDone) \<and>
     (wz_identity_generated w \<longrightarrow> identity_in V w (su_identity (files d))) \<and>
     (wz_step w \<in> {ChooseRole, ConnectBootstrap, StepDone} \<longrightarrow> wz_identity_generated w) \<and>
     loads_but_role (we_config_toml V) c (su_config (files d)) \<and>
     (wz_step w \<in> {ConnectBootstrap, StepDone} \<longrightarrow> role_in V c w (su_config (files d))) \<and>
     (b \<or> bootstrap_left (wz_step w = StepDone) (su_bootstrap (files0 d)) (su_bootstrap (files d))) \<and>
     (wz_step w = StepDone \<longrightarrow> fl_write_error (su_bootstrap (files d)) = None \<longrightarrow> file_exists (su_bootstrap (files d))))"

lemma identity_in_update [simp]:
  "identity_in V (w\<lparr>wz_step := x\<rparr>) D = identity_in V w D" "identity_in V (w\<lparr>wz_bootstrap_connected := b\<rparr>) D = identity_in V w D"
  "identity_in V (w\<lparr>wz_selected_role := r\<rparr>) D = identity_in V w D" "identity_in V (w\<lparr>wz_autonat_result := q\<rparr>) D = identity_in V w D"
  "role_in V c (w\<lparr>wz_step := x\<rparr>) f = role_in V c w f" "role_in V c (w\<lparr>wz_bootstrap_connected := b\<rparr>) f = role_in V c w f"
  by (simp_all add: identity_in_def role_in_def)

text \<open>The parts of the wizard that the invariant looks at.\<close>

definition same_setup :: "OnboardingState \<Rightarrow> OnboardingState \<Rightarrow> bool" where
  "same_setup w w' \<longleftrightarrow> wz_data_dir w' = wz_data_dir w \<and> wz_selected_role w' = wz_selected_role w \<and> wz_autonat_result w' = wz_autonat_result w \<and>
     wz_identity_generated w' = wz_identity_generated w \<and> wz_node_id w' = wz_node_id w \<and> wz_step w' = wz_step w \<and>
     wz_bootstrap_connected w' = wz_bootstrap_connected w"

lemma same_inv: "setup_inv V d c b files0 (w, files) \<Longrightarrow> same_setup w w' \<Longrightarrow> setup_inv V d c b files0 (w', files)"
  by (simp add: same_setup_def setup_inv_def identity_in_def role_in_def)

lemma welcome_inv: "setup_inv V d c b files0 (w, files) \<Longrightarrow> wz_step w = Welcome \<Longrightarrow> \<forall>x. event \<noteq> EditDir x \<Longrightarrow>
    setup_inv V d c b files0 (step_welcome event w, files)"
  by (cases event) (auto simp: setup_inv_def step_welcome_def identity_in_def role_in_def)

lemma generate_inv:
  assumes "setup_inv V d c b files0 (w, files)" and "wz_step w = GenerateIdentity" and "\<not> wz_identity_generated w"
    and "generate_clicked V fresh (w, files) = Some s"
  shows "setup_inv V d c b files0 s"
proof (cases "generate_identity (we_crypto V) (we_certs V) fresh")
  case (Ok I)
  then obtain c t where I: "I = (fresh, own_node_id (we_crypto V) (we_certs V) fresh, c, t)"
    by (auto simp: generate_identity_def Let_def rbind_Ok_iff)
  obtain r D where save: "save_identity (we_certs V) fresh c t (su_identity (files d)) = (r, D)" by force
  have "wz_data_dir w = d" using assms(1) by (simp add: setup_inv_def)
  with assms save_identity_files [of "we_certs V" fresh c t "su_identity (files d)" _ D] save Ok I show ?thesis
    by (cases r) (auto simp: setup_inv_def generate_clicked_def Let_def identity_in_def role_in_def)
qed (use assms in \<open>auto simp: setup_inv_def generate_clicked_def Let_def identity_in_def role_in_def\<close>)

lemma identity_inv:
  assumes "setup_inv V d c b files0 (w, files)" and "wz_step w = GenerateIdentity" and "step_identity V event (w, files) = Some s"
  shows "setup_inv V d c b files0 s"
proof (cases "\<exists>fresh. event = GenerateClicked fresh \<and> \<not> wz_identity_generated w")
  case True
  then obtain fresh where "generate_clicked V fresh (w, files) = Some s" using assms(3) by (auto simp: step_identity_def)
  then show ?thesis using generate_inv [OF assms(1,2)] True by blast
next
  case False
  then show ?thesis using assms
    by (cases event) (auto simp: step_identity_def setup_inv_def identity_in_def role_in_def split: if_splits)
qed

lemma role_page_inv:
  assumes "setup_inv V d c b files0 (w, files)" and "wz_step w = ChooseRole"
  shows "setup_inv V d c b files0 (role_page event w, files) \<and> wz_step (role_page event w) = ChooseRole"
proof -
  let ?probed = "if wz_autonat_result w = None then Some False else wz_autonat_result w"
  have "\<exists>role \<in> set wizard_roles. role_page event w = w\<lparr>wz_selected_role := role, wz_autonat_result := ?probed\<rparr>"
  proof (cases "\<exists>i. event = RoleClicked i \<and> i < length wizard_roles")
    case True
    then obtain i where "event = RoleClicked i" "i < length wizard_roles" by blast
    then show ?thesis by (intro bexI [of _ "wizard_roles ! i"]) (simp_all add: role_page_def Let_def)
  next
    case False
    then have "role_page event w = (if wz_autonat_result w = None then w\<lparr>wz_autonat_result := Some False\<rparr> else w)"
      by (cases event) (simp_all add: role_page_def)
    moreover have "wz_selected_role w \<in> set wizard_roles" using assms(1) by (simp add: setup_inv_def)
    ultimately show ?thesis by (intro bexI [of _ "wz_selected_role w"]) simp_all
  qed
  moreover have "?probed \<noteq> Some True" using assms(1) by (simp add: setup_inv_def)
  ultimately obtain role probed where "role_page event w = w\<lparr>wz_selected_role := role, wz_autonat_result := probed\<rparr>"
    and "role \<in> set wizard_roles" "probed \<noteq> Some True" by blast
  with assms show ?thesis by (simp add: setup_inv_def identity_in_def)
qed

lemma choose_inv:
  assumes "setup_inv V d c b files0 (w, files)" and "wz_step w = ChooseRole" and "config_keeps (we_config_toml V) c"
  shows "setup_inv V d c b files0 (w\<lparr>wz_step := ConnectBootstrap\<rparr>, files(wz_data_dir w := (files (wz_data_dir w))\<lparr>su_config :=
      write_config_with_role (we_config_toml V) (wz_selected_role w) (su_config (files (wz_data_dir w)))\<rparr>))"
    "setup_inv V d c b files0 (w\<lparr>wz_step := GenerateIdentity\<rparr>, files)"
  using assms role_written [OF assms(3), of "su_config (files d)" "wz_selected_role w"]
  by (auto simp: setup_inv_def identity_in_def role_in_def)

lemma role_inv:
  assumes "setup_inv V d c b files0 (w, files)" and "wz_step w = ChooseRole" and "config_keeps (we_config_toml V) c"
  shows "setup_inv V d c b files0 (step_role V event (w, files))"
  using role_page_inv [OF assms(1,2), of event] choose_inv [of V d c b files0 "role_page event w" files, OF _ _ assms(3)]
  by (cases event) (simp_all add: step_role_def Let_def)

lemma load_peers_inv:
  assumes "setup_inv V d c b files0 (w, files)" and "load_peers V (w, files) = Some w'"
  shows "setup_inv V d c b files0 (w', files) \<and> wz_step w' = wz_step w"
proof -
  have "same_setup w w'"
  proof (cases "wz_bootstrap_peers_loaded w")
    case False
    then obtain peers where "resolve_bootstrap_peers (we_udp V) (we_bootstrap_toml V) (su_bootstrap (files (wz_data_dir w))) = Ok peers"
      using assms(2) by (auto simp: load_peers_def split: result.splits)
    with False have "w' = w\<lparr>wz_bootstrap_peers := map (\<lambda>p. \<lparr>pi_id = bp_id p, pi_addr = bp_addr p\<rparr>) peers, wz_bootstrap_peers_loaded := True\<rparr>"
      using assms(2) by (simp add: load_peers_def)
    then show ?thesis by (simp add: same_setup_def)
  qed (use assms(2) in \<open>simp add: load_peers_def same_setup_def\<close>)
  then show ?thesis using same_inv [OF assms(1)] by (simp add: same_setup_def)
qed

lemma bootstrap_file_inv:
  assumes "setup_inv V d c b files0 (w, files)" and "wz_step w = ConnectBootstrap" and b
  shows "setup_inv V d c b files0 (w, files(wz_data_dir w := (files (wz_data_dir w))\<lparr>su_bootstrap := f\<rparr>))"
  using assms by (simp add: setup_inv_def)

lemma leave_inv:
  assumes "setup_inv V d c b files0 (w, files)" and "wz_step w = ConnectBootstrap"
  shows "setup_inv V d c b files0 (leave_bootstrap (w, files))"
  using assms by (auto simp: leave_bootstrap_def Let_def setup_inv_def bootstrap_left_def bootstrap_written file_exists_def)

lemma add_peer_inv:
  assumes "setup_inv V d c b files0 (w, files)" and "wz_step w = ConnectBootstrap" and b
  shows "setup_inv V d c b files0 (add_peer_clicked V (w, files))"
proof (cases "wz_new_peer_id w = [] \<or> wz_new_peer_addr w = []")
  case True
  then show ?thesis using assms(1) by (auto simp: add_peer_clicked_def Let_def)
next
  case False
  obtain r f where "write_bootstrap_peer (we_bootstrap_toml V) (wz_new_peer_id w) (wz_new_peer_addr w) (lit ''added during onboarding'')
      (su_bootstrap (files (wz_data_dir w))) = (r, f)" by force
  moreover have "same_setup w (w\<lparr>wz_bootstrap_peers_loaded := False, wz_bootstrap_test_results := [], wz_new_peer_id := [], wz_new_peer_addr := []\<rparr>)"
    by (simp add: same_setup_def)
  ultimately show ?thesis
    using False bootstrap_file_inv [OF assms, of f] same_inv [OF bootstrap_file_inv [OF assms, of f]]
    by (simp add: add_peer_clicked_def Let_def)
qed

lemma count_inv: "setup_inv V d c b files0 s \<Longrightarrow> setup_inv V d c b files0 (apfst (wz_bootstrap_peer_count_update f) s)"
  by (cases s) (simp, erule same_inv, simp add: same_setup_def)

lemma edit_inv:
  "setup_inv V d c b files0 (w, files) \<Longrightarrow> setup_inv V d c b files0 (w\<lparr>wz_new_peer_id := x\<rparr>, files)"
  "setup_inv V d c b files0 (w, files) \<Longrightarrow> setup_inv V d c b files0 (w\<lparr>wz_new_peer_addr := x\<rparr>, files)"
  "setup_inv V d c b files0 (w, files) \<Longrightarrow> setup_inv V d c b files0 (w\<lparr>wz_bootstrap_test_results := rs\<rparr>, files)"
  by (erule same_inv, simp add: same_setup_def)+

lemma return_inv: "setup_inv V d c b files0 (w, files) \<Longrightarrow> wz_step w = ConnectBootstrap \<Longrightarrow> setup_inv V d c b files0 (w\<lparr>wz_step := ChooseRole\<rparr>, files)"
  by (simp add: setup_inv_def)

lemma bootstrap_inv:
  assumes "setup_inv V d c b files0 (w, files)" and "wz_step w = ConnectBootstrap" and "step_bootstrap V event (w, files) = Some s"
    and "b \<or> event \<noteq> AddPeerClicked"
  shows "setup_inv V d c b files0 s"
proof (cases "wz_bootstrap_connected w")
  case True
  then show ?thesis
    using assms(1,2) by (simp add: setup_inv_def)
next
  case False
  with assms(3) obtain v shown where v: "load_peers V (w, files) = Some v" "list_peers v = Some shown"
    by (auto simp: step_bootstrap_def bind_eq_Some_conv)
  note inv = load_peers_inv [OF assms(1) v(1)]
  with assms(2) have "setup_inv V d c b files0 (v, files)" "wz_step v = ConnectBootstrap" by simp_all
  note parts = leave_inv [OF this] add_peer_inv [OF this] return_inv [OF this] count_inv [OF leave_inv [OF this]] edit_inv [OF this(1)] this(1)
  show ?thesis
    using assms(3,4) False v parts by (cases event) (auto simp: step_bootstrap_def simp del: apfst_conv)
qed

lemma frame_inv:
  assumes "setup_inv V d c b files0 (w, files)" and "\<forall>x. event \<noteq> EditDir x" and "\<not> is_complete w" and "wizard_frame V event (w, files) = Some s"
    and "config_keeps (we_config_toml V) c" and "b \<or> event \<noteq> AddPeerClicked"
  shows "setup_inv V d c b files0 s"
  using assms welcome_inv [OF assms(1)] identity_inv [OF assms(1)] role_inv [OF assms(1) _ assms(5)] bootstrap_inv [OF assms(1)]
  by (cases "wz_step w") (auto simp: wizard_frame_def is_complete_def)

lemma frames_inv:
  assumes "wizard_frames V events s = Some s'" and "setup_inv V d c b files0 s" and "\<forall>x. EditDir x \<notin> set events"
    and "config_keeps (we_config_toml V) c" and "b \<or> AddPeerClicked \<notin> set events"
  shows "setup_inv V d c b files0 s'"
  using assms
proof (induction V events s rule: wizard_frames.induct)
  case (2 V event events s)
  show ?case
  proof (cases "is_complete (fst s)")
    case False
    then obtain t where "wizard_frame V event s = Some t" "wizard_frames V events t = Some s'"
      using 2(2) by (auto simp: bind_eq_Some_conv)
    moreover have "setup_inv V d c b files0 t"
      using frame_inv [of V d c b files0 "fst s" "snd s" event t] 2(3-6) False calculation(1) by auto
    ultimately show ?thesis using 2 False by auto
  qed (use 2 in auto)
qed simp

text \<open>C38: When the wizard completes and the directory was chosen before anything else, the chosen directory has the identity
  whose id was shown, and the configuration that loads there is the one that did before (the default when there was none)
  with the role that was selected; there is a bootstrap list, if one can be written, and when no peer was added it is the
  one there was or the default text; and the files of no other directory changed. The configuration there is
  must be readable and writable, and the TOML library must read back what it wrote.\<close>

theorem wizard_completes:
  fixes V :: "('sk, 'vk, 'kp) wizard_env"
  assumes "wizard_frames V (EditDir d # events) (OnboardingState_new system_dir, files) = Some (w, files')"
    and "\<forall>x. EditDir x \<notin> set events" and "is_complete w"
    and "fl_read_error (su_config (files d)) = None" and "fl_write_error (su_config (files d)) = None"
    and "load_config (we_config_toml V) (su_config (files d)) = Ok c" and "config_keeps (we_config_toml V) c"
  shows "wz_data_dir w = d \<and> identity_in V w (su_identity (files' d)) \<and> wz_selected_role w \<in> set wizard_roles \<and>
    load_config (we_config_toml V) (su_config (files' d)) = Ok (set_role (wz_selected_role w) c) \<and>
    (fl_write_error (su_bootstrap (files' d)) = None \<longrightarrow> file_exists (su_bootstrap (files' d))) \<and>
    (AddPeerClicked \<notin> set events \<longrightarrow> su_bootstrap (files' d) =
      (if file_exists (su_bootstrap (files d)) \<or> fl_write_error (su_bootstrap (files d)) \<noteq> None then su_bootstrap (files d)
       else (su_bootstrap (files d))\<lparr>fl_contents := Some default_bootstrap_text\<rparr>)) \<and>
    (\<forall>x. x \<noteq> d \<longrightarrow> files' x = files x)"
proof -
  let ?w = "step_welcome (EditDir d :: 'sk wizard_event) (OnboardingState_new system_dir)"
  have "loads_but_role (we_config_toml V) c (su_config (files d))"
    using assms(4-6) set_role_simps(2) [of c] unfolding loads_but_role_def by metis
  then have start: "setup_inv V d c b files (?w, files)" for b
    by (simp add: setup_inv_def step_welcome_def OnboardingState_new_def Let_def wizard_roles_def bootstrap_left_def)
  moreover have "wizard_frames V events (?w, files) = Some (w, files')"
    using assms(1) by (simp add: is_complete_def OnboardingState_new_def Let_def wizard_frame_def)
  ultimately have left: "setup_inv V d c b files (w, files')" if "b \<or> AddPeerClicked \<notin> set events" for b
    using frames_inv [OF _ start assms(2,7) that] by blast
  from left [of True] left [of False] assms(3) show ?thesis
    by (simp add: setup_inv_def is_complete_def role_in_def bootstrap_left_def bootstrap_written)
qed

section \<open>Paths through the wizard\<close>

lemma save_identity_plain:
  assumes "plain_dir D"
  shows "save_identity X sk c t D = (Ok (), with_files (cl_secret_bytes X sk) c t D)"
  using assms by (simp add: plain_dir_def save_identity_def id_then_def write_key_def write_crt_def write_tls_def write_bin_def with_files_def)

text \<open>Generating replaces whatever identity the directory had.\<close>

lemma generated:
  assumes "plain_dir (su_identity (files (wz_data_dir w)))"
    and "make_cert_and_key (we_certs V) fresh (own_node_id (we_crypto V) (we_certs V) fresh) = Ok (c, t)"
  shows "generate_clicked V fresh (w, files) = Some (w\<lparr>wz_identity_error := [], wz_node_id := own_node_id (we_crypto V) (we_certs V) fresh,
      wz_identity_generated := True\<rparr>, files(wz_data_dir w := (files (wz_data_dir w))\<lparr>su_identity :=
        with_files (cl_secret_bytes (we_certs V) fresh) c t (su_identity (files (wz_data_dir w)))\<rparr>))"
  using assms by (simp add: generate_clicked_def generate_identity_def Let_def save_identity_plain)

lemma those_all: "\<forall>x \<in> set xs. f x \<noteq> None \<Longrightarrow> \<exists>ys. those (map f xs) = Some ys"
  by (induction xs) auto

lemma skipped:
  assumes "\<not> wz_bootstrap_connected w" and "\<not> wz_bootstrap_peers_loaded w"
    and "resolve_bootstrap_peers (we_udp V) (we_bootstrap_toml V) (su_bootstrap (files (wz_data_dir w))) = Ok peers"
    and "\<forall>p \<in> set peers. str_upto 8 (bp_id p) \<noteq> None"
  shows "step_bootstrap V SkipClicked (w, files) = Some (leave_bootstrap
    (w\<lparr>wz_bootstrap_peers := map (\<lambda>p. \<lparr>pi_id = bp_id p, pi_addr = bp_addr p\<rparr>) peers, wz_bootstrap_peers_loaded := True\<rparr>, files))"
proof -
  let ?w = "w\<lparr>wz_bootstrap_peers := map (\<lambda>p. \<lparr>pi_id = bp_id p, pi_addr = bp_addr p\<rparr>) peers, wz_bootstrap_peers_loaded := True\<rparr>"
  have "\<exists>shown. list_peers ?w = Some shown"
    using those_all [of peers "\<lambda>p. map_option (\<lambda>short_id. short_id @ lit '' ('' @ bp_addr p @ lit '')'') (str_upto 8 (bp_id p))"] assms(4)
    by (simp add: list_peers_def comp_def)
  then show ?thesis using assms(1-3) by (auto simp: step_bootstrap_def load_peers_def)
qed

text \<open>A directory that is chosen after the identity was generated gets none: the wizard completes with a directory in which
  there is no more identity than before.\<close>

theorem identity_left_behind:
  assumes "plain_dir (su_identity (files d))" and "d \<noteq> e"
    and "make_cert_and_key (we_certs V) fresh (own_node_id (we_crypto V) (we_certs V) fresh) = Ok (c, t)"
    and "resolve_bootstrap_peers (we_udp V) (we_bootstrap_toml V) (su_bootstrap (files e)) = Ok peers"
    and "\<forall>p \<in> set peers. str_upto 8 (bp_id p) \<noteq> None"
  shows "\<exists>w files'. wizard_frames V [EditDir d, ContinueClicked, GenerateClicked fresh, BackClicked, EditDir e, ContinueClicked,
        ContinueClicked, ContinueClicked, SkipClicked] (OnboardingState_new system_dir, files) = Some (w, files') \<and>
      is_complete w \<and> wz_data_dir w = e \<and> su_identity (files' e) = su_identity (files e) \<and>
      has_identity (su_identity (files' d))"
  using assms
  by (simp add: is_complete_def OnboardingState_new_def Let_def wizard_frame_def step_welcome_def step_identity_def generated step_role_def
      role_page_def skipped leave_bootstrap_def)

text \<open>The straight path, with a role that is picked.\<close>

theorem wizard_straight:
  assumes "plain_dir (su_identity (files d))" and "i < length wizard_roles"
    and "make_cert_and_key (we_certs V) fresh (own_node_id (we_crypto V) (we_certs V) fresh) = Ok (c, t)"
    and "resolve_bootstrap_peers (we_udp V) (we_bootstrap_toml V) (su_bootstrap (files d)) = Ok peers"
    and "\<forall>p \<in> set peers. str_upto 8 (bp_id p) \<noteq> None"
  shows "\<exists>w files'. wizard_frames V [EditDir d, ContinueClicked, GenerateClicked fresh, ContinueClicked, RoleClicked i, ContinueClicked,
        SkipClicked] (OnboardingState_new system_dir, files) = Some (w, files') \<and> is_complete w \<and>
      files' d = \<lparr>su_identity = with_files (cl_secret_bytes (we_certs V) fresh) c t (su_identity (files d)),
        su_config = write_config_with_role (we_config_toml V) (wizard_roles ! i) (su_config (files d)),
        su_bootstrap = write_bootstrap_defaults (su_bootstrap (files d))\<rparr>"
  using assms
  by (simp add: is_complete_def OnboardingState_new_def Let_def wizard_frame_def step_welcome_def step_identity_def generated step_role_def
      role_page_def skipped leave_bootstrap_def)

section \<open>Runs\<close>

definition club_toml :: toml where
  "club_toml = \<lparr>toml_from_str = (\<lambda>_. Ok \<lparr>bt_use_defaults = False, bt_peers = take 1 default_bootstrap_peers\<rparr>), toml_to_string = (\<lambda>_. Err [])\<rparr>"

text \<open>A library that keeps the role and nothing else.\<close>

definition wizard_toml :: config_toml where
  "wizard_toml = \<lparr>cfg_from_str = (\<lambda>s. Ok (set_role (takeWhile (\<lambda>c. c \<noteq> 10) s) DsearchConfig_default)),
     cfg_to_string = (\<lambda>c. Ok (nc_role (cf_node c)))\<rparr>"

lemma wizard_toml_keeps: "config_keeps wizard_toml DsearchConfig_default"
proof -
  have one_line: "trim_end r = r \<and> no_meta r \<and> takeWhile (\<lambda>c. c \<noteq> 10) (r @ meta_section v) = r" if "r \<in> set wizard_roles" for r v
    using that by (auto simp: wizard_roles_def trim_end_def is_whitespace_def no_meta_def meta_section_def lit_def trim_def strip_cr_def)
  then show ?thesis by (auto simp: config_keeps_def wizard_toml_def set_role_def)
qed

definition club_wizard :: "(unit, unit, unit) wizard_env" where
  "club_wizard = \<lparr>we_crypto = sample_crypto, we_certs = sample_certs, we_config_toml = wizard_toml, we_bootstrap_toml = club_toml,
     we_udp = seed_server, we_parse_addr = (\<lambda>_. None), we_connect = (\<lambda>_. Err (lit ''refused''))\<rparr>"

definition club_disk :: disk where
  "club_disk = (\<lambda>_. \<lparr>su_identity = empty_id_dir, su_config = plain_file None, su_bootstrap = plain_file (Some [])\<rparr>)"

lemma club_peers: "resolve_bootstrap_peers (we_udp club_wizard) (we_bootstrap_toml club_wizard) (su_bootstrap (club_disk x)) =
    Ok (take 1 default_bootstrap_peers)" "\<forall>p \<in> set (take 1 default_bootstrap_peers). str_upto 8 (bp_id p) \<noteq> None"
  by (simp_all add: club_wizard_def club_disk_def resolve_bootstrap_peers_def read_bootstrap_toml_def club_toml_def default_bootstrap_peers_def
      lit_def utf8_len_def Let_def)

lemma club_identity: "plain_dir (su_identity (club_disk x))" "make_cert_and_key (we_certs club_wizard) ()
    (own_node_id (we_crypto club_wizard) (we_certs club_wizard) ()) = Ok (map of_nat sample_id, [48])" "\<not> has_identity (su_identity (club_disk x))"
  by (simp_all add: club_disk_def club_wizard_def empty_id_dir own_sample_id sample_cert_made)

theorem wizard_completes_witness:
  "\<exists>w (files' :: disk). is_complete w \<and> identity_in club_wizard w (su_identity (files' (lit ''/d''))) \<and>
     load_config wizard_toml (su_config (files' (lit ''/d''))) = Ok (set_role (wz_selected_role w) DsearchConfig_default)"
proof -
  have two: "1 < length wizard_roles" by (simp add: wizard_roles_def)
  obtain w files' where run: "wizard_frames club_wizard (EditDir (lit ''/d'') # [ContinueClicked, GenerateClicked (), ContinueClicked,
      RoleClicked 1, ContinueClicked, SkipClicked]) (OnboardingState_new None, club_disk) = Some (w, files')" "is_complete w"
    using wizard_straight [of club_disk "lit ''/d''" 1 club_wizard "()", OF club_identity(1) two club_identity(2) club_peers, of None] by blast
  have "\<forall>x. EditDir x \<notin> set [ContinueClicked, GenerateClicked (), ContinueClicked, RoleClicked 1, ContinueClicked, SkipClicked]" by simp
  note whole = wizard_completes [OF run(1) this run(2), of DsearchConfig_default]
  have "load_config wizard_toml (plain_file None) = Ok DsearchConfig_default" by (simp add: load_config_def)
  then show ?thesis
    using whole wizard_toml_keeps run(2) by (auto simp: club_wizard_def club_disk_def plain_file_def)
qed

theorem identity_left_behind_witness:
  "\<exists>events w files'. wizard_frames club_wizard events (OnboardingState_new None, club_disk) = Some (w, files') \<and> is_complete w \<and>
     \<not> has_identity (su_identity (files' (wz_data_dir w)))"
proof -
  have "lit ''/d'' \<noteq> lit ''/e''" by (simp add: lit_def)
  from identity_left_behind [of club_disk "lit ''/d''" "lit ''/e''" club_wizard "()", OF club_identity(1) this club_identity(2) club_peers, of None]
  show ?thesis using club_identity(3) by metis
qed

end
