(* ===== verification/Ui_Api.thy ===== *)
theory Ui_Api
  imports Client
begin

text \<open>
  \<^verbatim>\<open>src/src/ui/async_api.rs\<close>: the thread between the window and the API. The window asks for a path and
  looks for answers in every frame; a worker takes the requests one at a time and makes the calls
  (\<^verbatim>\<open>Client\<close>). The two channels are lists, the oldest message first; the clock is an argument, in
  nanoseconds.
\<close>

section \<open>The state\<close>

record ApiRequest =
  aq_path :: ustr
  aq_data_dir :: ustr

record ApiResponse =
  ar_path :: ustr
  ar_body :: "ustr option"

text \<open>The worker waits, makes a call, or has ended; then both channels are disconnected.\<close>

datatype worker = Waiting | Calling ApiRequest | Ended

record AsyncApi =
  as_requests :: "ApiRequest list"
  as_responses :: "ApiResponse list"
  as_worker :: worker
  as_pending :: "ustr set"
  as_last_request :: "ustr \<rightharpoonup> nat"

definition min_interval :: nat where
  "min_interval = 2 * 10 ^ 9"

definition AsyncApi_new :: AsyncApi where
  "AsyncApi_new = \<lparr>as_requests = [], as_responses = [], as_worker = Waiting, as_pending = {}, as_last_request = (\<lambda>_. None)\<rparr>"

section \<open>The window's side\<close>

text \<open>A send fails when the worker has ended. \<^verbatim>\<open>elapsed\<close> is not negative, like the subtraction.\<close>

definition ensure_requested :: "nat \<Rightarrow> ustr \<Rightarrow> ustr \<Rightarrow> AsyncApi \<Rightarrow> AsyncApi" where
  "ensure_requested now path data_dir A =
     (if path \<in> as_pending A then A
      else if (case as_last_request A path of Some last_time \<Rightarrow> now - last_time < min_interval | None \<Rightarrow> False) then A
      else if as_worker A = Ended then A
      else A\<lparr>as_requests := as_requests A @ [\<lparr>aq_path = path, aq_data_dir = data_dir\<rparr>],
             as_pending := insert path (as_pending A),
             as_last_request := (as_last_request A)(path \<mapsto> now)\<rparr>)"

fun poll_loop :: "ApiResponse list \<Rightarrow> ustr set \<Rightarrow> (ustr \<times> ustr option) list \<Rightarrow> ustr set \<times> (ustr \<times> ustr option) list" where
  "poll_loop [] pending results = (pending, results)"
| "poll_loop (resp # resps) pending results = poll_loop resps (pending - {ar_path resp}) (results @ [(ar_path resp, ar_body resp)])"

definition poll :: "AsyncApi \<Rightarrow> (ustr \<times> ustr option) list \<times> AsyncApi" where
  "poll A = (case poll_loop (as_responses A) (as_pending A) [] of
     (pending, results) \<Rightarrow> (results, A\<lparr>as_responses := [], as_pending := pending\<rparr>))"

section \<open>The worker's side\<close>

definition worker_receives :: "AsyncApi \<Rightarrow> AsyncApi" where
  "worker_receives A = (case (as_worker A, as_requests A) of
     (Waiting, req # reqs) \<Rightarrow> A\<lparr>as_worker := Calling req, as_requests := reqs\<rparr>
   | _ \<Rightarrow> A)"

text \<open>The network and the port file are those at the time of the call; a call that does not return keeps the worker.\<close>

definition worker_answers :: "client_net \<Rightarrow> (ustr \<Rightarrow> text_file) \<Rightarrow> AsyncApi \<Rightarrow> AsyncApi" where
  "worker_answers N port_file A = (case as_worker A of
     Calling req \<Rightarrow>
       (case api_get_from_dir N (port_file (aq_data_dir req)) (aq_path req) of
          Some body \<Rightarrow> A\<lparr>as_worker := Waiting, as_responses := as_responses A @ [\<lparr>ar_path = aq_path req, ar_body = body\<rparr>]\<rparr>
        | None \<Rightarrow> A)
   | _ \<Rightarrow> A)"

text \<open>What is asked for and not yet given to the window, oldest first.\<close>

definition outstanding :: "AsyncApi \<Rightarrow> ustr list" where
  "outstanding A = map ar_path (as_responses A) @ (case as_worker A of Calling req \<Rightarrow> [aq_path req] | _ \<Rightarrow> []) @ map aq_path (as_requests A)"

section \<open>Runs\<close>

text \<open>The window and the worker take their steps in any order. A run is known by the time, the paths sent with their
  times, and the paths whose answers the window got.\<close>

definition sent_now :: "nat \<Rightarrow> ustr \<Rightarrow> AsyncApi \<Rightarrow> AsyncApi \<Rightarrow> (ustr \<times> nat) list" where
  "sent_now now path A A' = (if as_requests A' = as_requests A then [] else [(path, now)])"

inductive async_run :: "nat \<Rightarrow> (ustr \<times> nat) list \<Rightarrow> ustr list \<Rightarrow> AsyncApi \<Rightarrow> bool" where
  started: "async_run now [] [] AsyncApi_new"
| asked: "async_run t sent got A \<Longrightarrow> t \<le> now \<Longrightarrow> A' = ensure_requested now path data_dir A \<Longrightarrow>
    async_run now (sent @ sent_now now path A A') got A'"
| polled: "async_run t sent got A \<Longrightarrow> poll A = (results, A') \<Longrightarrow> async_run t sent (got @ map fst results) A'"
| received: "async_run t sent got A \<Longrightarrow> async_run t sent got (worker_receives A)"
| answered: "async_run t sent got A \<Longrightarrow> async_run t sent got (worker_answers N port_file A)"

text \<open>The requests for a path are at least two seconds apart.\<close>

definition spaced :: "(ustr \<times> nat) list \<Rightarrow> bool" where
  "spaced sent \<longleftrightarrow> sorted_wrt (\<lambda>(p, t) (q, u). p = q \<longrightarrow> t + min_interval \<le> u) sent"

lemma poll_loop: "poll_loop rs pending results =
    (pending - set (map ar_path rs), results @ map (\<lambda>r. (ar_path r, ar_body r)) rs)"
  by (induction rs pending results rule: poll_loop.induct) auto

lemma poll_eq: "poll A = (map (\<lambda>r. (ar_path r, ar_body r)) (as_responses A),
    A\<lparr>as_responses := [], as_pending := as_pending A - set (map ar_path (as_responses A))\<rparr>)"
  by (simp add: poll_def poll_loop)

lemma ensure_cases:
  assumes "A' = ensure_requested now path data_dir A"
  obtains "A' = A"
  | "path \<notin> as_pending A" "\<forall>u. as_last_request A path = Some u \<longrightarrow> u + min_interval \<le> now"
      "A' = A\<lparr>as_requests := as_requests A @ [\<lparr>aq_path = path, aq_data_dir = data_dir\<rparr>],
             as_pending := insert path (as_pending A), as_last_request := (as_last_request A)(path \<mapsto> now)\<rparr>"
  using assms by (auto simp: ensure_requested_def min_interval_def split: if_splits option.splits)

lemma outstanding_worker [simp]:
  "outstanding (worker_receives A) = outstanding A" "outstanding (worker_answers N port_file A) = outstanding A"
  by (auto simp: outstanding_def worker_receives_def worker_answers_def split: worker.splits list.splits option.splits)

lemma worker_keeps [simp]:
  "as_pending (worker_receives A) = as_pending A" "as_pending (worker_answers N port_file A) = as_pending A"
  "as_last_request (worker_receives A) = as_last_request A" "as_last_request (worker_answers N port_file A) = as_last_request A"
  by (auto simp: worker_receives_def worker_answers_def split: worker.splits list.splits option.splits)

text \<open>What holds between frames: the last time a path was sent is recorded, so the requests stay spaced; what is
  outstanding is what is pending, each path once; and the answers come in the order of the requests.\<close>

definition last_sent :: "AsyncApi \<Rightarrow> nat \<Rightarrow> (ustr \<times> nat) list \<Rightarrow> bool" where
  "last_sent A now sent \<longleftrightarrow> (\<forall>p u. (p, u) \<in> set sent \<longrightarrow> (\<exists>v. as_last_request A p = Some v \<and> u \<le> v)) \<and> spaced sent"

definition async_ok :: "AsyncApi \<Rightarrow> (ustr \<times> nat) list \<Rightarrow> ustr list \<Rightarrow> bool" where
  "async_ok A sent got \<longleftrightarrow> map fst sent = got @ outstanding A \<and> distinct (outstanding A) \<and> set (outstanding A) = as_pending A"

lemma spaced_send:
  assumes "last_sent A t sent" and "\<forall>u. as_last_request A path = Some u \<longrightarrow> u + min_interval \<le> now"
  shows "spaced (sent @ [(path, now)])"
proof -
  have "u + min_interval \<le> now" if "(path, u) \<in> set sent" for u
    using assms that unfolding last_sent_def by (meson add_le_mono le_trans order_refl)
  then show ?thesis using assms(1) by (auto simp: spaced_def last_sent_def sorted_wrt_append)
qed

lemma async_run_ok: "async_run t sent got A \<Longrightarrow> last_sent A t sent \<and> async_ok A sent got \<and> (\<forall>p u. as_last_request A p = Some u \<longrightarrow> u \<le> t)"
proof (induction rule: async_run.induct)
  case (started now)
  then show ?case by (simp add: last_sent_def spaced_def async_ok_def AsyncApi_new_def outstanding_def)
next
  case (asked t sent got A now A' path data_dir)
  from asked(3) show ?case
  proof (cases rule: ensure_cases)
    case 1
    then show ?thesis using asked by (fastforce simp: sent_now_def last_sent_def)
  next
    case 2
    then have s: "sent_now now path A A' = [(path, now)]" by (simp add: sent_now_def)
    have "\<exists>v. as_last_request A' p = Some v \<and> u \<le> v" if "(p, u) \<in> set (sent @ [(path, now)])" for p u
      using that asked(1,2,4) 2 unfolding last_sent_def by (auto; metis le_trans option.sel)
    moreover have "spaced (sent @ [(path, now)])" using spaced_send asked(4) 2(2) by blast
    moreover have "async_ok A' (sent @ [(path, now)]) got"
      using asked(4) 2 by (auto simp: async_ok_def outstanding_def split: worker.splits)
    moreover have "\<forall>p u. as_last_request A' p = Some u \<longrightarrow> u \<le> now" using asked(2,4) 2 by (auto intro: le_trans)
    ultimately show ?thesis by (simp add: s last_sent_def)
  qed
next
  case (polled t sent got A results A')
  then have "results = map (\<lambda>r. (ar_path r, ar_body r)) (as_responses A)"
    and "A' = A\<lparr>as_responses := [], as_pending := as_pending A - set (map ar_path (as_responses A))\<rparr>" by (simp_all add: poll_eq)
  then show ?case using polled(3)
    by (auto simp: last_sent_def async_ok_def outstanding_def comp_def split: worker.splits)
qed (simp_all add: last_sent_def async_ok_def)

lemma worker_lasts: "async_run t sent got A \<Longrightarrow> as_worker A \<noteq> Ended"
proof (induction rule: async_run.induct)
  case (asked t sent got A now A' path data_dir)
  then show ?case by (simp add: ensure_requested_def)
qed (auto simp: AsyncApi_new_def poll_eq worker_receives_def worker_answers_def split: worker.splits list.splits option.splits)

text \<open>C37: However the window and the worker interleave: the pending paths are those outstanding, each once; the window
  gets the answers in the order it sent the requests, none lost and none twice; and a path is sent at most once in two
  seconds. The worker lasts as long as the window, so no send fails.\<close>

theorem async_requests_answered:
  assumes "async_run t sent got A"
  shows "map fst sent = got @ outstanding A \<and> distinct (outstanding A) \<and> set (outstanding A) = as_pending A \<and> spaced sent \<and>
    as_worker A \<noteq> Ended"
  using async_run_ok [OF assms] worker_lasts [OF assms] by (simp add: async_ok_def last_sent_def)

section \<open>The worker keeps up\<close>

definition worker_turn :: "client_net \<Rightarrow> (ustr \<Rightarrow> text_file) \<Rightarrow> AsyncApi \<Rightarrow> AsyncApi" where
  "worker_turn N port_file A = worker_answers N port_file (worker_receives A)"

definition answers_every :: "client_net \<Rightarrow> (ustr \<Rightarrow> text_file) \<Rightarrow> bool" where
  "answers_every N port_file \<longleftrightarrow> (\<forall>dir path. api_get_from_dir N (port_file dir) path \<noteq> None)"

text \<open>What the worker has before it.\<close>

definition load :: "AsyncApi \<Rightarrow> nat" where
  "load A = length (as_requests A) + (case as_worker A of Calling _ \<Rightarrow> 1 | _ \<Rightarrow> 0)"

lemma turn_keeps [simp]: "outstanding (worker_turn N port_file A) = outstanding A" "as_pending (worker_turn N port_file A) = as_pending A"
  by (simp_all add: worker_turn_def)

lemma turn_load:
  assumes "answers_every N port_file" and "as_worker A \<noteq> Ended"
  shows "load (worker_turn N port_file A) = load A - 1 \<and> as_worker (worker_turn N port_file A) \<noteq> Ended"
proof -
  have "\<exists>body. api_get_from_dir N (port_file dir) path = Some body" for dir path
    using assms(1) by (auto simp: answers_every_def)
  then have "\<exists>body. as_worker B = Calling req \<longrightarrow> worker_answers N port_file B =
      B\<lparr>as_worker := Waiting, as_responses := as_responses B @ [\<lparr>ar_path = aq_path req, ar_body = body\<rparr>]\<rparr>" for B req
    by (metis (no_types, lifting) option.simps(5) worker.simps(9) worker_answers_def)
  then obtain body where body: "\<And>B req. as_worker B = Calling req \<Longrightarrow> worker_answers N port_file B =
      B\<lparr>as_worker := Waiting, as_responses := as_responses B @ [\<lparr>ar_path = aq_path req, ar_body = body B req\<rparr>]\<rparr>" by metis
  show ?thesis
  proof (cases "as_worker A")
    case Waiting
    then show ?thesis
      by (cases "as_requests A") (simp_all add: worker_turn_def worker_receives_def body load_def, simp add: worker_answers_def)
  qed (use assms(2) in \<open>simp_all add: worker_turn_def worker_receives_def body load_def\<close>)
qed

lemma turns_load:
  assumes "answers_every N port_file" and "as_worker A \<noteq> Ended"
  shows "load ((worker_turn N port_file ^^ n) A) = load A - n \<and> as_worker ((worker_turn N port_file ^^ n) A) \<noteq> Ended \<and>
    outstanding ((worker_turn N port_file ^^ n) A) = outstanding A \<and> as_pending ((worker_turn N port_file ^^ n) A) = as_pending A"
  by (induction n) (use assms in \<open>simp_all add: turn_load\<close>)

text \<open>When the calls return, one turn of the worker for each request, and one for the call it may be in, are enough for
  the window to get every answer it waits for, in order; nothing is pending afterwards.\<close>

theorem worker_catches_up:
  assumes "async_run t sent got A" and "answers_every N port_file"
    and "poll ((worker_turn N port_file ^^ Suc (length (as_requests A))) A) = (results, A')"
  shows "map fst results = outstanding A \<and> as_pending A' = {} \<and> outstanding A' = [] \<and> async_run t sent (map fst sent) A'"
proof -
  let ?n = "Suc (length (as_requests A))"
  let ?B = "(worker_turn N port_file ^^ ?n) A"
  have B: "load ?B = 0" "as_worker ?B \<noteq> Ended" "outstanding ?B = outstanding A" "as_pending ?B = as_pending A"
    using turns_load [OF assms(2) worker_lasts [OF assms(1)], of ?n] by (auto simp: load_def split: worker.splits)
  have idle: "as_requests ?B = []" "as_worker ?B = Waiting"
    using B(1,2) by (cases "as_worker ?B"; simp add: load_def)+
  have results: "map fst results = map ar_path (as_responses ?B)"
    and A': "A' = ?B\<lparr>as_responses := [], as_pending := as_pending ?B - set (map ar_path (as_responses ?B))\<rparr>"
    using assms(3) by (auto simp: poll_eq)
  have all: "map ar_path (as_responses ?B) = outstanding A"
    using B(3) idle by (simp add: outstanding_def)
  have "async_run t sent got ((worker_turn N port_file ^^ m) A)" for m
    by (induction m) (auto simp: worker_turn_def intro: assms(1) received answered)
  then have "async_run t sent (got @ map fst results) A'" using assms(3) polled by blast
  moreover have "map fst sent = got @ outstanding A" "set (outstanding A) = as_pending A"
    using async_run_ok [OF assms(1)] by (simp_all add: async_ok_def)
  moreover have "as_pending A' = set (outstanding A) - set (map ar_path (as_responses ?B))"
    using A' B(4) calculation(3) by simp
  moreover have "outstanding A' = []" using A' idle by (simp add: outstanding_def)
  ultimately show ?thesis by (simp only: results all Diff_cancel simp_thms)
qed

section \<open>A run\<close>

definition down :: client_net where
  "down = \<lparr>cn_connect = (\<lambda>_. Err (lit ''refused'')), cn_write = (\<lambda>_ _. Ok ()), cn_read = (\<lambda>_ _ _. Data [])\<rparr>"

definition two_asked :: AsyncApi where
  "two_asked = ensure_requested 0 (lit ''/storage'') (lit ''/d'') (ensure_requested 0 (lit ''/node'') (lit ''/d'') AsyncApi_new)"

lemma two_asked: "as_requests two_asked = [\<lparr>aq_path = lit ''/node'', aq_data_dir = lit ''/d''\<rparr>, \<lparr>aq_path = lit ''/storage'', aq_data_dir = lit ''/d''\<rparr>]"
    "as_worker two_asked = Waiting" "as_responses two_asked = []" "as_pending two_asked = {lit ''/node'', lit ''/storage''}"
    "async_run 0 [(lit ''/node'', 0), (lit ''/storage'', 0)] [] two_asked"
proof -
  let ?A = "ensure_requested 0 (lit ''/node'') (lit ''/d'') AsyncApi_new"
  show parts: "as_requests two_asked = [\<lparr>aq_path = lit ''/node'', aq_data_dir = lit ''/d''\<rparr>, \<lparr>aq_path = lit ''/storage'', aq_data_dir = lit ''/d''\<rparr>]"
    "as_worker two_asked = Waiting" "as_responses two_asked = []" "as_pending two_asked = {lit ''/node'', lit ''/storage''}"
    by (auto simp: two_asked_def ensure_requested_def AsyncApi_new_def)
  have "async_run 0 ([] @ sent_now 0 (lit ''/node'') AsyncApi_new ?A) [] ?A" by (rule asked [OF started]) simp_all
  then have "async_run 0 [(lit ''/node'', 0)] [] ?A" by (simp add: sent_now_def ensure_requested_def AsyncApi_new_def)
  then have "async_run 0 ([(lit ''/node'', 0)] @ sent_now 0 (lit ''/storage'') ?A two_asked) [] two_asked"
    by (rule asked) (simp_all add: two_asked_def)
  then show "async_run 0 [(lit ''/node'', 0), (lit ''/storage'', 0)] [] two_asked"
    by (simp add: sent_now_def parts) (simp add: ensure_requested_def AsyncApi_new_def)
qed

lemma down_answers: "answers_every down (\<lambda>_. plain_file (Some (lit ''7743'')))"
  by (auto simp: answers_every_def api_get_from_dir_def api_get_def exchange_def down_def split: option.splits)

theorem async_requests_answered_witness: "outstanding two_asked = [lit ''/node'', lit ''/storage''] \<and> spaced [(lit ''/node'', 0), (lit ''/storage'', 0)]"
  using async_requests_answered [OF two_asked(5)] by simp

theorem worker_catches_up_witness:
  "\<exists>results A'. poll ((worker_turn down (\<lambda>_. plain_file (Some (lit ''7743''))) ^^ 3) two_asked) = (results, A') \<and>
     map fst results = [lit ''/node'', lit ''/storage''] \<and> as_pending A' = {}"
proof -
  obtain results A' where p: "poll ((worker_turn down (\<lambda>_. plain_file (Some (lit ''7743''))) ^^ 3) two_asked) = (results, A')" by fastforce
  moreover have "Suc (length (as_requests two_asked)) = 3" "outstanding two_asked = [lit ''/node'', lit ''/storage'']"
    by (simp_all add: two_asked outstanding_def)
  ultimately show ?thesis using worker_catches_up [OF two_asked(5) down_answers, of results A'] by auto
qed

end
