(* ===== verification/Ui_App.thy ===== *)
theory Ui_App
  imports Ui_Settings Ui_Setup Ui_Api
begin

text \<open>
  \<^verbatim>\<open>src/src/ui/mod.rs\<close> and \<^verbatim>\<open>tray.rs\<close>: the window and its tray icon. A frame first takes the answers of the
  API thread into the status bar and asks again (\<open>refresh_status\<close>), then draws the wizard or the panels, then handles
  the tray's menu. Layout, colours and the icon's picture are not modelled.
\<close>

section \<open>The tray\<close>

record TrayState =
  tr_icon :: bool
  tr_paused :: bool
  tr_initialized :: bool
  tr_data_dir :: "ustr option"

definition TrayState_default :: TrayState where
  "TrayState_default = \<lparr>tr_icon = False, tr_paused = False, tr_initialized = False, tr_data_dir = None\<rparr>"

definition set_data_dir :: "ustr \<Rightarrow> TrayState \<Rightarrow> TrayState" where
  "set_data_dir dir t = t\<lparr>tr_data_dir := Some dir\<rparr>"

text \<open>The entries by their ids, with the texts shown; an empty text is a separator.\<close>

definition build_tray_menu :: "bool \<Rightarrow> (ustr \<times> ustr) list" where
  "build_tray_menu paused = [(lit ''open'', lit ''Open DSearch''), ([], []),
     (lit ''pause'', if paused then lit ''Resume Node'' else lit ''Pause Node''), ([], []), (lit ''quit'', lit ''Quit'')]"

text \<open>\<open>built\<close>: whether the system gives an icon.\<close>

definition create_tray :: "bool \<Rightarrow> TrayState \<Rightarrow> TrayState" where
  "create_tray built t = (if built then t\<lparr>tr_icon := True\<rparr> else t)"

text \<open>\<open>shutdown\<close> is \<^verbatim>\<open>node.shutdown\<close> of every directory; a failed write is only logged.\<close>

definition tray_update :: "bool \<Rightarrow> ustr option \<Rightarrow> ustr option \<Rightarrow> TrayState \<times> (ustr \<Rightarrow> text_file) \<Rightarrow> ui_effect list \<times> TrayState \<times> (ustr \<Rightarrow> text_file)" where
  "tray_update built system_dir event = (\<lambda>(t, shutdown).
     let t = (if tr_initialized t then t else create_tray built (t\<lparr>tr_initialized := True\<rparr>))
     in case event of
          None \<Rightarrow> ([], t, shutdown)
        | Some menu_id \<Rightarrow>
            if menu_id = lit ''open'' then ([ShowWindow, FocusWindow], t, shutdown)
            else if menu_id = lit ''pause'' then ([], t\<lparr>tr_paused := \<not> tr_paused t\<rparr>, shutdown)
            else if menu_id = lit ''quit'' then
              (let dir = (case tr_data_dir t of Some d \<Rightarrow> d | None \<Rightarrow> unwrap_or system_dir (lit ''.'') @ lit ''/dsearch'')
               in ([CloseWindow], t, shutdown(dir := snd (write_file (lit ''stop'') (shutdown dir)))))
            else ([], t, shutdown))"

section \<open>The window\<close>

datatype Panel = SearchTab | SettingsTab

record 'f StatusBar =
  sb_role :: ustr
  sb_peers :: nat
  sb_records :: nat
  sb_tier2_size_mb :: 'f
  sb_bandwidth_mbps :: 'f

record 'f DsearchApp =
  da_data_dir :: ustr
  da_node_id :: ustr
  da_api_port :: "u16 option"
  da_onboarding :: "OnboardingState option"
  da_panel :: Panel
  da_search :: SearchPanel
  da_settings :: SettingsPanel
  da_status :: "'f StatusBar"
  da_tray :: TrayState
  da_async_api :: AsyncApi

text \<open>The files of every data directory.\<close>

record app_dir =
  ad_setup :: setup_dir
  ad_keys :: text_file
  ad_providers :: text_file
  ad_port :: text_file
  ad_shutdown :: text_file

type_synonym app_disk = "ustr \<Rightarrow> app_dir"

definition DsearchApp_new :: "'f f64_ops \<Rightarrow> ustr option \<Rightarrow> ustr \<Rightarrow> app_disk \<Rightarrow> 'f DsearchApp" where
  "DsearchApp_new F system_dir data_dir files = \<lparr>da_data_dir = data_dir, da_node_id = [], da_api_port = None,
     da_onboarding = (if bin_exists (id_key (su_identity (ad_setup (files data_dir)))) then None else Some (OnboardingState_new system_dir)),
     da_panel = SearchTab, da_search = SearchPanel_default, da_settings = SettingsPanel_default,
     da_status = \<lparr>sb_role = [], sb_peers = 0, sb_records = 0, sb_tier2_size_mb = f_lit F 0 1, sb_bandwidth_mbps = f_lit F 0 1\<rparr>,
     da_tray = set_data_dir data_dir TrayState_default, da_async_api = AsyncApi_new\<rparr>"

section \<open>The status bar\<close>

definition nat_at :: "string \<Rightarrow> json \<Rightarrow> u64" where
  "nat_at k v = unwrap_or (Option.bind (json_get k v) as_u64) 0"

text \<open>1024 times 1024 bytes are a megabyte.\<close>

definition take_answer :: "json_lib \<Rightarrow> 'f f64_ops \<Rightarrow> ustr \<times> ustr option \<Rightarrow> 'f DsearchApp \<Rightarrow> 'f DsearchApp" where
  "take_answer L F = (\<lambda>(path, body) a.
     case Option.bind body (parsed L) of
       None \<Rightarrow> a
     | Some v \<Rightarrow>
         if path = lit ''/node'' then a\<lparr>da_status := (da_status a)\<lparr>sb_role := str_or ''role'' v ''light'', sb_peers := unat (nat_at ''peers'' v),
           sb_records := unat (nat_at ''records'' v), sb_bandwidth_mbps := f_of_u64 F (nat_at ''bandwidth_limit_mbps'' v)\<rparr>\<rparr>
         else if path = lit ''/storage'' then a\<lparr>da_status := (da_status a)\<lparr>sb_tier2_size_mb :=
           f_div F (f_of_u64 F (nat_at ''size_bytes'' v)) (f_mul F (f_lit F 1024 1) (f_lit F 1024 1))\<rparr>\<rparr>
         else if path = lit ''/health'' then (case get_str ''node_id'' v of Some i \<Rightarrow> a\<lparr>da_node_id := i\<rparr> | None \<Rightarrow> a)
         else a)"

definition status_paths :: "ustr list" where
  "status_paths = [lit ''/node'', lit ''/storage'', lit ''/health'']"

definition refresh_status :: "json_lib \<Rightarrow> 'f f64_ops \<Rightarrow> nat \<Rightarrow> app_disk \<Rightarrow> 'f DsearchApp \<Rightarrow> 'f DsearchApp" where
  "refresh_status L F now files a =
     (let (answers, async) = poll (da_async_api a);
          a = fold (take_answer L F) answers a
      in a\<lparr>da_async_api := fold (\<lambda>path. ensure_requested now path (da_data_dir a)) status_paths async,
           da_api_port := read_api_port (ad_port (files (da_data_dir a)))\<rparr>)"

section \<open>A frame\<close>

text \<open>What the user does in a frame, and what a frame is given: the wizard's and the settings' environments, whether
  the system has a tray, the menu entry clicked, and the texts of the two numbers of the status bar.\<close>

datatype 'sk app_event = InWizard "'sk wizard_event" | PanelPicked Panel | InSearch search_event | InSettings settings_event | NoEvent

record ('sk, 'vk, 'kp, 'f) app_env =
  ax_wizard :: "('sk, 'vk, 'kp) wizard_env"
  ax_settings :: "('sk, 'vk) settings_env"
  ax_tray_built :: bool
  ax_system_dir :: "ustr option"
  ax_menu :: "ustr option"
  ax_decimals :: "nat \<Rightarrow> 'f \<Rightarrow> ustr"

definition status_text :: "('sk, 'vk, 'kp, 'f) app_env \<Rightarrow> 'f DsearchApp \<Rightarrow> ustr list" where
  "status_text V a = (let s = da_status a in
     [lit ''Role: '' @ sb_role s, lit ''Peers: '' @ to_dec (sb_peers s), lit ''Records: '' @ to_dec (sb_records s),
      lit ''Tier 2: '' @ ax_decimals V 1 (sb_tier2_size_mb s) @ lit '' MB'',
      lit ''Bandwidth limit: '' @ ax_decimals V 0 (sb_bandwidth_mbps s) @ lit '' Mbps'', [128193, 32] @ da_data_dir a])"

definition nav_text :: "'f DsearchApp \<Rightarrow> ustr list option" where
  "nav_text a = (if da_node_id a = [] then Some []
     else map_option (\<lambda>short_id. [lit ''Node: '' @ short_id @ [8230]]) (str_upto 8 (da_node_id a)))"

definition wizard_ui :: "('sk, 'vk, 'kp) wizard_env \<Rightarrow> 'sk wizard_event \<Rightarrow> OnboardingState \<Rightarrow> 'f DsearchApp \<times> app_disk
    \<Rightarrow> ('f DsearchApp \<times> app_disk) option" where
  "wizard_ui W event w = (\<lambda>(a, files).
     map_option (\<lambda>(w, setups).
         (if is_complete w
          then a\<lparr>da_data_dir := wz_data_dir w, da_onboarding := None, da_tray := set_data_dir (wz_data_dir w) (da_tray a)\<rparr>
          else a\<lparr>da_onboarding := Some w\<rparr>, \<lambda>x. (files x)\<lparr>ad_setup := setups x\<rparr>))
       (wizard_frame W event (w, \<lambda>x. ad_setup (files x))))"

definition files_of :: "app_dir \<Rightarrow> settings_files" where
  "files_of d = \<lparr>fs_keys = ad_keys d, fs_config = su_config (ad_setup d), fs_providers = ad_providers d, fs_bootstrap = su_bootstrap (ad_setup d)\<rparr>"

definition with_settings :: "settings_files \<Rightarrow> app_dir \<Rightarrow> app_dir" where
  "with_settings fs d = d\<lparr>ad_keys := fs_keys fs, ad_providers := fs_providers fs,
     ad_setup := (ad_setup d)\<lparr>su_config := fs_config fs, su_bootstrap := fs_bootstrap fs\<rparr>\<rparr>"

definition panel_ui :: "('sk, 'vk, 'kp, 'f) app_env \<Rightarrow> 'sk app_event \<Rightarrow> 'f DsearchApp \<times> app_disk
    \<Rightarrow> (ustr list \<times> ui_effect list \<times> 'f DsearchApp \<times> app_disk) option" where
  "panel_ui V event = (\<lambda>(a, files).
     let X = (ax_settings V)\<lparr>sx_data_dir := da_data_dir a\<rparr>; dir = da_data_dir a
     in case da_panel a of
          SearchTab \<Rightarrow> map_option (\<lambda>(texts, effects, p). (texts, effects, a\<lparr>da_search := p\<rparr>, files))
            (search_ui (sx_json X) (sx_get X) (case event of InSearch e \<Rightarrow> e | _ \<Rightarrow> QueryUntouched) (da_search a))
        | SettingsTab \<Rightarrow> map_option (\<lambda>(texts, effects, p, fs). (texts, effects, a\<lparr>da_settings := p\<rparr>, files(dir := with_settings fs (files dir))))
            (settings_ui X (case event of InSettings e \<Rightarrow> e | _ \<Rightarrow> NoClick) (da_settings a, files_of (files dir))))"

definition tray_ui :: "('sk, 'vk, 'kp, 'f) app_env \<Rightarrow> 'f DsearchApp \<times> app_disk \<Rightarrow> ui_effect list \<times> 'f DsearchApp \<times> app_disk" where
  "tray_ui V = (\<lambda>(a, files). case tray_update (ax_tray_built V) (ax_system_dir V) (ax_menu V) (da_tray a, \<lambda>x. ad_shutdown (files x)) of
     (effects, t, shutdown) \<Rightarrow> (effects, a\<lparr>da_tray := t\<rparr>, \<lambda>x. (files x)\<lparr>ad_shutdown := shutdown x\<rparr>))"

definition app_ui :: "('sk, 'vk, 'kp, 'f) app_env \<Rightarrow> 'sk app_event \<Rightarrow> 'f DsearchApp \<times> app_disk
    \<Rightarrow> (ustr list \<times> ui_effect list \<times> 'f DsearchApp \<times> app_disk) option" where
  "app_ui V event = (\<lambda>(a, files). case da_onboarding a of
     Some w \<Rightarrow> map_option (\<lambda>s. ([], [], s)) (wizard_ui (ax_wizard V) (case event of InWizard e \<Rightarrow> e | _ \<Rightarrow> Nothing) w (a, files))
   | None \<Rightarrow>
       let a = (case event of PanelPicked p \<Rightarrow> a\<lparr>da_panel := p\<rparr> | _ \<Rightarrow> a)
       in Option.bind (nav_text a) (\<lambda>nav.
          map_option (\<lambda>(texts, effects, a, files). case tray_ui V (a, files) of
              (effects', s) \<Rightarrow> (nav @ status_text V a @ texts, effects @ effects', s))
            (panel_ui V event (a, files))))"

definition app_frame :: "'f f64_ops \<Rightarrow> ('sk, 'vk, 'kp, 'f) app_env \<Rightarrow> nat \<Rightarrow> 'sk app_event \<Rightarrow> 'f DsearchApp \<times> app_disk
    \<Rightarrow> (ustr list \<times> ui_effect list \<times> 'f DsearchApp \<times> app_disk) option" where
  "app_frame F V now event = (\<lambda>(a, files). app_ui V event (refresh_status (sx_json (ax_settings V)) F now files a, files))"

section \<open>Runs of the window\<close>

text \<open>Between frames the worker of the API thread takes its steps, and other programs change the files. The time is that
  of the last frame.\<close>

inductive app_run :: "'f f64_ops \<Rightarrow> ('sk, 'vk) crypto \<Rightarrow> 'kp itself \<Rightarrow> nat \<Rightarrow> 'f DsearchApp \<Rightarrow> bool" for F K K' where
  opened: "app_run F K K' t (DsearchApp_new F system_dir data_dir files)"
| framed: "app_run F K K' t a \<Longrightarrow> t \<le> now \<Longrightarrow> sx_crypto (ax_settings (V :: ('sk, 'vk, 'kp, 'f) app_env)) = K \<Longrightarrow>
    app_frame F V now event (a, files) = Some (texts, effects, a', files') \<Longrightarrow> app_run F K K' now a'"
| worked: "app_run F K K' t a \<Longrightarrow> A = worker_receives (da_async_api a) \<or> A = worker_answers N port_file (da_async_api a) \<Longrightarrow>
    app_run F K K' t (a\<lparr>da_async_api := A\<rparr>)"

lemma take_answer_keeps [simp]:
  "da_async_api (take_answer L F r a) = da_async_api a" "da_data_dir (take_answer L F r a) = da_data_dir a"
  "da_tray (take_answer L F r a) = da_tray a" "da_onboarding (take_answer L F r a) = da_onboarding a"
  by (cases r; simp add: take_answer_def split: option.split)+

lemma take_answers_keep [simp]:
  "da_async_api (fold (take_answer L F) rs a) = da_async_api a" "da_data_dir (fold (take_answer L F) rs a) = da_data_dir a"
  "da_tray (fold (take_answer L F) rs a) = da_tray a" "da_onboarding (fold (take_answer L F) rs a) = da_onboarding a"
  by (induction rs arbitrary: a) simp_all

lemma refresh_keeps [simp]:
  "da_data_dir (refresh_status L F now files a) = da_data_dir a" "da_tray (refresh_status L F now files a) = da_tray a"
  "da_onboarding (refresh_status L F now files a) = da_onboarding a"
  by (simp_all add: refresh_status_def Let_def split: prod.split)

text \<open>A frame after its refresh leaves the API thread alone, and keeps the tray's directory the application's.\<close>

definition tray_follows :: "'f DsearchApp \<Rightarrow> bool" where
  "tray_follows a \<longleftrightarrow> tr_data_dir (da_tray a) = Some (da_data_dir a)"

lemma tray_update_keeps: "tray_update built system_dir event (t, shutdown) = (effects, t', shutdown') \<Longrightarrow> tr_data_dir t' = tr_data_dir t"
  by (auto simp: tray_update_def create_tray_def Let_def split: option.splits if_splits)

lemma tray_ui_keeps: "tray_ui V (a, files) = (effects, a', files') \<Longrightarrow>
    da_async_api a' = da_async_api a \<and> da_data_dir a' = da_data_dir a \<and> tr_data_dir (da_tray a') = tr_data_dir (da_tray a)"
  by (auto simp: tray_ui_def split: prod.splits dest: tray_update_keeps)

lemma panel_ui_keeps: "panel_ui V event (a, files) = Some (texts, effects, a', files') \<Longrightarrow>
    da_async_api a' = da_async_api a \<and> da_data_dir a' = da_data_dir a \<and> da_tray a' = da_tray a"
  by (auto simp: panel_ui_def Let_def split: Panel.splits)

lemma app_ui_panels:
  assumes "app_ui V event (a, files) = Some (texts, effects, a', files')" and "da_onboarding a = None"
  obtains ts es b fs es' where "panel_ui V event (case event of PanelPicked p \<Rightarrow> a\<lparr>da_panel := p\<rparr> | _ \<Rightarrow> a, files) = Some (ts, es, b, fs)"
    "tray_ui V (b, fs) = (es', a', files')" "effects = es @ es'"
proof -
  let ?a = "case event of PanelPicked p \<Rightarrow> a\<lparr>da_panel := p\<rparr> | _ \<Rightarrow> a"
  from assms obtain nav r where "nav_text ?a = Some nav" and r: "panel_ui V event (?a, files) = Some r"
    and whole: "(case r of (ts, es, b, fs) \<Rightarrow> case tray_ui V (b, fs) of (es', s) \<Rightarrow> (nav @ status_text V b @ ts, es @ es', s)) = (texts, effects, a', files')"
    by (auto simp: app_ui_def Let_def bind_eq_Some_conv simp del: split_paired_All split_paired_Ex)
  obtain ts es b fs where parts: "r = (ts, es, b, fs)" by (cases r)
  obtain es' s where tray: "tray_ui V (b, fs) = (es', s)" by (cases "tray_ui V (b, fs)")
  show thesis using that [of ts es b fs es'] r whole parts tray by simp
qed

lemma app_ui_keeps:
  assumes "app_ui V event (a, files) = Some (texts, effects, a', files')" and "tray_follows a"
  shows "da_async_api a' = da_async_api a \<and> tray_follows a'"
proof (cases "da_onboarding a")
  case (Some w)
  then show ?thesis using assms
    by (auto simp: app_ui_def wizard_ui_def tray_follows_def set_data_dir_def split: if_splits)
next
  case None
  let ?a = "case event of PanelPicked p \<Rightarrow> a\<lparr>da_panel := p\<rparr> | _ \<Rightarrow> a"
  have a: "da_async_api ?a = da_async_api a" "da_data_dir ?a = da_data_dir a" "da_tray ?a = da_tray a"
    by (cases event; simp)+
  obtain ts es b fs es' where panel: "panel_ui V event (?a, files) = Some (ts, es, b, fs)" and "tray_ui V (b, fs) = (es', a', files')"
    using app_ui_panels [OF assms(1) None] by metis
  then show ?thesis
    using panel_ui_keeps [OF panel] tray_ui_keeps [of V b fs es' a' files'] a assms(2) by (auto simp: tray_follows_def)
qed

text \<open>The thread's state is that of a run so far, and only the status paths are pending.\<close>

definition asks_status :: "nat \<Rightarrow> AsyncApi \<Rightarrow> bool" where
  "asks_status now A \<longleftrightarrow> (\<exists>t \<le> now. \<exists>sent got. async_run t sent got A) \<and> as_pending A \<subseteq> set status_paths"

lemma asks_one:
  assumes "asks_status now A" and "path \<in> set status_paths"
  shows "asks_status now (ensure_requested now path dir A)"
proof -
  obtain t sent got where "t \<le> now" "async_run t sent got A" using assms(1) by (auto simp: asks_status_def)
  from asked [OF this(2,1) refl] have "\<exists>sent'. async_run now sent' got (ensure_requested now path dir A)" by blast
  moreover have "as_pending (ensure_requested now path dir A) \<subseteq> insert path (as_pending A)" by (auto simp: ensure_requested_def)
  ultimately show ?thesis using assms unfolding asks_status_def by blast
qed

lemma asks_all: "asks_status now A \<Longrightarrow> set paths \<subseteq> set status_paths \<Longrightarrow> asks_status now (fold (\<lambda>path. ensure_requested now path dir) paths A)"
  by (induction paths arbitrary: A) (simp_all add: asks_one)

lemma asks_poll: "asks_status now A \<Longrightarrow> asks_status now (snd (poll A))"
proof -
  assume A: "asks_status now A"
  obtain results A' where "poll A = (results, A')" by force
  moreover have "as_pending (snd (poll A)) \<subseteq> as_pending A" by (auto simp: poll_eq)
  ultimately show ?thesis using A polled unfolding asks_status_def by fastforce
qed

lemma asks_later: "asks_status t A \<Longrightarrow> t \<le> now \<Longrightarrow> asks_status now A"
  unfolding asks_status_def by (meson le_trans)

lemma asks_refresh: "asks_status now (da_async_api a) \<Longrightarrow> asks_status now (da_async_api (refresh_status L F now files a))"
  using asks_poll [of now "da_async_api a"] by (cases "poll (da_async_api a)") (simp add: refresh_status_def Let_def asks_all)

lemma app_run_ok: "app_run F K K' t a \<Longrightarrow> asks_status t (da_async_api a) \<and> tray_follows a"
proof (induction rule: app_run.induct)
  case (opened t system_dir data_dir files)
  show ?case
    using started by (auto simp: asks_status_def DsearchApp_new_def tray_follows_def set_data_dir_def AsyncApi_new_def)
next
  case (framed t a now V event files texts effects a' files')
  let ?r = "refresh_status (sx_json (ax_settings V)) F now files a"
  have "app_ui V event (?r, files) = Some (texts, effects, a', files')" using framed(4) by (simp add: app_frame_def)
  moreover have "tray_follows ?r" using framed(5) by (simp add: tray_follows_def)
  moreover have "asks_status now (da_async_api ?r)" using framed(2,5) asks_later asks_refresh by blast
  ultimately show ?case using app_ui_keeps by metis
next
  case (worked t a A N port_file)
  then show ?case
    by (auto simp: asks_status_def tray_follows_def intro: received answered)
qed

text \<open>However long the window runs: its requests are those of the status bar, never more than three at once, a path not
  twice at the same time.\<close>

theorem status_requests_bounded:
  assumes "app_run F K K' t a"
  shows "length (outstanding (da_async_api a)) \<le> 3 \<and> distinct (outstanding (da_async_api a)) \<and> set (outstanding (da_async_api a)) \<subseteq> set status_paths"
proof -
  obtain u sent got where run: "async_run u sent got (da_async_api a)" and "as_pending (da_async_api a) \<subseteq> set status_paths"
    using app_run_ok [OF assms] by (auto simp: asks_status_def)
  then have d: "distinct (outstanding (da_async_api a))" "set (outstanding (da_async_api a)) \<subseteq> set status_paths"
    using async_run_ok [OF run] by (simp_all add: async_ok_def)
  then have "length (outstanding (da_async_api a)) \<le> card (set status_paths)"
    by (metis List.finite_set card_mono distinct_card)
  also have "\<dots> \<le> 3" using card_length [of status_paths] by (simp add: status_paths_def)
  finally show ?thesis using d by simp
qed

text \<open>Quitting from the tray asks the node of the window's directory to stop, whichever directory the wizard chose, and
  closes the window; no other node is told.\<close>

theorem quit_signals_node:
  assumes "app_run F K K' t a" and "t \<le> now" and "da_onboarding a = None" and "ax_menu V = Some (lit ''quit'')"
    and "app_frame F V now event (a, files) = Some (texts, effects, a', files')"
  shows "CloseWindow \<in> set effects \<and>
    (fl_write_error (ad_shutdown (files (da_data_dir a))) = None \<longrightarrow> fl_contents (ad_shutdown (files' (da_data_dir a))) = Some (lit ''stop'')) \<and>
    (\<forall>x. x \<noteq> da_data_dir a \<longrightarrow> ad_shutdown (files' x) = ad_shutdown (files x))"
proof -
  let ?r = "refresh_status (sx_json (ax_settings V)) F now files a"
  let ?a = "case event of PanelPicked p \<Rightarrow> ?r\<lparr>da_panel := p\<rparr> | _ \<Rightarrow> ?r"
  have a: "da_data_dir ?a = da_data_dir a" "da_tray ?a = da_tray a" by (cases event; simp)+
  have ui: "app_ui V event (?r, files) = Some (texts, effects, a', files')" using assms(5) by (simp add: app_frame_def)
  have none: "da_onboarding ?r = None" using assms(3) by simp
  obtain ts es b fs es' where panel: "panel_ui V event (?a, files) = Some (ts, es, b, fs)" and tray: "tray_ui V (b, fs) = (es', a', files')"
    and effects: "effects = es @ es'"
    using app_ui_panels [OF ui none] by metis
  have same: "ad_shutdown (fs x) = ad_shutdown (files x)" for x
    using panel by (auto simp: panel_ui_def Let_def with_settings_def split: Panel.splits)
  have dir: "tr_data_dir (da_tray b) = Some (da_data_dir a)"
    using panel_ui_keeps [OF panel] a app_run_ok [OF assms(1)] by (simp add: tray_follows_def)
  have "(es', da_tray a', \<lambda>x. ad_shutdown (files' x)) =
      tray_update (ax_tray_built V) (ax_system_dir V) (Some (lit ''quit'')) (da_tray b, \<lambda>x. ad_shutdown (fs x))"
    using tray assms(4) by (auto simp: tray_ui_def split: prod.splits)
  then have "es' = [CloseWindow] \<and> (\<lambda>x. ad_shutdown (files' x)) = (\<lambda>x. ad_shutdown (fs x))
      (da_data_dir a := snd (write_file (lit ''stop'') (ad_shutdown (fs (da_data_dir a)))))"
    using dir by (auto simp: tray_update_def create_tray_def Let_def lit_Cons split: if_splits)
  then have "es' = [CloseWindow]" and changed: "(\<lambda>x. ad_shutdown (files' x)) = (\<lambda>x. ad_shutdown (fs x))
      (da_data_dir a := snd (write_file (lit ''stop'') (ad_shutdown (fs (da_data_dir a)))))" by blast+
  moreover note changed [THEN fun_cong]
  ultimately have "es' = [CloseWindow]" "ad_shutdown (files' y) = (if y = da_data_dir a then snd (write_file (lit ''stop'') (ad_shutdown (files y)))
      else ad_shutdown (files y))" for y by (simp_all add: same)
  then show ?thesis using effects by (simp add: write_file_def)
qed

text \<open>Pausing changes the menu's text and nothing else: the node is not told.\<close>

theorem pause_changes_menu_only:
  assumes "ax_menu V = Some (lit ''pause'')" and "tr_initialized (da_tray a)"
  shows "tray_ui V (a, files) = ([], a\<lparr>da_tray := (da_tray a)\<lparr>tr_paused := \<not> tr_paused (da_tray a)\<rparr>\<rparr>, files)"
  using assms by (simp add: tray_ui_def tray_update_def Let_def lit_Cons)

section \<open>The node in the status bar\<close>

text \<open>Whatever node answers, the bar shows its role, and no peers.\<close>

theorem status_shows_node:
  assumes "handle_node E S = (Ok resp, S')" and "\<forall>v. parsed L (json_text (ae_json E) v) = Some v"
  shows "\<exists>body. rp_body resp = utf8 body \<and>
    sb_role (da_status (take_answer L F (lit ''/node'', Some body) a)) = nc_role (cf_node (ae_config E)) \<and>
    sb_peers (da_status (take_answer L F (lit ''/node'', Some body) a)) = 0 \<and>
    (\<forall>n. store_record_count (ae_redb E) (ap_store S) = Ok n \<longrightarrow> sb_records (da_status (take_answer L F (lit ''/node'', Some body) a)) = unat n)"
proof -
  obtain n where n: "ok_or (store_record_count (ae_redb E) (ap_store S)) 0 = Ok n"
    using assms(1) by (auto simp: handle_node_def answer_def ok_or_def split: result.splits)
  let ?v = "JObj [(lit ''bandwidth_limit_mbps'', json_nat (unat (rc_bandwidth_limit_mbps (cf_relay (ae_config E))))),
       (lit ''node_id'', JStr (ae_node_id E)), (lit ''peers'', json_nat 0),
       (lit ''protocol_version'', json_nat (unat (nc_min_protocol_version (cf_node (ae_config E))))),
       (lit ''records'', json_nat (unat n)), (lit ''role'', JStr (nc_role (cf_node (ae_config E))))]"
  have "rp_body resp = utf8 (json_text (ae_json E) ?v)"
    using assms(1) n by (auto simp: handle_node_def answer_def ok_json_def with_node_headers_def add_header_def HttpResponse_json_def as_json_def
        HttpResponse_ok_def HttpResponse_new_def)
  moreover have "get_str ''role'' ?v = Some (nc_role (cf_node (ae_config E)))" "json_get ''peers'' ?v = Some (json_nat 0)"
      "json_get ''records'' ?v = Some (json_nat (unat n))"
    by (simp_all add: get_str_def lit_Cons)
  moreover have "as_u64 (json_nat (unat m)) = Some m" for m :: u64
  proof -
    have "unat m \<le> 2 ^ 64 - 1" using unsigned_less [where 'a = nat, of m] by simp
    then show ?thesis by (simp add: json_nat_def parse_digits_to_dec)
  qed
  moreover have "as_u64 (json_nat 0) = Some 0" using calculation(5) [of 0] by simp
  moreover have "store_record_count (ae_redb E) (ap_store S) = Ok k \<Longrightarrow> k = n" for k using n by (simp add: ok_or_def)
  ultimately show ?thesis
    using assms(2) by (intro exI [of _ "json_text (ae_json E) ?v"]) (auto simp: take_answer_def str_or_def nat_at_def simp del: json_get.simps)
qed

end
