(* ===== verification/Spec2Isabelle.thy ===== *)
theory Spec2Isabelle
  imports Url Pow Wire Sanitize Store Handshake Stun Dns Config Sandbox Job Scheduler Routes Client Gateway Command_Laws Node_Laws Commands_Start Doctor Commands_Windows Ui_App
begin

text \<open>
  DSearch is a peer-to-peer search node: it scrapes pages and feeds into signed records, stores and indexes
  them in an embedded database, exchanges them with other nodes over QUIC, and serves searches to an HTTP API,
  to a public gateway, to a command line and to a window. These theories model the Rust program under
  \<^verbatim>\<open>src/src\<close> function by function; a definition has the name of the function it translates where Isabelle
  allows it. This theory holds no definitions: it collects the others.

  \<^bold>\<open>Conventions\<close> (\<open>Prelude\<close>, \<open>Text\<close>, \<open>Bytes\<close>, \<open>Utf8\<close>, \<open>Disk\<close>, \<open>Packet\<close>, \<open>Json\<close>). A Rust string is a list of Unicode
  scalar values (\<open>ustr\<close>), with its length and its slices in UTF-8 bytes; machine integers are words of their
  width, and wrap as a release build does. A call returns \<open>Ok\<close>, \<open>Err\<close> or \<open>Panic\<close>: every slice, index,
  \<^verbatim>\<open>unwrap\<close> and \<^verbatim>\<open>unreachable!\<close> that can panic is a branch. Structs are records, enums are datatypes, hash maps
  whose order is left open are lists of entries with distinct keys, sorted maps are lists in key order. State is passed
  explicitly: an operation gives its result and the state after it, also when it fails. A file is its contents
  together with the errors the system gives instead of reading and writing it.

  \<^bold>\<open>Data and trust.\<close> \<open>Model\<close> is \<^verbatim>\<open>model.rs\<close>. \<open>Sign\<close> and \<open>Url\<close> are \<^verbatim>\<open>trust/sign.rs\<close> and \<^verbatim>\<open>verify.rs\<close>: canonical bytes,
  signatures, content addresses and source hashes; their lemmas show that the encoding is unambiguous and what
  two addresses of one source may differ in. \<open>Pow\<close> is \<^verbatim>\<open>trust/pow.rs\<close>: the comparison with the threshold is the count of
  leading zero bits, and mining ends at the largest nonce by its measure. \<open>Sanitize\<close> is \<^verbatim>\<open>sanitize.rs\<close>. \<open>Cert\<close> is
  \<^verbatim>\<open>proto/cert.rs\<close>: the identity's files, the certificate made from a key, and the check of a peer's: two
  certificates accepted under one node id are of one key.

  \<^bold>\<open>Storage.\<close> \<open>Redb\<close> states what the database crate promises, with an instance in memory. \<open>Migrations\<close>, \<open>Records\<close>,
  \<open>Quota\<close>, \<open>Index\<close>, \<open>Limits\<close>, \<open>Cache\<close> and \<open>Query\<close> model the files of \<^verbatim>\<open>storage\<close> and \<^verbatim>\<open>search\<close> (and \<^verbatim>\<open>node/relay.rs\<close>); \<open>Dedup\<close> and
  \<open>Expiry\<close> state what the record operations mean for the map of stored records: an insert keeps the newest copy of each
  source, a sweep removes exactly what has expired and is not pinned, an eviction takes the oldest first. \<open>Store\<close> is
  \<^verbatim>\<open>storage/mod.rs\<close>, where these meet: \<open>store_step\<close> is any of its public calls, and \<open>store_inv\<close> the invariant all
  of them keep, whatever database operation fails.

  \<^bold>\<open>Network.\<close> \<open>Wire\<close> is the frame format of \<^verbatim>\<open>proto\<close>; \<open>Dht\<close> the routing table and the roles; \<open>Server\<close> is \<^verbatim>\<open>node/server.rs\<close>,
  \<^verbatim>\<open>announce.rs\<close> and \<^verbatim>\<open>scraper/replicate.rs\<close>: one definition per message handler, the loop of a connection, and \<open>node_step\<close>,
  which interleaves connections, frames, timers and API calls in any order; \<open>Handshake\<close> connects two nodes by the
  bytes they write. \<open>Stun\<close> is \<^verbatim>\<open>node/stun.rs\<close> and \<^verbatim>\<open>autonat.rs\<close>, \<open>Dns\<close> is \<^verbatim>\<open>bootstrap\<close>.

  \<^bold>\<open>Scraping and configuration.\<close> \<open>Fetch\<close>, \<open>Base64\<close>, \<open>Feed\<close>, \<open>Job\<close>, \<open>Sandbox\<close>, \<open>Providers\<close> and \<open>Scheduler\<close> model \<^verbatim>\<open>scraper\<close>; \<open>sched_step\<close> is a
  tick of the scheduler with whatever network and clock it meets, and \<open>sched_runs\<close> a sequence of them with the times at which a job is run. \<open>Config\<close> is \<^verbatim>\<open>config\<close>, with \<open>config_view\<close>, the keys and
  the text of their values, as its abstraction.

  \<^bold>\<open>HTTP.\<close> \<open>Http\<close> parses requests and writes responses, \<open>Messages\<close> has the round trips between them, \<open>Openapi\<close> is the
  document the node serves. \<open>Api\<close> has one definition per handler of \<^verbatim>\<open>api/handlers.rs\<close> and the table of routes; \<open>Routes\<close> shows that
  every request leaves the store as a sequence of \<open>store_step\<close> would, and what the requests about a record do to the library, the
  stored records with the set of pinned ids (\<open>library_of\<close>, \<open>spec_request\<close>). \<open>Local\<close> and \<open>Gateway\<close> are the two servers, \<open>Client\<close> is
  \<^verbatim>\<open>cli/api_client.rs\<close>, and shows what arrives at either end.

  \<^bold>\<open>Command line.\<close> \<open>Commands\<close>, \<open>Commands_Peers\<close>, \<open>Commands_Records\<close>, \<open>Commands_Node\<close>, \<open>Commands_Start\<close>, \<open>Commands_Windows\<close>, \<open>Service\<close> and
  \<open>Doctor\<close> model \<^verbatim>\<open>main.rs\<close>, \<^verbatim>\<open>service\<close> and \<^verbatim>\<open>doctor\<close>: a command gives the lines it prints, how it ends, and the files and
  the store after it. \<open>Command_Laws\<close> compares the two ways of a command, through the running node, which signs, and by opening the database, without
  its key; \<open>Node_Laws\<close>
  is about the identity, the log and stopping; \<open>Commands_Start\<close> composes the start of a node from the parts above.

  \<^bold>\<open>Window.\<close> \<open>Ui_Api\<close> is the thread between the window and the API (\<open>async_run\<close> interleaves the two), \<open>Ui_Setup\<close> the wizard of
  the first start, \<open>Ui_Search\<close> and \<open>Ui_Settings\<close> the panels, \<open>Ui_App\<close> the window with its tray. A frame handles at most one
  click or edit and gives the texts it shows and what it asks of the system.

  \<^bold>\<open>Interfaces.\<close> \<open>name_codec\<close> (\<open>Model\<close>) is the contract of an enumeration with its names, interpreted on the roles, the message types
  and the enumerations of the model. \<open>window_limiter\<close> (\<open>Limits\<close>) is that of a budget per key and time window,
  interpreted on the announcement and the relay limiter. \<open>record_sink\<close> (\<open>Job\<close>) is what a scraper job needs of
  the place it inserts into, interpreted on the store with its invariant and on the reachable stores.

  \<^bold>\<open>Parameters.\<close> Code that is not in the repository is an argument: the database (\<open>redb\<close>, laws \<open>redb_laws\<close>), serialisation
  (\<open>serde\<close>, \<open>json_lib\<close>, \<open>toml\<close>, \<open>config_toml\<close>, \<open>codec\<close>), cryptography (\<open>crypto\<close>), certificates (\<open>cert_lib\<close>), UDP and TCP, the HTTP
  client, operations on floats, the programs of the operating system, clocks, and case mapping. The laws state documented
  behaviour: what is committed is read back, what is serialised parses back, a signature verifies under its key.
  \<open>Sample_Serde\<close>, \<open>Sample_Json\<close>, \<open>Sample_Api\<close> and the \<open>sample_\<close> definitions instantiate them for the concrete runs that accompany
  the theorems with hypotheses.

  \<^bold>\<open>Loops.\<close> Loops over data recurse on it, the others have a measure; none uses fuel. The client's reading of
  a response, which the server may never end, is a partial function that gives nothing then, and \<open>Client\<close> shows when it ends. Loops that wait for the world (a message
  loop, the scheduler, following the log, waiting for a signal) recurse on the list of what they meet, one entry per turn, and
  their theorems hold for every list.

  \<^bold>\<open>Atomicity.\<close> A handler of a message or a request is one step, as is a store method: interleavings are of whole
  steps. The two-phase sweep is the exception; \<open>Expiry\<close> has its phases apart.

  \<^bold>\<open>Not modelled.\<close> What stopping a node does to QUIC (the wait, the closing of the endpoint, the shutdown channel), of which the node keeps
  no state; the text interface made by clap and the match of \<^verbatim>\<open>run_command\<close>, which only hands the arguments on; the setup of the
  log, and log lines, but for those that can panic; file permissions; the configuration values given to quinn and rustls; the widgets,
  layout, colours and icon of the window, and its start by eframe; \<^verbatim>\<open>trust/reputation.rs\<close>, which is empty; the tests.
\<close>

end
